(* ===== verification/Prelude.thy ===== *)
theory Prelude
imports Main "HOL-Library.Word"
begin

text \<open>
  Shared vocabulary of the development: bytes and C strings, the outcome of a C computation
  (a value or a fault, where a fault is behaviour the C standard does not define), the answers
  of the allocator, the CoAP status codes of \<^verbatim>\<open>liblwm2m.h\<close>, and the generic lemmas the components
  share.
\<close>

section \<open>Bytes and C strings\<close>

type_synonym byte = "8 word"
type_synonym u16 = "16 word"
type_synonym u32 = "32 word"
type_synonym i64 = "64 word"

text \<open>A string literal of the source as the bytes of its characters, without the terminator.\<close>

definition bytes :: "string \<Rightarrow> byte list" where
  "bytes s = map of_char s"

section \<open>Faults and outcomes\<close>

text \<open>
  What the C code can do that is not a value: the reasons are kept apart because the properties
  say which one occurs.
\<close>

datatype fault =
    NullDeref        \<comment> \<open>a null pointer is dereferenced\<close>
  | OutOfBounds      \<comment> \<open>a read or write outside an array\<close>
  | UnionMisread     \<comment> \<open>a union is read through a member other than the one stored\<close>
  | Uninitialised    \<comment> \<open>bytes never written are used\<close>
  | SignedOverflow   \<comment> \<open>signed arithmetic leaves its range\<close>
  | DivByZero
  | DoubleFree       \<comment> \<open>a block is freed twice\<close>
  | UseAfterFree     \<comment> \<open>a freed block is read or written\<close>
  | InvalidFree      \<comment> \<open>something other than the start of a block of the heap is freed\<close>
  | Hang             \<comment> \<open>the code enters a loop it never leaves\<close>

type_synonym 'a res = "fault + 'a"

definition bindE :: "'a res \<Rightarrow> ('a \<Rightarrow> 'b res) \<Rightarrow> 'b res" where
  "bindE m f = (case m of Inl e \<Rightarrow> Inl e | Inr x \<Rightarrow> f x)"

definition ok :: "'a res \<Rightarrow> bool" where
  "ok m \<longleftrightarrow> (case m of Inl _ \<Rightarrow> False | Inr _ \<Rightarrow> True)"

lemma bindE_simps [simp]:
  "bindE (Inl e) f = Inl e"
  "bindE (Inr x) f = f x"
  by (simp_all add: bindE_def)

lemma ok_simps [simp]:
  "\<not> ok (Inl e)"
  "ok (Inr x)"
  by (simp_all add: ok_def)

lemma bindE_Inr_iff: "bindE m f = Inr y \<longleftrightarrow> (\<exists>x. m = Inr x \<and> f x = Inr y)"
  by (cases m) simp_all

lemma bindE_Inr_E:
  assumes "bindE m f = Inr y"
  obtains x where "m = Inr x" and "f x = Inr y"
  using assms by (auto simp: bindE_Inr_iff)

lemma ok_iff: "ok m \<longleftrightarrow> (\<exists>x. m = Inr x)"
  by (cases m) simp_all

lemma ok_bindE: "ok (bindE m f) \<longleftrightarrow> (\<exists>x. m = Inr x \<and> ok (f x))"
  by (cases m) simp_all

lemma bindE_cong [fundef_cong]:
  assumes "m = m'" and "\<And>x. m' = Inr x \<Longrightarrow> f x = g x"
  shows "bindE m f = bindE m' g"
  using assms by (cases m') simp_all

lemma bindE_split_asm:
  "P (bindE m f) \<longleftrightarrow> \<not> ((\<exists>e. m = Inl e \<and> \<not> P (Inl e)) \<or> (\<exists>x. m = Inr x \<and> \<not> P (f x)))"
  by (cases m) simp_all

section \<open>C strings in arrays\<close>

text \<open>
  The C string stored at the start of an array: the bytes before the first zero. An array
  without a zero is read past its end.
\<close>

definition c_string :: "byte list \<Rightarrow> byte list res" where
  "c_string arr = (if 0 \<in> set arr then Inr (takeWhile (\<lambda>b. b \<noteq> 0) arr) else Inl OutOfBounds)"

text \<open>\<^verbatim>\<open>strncmp(a, b, n) == 0\<close> where \<open>b\<close> is a literal and \<open>a\<close> has \<open>n\<close> bytes.\<close>

fun strncmp_eq :: "byte list \<Rightarrow> byte list \<Rightarrow> nat \<Rightarrow> bool" where
  "strncmp_eq a b 0 = True"
| "strncmp_eq a b (Suc n) =
     (let x = (case a of [] \<Rightarrow> 0 | c # _ \<Rightarrow> c); y = (case b of [] \<Rightarrow> 0 | c # _ \<Rightarrow> c) in
      if x \<noteq> y then False else if x = 0 then True else strncmp_eq (drop 1 a) (drop 1 b) n)"

text \<open>
  \<^verbatim>\<open>strncpy(dst, src, n)\<close> for a source of \<open>n\<close> bytes: the bytes up to the first zero, padded with
  zeros to \<open>n\<close>; the bytes of \<open>dst\<close> after the first \<open>n\<close> stay.
\<close>

definition strncpy :: "byte list \<Rightarrow> byte list \<Rightarrow> nat \<Rightarrow> byte list res" where
  "strncpy dst src n =
     (if length dst < n then Inl OutOfBounds
      else let s = takeWhile (\<lambda>b. b \<noteq> 0) (take n src) in
           Inr (s @ replicate (n - length s) 0 @ drop n dst))"

lemma strncpy_length: "strncpy dst src n = Inr r \<Longrightarrow> length r = length dst"
proof -
  assume "strncpy dst src n = Inr r"
  moreover have "length (takeWhile (\<lambda>b. b \<noteq> 0) (take n src)) \<le> n"
    by (rule le_trans [OF length_takeWhile_le]) simp
  ultimately show ?thesis by (auto simp: strncpy_def Let_def split: if_splits)
qed

lemma strncpy_ok: "n \<le> length dst \<Longrightarrow> ok (strncpy dst src n)"
  by (simp add: strncpy_def Let_def)

lemma strncpy_nth_tail:
  assumes "strncpy dst src n = Inr r" and "n \<le> i" and "i < length dst"
  shows "r ! i = dst ! i"
proof -
  let ?s = "takeWhile (\<lambda>b. b \<noteq> 0) (take n src)"
  define pre where "pre = ?s @ replicate (n - length ?s) 0"
  have "length ?s \<le> n"
    by (rule le_trans [OF length_takeWhile_le]) simp
  then have len: "length pre = n" by (simp add: pre_def)
  from assms(1) have "r = pre @ drop n dst"
    by (auto simp: strncpy_def Let_def pre_def split: if_splits)
  with len show ?thesis using assms(2,3) by (simp add: nth_append)
qed

section \<open>The allocator\<close>

text \<open>
  \<^verbatim>\<open>lwm2m_malloc\<close> is supplied by the platform (\<^verbatim>\<open>malloc\<close>, \<^verbatim>\<open>pvPortMalloc\<close>). What the code sees of it
  is whether each call succeeds: \<open>mem\<close> lists the answers of the coming calls, and after the listed
  ones every call succeeds. \<open>[]\<close> is thus a platform that never runs out of memory.
\<close>

type_synonym mem = "bool list"

definition lwm2m_malloc :: "mem \<Rightarrow> bool \<times> mem" where
  "lwm2m_malloc m = (case m of [] \<Rightarrow> (True, []) | b # m' \<Rightarrow> (b, m'))"

lemma lwm2m_malloc_Nil [simp]: "lwm2m_malloc [] = (True, [])"
  by (simp add: lwm2m_malloc_def)

lemma lwm2m_malloc_Cons [simp]: "lwm2m_malloc (b # m) = (b, m)"
  by (simp add: lwm2m_malloc_def)

section \<open>CoAP status codes\<close>

abbreviation COAP_NO_ERROR :: byte where "COAP_NO_ERROR \<equiv> 0x00"
abbreviation COAP_201_CREATED :: byte where "COAP_201_CREATED \<equiv> 0x41"
abbreviation COAP_202_DELETED :: byte where "COAP_202_DELETED \<equiv> 0x42"
abbreviation COAP_204_CHANGED :: byte where "COAP_204_CHANGED \<equiv> 0x44"
abbreviation COAP_205_CONTENT :: byte where "COAP_205_CONTENT \<equiv> 0x45"
abbreviation COAP_400_BAD_REQUEST :: byte where "COAP_400_BAD_REQUEST \<equiv> 0x80"
abbreviation COAP_404_NOT_FOUND :: byte where "COAP_404_NOT_FOUND \<equiv> 0x84"
abbreviation COAP_405_METHOD_NOT_ALLOWED :: byte where "COAP_405_METHOD_NOT_ALLOWED \<equiv> 0x85"
abbreviation COAP_406_NOT_ACCEPTABLE :: byte where "COAP_406_NOT_ACCEPTABLE \<equiv> 0x86"
abbreviation COAP_500_INTERNAL_SERVER_ERROR :: byte where "COAP_500_INTERNAL_SERVER_ERROR \<equiv> 0xA0"
abbreviation COAP_501_NOT_IMPLEMENTED :: byte where "COAP_501_NOT_IMPLEMENTED \<equiv> 0xA1"

section \<open>Lemmas on words and lists\<close>

named_theorems tlv_simps "facts that evaluate headers and lengths of TLV records"

lemma word16_nat_of_bytes:
  fixes h l :: byte
  shows "unat (word_of_nat (unat h * 256 + unat l) :: u16) = unat h * 256 + unat l"
proof -
  have "unat h < 256" and "unat l < 256"
    using unsigned_less [of h, where ?'a = nat] unsigned_less [of l, where ?'a = nat] by simp_all
  then have "unat h * 256 + unat l < 65536" by linarith
  then show ?thesis by (simp only: unat_of_nat) simp
qed

lemma unat_plus_one: "unat (w :: u16) + 1 < 65536 \<Longrightarrow> unat (w + 1) = unat w + 1"
  by (simp add: unat_word_ariths)

lemma unat_ucast_up:
  assumes "LENGTH('a::len) \<le> LENGTH('b::len)"
  shows "unat (ucast (w :: 'a word) :: 'b word) = unat w"
proof -
  have "unat w < 2 ^ LENGTH('a)" by (rule unsigned_less)
  also have "(2::nat) ^ LENGTH('a) \<le> 2 ^ LENGTH('b)" using assms by (rule power_increasing) simp
  finally show ?thesis by (simp add: unsigned_ucast_eq take_bit_nat_eq_self)
qed

lemma unat_byte_less [simp]: "unat (b :: byte) < 256"
  using unsigned_less [of b, where ?'a = nat] by simp

end
