(* ===== verification/Lwm2m_Base64.thy ===== *)
theory Lwm2m_Base64
imports Prelude
begin

text \<open>
  The base64 routines of \<^verbatim>\<open>external/wakaama/utils.c\<close>. The encoder is the usual one. The decoder is
  translated as written, pointer arithmetic included: \<^verbatim>\<open>*bufferP[k]\<close> dereferences the \<open>k\<close>-th pointer
  after \<^verbatim>\<open>bufferP\<close>, which for \<open>k > 0\<close> lies outside the variable.
\<close>

unbundle bit_operations_syntax

section \<open>Encoding\<close>

definition b64Alphabet :: "byte list" where
  "b64Alphabet = bytes ''ABCDEFGHIJKLMNOPQRSTUVWXYZabcdefghijklmnopqrstuvwxyz0123456789+/''"

definition b64_char :: "byte \<Rightarrow> byte" where
  "b64_char v = b64Alphabet ! unat v"

definition PRV_B64_PADDING :: byte where "PRV_B64_PADDING = 61"

definition prv_encodeBlock :: "byte \<Rightarrow> byte \<Rightarrow> byte \<Rightarrow> byte list" where
  "prv_encodeBlock a b c =
     [b64_char (drop_bit 2 a),
      b64_char (push_bit 4 (a AND 0x03) OR drop_bit 4 b),
      b64_char (push_bit 2 (b AND 0x0F) OR drop_bit 6 c),
      b64_char (c AND 0x3F)]"

definition prv_getBase64Size :: "nat \<Rightarrow> nat" where
  "prv_getBase64Size n = 4 * (n div 3) + (if n mod 3 \<noteq> 0 then 4 else 0)"

text \<open>The while loop of \<^verbatim>\<open>utils_base64Encode\<close>: what is written from the current block on.\<close>

fun base64_blocks :: "byte list \<Rightarrow> byte list" where
  "base64_blocks [] = []"
| "base64_blocks [a] =
     [b64_char (drop_bit 2 a), b64_char (push_bit 4 (a AND 0x03)), PRV_B64_PADDING, PRV_B64_PADDING]"
| "base64_blocks [a, b] =
     [b64_char (drop_bit 2 a), b64_char (push_bit 4 (a AND 0x03) OR drop_bit 4 b),
      b64_char (push_bit 2 (b AND 0x0F)), PRV_B64_PADDING]"
| "base64_blocks (a # b # c # ds) = prv_encodeBlock a b c @ base64_blocks ds"

definition utils_base64Encode :: "byte list \<Rightarrow> nat \<Rightarrow> byte list option" where
  "utils_base64Encode dataP bufferLen =
     (if bufferLen < prv_getBase64Size (length dataP) then None else Some (base64_blocks dataP))"

definition utils_opaqueToBase64 :: "byte list \<Rightarrow> mem \<Rightarrow> byte list option \<times> mem" where
  "utils_opaqueToBase64 dataP mem =
     (case lwm2m_malloc mem of
        (False, mem') \<Rightarrow> (None, mem')
      | (True, mem') \<Rightarrow>
          (case utils_base64Encode dataP (prv_getBase64Size (length dataP)) of
             None \<Rightarrow> (None, mem')
           | Some [] \<Rightarrow> (None, mem')
           | Some r \<Rightarrow> (Some r, mem')))"

section \<open>Decoding\<close>

definition prv_b64Revert :: "byte \<Rightarrow> byte" where
  "prv_b64Revert v =
     (if 65 \<le> v \<and> v \<le> 90 then v - 65
      else if 97 \<le> v \<and> v \<le> 122 then 26 + v - 97
      else if 48 \<le> v \<and> v \<le> 57 then 52 + v - 48
      else if v = 43 then 62
      else if v = 47 then 63
      else 0)"

definition prv_decodeBlock :: "byte \<Rightarrow> byte \<Rightarrow> byte \<Rightarrow> byte \<Rightarrow> byte list" where
  "prv_decodeBlock a b c d =
     (let t0 = prv_b64Revert a; t1 = prv_b64Revert b; t2 = prv_b64Revert c; t3 = prv_b64Revert d in
      [push_bit 2 t0 OR drop_bit 4 t1, push_bit 4 t1 OR drop_bit 2 t2, push_bit 6 t2 OR t3])"

fun decode_blocks :: "byte list \<Rightarrow> byte list" where
  "decode_blocks (a # b # c # d # rest) = prv_decodeBlock a b c d @ decode_blocks rest"
| "decode_blocks _ = []"

text \<open>The loop that removes the padding reads below the array when nothing else is there.\<close>

fun strip_padding :: "byte list \<Rightarrow> nat \<Rightarrow> nat res" where
  "strip_padding dataP 0 = Inl OutOfBounds"
| "strip_padding dataP (Suc n) =
     (if dataP ! n = PRV_B64_PADDING then strip_padding dataP n else Inr (Suc n))"

definition utils_base64ToOpaque :: "byte list \<Rightarrow> mem \<Rightarrow> (byte list option \<times> mem) res" where
  "utils_base64ToOpaque dataP mem =
     (if length dataP mod 4 \<noteq> 0 then Inr (None, mem)
      else case lwm2m_malloc mem of
        (False, mem') \<Rightarrow> Inr (None, mem')
      | (True, mem') \<Rightarrow>
          bindE (strip_padding dataP (length dataP)) (\<lambda>dataLen.
            let data_index = 4 * ((dataLen + 3) div 4);
                out = decode_blocks (take data_index dataP);
                result_len = 3 * (length dataP div 4);
                buffer = out @ replicate (result_len - length out) 0 in
            if data_index - dataLen = 0 then Inr (Some buffer, mem')
            else if data_index - dataLen = 2 \<or> data_index - dataLen = 3 then Inl OutOfBounds
            else Inr (None, mem')))"

section \<open>What the pair computes\<close>

lemma length_base64_blocks: "length (base64_blocks xs) = prv_getBase64Size (length xs)"
  by (induction xs rule: base64_blocks.induct)
    (auto simp: prv_getBase64Size_def prv_encodeBlock_def div_add1_eq [of 3] add.commute [of _ 3])

lemma b64Alphabet_codes:
  "b64Alphabet =
     [65, 66, 67, 68, 69, 70, 71, 72, 73, 74, 75, 76, 77, 78, 79, 80, 81, 82, 83, 84, 85, 86,
     87, 88, 89, 90, 97, 98, 99, 100, 101, 102, 103, 104, 105, 106, 107, 108, 109, 110, 111,
     112, 113, 114, 115, 116, 117, 118, 119, 120, 121, 122, 48, 49, 50, 51, 52, 53, 54, 55, 56,
     57, 43, 47]"
  by (simp add: b64Alphabet_def bytes_def)

lemma map_revert_alphabet:
  "map prv_b64Revert b64Alphabet =
     [0, 1, 2, 3, 4, 5, 6, 7, 8, 9, 10, 11, 12, 13, 14, 15, 16, 17, 18, 19, 20, 21, 22, 23, 24,
     25, 26, 27, 28, 29, 30, 31, 32, 33, 34, 35, 36, 37, 38, 39, 40, 41, 42, 43, 44, 45, 46,
     47, 48, 49, 50, 51, 52, 53, 54, 55, 56, 57, 58, 59, 60, 61, 62, 63]"
  by (simp add: b64Alphabet_codes prv_b64Revert_def)

lemma upt_64:
  "map word_of_nat [0..<64] =
     ([0, 1, 2, 3, 4, 5, 6, 7, 8, 9, 10, 11, 12, 13, 14, 15, 16, 17, 18, 19, 20, 21, 22, 23, 24,
     25, 26, 27, 28, 29, 30, 31, 32, 33, 34, 35, 36, 37, 38, 39, 40, 41, 42, 43, 44, 45, 46,
     47, 48, 49, 50, 51, 52, 53, 54, 55, 56, 57, 58, 59, 60, 61, 62, 63] :: byte list)"
  by (simp add: upt_rec)

lemma length_b64Alphabet: "length b64Alphabet = 64"
  by (simp add: b64Alphabet_codes)

lemma b64Revert_nth: "n < 64 \<Longrightarrow> prv_b64Revert (b64Alphabet ! n) = word_of_nat n"
proof -
  assume n: "n < 64"
  then have "prv_b64Revert (b64Alphabet ! n) = map prv_b64Revert b64Alphabet ! n"
    by (simp add: length_b64Alphabet)
  also have "\<dots> = map word_of_nat [0..<64] ! n"
    by (simp only: map_revert_alphabet upt_64)
  also have "\<dots> = word_of_nat n" using n by simp
  finally show ?thesis .
qed

lemma padding_not_in_alphabet: "PRV_B64_PADDING \<notin> set b64Alphabet"
  by (simp add: b64Alphabet_codes PRV_B64_PADDING_def)

lemma revert_char: "unat v < 64 \<Longrightarrow> prv_b64Revert (b64_char v) = v"
  by (simp add: b64_char_def b64Revert_nth)

lemma char_not_padding: "unat v < 64 \<Longrightarrow> b64_char v \<noteq> PRV_B64_PADDING"
  using padding_not_in_alphabet by (auto simp: b64_char_def length_b64Alphabet in_set_conv_nth)

lemma unat_less_64_iff: "unat (v :: byte) < 64 \<longleftrightarrow> \<not> bit v 6 \<and> \<not> bit v 7"
proof -
  have "unat v < 64 \<longleftrightarrow> take_bit 6 (unat v) = unat v"
    by (simp add: take_bit_nat_eq_self_iff)
  also have "\<dots> \<longleftrightarrow> take_bit 6 v = v"
    by (simp add: word_unat_eq_iff unsigned_take_bit_eq)
  also have "\<dots> \<longleftrightarrow> \<not> bit v 6 \<and> \<not> bit v 7"
  proof
    assume eq: "take_bit 6 v = v"
    have "\<not> bit (take_bit 6 v) 6" and "\<not> bit (take_bit 6 v) 7"
      by (simp_all add: bit_take_bit_iff)
    then show "\<not> bit v 6 \<and> \<not> bit v 7" by (simp only: eq) simp
  next
    assume "\<not> bit v 6 \<and> \<not> bit v 7"
    then show "take_bit 6 v = v"
      by (intro bit_word_eqI) (auto simp: bit_take_bit_iff less_Suc_eq numeral_eq_Suc)
  qed
  finally show ?thesis .
qed

lemma byte_masks:
  "(a :: byte) AND 0x03 = take_bit 2 a"
  "(a :: byte) AND 0x0F = take_bit 4 a"
  "(a :: byte) AND 0x3F = take_bit 6 a"
  by (simp_all add: take_bit_eq_mask mask_eq_exp_minus_1)

lemmas byte_bits =
  byte_masks bit_or_iff bit_push_bit_iff bit_drop_bit_eq bit_take_bit_iff

lemma sextets_small:
  "unat (drop_bit 2 a :: byte) < 64"
  "unat (push_bit 4 (a AND 0x03) OR drop_bit 4 b :: byte) < 64"
  "unat (push_bit 2 (b AND 0x0F) OR drop_bit 6 c :: byte) < 64"
  "unat (c AND 0x3F :: byte) < 64"
  "unat (push_bit 4 (a AND 0x03) :: byte) < 64"
  "unat (push_bit 2 (b AND 0x0F) :: byte) < 64"
  unfolding unat_less_64_iff
  by (auto simp: byte_bits dest: bit_imp_le_length)

lemma decode_encode_block:
  "decode_blocks (prv_encodeBlock a b c @ rest) = [a, b, c] @ decode_blocks rest"
proof -
  have a: "push_bit 2 (drop_bit 2 a) OR drop_bit 4 (push_bit 4 (a AND 0x03) OR drop_bit 4 b) = a"
  proof (rule bit_word_eqI)
    fix n assume "n < LENGTH(8)"
    moreover have "\<not> n < 2 \<Longrightarrow> Suc (Suc (n - 2)) = n" by arith
    ultimately show "bit (push_bit 2 (drop_bit 2 a) OR drop_bit 4 (push_bit 4 (a AND 0x03) OR drop_bit 4 b)) n = bit a n"
      by (cases "n < 2") (auto simp: byte_bits dest: bit_imp_le_length)
  qed
  have b: "push_bit 4 (push_bit 4 (a AND 0x03) OR drop_bit 4 b)
      OR drop_bit 2 (push_bit 2 (b AND 0x0F) OR drop_bit 6 c) = b"
  proof (rule bit_word_eqI)
    fix n assume "n < LENGTH(8)"
    then show "bit (push_bit 4 (push_bit 4 (a AND 0x03) OR drop_bit 4 b)
      OR drop_bit 2 (push_bit 2 (b AND 0x0F) OR drop_bit 6 c)) n = bit b n"
      by (cases "n < 4") (auto simp: byte_bits dest: bit_imp_le_length)
  qed
  have c: "push_bit 6 (push_bit 2 (b AND 0x0F) OR drop_bit 6 c) OR (c AND 0x3F) = c"
  proof (rule bit_word_eqI)
    fix n assume "n < LENGTH(8)"
    then show "bit (push_bit 6 (push_bit 2 (b AND 0x0F) OR drop_bit 6 c) OR (c AND 0x3F)) n = bit c n"
      by (cases "n < 6") (auto simp: byte_bits dest: bit_imp_le_length)
  qed
  show ?thesis
    by (simp only: prv_encodeBlock_def prv_decodeBlock_def Let_def revert_char sextets_small a b c
        decode_blocks.simps append.simps)
qed

lemma base64_blocks_append:
  "length xs mod 3 = 0 \<Longrightarrow> base64_blocks (xs @ ys) = base64_blocks xs @ base64_blocks ys"
  by (induction xs rule: base64_blocks.induct) auto

lemma decode_base64_blocks:
  "length xs mod 3 = 0 \<Longrightarrow> decode_blocks (base64_blocks xs @ rest) = xs @ decode_blocks rest"
  by (induction xs rule: base64_blocks.induct) (auto simp: decode_encode_block)

lemma decode_base64_blocks_all:
  "length xs mod 3 = 0 \<Longrightarrow> decode_blocks (base64_blocks xs) = xs"
  using decode_base64_blocks [of xs "[]"] by simp

text \<open>Every input splits into whole blocks and a rest of at most two bytes.\<close>

lemma split_blocks:
  obtains ys zs where "xs = ys @ zs" and "length ys mod 3 = 0" and "length zs = length xs mod 3"
proof -
  let ?k = "3 * (length xs div 3)"
  have "xs = take ?k xs @ drop ?k xs" by simp
  moreover have "length (take ?k xs) mod 3 = 0"
    using times_div_less_eq_dividend [of 3 "length xs"] by (simp add: min_absorb2)
  moreover have "length (drop ?k xs) = length xs mod 3"
    by (simp only: length_drop minus_mult_div_eq_mod)
  ultimately show thesis by (rule that)
qed

lemma split_last_block:
  assumes "length xs mod 3 = 0" and "xs \<noteq> []"
  obtains ys a b c where "xs = ys @ [a, b, c]" and "length ys mod 3 = 0"
proof -
  have len: "3 \<le> length xs" using assms by (cases xs) (auto, arith)
  define t where "t = drop (length xs - 3) xs"
  have "length t = Suc (Suc (Suc 0))" using len by (simp add: t_def)
  then obtain a b c where "t = [a, b, c]"
    by (auto simp: length_Suc_conv)
  then have d: "drop (length xs - 3) xs = [a, b, c]" by (simp add: t_def)
  have "xs = take (length xs - 3) xs @ [a, b, c]" by (metis append_take_drop_id d)
  moreover have "length (take (length xs - 3) xs) mod 3 = 0"
    using assms(1) len by (simp add: min_def mod_eq_0_iff_dvd)
  ultimately show thesis by (rule that)
qed

lemma length_blocks_whole: "length ys mod 3 = 0 \<Longrightarrow> length (base64_blocks ys) = 4 * (length ys div 3)"
  by (simp add: length_base64_blocks prv_getBase64Size_def)

lemma base64_roundtrip_whole:
  assumes "length xs mod 3 = 0" and "xs \<noteq> []"
  shows "utils_base64ToOpaque (base64_blocks xs) [] = Inr (Some xs, [])"
proof -
  obtain ys a b c where xs: "xs = ys @ [a, b, c]" and ys: "length ys mod 3 = 0"
    using split_last_block [OF assms] .
  have enc: "base64_blocks xs = base64_blocks ys @ prv_encodeBlock a b c"
    by (simp add: xs base64_blocks_append [OF ys])
  have len: "length (base64_blocks xs) = 4 * (length xs div 3)"
    by (rule length_blocks_whole [OF assms(1)])
  have strip: "strip_padding (base64_blocks xs) (length (base64_blocks xs))
      = Inr (length (base64_blocks xs))"
    using char_not_padding [OF sextets_small(4), of c]
    by (simp add: enc prv_encodeBlock_def nth_append)
  have idx: "4 * ((4 * n + 3) div 4) = 4 * (n::nat)" for n by simp
  have l3: "3 * (length xs div 3) = length xs" using assms(1) by (simp add: mult_div_mod_eq minus_mod_eq_mult_div [symmetric])
  show ?thesis
    unfolding utils_base64ToOpaque_def strip
    by (simp add: len idx l3 Let_def decode_base64_blocks_all [OF assms(1)])
qed

lemma base64_decode_one_pad:
  assumes "length xs mod 3 = 2"
  shows "utils_base64ToOpaque (base64_blocks xs) [] = Inr (None, [])"
proof -
  obtain ys zs where xs: "xs = ys @ zs" and ys: "length ys mod 3 = 0" and "length zs = 2"
    by (metis split_blocks assms)
  then obtain a b where "zs = [a, b]" by (auto simp: length_Suc_conv numeral_2_eq_2)
  then have enc: "base64_blocks xs = base64_blocks ys @ base64_blocks [a, b]"
    by (simp only: xs base64_blocks_append [OF ys])
  have len: "length (base64_blocks ys) = 4 * (length ys div 3)"
    by (rule length_blocks_whole [OF ys])
  have strip: "strip_padding (base64_blocks xs) (length (base64_blocks xs))
      = Inr (4 * (length ys div 3) + 3)"
    using char_not_padding [OF sextets_small(6), of b]
    by (simp add: enc nth_append len)
  have idx: "4 * ((4 * n + 6) div 4) = 4 * n + (4::nat)" for n by simp
  show ?thesis
    unfolding utils_base64ToOpaque_def strip
    by (simp add: enc len Let_def idx)
qed

lemma base64_decode_two_pads:
  assumes "length xs mod 3 = 1"
  shows "utils_base64ToOpaque (base64_blocks xs) [] = Inl OutOfBounds"
proof -
  obtain ys zs where xs: "xs = ys @ zs" and ys: "length ys mod 3 = 0" and "length zs = 1"
    by (metis split_blocks assms)
  then obtain a where "zs = [a]" by (auto simp: length_Suc_conv)
  then have enc: "base64_blocks xs = base64_blocks ys @ base64_blocks [a]"
    by (simp only: xs base64_blocks_append [OF ys])
  have len: "length (base64_blocks ys) = 4 * (length ys div 3)"
    by (rule length_blocks_whole [OF ys])
  have strip: "strip_padding (base64_blocks xs) (length (base64_blocks xs))
      = Inr (4 * (length ys div 3) + 2)"
    using char_not_padding [OF sextets_small(5), of a]
    by (simp add: enc nth_append len)
  have idx: "4 * ((4 * n + 5) div 4) = 4 * n + (4::nat)" for n by simp
  show ?thesis
    unfolding utils_base64ToOpaque_def strip
    by (simp add: enc len Let_def idx)
qed

text \<open>
  C34. Base64 text of whole blocks is decoded to what was encoded: an opaque value whose length is a
  multiple of three makes four characters for every three bytes, and the decoder returns it.
\<close>

theorem base64_roundtrip:
  assumes "length xs mod 3 = 0" and "xs \<noteq> []"
  shows "\<exists>e. utils_opaqueToBase64 xs [] = (Some e, []) \<and> length e = 4 * (length xs div 3)
    \<and> utils_base64ToOpaque e [] = Inr (Some xs, [])"
proof -
  have "base64_blocks xs \<noteq> []" using assms(2) by (cases xs rule: base64_blocks.cases) (auto simp: prv_encodeBlock_def)
  then have "utils_opaqueToBase64 xs [] = (Some (base64_blocks xs), [])"
    by (auto simp: utils_opaqueToBase64_def utils_base64Encode_def lwm2m_malloc_def split: list.split)
  then show ?thesis
    using base64_roundtrip_whole [OF assms] length_blocks_whole [OF assms(1)] by blast
qed

lemma base64_roundtrip_witness:
  "\<exists>e. utils_opaqueToBase64 [1, 2, 250] [] = (Some e, []) \<and> length e = 4 * (length [1, 2, 250 :: byte] div 3)
    \<and> utils_base64ToOpaque e [] = Inr (Some [1, 2, 250], [])"
  by (rule base64_roundtrip) simp_all

text \<open>
  Base64 text with padding is never decoded: with one padding character the decoder reports a
  failure, with two it dereferences a pointer outside its output variable.
\<close>

theorem base64_padding_broken:
  assumes "length xs mod 3 \<noteq> 0"
  shows "utils_base64ToOpaque (base64_blocks xs) []
    = (if length xs mod 3 = 2 then Inr (None, []) else Inl OutOfBounds)"
proof (cases "length xs mod 3 = 2")
  case True
  then show ?thesis by (simp add: base64_decode_one_pad)
next
  case False
  then have "length xs mod 3 = 1" using assms mod_less_divisor [of 3 "length xs"] by linarith
  then show ?thesis by (simp add: base64_decode_two_pads)
qed

lemma base64_padding_broken_witness:
  "utils_base64ToOpaque (base64_blocks [1, 2, 3, 4]) []
    = (if length [1, 2, 3, 4 :: byte] mod 3 = 2 then Inr (None, []) else Inl OutOfBounds)"
  by (rule base64_padding_broken) simp

end
