(* ===== verification/Lwm2m_Utils.thy ===== *)
theory Lwm2m_Utils
imports Prelude
begin

text \<open>
  The integer conversions of \<^verbatim>\<open>external/wakaama/utils.c\<close>, built for a little-endian target
  (\<^verbatim>\<open>LWM2M_LITTLE_ENDIAN\<close>): decimal text, and the big-endian two's complement bytes of TLV values.
\<close>

unbundle bit_operations_syntax

section \<open>Integers in memory\<close>

text \<open>The bytes of a \<open>w\<close>-bit integer in memory, least significant first, and back.\<close>

definition to_memory :: "nat \<Rightarrow> 'a::len word \<Rightarrow> byte list" where
  "to_memory n w = map (\<lambda>i. ucast (drop_bit (8 * i) w)) [0..<n]"

fun of_memory :: "byte list \<Rightarrow> 'a::len word" where
  "of_memory [] = 0"
| "of_memory (b # bs) = ucast b OR push_bit 8 (of_memory bs)"

text \<open>\<^verbatim>\<open>utils_copyValue\<close> for \<^verbatim>\<open>LWM2M_LITTLE_ENDIAN\<close> copies \<open>len\<close> bytes in reverse.\<close>

definition utils_copyValue :: "byte list \<Rightarrow> byte list" where
  "utils_copyValue src = rev src"

definition utils_opaqueToInt :: "byte list \<Rightarrow> nat \<times> i64" where
  "utils_opaqueToInt buffer =
     (case length buffer of
        Suc 0 \<Rightarrow> (1, scast (hd buffer))
      | n \<Rightarrow>
        if n = 2 then (2, scast (of_memory (utils_copyValue buffer) :: u16))
        else if n = 4 then (4, scast (of_memory (utils_copyValue buffer) :: u32))
        else if n = 8 then (8, of_memory (utils_copyValue buffer))
        else (0, 0))"

definition utils_encodeInt :: "i64 \<Rightarrow> byte list" where
  "utils_encodeInt data =
     (if -128 \<le> sint data \<and> sint data \<le> 127 then [ucast data]
      else if -32768 \<le> sint data \<and> sint data \<le> 32767 then
        (let value = (ucast data :: u16) in
         [ucast (drop_bit 8 value AND 0xFF), ucast (value AND 0xFF)])
      else if -2147483648 \<le> sint data \<and> sint data \<le> 2147483647 then
        (let value = (ucast data :: u32) in utils_copyValue (to_memory 4 value))
      else utils_copyValue (to_memory 8 data))"

lemma utils_encodeInt_length: "length (utils_encodeInt v) \<in> {1, 2, 4, 8}"
  by (simp add: utils_encodeInt_def utils_copyValue_def to_memory_def Let_def)

lemma bit_of_memory:
  "bit (of_memory bs :: 'a::len word) i \<longleftrightarrow>
     i < LENGTH('a) \<and> i < 8 * length bs \<and> bit (bs ! (i div 8)) (i mod 8)"
proof (induction bs arbitrary: i)
  case Nil
  then show ?case by simp
next
  case (Cons b bs)
  show ?case
  proof (cases "i < 8")
    case True
    then show ?thesis by (auto simp: bit_or_iff bit_push_bit_iff bit_ucast_iff)
  next
    case False
    then have "(b # bs) ! (i div 8) = bs ! ((i - 8) div 8)" and "(i - 8) mod 8 = i mod 8"
      by (simp_all add: le_div_geq le_mod_geq)
    moreover have "\<not> bit b i" using False by (auto dest: bit_imp_le_length)
    ultimately show ?thesis using False Cons [of "i - 8"]
      by (auto simp: bit_or_iff bit_push_bit_iff bit_ucast_iff)
  qed
qed

lemma of_to_memory:
  assumes "LENGTH('a::len) = 8 * n"
  shows "of_memory (to_memory n w) = (w :: 'a word)"
proof (rule bit_word_eqI)
  fix i
  assume i: "i < LENGTH('a)"
  with assms have "i div 8 < n" by (simp add: less_mult_imp_div_less mult.commute)
  then have "to_memory n w ! (i div 8) = ucast (drop_bit (8 * (i div 8)) w)"
    by (simp add: to_memory_def)
  then have "bit (to_memory n w ! (i div 8)) (i mod 8) = bit w i"
    by (simp add: bit_ucast_iff bit_drop_bit_eq)
  then show "bit (of_memory (to_memory n w) :: 'a word) i = bit w i"
    using i assms by (simp add: bit_of_memory) (simp add: to_memory_def)
qed

lemma of_memory_be16:
  "of_memory (rev [ucast (drop_bit 8 (v :: u16) AND 0xFF), ucast (v AND 0xFF)]) = v"
proof -
  have "rev [ucast (drop_bit 8 v AND 0xFF), ucast (v AND 0xFF) :: byte] = to_memory 2 v"
    by (rule nth_equalityI)
      (auto simp: to_memory_def less_Suc_eq numeral_2_eq_2 intro!: bit_word_eqI
        simp: bit_ucast_iff bit_and_iff bit_drop_bit_eq mask_eq_decr_exp [symmetric])
  then show ?thesis by (simp add: of_to_memory)
qed

lemma sint_ucast_narrow:
  fixes v :: i64
  assumes "- (2 ^ (LENGTH('b::len) - 1)) \<le> sint v" and "sint v < 2 ^ (LENGTH('b) - 1)"
    and "LENGTH('b) \<le> 64"
  shows "scast (ucast v :: 'b word) = v"
proof -
  have le: "LENGTH('b) - Suc 0 \<le> 63" using assms(3) by simp
  have "sint (ucast v :: 'b word) = signed_take_bit (LENGTH('b) - 1) (uint v)"
    using assms(3) by (simp add: signed_ucast_eq)
  also have "\<dots> = signed_take_bit (LENGTH('b) - 1) (sint v)"
    using le by (simp add: sint_uint signed_take_bit_signed_take_bit min_def)
  also have "\<dots> = sint v"
    using assms(1,2) by (simp add: signed_take_bit_int_eq_self)
  finally have "scast (ucast v :: 'b word) = (word_of_int (sint v) :: i64)"
    by (simp add: scast_eq)
  then show ?thesis by simp
qed

lemma encodeInt_cases:
  obtains "-128 \<le> sint v" "sint v \<le> 127" "utils_encodeInt v = [ucast v]"
  | "\<not> (-128 \<le> sint v \<and> sint v \<le> 127)" "-32768 \<le> sint v" "sint v \<le> 32767"
      "utils_encodeInt v
       = [ucast (drop_bit 8 (ucast v :: u16) AND 0xFF), ucast ((ucast v :: u16) AND 0xFF)]"
  | "-2147483648 \<le> sint v" "sint v \<le> 2147483647"
      "utils_encodeInt v = rev (to_memory 4 (ucast v :: u32))"
  | "utils_encodeInt v = rev (to_memory 8 v)"
  by (cases "-128 \<le> sint v \<and> sint v \<le> 127"; cases "-32768 \<le> sint v \<and> sint v \<le> 32767";
      cases "-2147483648 \<le> sint v \<and> sint v \<le> 2147483647")
    (auto simp: utils_encodeInt_def utils_copyValue_def Let_def)

lemma opaqueToInt_encodeInt_roundtrip:
  "utils_opaqueToInt (utils_encodeInt v) = (length (utils_encodeInt v), v)"
proof (cases rule: encodeInt_cases [of v])
  case 1
  then show ?thesis
    using sint_ucast_narrow [where ?'b = 8, of v] by (simp add: utils_opaqueToInt_def)
next
  case 2
  then show ?thesis
    using sint_ucast_narrow [where ?'b = 16, of v] of_memory_be16 [of "ucast v"]
    by (simp add: utils_opaqueToInt_def utils_copyValue_def numeral_2_eq_2 del: rev.simps)
next
  case 3
  then show ?thesis
    using sint_ucast_narrow [where ?'b = 32, of v] of_to_memory [of 4 "ucast v :: u32"]
    by (simp add: utils_opaqueToInt_def utils_copyValue_def to_memory_def [of 4] split: nat.split)
next
  case 4
  then show ?thesis
    using of_to_memory [of 8 v]
    by (simp add: utils_opaqueToInt_def utils_copyValue_def to_memory_def [of 8] split: nat.split)
qed

section \<open>Decimal text\<close>

definition UINT64_MAX :: i64 where "UINT64_MAX = 0xFFFFFFFFFFFFFFFF"
definition INT64_MAX :: i64 where "INT64_MAX = 0x7FFFFFFFFFFFFFFF"

definition is_digit_byte :: "byte \<Rightarrow> bool" where
  "is_digit_byte c \<longleftrightarrow> 48 \<le> c \<and> c \<le> 57"

text \<open>The while loop of \<^verbatim>\<open>utils_plainTextToInt64\<close>; \<open>None\<close> is its \<^verbatim>\<open>return 0\<close>.\<close>

fun plain_digits :: "byte list \<Rightarrow> i64 \<Rightarrow> i64 option" where
  "plain_digits [] result = Some result"
| "plain_digits (c # cs) result =
     (if is_digit_byte c then
        (if UINT64_MAX div 10 < result then None
         else plain_digits cs (result * 10 + (ucast c - 48)))
      else None)"

definition utils_plainTextToInt64 :: "byte list \<Rightarrow> i64 option" where
  "utils_plainTextToInt64 buffer =
     (if buffer = [] then None
      else
        let minus = (hd buffer = 45);
            digits = (if minus then tl buffer else buffer) in
        case plain_digits digits 0 of
          None \<Rightarrow> None
        | Some result \<Rightarrow>
            if INT64_MAX < result then None
            else if minus then Some (0 - result) else Some result)"

text \<open>
  The do-while loop of \<^verbatim>\<open>utils_intToText\<close> writes the digits from the end of the buffer: \<open>index\<close> is
  the place of the next character, \<open>acc\<close> what stands behind it.
\<close>

function text_digits :: "int \<Rightarrow> nat \<Rightarrow> byte list \<Rightarrow> int \<times> nat \<times> byte list" where
  "text_digits index d acc =
     (let acc' = (48 + word_of_nat (d mod 10)) # acc; d' = d div 10; index' = index - 1 in
      if 0 \<le> index' \<and> 0 < d' then text_digits index' d' acc' else (index', d', acc'))"
  by pat_completeness auto
termination
  by (relation "measure (\<lambda>(index, d, acc). d)") auto

declare text_digits.simps [simp del]

text \<open>
  The text is the list of bytes left at the start of the buffer; \<open>[]\<close> is the result 0.
  \<open>len\<close> is the size of the buffer: with size 0 the first digit is written before it, and a
  buffer that the digits of a negative number fill leaves no place for the sign.
\<close>

definition utils_intToText :: "i64 \<Rightarrow> nat \<Rightarrow> byte list res" where
  "utils_intToText data len =
     (if sint data = - (2 ^ 63) then Inl SignedOverflow
      else if len = 0 then Inl OutOfBounds
      else
        let minus = (sint data < 0); d = nat \<bar>sint data\<bar>;
            (index, d', text) = text_digits (int len - 1) d [] in
        if 0 < d' then Inr []
        else if minus then
          (if index = 0 then Inr []
           else if index < 0 then Inl OutOfBounds
           else Inr (45 # text))
        else Inr text)"

definition PRV_STR_LENGTH :: nat where "PRV_STR_LENGTH = 32"

definition utils_int64ToPlainText :: "i64 \<Rightarrow> mem \<Rightarrow> (byte list \<times> mem) res" where
  "utils_int64ToPlainText data mem =
     bindE (utils_intToText data PRV_STR_LENGTH) (\<lambda>text.
       if text = [] then Inr ([], mem)
       else case lwm2m_malloc mem of
         (False, mem') \<Rightarrow> Inr ([], mem')
       | (True, mem') \<Rightarrow> Inr (text, mem'))"

definition utils_boolToPlainText :: "bool \<Rightarrow> mem \<Rightarrow> (byte list \<times> mem) res" where
  "utils_boolToPlainText data mem = utils_int64ToPlainText (if data then 1 else 0) mem"

definition utils_stringCopy :: "nat \<Rightarrow> byte list \<Rightarrow> byte list option" where
  "utils_stringCopy len str = (if length str < len then Some (str @ [0]) else None)"

definition utils_intCopy :: "nat \<Rightarrow> u32 \<Rightarrow> (byte list option) res" where
  "utils_intCopy len value =
     bindE (utils_intToText (scast value) 11) (\<lambda>str.
       if str = [] then Inr None
       else if len + 1 < length str then Inr None
       else if len < length str + 1 then Inl OutOfBounds
       else Inr (Some (str @ [0])))"

section \<open>Decimal text: what the conversions compute\<close>

text \<open>The value of a digit string, continuing from \<open>v\<close>.\<close>

fun decimal_from :: "nat \<Rightarrow> byte list \<Rightarrow> nat" where
  "decimal_from v [] = v"
| "decimal_from v (c # cs) = decimal_from (10 * v + (unat c - 48)) cs"

lemma decimal_from_append: "decimal_from v (xs @ ys) = decimal_from (decimal_from v xs) ys"
  by (induction xs arbitrary: v) simp_all

lemma decimal_from_ge: "v \<le> decimal_from v cs"
proof (induction cs arbitrary: v)
  case Nil
  then show ?case by simp
next
  case (Cons c cs)
  have "10 * v + (unat c - 48) \<le> decimal_from (10 * v + (unat c - 48)) cs" by (rule Cons.IH)
  then show ?case by (simp only: decimal_from.simps)
qed

lemma digit_byte:
  assumes "k < 10"
  shows "is_digit_byte (48 + word_of_nat k)" and "unat (48 + word_of_nat k :: byte) = 48 + k"
proof -
  have "unat (word_of_nat k :: byte) = k"
    using assms by (simp add: unat_of_nat)
  then show u: "unat (48 + word_of_nat k :: byte) = 48 + k"
    using assms by (simp add: unat_word_ariths)
  show "is_digit_byte (48 + word_of_nat k)"
    using assms unfolding is_digit_byte_def by (simp add: word_le_nat_alt u)
qed

lemma text_digits_decimal:
  assumes "int d < 10 ^ nat (index + 1)" and "0 \<le> index"
  shows "\<exists>ds. text_digits index d acc = (index - int (length ds), 0, ds @ acc)
      \<and> ds \<noteq> [] \<and> list_all is_digit_byte ds \<and> decimal_from 0 ds = d
      \<and> (0 < d \<longrightarrow> hd ds \<noteq> 48) \<and> 10 ^ (length ds - 1) \<le> max 1 d"
  using assms
proof (induction index d acc rule: text_digits.induct)
  case (1 index d acc)
  let ?c = "48 + word_of_nat (d mod 10) :: byte"
  have c: "is_digit_byte ?c" "unat ?c = 48 + d mod 10"
    by (rule digit_byte; simp)+
  show ?case
  proof (cases "0 \<le> index - 1 \<and> 0 < d div 10")
    case True
    have pow: "nat (index + 1) = Suc (nat (index - 1 + 1))" using True by (simp add: nat_add_distrib)
    have "int (d div 10) < 10 ^ nat (index - 1 + 1)"
    proof -
      have "int d < 10 * 10 ^ nat (index - 1 + 1)"
        using "1.prems"(1) unfolding pow by simp
      then show ?thesis by (simp add: zdiv_int)
    qed
    then obtain ds where ds: "text_digits (index - 1) (d div 10) (?c # acc)
        = (index - 1 - int (length ds), 0, ds @ ?c # acc)" "ds \<noteq> []" "list_all is_digit_byte ds"
        "decimal_from 0 ds = d div 10" "hd ds \<noteq> 48" "10 ^ (length ds - 1) \<le> max 1 (d div 10)"
      using "1.IH" [OF refl refl refl] True by fastforce
    have len: "10 ^ length ds \<le> max 1 d"
    proof -
      have "(10::nat) ^ length ds = 10 * 10 ^ (length ds - 1)"
        using ds(2) by (cases ds) simp_all
      also have "\<dots> \<le> 10 * (d div 10)" using ds(6) True by simp
      finally show ?thesis by simp
    qed
    show ?thesis
      by (rule exI [of _ "ds @ [?c]"])
        (use ds True c len in \<open>simp add: text_digits.simps [of index] Let_def decimal_from_append\<close>)
  next
    case False
    have small: "d < 10"
    proof (cases "index = 0")
      case True
      then show ?thesis using "1.prems"(1) by simp
    next
      case False
      then show ?thesis using \<open>\<not> (0 \<le> index - 1 \<and> 0 < d div 10)\<close> "1.prems"(2) by auto
    qed
    then have "0 < d \<longrightarrow> ?c \<noteq> 48"
      using c(2) by (auto simp: word_unat_eq_iff)
    then show ?thesis
      by (intro exI [of _ "[?c]"])
        (use False c small in \<open>auto simp: text_digits.simps [of index] Let_def\<close>)
  qed
qed

lemma plain_digits_decimal:
  "list_all is_digit_byte cs \<Longrightarrow> decimal_from (unat r) cs < 2 ^ 64 \<Longrightarrow>
   plain_digits cs r = Some (word_of_nat (decimal_from (unat r) cs))"
proof (induction cs arbitrary: r)
  case Nil
  then show ?case by simp
next
  case (Cons c cs)
  let ?r = "r * 10 + (ucast c - 48)"
  have c: "48 \<le> unat c" "unat c \<le> 57"
    using Cons.prems(1) by (simp_all add: is_digit_byte_def word_le_nat_alt)
  have "10 * unat r + (unat c - 48) \<le> decimal_from (unat r) (c # cs)"
    using decimal_from_ge by simp
  then have bound: "10 * unat r + (unat c - 48) < 2 ^ 64"
    using Cons.prems(2) by linarith
  have "unat (ucast c - 48 :: i64) = unat c - 48"
    using c by (simp add: unat_sub word_le_nat_alt unat_ucast_up)
  then have r: "unat ?r = 10 * unat r + (unat c - 48)"
    using bound by (simp add: unat_word_ariths)
  have "\<not> UINT64_MAX div 10 < r"
    using bound by (simp add: UINT64_MAX_def word_less_nat_alt unat_div)
  then show ?case
    using Cons.IH [of ?r] Cons.prems r by simp
qed

lemma sint64_bounds: "- (2 ^ 63) \<le> sint (v :: i64)" "sint (v :: i64) < 2 ^ 63"
  using sint_ge [of v] sint_lt [of v] by simp_all

lemma nat_abs_sint64:
  assumes "sint (v :: i64) \<noteq> - (2 ^ 63)"
  shows "nat \<bar>sint v\<bar> < 9223372036854775808"
  using sint64_bounds [of v] assms by simp

lemma unat_of_nonneg: "0 \<le> sint (v :: i64) \<Longrightarrow> word_of_nat (nat (sint v)) = v"
  by (simp add: of_nat_nat)

lemma unat_of_nat64: "n < 18446744073709551616 \<Longrightarrow> unat (word_of_nat n :: i64) = n"
  by (simp add: unat_of_nat)

lemma ten_pow_20: "(10::nat) ^ (n - 1) \<le> max 1 d \<Longrightarrow> d < 9223372036854775808 \<Longrightarrow> n < 20"
proof (rule ccontr)
  assume le: "(10::nat) ^ (n - 1) \<le> max 1 d" and d: "d < 9223372036854775808" and "\<not> n < 20"
  then have "(10::nat) ^ 19 \<le> 10 ^ (n - 1)" by (intro power_increasing) simp_all
  also note le
  finally show False using d by (simp add: max_def split: if_splits)
qed

lemma intToText_shape:
  assumes "sint v \<noteq> - (2 ^ 63)"
  obtains ds where "utils_intToText v 32 = Inr (if sint v < 0 then 45 # ds else ds)"
    and "ds \<noteq> []" and "list_all is_digit_byte ds" and "decimal_from 0 ds = nat \<bar>sint v\<bar>"
    and "length ds < 20"
proof -
  define d where "d = nat \<bar>sint v\<bar>"
  have d: "d < 9223372036854775808" unfolding d_def by (rule nat_abs_sint64 [OF assms])
  then have "int d < 10 ^ nat (31 + 1)" by simp
  from text_digits_decimal [OF this, of "[]"]
  obtain ds where t: "text_digits 31 d [] = (31 - int (length ds), 0, ds)" and ne: "ds \<noteq> []"
      and dig: "list_all is_digit_byte ds" and dec: "decimal_from 0 ds = d"
      and len: "10 ^ (length ds - 1) \<le> max 1 d"
    unfolding append_Nil2 using zero_le_numeral by blast
  have "length ds < 20" using ten_pow_20 [OF len d] .
  moreover from this have "utils_intToText v 32 = Inr (if sint v < 0 then 45 # ds else ds)"
    using t assms unfolding utils_intToText_def Let_def d_def [symmetric] by simp
  ultimately show thesis using that ne dig dec unfolding d_def by blast
qed

lemma hd_digit_not_minus: "ds \<noteq> [] \<Longrightarrow> list_all is_digit_byte ds \<Longrightarrow> hd ds \<noteq> 45"
  by (cases ds) (auto simp: is_digit_byte_def)

lemma int_text_read:
  assumes "sint v \<noteq> - (2 ^ 63)"
  shows "\<exists>t. utils_intToText v 32 = Inr t \<and> t \<noteq> [] \<and> length t \<le> 20
    \<and> utils_plainTextToInt64 t = Some v"
proof -
  obtain ds where ds: "utils_intToText v 32 = Inr (if sint v < 0 then 45 # ds else ds)"
      "ds \<noteq> []" "list_all is_digit_byte ds" "decimal_from 0 ds = nat \<bar>sint v\<bar>" "length ds < 20"
    using intToText_shape [OF assms] by blast
  define n where "n = nat \<bar>sint v\<bar>"
  have n: "n < 9223372036854775808" unfolding n_def by (rule nat_abs_sint64 [OF assms])
  then have digits: "plain_digits ds 0 = Some (word_of_nat n)"
    using plain_digits_decimal [OF ds(3), of 0] ds(4) by (simp add: n_def [symmetric])
  have "unat (word_of_nat n :: i64) = n" using n by (simp add: unat_of_nat64)
  then have small: "\<not> INT64_MAX < word_of_nat n"
    using n by (simp add: INT64_MAX_def word_less_nat_alt)
  show ?thesis
  proof (cases "sint v < 0")
    case True
    then have "word_of_nat n = (- v :: i64)"
      by (simp add: n_def of_nat_nat)
    then show ?thesis
      using True ds(1,5) digits small by (simp add: utils_plainTextToInt64_def Let_def)
  next
    case False
    then have "word_of_nat n = v" using unat_of_nonneg [of v] by (simp add: n_def)
    then show ?thesis
      using False ds digits small hd_digit_not_minus [of ds]
      by (simp add: utils_plainTextToInt64_def Let_def)
  qed
qed

text \<open>
  C35. The text of every integer but the least one has at most 20 characters and is converted back to
  the same integer.
\<close>

theorem intToText_roundtrip:
  assumes "sint v \<noteq> - (2 ^ 63)"
  shows "\<exists>t. utils_intToText v 32 = Inr t \<and> t \<noteq> [] \<and> length t \<le> 20
    \<and> utils_plainTextToInt64 t = Some v"
  by (rule int_text_read [OF assms])

lemma intToText_roundtrip_witness:
  "\<exists>t. utils_intToText (- 1234567) 32 = Inr t \<and> t \<noteq> [] \<and> length t \<le> 20
    \<and> utils_plainTextToInt64 t = Some (- 1234567)"
  by (rule intToText_roundtrip) simp

lemma plainTextToInt64_wraps:
  "utils_plainTextToInt64 (bytes ''18446744073709551619'') = Some 3"
  by (simp add: bytes_def utils_plainTextToInt64_def is_digit_byte_def UINT64_MAX_def INT64_MAX_def)

lemma plainTextToInt64_lone_minus: "utils_plainTextToInt64 (bytes ''-'') = Some 0"
  by (simp add: bytes_def utils_plainTextToInt64_def INT64_MAX_def)

text \<open>
  A string of digits whose value fits in 64 bits is converted to that value when it fits an
  \<^verbatim>\<open>int64_t\<close>, and refused otherwise.
\<close>

theorem plainTextToInt64_decimal:
  assumes "ds \<noteq> []" and "list_all is_digit_byte ds" and "decimal_from 0 ds < 2 ^ 64"
  shows "utils_plainTextToInt64 ds =
    (if decimal_from 0 ds < 2 ^ 63 then Some (word_of_nat (decimal_from 0 ds)) else None)"
proof -
  have "unat (word_of_nat (decimal_from 0 ds) :: i64) = decimal_from 0 ds"
    using assms(3) by (simp add: unat_of_nat)
  then show ?thesis
    using assms plain_digits_decimal [of ds 0] hd_digit_not_minus [of ds]
    by (auto simp: utils_plainTextToInt64_def Let_def INT64_MAX_def word_less_nat_alt)
qed

lemma plainTextToInt64_decimal_witness:
  "utils_plainTextToInt64 (bytes ''9223372036854775808'') =
    (if decimal_from 0 (bytes ''9223372036854775808'') < 2 ^ 63
     then Some (word_of_nat (decimal_from 0 (bytes ''9223372036854775808''))) else None)"
  by (rule plainTextToInt64_decimal) (simp_all add: bytes_def is_digit_byte_def)

text \<open>
  The big-endian bytes \<^verbatim>\<open>utils_encodeInt\<close> makes of an integer have one of the four lengths a TLV
  integer may have, and \<^verbatim>\<open>utils_opaqueToInt\<close> reads the integer back.
\<close>

theorem encodeInt_roundtrip:
  "utils_opaqueToInt (utils_encodeInt v) = (length (utils_encodeInt v), v)
    \<and> length (utils_encodeInt v) \<in> {1, 2, 4, 8}"
  using opaqueToInt_encodeInt_roundtrip utils_encodeInt_length by blast

section \<open>Narrowing a value that fits\<close>

lemma uint_of_nonneg: "0 \<le> sint (v :: i64) \<Longrightarrow> uint v = sint v"
proof -
  assume v: "0 \<le> sint v"
  have "uint v = uint (word_of_int (sint v) :: i64)" by simp
  also have "\<dots> = take_bit 64 (sint v)" by (simp only: uint_word_of_int_eq) simp
  also have "\<dots> = sint v" using v sint64_bounds(2) [of v] by (simp add: take_bit_int_eq_self)
  finally show ?thesis .
qed

lemma ucast_narrow_widen:
  assumes "uint (v :: 'a::len word) < 2 ^ LENGTH('b::len)" and "LENGTH('b) \<le> LENGTH('a)"
  shows "ucast (ucast v :: 'b word) = v"
  using assms by (simp add: word_uint_eq_iff unsigned_ucast_eq unsigned_take_bit_eq take_bit_int_eq_self)

lemma ucast_u32_roundtrip:
  "0 \<le> sint v \<Longrightarrow> sint v \<le> 0xFFFFFFFF \<Longrightarrow> ucast (ucast (v :: i64) :: u32) = v"
  by (rule ucast_narrow_widen) (simp_all add: uint_of_nonneg)

lemma ucast_u16_roundtrip:
  assumes "0 \<le> sint v" and "sint v \<le> 0xFFFF"
  shows "ucast (ucast (ucast (v :: i64) :: u32) :: u16) = v" and "(ucast v :: u32) \<le> 0xFFFF" 
   and "sint v \<noteq> 0 \<Longrightarrow> 0 < (ucast v :: u32)"
proof -
  have v: "uint v \<le> 0xFFFF" "uint v = sint v" using assms uint_of_nonneg [of v] by simp_all
  then have u: "uint (ucast v :: u32) = uint v"
    using assms(1) by (simp add: unsigned_ucast_eq take_bit_int_eq_self)
  have u16: "uint (ucast (ucast v :: u32) :: u16) = uint v"
    using v assms(1) by (simp only: unsigned_ucast_eq [of "ucast v :: u32"] u)
      (simp add: take_bit_int_eq_self)
  have "uint (ucast (ucast (ucast v :: u32) :: u16) :: i64) = uint v"
    using v assms(1) by (simp only: unsigned_ucast_eq [of "ucast (ucast v :: u32) :: u16"] u16)
      (simp add: take_bit_int_eq_self)
  then show "ucast (ucast (ucast v :: u32) :: u16) = v" by (simp only: word_uint_eq_iff)
  show "(ucast v :: u32) \<le> 0xFFFF" using u v by (simp add: word_le_def)
  show "0 < (ucast v :: u32)" if "sint v \<noteq> 0"
    using u v that assms(1) by (simp add: word_less_alt)
qed

section \<open>Bindings and alternative paths\<close>

datatype lwm2m_binding =
    BINDING_UNKNOWN
  | BINDING_U
  | BINDING_UQ
  | BINDING_S
  | BINDING_SQ
  | BINDING_US
  | BINDING_UQS
  | BINDING_C
  | BINDING_T

definition utils_stringToBinding :: "byte list \<Rightarrow> lwm2m_binding" where
  "utils_stringToBinding buffer =
     (let n = length buffer in
      if n = 0 then BINDING_UNKNOWN
      else if buffer ! 0 = 85 then
        (if n = 1 then BINDING_U
         else if n = 2 then
           (if buffer ! 1 = 81 then BINDING_UQ
            else if buffer ! 1 = 83 then BINDING_US else BINDING_UNKNOWN)
         else if n = 3 then
           (if buffer ! 1 = 81 \<and> buffer ! 2 = 83 then BINDING_UQS else BINDING_UNKNOWN)
         else BINDING_UNKNOWN)
      else if buffer ! 0 = 83 then
        (if n = 1 then BINDING_S
         else if n = 2 then (if buffer ! 1 = 81 then BINDING_SQ else BINDING_UNKNOWN)
         else BINDING_UNKNOWN)
      else if buffer ! 0 = 84 then (if n = 1 then BINDING_T else BINDING_UNKNOWN)
      else if buffer ! 0 = 67 then (if n = 1 then BINDING_C else BINDING_UNKNOWN)
      else BINDING_UNKNOWN)"

text \<open>The characters of an alternative path, from index 1 on.\<close>

fun alt_path_chars :: "byte list \<Rightarrow> bool res" where
  "alt_path_chars [] = Inl OutOfBounds"
| "alt_path_chars (c # cs) =
     (if c = 0 then Inr True
      else if c = 47 then Inr False
      else if (c < 65 \<or> 90 < c) \<and> (c < 97 \<or> 122 < c) \<and> (c < 48 \<or> 57 < c)
        \<and> c \<noteq> 45 \<and> c \<noteq> 46 \<and> c \<noteq> 95 \<and> c \<noteq> 126 \<and> c \<noteq> 37 then Inr False
      else alt_path_chars cs)"

definition utils_isAltPathValid :: "byte list option \<Rightarrow> bool res" where
  "utils_isAltPathValid altPath =
     (case altPath of
        None \<Rightarrow> Inr False
      | Some [] \<Rightarrow> Inl OutOfBounds
      | Some (c # cs) \<Rightarrow> if c \<noteq> 47 then Inr False else alt_path_chars cs)"

end
