(* ===== verification/Ieee.thy ===== *)
theory Ieee
imports Prelude
begin

text \<open>
  C's \<^verbatim>\<open>float\<close> and \<^verbatim>\<open>double\<close> as the bit patterns of IEEE 754 binary32 and binary64, with the
  operations the code applies to them: conversions between the two, conversion from \<^verbatim>\<open>int64_t\<close>,
  comparison with \<^verbatim>\<open>FLT_MAX\<close>, and the arithmetic of the decimal parser. Every arithmetic result is
  the exact rational result rounded to nearest, ties to even.
\<close>

unbundle bit_operations_syntax

type_synonym double = "64 word"
type_synonym cfloat = "32 word"

section \<open>Rounding\<close>

text \<open>The number of binary digits of \<open>n\<close>.\<close>

function bit_count :: "int \<Rightarrow> int" where
  "bit_count n = (if n \<le> 0 then 0 else 1 + bit_count (n div 2))"
  by pat_completeness auto
termination by (relation "measure nat") auto

declare bit_count.simps [simp del]

text \<open>\<open>2 ^ k\<close> for an exponent \<open>k\<close> that is not negative.\<close>

function pow2 :: "int \<Rightarrow> int" where
  "pow2 k = (if k \<le> 0 then 1
     else let x = pow2 (k div 2) in if even k then x * x else 2 * (x * x))"
  by pat_completeness auto
termination by (relation "measure nat") auto

declare pow2.simps [simp del]

text \<open>\<open>n / d\<close> rounded to an integer, ties to even.\<close>

definition round_quotient :: "int \<Rightarrow> int \<Rightarrow> int" where
  "round_quotient n d =
     (let q = n div d; r = n mod d in
      if 2 * r < d then q else if d < 2 * r then q + 1 else if even q then q else q + 1)"

text \<open>
  \<open>scaled k n d\<close> is \<open>n / d * 2 ^ k\<close> as a numerator and a denominator. The exponent of the first
  binary digit of \<open>n / d\<close> is \<open>ratio_exponent n d\<close>.
\<close>

definition scaled :: "int \<Rightarrow> int \<Rightarrow> int \<Rightarrow> int \<times> int" where
  "scaled k n d = (if 0 \<le> k then (n * pow2 k, d) else (n, d * pow2 (- k)))"

definition ratio_exponent :: "int \<Rightarrow> int \<Rightarrow> int" where
  "ratio_exponent n d =
     (let e = bit_count n - bit_count d; (n', d') = scaled (- e) n d in
      if n' < d' then e - 1 else e)"

text \<open>
  The bit pattern, sign aside, of the number nearest to \<open>n / d\<close> in a format with \<open>p\<close> fraction
  bits, least normal exponent \<open>emin\<close> and \<open>pinf\<close> as the pattern of infinity. The subnormal and the
  normal numbers are one sequence of patterns, so a carry out of the fraction lands in the
  exponent.
\<close>

definition round_ratio :: "int \<Rightarrow> int \<Rightarrow> int \<Rightarrow> int \<Rightarrow> int \<Rightarrow> int" where
  "round_ratio p emin pinf n d =
     (if n = 0 then 0
      else
        let q = max (ratio_exponent n d) emin - p;
            (n', d') = scaled (- q) n d;
            m = round_quotient n' d' in
        min pinf ((q + p - emin) * pow2 p + m))"

definition double_of_ratio :: "bool \<Rightarrow> int \<Rightarrow> int \<Rightarrow> double" where
  "double_of_ratio neg n d =
     (if neg then 2 ^ 63 else 0) + word_of_int (round_ratio 52 (- 1022) 0x7FF0000000000000 n d)"

definition float_of_ratio :: "bool \<Rightarrow> int \<Rightarrow> int \<Rightarrow> cfloat" where
  "float_of_ratio neg n d =
     (if neg then 2 ^ 31 else 0) + word_of_int (round_ratio 23 (- 126) 0x7F800000 n d)"

section \<open>Reading a pattern\<close>

definition double_neg :: "double \<Rightarrow> bool" where "double_neg x \<longleftrightarrow> bit x 63"
definition double_mag :: "double \<Rightarrow> int" where "double_mag x = uint x mod 2 ^ 63"
definition double_nan :: "double \<Rightarrow> bool" where
  "double_nan x \<longleftrightarrow> 0x7FF0000000000000 < double_mag x"
definition double_inf :: "double \<Rightarrow> bool" where
  "double_inf x \<longleftrightarrow> double_mag x = 0x7FF0000000000000"

text \<open>The magnitude of a finite double as a ratio.\<close>

definition double_ratio :: "double \<Rightarrow> int \<times> int" where
  "double_ratio x =
     (let e = double_mag x div 2 ^ 52; f = double_mag x mod 2 ^ 52 in
      if e = 0 then scaled (- 1074) f 1 else scaled (e - 1075) (2 ^ 52 + f) 1)"

definition float_mag :: "cfloat \<Rightarrow> int" where "float_mag x = uint x mod 2 ^ 31"

definition float_ratio :: "cfloat \<Rightarrow> int \<times> int" where
  "float_ratio x =
     (let e = float_mag x div 2 ^ 23; f = float_mag x mod 2 ^ 23 in
      if e = 0 then scaled (- 149) f 1 else scaled (e - 150) (2 ^ 23 + f) 1)"

section \<open>Conversions\<close>

text \<open>
  Infinities convert to infinities; a NaN keeps the leading bits of its payload and becomes quiet,
  as the hardware does.
\<close>

definition float_to_double :: "cfloat \<Rightarrow> double" where
  "float_to_double x =
     (if float_mag x < 0x7F800000 then
        (case float_ratio x of (n, d) \<Rightarrow> double_of_ratio (bit x 31) n d)
      else
        (if bit x 31 then 2 ^ 63 else 0) + 0x7FF0000000000000
        + (if float_mag x = 0x7F800000 then 0
           else word_of_int ((float_mag x mod 2 ^ 23) * 2 ^ 29) OR 2 ^ 51))"

definition double_to_float :: "double \<Rightarrow> cfloat" where
  "double_to_float x =
     (if double_mag x < 0x7FF0000000000000 then
        (case double_ratio x of (n, d) \<Rightarrow> float_of_ratio (double_neg x) n d)
      else
        (if double_neg x then 2 ^ 31 else 0) + 0x7F800000
        + (if double_mag x = 0x7FF0000000000000 then 0
           else word_of_int ((double_mag x mod 2 ^ 52) div 2 ^ 29) OR 2 ^ 22))"

definition int_to_double :: "64 word \<Rightarrow> double" where
  "int_to_double v = double_of_ratio (sint v < 0) \<bar>sint v\<bar> 1"

text \<open>\<^verbatim>\<open>x < 0.0 - (double)FLT_MAX || x > (double)FLT_MAX\<close>: false for a NaN.\<close>

definition exceeds_float :: "double \<Rightarrow> bool" where
  "exceeds_float x \<longleftrightarrow> 0x47EFFFFFE0000000 < double_mag x \<and> \<not> double_nan x"

section \<open>Arithmetic of non-negative doubles\<close>

text \<open>
  The decimal parser only adds, multiplies and divides numbers that are not negative; the sign is
  applied at the end.
\<close>

definition dbl_mul :: "double \<Rightarrow> double \<Rightarrow> double" where
  "dbl_mul x y =
     (case double_ratio x of (n, d) \<Rightarrow> case double_ratio y of (n', d') \<Rightarrow>
        double_of_ratio False (n * n') (d * d'))"

definition dbl_div :: "double \<Rightarrow> double \<Rightarrow> double" where
  "dbl_div x y =
     (case double_ratio x of (n, d) \<Rightarrow> case double_ratio y of (n', d') \<Rightarrow>
        double_of_ratio False (n * d') (d * n'))"

definition dbl_add :: "double \<Rightarrow> double \<Rightarrow> double" where
  "dbl_add x y =
     (case double_ratio x of (n, d) \<Rightarrow> case double_ratio y of (n', d') \<Rightarrow>
        double_of_ratio False (n * d' + n' * d) (d * d'))"

text \<open>For non-negative doubles the order of the numbers is the order of the patterns.\<close>

definition dbl_less :: "double \<Rightarrow> double \<Rightarrow> bool" where
  "dbl_less x y \<longleftrightarrow> double_mag x < double_mag y"

definition double_of_nat :: "int \<Rightarrow> double" where
  "double_of_nat n = double_of_ratio False n 1"

definition DBL_MAX :: double where "DBL_MAX = 0x7FEFFFFFFFFFFFFF"

text \<open>The constant \<^verbatim>\<open>DBL_MAX/10\<close>.\<close>

definition DBL_MAX_10 :: double where "DBL_MAX_10 = 0x7FB9999999999999"

section \<open>\<^verbatim>\<open>utils_plainTextToFloat64\<close>\<close>

definition byte_digit :: "byte \<Rightarrow> int option" where
  "byte_digit c = (if 48 \<le> c \<and> c \<le> 57 then Some (uint c - 48) else None)"

text \<open>
  The first while loop: the integer part, up to a dot. The result is the value and the rest of
  the text, which is empty or starts with the dot.
\<close>

fun float_int_part :: "byte list \<Rightarrow> double \<Rightarrow> (double \<times> byte list) option" where
  "float_int_part [] result = Some (result, [])"
| "float_int_part (c # cs) result =
     (if c = 46 then Some (result, c # cs)
      else case byte_digit c of
        None \<Rightarrow> None
      | Some k \<Rightarrow>
          if dbl_less DBL_MAX_10 result then None
          else float_int_part cs (dbl_add (dbl_mul result (double_of_nat 10)) (double_of_nat k)))"

text \<open>The second while loop: the decimals, each weighted by the double \<open>dec\<close>.\<close>

fun float_dec_part :: "byte list \<Rightarrow> double \<Rightarrow> double \<Rightarrow> double option" where
  "float_dec_part [] result dec = Some result"
| "float_dec_part (c # cs) result dec =
     (case byte_digit c of
        None \<Rightarrow> None
      | Some k \<Rightarrow>
          if dbl_less DBL_MAX result then None
          else float_dec_part cs (dbl_add result (dbl_mul (double_of_nat k) dec))
                 (dbl_div dec (double_of_nat 10)))"

text \<open>
  After the integer part the code tests \<^verbatim>\<open>buffer[i] == '.'\<close> without testing \<^verbatim>\<open>i < length\<close>: a text
  without a dot is read one byte past its end. \<^verbatim>\<open>DBL_MAX - 1\<close> rounds to \<^verbatim>\<open>DBL_MAX\<close>.
\<close>

definition utils_plainTextToFloat64 :: "byte list \<Rightarrow> double option res" where
  "utils_plainTextToFloat64 buffer =
     (if buffer = [] then Inr None
      else
        let minus = (hd buffer = 45);
            digits = (if minus then tl buffer else buffer);
            signed = (\<lambda>r. if minus then r XOR 2 ^ 63 else r) in
        case float_int_part digits 0 of
          None \<Rightarrow> Inr None
        | Some (result, []) \<Rightarrow> Inl OutOfBounds
        | Some (result, dot # decimals) \<Rightarrow>
            if decimals = [] then Inr None
            else Inr (map_option signed
              (float_dec_part decimals result (double_of_ratio False 1 10))))"

section \<open>A text without a dot\<close>

lemma float_int_part_no_dot:
  "46 \<notin> set cs \<Longrightarrow> float_int_part cs r = Some (x, rest) \<Longrightarrow> rest = []"
  by (induction cs r rule: float_int_part.induct) (auto split: option.splits if_splits)

text \<open>
  A text without a decimal point is never converted to a floating point number: either a
  character of it is refused, or the byte after its end is read.
\<close>

theorem plainTextToFloat64_needs_dot:
  assumes "46 \<notin> set b"
  shows "utils_plainTextToFloat64 b = Inr None \<or> utils_plainTextToFloat64 b = Inl OutOfBounds"
proof (cases "b = []")
  case True
  then show ?thesis by (simp add: utils_plainTextToFloat64_def)
next
  case False
  define ds where "ds = (if hd b = 45 then tl b else b)"
  have ds: "46 \<notin> set ds" using assms False by (cases b) (auto simp: ds_def)
  show ?thesis
  proof (cases "float_int_part ds 0")
    case None
    then show ?thesis using False
      unfolding utils_plainTextToFloat64_def Let_def ds_def [symmetric] by simp
  next
    case (Some x)
    obtain r rest where "x = (r, rest)" by (cases x)
    then have "float_int_part ds 0 = Some (r, [])"
      using float_int_part_no_dot [OF ds, of 0] Some by blast
    then show ?thesis using False
      unfolding utils_plainTextToFloat64_def Let_def ds_def [symmetric] by simp
  qed
qed

lemma plainTextToFloat64_needs_dot_witness:
  "utils_plainTextToFloat64 (bytes ''42'') = Inr None
    \<or> utils_plainTextToFloat64 (bytes ''42'') = Inl OutOfBounds"
  by (rule plainTextToFloat64_needs_dot) (simp add: bytes_def)

end
