(* ===== verification/Lwm2m_Data.thy ===== *)
theory Lwm2m_Data
imports Lwm2m_Utils Ieee
begin

text \<open>
  The data elements of \<^verbatim>\<open>external/wakaama/liblwm2m.h\<close> (\<^verbatim>\<open>lwm2m_data_t\<close>) and the functions of
  \<^verbatim>\<open>external/wakaama/data.c\<close> with which the objects fill and read them. A \<^verbatim>\<open>lwm2m_data_t\<close> is an id,
  a type and a union: the constructor of \<open>lwm2m_value\<close> is the type, its arguments the member of
  the union that goes with it.
\<close>

unbundle bit_operations_syntax

section \<open>Data elements\<close>

text \<open>
  \<^verbatim>\<open>asChildren\<close> holds a count and a pointer; both are kept, because a caller can make them
  disagree. The pointer is the array it points to, \<open>[]\<close> when it is null. \<open>V_undefined\<close> is an
  element whose union is still the zeros of \<^verbatim>\<open>lwm2m_data_new\<close>.
\<close>

datatype lwm2m_value =
    V_undefined
  | V_object nat "lwm2m_data list"
  | V_object_instance nat "lwm2m_data list"
  | V_multiple nat "lwm2m_data list"
  | V_string "byte list"
  | V_opaque "byte list"
  | V_integer i64
  | V_float double
  | V_boolean bool
  | V_objlink u16 u16
and lwm2m_data = Data (data_id: u16) (data_value: lwm2m_value)

text \<open>\<^verbatim>\<open>dataP->value.asBuffer\<close>, read without a test of the type.\<close>

definition as_buffer :: "lwm2m_data \<Rightarrow> byte list res" where
  "as_buffer d =
     (case data_value d of
        V_string b \<Rightarrow> Inr b
      | V_opaque b \<Rightarrow> Inr b
      | V_undefined \<Rightarrow> Inr []
      | _ \<Rightarrow> Inl UnionMisread)"

text \<open>\<^verbatim>\<open>dataP->value.asChildren\<close>: the zeros of a fresh element are no children.\<close>

definition as_children :: "lwm2m_value \<Rightarrow> nat \<times> lwm2m_data list" where
  "as_children v =
     (case v of
        V_object n xs \<Rightarrow> (n, xs)
      | V_object_instance n xs \<Rightarrow> (n, xs)
      | V_multiple n xs \<Rightarrow> (n, xs)
      | _ \<Rightarrow> (0, []))"

section \<open>Allocation and encoding\<close>

text \<open>The result is \<open>[]\<close> for a null pointer.\<close>

definition lwm2m_data_new :: "int \<Rightarrow> mem \<Rightarrow> lwm2m_data list \<times> mem" where
  "lwm2m_data_new n m =
     (if n \<le> 0 then ([], m)
      else case lwm2m_malloc m of
        (False, m') \<Rightarrow> ([], m')
      | (True, m') \<Rightarrow> (replicate (nat n) (Data 0 V_undefined), m'))"

text \<open>
  \<^verbatim>\<open>prv_setBuffer\<close>: a copy of the bytes, or nothing when the allocation fails. The empty buffers
  never reach it, except in \<^verbatim>\<open>lwm2m_data_parse\<close>.
\<close>

definition prv_setBuffer :: "byte list \<Rightarrow> mem \<Rightarrow> byte list option \<times> mem" where
  "prv_setBuffer buffer m =
     (case lwm2m_malloc m of (False, m') \<Rightarrow> (None, m') | (True, m') \<Rightarrow> (Some buffer, m'))"

definition lwm2m_data_encode_string :: "byte list \<Rightarrow> lwm2m_data \<Rightarrow> mem \<Rightarrow> lwm2m_data \<times> mem" where
  "lwm2m_data_encode_string str d m =
     (if str = [] then (Data (data_id d) (V_string []), m)
      else case prv_setBuffer str m of
        (Some b, m') \<Rightarrow> (Data (data_id d) (V_string b), m')
      | (None, m') \<Rightarrow> (Data (data_id d) V_undefined, m'))"

definition lwm2m_data_encode_opaque :: "byte list \<Rightarrow> lwm2m_data \<Rightarrow> mem \<Rightarrow> lwm2m_data \<times> mem" where
  "lwm2m_data_encode_opaque buffer d m =
     (if buffer = [] then (Data (data_id d) (V_opaque []), m)
      else case prv_setBuffer buffer m of
        (Some b, m') \<Rightarrow> (Data (data_id d) (V_opaque b), m')
      | (None, m') \<Rightarrow> (Data (data_id d) V_undefined, m'))"

definition lwm2m_data_encode_nstring :: "byte list \<Rightarrow> lwm2m_data \<Rightarrow> mem \<Rightarrow> lwm2m_data \<times> mem" where
  "lwm2m_data_encode_nstring str d m =
     (case lwm2m_data_encode_opaque str d m of
        (Data i (V_opaque b), m') \<Rightarrow> (Data i (V_string b), m')
      | (d', m') \<Rightarrow> (d', m'))"

definition lwm2m_data_encode_int :: "i64 \<Rightarrow> lwm2m_data \<Rightarrow> lwm2m_data" where
  "lwm2m_data_encode_int v d = Data (data_id d) (V_integer v)"

definition lwm2m_data_encode_float :: "double \<Rightarrow> lwm2m_data \<Rightarrow> lwm2m_data" where
  "lwm2m_data_encode_float v d = Data (data_id d) (V_float v)"

definition lwm2m_data_encode_bool :: "bool \<Rightarrow> lwm2m_data \<Rightarrow> lwm2m_data" where
  "lwm2m_data_encode_bool v d = Data (data_id d) (V_boolean v)"

definition lwm2m_data_encode_objlink :: "u16 \<Rightarrow> u16 \<Rightarrow> lwm2m_data \<Rightarrow> lwm2m_data" where
  "lwm2m_data_encode_objlink oid iid d = Data (data_id d) (V_objlink oid iid)"

definition lwm2m_data_include :: "lwm2m_data list \<Rightarrow> nat \<Rightarrow> lwm2m_data \<Rightarrow> lwm2m_data" where
  "lwm2m_data_include subs count d =
     (case subs of
        [] \<Rightarrow> d
      | s # _ \<Rightarrow>
        if count = 0 then d
        else case data_value s of
          V_object_instance _ _ \<Rightarrow> Data (data_id d) (V_object count subs)
        | V_undefined \<Rightarrow> d
        | V_object _ _ \<Rightarrow> d
        | _ \<Rightarrow> Data (data_id d) (V_object_instance count subs))"

definition lwm2m_data_encode_instances :: "lwm2m_data list \<Rightarrow> nat \<Rightarrow> lwm2m_data \<Rightarrow> lwm2m_data" where
  "lwm2m_data_encode_instances subs count d =
     (case as_children (data_value (lwm2m_data_include subs count d)) of
        (n, xs) \<Rightarrow> Data (data_id d) (V_multiple n xs))"

section \<open>Decoding\<close>

text \<open>\<^verbatim>\<open>None\<close> is the result 0, \<open>Some v\<close> the result 1 with \<^verbatim>\<open>*valueP == v\<close>.\<close>

definition lwm2m_data_decode_int :: "lwm2m_data \<Rightarrow> i64 option" where
  "lwm2m_data_decode_int d =
     (case data_value d of
        V_integer v \<Rightarrow> Some v
      | V_string b \<Rightarrow> utils_plainTextToInt64 b
      | V_opaque b \<Rightarrow>
          (case utils_opaqueToInt b of (n, v) \<Rightarrow> if n = length b then Some v else None)
      | _ \<Rightarrow> None)"

text \<open>
  What \<^verbatim>\<open>*valueP\<close> holds after the call. \<^verbatim>\<open>utils_opaqueToInt\<close> clears it before it looks at the length, so
  a refused opaque value leaves 0 in it.
\<close>

definition decode_int_target :: "lwm2m_data \<Rightarrow> i64 \<Rightarrow> i64" where
  "decode_int_target d old =
     (case data_value d of
        V_opaque b \<Rightarrow> snd (utils_opaqueToInt b)
      | _ \<Rightarrow> (case lwm2m_data_decode_int d of Some v \<Rightarrow> v | None \<Rightarrow> old))"

definition utils_opaqueToFloat :: "byte list \<Rightarrow> double \<Rightarrow> nat \<times> double" where
  "utils_opaqueToFloat buffer old =
     (if length buffer = 4 then (4, float_to_double (of_memory (utils_copyValue buffer)))
      else if length buffer = 8 then (8, of_memory (utils_copyValue buffer))
      else (0, old))"

text \<open>\<open>old\<close> is what \<^verbatim>\<open>*valueP\<close> held before the call.\<close>

definition lwm2m_data_decode_float :: "lwm2m_data \<Rightarrow> double \<Rightarrow> double option res" where
  "lwm2m_data_decode_float d old =
     (case data_value d of
        V_float v \<Rightarrow> Inr (Some v)
      | V_integer v \<Rightarrow> Inr (Some (int_to_double v))
      | V_string b \<Rightarrow> utils_plainTextToFloat64 b
      | V_opaque b \<Rightarrow>
          (case utils_opaqueToFloat b old of (n, v) \<Rightarrow>
             Inr (if n = length b then Some v else None))
      | _ \<Rightarrow> Inr None)"

definition lwm2m_data_decode_bool :: "lwm2m_data \<Rightarrow> bool option" where
  "lwm2m_data_decode_bool d =
     (case data_value d of
        V_boolean v \<Rightarrow> Some v
      | V_string b \<Rightarrow>
          (if length b \<noteq> 1 then None
           else if hd b = 48 then Some False else if hd b = 49 then Some True else None)
      | V_opaque b \<Rightarrow>
          (if length b \<noteq> 1 then None
           else if hd b = 0 then Some False else if hd b = 1 then Some True else None)
      | _ \<Rightarrow> None)"

definition utils_encodeFloat :: "double \<Rightarrow> byte list" where
  "utils_encodeFloat data =
     (if exceeds_float data then utils_copyValue (to_memory 8 data)
      else utils_copyValue (to_memory 4 (double_to_float data)))"

section \<open>Signed arithmetic\<close>

text \<open>\<^verbatim>\<open>int64_t\<close> addition and subtraction: undefined when the result does not fit.\<close>

definition fits_i64 :: "int \<Rightarrow> i64 res" where
  "fits_i64 n = (if - (2 ^ 63) \<le> n \<and> n < 2 ^ 63 then Inr (word_of_int n) else Inl SignedOverflow)"

definition add_i64 :: "i64 \<Rightarrow> i64 \<Rightarrow> i64 res" where
  "add_i64 a b = fits_i64 (sint a + sint b)"

definition sub_i64 :: "i64 \<Rightarrow> i64 \<Rightarrow> i64 res" where
  "sub_i64 a b = fits_i64 (sint a - sint b)"

section \<open>Lemmas\<close>

lemma data_new_length [simp]:
  "lwm2m_data_new n m = (ds, m') \<Longrightarrow> ds = [] \<or> length ds = nat n"
  by (auto simp: lwm2m_data_new_def split: if_splits prod.splits bool.splits)

lemma data_new_Nil [simp]:
  "0 < n \<Longrightarrow> lwm2m_data_new n [] = (replicate (nat n) (Data 0 V_undefined), [])"
  by (simp add: lwm2m_data_new_def)

lemma encode_id [simp]:
  "data_id (fst (lwm2m_data_encode_string str d m)) = data_id d"
  "data_id (fst (lwm2m_data_encode_opaque str d m)) = data_id d"
  "data_id (lwm2m_data_encode_int v d) = data_id d"
  "data_id (lwm2m_data_encode_float r d) = data_id d"
  "data_id (lwm2m_data_encode_bool b d) = data_id d"
  "data_id (lwm2m_data_encode_objlink i j d) = data_id d"
  "data_id (lwm2m_data_encode_instances subs n d) = data_id d"
  by (auto simp: lwm2m_data_encode_string_def lwm2m_data_encode_opaque_def
      lwm2m_data_encode_int_def lwm2m_data_encode_float_def lwm2m_data_encode_bool_def
      lwm2m_data_encode_objlink_def lwm2m_data_encode_instances_def
      split: prod.splits option.splits)

text \<open>With memory, the string encoders copy the bytes.\<close>

lemma encode_string_Nil [simp]:
  "lwm2m_data_encode_string s d [] = (Data (data_id d) (V_string s), [])"
  by (simp add: lwm2m_data_encode_string_def prv_setBuffer_def)

lemma encode_opaque_Nil [simp]:
  "lwm2m_data_encode_opaque s d [] = (Data (data_id d) (V_opaque s), [])"
  by (simp add: lwm2m_data_encode_opaque_def prv_setBuffer_def)

lemma encode_nstring_Nil [simp]:
  "lwm2m_data_encode_nstring s d [] = (Data (data_id d) (V_string s), [])"
  by (simp add: lwm2m_data_encode_nstring_def)

lemma encode_simps [simp]:
  "lwm2m_data_encode_int v d = Data (data_id d) (V_integer v)"
  "lwm2m_data_encode_float r d = Data (data_id d) (V_float r)"
  "lwm2m_data_encode_bool b d = Data (data_id d) (V_boolean b)"
  "lwm2m_data_encode_objlink i j d = Data (data_id d) (V_objlink i j)"
  by (simp_all add: lwm2m_data_encode_int_def lwm2m_data_encode_float_def
      lwm2m_data_encode_bool_def lwm2m_data_encode_objlink_def)

lemma as_buffer_simps [simp]:
  "as_buffer (Data i (V_string b)) = Inr b"
  "as_buffer (Data i (V_opaque b)) = Inr b"
  "as_buffer (Data i V_undefined) = Inr []"
  "as_buffer (Data i (V_integer v)) = Inl UnionMisread"
  "as_buffer (Data i (V_float r)) = Inl UnionMisread"
  "as_buffer (Data i (V_boolean t)) = Inl UnionMisread"
  "as_buffer (Data i (V_multiple n xs)) = Inl UnionMisread"
  "as_buffer (Data i (V_object_instance n xs)) = Inl UnionMisread"
  "as_buffer (Data i (V_object n xs)) = Inl UnionMisread"
  "as_buffer (Data i (V_objlink p q)) = Inl UnionMisread"
  by (simp_all add: as_buffer_def)

lemma decode_int_simps [simp]:
  "lwm2m_data_decode_int (Data i (V_integer v)) = Some v"
  "lwm2m_data_decode_int (Data i (V_string b)) = utils_plainTextToInt64 b"
  by (simp_all add: lwm2m_data_decode_int_def)

text \<open>A number written in TLV is decoded to itself.\<close>

lemma decode_int_tlv: "lwm2m_data_decode_int (Data i (V_opaque (utils_encodeInt v))) = Some v"
  by (simp add: lwm2m_data_decode_int_def opaqueToInt_encodeInt_roundtrip)

lemma decode_bool_simps [simp]:
  "lwm2m_data_decode_bool (Data i (V_boolean v)) = Some v"
  "lwm2m_data_decode_bool (Data i (V_opaque [0])) = Some False"
  "lwm2m_data_decode_bool (Data i (V_opaque [1])) = Some True"
  by (simp_all add: lwm2m_data_decode_bool_def)

end
