(* ===== verification/Tlv.thy ===== *)
theory Tlv
imports Lwm2m_Data
begin

text \<open>
  The TLV content format of \<^verbatim>\<open>external/wakaama/tlv.c\<close>: the header of a record, its decoder, the
  parser of a buffer into data elements, the length of a serialisation and the serialiser. The
  buffer of the serialiser is a list of cells, \<open>None\<close> for a byte that was allocated and never
  written.
\<close>

unbundle bit_operations_syntax

section \<open>Headers\<close>

datatype lwm2m_data_type =
    TYPE_UNDEFINED
  | TYPE_OBJECT
  | TYPE_OBJECT_INSTANCE
  | TYPE_MULTIPLE_RESOURCE
  | TYPE_STRING
  | TYPE_OPAQUE
  | TYPE_INTEGER
  | TYPE_FLOAT
  | TYPE_BOOLEAN
  | TYPE_OBJECT_LINK

definition type_of_value :: "lwm2m_value \<Rightarrow> lwm2m_data_type" where
  "type_of_value v =
     (case v of
        V_undefined \<Rightarrow> TYPE_UNDEFINED
      | V_object _ _ \<Rightarrow> TYPE_OBJECT
      | V_object_instance _ _ \<Rightarrow> TYPE_OBJECT_INSTANCE
      | V_multiple _ _ \<Rightarrow> TYPE_MULTIPLE_RESOURCE
      | V_string _ \<Rightarrow> TYPE_STRING
      | V_opaque _ \<Rightarrow> TYPE_OPAQUE
      | V_integer _ \<Rightarrow> TYPE_INTEGER
      | V_float _ \<Rightarrow> TYPE_FLOAT
      | V_boolean _ \<Rightarrow> TYPE_BOOLEAN
      | V_objlink _ _ \<Rightarrow> TYPE_OBJECT_LINK)"

definition prv_getHeaderType :: "lwm2m_data_type \<Rightarrow> byte" where
  "prv_getHeaderType t =
     (case t of
        TYPE_OBJECT \<Rightarrow> 0x10
      | TYPE_OBJECT_INSTANCE \<Rightarrow> 0x00
      | TYPE_MULTIPLE_RESOURCE \<Rightarrow> 0x80
      | TYPE_UNDEFINED \<Rightarrow> 0xFF
      | _ \<Rightarrow> 0xC0)"

definition prv_getDataType :: "byte \<Rightarrow> lwm2m_data_type" where
  "prv_getDataType t =
     (if t = 0x10 then TYPE_OBJECT
      else if t = 0x00 then TYPE_OBJECT_INSTANCE
      else if t = 0x80 then TYPE_MULTIPLE_RESOURCE
      else if t = 0xC0 \<or> t = 0x40 then TYPE_OPAQUE
      else TYPE_UNDEFINED)"

definition prv_getHeaderLength :: "u16 \<Rightarrow> nat \<Rightarrow> nat" where
  "prv_getHeaderLength i dataLen =
     2 + (if 0xFF < i then 1 else 0)
       + (if 0xFFFF < dataLen then 3 else if 0xFF < dataLen then 2 else if 7 < dataLen then 1 else 0)"

text \<open>
  The bytes of the header; the length bytes of a payload above \<open>0xFFFFFF\<close> are counted in the
  returned length and never written.
\<close>

definition prv_createHeader ::
    "bool \<Rightarrow> lwm2m_data_type \<Rightarrow> u16 \<Rightarrow> nat \<Rightarrow> byte option list" where
  "prv_createHeader isInstance t i n =
     (let h = (if isInstance then 0x40 else prv_getHeaderType t) AND 0xC0;
          h' = (if 0xFF < i then h OR 0x20 else h);
          idb = (if 0xFF < i then [ucast (drop_bit 8 i AND 0xFF), ucast (i AND 0xFF)]
                 else [ucast i]) in
      if n \<le> 7 then map Some ((h' + word_of_nat n) # idb)
      else if n \<le> 0xFF then map Some ((h' OR 0x08) # idb @ [word_of_nat n])
      else if n \<le> 0xFFFF then
        map Some ((h' OR 0x10) # idb @ [word_of_nat (n div 256 mod 256), word_of_nat (n mod 256)])
      else if n \<le> 0xFFFFFF then
        map Some ((h' OR 0x18) # idb @
          [word_of_nat (n div 65536 mod 256), word_of_nat (n div 256 mod 256), word_of_nat (n mod 256)])
      else map Some (h' # idb) @ [None, None, None])"

text \<open>
  \<^verbatim>\<open>lwm2m_decode_TLV\<close>: type, id, index and length of the data, and the length of the record;
  \<open>None\<close> is the result 0.
\<close>

definition lwm2m_decode_TLV ::
    "byte list \<Rightarrow> (lwm2m_data_type \<times> u16 \<times> nat \<times> nat \<times> nat) option" where
  "lwm2m_decode_TLV buffer =
     (if length buffer < 2 then None
      else
        let b0 = buffer ! 0;
            t = prv_getDataType (b0 AND 0xC0);
            long = (b0 AND 0x20 = 0x20) in
        if long \<and> length buffer < 3 then None
        else
          let di = (if long then 3 else 2);
              i = (if long then word_of_nat (unat (buffer ! 1) * 256 + unat (buffer ! 2))
                   else ucast (buffer ! 1));
              finish = (\<lambda>di n. if length buffer < di + n then None else Some (t, i, di, n, di + n)) in
          if b0 AND 0x18 = 0x00 then finish di (unat (b0 AND 0x07))
          else if b0 AND 0x18 = 0x08 then
            (if length buffer < di + 1 then None else finish (di + 1) (unat (buffer ! di)))
          else if b0 AND 0x18 = 0x10 then
            (if length buffer < di + 2 then None
             else finish (di + 2) (unat (buffer ! di) * 256 + unat (buffer ! (di + 1))))
          else
            (if length buffer < di + 3 then None
             else finish (di + 3) (unat (buffer ! di) * 65536 + unat (buffer ! (di + 1)) * 256
                                   + unat (buffer ! (di + 2)))))"

lemma decode_TLV_bounds:
  assumes "lwm2m_decode_TLV buffer = Some (t, i, di, n, r)"
  shows "2 \<le> di" and "r = di + n" and "r \<le> length buffer"
  using assms unfolding lwm2m_decode_TLV_def Let_def by (simp_all split: if_splits)

lemma decode_TLV_shrinks:
  "lwm2m_decode_TLV buffer = Some (t, i, di, n, r) \<Longrightarrow>
   2 \<le> di \<and> r = di + n \<and> r \<le> length buffer \<and> 2 \<le> length buffer"
  using decode_TLV_bounds [of buffer t i di n r] by simp

section \<open>\<^verbatim>\<open>tlv_parse\<close>\<close>

text \<open>
  The while loop: \<open>acc\<close> is the array \<^verbatim>\<open>*dataP\<close> so far, \<open>buffer\<close> the bytes from \<^verbatim>\<open>index\<close> on. The
  result is the array, \<open>[]\<close> for the result 0. The first allocation is used unchecked.
\<close>

function tlv_parse_from ::
    "byte list \<Rightarrow> lwm2m_data list \<Rightarrow> mem \<Rightarrow> (lwm2m_data list \<times> mem) res" where
  "tlv_parse_from buffer acc m =
     (case lwm2m_decode_TLV buffer of
        None \<Rightarrow> Inr (acc, m)
      | Some (t, i, di, n, r) \<Rightarrow>
          (case lwm2m_data_new (int (length acc) + 1) m of
             ([], m1) \<Rightarrow> if acc = [] then Inl NullDeref else Inr ([], m1)
           | (_ # _, m1) \<Rightarrow>
               if t = TYPE_OBJECT_INSTANCE \<or> t = TYPE_MULTIPLE_RESOURCE then
                 bindE (tlv_parse_from (take n (drop di buffer)) [] m1) (\<lambda>(subs, m2).
                   if subs = [] then Inr ([], m2)
                   else tlv_parse_from (drop r buffer)
                     (acc @ [Data i (if t = TYPE_OBJECT_INSTANCE
                                     then V_object_instance (length subs) subs
                                     else V_multiple (length subs) subs)]) m2)
               else
                 (case lwm2m_data_encode_opaque (take n (drop di buffer)) (Data i V_undefined) m1 of
                    (d, m2) \<Rightarrow> tlv_parse_from (drop r buffer) (acc @ [d]) m2)))"
  by pat_completeness auto
termination
  by (relation "measure (\<lambda>(buffer, acc, m). length buffer)")
    (auto dest!: decode_TLV_shrinks)

declare tlv_parse_from.simps [simp del]

definition tlv_parse :: "byte list \<Rightarrow> mem \<Rightarrow> (lwm2m_data list \<times> mem) res" where
  "tlv_parse buffer m = tlv_parse_from buffer [] m"

section \<open>\<^verbatim>\<open>tlv_serialize\<close>\<close>

text \<open>\<open>None\<close> is the result -1. \<open>n\<close> is the count the caller passes.\<close>

fun prv_getLength :: "nat \<Rightarrow> lwm2m_data list \<Rightarrow> nat option res" where
  "prv_getLength 0 ds = Inr (Some 0)"
| "prv_getLength (Suc n) [] = Inl OutOfBounds"
| "prv_getLength (Suc n) (Data i v # ds) =
     bindE
       (case v of
          V_object_instance c xs \<Rightarrow> prv_getLength c xs
        | V_multiple c xs \<Rightarrow> prv_getLength c xs
        | V_string b \<Rightarrow> Inr (Some (length b))
        | V_opaque b \<Rightarrow> Inr (Some (length b))
        | V_integer x \<Rightarrow> Inr (Some (length (utils_encodeInt x)))
        | V_float x \<Rightarrow> Inr (Some (if exceeds_float x then 8 else 4))
        | V_boolean _ \<Rightarrow> Inr (Some 1)
        | V_objlink _ _ \<Rightarrow> Inr (Some 4)
        | _ \<Rightarrow> Inr None)
       (\<lambda>l. case l of
          None \<Rightarrow> Inr None
        | Some k \<Rightarrow>
            bindE (prv_getLength n ds) (\<lambda>rest. Inr (map_option ((+) (prv_getHeaderLength i k + k)) rest)))"

text \<open>The four bytes of an object link, big endian.\<close>

definition objlink_bytes :: "u16 \<Rightarrow> u16 \<Rightarrow> byte list" where
  "objlink_bytes oid iid =
     (let v = push_bit 16 (ucast oid :: u32) OR ucast iid in rev (to_memory 4 v))"

text \<open>
  The payloads of the records that are not nested. \<open>tlv_items\<close> is the for loop: it yields the
  cells written from \<^verbatim>\<open>index\<close> on, and \<open>None\<close> once an element made \<^verbatim>\<open>length\<close> negative.
\<close>

definition plain_payload :: "lwm2m_value \<Rightarrow> byte list option" where
  "plain_payload v =
     (case v of
        V_objlink oid iid \<Rightarrow> Some (objlink_bytes oid iid)
      | V_string b \<Rightarrow> Some b
      | V_opaque b \<Rightarrow> Some b
      | V_integer x \<Rightarrow> Some (utils_encodeInt x)
      | V_float x \<Rightarrow> Some (utils_encodeFloat x)
      | V_boolean x \<Rightarrow> Some [if x then 1 else 0]
      | _ \<Rightarrow> None)"

definition item_cells :: "byte option list option \<Rightarrow> byte option list option \<Rightarrow> byte option list option" where
  "item_cells x y = (case (x, y) of (Some a, Some b) \<Rightarrow> Some (a @ b) | _ \<Rightarrow> None)"

fun tlv_serialize :: "bool \<Rightarrow> nat \<Rightarrow> lwm2m_data list \<Rightarrow> mem \<Rightarrow> (byte option list option \<times> mem) res"
and tlv_items :: "bool \<Rightarrow> nat \<Rightarrow> lwm2m_data list \<Rightarrow> mem \<Rightarrow> (byte option list option \<times> mem) res"
where
  "tlv_serialize isRI n ds m =
     bindE (prv_getLength n ds) (\<lambda>len.
       case len of
         None \<Rightarrow> Inr (None, m)
       | Some k \<Rightarrow>
           if k = 0 then Inr (Some [], m)
           else case lwm2m_malloc m of
             (False, m1) \<Rightarrow> Inr (Some [], m1)
           | (True, m1) \<Rightarrow>
               bindE (tlv_items isRI n ds m1) (\<lambda>(cells, m2).
                 case cells of
                   None \<Rightarrow> Inr (None, m2)
                 | Some cs \<Rightarrow>
                     if k < length cs then Inl OutOfBounds
                     else Inr (Some (cs @ replicate (k - length cs) None), m2)))"
| "tlv_items isRI 0 ds m = Inr (Some [], m)"
| "tlv_items isRI (Suc n) [] m = Inl OutOfBounds"
| "tlv_items isRI (Suc n) (Data i v # ds) m =
     bindE
       (case v of
          V_object_instance c xs \<Rightarrow>
            bindE (tlv_serialize isRI c xs m) (\<lambda>(r, m1).
              Inr (map_option (\<lambda>b. prv_createHeader False TYPE_OBJECT_INSTANCE i (length b) @ b) r, m1))
        | V_multiple c xs \<Rightarrow>
            bindE (tlv_serialize True c xs m) (\<lambda>(r, m1).
              Inr (map_option (\<lambda>b. prv_createHeader False TYPE_MULTIPLE_RESOURCE i (length b) @ b) r, m1))
        | _ \<Rightarrow>
            Inr (map_option (\<lambda>b. prv_createHeader isRI (type_of_value v) i (length b) @ map Some b)
                   (plain_payload v), m))
       (\<lambda>(r, m1). bindE (tlv_items isRI n ds m1) (\<lambda>(rest, m2). Inr (item_cells r rest, m2)))"

section \<open>What the bytes are\<close>

text \<open>
  The abstract specification of the format: the bytes of a list of elements, without buffers,
  lengths and allocations.
\<close>

definition tlv_header :: "bool \<Rightarrow> lwm2m_data_type \<Rightarrow> u16 \<Rightarrow> nat \<Rightarrow> byte list" where
  "tlv_header isInstance t i n = map the (prv_createHeader isInstance t i n)"

fun tlv_image :: "bool \<Rightarrow> lwm2m_data list \<Rightarrow> byte list" where
  "tlv_image isRI [] = []"
| "tlv_image isRI (Data i v # ds) =
     (case v of
        V_object_instance c xs \<Rightarrow>
          tlv_header False TYPE_OBJECT_INSTANCE i (length (tlv_image isRI xs)) @ tlv_image isRI xs
      | V_multiple c xs \<Rightarrow>
          tlv_header False TYPE_MULTIPLE_RESOURCE i (length (tlv_image True xs)) @ tlv_image True xs
      | _ \<Rightarrow>
          tlv_header isRI (type_of_value v) i (length (the (plain_payload v))) @ the (plain_payload v))
     @ tlv_image isRI ds"

text \<open>
  The elements the format can carry: the counts are right, nested elements are not empty, every
  payload has a length of at most 24 bits.
\<close>

fun tlv_wellformed :: "lwm2m_data list \<Rightarrow> bool" where
  "tlv_wellformed [] = True"
| "tlv_wellformed (Data i v # ds) =
     ((case v of
        V_undefined \<Rightarrow> False
      | V_object c xs \<Rightarrow> False
      | V_object_instance c xs \<Rightarrow>
          c = length xs \<and> xs \<noteq> [] \<and> tlv_wellformed xs \<and> length (tlv_image False xs) < 16777216
      | V_multiple c xs \<Rightarrow>
          c = length xs \<and> xs \<noteq> [] \<and> tlv_wellformed xs \<and> length (tlv_image True xs) < 16777216
      | _ \<Rightarrow> length (the (plain_payload v)) < 16777216)
      \<and> tlv_wellformed ds)"

text \<open>What a receiver sees: the payloads as opaque values, the nesting kept.\<close>

fun tlv_view :: "lwm2m_data list \<Rightarrow> lwm2m_data list" where
  "tlv_view [] = []"
| "tlv_view (Data i v # ds) =
     Data i (case v of
        V_object_instance c xs \<Rightarrow> V_object_instance (length xs) (tlv_view xs)
      | V_multiple c xs \<Rightarrow> V_multiple (length xs) (tlv_view xs)
      | _ \<Rightarrow> V_opaque (the (plain_payload v)))
     # tlv_view ds"

lemma length_createHeader: "length (prv_createHeader b t i n) = prv_getHeaderLength i n"
  by (simp add: prv_createHeader_def prv_getHeaderLength_def Let_def)

lemma length_tlv_header [simp]: "length (tlv_header b t i n) = prv_getHeaderLength i n"
  by (simp add: tlv_header_def length_createHeader)

lemma createHeader_written:
  "n < 16777216 \<Longrightarrow> prv_createHeader b t i n = map Some (tlv_header b t i n)"
  by (auto simp: tlv_header_def prv_createHeader_def Let_def)

lemma length_tlv_image: "length (tlv_image b ds) = length (tlv_image False ds)"
proof (induction b ds rule: tlv_image.induct)
  case (2 isRI i v ds)
  then show ?case by (cases v) simp_all
qed simp

lemma tlv_view_length [simp]: "length (tlv_view ds) = length ds"
  by (induction ds rule: tlv_view.induct) auto

lemma encodeFloat_length: "length (utils_encodeFloat x) = (if exceeds_float x then 8 else 4)"
  by (simp add: utils_encodeFloat_def utils_copyValue_def to_memory_def)

lemma objlink_bytes_length: "length (objlink_bytes p q) = 4"
  by (simp add: objlink_bytes_def to_memory_def Let_def)

text \<open>\<^verbatim>\<open>prv_getLength\<close> computes the length of the image.\<close>

lemma getLength_image:
  "tlv_wellformed ds \<Longrightarrow> prv_getLength (length ds) ds = Inr (Some (length (tlv_image False ds)))"
proof (induction ds rule: tlv_wellformed.induct)
  case (2 i v ds)
  then show ?case
    by (cases v) (simp_all add: plain_payload_def encodeFloat_length objlink_bytes_length
        length_tlv_image [of True])
qed simp

section \<open>The decoder inverts the header\<close>

lemma id_bytes:
  "word_of_nat (unat (ucast (drop_bit 8 (i::u16) AND 0xFF) :: byte) * 256
     + unat (ucast (i AND 0xFF) :: byte)) = i"
proof -
  have mask: "ucast (w AND 0xFF) = (ucast w :: byte)" for w :: u16
  proof (rule bit_word_eqI)
    fix n assume "n < LENGTH(8)"
    then have "bit (0xFF :: u16) n" by (auto simp: less_Suc_eq numeral_eq_Suc)
    then show "bit (ucast (w AND 0xFF) :: byte) n = bit (ucast w :: byte) n"
      by (simp add: bit_ucast_iff bit_and_iff)
  qed
  have "unat i < 65536" using unsigned_less [of i, where ?'a = nat] by simp
  then have "unat (ucast (drop_bit 8 i) :: byte) = unat i div 256"
    by (simp add: unsigned_ucast_eq unsigned_drop_bit_eq take_bit_nat_def drop_bit_nat_def)
  moreover have "unat (ucast i :: byte) = unat i mod 256"
    by (simp add: unsigned_ucast_eq take_bit_nat_def)
  ultimately show ?thesis by (simp add: mask)
qed

lemma id_short: "\<not> 0xFF < (i::u16) \<Longrightarrow> ucast (ucast i :: byte) = i"
proof -
  assume "\<not> 0xFF < i"
  then have "unat i < 256" by (simp add: word_less_nat_alt)
  then have "unat (ucast (ucast i :: byte) :: u16) = unat i"
    by (simp add: unat_ucast_up unsigned_ucast_eq [of i] unsigned_take_bit_eq take_bit_nat_eq_self)
  then show ?thesis by (rule unsigned_word_eqI)
qed

lemma short_length_cases: "n \<le> 7 \<Longrightarrow> n \<in> {0, 1, 2, 3, 4, 5, 6, 7 :: nat}"
  by auto

lemma split_16: "(n::nat) \<le> 0xFFFF \<Longrightarrow> n div 256 mod 256 * 256 + n mod 256 = n"
proof -
  assume "n \<le> 0xFFFF"
  then have "n div 256 < 256" by (simp add: div_less_iff_less_mult)
  then show ?thesis by simp
qed

lemma split_24: "(n::nat) \<le> 0xFFFFFF \<Longrightarrow>
   n div 65536 mod 256 * 65536 + n div 256 mod 256 * 256 + n mod 256 = n"
proof -
  assume n: "n \<le> 0xFFFFFF"
  have eq: "n div 65536 = n div 256 div 256" by (simp add: div_mult2_eq [symmetric])
  have "n div 256 \<le> 0xFFFF" using n by (simp add: less_Suc_eq_le [symmetric] div_less_iff_less_mult)
  then have "n div 256 div 256 mod 256 * 256 + n div 256 mod 256 = n div 256" by (rule split_16)
  then have "n div 65536 mod 256 * 256 + n div 256 mod 256 = n div 256" by (simp only: eq)
  then show ?thesis using div_mult_mod_eq [of n 256] by linarith
qed

lemma byte_of_nat: "unat (word_of_nat (n mod 256) :: byte) = n mod 256"
  by (simp add: unat_of_nat)

lemma decode_fields:
  assumes "b0 AND 0xC0 = h" and "b0 AND 0x20 = (if 0xFF < i then 0x20 else 0)"
    and "b0 AND 0x18 = c" 
    and "idb = (if 0xFF < i then [ucast (drop_bit 8 i AND 0xFF), ucast (i AND 0xFF)]
                 else [ucast i])"
    and "n \<le> length rest"
  shows "c = 0 \<Longrightarrow> unat (b0 AND 0x07) = n \<Longrightarrow>
      lwm2m_decode_TLV (b0 # idb @ rest)
      = Some (prv_getDataType h, i, 1 + length idb, n, 1 + length idb + n)" (is "_ \<Longrightarrow> _ \<Longrightarrow> ?A")
   and "c = 0x08 \<Longrightarrow> unat l0 = n \<Longrightarrow>
      lwm2m_decode_TLV (b0 # idb @ l0 # rest)
      = Some (prv_getDataType h, i, 2 + length idb, n, 2 + length idb + n)" (is "_ \<Longrightarrow> _ \<Longrightarrow> ?B")
   and "c = 0x10 \<Longrightarrow> unat l1 * 256 + unat l0 = n \<Longrightarrow>
      lwm2m_decode_TLV (b0 # idb @ l1 # l0 # rest)
      = Some (prv_getDataType h, i, 3 + length idb, n, 3 + length idb + n)" (is "_ \<Longrightarrow> _ \<Longrightarrow> ?C")
   and "c = 0x18 \<Longrightarrow> unat l2 * 65536 + unat l1 * 256 + unat l0 = n \<Longrightarrow>
      lwm2m_decode_TLV (b0 # idb @ l2 # l1 # l0 # rest)
      = Some (prv_getDataType h, i, 4 + length idb, n, 4 + length idb + n)" (is "_ \<Longrightarrow> _ \<Longrightarrow> ?D")
proof -
  show ?A if "c = 0" "unat (b0 AND 0x07) = n"
    using that assms unfolding lwm2m_decode_TLV_def Let_def
    by (cases "0xFF < i") (simp_all add: id_bytes [simplified] id_short)
  show ?B if "c = 0x08" "unat l0 = n"
    using that assms unfolding lwm2m_decode_TLV_def Let_def
    by (cases "0xFF < i") (simp_all add: id_bytes [simplified] id_short)
  show ?C if "c = 0x10" "unat l1 * 256 + unat l0 = n"
    using that assms unfolding lwm2m_decode_TLV_def Let_def
    by (cases "0xFF < i") (simp_all add: id_bytes [simplified] id_short)
  show ?D if "c = 0x18" "unat l2 * 65536 + unat l1 * 256 + unat l0 = n"
    using that assms unfolding lwm2m_decode_TLV_def Let_def
    by (cases "0xFF < i") (simp_all add: id_bytes [simplified] id_short)
qed

lemma header_type_cases:
  "(if b then 0x40 else prv_getHeaderType t) AND 0xC0 \<in> {0x00, 0x40, 0x80, (0xC0 :: byte)}"
  by (cases t) (simp_all add: prv_getHeaderType_def)

lemma header_byte_fields:
  assumes "h \<in> {0x00, 0x40, 0x80, 0xC0 :: byte}"
    and "k \<in> {0, 1, 2, 3, 4, 5, 6, 7, 0x08, 0x10, 0x18 :: byte}"
    and "b0 = (if l then h OR 0x20 else h) OR k"
  shows "b0 AND 0xC0 = h" and "b0 AND 0x20 = (if l then 0x20 else 0)"
    and "b0 AND 0x18 = k AND 0x18" and "b0 AND 0x07 = k AND 0x07"
    and "k \<notin> {8,0x10,0x18} \<Longrightarrow> (if l then h OR 0x20 else h) + k = b0"
  using assms by (cases l; auto)+




lemma decode_header:
  assumes "n < 16777216" and "n \<le> length rest"
  shows "lwm2m_decode_TLV (tlv_header b t i n @ rest) =
    Some (prv_getDataType ((if b then 0x40 else prv_getHeaderType t) AND 0xC0), i,
      prv_getHeaderLength i n, n, prv_getHeaderLength i n + n)"
proof -
  define h where "h = (if b then 0x40 else prv_getHeaderType t) AND 0xC0"
  have h: "h \<in> {0x00, 0x40, 0x80, 0xC0}" unfolding h_def by (rule header_type_cases)
  define h' where "h' = (if 0xFF < i then h OR 0x20 else h)"
  define idb where "idb = (if 0xFF < i then [ucast (drop_bit 8 i AND 0xFF), ucast (i AND 0xFF)]
                 else [ucast i :: byte])"
  have len: "length idb = (if 0xFF < i then 2 else 1)" by (simp add: idb_def)
  note fields = header_byte_fields [OF h _ refl, where l = "0xFF < i", folded h'_def]
  note dec = decode_fields [where i = i and rest = rest and n = n and idb = idb and h = h, OF _ _ _ idb_def assms(2)]
  have hdr: "tlv_header b t i n = map the (
      if n \<le> 7 then map Some ((h' + word_of_nat n) # idb)
      else if n \<le> 0xFF then map Some ((h' OR 0x08) # idb @ [word_of_nat n])
      else if n \<le> 0xFFFF then
        map Some ((h' OR 0x10) # idb @ [word_of_nat (n div 256 mod 256), word_of_nat (n mod 256)])
      else if n \<le> 0xFFFFFF then
        map Some ((h' OR 0x18) # idb @
          [word_of_nat (n div 65536 mod 256), word_of_nat (n div 256 mod 256), word_of_nat (n mod 256)])
      else map Some (h' # idb) @ [None, None, None])"
    by (simp only: tlv_header_def prv_createHeader_def Let_def h_def h'_def idb_def)
  consider "n \<le> 7" | "7 < n" "n \<le> 0xFF" | "0xFF < n" "n \<le> 0xFFFF" | "0xFFFF < n" "n \<le> 0xFFFFFF"
    using assms(1) by linarith
  then show ?thesis
  proof cases
    case 1
    define k :: byte where "k = word_of_nat n"
    have k: "k \<in> {0, 1, 2, 3, 4, 5, 6, 7}" "k AND 0x18 = 0" "unat (k AND 7) = n"
      using short_length_cases [OF 1] by (auto simp: k_def)
    then have "k \<in> {0, 1, 2, 3, 4, 5, 6, 7, 0x08, 0x10, 0x18}" "k \<notin> {8, 0x10, 0x18}" by auto
    note f = fields [OF this(1)] and g = this(2)
    have "lwm2m_decode_TLV ((h' OR k) # idb @ rest)
      = Some (prv_getDataType h, i, 1 + length idb, n, 1 + length idb + n)"
      by (rule dec(1)) (simp_all add: f k)
    then show ?thesis using 1 f(5) [OF g] by (simp add: hdr k_def len prv_getHeaderLength_def h_def)
  next
    case 2
    note f = fields [where k = "8", simplified]
    show ?thesis using 2 dec(2) [of "h' OR 8" 8 "word_of_nat n"] f
      by (simp add: hdr len prv_getHeaderLength_def h_def unat_of_nat)
  next
    case 3
    note f = fields [where k = "0x10", simplified]
    have "lwm2m_decode_TLV ((h' OR 0x10) # idb
        @ word_of_nat (n div 256 mod 256) # word_of_nat (n mod 256) # rest)
      = Some (prv_getDataType h, i, 3 + length idb, n, 3 + length idb + n)"
      by (rule dec(3)) (simp_all only: f byte_of_nat split_16 [OF 3(2)])
    then show ?thesis using 3 by (simp add: hdr len prv_getHeaderLength_def h_def)
  next
    case 4
    note f = fields [where k = "0x18", simplified]
    have "lwm2m_decode_TLV ((h' OR 0x18) # idb
        @ word_of_nat (n div 65536 mod 256) # word_of_nat (n div 256 mod 256)
        # word_of_nat (n mod 256) # rest)
      = Some (prv_getDataType h, i, 4 + length idb, n, 4 + length idb + n)"
      by (rule dec(4), simp_all only: f byte_of_nat split_24 [OF 4(2)]) simp
    then show ?thesis using 4 by (simp add: hdr len prv_getHeaderLength_def h_def)
  qed
qed

section \<open>The serialiser and the parser\<close>

lemma serialize_of_items:
  assumes "tlv_wellformed ds"
    and "tlv_items b (length ds) ds [] = Inr (Some (map Some (tlv_image b ds)), [])"
  shows "tlv_serialize b (length ds) ds [] = Inr (Some (map Some (tlv_image b ds)), [])"
proof -
  have "tlv_image b ds = [] \<longleftrightarrow> tlv_image False ds = []"
    using length_tlv_image [of b ds] by (metis length_0_conv)
  then show ?thesis using assms length_tlv_image [of b ds] by (simp add: getLength_image)
qed

lemma items_image:
  "tlv_wellformed ds \<Longrightarrow> tlv_items b (length ds) ds [] = Inr (Some (map Some (tlv_image b ds)), [])"
proof (induction b ds rule: tlv_image.induct)
  case (1 isRI)
  then show ?case by simp
next
  case (2 isRI i v ds)
  have IH: "tlv_items isRI (length ds) ds [] = Inr (Some (map Some (tlv_image isRI ds)), [])"
    using 2 by simp
  show ?case
  proof (cases v)
    case (V_object_instance c xs)
    then have "tlv_serialize isRI c xs [] = Inr (Some (map Some (tlv_image isRI xs)), [])"
      using 2 serialize_of_items [of xs isRI] by simp
    moreover have "length (tlv_image isRI xs) < 16777216"
      using V_object_instance "2.prems" length_tlv_image [of isRI xs] by simp
    ultimately show ?thesis using V_object_instance IH
      by (simp add: createHeader_written item_cells_def del: tlv_serialize.simps)
  next
    case (V_multiple c xs)
    then have "tlv_serialize True c xs [] = Inr (Some (map Some (tlv_image True xs)), [])"
      using 2 serialize_of_items [of xs True] by simp
    then show ?thesis using V_multiple "2.prems" IH
      by (simp add: createHeader_written item_cells_def del: tlv_serialize.simps)
  qed (use "2.prems" IH in \<open>simp_all add: createHeader_written item_cells_def plain_payload_def\<close>)
qed

lemma serialize_image:
  "tlv_wellformed ds \<Longrightarrow>
   tlv_serialize b (length ds) ds [] = Inr (Some (map Some (tlv_image b ds)), [])"
  by (rule serialize_of_items [OF _ items_image])

lemma tlv_view_Nil [simp]: "tlv_view ds = [] \<longleftrightarrow> ds = []"
  by (cases ds rule: tlv_view.cases) simp_all

lemma parse_step:
  assumes "lwm2m_decode_TLV buffer = Some (t, i, di, n, r)"
  shows "tlv_parse_from buffer acc [] =
    (if t = TYPE_OBJECT_INSTANCE \<or> t = TYPE_MULTIPLE_RESOURCE then
       bindE (tlv_parse_from (take n (drop di buffer)) [] []) (\<lambda>(subs, m2).
         if subs = [] then Inr ([], m2)
         else tlv_parse_from (drop r buffer)
           (acc @ [Data i (if t = TYPE_OBJECT_INSTANCE
                           then V_object_instance (length subs) subs
                           else V_multiple (length subs) subs)]) m2)
     else tlv_parse_from (drop r buffer) (acc @ [Data i (V_opaque (take n (drop di buffer)))]) [])"
proof -
  have "nat (int (length acc) + 1) = Suc (length acc)" by simp
  then show ?thesis by (subst tlv_parse_from.simps) (simp add: assms)
qed

lemma drop_header:
  "drop (prv_getHeaderLength i n) (tlv_header b t i n @ xs) = xs"
  by simp

lemma drop_record:
  "drop (prv_getHeaderLength i (length p) + length p) (tlv_header b t i (length p) @ p @ rest) = rest"
  by (metis append.assoc append_eq_conv_conj length_append length_tlv_header)

lemma parse_record:
  assumes "length p < 16777216"
    and "prv_getDataType ((if b then 0x40 else prv_getHeaderType t) AND 0xC0) = T"
  shows "tlv_parse_from (tlv_header b t i (length p) @ p @ rest) acc [] =
    (if T = TYPE_OBJECT_INSTANCE \<or> T = TYPE_MULTIPLE_RESOURCE then
       bindE (tlv_parse_from p [] []) (\<lambda>(subs, m2).
         if subs = [] then Inr ([], m2)
         else tlv_parse_from rest
           (acc @ [Data i (if T = TYPE_OBJECT_INSTANCE
                           then V_object_instance (length subs) subs
                           else V_multiple (length subs) subs)]) m2)
     else tlv_parse_from rest (acc @ [Data i (V_opaque p)]) [])"
proof -
  have "take (length p) (p @ rest) = p" by simp
  moreover have "lwm2m_decode_TLV (tlv_header b t i (length p) @ p @ rest)
      = Some (T, i, prv_getHeaderLength i (length p), length p, prv_getHeaderLength i (length p) + length p)"
    using assms decode_header [of "length p" "p @ rest" b t i] by simp
  ultimately show ?thesis
    by (simp only: parse_step drop_header drop_record)
qed

lemma parse_nested:
  assumes "length p < 16777216" and "tlv_parse_from p [] [] = Inr (subs, [])" and "subs \<noteq> []"
  shows "tlv_parse_from (tlv_header False TYPE_OBJECT_INSTANCE i (length p) @ p @ rest) acc []
      = tlv_parse_from rest (acc @ [Data i (V_object_instance (length subs) subs)]) []"
    and "tlv_parse_from (tlv_header False TYPE_MULTIPLE_RESOURCE i (length p) @ p @ rest) acc []
      = tlv_parse_from rest (acc @ [Data i (V_multiple (length subs) subs)]) []"
  using assms
  by (simp_all add: parse_record prv_getDataType_def prv_getHeaderType_def del: append_assoc)

lemma parse_plain:
  assumes "length p < 16777216" and "b \<or> prv_getHeaderType t = 0xC0"
  shows "tlv_parse_from (tlv_header b t i (length p) @ p @ rest) acc []
      = tlv_parse_from rest (acc @ [Data i (V_opaque p)]) []"
proof -
  have "prv_getDataType ((if b then 0x40 else prv_getHeaderType t) AND 0xC0) = TYPE_OPAQUE"
    using assms(2) by (auto simp: prv_getDataType_def)
  then show ?thesis using assms(1) by (simp add: parse_record)
qed

lemma plain_header_type:
  "plain_payload v \<noteq> None \<Longrightarrow> prv_getHeaderType (type_of_value v) = 0xC0"
  by (cases v) (simp_all add: plain_payload_def type_of_value_def prv_getHeaderType_def)

lemma parse_image:
  "tlv_wellformed ds \<Longrightarrow> tlv_parse_from (tlv_image b ds) acc [] = Inr (acc @ tlv_view ds, [])"
proof (induction b ds arbitrary: acc rule: tlv_image.induct)
  case (1 isRI)
  then show ?case by (simp add: tlv_parse_from.simps lwm2m_decode_TLV_def)
next
  case (2 isRI i v ds)
  have IH: "tlv_parse_from (tlv_image isRI ds) acc [] = Inr (acc @ tlv_view ds, [])" for acc
    using 2 by simp
  show ?case
  proof (cases "plain_payload v")
    case (Some p)
    then have "tlv_image isRI (Data i v # ds)
        = tlv_header isRI (type_of_value v) i (length p) @ p @ tlv_image isRI ds"
      and "tlv_view (Data i v # ds) = Data i (V_opaque p) # tlv_view ds"
      and "length p < 16777216"
      using "2.prems" by (cases v; simp add: plain_payload_def)+
    then show ?thesis using parse_plain [of p isRI "type_of_value v"] plain_header_type [of v] Some IH
      by simp
  next
    case None
    then consider (obj) c xs where "v = V_object_instance c xs" | (mult) c xs where "v = V_multiple c xs"
      using "2.prems" by (cases v) (simp_all add: plain_payload_def)
    then show ?thesis
    proof cases
      case obj
      then have p: "tlv_parse_from (tlv_image isRI xs) [] [] = Inr (tlv_view xs, [])" "tlv_view xs \<noteq> []"
          "length (tlv_image isRI xs) < 16777216"
        using 2 length_tlv_image [of isRI xs] by simp_all
      show ?thesis using obj IH parse_nested(1) [OF p(3,1,2)] by simp
    next
      case mult
      then have p: "tlv_parse_from (tlv_image True xs) [] [] = Inr (tlv_view xs, [])" "tlv_view xs \<noteq> []"
          "length (tlv_image True xs) < 16777216"
        using 2 by simp_all
      show ?thesis using mult IH parse_nested(2) [OF p(3,1,2)] by simp
    qed
  qed
qed

lemma headerLength_mono: "k \<le> n \<Longrightarrow> prv_getHeaderLength i k \<le> prv_getHeaderLength i n"
  by (simp add: prv_getHeaderLength_def)

lemma serialize_bounded:
  "tlv_wellformed ds \<Longrightarrow>
    (\<exists>cs m'. tlv_items b (length ds) ds m = Inr (Some cs, m') \<and> length cs \<le> length (tlv_image b ds))
    \<and> (\<exists>cs m'. tlv_serialize b (length ds) ds m = Inr (Some cs, m')
         \<and> (cs = [] \<or> length cs = length (tlv_image b ds)))" (is "_ \<Longrightarrow> ?I b ds m \<and> ?S b ds m")
proof (induction b ds arbitrary: m rule: tlv_image.induct)
  case (1 isRI)
  then show ?case by simp
next
  case (2 isRI i v ds)
  have IH: "\<exists>cs m'. tlv_items isRI (length ds) ds m = Inr (Some cs, m')
      \<and> length cs \<le> length (tlv_image isRI ds)" for m
    using 2 by simp
  have items: "?I isRI (Data i v # ds) m" for m
  proof (cases "plain_payload v")
    case (Some p)
    with IH [of m] "2.prems" show ?thesis
      by (cases v) (auto simp: plain_payload_def item_cells_def length_createHeader)
  next
    case None
    then consider (obj) c xs where "v = V_object_instance c xs" | (mult) c xs where "v = V_multiple c xs"
      using "2.prems" by (cases v) (simp_all add: plain_payload_def)
    then show ?thesis
    proof cases
      case obj
      then have "tlv_wellformed xs" "c = length xs" using "2.prems" by simp_all
      then have "?S isRI xs m" using "2.IH"(1) [OF obj, of m] by blast
      then obtain cs m' where "tlv_serialize isRI c xs m = Inr (Some cs, m')"
          "length cs \<le> length (tlv_image isRI xs)"
        using \<open>c = length xs\<close> by (auto simp del: tlv_serialize.simps)
      moreover note headerLength_mono [OF this(2), of i]
      ultimately show ?thesis using obj IH [of m']
        by (auto simp: item_cells_def length_createHeader simp del: tlv_serialize.simps)
    next
      case mult
      then have "tlv_wellformed xs" "c = length xs" using "2.prems" by simp_all
      then have "?S True xs m" using "2.IH"(3) [OF mult, of m] by blast
      then obtain cs m' where "tlv_serialize True c xs m = Inr (Some cs, m')"
          "length cs \<le> length (tlv_image True xs)"
        using \<open>c = length xs\<close> by (auto simp del: tlv_serialize.simps)
      moreover note headerLength_mono [OF this(2), of i]
      ultimately show ?thesis using mult IH [of m']
        by (auto simp: item_cells_def length_createHeader simp del: tlv_serialize.simps)
    qed
  qed
  let ?ds = "Data i v # ds"
  obtain ok m1 where m1: "lwm2m_malloc m = (ok, m1)" by fastforce
  obtain cs m2 where "tlv_items isRI (length ?ds) ?ds m1 = Inr (Some cs, m2)"
    "length cs \<le> length (tlv_image isRI ?ds)" using items by blast
  then have "?S isRI ?ds m"
    using getLength_image [OF "2.prems"] m1 length_tlv_image [of isRI ?ds]
    by (cases ok) (auto simp del: tlv_items.simps tlv_image.simps prv_getLength.simps)
  then show ?case using items by blast
qed

lemma parse_from_total: "\<exists>ds. tlv_parse_from buffer acc [] = Inr (ds, [])"
proof (induction "length buffer" arbitrary: buffer acc rule: less_induct)
  case less
  show ?case
  proof (cases "lwm2m_decode_TLV buffer")
    case None
    then show ?thesis by (simp add: tlv_parse_from.simps)
  next
    case (Some x)
    then obtain t i di n r where dec: "lwm2m_decode_TLV buffer = Some (t, i, di, n, r)"
      by (cases x) auto
    from decode_TLV_shrinks [OF this] have "length (take n (drop di buffer)) < length buffer"
      "length (drop r buffer) < length buffer" by auto
    then obtain subs where "tlv_parse_from (take n (drop di buffer)) [] [] = Inr (subs, [])"
      and rest: "\<exists>ds. tlv_parse_from (drop r buffer) acc' [] = Inr (ds, [])" for acc'
      using less by blast
    then show ?thesis using rest by (simp add: parse_step [OF dec])
  qed
qed

section \<open>Properties\<close>

text \<open>
  C1. What \<^verbatim>\<open>tlv_serialize\<close> writes for a list of elements the format can carry, \<^verbatim>\<open>tlv_parse\<close> reads
  back: the same ids, the same nesting, every value as the bytes of its encoding.
\<close>

theorem tlv_roundtrip:
  assumes "tlv_wellformed ds"
  shows "bindE (tlv_serialize b (length ds) ds []) (\<lambda>(r, m). tlv_parse (map the (the r)) m)
    = Inr (tlv_view ds, [])"
  using serialize_image [OF assms, of b] parse_image [OF assms, of b "[]"]
  by (simp add: tlv_parse_def comp_def del: tlv_serialize.simps)

lemma tlv_roundtrip_witness:
  "bindE (tlv_serialize False (Suc (Suc 0)) [Data 5 (V_integer 300), Data 300 (V_multiple 1 [Data 1 (V_boolean True)])] [])
     (\<lambda>(r, m). tlv_parse (map the (the r)) m)
   = Inr ([Data 5 (V_opaque [1, 44]), Data 300 (V_multiple 1 [Data 1 (V_opaque [1])])], [])"
  using tlv_roundtrip [of "[Data 5 (V_integer 300), Data 300 (V_multiple 1 [Data 1 (V_boolean True)])]" False]
  by (simp add: plain_payload_def utils_encodeInt_def tlv_header_def prv_createHeader_def Let_def del: tlv_serialize.simps)

text \<open>
  Whatever the answers of the allocator, \<^verbatim>\<open>tlv_serialize\<close> never writes outside the buffer it
  sized with \<^verbatim>\<open>prv_getLength\<close>: it returns 0, or a buffer of exactly that length.
\<close>

theorem tlv_serialize_never_overruns:
  assumes "tlv_wellformed ds"
  shows "\<exists>cs m'. tlv_serialize b (length ds) ds m = Inr (Some cs, m')
    \<and> (cs = [] \<or> prv_getLength (length ds) ds = Inr (Some (length cs)))"
  using serialize_bounded [OF assms, of b m] getLength_image [OF assms] length_tlv_image [of b ds]
  by (auto simp del: tlv_serialize.simps)

lemma tlv_serialize_never_overruns_witness:
  "\<exists>cs m'. tlv_serialize True (Suc (Suc 0)) 
     [Data 5 (V_integer 300), Data 300 (V_multiple 1 [Data 1 (V_boolean True)])] [True, False] = Inr (Some cs, m')
    \<and> (cs = [] \<or> prv_getLength (Suc (Suc 0)) 
     [Data 5 (V_integer 300), Data 300 (V_multiple 1 [Data 1 (V_boolean True)])] = Inr (Some (length cs)))"
  using tlv_serialize_never_overruns [of "[Data 5 (V_integer 300), Data 300 (V_multiple 1 [Data 1 (V_boolean True)])]" True "[True, False]"]
  by (simp add: plain_payload_def utils_encodeInt_def tlv_header_def prv_createHeader_def Let_def
      del: tlv_serialize.simps prv_getLength.simps)


text \<open>
  What \<^verbatim>\<open>lwm2m_decode_TLV\<close> accepts lies inside the buffer: the data starts after a header of at
  least two bytes, and the record it reports ends inside.
\<close>

theorem decode_TLV_inside:
  assumes "lwm2m_decode_TLV buffer = Some (t, i, di, n, r)"
  shows "2 \<le> di \<and> r = di + n \<and> r \<le> length buffer"
  using decode_TLV_bounds [OF assms] by simp

lemma decode_TLV_inside_witness:
  "lwm2m_decode_TLV [0xC1, 5, 9] = Some (TYPE_OPAQUE, 5, 2, 1, 3) \<and> (3::nat) \<le> length [0xC1, 5, 9 :: byte]"
  using decode_TLV_inside [of "[0xC1, 5, 9]" TYPE_OPAQUE 5 2 1 3]
  by (simp add: lwm2m_decode_TLV_def prv_getDataType_def Let_def)

text \<open>
  When the allocation for a nested element fails, \<^verbatim>\<open>tlv_serialize\<close> still reports success: the
  children are missing and the returned length counts bytes that were never written.
\<close>

theorem tlv_serialize_nested_failure:
  "tlv_serialize False 1 [Data 0 (V_object_instance 1 [Data 0 (V_integer 5)])] [True, False]
   = Inr (Some [Some 0, Some 0, None, None, None], [])"
  by (simp add: prv_getHeaderLength_def utils_encodeInt_def prv_createHeader_def prv_getHeaderType_def item_cells_def)
end
