(* ===== verification/Lwm2m_List.thy ===== *)
theory Lwm2m_List
imports Prelude
begin

text \<open>
  The sorted linked list of \<^verbatim>\<open>external/wakaama/lwm2m_list.c\<close>, in which every multi-instance object
  of \<^verbatim>\<open>app/lwm2m\<close> keeps its instances. A node is any struct whose first fields are \<^verbatim>\<open>next\<close> and a
  16-bit id: the chain of \<^verbatim>\<open>next\<close> pointers is an HOL list and \<open>key\<close> reads the id.
\<close>

section \<open>The operations\<close>

text \<open>The while loop of \<^verbatim>\<open>lwm2m_list_add\<close>: walk while the next node has a smaller id.\<close>

fun add_after :: "('a \<Rightarrow> u16) \<Rightarrow> 'a list \<Rightarrow> 'a \<Rightarrow> 'a list" where
  "add_after key [] node = [node]"
| "add_after key (x # xs) node =
     (if key x < key node then x # add_after key xs node else node # x # xs)"

fun lwm2m_list_add :: "('a \<Rightarrow> u16) \<Rightarrow> 'a list \<Rightarrow> 'a \<Rightarrow> 'a list" where
  "lwm2m_list_add key [] node = [node]"
| "lwm2m_list_add key (h # t) node =
     (if key node < key h then node # h # t else h # add_after key t node)"

fun lwm2m_list_find :: "('a \<Rightarrow> u16) \<Rightarrow> 'a list \<Rightarrow> u16 \<Rightarrow> 'a option" where
  "lwm2m_list_find key [] i = None"
| "lwm2m_list_find key (x # xs) i =
     (if key x < i then lwm2m_list_find key xs i
      else if key x = i then Some x else None)"

text \<open>The while loop of \<^verbatim>\<open>lwm2m_list_remove\<close>, on the nodes after the head.\<close>

fun remove_after :: "('a \<Rightarrow> u16) \<Rightarrow> 'a list \<Rightarrow> u16 \<Rightarrow> 'a list \<times> 'a option" where
  "remove_after key [] i = ([], None)"
| "remove_after key (x # xs) i =
     (if key x < i then (let (ys, n) = remove_after key xs i in (x # ys, n))
      else if key x = i then (xs, Some x) else (x # xs, None))"

fun lwm2m_list_remove :: "('a \<Rightarrow> u16) \<Rightarrow> 'a list \<Rightarrow> u16 \<Rightarrow> 'a list \<times> 'a option" where
  "lwm2m_list_remove key [] i = ([], None)"
| "lwm2m_list_remove key (h # t) i =
     (if key h = i then (t, Some h)
      else (let (ys, n) = remove_after key t i in (h # ys, n)))"

fun newId_from :: "('a \<Rightarrow> u16) \<Rightarrow> u16 \<Rightarrow> 'a list \<Rightarrow> u16" where
  "newId_from key i [] = i"
| "newId_from key i (x # xs) = (if i = key x then newId_from key (key x + 1) xs else i)"

definition lwm2m_list_newId :: "('a \<Rightarrow> u16) \<Rightarrow> 'a list \<Rightarrow> u16" where
  "lwm2m_list_newId key xs = newId_from key 0 xs"

text \<open>
  The objects write through the pointer \<^verbatim>\<open>lwm2m_list_find\<close> returns: the node it points to is
  replaced by \<open>n\<close>, its place in the chain stays.
\<close>

fun store_found :: "('a \<Rightarrow> u16) \<Rightarrow> 'a list \<Rightarrow> u16 \<Rightarrow> 'a \<Rightarrow> 'a list" where
  "store_found key [] i n = []"
| "store_found key (x # xs) i n =
     (if key x < i then x # store_found key xs i n
      else if key x = i then n # xs else x # xs)"

section \<open>The invariant: ids strictly increasing\<close>

definition ids_ascending :: "('a \<Rightarrow> u16) \<Rightarrow> 'a list \<Rightarrow> bool" where
  "ids_ascending key xs \<longleftrightarrow> sorted_wrt (<) (map key xs)"

text \<open>The abstract view of a list: a finite map from ids to nodes.\<close>

definition abs_list :: "('a \<Rightarrow> u16) \<Rightarrow> 'a list \<Rightarrow> u16 \<Rightarrow> 'a option" where
  "abs_list key xs = map_of (map (\<lambda>x. (key x, x)) xs)"

lemma ids_ascending_simps [simp]:
  "ids_ascending key []"
  "ids_ascending key (x # xs) \<longleftrightarrow> (\<forall>y\<in>set xs. key x < key y) \<and> ids_ascending key xs"
  by (auto simp: ids_ascending_def)

lemma abs_list_simps [simp]:
  "abs_list key [] = Map.empty"
  "abs_list key (x # xs) = (abs_list key xs)(key x \<mapsto> x)"
  by (simp_all add: abs_list_def)

lemma abs_list_None_iff: "abs_list key xs i = None \<longleftrightarrow> i \<notin> key ` set xs"
  by (induction xs) auto

lemma abs_list_key: "abs_list key xs i = Some x \<Longrightarrow> key x = i \<and> x \<in> set xs"
  by (induction xs) (auto split: if_splits)

lemma abs_list_below:
  "ids_ascending key xs \<Longrightarrow> \<forall>y\<in>set xs. i < key y \<Longrightarrow> abs_list key xs i = None"
  by (auto simp: abs_list_None_iff)

lemma set_add_after: "set (add_after key xs n) = insert n (set xs)"
  by (induction xs) auto

lemma set_list_add: "set (lwm2m_list_add key xs n) = insert n (set xs)"
  by (cases xs) (auto simp: set_add_after)

lemma ids_ascending_add_after:
  "ids_ascending key xs \<Longrightarrow> key n \<notin> key ` set xs \<Longrightarrow> ids_ascending key (add_after key xs n)"
  by (induction xs) (auto simp: set_add_after intro: order.strict_trans)

lemma ids_ascending_add:
  "ids_ascending key xs \<Longrightarrow> key n \<notin> key ` set xs \<Longrightarrow> ids_ascending key (lwm2m_list_add key xs n)"
  by (cases xs) (auto simp: set_add_after ids_ascending_add_after intro: order.strict_trans)

lemma abs_add_after:
  "ids_ascending key xs \<Longrightarrow> key n \<notin> key ` set xs \<Longrightarrow>
   abs_list key (add_after key xs n) = (abs_list key xs)(key n \<mapsto> n)"
  by (induction xs) (auto simp: fun_upd_twist)

lemma abs_list_add:
  "ids_ascending key xs \<Longrightarrow> key n \<notin> key ` set xs \<Longrightarrow>
   abs_list key (lwm2m_list_add key xs n) = (abs_list key xs)(key n \<mapsto> n)"
  by (cases xs) (auto simp: abs_add_after fun_upd_twist)

lemma find_abs: "ids_ascending key xs \<Longrightarrow> lwm2m_list_find key xs i = abs_list key xs i"
proof (induction xs)
  case Nil
  then show ?case by simp
next
  case (Cons x xs)
  consider "key x < i" | "key x = i" | "i < key x" by fastforce
  then show ?case
  proof cases
    case 3
    then have "abs_list key xs i = None"
      using Cons.prems by (auto simp: abs_list_None_iff dest: order.strict_trans)
    then show ?thesis using 3 by auto
  qed (use Cons in auto)
qed

lemma find_in_set: "lwm2m_list_find key xs i = Some x \<Longrightarrow> x \<in> set xs \<and> key x = i"
  by (induction xs) (auto split: if_splits)

lemma remove_after_abs:
  "ids_ascending key xs \<Longrightarrow> remove_after key xs i = (ys, n) \<Longrightarrow>
   abs_list key ys = (abs_list key xs)(i := None) \<and> n = abs_list key xs i
   \<and> ids_ascending key ys \<and> set ys \<subseteq> set xs"
proof (induction xs arbitrary: ys n)
  case Nil
  then show ?case by simp
next
  case (Cons x xs)
  obtain zs m where r: "remove_after key xs i = (zs, m)" by fastforce
  have IH: "abs_list key zs = (abs_list key xs)(i := None) \<and> m = abs_list key xs i
      \<and> ids_ascending key zs \<and> set zs \<subseteq> set xs"
    by (rule Cons.IH [OF _ r]) (use Cons.prems(1) in simp)
  have le: "abs_list key xs (key x) = None"
    using Cons.prems(1) by (auto simp: abs_list_None_iff)
  consider "key x < i" | "key x = i" | "i < key x" by fastforce
  then show ?case
  proof cases
    case 1
    then show ?thesis using Cons.prems r IH by (fastforce simp: fun_eq_iff)
  next
    case 2
    then show ?thesis using Cons.prems le by (auto simp: fun_eq_iff)
  next
    case 3
    then have "\<not> key x < i" by (simp add: not_less order.strict_implies_order)
    moreover from 3 have "abs_list key (x # xs) i = None"
      using Cons.prems(1) by (auto simp: abs_list_None_iff dest: order.strict_trans)
    ultimately show ?thesis using Cons.prems 3 by (auto simp: fun_eq_iff split: if_splits)
  qed
qed

lemma list_remove_eq_after:
  "ids_ascending key xs \<Longrightarrow> lwm2m_list_remove key xs i = remove_after key xs i"
proof (cases xs)
  case Nil
  then show ?thesis by simp
next
  case (Cons h t)
  assume asc: "ids_ascending key xs"
  show ?thesis
  proof (cases "i < key h")
    case True
    then have "remove_after key t i = (t, None)"
      using asc Cons by (cases t) auto
    then show ?thesis using True Cons by auto
  next
    case False
    then show ?thesis using Cons by auto
  qed
qed

lemma list_remove_abs:
  assumes "ids_ascending key xs" and "lwm2m_list_remove key xs i = (ys, n)"
  shows "abs_list key ys = (abs_list key xs)(i := None)" and "n = abs_list key xs i"
    and "ids_ascending key ys" and "set ys \<subseteq> set xs"
  using remove_after_abs [of key xs i ys n] assms by (simp_all add: list_remove_eq_after)

lemma set_store_found: "set (store_found key xs i n) \<subseteq> insert n (set xs)"
  by (induction xs) auto

lemma store_found_keys:
  "key n = i \<Longrightarrow> map key (store_found key xs i n) = map key xs"
  by (induction xs) auto

lemma ids_ascending_store:
  "key n = i \<Longrightarrow> ids_ascending key (store_found key xs i n) = ids_ascending key xs"
  by (simp add: ids_ascending_def store_found_keys)

lemma abs_store_found:
  "ids_ascending key xs \<Longrightarrow> key n = i \<Longrightarrow> i \<in> key ` set xs \<Longrightarrow>
   abs_list key (store_found key xs i n) = (abs_list key xs)(i \<mapsto> n)"
proof (induction xs)
  case Nil
  then show ?case by simp
next
  case (Cons x xs)
  then show ?case by (cases "key x = i") (auto simp: fun_upd_twist)
qed

lemma abs_list_inject:
  "ids_ascending key xs \<Longrightarrow> ids_ascending key ys \<Longrightarrow> abs_list key xs = abs_list key ys \<Longrightarrow> xs = ys"
proof (induction xs arbitrary: ys)
  case Nil
  then show ?case by (cases ys) (auto simp: fun_eq_iff dest: spec [of _ "key (hd ys)"])
next
  case (Cons x xs)
  then obtain y zs where ys: "ys = y # zs"
    by (cases ys) (auto simp: fun_eq_iff dest: spec [of _ "key x"])
  have eq: "abs_list key (x # xs) i = abs_list key (y # zs) i" for i
    using Cons.prems(3) unfolding ys by (rule fun_cong)
  have xy: "x = y"
  proof (cases "key x" "key y" rule: linorder_cases)
    case less
    then have "abs_list key (y # zs) (key x) = None"
      using Cons.prems ys by (intro abs_list_below) (auto dest: order.strict_trans)
    then show ?thesis using eq [of "key x"] by simp
  next
    case equal
    then show ?thesis using eq [of "key x"] by simp
  next
    case greater
    then have "abs_list key (x # xs) (key y) = None"
      using Cons.prems ys by (intro abs_list_below) (auto dest: order.strict_trans)
    then show ?thesis using eq [of "key y"] by simp
  qed
  have none: "abs_list key xs (key x) = None" "abs_list key zs (key x) = None"
    using Cons.prems ys xy by (auto simp: abs_list_None_iff)
  have "abs_list key xs i = abs_list key zs i" for i
    using eq [of i] xy none by (cases "i = key x") (auto split: if_splits)
  then have "xs = zs" using Cons.IH [of zs] Cons.prems ys by auto
  with xy ys show ?case by simp
qed

section \<open>A free id\<close>

lemma newId_from_ascending:
  "ids_ascending key xs \<Longrightarrow> \<forall>x\<in>set xs. i \<le> key x \<Longrightarrow> unat i + length xs < 65536 \<Longrightarrow>
   i \<le> newId_from key i xs \<and> newId_from key i xs \<notin> key ` set xs
   \<and> (\<forall>j. i \<le> j \<longrightarrow> j < newId_from key i xs \<longrightarrow> j \<in> key ` set xs)"
proof (induction xs arbitrary: i)
  case Nil
  then show ?case by auto
next
  case (Cons x xs)
  show ?case
  proof (cases "i = key x")
    case True
    have nowrap: "unat (key x + 1) = unat (key x) + 1"
      using Cons.prems(3) True by (simp add: unat_plus_one)
    have above: "\<forall>y\<in>set xs. key x + 1 \<le> key y"
      using Cons.prems(1) nowrap by (auto simp: word_le_nat_alt word_less_nat_alt)
    have IH: "key x + 1 \<le> newId_from key (key x + 1) xs
      \<and> newId_from key (key x + 1) xs \<notin> key ` set xs
      \<and> (\<forall>j. key x + 1 \<le> j \<longrightarrow> j < newId_from key (key x + 1) xs \<longrightarrow> j \<in> key ` set xs)"
      by (rule Cons.IH) (use Cons.prems above nowrap True in auto)
    have step: "key x + 1 \<le> j \<or> j = key x" if "key x \<le> j" for j
      using that nowrap by (auto simp: word_le_nat_alt word_unat_eq_iff)
    have "key x < newId_from key (key x + 1) xs"
      using IH nowrap by (simp add: word_le_nat_alt word_less_nat_alt)
    then show ?thesis using IH step True by auto
  next
    case False
    then have "i < key x" using Cons.prems(2) by (simp add: order.strict_iff_order)
    then show ?thesis using False Cons.prems by auto
  qed
qed

lemma newId_free_and_lowest:
  assumes "ids_ascending key xs" and "length xs < 65536"
  shows "lwm2m_list_newId key xs \<notin> key ` set xs"
    and "j < lwm2m_list_newId key xs \<Longrightarrow> j \<in> key ` set xs"
  using newId_from_ascending [of key xs 0] assms by (auto simp: lwm2m_list_newId_def)

section \<open>The contract the objects rely on\<close>

text \<open>
  What an object needs of the container of its instances: a lookup, an insertion, a removal and
  a write through the pointer the lookup returned, over an abstract map from ids to instances.
\<close>

locale instance_store =
  fixes key :: "'a \<Rightarrow> u16"
    and find :: "'s \<Rightarrow> u16 \<Rightarrow> 'a option"
    and add :: "'s \<Rightarrow> 'a \<Rightarrow> 's"
    and rm :: "'s \<Rightarrow> u16 \<Rightarrow> 's \<times> 'a option"
    and store :: "'s \<Rightarrow> u16 \<Rightarrow> 'a \<Rightarrow> 's"
    and abs :: "'s \<Rightarrow> u16 \<Rightarrow> 'a option"
    and invar :: "'s \<Rightarrow> bool"
  assumes find_spec: "invar s \<Longrightarrow> find s i = abs s i"
    and abs_key: "invar s \<Longrightarrow> abs s i = Some x \<Longrightarrow> key x = i"
    and add_spec: "invar s \<Longrightarrow> abs s (key x) = None \<Longrightarrow>
      abs (add s x) = (abs s)(key x \<mapsto> x) \<and> invar (add s x)"
    and rm_spec: "invar s \<Longrightarrow>
      abs (fst (rm s i)) = (abs s)(i := None) \<and> snd (rm s i) = abs s i \<and> invar (fst (rm s i))"
    and store_spec: "invar s \<Longrightarrow> abs s i \<noteq> None \<Longrightarrow> key x = i \<Longrightarrow>
      abs (store s i x) = (abs s)(i \<mapsto> x) \<and> invar (store s i x)"
begin

lemma find_added: "invar s \<Longrightarrow> find s (key x) = None \<Longrightarrow> find (add s x) (key x) = Some x"
  by (simp add: find_spec add_spec)

lemma find_other_added:
  "invar s \<Longrightarrow> find s (key x) = None \<Longrightarrow> i \<noteq> key x \<Longrightarrow> find (add s x) i = find s i"
  by (simp add: find_spec add_spec)

lemma rm_added:
  assumes "invar s" and "find s (key x) = None"
  shows "abs (fst (rm (add s x) (key x))) = abs s" and "snd (rm (add s x) (key x)) = Some x"
  using assms add_spec [of s x] rm_spec [of "add s x" "key x"]
  by (auto simp: find_spec fun_eq_iff)

lemma find_removed: "invar s \<Longrightarrow> find (fst (rm s i)) i = None"
  by (simp add: find_spec rm_spec)

lemma rm_absent: "invar s \<Longrightarrow> find s i = None \<Longrightarrow> abs (fst (rm s i)) = abs s"
  by (auto simp: find_spec rm_spec)

lemma find_stored:
  "invar s \<Longrightarrow> find s i = Some y \<Longrightarrow> key x = i \<Longrightarrow>
   find (store s i x) j = (if j = i then Some x else find s j)"
  by (simp add: find_spec store_spec)

lemma store_stored_rm:
  assumes "invar s" and "find s (key x) = None" and "key y = key x"
  shows "abs (fst (rm (store (add s x) (key x) y) (key x))) = abs s"
    and "invar (fst (rm (store (add s x) (key x) y) (key x)))"
proof -
  from assms have add: "abs (add s x) = (abs s)(key x \<mapsto> x)" "invar (add s x)"
    by (simp_all add: find_spec add_spec)
  then have "abs (store (add s x) (key x) y) = (abs s)(key x \<mapsto> y)"
    and st: "invar (store (add s x) (key x) y)"
    using store_spec [of "add s x" "key x" y] assms(3) by simp_all
  then show "abs (fst (rm (store (add s x) (key x) y) (key x))) = abs s"
    using assms by (auto simp: rm_spec find_spec fun_eq_iff)
  show "invar (fst (rm (store (add s x) (key x) y) (key x)))" using st by (simp add: rm_spec)
qed

end

text \<open>The list of \<^verbatim>\<open>lwm2m_list.c\<close> provides the contract, whatever the instances are.\<close>

lemma list_instance_store:
  "instance_store key (lwm2m_list_find key) (lwm2m_list_add key) (lwm2m_list_remove key)
     (store_found key) (abs_list key) (ids_ascending key)"
proof
  fix s i and x
  show "abs_list key (fst (lwm2m_list_remove key s i)) = (abs_list key s)(i := None)
     \<and> snd (lwm2m_list_remove key s i) = abs_list key s i
     \<and> ids_ascending key (fst (lwm2m_list_remove key s i))" if "ids_ascending key s"
    using list_remove_abs [OF that, of i] by (cases "lwm2m_list_remove key s i") auto
  show "abs_list key (store_found key s i x) = (abs_list key s)(i \<mapsto> x)
     \<and> ids_ascending key (store_found key s i x)"
    if "ids_ascending key s" "abs_list key s i \<noteq> None" "key x = i"
    using that by (auto simp: abs_store_found ids_ascending_store abs_list_None_iff)
qed (auto simp: find_abs abs_list_key abs_list_add ids_ascending_add abs_list_None_iff)

text \<open>Adding an instance, writing to it and removing it again leaves the very same list.\<close>

lemma list_add_store_remove:
  assumes "ids_ascending key xs" and "lwm2m_list_find key xs (key x) = None" and "key y = key x"
  shows "fst (lwm2m_list_remove key (store_found key (lwm2m_list_add key xs x) (key x) y) (key x)) = xs"
  using instance_store.store_stored_rm [OF list_instance_store assms] assms(1) abs_list_inject
  by blast

section \<open>The list is a map from ids to nodes\<close>

text \<open>
  C16. The list of \<^verbatim>\<open>lwm2m_list.c\<close> implements a finite map: on a list in ascending order of ids, a find
  is a lookup, an add of an unused id an update, a remove a deletion that returns the node it took
  out, and each of them keeps the order.
\<close>

theorem list_refines_map:
  assumes "ids_ascending key xs" and "abs_list key xs (key n) = None"
    and "lwm2m_list_remove key xs i = (ys, x)"
  shows "lwm2m_list_find key xs i = abs_list key xs i
    \<and> abs_list key (lwm2m_list_add key xs n) = (abs_list key xs)(key n \<mapsto> n)
    \<and> ids_ascending key (lwm2m_list_add key xs n)
    \<and> abs_list key ys = (abs_list key xs)(i := None) \<and> x = abs_list key xs i
    \<and> ids_ascending key ys"
  using assms list_remove_abs [OF assms(1,3)]
  by (auto simp: find_abs abs_list_add ids_ascending_add abs_list_None_iff)

lemma list_refines_map_witness:
  "lwm2m_list_find id [1, 3, 7] 3 = abs_list id [1, 3, 7 :: u16] 3
    \<and> abs_list id (lwm2m_list_add id [1, 3, 7] 5) = (abs_list id [1, 3, 7 :: u16])(id 5 \<mapsto> 5)
    \<and> ids_ascending id (lwm2m_list_add id [1, 3, 7 :: u16] 5)
    \<and> abs_list id [1, 7 :: u16] = (abs_list id [1, 3, 7])(3 := None)
    \<and> Some 3 = abs_list id [1, 3, 7 :: u16] 3
    \<and> ids_ascending id [1, 7 :: u16]"
  by (rule list_refines_map) simp_all

text \<open>
  \<^verbatim>\<open>lwm2m_list_newId\<close> returns the lowest free id of an ascending list, as long as an id is free.
\<close>

theorem newId_lowest_free:
  assumes "ids_ascending key xs" and "length xs < 65536"
  shows "lwm2m_list_newId key xs \<notin> key ` set xs
    \<and> {j. j < lwm2m_list_newId key xs} \<subseteq> key ` set xs"
  using newId_free_and_lowest [OF assms] by blast

lemma newId_lowest_free_witness:
  "lwm2m_list_newId id [0, 1, 3 :: u16] \<notin> id ` set [0, 1, 3]
    \<and> {j. j < lwm2m_list_newId id [0, 1, 3 :: u16]} \<subseteq> id ` set [0, 1, 3]"
  by (rule newId_lowest_free) simp_all

end
