(* ===== verification/Lwm2m_Object.thy ===== *)
theory Lwm2m_Object
imports Lwm2m_Data Lwm2m_List
begin

text \<open>
  What the objects of \<^verbatim>\<open>app/lwm2m\<close> have in common: the struct \<^verbatim>\<open>lwm2m_object_t\<close>, the loops their
  read, discover and write callbacks run over an array of data elements, and the copy of an
  instance list. A callback gets the array as a list: \<open>[]\<close> stands for \<^verbatim>\<open>*numDataP == 0\<close>.
\<close>

section \<open>Objects\<close>

datatype callback = READ | WRITE | EXECUTE | CREATE | DELETE | DISCOVER

record ('i, 'u) lwm2m_object =
  objID :: u16
  instanceList :: "'i list"
  userData :: "'u option"
  callbacks :: "callback list"

text \<open>Access through \<^verbatim>\<open>objectP->userData\<close>.\<close>

definition deref :: "'a option \<Rightarrow> 'a res" where
  "deref p = (case p of None \<Rightarrow> Inl NullDeref | Some x \<Rightarrow> Inr x)"

text \<open>
  The constructors of the single-instance objects allocate the object, its list node and its user
  data, in this order, and give up at the first failure.
\<close>

definition alloc_single :: "mem \<Rightarrow> bool \<times> mem" where
  "alloc_single m =
     (case lwm2m_malloc m of
        (False, m1) \<Rightarrow> (False, m1)
      | (True, m1) \<Rightarrow>
          (case lwm2m_malloc m1 of (False, m2) \<Rightarrow> (False, m2) | (True, m2) \<Rightarrow> lwm2m_malloc m2))"

lemma alloc_single_Nil [simp]: "alloc_single [] = (True, [])"
  by (simp add: alloc_single_def)

lemma deref_Some [simp]: "deref (Some x) = Inr x"
  by (simp add: deref_def)

lemma deref_Inr_iff [simp]: "deref p = Inr x \<longleftrightarrow> p = Some x"
  by (cases p) (auto simp: deref_def)

section \<open>Reading\<close>

text \<open>
  The requested elements: those the caller passed, or a fresh array with the ids of \<^verbatim>\<open>resList\<close> when
  it passed none. \<open>None\<close> is a failed allocation.
\<close>

definition requested :: "u16 list \<Rightarrow> lwm2m_data list \<Rightarrow> mem \<Rightarrow> lwm2m_data list option \<times> mem" where
  "requested resList ds m =
     (if ds \<noteq> [] then (Some ds, m)
      else case lwm2m_data_new (int (length resList)) m of
        ([], m1) \<Rightarrow> (None, m1)
      | (_ # _, m1) \<Rightarrow> (Some (map (\<lambda>r. Data r V_undefined) resList), m1))"

text \<open>
  \<^verbatim>\<open>do { result = prv_get_value(*dataArrayP + i); i++; } while (i < *numDataP && result == 2.05)\<close>.
\<close>

fun read_loop ::
    "(lwm2m_data \<Rightarrow> mem \<Rightarrow> (byte \<times> lwm2m_data \<times> mem) res) \<Rightarrow> lwm2m_data list \<Rightarrow> mem
     \<Rightarrow> (byte \<times> lwm2m_data list \<times> mem) res" where
  "read_loop get [] m = Inl OutOfBounds"
| "read_loop get (d # ds) m =
     bindE (get d m) (\<lambda>(r, d', m1).
       if ds \<noteq> [] \<and> r = COAP_205_CONTENT
       then bindE (read_loop get ds m1) (\<lambda>(r', ds', m2). Inr (r', d' # ds', m2))
       else Inr (r, d' # ds, m1))"

text \<open>The loop of the discover callbacks that only tests the ids.\<close>

fun discover_loop :: "u16 list \<Rightarrow> lwm2m_data list \<Rightarrow> byte" where
  "discover_loop known [] = COAP_205_CONTENT"
| "discover_loop known (d # ds) =
     (if data_id d \<in> set known then discover_loop known ds else COAP_404_NOT_FOUND)"

section \<open>Writing\<close>

text \<open>
  \<^verbatim>\<open>do { switch (dataArray[i].id) ... i++; } while (i < numData && result == 2.04)\<close>: \<open>s\<close> is the
  instance the callback writes to, changed in place.
\<close>

fun write_loop ::
    "(lwm2m_data \<Rightarrow> 's \<Rightarrow> mem \<Rightarrow> (byte \<times> 's \<times> mem) res) \<Rightarrow> lwm2m_data list \<Rightarrow> 's \<Rightarrow> mem
     \<Rightarrow> (byte \<times> 's \<times> mem) res" where
  "write_loop put [] s m = Inl OutOfBounds"
| "write_loop put (d # ds) s m =
     bindE (put d s m) (\<lambda>(r, s', m1).
       if ds \<noteq> [] \<and> r = COAP_204_CHANGED then write_loop put ds s' m1 else Inr (r, s', m1))"

section \<open>Copying an instance list\<close>

text \<open>
  The loop of the \<^verbatim>\<open>copy_..._object\<close> functions. Each node of the result carries whether it is a
  copy: \<^verbatim>\<open>memcpy\<close> also copies \<^verbatim>\<open>next\<close>, so when an allocation fails after the first copy the last copied
  node still points into the source list.
\<close>

fun copy_nodes :: "bool \<Rightarrow> 'i list \<Rightarrow> mem \<Rightarrow> ('i \<times> bool) list \<times> mem" where
  "copy_nodes started [] m = ([], m)"
| "copy_nodes started (x # xs) m =
     (case lwm2m_malloc m of
        (False, m1) \<Rightarrow> (if started then map (\<lambda>y. (y, False)) (x # xs) else [], m1)
      | (True, m1) \<Rightarrow> (case copy_nodes True xs m1 of (ys, m2) \<Rightarrow> ((x, True) # ys, m2)))"

lemma copy_nodes_complete [simp]: "copy_nodes b xs [] = (map (\<lambda>x. (x, True)) xs, [])"
  by (induction xs arbitrary: b) simp_all

section \<open>The contract of a reader\<close>

text \<open>
  A \<^verbatim>\<open>prv_get_value\<close> fills the element it is given: it keeps the id, and answers 2.05 for the
  resources of \<open>readable\<close> while memory lasts.
\<close>

locale resource_reader =
  fixes get :: "lwm2m_data \<Rightarrow> mem \<Rightarrow> (byte \<times> lwm2m_data \<times> mem) res"
    and readable :: "u16 set"
    and val :: "u16 \<Rightarrow> lwm2m_value"
  assumes get_readable: "r \<in> readable \<Longrightarrow>
      get (Data r V_undefined) [] = Inr (COAP_205_CONTENT, Data r (val r), [])"
begin

lemma read_known:
  "rs \<noteq> [] \<Longrightarrow> set rs \<subseteq> readable \<Longrightarrow>
   read_loop get (map (\<lambda>r. Data r V_undefined) rs) []
   = Inr (COAP_205_CONTENT, map (\<lambda>r. Data r (val r)) rs, [])"
proof (induction rs)
  case Nil
  then show ?case by simp
next
  case (Cons r rs)
  then show ?case by (cases rs) (simp_all add: get_readable)
qed

text \<open>The full read of an instance, when every id of \<^verbatim>\<open>resList\<close> is readable.\<close>

lemma full_read:
  assumes "rs \<noteq> []" and "set rs \<subseteq> readable" and "requested rs [] [] = (Some ds, m)"
  shows "read_loop get ds m = Inr (COAP_205_CONTENT, map (\<lambda>r. Data r (val r)) rs, [])"
proof -
  from assms(1,3) have "ds = map (\<lambda>r. Data r V_undefined) rs" and "m = []"
    by (cases "nat (int (length rs))"; simp add: requested_def)+
  then show ?thesis using read_known [OF assms(1,2)] by simp
qed

end

lemma requested_all [simp]:
  "rs \<noteq> [] \<Longrightarrow> requested rs [] [] = (Some (map (\<lambda>r. Data r V_undefined) rs), [])"
  by (cases rs) (simp_all add: requested_def nat_add_distrib)

lemma requested_given [simp]: "ds \<noteq> [] \<Longrightarrow> requested rs ds m = (Some ds, m)"
  by (simp add: requested_def)

lemma discover_loop_iff:
  "discover_loop known ds = COAP_205_CONTENT \<longleftrightarrow> data_id ` set ds \<subseteq> set known"
  by (induction ds) auto

section \<open>The contract of a writer\<close>

text \<open>
  A writer stores one element into the instance. \<open>good\<close> is what every write keeps of the instance,
  and \<open>key\<close> is never written.
\<close>

locale resource_writer =
  fixes put :: "lwm2m_data \<Rightarrow> 's \<Rightarrow> mem \<Rightarrow> (byte \<times> 's \<times> mem) res"
    and key :: "'s \<Rightarrow> u16"
    and good :: "'s \<Rightarrow> bool"
  assumes put_good: "good s \<Longrightarrow> put d s m = Inr (r, s', m') \<Longrightarrow> good s'"
    and put_key: "put d s m = Inr (r, s', m') \<Longrightarrow> key s' = key s"
begin

lemma write_good:
  "good s \<Longrightarrow> write_loop put ds s m = Inr (r, s', m') \<Longrightarrow> good s'"
proof (induction ds arbitrary: s m)
  case Nil
  then show ?case by simp
next
  case (Cons d ds)
  then show ?case
    by (auto elim!: bindE_Inr_E dest: put_good split: if_splits prod.splits)
qed

lemma write_key: "write_loop put ds s m = Inr (r, s', m') \<Longrightarrow> key s' = key s"
proof (induction ds arbitrary: s m)
  case Nil
  then show ?case by simp
next
  case (Cons d ds)
  then show ?case
    by (auto elim!: bindE_Inr_E dest: put_key split: if_splits prod.splits)
qed

text \<open>A write that is refused at its first element changes what that element changed, no more.\<close>

lemma write_stops:
  "put d s m = Inr (r, s', m') \<Longrightarrow> r \<noteq> COAP_204_CHANGED \<Longrightarrow>
   write_loop put (d # ds) s m = Inr (r, s', m')"
  by simp

lemma write_append:
  assumes "write_loop put xs s m = Inr (COAP_204_CHANGED, s1, m1)" and "ys \<noteq> []"
  shows "write_loop put (xs @ ys) s m = write_loop put ys s1 m1"
  using assms(1)
proof (induction xs arbitrary: s m)
  case Nil
  then show ?case by simp
next
  case (Cons d xs)
  then obtain r s2 m2 where p: "put d s m = Inr (r, s2, m2)"
    by (auto elim!: bindE_Inr_E)
  with Cons assms(2) show ?case by (cases "xs = []") (auto split: if_splits)
qed

end

text \<open>A writer that never leaves the defined behaviour of C.\<close>

locale safe_writer = resource_writer +
  assumes put_ok: "good s \<Longrightarrow> ok (put d s m)"
begin

lemma write_ok: "good s \<Longrightarrow> ds \<noteq> [] \<Longrightarrow> ok (write_loop put ds s m)"
proof (induction ds arbitrary: s m)
  case Nil
  then show ?case by simp
next
  case (Cons d ds)
  then obtain r s' m' where p: "put d s m = Inr (r, s', m')"
    using put_ok [of s d m] by (auto simp: ok_iff)
  then have "good s'" by (rule put_good [OF Cons.prems(1)])
  with Cons.IH [of s' m'] show ?case by (simp add: p)
qed

end

lemma read_loop_ok:
  "(\<And>d m. ok (get d m)) \<Longrightarrow> ds \<noteq> [] \<Longrightarrow> ok (read_loop get ds m)"
proof (induction ds arbitrary: m)
  case Nil
  then show ?case by simp
next
  case (Cons d ds)
  obtain r d' m' where "get d m = Inr (r, d', m')"
    using Cons.prems(1) [of d m] by (auto simp: ok_iff)
  with Cons.IH [of m'] Cons.prems(1) show ?case
    by (fastforce simp: ok_bindE ok_iff)
qed

lemma requested_nonempty: "rs \<noteq> [] \<Longrightarrow> requested rs ds m = (Some ds', m') \<Longrightarrow> ds' \<noteq> []"
  by (auto simp: requested_def split: if_splits prod.splits list.splits)

lemma requested_read_ok:
  assumes "\<And>d m. ok (get d m)" and "rs \<noteq> []"
  shows "ok (case requested rs ds m of
      (None, m1) \<Rightarrow> Inr (f m1) | (Some ds', m1) \<Rightarrow> read_loop get ds' m1)"
proof (cases "requested rs ds m")
  case (Pair a m1)
  then show ?thesis
    using assms(2) requested_nonempty [of rs ds m] read_loop_ok [of get, OF assms(1)]
    by (cases a) simp_all
qed

text \<open>A read keeps the number of elements, and each element it read comes from one call.\<close>

lemma read_loop_length: "read_loop get ds m = Inr (r, ds', m') \<Longrightarrow> length ds' = length ds"
proof (induction ds arbitrary: m r ds' m')
  case Nil
  then show ?case by simp
next
  case (Cons d ds)
  then show ?case by (auto elim!: bindE_Inr_E split: if_splits)
qed

lemma read_loop_nth:
  "read_loop get ds m = Inr (COAP_205_CONTENT, ds', m') \<Longrightarrow> k < length ds \<Longrightarrow>
   \<exists>m1 m2. get (ds ! k) m1 = Inr (COAP_205_CONTENT, ds' ! k, m2)"
proof (induction ds arbitrary: m ds' k m')
  case Nil
  then show ?case by simp
next
  case (Cons d ds)
  obtain r d' m1 where g: "get d m = Inr (r, d', m1)"
    using Cons.prems(1) by (auto elim!: bindE_Inr_E)
  show ?case
  proof (cases "ds \<noteq> [] \<and> r = COAP_205_CONTENT")
    case True
    then obtain ds1 where "read_loop get ds m1 = Inr (COAP_205_CONTENT, ds1, m')" "ds' = d' # ds1"
      using Cons.prems(1) g by (auto elim!: bindE_Inr_E)
    then show ?thesis using Cons.IH [of m1 ds1 m' "k - 1"] Cons.prems(2) g True by (cases k) auto
  next
    case False
    then have "r = COAP_205_CONTENT" "ds = []" "ds' = [d']" using Cons.prems(1) g by auto
    then show ?thesis using g Cons.prems(2) by auto
  qed
qed

text \<open>
  An invariant of single steps is an invariant of runs: the objects instantiate this with the
  steps of their callbacks.
\<close>

locale step_invariant =
  fixes step :: "'s \<Rightarrow> 's \<Rightarrow> bool"
    and inv :: "'s \<Rightarrow> bool"
  assumes step_inv: "inv s \<Longrightarrow> step s s' \<Longrightarrow> inv s'"
begin

lemma run_inv: "step\<^sup>*\<^sup>* s s' \<Longrightarrow> inv s \<Longrightarrow> inv s'"
  by (induction rule: rtranclp_induct) (auto intro: step_inv)

end

section \<open>Objects with several instances\<close>

text \<open>What the callbacks keep of an instance list: ascending ids and good instances.\<close>

definition list_inv :: "('s \<Rightarrow> u16) \<Rightarrow> ('s \<Rightarrow> bool) \<Rightarrow> 's list \<Rightarrow> bool" where
  "list_inv key good xs \<longleftrightarrow> ids_ascending key xs \<and> (\<forall>t\<in>set xs. good t)"

text \<open>
  A writer together with the zeroed instance a create callback starts from: the lemmas that
  every multi-instance object shares.
\<close>

locale instance_writer = resource_writer put key good
  for put :: "lwm2m_data \<Rightarrow> 's \<Rightarrow> mem \<Rightarrow> (byte \<times> 's \<times> mem) res"
    and key :: "'s \<Rightarrow> u16" and good :: "'s \<Rightarrow> bool" +
  fixes zero :: "u16 \<Rightarrow> 's"
  assumes zero_key: "key (zero i) = i"
    and zero_good: "good (zero i)"
begin

lemma found_good:
  "list_inv key good xs \<Longrightarrow> lwm2m_list_find key xs i = Some t \<Longrightarrow> good t \<and> key t = i"
  using find_in_set [of key xs i t] by (simp add: list_inv_def)

lemma write_list_inv:
  assumes "list_inv key good xs" and "lwm2m_list_find key xs i = Some t"
    and "write_loop put ds t m = Inr (r, t', m')"
  shows "list_inv key good (store_found key xs i t')"
proof -
  from assms found_good have "good t'" "key t' = i"
    by (metis write_good, metis write_key)
  then show ?thesis
    using assms(1) set_store_found [of key xs i t'] by (auto simp: list_inv_def ids_ascending_store)
qed

lemma added_inv:
  assumes "list_inv key good xs" and "lwm2m_list_find key xs i = None"
  shows "list_inv key good (lwm2m_list_add key xs (zero i))"
  using assms instance_store.add_spec [OF list_instance_store, of key xs "zero i"]
  by (auto simp: list_inv_def set_list_add zero_good zero_key find_abs)

lemma found_added:
  assumes "list_inv key good xs" and "lwm2m_list_find key xs i = None"
  shows "lwm2m_list_find key (lwm2m_list_add key xs (zero i)) i = Some (zero i)"
  using assms instance_store.find_added [OF list_instance_store, of key xs "zero i"]
  by (simp add: list_inv_def zero_key)

lemma removed_inv:
  "list_inv key good xs \<Longrightarrow> list_inv key good (fst (lwm2m_list_remove key xs i))"
proof -
  obtain ys n where "lwm2m_list_remove key xs i = (ys, n)" by fastforce
  moreover assume "list_inv key good xs"
  ultimately show ?thesis using list_remove_abs(3,4) [of key xs i ys n] by (auto simp: list_inv_def)
qed

text \<open>A create that fails in its write and deletes what it added leaves the list it found.\<close>

lemma create_undone:
  assumes "list_inv key good xs" and "lwm2m_list_find key xs i = None"
    and "write_loop put ds (zero i) m = Inr (r, t', m')"
  shows "fst (lwm2m_list_remove key (store_found key (lwm2m_list_add key xs (zero i)) i t') i) = xs"
  using list_add_store_remove [of key xs "zero i" t'] assms write_key [OF assms(3)]
  by (simp add: list_inv_def zero_key)

text \<open>The other instances do not notice a write.\<close>

lemma find_written:
  assumes "list_inv key good xs" and "lwm2m_list_find key xs i = Some t"
    and "write_loop put ds t m = Inr (r, t', m')"
  shows "lwm2m_list_find key (store_found key xs i t') j
    = (if j = i then Some t' else lwm2m_list_find key xs j)"
proof -
  have "key t' = i" using write_key [OF assms(3)] found_good [OF assms(1,2)] by simp
  then show ?thesis
    using instance_store.find_stored [OF list_instance_store, of key xs i t t' j] assms
    by (simp add: list_inv_def)
qed

end

end
