(* ===== verification/Object_Server.thy ===== *)
theory Object_Server
imports Lwm2m_Object
begin

text \<open>
  The LWM2M server object of \<^verbatim>\<open>app/lwm2m/object_server.c\<close>: its instances, the callbacks, the
  constructor and the copy. The callbacks run on the object's \<^verbatim>\<open>instanceList\<close>.
\<close>

section \<open>Instances\<close>

record server_instance =
  instanceId :: u16
  shortServerId :: u16
  lifetime :: u32
  defaultMinPeriod :: u32
  defaultMaxPeriod :: u32
  disableTimeout :: u32
  storing :: bool
  binding :: "byte list"   \<comment> \<open>\<^verbatim>\<open>char binding[4]\<close>\<close>

type_synonym server_object = "(server_instance, unit) lwm2m_object"

definition LWM2M_SERVER_RESOURCES :: "u16 list" where
  "LWM2M_SERVER_RESOURCES = [0, 1, 2, 3, 5, 6, 7]"

definition LWM2M_SERVER_ALL :: "u16 list" where
  "LWM2M_SERVER_ALL = [0, 1, 2, 3, 4, 5, 6, 7, 8]"

section \<open>Read and discover\<close>

definition prv_get_value ::
    "server_instance \<Rightarrow> lwm2m_data \<Rightarrow> mem \<Rightarrow> (byte \<times> lwm2m_data \<times> mem) res" where
  "prv_get_value t d m =
     (let i = data_id d in
      if i = 0 then
        Inr (COAP_205_CONTENT, lwm2m_data_encode_int (ucast (shortServerId t)) d, m)
      else if i = 1 then Inr (COAP_205_CONTENT, lwm2m_data_encode_int (ucast (lifetime t)) d, m)
      else if i = 2 then
        Inr (COAP_205_CONTENT, lwm2m_data_encode_int (ucast (defaultMinPeriod t)) d, m)
      else if i = 3 then
        Inr (COAP_205_CONTENT, lwm2m_data_encode_int (ucast (defaultMaxPeriod t)) d, m)
      else if i = 4 then Inr (COAP_405_METHOD_NOT_ALLOWED, d, m)
      else if i = 5 then
        Inr (COAP_205_CONTENT, lwm2m_data_encode_int (ucast (disableTimeout t)) d, m)
      else if i = 6 then Inr (COAP_205_CONTENT, lwm2m_data_encode_bool (storing t) d, m)
      else if i = 7 then
        bindE (c_string (binding t)) (\<lambda>s.
          Inr (COAP_205_CONTENT, lwm2m_data_encode_string s d m))
      else if i = 8 then Inr (COAP_405_METHOD_NOT_ALLOWED, d, m)
      else Inr (COAP_404_NOT_FOUND, d, m))"

definition prv_server_read ::
    "u16 \<Rightarrow> lwm2m_data list \<Rightarrow> server_object \<Rightarrow> mem \<Rightarrow> (byte \<times> lwm2m_data list \<times> mem) res" where
  "prv_server_read iid ds obj m =
     (case lwm2m_list_find instanceId (instanceList obj) iid of
        None \<Rightarrow> Inr (COAP_404_NOT_FOUND, ds, m)
      | Some t \<Rightarrow>
          (case requested LWM2M_SERVER_RESOURCES ds m of
             (None, m1) \<Rightarrow> Inr (COAP_500_INTERNAL_SERVER_ERROR, [], m1)
           | (Some ds', m1) \<Rightarrow> read_loop (prv_get_value t) ds' m1))"

definition prv_server_discover ::
    "lwm2m_data list \<Rightarrow> mem \<Rightarrow> byte \<times> lwm2m_data list \<times> mem" where
  "prv_server_discover ds m =
     (if ds = [] then
        (case requested LWM2M_SERVER_ALL [] m of
           (None, m1) \<Rightarrow> (COAP_500_INTERNAL_SERVER_ERROR, [], m1)
         | (Some ds', m1) \<Rightarrow> (COAP_205_CONTENT, ds', m1))
      else (discover_loop LWM2M_SERVER_ALL ds, ds, m))"

section \<open>Write\<close>

text \<open>The target is unchanged unless the result is 2.04.\<close>

definition prv_set_int_value :: "lwm2m_data \<Rightarrow> u32 \<Rightarrow> byte \<times> u32" where
  "prv_set_int_value d old =
     (case lwm2m_data_decode_int d of
        None \<Rightarrow> (COAP_400_BAD_REQUEST, old)
      | Some v \<Rightarrow>
          if 0 \<le> sint v \<and> sint v \<le> 0xFFFFFFFF then (COAP_204_CHANGED, ucast v)
          else (COAP_406_NOT_ACCEPTABLE, old))"

definition valid_binding :: "byte list \<Rightarrow> bool" where
  "valid_binding b \<longleftrightarrow>
     0 < length b \<and> length b \<le> 3
     \<and> (strncmp_eq b (bytes ''U'') (length b) \<or> strncmp_eq b (bytes ''UQ'') (length b)
        \<or> strncmp_eq b (bytes ''S'') (length b) \<or> strncmp_eq b (bytes ''SQ'') (length b)
        \<or> strncmp_eq b (bytes ''US'') (length b) \<or> strncmp_eq b (bytes ''UQS'') (length b))"

text \<open>\<^verbatim>\<open>strncpy\<close> of \<^verbatim>\<open>length\<close> bytes, without a terminator, over what \<^verbatim>\<open>binding\<close> held.\<close>

definition server_write_binding ::
    "byte list \<Rightarrow> server_instance \<Rightarrow> mem \<Rightarrow> (byte \<times> server_instance \<times> mem) res" where
  "server_write_binding b t m =
     (if valid_binding b then
        bindE (strncpy (binding t) b (length b)) (\<lambda>s. Inr (COAP_204_CHANGED, t\<lparr>binding := s\<rparr>, m))
      else Inr (COAP_400_BAD_REQUEST, t, m))"

text \<open>The switch over the id of one element; a \<^verbatim>\<open>return\<close> in it ends the loop like any error.\<close>

definition server_write_resource ::
    "lwm2m_data \<Rightarrow> server_instance \<Rightarrow> mem \<Rightarrow> (byte \<times> server_instance \<times> mem) res" where
  "server_write_resource d t m =
     (let i = data_id d in
      if i = 0 then
        (case prv_set_int_value d (ucast (shortServerId t)) of (r, v) \<Rightarrow>
           if r = COAP_204_CHANGED then
             if 0 < v \<and> v \<le> 0xFFFF then Inr (r, t\<lparr>shortServerId := ucast v\<rparr>, m)
             else Inr (COAP_406_NOT_ACCEPTABLE, t, m)
           else Inr (r, t, m))
      else if i = 1 then
        (case prv_set_int_value d (lifetime t) of (r, v) \<Rightarrow> Inr (r, t\<lparr>lifetime := v\<rparr>, m))
      else if i = 2 then
        (case prv_set_int_value d (defaultMinPeriod t) of (r, v) \<Rightarrow>
           Inr (r, t\<lparr>defaultMinPeriod := v\<rparr>, m))
      else if i = 3 then
        (case prv_set_int_value d (defaultMaxPeriod t) of (r, v) \<Rightarrow>
           Inr (r, t\<lparr>defaultMaxPeriod := v\<rparr>, m))
      else if i = 4 then Inr (COAP_405_METHOD_NOT_ALLOWED, t, m)
      else if i = 5 then
        (case prv_set_int_value d (disableTimeout t) of (r, v) \<Rightarrow>
           Inr (r, t\<lparr>disableTimeout := v\<rparr>, m))
      else if i = 6 then
        (case lwm2m_data_decode_bool d of
           Some b \<Rightarrow> Inr (COAP_204_CHANGED, t\<lparr>storing := b\<rparr>, m)
         | None \<Rightarrow> Inr (COAP_400_BAD_REQUEST, t, m))
      else if i = 7 then
        (case data_value d of
           V_string b \<Rightarrow> server_write_binding b t m
         | V_opaque b \<Rightarrow> server_write_binding b t m
         | _ \<Rightarrow> Inr (COAP_400_BAD_REQUEST, t, m))
      else if i = 8 then Inr (COAP_405_METHOD_NOT_ALLOWED, t, m)
      else Inr (COAP_404_NOT_FOUND, t, m))"

definition prv_server_write ::
    "u16 \<Rightarrow> lwm2m_data list \<Rightarrow> server_object \<Rightarrow> mem \<Rightarrow> (byte \<times> server_object \<times> mem) res" where
  "prv_server_write iid ds obj m =
     (case lwm2m_list_find instanceId (instanceList obj) iid of
        None \<Rightarrow> Inr (COAP_404_NOT_FOUND, obj, m)
      | Some t \<Rightarrow>
          bindE (write_loop server_write_resource ds t m) (\<lambda>(r, t', m').
            Inr (r, obj\<lparr>instanceList := store_found instanceId (instanceList obj) iid t'\<rparr>, m')))"

section \<open>Execute, delete and create\<close>

definition prv_server_execute :: "u16 \<Rightarrow> u16 \<Rightarrow> server_object \<Rightarrow> byte" where
  "prv_server_execute iid rid obj =
     (case lwm2m_list_find instanceId (instanceList obj) iid of
        None \<Rightarrow> COAP_404_NOT_FOUND
      | Some t \<Rightarrow>
          if rid = 4 then
            (if 0 < disableTimeout t then COAP_204_CHANGED else COAP_405_METHOD_NOT_ALLOWED)
          else if rid = 8 then COAP_204_CHANGED
          else COAP_405_METHOD_NOT_ALLOWED)"

definition prv_server_delete :: "u16 \<Rightarrow> server_object \<Rightarrow> byte \<times> server_object" where
  "prv_server_delete i obj =
     (case lwm2m_list_remove instanceId (instanceList obj) i of
        (xs, None) \<Rightarrow> (COAP_404_NOT_FOUND, obj\<lparr>instanceList := xs\<rparr>)
      | (xs, Some _) \<Rightarrow> (COAP_202_DELETED, obj\<lparr>instanceList := xs\<rparr>))"

text \<open>The instance of a fresh \<^verbatim>\<open>memset\<close>.\<close>

definition zero_server :: "u16 \<Rightarrow> server_instance" where
  "zero_server i = \<lparr>instanceId = i, shortServerId = 0, lifetime = 0, defaultMinPeriod = 0,
     defaultMaxPeriod = 0, disableTimeout = 0, storing = False, binding = [0, 0, 0, 0]\<rparr>"

definition prv_server_create ::
    "u16 \<Rightarrow> lwm2m_data list \<Rightarrow> server_object \<Rightarrow> mem \<Rightarrow> (byte \<times> server_object \<times> mem) res" where
  "prv_server_create iid ds obj m =
     (case lwm2m_malloc m of
        (False, m1) \<Rightarrow> Inr (COAP_500_INTERNAL_SERVER_ERROR, obj, m1)
      | (True, m1) \<Rightarrow>
          let obj1 = obj\<lparr>instanceList :=
                lwm2m_list_add instanceId (instanceList obj) (zero_server iid)\<rparr> in
          bindE (prv_server_write iid ds obj1 m1) (\<lambda>(r, obj2, m2).
            if r \<noteq> COAP_204_CHANGED then Inr (r, snd (prv_server_delete iid obj2), m2)
            else Inr (COAP_201_CREATED, obj2, m2)))"

section \<open>The object\<close>

text \<open>
  \<^verbatim>\<open>copy_server_object\<close>: the \<^verbatim>\<open>strcpy\<close> of the binding needs it to be terminated, and copies it over
  the same bytes. Each node of the destination carries whether it is a copy.
\<close>

definition copy_server_object ::
    "server_object \<Rightarrow> mem \<Rightarrow> (server_object \<times> (server_instance \<times> bool) list \<times> mem) res" where
  "copy_server_object src m =
     (case copy_nodes False (instanceList src) m of (nodes, m1) \<Rightarrow>
        if list_all (\<lambda>(t, copied). copied \<longrightarrow> ok (c_string (binding t))) nodes
        then Inr (src\<lparr>instanceList := map fst nodes, userData := None\<rparr>, nodes, m1)
        else Inl OutOfBounds)"

text \<open>\<open>binding\<close> is the C string argument, without its terminator.\<close>

definition get_server_object ::
    "int \<Rightarrow> byte list \<Rightarrow> int \<Rightarrow> bool \<Rightarrow> mem \<Rightarrow> (server_object option \<times> mem) res" where
  "get_server_object serverId bind life store m =
     (case lwm2m_malloc m of
        (False, m1) \<Rightarrow> Inr (None, m1)
      | (True, m1) \<Rightarrow>
          (case lwm2m_malloc m1 of
             (False, m2) \<Rightarrow> Inr (None, m2)
           | (True, m2) \<Rightarrow>
               if 4 < length bind + 1 then Inl OutOfBounds
               else
                 let t = (zero_server 0)\<lparr>shortServerId := word_of_int serverId,
                            lifetime := word_of_int life, storing := store,
                            binding := bind @ replicate (4 - length bind) 0\<rparr> in
                 Inr (Some \<lparr>objID = 1, instanceList = lwm2m_list_add instanceId [] t,
                            userData = None,
                            callbacks = [READ, DISCOVER, WRITE, CREATE, DELETE, EXECUTE]\<rparr>, m2)))"

definition clean_server_object :: "server_object \<Rightarrow> server_object" where
  "clean_server_object obj = obj\<lparr>instanceList := []\<rparr>"

section \<open>Invariant and contracts\<close>

text \<open>The binding is a terminated string in its array of four bytes.\<close>

definition good_server :: "server_instance \<Rightarrow> bool" where
  "good_server t \<longleftrightarrow> length (binding t) = 4 \<and> binding t ! 3 = 0"

interpretation server_store: instance_store instanceId "lwm2m_list_find instanceId"
    "lwm2m_list_add instanceId" "lwm2m_list_remove instanceId" "store_found instanceId"
    "abs_list instanceId" "ids_ascending instanceId"
  by (rule list_instance_store)

lemma valid_binding_length: "valid_binding b \<Longrightarrow> length b \<le> 3"
  by (simp add: valid_binding_def)

lemma server_write_good:
  assumes "good_server t" and "server_write_resource d t m = Inr (r, t', m')"
  shows "good_server t'"
proof -
  have b: "good_server t'" if "server_write_binding b t m = Inr (r, t', m')" for b
    using that assms(1) valid_binding_length [of b]
    by (auto simp: server_write_binding_def good_server_def strncpy_length strncpy_nth_tail
        elim!: bindE_Inr_E split: if_splits)
  show ?thesis
    using assms b unfolding server_write_resource_def Let_def
    by (auto simp: good_server_def split: if_splits prod.splits option.splits lwm2m_value.splits)
qed

lemma server_write_key:
  "server_write_resource d t m = Inr (r, t', m') \<Longrightarrow> instanceId t' = instanceId t"
  unfolding server_write_resource_def Let_def server_write_binding_def
  by (auto elim!: bindE_Inr_E split: if_splits prod.splits option.splits lwm2m_value.splits)

lemma zero_server_good: "good_server (zero_server i)" "instanceId (zero_server i) = i"
  by (simp_all add: good_server_def zero_server_def)

interpretation server_writer: instance_writer server_write_resource instanceId good_server zero_server
  by unfold_locales (fact server_write_good server_write_key zero_server_good)+

definition server_value :: "server_instance \<Rightarrow> u16 \<Rightarrow> lwm2m_value" where
  "server_value t r =
     (if r = 0 then V_integer (ucast (shortServerId t))
      else if r = 1 then V_integer (ucast (lifetime t))
      else if r = 2 then V_integer (ucast (defaultMinPeriod t))
      else if r = 3 then V_integer (ucast (defaultMaxPeriod t))
      else if r = 5 then V_integer (ucast (disableTimeout t))
      else if r = 6 then V_boolean (storing t)
      else V_string (takeWhile (\<lambda>b. b \<noteq> 0) (binding t)))"

interpretation server_reader: resource_reader "prv_get_value t"
    "{r \<in> set LWM2M_SERVER_RESOURCES. good_server t}" "server_value t"
proof
  fix r assume "r \<in> {r \<in> set LWM2M_SERVER_RESOURCES. good_server t}"
  then have r: "r \<in> set LWM2M_SERVER_RESOURCES" and g: "good_server t" by auto
  have "c_string (binding t) = Inr (takeWhile (\<lambda>b. b \<noteq> 0) (binding t))"
    using g nth_mem [of 3 "binding t"] by (simp add: c_string_def good_server_def)
  then show "prv_get_value t (Data r V_undefined) [] = Inr (COAP_205_CONTENT, Data r (server_value t r), [])"
    using r by (auto simp: LWM2M_SERVER_RESOURCES_def prv_get_value_def server_value_def Let_def)
qed


lemma server_find_good:
  assumes "list_all good_server (instanceList obj)"
    and "lwm2m_list_find instanceId (instanceList obj) iid = Some t"
  shows "good_server t"
  using assms find_in_set [of instanceId "instanceList obj" iid t] by (simp add: list_all_iff)

section \<open>Properties\<close>

text \<open>
  A read of a whole server instance answers 2.05 with its seven readable resources, in the
  order of \<^verbatim>\<open>resList\<close>, each with the value the instance holds.
\<close>

theorem server_full_read:
  assumes "lwm2m_list_find instanceId (instanceList obj) iid = Some t" and "good_server t"
  shows "prv_server_read iid [] obj [] =
    Inr (COAP_205_CONTENT, map (\<lambda>r. Data r (server_value t r)) LWM2M_SERVER_RESOURCES, [])"
proof -
  have ne: "LWM2M_SERVER_RESOURCES \<noteq> []" by (simp add: LWM2M_SERVER_RESOURCES_def)
  show ?thesis using assms server_reader.read_known [OF ne, of t] ne
    by (simp add: prv_server_read_def)
qed

lemma server_full_read_witness:
  "prv_server_read 3 [] \<lparr>objID = 1, instanceList = [zero_server 3], userData = None, callbacks = []\<rparr> []
   = Inr (COAP_205_CONTENT, map (\<lambda>r. Data r (server_value (zero_server 3) r)) LWM2M_SERVER_RESOURCES, [])"
  by (rule server_full_read) (simp_all add: zero_server_def good_server_def)

text \<open>The values each writable integer resource takes.\<close>

definition server_range :: "u16 \<Rightarrow> int set" where
  "server_range r =
     (if r = 0 then {1..0xFFFF} else if r \<in> {1, 2, 3, 5} then {0..0xFFFFFFFF} else {})"

lemma set_int_value_ok:
  "lwm2m_data_decode_int d = Some v \<Longrightarrow> 0 \<le> sint v \<Longrightarrow> sint v \<le> 0xFFFFFFFF \<Longrightarrow>
   prv_set_int_value d old = (COAP_204_CHANGED, ucast v)"
  by (simp add: prv_set_int_value_def)

lemma server_write_int:
  assumes "lwm2m_data_decode_int d = Some v" and "sint v \<in> server_range (data_id d)"
  shows "\<exists>t'. server_write_resource d t m = Inr (COAP_204_CHANGED, t', m)
    \<and> server_value t' (data_id d) = V_integer v \<and> instanceId t' = instanceId t
    \<and> (\<forall>r\<in>set LWM2M_SERVER_RESOURCES. r \<noteq> data_id d \<longrightarrow> server_value t' r = server_value t r)"
proof -
  have v: "0 \<le> sint v" "sint v \<le> 0xFFFFFFFF"
    using assms(2) by (auto simp: server_range_def split: if_splits)
  have u16: "data_id d = 0 \<Longrightarrow> sint v \<le> 0xFFFF \<and> sint v \<noteq> 0"
    using assms(2) by (auto simp: server_range_def)
  have i: "data_id d \<in> {0, 1, 2, 3, 5}"
    using assms(2) by (auto simp: server_range_def split: if_splits)
  then show ?thesis
    using u16 v set_int_value_ok [OF assms(1) v]
    by (auto simp: server_write_resource_def server_value_def ucast_u32_roundtrip
        ucast_u16_roundtrip [OF v(1)] LWM2M_SERVER_RESOURCES_def)
qed

text \<open>
  Writing one integer resource of a server instance with a value in range, in whatever
  encoding, answers 2.04; reading it back yields the value; no other instance changes.
\<close>

theorem server_read_after_write:
  assumes "ids_ascending instanceId (instanceList obj)"
    and "lwm2m_list_find instanceId (instanceList obj) iid = Some t"
    and "lwm2m_data_decode_int d = Some v" and "sint v \<in> server_range (data_id d)"
  shows "\<exists>obj'. prv_server_write iid [d] obj m = Inr (COAP_204_CHANGED, obj', m)
    \<and> prv_server_read iid [Data (data_id d) V_undefined] obj' []
      = Inr (COAP_205_CONTENT, [Data (data_id d) (V_integer v)], [])
    \<and> (\<forall>j. j \<noteq> iid \<longrightarrow> lwm2m_list_find instanceId (instanceList obj') j
                      = lwm2m_list_find instanceId (instanceList obj) j)"
proof -
  obtain t' where w: "server_write_resource d t m = Inr (COAP_204_CHANGED, t', m)"
    and val: "server_value t' (data_id d) = V_integer v" and key: "instanceId t' = instanceId t"
    using server_write_int [OF assms(3,4)] by blast
  let ?obj = "obj\<lparr>instanceList := store_found instanceId (instanceList obj) iid t'\<rparr>"
  have "instanceId t = iid" using find_in_set [OF assms(2)] by simp
  then have found: "lwm2m_list_find instanceId (instanceList ?obj) j
      = (if j = iid then Some t' else lwm2m_list_find instanceId (instanceList obj) j)" for j
    using server_store.find_stored [OF assms(1,2), of t' j] key by simp
  have i: "data_id d \<in> {0, 1, 2, 3, 5}"
    using assms(4) by (auto simp: server_range_def split: if_splits)
  then have "prv_get_value t' (Data (data_id d) V_undefined) []
      = Inr (COAP_205_CONTENT, Data (data_id d) (server_value t' (data_id d)), [])"
    by (auto simp: prv_get_value_def server_value_def)
  then show ?thesis using assms(2) w found val
    by (simp add: prv_server_write_def prv_server_read_def)
qed

lemma server_read_after_write_witness:
  "\<exists>obj'. prv_server_write 0 [Data 1 (V_string (bytes ''300''))]
      \<lparr>objID = 1, instanceList = [zero_server 0], userData = None, callbacks = []\<rparr> []
      = Inr (COAP_204_CHANGED, obj', [])
    \<and> prv_server_read 0 [Data 1 V_undefined] obj' []
      = Inr (COAP_205_CONTENT, [Data 1 (V_integer 300)], [])"
proof -
  have dec: "lwm2m_data_decode_int (Data 1 (V_string (bytes ''300''))) = Some 300"
    by code_simp
  show ?thesis
    using server_read_after_write [of "\<lparr>objID = 1, instanceList = [zero_server 0], userData = None,
      callbacks = []\<rparr>" 0 "zero_server 0", OF _ _ dec, of "[]"]
    by (auto simp: zero_server_def server_range_def)
qed

lemma strncmp_eq_literal:
  "0 \<notin> set b \<Longrightarrow> 0 \<notin> set lit \<Longrightarrow> strncmp_eq b lit (length b) \<longleftrightarrow> (\<exists>r. lit = b @ r)"
proof (induction b arbitrary: lit)
  case Nil
  then show ?case by simp
next
  case (Cons c b)
  then show ?case by (cases lit) (auto simp: Let_def)
qed

definition BINDINGS :: "byte list set" where
  "BINDINGS = {bytes ''U'', bytes ''UQ'', bytes ''S'', bytes ''SQ'', bytes ''US'', bytes ''UQS''}"

lemma prefix_literal:
  "b \<noteq> [] \<Longrightarrow> (\<exists>r. bytes ''U'' = b @ r) \<or> (\<exists>r. bytes ''UQ'' = b @ r) \<or> (\<exists>r. bytes ''S'' = b @ r)
    \<or> (\<exists>r. bytes ''SQ'' = b @ r) \<or> (\<exists>r. bytes ''US'' = b @ r) \<or> (\<exists>r. bytes ''UQS'' = b @ r)
   \<longleftrightarrow> b \<in> BINDINGS"
  by (auto simp: BINDINGS_def bytes_def Cons_eq_append_conv)

lemma valid_binding_iff:
  assumes "0 \<notin> set b"
  shows "valid_binding b \<longleftrightarrow> b \<in> BINDINGS"
proof (cases "b = []")
  case True
  then show ?thesis by (simp add: valid_binding_def BINDINGS_def bytes_def)
next
  case False
  have "length b \<le> 3" if "b \<in> BINDINGS" using that by (auto simp: BINDINGS_def bytes_def)
  then show ?thesis using False assms prefix_literal [OF False]
    by (auto simp: valid_binding_def strncmp_eq_literal bytes_def)
qed

text \<open>
  Of the texts without a zero byte, a write of the binding accepts exactly the six binding
  modes of the LWM2M specification, although it compares prefixes.
\<close>

theorem server_binding_language: "0 \<notin> set b \<Longrightarrow> valid_binding b \<longleftrightarrow> b \<in> BINDINGS"
  by (rule valid_binding_iff)

lemma server_binding_language_witness:
  "valid_binding (bytes ''UQ'') \<and> \<not> valid_binding (bytes ''QS'')"
  using server_binding_language [of "bytes ''UQ''"] server_binding_language [of "bytes ''QS''"]
  by (simp add: BINDINGS_def bytes_def)

text \<open>
  An accepted binding overwrites only as many bytes as it has: what the instance held beyond
  them stays. Writing a shorter binding over a longer one is answered with 2.04 and leaves the
  longer one.
\<close>

theorem server_binding_stale:
  assumes "good_server t" and "0 \<notin> set b" and "b \<in> BINDINGS"
  shows "\<exists>t'. server_write_resource (Data 7 (V_string b)) t m = Inr (COAP_204_CHANGED, t', m)
    \<and> server_value t' 7 = V_string (b @ takeWhile (\<lambda>c. c \<noteq> 0) (drop (length b) (binding t)))"
proof -
  have v: "valid_binding b" using valid_binding_iff assms(2,3) by blast
  have tk: "takeWhile (\<lambda>c. c \<noteq> 0) b = b"
    using assms(2) by (auto simp: takeWhile_eq_all_conv)
  have "strncpy (binding t) b (length b) = Inr (b @ drop (length b) (binding t))"
    using assms(1) valid_binding_length [OF v] by (simp add: strncpy_def good_server_def Let_def tk)
  with v have "server_write_resource (Data 7 (V_string b)) t m
      = Inr (COAP_204_CHANGED, t\<lparr>binding := b @ drop (length b) (binding t)\<rparr>, m)"
    by (simp add: server_write_resource_def server_write_binding_def)
  moreover have "takeWhile (\<lambda>c. c \<noteq> 0) (b @ xs) = b @ takeWhile (\<lambda>c. c \<noteq> 0) xs" for xs
    by (rule takeWhile_append2) (use assms(2) in blast)
  ultimately show ?thesis by (simp add: server_value_def)
qed

lemma server_binding_stale_witness:
  "\<exists>t'. server_write_resource (Data 7 (V_string (bytes ''U''))) ((zero_server 0)\<lparr>binding := bytes ''UQS'' @ [0]\<rparr>) []
      = Inr (COAP_204_CHANGED, t', [])
    \<and> server_value t' 7 = V_string (bytes ''UQS'')"
  using server_binding_stale [of "(zero_server 0)\<lparr>binding := bytes ''UQS'' @ [0]\<rparr>" "bytes ''U''" "[]"]
  by (simp add: good_server_def bytes_def BINDINGS_def zero_server_def)

lemma server_delete_list:
  "snd (prv_server_delete i obj) = obj\<lparr>instanceList := fst (lwm2m_list_remove instanceId (instanceList obj) i)\<rparr>"
  by (auto simp: prv_server_delete_def split: prod.splits option.splits)

text \<open>
  A create of a new instance that is not answered with 2.01 leaves the object exactly as it
  was.
\<close>

theorem server_failed_create_restores:
  assumes "list_inv instanceId good_server (instanceList obj)"
    and "lwm2m_list_find instanceId (instanceList obj) iid = None"
    and "prv_server_create iid ds obj m = Inr (r, obj', m')" and "r \<noteq> COAP_201_CREATED"
  shows "obj' = obj"
proof (cases "lwm2m_malloc m")
  case (Pair b m1)
  let ?xs = "lwm2m_list_add instanceId (instanceList obj) (zero_server iid)"
  show ?thesis
  proof (cases b)
    case False
    then show ?thesis using assms(3) Pair by (simp add: prv_server_create_def)
  next
    case True
    then obtain r0 t' where w: "write_loop server_write_resource ds (zero_server iid) m1 = Inr (r0, t', m')"
      and "obj' = obj\<lparr>instanceList := fst (lwm2m_list_remove instanceId (store_found instanceId ?xs iid t') iid)\<rparr>"
      using assms(3,4) Pair server_writer.found_added [OF assms(1,2)]
      by (auto simp: prv_server_create_def prv_server_write_def Let_def server_delete_list
          elim!: bindE_Inr_E split: if_splits)
    then show ?thesis using server_writer.create_undone [OF assms(1,2) w] by simp
  qed
qed

lemma server_failed_create_restores_witness:
  "\<exists>obj' m'. prv_server_create 4 [Data 1 (V_integer 60), Data 9 (V_integer 1)]
      \<lparr>objID = 1, instanceList = [zero_server 0], userData = None, callbacks = []\<rparr> []
      = Inr (COAP_404_NOT_FOUND, obj', m')
    \<and> obj' = \<lparr>objID = 1, instanceList = [zero_server 0], userData = None, callbacks = []\<rparr>"
proof -
  let ?obj = "\<lparr>objID = 1, instanceList = [zero_server 0], userData = None, callbacks = []\<rparr>"
  have "\<exists>obj' m'. prv_server_create 4 [Data 1 (V_integer 60), Data 9 (V_integer 1)] ?obj []
      = Inr (COAP_404_NOT_FOUND, obj', m')"
    by (simp add: prv_server_create_def prv_server_write_def zero_server_def
        server_write_resource_def prv_set_int_value_def Let_def)
  then obtain obj' m' where r: "prv_server_create 4 [Data 1 (V_integer 60), Data 9 (V_integer 1)] ?obj []
      = Inr (COAP_404_NOT_FOUND, obj', m')" by blast
  have "obj' = ?obj"
    by (rule server_failed_create_restores [OF _ _ r])
      (simp_all add: zero_server_def list_inv_def good_server_def)
  with r show ?thesis by blast
qed

section \<open>Every reachable object\<close>

text \<open>
  The steps the core takes on the object: it creates an instance only under an id that is not
  in the list (\<^verbatim>\<open>object_create\<close> tests it, or takes \<^verbatim>\<open>lwm2m_list_newId\<close>).
\<close>

inductive server_step :: "server_object \<Rightarrow> server_object \<Rightarrow> bool" where
  server_step_write: "prv_server_write iid ds obj m = Inr (r, obj', m') \<Longrightarrow> server_step obj obj'"
| server_step_create: "lwm2m_list_find instanceId (instanceList obj) iid = None \<Longrightarrow>
    prv_server_create iid ds obj m = Inr (r, obj', m') \<Longrightarrow> server_step obj obj'"
| server_step_delete: "prv_server_delete iid obj = (r, obj') \<Longrightarrow> server_step obj obj'"

definition server_inv :: "server_object \<Rightarrow> bool" where
  "server_inv obj \<longleftrightarrow> list_inv instanceId good_server (instanceList obj)"

lemma server_write_inv:
  "server_inv obj \<Longrightarrow> prv_server_write iid ds obj m = Inr (r, obj', m') \<Longrightarrow> server_inv obj'"
  by (auto simp: server_inv_def prv_server_write_def dest: server_writer.write_list_inv
      elim!: bindE_Inr_E split: option.splits)

lemma server_delete_inv:
  "server_inv obj \<Longrightarrow> prv_server_delete i obj = (r, obj') \<Longrightarrow> server_inv obj'"
  using server_delete_list [of i obj] server_writer.removed_inv [of "instanceList obj" i]
  by (simp add: server_inv_def)

lemma server_create_inv:
  assumes "server_inv obj" and "lwm2m_list_find instanceId (instanceList obj) iid = None"
    and "prv_server_create iid ds obj m = Inr (r, obj', m')"
  shows "server_inv obj'"
proof -
  let ?obj = "obj\<lparr>instanceList := lwm2m_list_add instanceId (instanceList obj) (zero_server iid)\<rparr>"
  have inv: "server_inv ?obj"
    using server_writer.added_inv assms(1,2) by (simp add: server_inv_def)
  show ?thesis
    using assms(1,3) server_write_inv [OF inv] server_delete_inv [OF _ surjective_pairing]
    by (auto simp: prv_server_create_def Let_def elim!: bindE_Inr_E
        split: if_splits prod.splits bool.splits)
qed

interpretation server_steps: step_invariant server_step server_inv
  by unfold_locales
    (auto elim!: server_step.cases
      dest: server_write_inv server_create_inv server_delete_inv)

text \<open>
  C33. Whatever sequence of writes, creates and deletes the server object goes through, its ids
  stay strictly increasing and every binding stays a terminated string of its four bytes.
\<close>

theorem server_invariant:
  assumes "server_inv obj" and "server_step\<^sup>*\<^sup>* obj obj'"
  shows "server_inv obj'"
  by (rule server_steps.run_inv [OF assms(2,1)])

lemma server_invariant_witness:
  "server_inv \<lparr>objID = 1, instanceList = [], userData = None, callbacks = []\<rparr>
   \<and> server_inv (snd (prv_server_delete 0
       \<lparr>objID = 1, instanceList = [zero_server 0, zero_server 2], userData = None, callbacks = []\<rparr>))"
proof
  show "server_inv \<lparr>objID = 1, instanceList = [], userData = None, callbacks = []\<rparr>"
    by (simp add: server_inv_def list_inv_def)
  let ?obj = "\<lparr>objID = 1, instanceList = [zero_server 0, zero_server 2], userData = None, callbacks = []\<rparr>"
  have "server_step ?obj (snd (prv_server_delete 0 ?obj))"
    by (rule server_step_delete) (rule surjective_pairing)
  moreover have "server_inv ?obj"
    by (simp add: server_inv_def list_inv_def zero_server_good)
  ultimately show "server_inv (snd (prv_server_delete 0 ?obj))"
    by (rule server_invariant [rotated, OF r_into_rtranclp])
qed

lemma server_write_resource_ok: "good_server t \<Longrightarrow> ok (server_write_resource d t m)"
proof -
  assume g: "good_server t"
  have b: "ok (server_write_binding b t m)" for b
    using g valid_binding_length [of b] strncpy_ok [of "length b" "binding t" b]
    by (auto simp: server_write_binding_def good_server_def ok_bindE ok_iff)
  then show ?thesis
    by (auto simp: server_write_resource_def Let_def split: prod.splits option.splits lwm2m_value.splits)
qed

interpretation server_safe: safe_writer server_write_resource instanceId good_server
  by unfold_locales (rule server_write_resource_ok)

lemma server_get_ok: "good_server t \<Longrightarrow> ok (prv_get_value t d m)"
  using nth_mem [of 3 "binding t"]
  by (auto simp: prv_get_value_def Let_def c_string_def good_server_def)

lemma server_read_ok:
  assumes "server_inv obj"
  shows "ok (prv_server_read iid rs obj m)"
proof (cases "lwm2m_list_find instanceId (instanceList obj) iid")
  case None
  then show ?thesis by (simp add: prv_server_read_def)
next
  case (Some t)
  then have "good_server t" using server_writer.found_good assms by (simp add: server_inv_def)
  then show ?thesis using Some requested_read_ok [of "prv_get_value t"] server_get_ok
    by (simp add: prv_server_read_def LWM2M_SERVER_RESOURCES_def)
qed

text \<open>
  On an object that satisfies the invariant no read and no write leaves the defined behaviour
  of C, whatever data the peer sends, whatever the allocator answers.
\<close>

theorem server_callbacks_safe:
  assumes "server_inv obj" and "ds \<noteq> []"
  shows "ok (prv_server_write iid ds obj m) \<and> ok (prv_server_read iid rs obj m)"
proof (cases "lwm2m_list_find instanceId (instanceList obj) iid")
  case None
  then show ?thesis using server_read_ok [OF assms(1)] by (simp add: prv_server_write_def)
next
  case (Some t)
  then have g: "good_server t"
    using server_writer.found_good assms(1) by (simp add: server_inv_def)
  then show ?thesis
    using server_safe.write_ok [OF g assms(2), of m] Some server_read_ok [OF assms(1)]
    by (auto simp: prv_server_write_def ok_iff)
qed

lemma server_callbacks_safe_witness:
  "ok (prv_server_write 0 [Data 7 (V_opaque [85, 0, 9])]
     \<lparr>objID = 1, instanceList = [zero_server 0], userData = None, callbacks = []\<rparr> [])"
  using server_callbacks_safe [of "\<lparr>objID = 1, instanceList = [zero_server 0], userData = None, callbacks = []\<rparr>"
    "[Data 7 (V_opaque [85, 0, 9])]" 0 "[]"]
  by (simp add: server_inv_def list_inv_def zero_server_good)

end
