(* ===== verification/Object_Security.thy ===== *)
theory Object_Security
imports Lwm2m_Object
begin

text \<open>
  The LWM2M security object of \<^verbatim>\<open>app/lwm2m/object_security.c\<close>, with the callbacks of the
  \<^verbatim>\<open>LWM2M_BOOTSTRAP\<close> build. A pointer to a heap block is \<open>None\<close> when null, else the bytes of the
  block it points to; the length fields are separate, as in the struct.
\<close>

section \<open>Instances\<close>

record security_instance =
  instanceId :: u16
  uri :: "byte list option"
  isBootstrap :: bool
  securityMode :: byte
  publicIdentity :: "byte list option"
  publicIdLen :: u16
  serverPublicKey :: "byte list option"
  serverPublicKeyLen :: u16
  secretKey :: "byte list option"
  secretKeyLen :: u16
  smsSecurityMode :: byte
  smsParams :: "byte list option"
  smsParamsLen :: u16
  smsSecret :: "byte list option"
  smsSecretLen :: u16
  shortID :: u16
  clientHoldOffTime :: u32

type_synonym security_object = "(security_instance, unit) lwm2m_object"

definition LWM2M_SECURITY_RESOURCES :: "u16 list" where
  "LWM2M_SECURITY_RESOURCES = [0, 1, 2, 3, 4, 5, 6, 7, 8, 9, 10, 11]"

abbreviation MODE_PRE_SHARED_KEY :: byte where "MODE_PRE_SHARED_KEY \<equiv> 0"
abbreviation MODE_NONE :: byte where "MODE_NONE \<equiv> 3"

section \<open>Read\<close>

text \<open>The \<open>n\<close> bytes \<^verbatim>\<open>lwm2m_data_encode_opaque\<close> copies from a block.\<close>

definition block_bytes :: "byte list option \<Rightarrow> nat \<Rightarrow> byte list res" where
  "block_bytes p n =
     (if n = 0 then Inr []
      else case p of
        None \<Rightarrow> Inl NullDeref
      | Some b \<Rightarrow> if length b < n then Inl OutOfBounds else Inr (take n b))"

text \<open>The C string at a pointer that may be null, as \<^verbatim>\<open>lwm2m_data_encode_string\<close> reads it.\<close>

definition block_string :: "byte list option \<Rightarrow> byte list res" where
  "block_string p = (case p of None \<Rightarrow> Inr [] | Some b \<Rightarrow> c_string b)"

definition answer_opaque ::
    "byte list option \<Rightarrow> u16 \<Rightarrow> lwm2m_data \<Rightarrow> mem \<Rightarrow> (byte \<times> lwm2m_data \<times> mem) res" where
  "answer_opaque p n d m =
     bindE (block_bytes p (unat n)) (\<lambda>b. Inr (COAP_205_CONTENT, lwm2m_data_encode_opaque b d m))"

definition prv_get_value ::
    "security_instance \<Rightarrow> lwm2m_data \<Rightarrow> mem \<Rightarrow> (byte \<times> lwm2m_data \<times> mem) res" where
  "prv_get_value t d m =
     (let i = data_id d in
      if i = 0 then
        bindE (block_string (uri t)) (\<lambda>s. Inr (COAP_205_CONTENT, lwm2m_data_encode_string s d m))
      else if i = 1 then Inr (COAP_205_CONTENT, lwm2m_data_encode_bool (isBootstrap t) d, m)
      else if i = 2 then Inr (COAP_205_CONTENT, lwm2m_data_encode_int (ucast (securityMode t)) d, m)
      else if i = 3 then answer_opaque (publicIdentity t) (publicIdLen t) d m
      else if i = 4 then answer_opaque (serverPublicKey t) (serverPublicKeyLen t) d m
      else if i = 5 then answer_opaque (secretKey t) (secretKeyLen t) d m
      else if i = 6 then Inr (COAP_205_CONTENT, lwm2m_data_encode_int (ucast (smsSecurityMode t)) d, m)
      else if i = 7 then answer_opaque (smsParams t) (smsParamsLen t) d m
      else if i = 8 then answer_opaque (smsSecret t) (smsSecretLen t) d m
      else if i = 9 then Inr (COAP_205_CONTENT, lwm2m_data_encode_int 0 d, m)
      else if i = 10 then Inr (COAP_205_CONTENT, lwm2m_data_encode_int (ucast (shortID t)) d, m)
      else if i = 11 then
        Inr (COAP_205_CONTENT, lwm2m_data_encode_int (ucast (clientHoldOffTime t)) d, m)
      else Inr (COAP_404_NOT_FOUND, d, m))"

definition prv_security_read ::
    "u16 \<Rightarrow> lwm2m_data list \<Rightarrow> security_object \<Rightarrow> mem \<Rightarrow> (byte \<times> lwm2m_data list \<times> mem) res" where
  "prv_security_read iid ds obj m =
     (case lwm2m_list_find instanceId (instanceList obj) iid of
        None \<Rightarrow> Inr (COAP_404_NOT_FOUND, ds, m)
      | Some t \<Rightarrow>
          (case requested LWM2M_SECURITY_RESOURCES ds m of
             (None, m1) \<Rightarrow> Inr (COAP_500_INTERNAL_SERVER_ERROR, [], m1)
           | (Some ds', m1) \<Rightarrow> read_loop (prv_get_value t) ds' m1))"

section \<open>Write\<close>

text \<open>
  A fresh block of \<^verbatim>\<open>length + 1\<close> zeros, which \<^verbatim>\<open>memset\<close> clears before the null test: a failed
  allocation is a null dereference.
\<close>

definition cleared_block :: "nat \<Rightarrow> mem \<Rightarrow> (byte list \<times> mem) res" where
  "cleared_block n m =
     (case lwm2m_malloc m of (False, _) \<Rightarrow> Inl NullDeref | (True, m1) \<Rightarrow> Inr (replicate n 0 @ [0], m1))"

text \<open>A key resource: the bytes are copied, the length is cut to 16 bits.\<close>

definition key_block :: "lwm2m_data \<Rightarrow> mem \<Rightarrow> (byte list \<times> u16 \<times> mem) res" where
  "key_block d m =
     bindE (as_buffer d) (\<lambda>b.
     bindE (cleared_block (length b) m) (\<lambda>(blk, m1).
       Inr (b @ drop (length b) blk, word_of_nat (length b), m1)))"

text \<open>A number between 0 and \<open>max\<close>.\<close>

definition bounded_int :: "int \<Rightarrow> lwm2m_data \<Rightarrow> byte \<times> i64" where
  "bounded_int hi d =
     (case lwm2m_data_decode_int d of
        None \<Rightarrow> (COAP_400_BAD_REQUEST, 0)
      | Some v \<Rightarrow>
          if 0 \<le> sint v \<and> sint v \<le> hi then (COAP_204_CHANGED, v) else (COAP_406_NOT_ACCEPTABLE, 0))"

definition security_write_resource ::
    "lwm2m_data \<Rightarrow> security_instance \<Rightarrow> mem \<Rightarrow> (byte \<times> security_instance \<times> mem) res" where
  "security_write_resource d t m =
     (let i = data_id d in
      if i = 0 then
        bindE (as_buffer d) (\<lambda>b.
        bindE (cleared_block (length b) m) (\<lambda>(blk, m1).
        bindE (strncpy blk b (length b)) (\<lambda>s.
          Inr (COAP_204_CHANGED, t\<lparr>uri := Some s\<rparr>, m1))))
      else if i = 1 then
        (case lwm2m_data_decode_bool d of
           Some b \<Rightarrow> Inr (COAP_204_CHANGED, t\<lparr>isBootstrap := b\<rparr>, m)
         | None \<Rightarrow> Inr (COAP_400_BAD_REQUEST, t, m))
      else if i = 2 then
        (case bounded_int 3 d of (r, v) \<Rightarrow>
           Inr (r, if r = COAP_204_CHANGED then t\<lparr>securityMode := ucast v\<rparr> else t, m))
      else if i = 3 then
        bindE (key_block d m) (\<lambda>(blk, n, m1).
          Inr (COAP_204_CHANGED, t\<lparr>publicIdentity := Some blk, publicIdLen := n\<rparr>, m1))
      else if i = 4 then
        bindE (key_block d m) (\<lambda>(blk, n, m1).
          Inr (COAP_204_CHANGED, t\<lparr>serverPublicKey := Some blk, serverPublicKeyLen := n\<rparr>, m1))
      else if i = 5 then
        bindE (key_block d m) (\<lambda>(blk, n, m1).
          Inr (COAP_204_CHANGED, t\<lparr>secretKey := Some blk, secretKeyLen := n\<rparr>, m1))
      else if i = 6 \<or> i = 7 \<or> i = 8 \<or> i = 9 then Inr (COAP_204_CHANGED, t, m)
      else if i = 10 then
        (case bounded_int 0xFFFF d of (r, v) \<Rightarrow>
           Inr (r, if r = COAP_204_CHANGED then t\<lparr>shortID := ucast v\<rparr> else t, m))
      else if i = 11 then
        (case bounded_int 0xFFFF d of (r, v) \<Rightarrow>
           Inr (r, if r = COAP_204_CHANGED then t\<lparr>clientHoldOffTime := ucast v\<rparr> else t, m))
      else Inr (COAP_404_NOT_FOUND, t, m))"

definition prv_security_write ::
    "u16 \<Rightarrow> lwm2m_data list \<Rightarrow> security_object \<Rightarrow> mem \<Rightarrow> (byte \<times> security_object \<times> mem) res" where
  "prv_security_write iid ds obj m =
     (case lwm2m_list_find instanceId (instanceList obj) iid of
        None \<Rightarrow> Inr (COAP_404_NOT_FOUND, obj, m)
      | Some t \<Rightarrow>
          bindE (write_loop security_write_resource ds t m) (\<lambda>(r, t', m').
            Inr (r, obj\<lparr>instanceList := store_found instanceId (instanceList obj) iid t'\<rparr>, m')))"

section \<open>Delete and create\<close>

definition prv_security_delete :: "u16 \<Rightarrow> security_object \<Rightarrow> byte \<times> security_object" where
  "prv_security_delete i obj =
     (case lwm2m_list_remove instanceId (instanceList obj) i of
        (xs, None) \<Rightarrow> (COAP_404_NOT_FOUND, obj\<lparr>instanceList := xs\<rparr>)
      | (xs, Some _) \<Rightarrow> (COAP_202_DELETED, obj\<lparr>instanceList := xs\<rparr>))"

definition zero_security :: "u16 \<Rightarrow> security_instance" where
  "zero_security i = \<lparr>instanceId = i, uri = None, isBootstrap = False, securityMode = 0,
     publicIdentity = None, publicIdLen = 0, serverPublicKey = None, serverPublicKeyLen = 0,
     secretKey = None, secretKeyLen = 0, smsSecurityMode = 0, smsParams = None, smsParamsLen = 0,
     smsSecret = None, smsSecretLen = 0, shortID = 0, clientHoldOffTime = 0\<rparr>"

definition prv_security_create ::
    "u16 \<Rightarrow> lwm2m_data list \<Rightarrow> security_object \<Rightarrow> mem \<Rightarrow> (byte \<times> security_object \<times> mem) res" where
  "prv_security_create iid ds obj m =
     (case lwm2m_malloc m of
        (False, m1) \<Rightarrow> Inr (COAP_500_INTERNAL_SERVER_ERROR, obj, m1)
      | (True, m1) \<Rightarrow>
          let obj1 = obj\<lparr>instanceList :=
                lwm2m_list_add instanceId (instanceList obj) (zero_security iid)\<rparr> in
          bindE (prv_security_write iid ds obj1 m1) (\<lambda>(r, obj2, m2).
            if r \<noteq> COAP_204_CHANGED then Inr (r, snd (prv_security_delete iid obj2), m2)
            else Inr (COAP_201_CREATED, obj2, m2)))"

section \<open>Copy, clean and construct\<close>

text \<open>\<^verbatim>\<open>strdup\<close>: a null argument or an unterminated block is a fault, a failed allocation is null.\<close>

definition strdup :: "byte list option \<Rightarrow> mem \<Rightarrow> (byte list option \<times> mem) res" where
  "strdup p m =
     (case p of
        None \<Rightarrow> Inl NullDeref
      | Some b \<Rightarrow>
          bindE (c_string b) (\<lambda>s.
            case lwm2m_malloc m of (False, m1) \<Rightarrow> Inr (None, m1) | (True, m1) \<Rightarrow> Inr (Some (s @ [0]), m1)))"

definition copy_security_instance ::
    "security_instance \<Rightarrow> mem \<Rightarrow> (security_instance \<times> mem) res" where
  "copy_security_instance t m =
     bindE (strdup (uri t) m) (\<lambda>(u, m1).
       if u = None then Inl NullDeref
       else if securityMode t = MODE_PRE_SHARED_KEY then
         bindE (strdup (publicIdentity t) m1) (\<lambda>(p, m2).
         bindE (strdup (secretKey t) m2) (\<lambda>(s, m3).
           Inr (t\<lparr>uri := u, publicIdentity := p, secretKey := s\<rparr>, m3)))
       else Inr (t\<lparr>uri := u\<rparr>, m1))"

text \<open>As in \<open>copy_nodes\<close>, a failed allocation leaves the last copy linked to the source list.\<close>

fun copy_security_nodes ::
    "bool \<Rightarrow> security_instance list \<Rightarrow> mem \<Rightarrow> ((security_instance \<times> bool) list \<times> mem) res" where
  "copy_security_nodes started [] m = Inr ([], m)"
| "copy_security_nodes started (t # ts) m =
     (case lwm2m_malloc m of
        (False, m1) \<Rightarrow> Inr (if started then map (\<lambda>y. (y, False)) (t # ts) else [], m1)
      | (True, m1) \<Rightarrow>
          bindE (copy_security_instance t m1) (\<lambda>(t', m2).
          bindE (copy_security_nodes True ts m2) (\<lambda>(ys, m3). Inr ((t', True) # ys, m3))))"

definition copy_security_object ::
    "security_object \<Rightarrow> mem \<Rightarrow> (security_object \<times> (security_instance \<times> bool) list \<times> mem) res" where
  "copy_security_object src m =
     bindE (copy_security_nodes False (instanceList src) m) (\<lambda>(nodes, m1).
       Inr (src\<lparr>instanceList := map fst nodes, userData := None\<rparr>, nodes, m1))"

definition clean_security_object :: "security_object \<Rightarrow> security_object" where
  "clean_security_object obj = obj\<lparr>instanceList := []\<rparr>"

text \<open>
  The arguments \<open>bsPskId\<close> (a C string, without its terminator) and \<open>psk\<close> (the bytes at the pointer)
  are \<open>None\<close> for null. The \<^verbatim>\<open>strcpy\<close> of the URI uses an unchecked allocation.
\<close>

definition get_security_object ::
    "int \<Rightarrow> byte list \<Rightarrow> byte list option \<Rightarrow> byte list option \<Rightarrow> u16 \<Rightarrow> bool \<Rightarrow> mem
     \<Rightarrow> (security_object option \<times> mem) res" where
  "get_security_object serverId serverUri bsPskId psk pskLen boot m =
     (case lwm2m_malloc m of
        (False, m1) \<Rightarrow> Inr (None, m1)
      | (True, m1) \<Rightarrow>
      (case lwm2m_malloc m1 of
        (False, m2) \<Rightarrow> Inr (None, m2)
      | (True, m2) \<Rightarrow>
      (case lwm2m_malloc m2 of
        (False, m3) \<Rightarrow> Inl NullDeref
      | (True, m3) \<Rightarrow>
          let t = (zero_security 0)\<lparr>uri := Some (serverUri @ [0]), securityMode := MODE_NONE\<rparr>;
              finish = (\<lambda>t m. Inr (Some \<lparr>objID = 0,
                instanceList = lwm2m_list_add instanceId []
                  (t\<lparr>isBootstrap := boot, shortID := word_of_int serverId, clientHoldOffTime := 10\<rparr>),
                userData = None, callbacks = [READ, WRITE, CREATE, DELETE]\<rparr>, m)) in
          if bsPskId = None \<and> psk = None then finish t m3
          else
            let (t1, m4) = (case bsPskId of
                  None \<Rightarrow> (t\<lparr>securityMode := MODE_PRE_SHARED_KEY\<rparr>, m3)
                | Some s \<Rightarrow>
                    (case lwm2m_malloc m3 of (b, m4) \<Rightarrow>
                      (t\<lparr>securityMode := MODE_PRE_SHARED_KEY,
                         publicIdentity := (if b then Some (s @ [0]) else None),
                         publicIdLen := word_of_nat (length s)\<rparr>, m4))) in
            if 0 < pskLen then
              (case lwm2m_malloc m4 of
                 (False, m5) \<Rightarrow> Inr (None, m5)
               | (True, m5) \<Rightarrow>
                   bindE (block_bytes psk (unat pskLen)) (\<lambda>k.
                     finish (t1\<lparr>secretKey := Some k, secretKeyLen := pskLen\<rparr>) m5))
            else finish t1 m4)))"

text \<open>\<^verbatim>\<open>get_server_uri\<close>: a copy of the URI of an instance, \<open>None\<close> for null.\<close>

definition get_server_uri :: "security_object \<Rightarrow> u16 \<Rightarrow> mem \<Rightarrow> (byte list option \<times> mem) res" where
  "get_server_uri obj iid m =
     (case lwm2m_list_find instanceId (instanceList obj) iid of
        None \<Rightarrow> Inr (None, m)
      | Some t \<Rightarrow> strdup (uri t) m)"

section \<open>Invariant and contracts\<close>

text \<open>A length field never exceeds the block, and the URI is terminated.\<close>

definition block_ok :: "byte list option \<Rightarrow> u16 \<Rightarrow> bool" where
  "block_ok p n \<longleftrightarrow> ok (block_bytes p (unat n))"

definition good_security :: "security_instance \<Rightarrow> bool" where
  "good_security t \<longleftrightarrow>
     ok (block_string (uri t)) \<and> block_ok (publicIdentity t) (publicIdLen t)
     \<and> block_ok (serverPublicKey t) (serverPublicKeyLen t) \<and> block_ok (secretKey t) (secretKeyLen t)
     \<and> block_ok (smsParams t) (smsParamsLen t) \<and> block_ok (smsSecret t) (smsSecretLen t)"

lemma key_block_bytes:
  assumes "key_block d m = Inr (blk, n, m')"
  shows "\<exists>b. as_buffer d = Inr b \<and> n = word_of_nat (length b)
    \<and> block_bytes (Some blk) (unat n) = Inr (take (length b mod 65536) b)"
proof -
  obtain b m1 where b: "as_buffer d = Inr b" "blk = b @ [0]" "n = word_of_nat (length b)"
    using assms by (auto simp: key_block_def cleared_block_def elim!: bindE_Inr_E
        split: prod.splits bool.splits)
  have "unat n = length b mod 65536" by (simp add: b(3) unat_of_nat)
  moreover have "length b mod 65536 \<le> length b" by simp
  ultimately show ?thesis using b by (auto simp: block_bytes_def)
qed

lemma key_block_ok: "key_block d m = Inr (blk, n, m') \<Longrightarrow> block_ok (Some blk) n"
  using key_block_bytes [of d m blk n m'] by (auto simp: block_ok_def)

lemma strncpy_terminated:
  assumes "strncpy (replicate n 0 @ [0]) b n = Inr s"
  shows "0 \<in> set s"
proof -
  have "length s = n + 1" using strncpy_length [OF assms] by simp
  moreover have "s ! n = 0" using strncpy_nth_tail [OF assms, of n] by (simp add: nth_append)
  ultimately show ?thesis using nth_mem [of n s] by simp
qed

lemma security_write_good:
  assumes "good_security t" and "security_write_resource d t m = Inr (r, t', m')"
  shows "good_security t'"
  using assms unfolding security_write_resource_def Let_def
  by (auto simp: good_security_def block_string_def c_string_def cleared_block_def
      elim!: bindE_Inr_E dest: key_block_ok strncpy_terminated
      split: if_splits prod.splits option.splits bool.splits)

lemma security_write_key:
  "security_write_resource d t m = Inr (r, t', m') \<Longrightarrow> instanceId t' = instanceId t"
  unfolding security_write_resource_def Let_def
  by (auto elim!: bindE_Inr_E split: if_splits prod.splits option.splits)

lemma zero_security_good: "good_security (zero_security i)" "instanceId (zero_security i) = i"
  by (simp_all add: zero_security_def good_security_def block_string_def block_ok_def block_bytes_def)

interpretation security_writer: instance_writer security_write_resource instanceId good_security
    zero_security
  by unfold_locales (fact security_write_good security_write_key zero_security_good)+

text \<open>What a read of a resource yields.\<close>

definition security_value :: "security_instance \<Rightarrow> u16 \<Rightarrow> lwm2m_value" where
  "security_value t r =
     (let the_bytes = (\<lambda>p n. V_opaque (case block_bytes p (unat n) of Inr b \<Rightarrow> b | Inl _ \<Rightarrow> [])) in
      if r = 0 then V_string (case block_string (uri t) of Inr b \<Rightarrow> b | Inl _ \<Rightarrow> [])
      else if r = 1 then V_boolean (isBootstrap t)
      else if r = 2 then V_integer (ucast (securityMode t))
      else if r = 3 then the_bytes (publicIdentity t) (publicIdLen t)
      else if r = 4 then the_bytes (serverPublicKey t) (serverPublicKeyLen t)
      else if r = 5 then the_bytes (secretKey t) (secretKeyLen t)
      else if r = 6 then V_integer (ucast (smsSecurityMode t))
      else if r = 7 then the_bytes (smsParams t) (smsParamsLen t)
      else if r = 8 then the_bytes (smsSecret t) (smsSecretLen t)
      else if r = 9 then V_integer 0
      else if r = 10 then V_integer (ucast (shortID t))
      else V_integer (ucast (clientHoldOffTime t)))"

interpretation security_reader: resource_reader "prv_get_value t"
    "{r \<in> set LWM2M_SECURITY_RESOURCES. good_security t}" "security_value t"
  by unfold_locales
    (auto simp: LWM2M_SECURITY_RESOURCES_def prv_get_value_def security_value_def answer_opaque_def
      good_security_def block_ok_def ok_iff Let_def)

section \<open>Properties\<close>

text \<open>
  A read of a whole security instance answers 2.05 with its twelve resources in order.
\<close>

theorem security_full_read:
  assumes "list_inv instanceId good_security (instanceList obj)"
    and "lwm2m_list_find instanceId (instanceList obj) iid = Some t"
  shows "prv_security_read iid [] obj [] =
    Inr (COAP_205_CONTENT, map (\<lambda>r. Data r (security_value t r)) LWM2M_SECURITY_RESOURCES, [])"
proof -
  have ne: "LWM2M_SECURITY_RESOURCES \<noteq> []" by (simp add: LWM2M_SECURITY_RESOURCES_def)
  have "good_security t" using security_writer.found_good [OF assms] by simp
  then show ?thesis using assms security_reader.read_known [OF ne, of t] ne
    by (simp add: prv_security_read_def)
qed

lemma security_full_read_witness:
  "prv_security_read 3 [] \<lparr>objID = 0, instanceList = [zero_security 3], userData = None, callbacks = []\<rparr> []
   = Inr (COAP_205_CONTENT, map (\<lambda>r. Data r (security_value (zero_security 3) r)) LWM2M_SECURITY_RESOURCES, [])"
  by (rule security_full_read) (simp_all add: list_inv_def zero_security_good)

text \<open>
  A key resource (public key or identity, server public key, secret key) written with the
  bytes \<open>b\<close> reads back as the first \<open>length b mod 65536\<close> of them: the length is kept in 16 bits and a
  longer key is cut without an error. The other instances stay.
\<close>

theorem security_key_read_after_write:
  assumes "list_inv instanceId good_security (instanceList obj)"
    and "lwm2m_list_find instanceId (instanceList obj) iid = Some t"
    and "r \<in> {3, 4, 5}" and "as_buffer (Data r v) = Inr b"
  shows "\<exists>obj'. prv_security_write iid [Data r v] obj [] = Inr (COAP_204_CHANGED, obj', [])
    \<and> prv_security_read iid [Data r V_undefined] obj' []
      = Inr (COAP_205_CONTENT, [Data r (V_opaque (take (length b mod 65536) b))], [])
    \<and> (\<forall>j. j \<noteq> iid \<longrightarrow> lwm2m_list_find instanceId (instanceList obj') j
                      = lwm2m_list_find instanceId (instanceList obj) j)"
proof -
  obtain blk n where k: "key_block (Data r v) [] = Inr (blk, n, [])"
    using assms(4) by (simp add: key_block_def cleared_block_def)
  have bytes: "block_bytes (Some blk) (unat n) = Inr (take (length b mod 65536) b)"
    using key_block_bytes [OF k] assms(4) by auto
  obtain t' where w: "security_write_resource (Data r v) t [] = Inr (COAP_204_CHANGED, t', [])"
    and val: "prv_get_value t' (Data r V_undefined) []
      = Inr (COAP_205_CONTENT, Data r (V_opaque (take (length b mod 65536) b)), [])"
    using assms(3) k bytes
    by (auto simp: security_write_resource_def prv_get_value_def answer_opaque_def)
  have loop: "write_loop security_write_resource [Data r v] t [] = Inr (COAP_204_CHANGED, t', [])"
    using w by simp
  show ?thesis using assms(2) loop val security_writer.find_written [OF assms(1,2) loop]
    by (simp add: prv_security_write_def prv_security_read_def)
qed

lemma security_key_read_after_write_witness:
  "\<exists>obj'. prv_security_write 0 [Data 5 (V_opaque [1, 2, 3])]
      \<lparr>objID = 0, instanceList = [zero_security 0], userData = None, callbacks = []\<rparr> []
      = Inr (COAP_204_CHANGED, obj', [])
    \<and> prv_security_read 0 [Data 5 V_undefined] obj' []
      = Inr (COAP_205_CONTENT, [Data 5 (V_opaque [1, 2, 3])], [])"
  using security_key_read_after_write [of "\<lparr>objID = 0, instanceList = [zero_security 0],
    userData = None, callbacks = []\<rparr>" 0 "zero_security 0" 5 "V_opaque [1, 2, 3]" "[1, 2, 3]"]
  by (auto simp: list_inv_def zero_security_good)

text \<open>
  The URI and the keys are written without a test of the element's type: a value that is not
  a string or opaque is read through the wrong member of the union.
\<close>

theorem security_write_misread:
  assumes "lwm2m_list_find instanceId (instanceList obj) iid = Some t"
    and "r \<in> {0, 3, 4, 5}" and "v \<noteq> V_undefined" and "\<not> (\<exists>b. v = V_string b \<or> v = V_opaque b)"
  shows "prv_security_write iid (Data r v # ds) obj m = Inl UnionMisread"
proof -
  have "as_buffer (Data r v) = Inl UnionMisread" using assms(3,4) by (cases v) auto
  then have "security_write_resource (Data r v) t m = Inl UnionMisread"
    using assms(2) by (auto simp: security_write_resource_def key_block_def)
  then show ?thesis using assms(1) by (simp add: prv_security_write_def)
qed

lemma security_write_misread_witness:
  "prv_security_write 0 [Data 5 (V_multiple 1 [Data 0 (V_opaque [7])])]
     \<lparr>objID = 0, instanceList = [zero_security 0], userData = None, callbacks = []\<rparr> []
   = Inl UnionMisread"
  by (rule security_write_misread [where t = "zero_security 0"]) (simp_all add: zero_security_good)

text \<open>
  \<^verbatim>\<open>get_security_object\<close> stores the pre-shared key as raw bytes without a terminator, and
  \<^verbatim>\<open>copy_security_object\<close> duplicates it with \<^verbatim>\<open>strdup\<close>: for a key without a zero byte the copy reads
  past the end of the block.
\<close>

theorem security_copy_overreads_key:
  assumes "0 < pskLen" and "length psk = unat pskLen" and "0 \<notin> set psk" and "0 \<notin> set u" and "0 \<notin> set pid"
  shows "\<exists>obj. get_security_object sid u (Some pid) (Some psk) pskLen boot [] = Inr (Some obj, [])
    \<and> copy_security_object obj [] = Inl OutOfBounds"
proof -
  have "block_bytes (Some psk) (unat pskLen) = Inr psk"
    using assms(1,2) by (simp add: block_bytes_def word_less_nat_alt)
  then show ?thesis using assms
    by (auto simp: get_security_object_def copy_security_object_def copy_security_instance_def
        strdup_def zero_security_def c_string_def)
qed

lemma security_copy_overreads_key_witness:
  "\<exists>obj. get_security_object 1 (bytes ''u'') (Some (bytes ''id'')) (Some [1, 2]) 2 False [] = Inr (Some obj, [])
    \<and> copy_security_object obj [] = Inl OutOfBounds"
  by (rule security_copy_overreads_key) (simp_all add: bytes_def)

section \<open>Every reachable object\<close>

lemma security_delete_list:
  "snd (prv_security_delete i obj)
   = obj\<lparr>instanceList := fst (lwm2m_list_remove instanceId (instanceList obj) i)\<rparr>"
  by (auto simp: prv_security_delete_def split: prod.splits option.splits)

inductive security_step :: "security_object \<Rightarrow> security_object \<Rightarrow> bool" where
  security_step_write:
    "prv_security_write iid ds obj m = Inr (r, obj', m') \<Longrightarrow> security_step obj obj'"
| security_step_create:
    "lwm2m_list_find instanceId (instanceList obj) iid = None \<Longrightarrow>
     prv_security_create iid ds obj m = Inr (r, obj', m') \<Longrightarrow> security_step obj obj'"
| security_step_delete: "prv_security_delete iid obj = (r, obj') \<Longrightarrow> security_step obj obj'"

definition security_inv :: "security_object \<Rightarrow> bool" where
  "security_inv obj \<longleftrightarrow> list_inv instanceId good_security (instanceList obj)"

lemma security_write_inv:
  "security_inv obj \<Longrightarrow> prv_security_write iid ds obj m = Inr (r, obj', m') \<Longrightarrow> security_inv obj'"
  by (auto simp: security_inv_def prv_security_write_def dest: security_writer.write_list_inv
      elim!: bindE_Inr_E split: option.splits)

lemma security_delete_inv:
  "security_inv obj \<Longrightarrow> prv_security_delete i obj = (r, obj') \<Longrightarrow> security_inv obj'"
  using security_delete_list [of i obj] security_writer.removed_inv [of "instanceList obj" i]
  by (simp add: security_inv_def)

lemma security_create_inv:
  assumes "security_inv obj" and "lwm2m_list_find instanceId (instanceList obj) iid = None"
    and "prv_security_create iid ds obj m = Inr (r, obj', m')"
  shows "security_inv obj'"
proof -
  let ?obj = "obj\<lparr>instanceList := lwm2m_list_add instanceId (instanceList obj) (zero_security iid)\<rparr>"
  have inv: "security_inv ?obj"
    using security_writer.added_inv assms(1,2) by (simp add: security_inv_def)
  show ?thesis
    using assms(1,3) security_write_inv [OF inv] security_delete_inv [OF _ surjective_pairing]
    by (auto simp: prv_security_create_def Let_def elim!: bindE_Inr_E
        split: if_splits prod.splits bool.splits)
qed

interpretation security_steps: step_invariant security_step security_inv
  by unfold_locales
    (auto elim!: security_step.cases
      dest: security_write_inv security_create_inv security_delete_inv)

lemma security_get_ok: "good_security t \<Longrightarrow> ok (prv_get_value t d m)"
  by (auto simp: prv_get_value_def answer_opaque_def good_security_def block_ok_def ok_bindE ok_iff Let_def)

lemma security_read_ok:
  assumes "security_inv obj"
  shows "ok (prv_security_read iid rs obj m)"
proof (cases "lwm2m_list_find instanceId (instanceList obj) iid")
  case None
  then show ?thesis by (simp add: prv_security_read_def)
next
  case (Some t)
  then have "good_security t" using security_writer.found_good assms by (simp add: security_inv_def)
  then show ?thesis using Some requested_read_ok [of "prv_get_value t"] security_get_ok
    by (simp add: prv_security_read_def LWM2M_SECURITY_RESOURCES_def)
qed

text \<open>
  In every sequence of writes, creates and deletes that returns, each key length stays within
  its block and each URI stays terminated, so that no later read leaves a block.
\<close>

theorem security_reads_stay_safe:
  assumes "security_inv obj" and "security_step\<^sup>*\<^sup>* obj obj'"
  shows "security_inv obj' \<and> (\<forall>iid rs m. ok (prv_security_read iid rs obj' m))"
  using security_steps.run_inv [OF assms(2,1)] security_read_ok by blast

lemma security_reads_stay_safe_witness:
  "ok (prv_security_read 0 []
     (snd (prv_security_delete 1 \<lparr>objID = 0, instanceList = [zero_security 0, zero_security 1],
        userData = None, callbacks = []\<rparr>)) [])"
proof -
  let ?obj = "\<lparr>objID = 0, instanceList = [zero_security 0, zero_security 1], userData = None, callbacks = []\<rparr>"
  have "security_step ?obj (snd (prv_security_delete 1 ?obj))"
    by (rule security_step_delete) (rule surjective_pairing)
  moreover have "security_inv ?obj" by (simp add: security_inv_def list_inv_def zero_security_good)
  ultimately show ?thesis
    using security_reads_stay_safe [OF _ r_into_rtranclp, of ?obj "snd (prv_security_delete 1 ?obj)"]
    by blast
qed

end
