(* ===== verification/Object_Acl.thy ===== *)
theory Object_Acl
imports Lwm2m_Object Tlv
begin

text \<open>
  The access control object of \<^verbatim>\<open>app/lwm2m/object_access_control.c\<close>. Each instance owns a second
  list, the values of its access control list, kept sorted by \<^verbatim>\<open>lwm2m_list_add\<close> as well.
\<close>

section \<open>Instances\<close>

record acc_ctrl_ri =
  resInstId :: u16
  accCtrlValue :: u16

record acc_ctrl_oi =
  objInstId :: u16
  objectId :: u16
  objectInstId :: u16
  accCtrlOwner :: u16
  accCtrlValList :: "acc_ctrl_ri list"

type_synonym acl_object = "(acc_ctrl_oi, unit) lwm2m_object"

definition ACL_RESOURCES :: "u16 list" where
  "ACL_RESOURCES = [0, 1, 2, 3]"

section \<open>Read\<close>

text \<open>The elements of the sub-array, numbered from \<open>ri\<close>.\<close>

fun acl_elements :: "nat \<Rightarrow> acc_ctrl_ri list \<Rightarrow> lwm2m_data list" where
  "acl_elements ri [] = []"
| "acl_elements ri (x # xs) =
     lwm2m_data_encode_int (ucast (accCtrlValue x)) (Data (word_of_nat ri) V_undefined)
     # acl_elements (Suc ri) xs"

text \<open>
  The array is allocated for all values and used without a null test; the count handed to
  \<^verbatim>\<open>lwm2m_data_encode_instances\<close> is the constant 2.
\<close>

definition prv_set_tlv ::
    "acc_ctrl_oi \<Rightarrow> lwm2m_data \<Rightarrow> mem \<Rightarrow> (byte \<times> lwm2m_data \<times> mem) res" where
  "prv_set_tlv t d m =
     (let i = data_id d in
      if i = 0 then Inr (COAP_205_CONTENT, lwm2m_data_encode_int (ucast (objectId t)) d, m)
      else if i = 1 then Inr (COAP_205_CONTENT, lwm2m_data_encode_int (ucast (objectInstId t)) d, m)
      else if i = 2 then
        (if accCtrlValList t = [] then Inr (COAP_404_NOT_FOUND, d, m)
         else case lwm2m_data_new (int (length (accCtrlValList t))) m of
           ([], _) \<Rightarrow> Inl NullDeref
         | (_ # _, m1) \<Rightarrow>
             Inr (COAP_205_CONTENT,
               lwm2m_data_encode_instances (acl_elements 0 (accCtrlValList t)) 2 d, m1))
      else if i = 3 then Inr (COAP_205_CONTENT, lwm2m_data_encode_int (ucast (accCtrlOwner t)) d, m)
      else Inr (COAP_404_NOT_FOUND, d, m))"

text \<open>
  The do-while loop: an element answered with 4.04 is skipped when several were asked for, and
  the ones after it move to the front. \<open>kept\<close> is the array up to \<^verbatim>\<open>ni - ri\<close>, \<open>n\<close> is \<^verbatim>\<open>*numDataP\<close>.
\<close>

fun acl_read_loop ::
    "acc_ctrl_oi \<Rightarrow> nat \<Rightarrow> lwm2m_data list \<Rightarrow> lwm2m_data list \<Rightarrow> mem
     \<Rightarrow> (byte \<times> lwm2m_data list \<times> mem) res" where
  "acl_read_loop t n kept [] m = Inl OutOfBounds"
| "acl_read_loop t n kept (d # ds) m =
     bindE (prv_set_tlv t d m) (\<lambda>(r, d', m1).
       let r' = (if r = COAP_404_NOT_FOUND \<and> 1 < n then COAP_205_CONTENT else r);
           kept' = (if r = COAP_404_NOT_FOUND then kept else kept @ [d']) in
       if ds \<noteq> [] \<and> r' = COAP_205_CONTENT then acl_read_loop t n kept' ds m1
       else Inr (r', kept', m1))"

definition prv_read ::
    "u16 \<Rightarrow> lwm2m_data list \<Rightarrow> acl_object \<Rightarrow> mem \<Rightarrow> (byte \<times> lwm2m_data list \<times> mem) res" where
  "prv_read iid ds obj m =
     (case lwm2m_list_find objInstId (instanceList obj) iid of
        None \<Rightarrow> Inr (COAP_404_NOT_FOUND, ds, m)
      | Some t \<Rightarrow>
          (case requested ACL_RESOURCES ds m of
             (None, m1) \<Rightarrow> Inr (COAP_500_INTERNAL_SERVER_ERROR, [], m1)
           | (Some ds', m1) \<Rightarrow> acl_read_loop t (length ds') [] ds' m1))"

section \<open>Write\<close>

definition prv_add_ac_val :: "acc_ctrl_ri list \<Rightarrow> u16 \<Rightarrow> u16 \<Rightarrow> mem \<Rightarrow> acc_ctrl_ri list option \<times> mem" where
  "prv_add_ac_val vals acResId acValue m =
     (case lwm2m_malloc m of
        (False, m1) \<Rightarrow> (None, m1)
      | (True, m1) \<Rightarrow>
          (Some (lwm2m_list_add resInstId vals \<lparr>resInstId = acResId, accCtrlValue = acValue\<rparr>), m1))"

text \<open>
  \<^verbatim>\<open>for (ri = 0; tlvArray[i].value.asChildren.count; ri++)\<close>: the condition does not mention \<^verbatim>\<open>ri\<close>, so
  the loop only ends by a \<^verbatim>\<open>break\<close>; after the last element it reads past the array.
\<close>

fun acl_value_loop ::
    "lwm2m_data list \<Rightarrow> acc_ctrl_ri list \<Rightarrow> mem \<Rightarrow> (byte \<times> acc_ctrl_ri list \<times> mem) res" where
  "acl_value_loop [] vals m = Inl OutOfBounds"
| "acl_value_loop (s # ss) vals m =
     (case lwm2m_data_decode_int s of
        None \<Rightarrow> Inr (COAP_400_BAD_REQUEST, vals, m)
      | Some v \<Rightarrow>
          if sint v < 0 \<or> 0xFFFF < sint v then Inr (COAP_406_NOT_ACCEPTABLE, vals, m)
          else (case prv_add_ac_val vals (data_id s) (ucast v) m of
            (None, m1) \<Rightarrow> Inr (COAP_500_INTERNAL_SERVER_ERROR, vals, m1)
          | (Some vals', m1) \<Rightarrow> acl_value_loop ss vals' m1))"

text \<open>The case \<^verbatim>\<open>RES_O_ACL\<close>: the old values come back unless the result is 2.04.\<close>

definition write_acl :: "nat \<Rightarrow> lwm2m_data list \<Rightarrow> acc_ctrl_oi \<Rightarrow> mem \<Rightarrow> (byte \<times> acc_ctrl_oi \<times> mem) res" where
  "write_acl count subs t m =
     bindE
       (if count = 0 then Inr (COAP_204_CHANGED, [], m)
        else if subs = [] then Inr (COAP_400_BAD_REQUEST, [], m)
        else acl_value_loop subs [] m)
       (\<lambda>(r, vals, m1).
         Inr (r, if r \<noteq> COAP_204_CHANGED then t else t\<lparr>accCtrlValList := vals\<rparr>, m1))"

text \<open>An integer between \<open>lo\<close> and \<open>hi\<close>.\<close>

definition ranged_int :: "int \<Rightarrow> int \<Rightarrow> lwm2m_data \<Rightarrow> byte \<times> u16" where
  "ranged_int lo hi d =
     (case lwm2m_data_decode_int d of
        None \<Rightarrow> (COAP_400_BAD_REQUEST, 0)
      | Some v \<Rightarrow>
          if sint v < lo \<or> hi < sint v then (COAP_406_NOT_ACCEPTABLE, 0) else (COAP_204_CHANGED, ucast v))"

definition acl_write_resource ::
    "bool \<Rightarrow> lwm2m_data \<Rightarrow> acc_ctrl_oi \<Rightarrow> mem \<Rightarrow> (byte \<times> acc_ctrl_oi \<times> mem) res" where
  "acl_write_resource doCreate d t m =
     (let i = data_id d in
      if i = 0 then
        (if \<not> doCreate then Inr (COAP_405_METHOD_NOT_ALLOWED, t, m)
         else case ranged_int 1 65534 d of (r, v) \<Rightarrow>
           Inr (r, if r = COAP_204_CHANGED then t\<lparr>objectId := v\<rparr> else t, m))
      else if i = 1 then
        (if \<not> doCreate then Inr (COAP_405_METHOD_NOT_ALLOWED, t, m)
         else case ranged_int 1 65535 d of (r, v) \<Rightarrow>
           Inr (r, if r = COAP_204_CHANGED then t\<lparr>objectInstId := v\<rparr> else t, m))
      else if i = 2 then
        (case data_value d of
           V_multiple count subs \<Rightarrow> write_acl count subs t m
         | _ \<Rightarrow> Inr (COAP_400_BAD_REQUEST, t, m))
      else if i = 3 then
        (case ranged_int 0 0xFFFF d of (r, v) \<Rightarrow>
           Inr (r, if r = COAP_204_CHANGED then t\<lparr>accCtrlOwner := v\<rparr> else t, m))
      else Inr (COAP_404_NOT_FOUND, t, m))"

definition prv_write_resources ::
    "u16 \<Rightarrow> lwm2m_data list \<Rightarrow> acl_object \<Rightarrow> bool \<Rightarrow> mem \<Rightarrow> (byte \<times> acl_object \<times> mem) res" where
  "prv_write_resources iid ds obj doCreate m =
     (case lwm2m_list_find objInstId (instanceList obj) iid of
        None \<Rightarrow> Inr (COAP_404_NOT_FOUND, obj, m)
      | Some t \<Rightarrow>
          bindE (write_loop (acl_write_resource doCreate) ds t m) (\<lambda>(r, t', m').
            Inr (r, obj\<lparr>instanceList := store_found objInstId (instanceList obj) iid t'\<rparr>, m')))"

definition prv_write ::
    "u16 \<Rightarrow> lwm2m_data list \<Rightarrow> acl_object \<Rightarrow> mem \<Rightarrow> (byte \<times> acl_object \<times> mem) res" where
  "prv_write iid ds obj m = prv_write_resources iid ds obj False m"

section \<open>Delete and create\<close>

definition prv_delete :: "u16 \<Rightarrow> acl_object \<Rightarrow> byte \<times> acl_object" where
  "prv_delete i obj =
     (case lwm2m_list_remove objInstId (instanceList obj) i of
        (xs, None) \<Rightarrow> (COAP_404_NOT_FOUND, obj\<lparr>instanceList := xs\<rparr>)
      | (xs, Some _) \<Rightarrow> (COAP_202_DELETED, obj\<lparr>instanceList := xs\<rparr>))"

definition zero_acl :: "u16 \<Rightarrow> acc_ctrl_oi" where
  "zero_acl i = \<lparr>objInstId = i, objectId = 0, objectInstId = 0, accCtrlOwner = 0, accCtrlValList = []\<rparr>"

definition prv_create ::
    "u16 \<Rightarrow> lwm2m_data list \<Rightarrow> acl_object \<Rightarrow> mem \<Rightarrow> (byte \<times> acl_object \<times> mem) res" where
  "prv_create iid ds obj m =
     (case lwm2m_malloc m of
        (False, m1) \<Rightarrow> Inr (COAP_500_INTERNAL_SERVER_ERROR, obj, m1)
      | (True, m1) \<Rightarrow>
          let obj1 = obj\<lparr>instanceList := lwm2m_list_add objInstId (instanceList obj) (zero_acl iid)\<rparr> in
          bindE (prv_write_resources iid ds obj1 True m1) (\<lambda>(r, obj2, m2).
            if r \<noteq> COAP_204_CHANGED then Inr (r, snd (prv_delete iid obj2), m2)
            else Inr (COAP_201_CREATED, obj2, m2)))"

section \<open>The object\<close>

definition acc_ctrl_create_object :: "mem \<Rightarrow> acl_object option \<times> mem" where
  "acc_ctrl_create_object m =
     (case lwm2m_malloc m of
        (False, m1) \<Rightarrow> (None, m1)
      | (True, m1) \<Rightarrow>
          (Some \<lparr>objID = 2, instanceList = [], userData = None,
                 callbacks = [READ, WRITE, CREATE, DELETE]\<rparr>, m1))"

definition acc_ctrl_obj_add_inst ::
    "acl_object option \<Rightarrow> u16 \<Rightarrow> u16 \<Rightarrow> u16 \<Rightarrow> u16 \<Rightarrow> mem \<Rightarrow> bool \<times> acl_object option \<times> mem" where
  "acc_ctrl_obj_add_inst objp instId acObjectId acObjInstId acOwner m =
     (case objp of
        None \<Rightarrow> (False, None, m)
      | Some obj \<Rightarrow>
          (case lwm2m_malloc m of
             (False, m1) \<Rightarrow> (False, Some obj, m1)
           | (True, m1) \<Rightarrow>
               (True, Some (obj\<lparr>instanceList := lwm2m_list_add objInstId (instanceList obj)
                  \<lparr>objInstId = instId, objectId = acObjectId, objectInstId = acObjInstId,
                   accCtrlOwner = acOwner, accCtrlValList = []\<rparr>\<rparr>), m1)))"

definition acc_ctrl_oi_add_ac_val ::
    "acl_object \<Rightarrow> u16 \<Rightarrow> u16 \<Rightarrow> u16 \<Rightarrow> mem \<Rightarrow> bool \<times> acl_object \<times> mem" where
  "acc_ctrl_oi_add_ac_val obj instId acResId acValue m =
     (case lwm2m_list_find objInstId (instanceList obj) instId of
        None \<Rightarrow> (False, obj, m)
      | Some t \<Rightarrow>
          (case prv_add_ac_val (accCtrlValList t) acResId acValue m of
             (None, m1) \<Rightarrow> (False, obj, m1)
           | (Some vals, m1) \<Rightarrow>
               (True, obj\<lparr>instanceList :=
                  store_found objInstId (instanceList obj) instId (t\<lparr>accCtrlValList := vals\<rparr>)\<rparr>, m1)))"

text \<open>\<^verbatim>\<open>acl_ctrl_free_object\<close> frees the instances and the object: nothing is left.\<close>

definition acl_ctrl_free_object :: "acl_object \<Rightarrow> acl_object option" where
  "acl_ctrl_free_object obj = None"

section \<open>Invariant and contracts\<close>

text \<open>The values of an instance are sorted by their resource instance id.\<close>

definition good_acl :: "acc_ctrl_oi \<Rightarrow> bool" where
  "good_acl t \<longleftrightarrow> sorted (map resInstId (accCtrlValList t))"

lemma sorted_add_after:
  "sorted (map key xs) \<Longrightarrow> sorted (map key (add_after key xs n))"
  by (induction xs) (auto simp: set_add_after not_less intro: less_imp_le order_trans)

lemma sorted_list_add:
  "sorted (map key xs) \<Longrightarrow> sorted (map key (lwm2m_list_add key xs n))"
proof (cases xs)
  case Nil
  then show ?thesis by simp
next
  case (Cons h t)
  assume "sorted (map key xs)"
  then show ?thesis using Cons sorted_add_after [of key t n]
    by (auto simp: set_add_after not_less intro: less_imp_le order_trans)
qed

lemma acl_value_loop_sorted:
  "acl_value_loop ss vals m = Inr (r, vals', m') \<Longrightarrow> sorted (map resInstId vals) \<Longrightarrow>
   sorted (map resInstId vals')"
proof (induction ss vals m rule: acl_value_loop.induct)
  case (2 s ss vals m)
  then show ?case
    by (auto simp: prv_add_ac_val_def sorted_list_add split: option.splits if_splits prod.splits bool.splits)
qed simp

text \<open>The loop over the values never ends with 2.04.\<close>

lemma acl_value_loop_result:
  "acl_value_loop ss vals m = Inr (r, vals', m') \<Longrightarrow> r \<noteq> COAP_204_CHANGED"
  by (induction ss vals m rule: acl_value_loop.induct)
    (auto split: option.splits if_splits prod.splits)

lemma acl_write_good:
  "good_acl t \<Longrightarrow> acl_write_resource c d t m = Inr (r, t', m') \<Longrightarrow> good_acl t'"
  unfolding acl_write_resource_def Let_def write_acl_def
  by (auto simp: good_acl_def elim!: bindE_Inr_E dest: acl_value_loop_sorted
      split: if_splits prod.splits lwm2m_value.splits)

lemma acl_write_key: "acl_write_resource c d t m = Inr (r, t', m') \<Longrightarrow> objInstId t' = objInstId t"
  unfolding acl_write_resource_def Let_def write_acl_def
  by (auto elim!: bindE_Inr_E split: if_splits prod.splits lwm2m_value.splits)

lemma zero_acl_good: "good_acl (zero_acl i)" "objInstId (zero_acl i) = i"
  by (simp_all add: good_acl_def zero_acl_def)

interpretation acl_writer: instance_writer "acl_write_resource c" objInstId good_acl zero_acl
  by unfold_locales (fact acl_write_good acl_write_key zero_acl_good)+

section \<open>Properties\<close>

lemma acl_elements_length [simp]: "length (acl_elements ri xs) = length xs"
  by (induction xs arbitrary: ri) simp_all

lemma acl_elements_Nil [simp]: "acl_elements ri xs = [] \<longleftrightarrow> xs = []"
  by (cases xs) simp_all

lemma encode_acl_elements:
  "xs \<noteq> [] \<Longrightarrow> lwm2m_data_encode_instances (acl_elements ri xs) 2 (Data i V_undefined)
   = Data i (V_multiple 2 (acl_elements ri xs))"
  by (cases xs) (simp_all add: lwm2m_data_encode_instances_def lwm2m_data_include_def as_children_def)

text \<open>
  A read of a whole access control instance answers 2.05 with its object id, object instance
  id and owner; the access control list appears between them only when it has values, and then
  claims two of them whatever their number.
\<close>

theorem acl_full_read:
  assumes "lwm2m_list_find objInstId (instanceList obj) iid = Some t"
  shows "prv_read iid [] obj [] = Inr (COAP_205_CONTENT,
    [Data 0 (V_integer (ucast (objectId t))), Data 1 (V_integer (ucast (objectInstId t)))]
    @ (if accCtrlValList t = [] then []
       else [Data 2 (V_multiple 2 (acl_elements 0 (accCtrlValList t)))])
    @ [Data 3 (V_integer (ucast (accCtrlOwner t)))], [])"
proof (cases "accCtrlValList t")
  case Nil
  then show ?thesis using assms by (simp add: prv_read_def ACL_RESOURCES_def prv_set_tlv_def)
next
  case (Cons v vs)
  then have "lwm2m_data_encode_instances (acl_elements 0 (v # vs)) 2 (Data 2 V_undefined)
      = Data 2 (V_multiple 2 (acl_elements 0 (v # vs)))"
    by (intro encode_acl_elements) simp
  then show ?thesis using assms Cons
    by (simp add: prv_read_def ACL_RESOURCES_def prv_set_tlv_def nat_add_distrib)
qed

lemma acl_full_read_witness:
  "prv_read 4 [] \<lparr>objID = 2, instanceList = [zero_acl 4], userData = None, callbacks = []\<rparr> []
   = Inr (COAP_205_CONTENT, [Data 0 (V_integer 0), Data 1 (V_integer 0), Data 3 (V_integer 0)], [])"
  using acl_full_read [of "\<lparr>objID = 2, instanceList = [zero_acl 4], userData = None, callbacks = []\<rparr>" 4 "zero_acl 4"]
  by (simp add: zero_acl_def)

text \<open>
  Reading an instance that has exactly one access control value builds an element whose count
  exceeds its array: measuring the answer for its TLV encoding already reads past the array.
\<close>

theorem acl_single_value_overread:
  assumes "lwm2m_list_find objInstId (instanceList obj) iid = Some t"
    and "accCtrlValList t = [v]"
  shows "bindE (prv_read iid [] obj []) (\<lambda>(r, ds, m). prv_getLength (length ds) ds) = Inl OutOfBounds"
proof -
  have "lwm2m_data_encode_instances (acl_elements 0 [v]) 2 (Data 2 V_undefined)
      = Data 2 (V_multiple 2 (acl_elements 0 [v]))"
    by (rule encode_acl_elements) simp
  moreover have "prv_getLength 2 [Data 0 (V_integer x)] = Inl OutOfBounds" for x
    by (simp only: numeral_2_eq_2) simp
  ultimately show ?thesis using assms
    by (simp add: prv_read_def ACL_RESOURCES_def prv_set_tlv_def)
qed

lemma acl_single_value_overread_witness:
  "bindE (prv_read 4 [] \<lparr>objID = 2, instanceList = [(zero_acl 4)\<lparr>accCtrlValList :=
       [\<lparr>resInstId = 1, accCtrlValue = 15\<rparr>]\<rparr>], userData = None, callbacks = []\<rparr> [])
     (\<lambda>(r, ds, m). prv_getLength (length ds) ds) = Inl OutOfBounds"
  by (rule acl_single_value_overread [where t = "(zero_acl 4)\<lparr>accCtrlValList :=
       [\<lparr>resInstId = 1, accCtrlValue = 15\<rparr>]\<rparr>"]) (simp_all add: zero_acl_def)

lemma acl_value_loop_faults:
  "\<forall>s\<in>set ss. \<exists>v. lwm2m_data_decode_int s = Some v \<and> 0 \<le> sint v \<and> sint v \<le> 0xFFFF \<Longrightarrow>
   acl_value_loop ss vals [] = Inl OutOfBounds"
proof (induction ss arbitrary: vals)
  case Nil
  then show ?case by simp
next
  case (Cons s ss)
  then obtain v where "lwm2m_data_decode_int s = Some v" "0 \<le> sint v" "sint v \<le> 0xFFFF" by auto
  with Cons show ?case by (simp add: prv_add_ac_val_def not_less)
qed

text \<open>
  A write of a non-empty access control list is never answered with 2.04: with an invalid
  value or without memory the list stays as it was, and a list of valid values sends the loop,
  whose condition does not test its index, past the end of the array.
\<close>

theorem acl_write_never_succeeds:
  assumes "0 < count" and "subs \<noteq> []"
  shows "(\<forall>r t' m'. write_acl count subs t m = Inr (r, t', m') \<longrightarrow> r \<noteq> COAP_204_CHANGED \<and> t' = t)
    \<and> ((\<forall>s\<in>set subs. \<exists>v. lwm2m_data_decode_int s = Some v \<and> 0 \<le> sint v \<and> sint v \<le> 0xFFFF)
        \<longrightarrow> write_acl count subs t [] = Inl OutOfBounds)"
  using assms acl_value_loop_faults [of subs "[]"]
  by (auto simp: write_acl_def elim!: bindE_Inr_E dest: acl_value_loop_result split: if_splits)

lemma acl_write_never_succeeds_witness:
  "write_acl 1 [Data 7 (V_integer 3)] (zero_acl 0) [] = Inl OutOfBounds"
  using acl_write_never_succeeds [of 1 "[Data 7 (V_integer 3)]" "zero_acl 0" "[]"] by simp

section \<open>Every reachable object\<close>

lemma acl_delete_list:
  "snd (prv_delete i obj)
   = obj\<lparr>instanceList := fst (lwm2m_list_remove objInstId (instanceList obj) i)\<rparr>"
  by (auto simp: prv_delete_def split: prod.splits option.splits)

inductive acl_step :: "acl_object \<Rightarrow> acl_object \<Rightarrow> bool" where
  acl_step_write: "prv_write iid ds obj m = Inr (r, obj', m') \<Longrightarrow> acl_step obj obj'"
| acl_step_create:
    "lwm2m_list_find objInstId (instanceList obj) iid = None \<Longrightarrow>
     prv_create iid ds obj m = Inr (r, obj', m') \<Longrightarrow> acl_step obj obj'"
| acl_step_delete: "prv_delete iid obj = (r, obj') \<Longrightarrow> acl_step obj obj'"
| acl_step_value: "acc_ctrl_oi_add_ac_val obj i rid v m = (b, obj', m') \<Longrightarrow> acl_step obj obj'"

definition acl_inv :: "acl_object \<Rightarrow> bool" where
  "acl_inv obj \<longleftrightarrow> list_inv objInstId good_acl (instanceList obj)"

lemma acl_resources_inv:
  "acl_inv obj \<Longrightarrow> prv_write_resources iid ds obj c m = Inr (r, obj', m') \<Longrightarrow> acl_inv obj'"
  by (auto simp: acl_inv_def prv_write_resources_def dest: acl_writer.write_list_inv
      elim!: bindE_Inr_E split: option.splits)

lemma acl_delete_inv: "acl_inv obj \<Longrightarrow> prv_delete i obj = (r, obj') \<Longrightarrow> acl_inv obj'"
  using acl_delete_list [of i obj] acl_writer.removed_inv [of "instanceList obj" i]
  by (simp add: acl_inv_def)

lemma acl_create_inv:
  assumes "acl_inv obj" and "lwm2m_list_find objInstId (instanceList obj) iid = None"
    and "prv_create iid ds obj m = Inr (r, obj', m')"
  shows "acl_inv obj'"
proof -
  let ?obj = "obj\<lparr>instanceList := lwm2m_list_add objInstId (instanceList obj) (zero_acl iid)\<rparr>"
  have inv: "acl_inv ?obj" using acl_writer.added_inv assms(1,2) by (simp add: acl_inv_def)
  show ?thesis
    using assms(1,3) acl_resources_inv [OF inv] acl_delete_inv [OF _ surjective_pairing]
    by (auto simp: prv_create_def Let_def elim!: bindE_Inr_E
        split: if_splits prod.splits bool.splits)
qed

lemma acl_value_inv:
  assumes "acl_inv obj" and "acc_ctrl_oi_add_ac_val obj i rid v m = (b, obj', m')"
  shows "acl_inv obj'"
proof (cases "lwm2m_list_find objInstId (instanceList obj) i")
  case None
  then show ?thesis using assms by (simp add: acc_ctrl_oi_add_ac_val_def)
next
  case (Some t)
  then have t: "good_acl t" "objInstId t = i"
    using acl_writer.found_good assms(1) by (simp_all add: acl_inv_def)
  have "acl_inv (obj\<lparr>instanceList := store_found objInstId (instanceList obj) i
      (t\<lparr>accCtrlValList := lwm2m_list_add resInstId (accCtrlValList t) x\<rparr>)\<rparr>)" for x
    using assms(1) t sorted_list_add [of resInstId "accCtrlValList t" x]
      set_store_found [of objInstId "instanceList obj" i]
    by (fastforce simp: acl_inv_def list_inv_def ids_ascending_store good_acl_def)
  then show ?thesis using assms Some
    by (auto simp: acc_ctrl_oi_add_ac_val_def prv_add_ac_val_def split: prod.splits bool.splits)
qed

interpretation acl_steps: step_invariant acl_step acl_inv
  by unfold_locales
    (auto elim!: acl_step.cases simp: prv_write_def
      dest: acl_resources_inv acl_create_inv acl_delete_inv acl_value_inv)

text \<open>
  C39. The instances stay in ascending order and the values of each of them sorted, through every
  sequence of callbacks and added values.
\<close>

theorem acl_invariant:
  assumes "acl_inv obj" and "acl_step\<^sup>*\<^sup>* obj obj'"
  shows "acl_inv obj'"
  by (rule acl_steps.run_inv [OF assms(2,1)])

lemma acl_invariant_witness:
  "acl_inv (snd (prv_delete 1 \<lparr>objID = 2, instanceList = [zero_acl 0, zero_acl 1],
     userData = None, callbacks = []\<rparr>))"
proof -
  let ?obj = "\<lparr>objID = 2, instanceList = [zero_acl 0, zero_acl 1], userData = None, callbacks = []\<rparr>"
  have "acl_step ?obj (snd (prv_delete 1 ?obj))"
    by (rule acl_step_delete) (rule surjective_pairing)
  moreover have "acl_inv ?obj" by (simp add: acl_inv_def list_inv_def zero_acl_good)
  ultimately show ?thesis by (rule acl_invariant [rotated, OF r_into_rtranclp])
qed

end
