(* ===== verification/C_Text.thy ===== *)
theory C_Text
imports Lwm2m_Utils
begin

text \<open>
  The parts of C's \<^verbatim>\<open>ctype.h\<close> and \<^verbatim>\<open>stdio.h\<close> that the command line, the dumps and the URI parser use,
  in the C locale: character classes, \<^verbatim>\<open>%02X\<close> and \<^verbatim>\<open>%d\<close> output, \<^verbatim>\<open>%d\<close> input. A pointer into a
  string is the list of the bytes from there to the end of its array.
\<close>

section \<open>Character classes\<close>

definition isprint :: "byte \<Rightarrow> bool" where
  "isprint b \<longleftrightarrow> 0x20 \<le> b \<and> b \<le> 0x7E"

definition isspace :: "byte \<Rightarrow> bool" where
  "isspace b \<longleftrightarrow> b = 32 \<or> (9 \<le> b \<and> b \<le> 13)"

lemma isspace_zero [simp]: "\<not> isspace 0" "\<not> isspace 45"
  by (simp_all add: isspace_def)

section \<open>Output\<close>

definition hex_digit :: "nat \<Rightarrow> byte" where
  "hex_digit n = word_of_nat (if n < 10 then 48 + n else 55 + n)"

definition hex2 :: "byte \<Rightarrow> byte list" where
  "hex2 b = [hex_digit (unat b div 16), hex_digit (unat b mod 16)]"

fun nat_text :: "nat \<Rightarrow> byte list" where
  "nat_text n = (if n < 10 then [48 + word_of_nat n] else nat_text (n div 10) @ [48 + word_of_nat (n mod 10)])"

declare nat_text.simps [simp del]

definition int_text :: "int \<Rightarrow> byte list" where
  "int_text v = (if v < 0 then 45 # nat_text (nat (- v)) else nat_text (nat v))"

lemma nat_text_digits:
  "list_all is_digit_byte (nat_text n) \<and> nat_text n \<noteq> [] \<and> decimal_from 0 (nat_text n) = n"
proof (induction n rule: nat_text.induct)
  case (1 n)
  then show ?case
  proof (cases "n < 10")
    case True
    then show ?thesis using digit_byte [of n] by (simp add: nat_text.simps [of n])
  next
    case False
    then show ?thesis using 1 digit_byte [of "n mod 10"]
      by (simp add: nat_text.simps [of n] decimal_from_append)
  qed
qed

section \<open>Input\<close>

text \<open>
  \<^verbatim>\<open>sscanf(s, "%d", &value)\<close> for a type of \<open>w\<close> bits: \<open>Some v\<close> when it returns 1. The string must be
  terminated, and a number outside the type has no defined value.
\<close>

definition signed_digits :: "byte list \<Rightarrow> bool \<times> byte list" where
  "signed_digits t =
     (case t of
        [] \<Rightarrow> (False, [])
      | c # cs \<Rightarrow> if c = 45 then (True, cs) else if c = 43 then (False, cs) else (False, t))"

definition scan_int :: "nat \<Rightarrow> byte list \<Rightarrow> int option res" where
  "scan_int w buffer =
     bindE (c_string buffer) (\<lambda>s.
       case signed_digits (dropWhile isspace s) of (neg, ds) \<Rightarrow>
         let digits = takeWhile is_digit_byte ds;
             v = (if neg then - int (decimal_from 0 digits) else int (decimal_from 0 digits)) in
         if digits = [] then Inr None
         else if - (2 ^ (w - 1)) \<le> v \<and> v < 2 ^ (w - 1) then Inr (Some v)
         else Inl SignedOverflow)"

lemma is_digit_byte_not [simp]:
  "is_digit_byte c \<Longrightarrow> \<not> isspace c"
  "is_digit_byte c \<Longrightarrow> c \<noteq> 0"
  "is_digit_byte c \<Longrightarrow> c \<noteq> 45"
  "is_digit_byte c \<Longrightarrow> c \<noteq> 43"
  by (auto simp: is_digit_byte_def isspace_def word_le_nat_alt)

lemma digits_no_zero: "list_all is_digit_byte ds \<Longrightarrow> 0 \<notin> set ds"
  by (induction ds) auto

lemma c_string_append:
  "0 \<notin> set s \<Longrightarrow> c_string (s @ 0 # t) = Inr s"
  by (induction s) (auto simp: c_string_def)

text \<open>A number printed with \<^verbatim>\<open>%d\<close> is read back by \<^verbatim>\<open>%d\<close>, whatever follows it that is not a digit.\<close>

lemma scan_int_text:
  assumes "- (2 ^ (w - 1)) \<le> v" and "v < 2 ^ (w - 1)"
    and "0 \<notin> set r" and "r \<noteq> [] \<Longrightarrow> \<not> is_digit_byte (hd r)"
  shows "scan_int w (int_text v @ r @ 0 # rest) = Inr (Some v)"
proof -
  let ?n = "nat \<bar>v\<bar>"
  note d = nat_text_digits [of ?n]
  obtain c cs where cs: "nat_text ?n = c # cs" using d by (cases "nat_text ?n") auto
  then have c: "is_digit_byte c" using d by simp
  have zero: "0 \<notin> set (int_text v @ r)"
    using digits_no_zero nat_text_digits assms(3) by (auto simp: int_text_def)
  have tw: "takeWhile is_digit_byte (nat_text ?n @ r) = nat_text ?n"
    using d assms(4) by (cases r) (auto simp: list_all_iff takeWhile_eq_all_conv intro!: takeWhile_append2)
  have str: "c_string (int_text v @ r @ 0 # rest) = Inr (int_text v @ r)"
    using c_string_append [OF zero, of rest] by simp
  have sd: "signed_digits (dropWhile isspace (int_text v @ r)) = (v < 0, nat_text ?n @ r)"
    using c cs by (auto simp: int_text_def signed_digits_def abs_if split: if_splits)
  show ?thesis
    using assms(1,2) d unfolding scan_int_def str bindE_simps sd prod.case tw Let_def by auto
qed

end
