(* ===== verification/Object_Test.thy ===== *)
theory Object_Test
imports Lwm2m_Object C_Text
begin

text \<open>The test object of \<^verbatim>\<open>app/lwm2m/test_object.c\<close>, object id 31024.\<close>

section \<open>Instances\<close>

record prv_instance =
  shortID :: u16
  test :: byte
  dec :: double

type_synonym test_object = "(prv_instance, unit) lwm2m_object"

section \<open>The hex dump of the execute callback\<close>

text \<open>One line for the first \<open>n\<close> of the sixteen bytes in \<open>arr\<close>.\<close>

definition dump_line :: "byte list \<Rightarrow> nat \<Rightarrow> byte list" where
  "dump_line arr n =
     bytes ''  '' @ concat (map (\<lambda>b. hex2 b @ [32]) (take n arr))
     @ concat (replicate (16 - n) (bytes ''   '')) @ bytes ''  ''
     @ concat (map (\<lambda>b. [if isprint b then b else 46, 32]) (take n arr)) @ [10]"

text \<open>
  \<open>blk\<close> is the memory from \<^verbatim>\<open>buffer + i\<close> to the end of its block, \<open>n\<close> is \<^verbatim>\<open>length - i\<close>. Every round
  copies sixteen bytes, whatever is left.
\<close>

function prv_output_buffer :: "byte list \<Rightarrow> nat \<Rightarrow> byte list res" where
  "prv_output_buffer blk n =
     (if n = 0 then Inr []
      else if length blk < 16 then Inl OutOfBounds
      else bindE (prv_output_buffer (drop 16 blk) (n - 16)) (\<lambda>rest.
        Inr (dump_line (take 16 blk) (min n 16) @ rest)))"
  by pat_completeness auto
termination by (relation "measure (\<lambda>(blk, n). n)") auto

declare prv_output_buffer.simps [simp del]

section \<open>The callbacks\<close>

definition test_get ::
    "prv_instance \<Rightarrow> lwm2m_data \<Rightarrow> mem \<Rightarrow> (byte \<times> lwm2m_data \<times> mem) res" where
  "test_get t d m =
     (if data_id d = 1 then Inr (COAP_205_CONTENT, lwm2m_data_encode_int (ucast (test t)) d, m)
      else if data_id d = 2 then Inr (COAP_405_METHOD_NOT_ALLOWED, d, m)
      else if data_id d = 3 then Inr (COAP_205_CONTENT, lwm2m_data_encode_float (dec t) d, m)
      else Inr (COAP_404_NOT_FOUND, d, m))"

definition prv_read ::
    "u16 \<Rightarrow> lwm2m_data list \<Rightarrow> test_object \<Rightarrow> mem \<Rightarrow> (byte \<times> lwm2m_data list \<times> mem) res" where
  "prv_read iid ds obj m =
     (case lwm2m_list_find shortID (instanceList obj) iid of
        None \<Rightarrow> Inr (COAP_404_NOT_FOUND, ds, m)
      | Some t \<Rightarrow>
          (case requested [1, 3] ds m of
             (None, m1) \<Rightarrow> Inr (COAP_500_INTERNAL_SERVER_ERROR, [], m1)
           | (Some ds', m1) \<Rightarrow> read_loop (test_get t) ds' m1))"

definition prv_discover :: "lwm2m_data list \<Rightarrow> mem \<Rightarrow> byte \<times> lwm2m_data list \<times> mem" where
  "prv_discover ds m =
     (if ds = [] then
        (case requested [1, 2, 3] [] m of
           (None, m1) \<Rightarrow> (COAP_500_INTERNAL_SERVER_ERROR, [], m1)
         | (Some ds', m1) \<Rightarrow> (COAP_205_CONTENT, ds', m1))
      else (discover_loop [1, 2, 3] ds, ds, m))"

definition test_write_resource ::
    "lwm2m_data \<Rightarrow> prv_instance \<Rightarrow> mem \<Rightarrow> (byte \<times> prv_instance \<times> mem) res" where
  "test_write_resource d t m =
     (if data_id d = 1 then
        (case lwm2m_data_decode_int d of
           None \<Rightarrow> Inr (COAP_400_BAD_REQUEST, t, m)
         | Some v \<Rightarrow>
             if sint v < 0 \<or> 0xFF < sint v then Inr (COAP_400_BAD_REQUEST, t, m)
             else Inr (COAP_204_CHANGED, t\<lparr>test := ucast v\<rparr>, m))
      else if data_id d = 2 then Inr (COAP_405_METHOD_NOT_ALLOWED, t, m)
      else if data_id d = 3 then
        bindE (lwm2m_data_decode_float d (dec t)) (\<lambda>v.
          case v of
            None \<Rightarrow> Inr (COAP_400_BAD_REQUEST, t, m)
          | Some x \<Rightarrow> Inr (COAP_204_CHANGED, t\<lparr>dec := x\<rparr>, m))
      else Inr (COAP_404_NOT_FOUND, t, m))"

text \<open>A for loop: with no data at all the write answers 2.04.\<close>

definition prv_write ::
    "u16 \<Rightarrow> lwm2m_data list \<Rightarrow> test_object \<Rightarrow> mem \<Rightarrow> (byte \<times> test_object \<times> mem) res" where
  "prv_write iid ds obj m =
     (case lwm2m_list_find shortID (instanceList obj) iid of
        None \<Rightarrow> Inr (COAP_404_NOT_FOUND, obj, m)
      | Some t \<Rightarrow>
          if ds = [] then Inr (COAP_204_CHANGED, obj, m)
          else bindE (write_loop test_write_resource ds t m) (\<lambda>(r, t', m').
            Inr (r, obj\<lparr>instanceList := store_found shortID (instanceList obj) iid t'\<rparr>, m')))"

definition prv_delete :: "u16 \<Rightarrow> test_object \<Rightarrow> byte \<times> test_object" where
  "prv_delete i obj =
     (case lwm2m_list_remove shortID (instanceList obj) i of
        (xs, None) \<Rightarrow> (COAP_404_NOT_FOUND, obj\<lparr>instanceList := xs\<rparr>)
      | (xs, Some _) \<Rightarrow> (COAP_202_DELETED, obj\<lparr>instanceList := xs\<rparr>))"

definition zero_test :: "u16 \<Rightarrow> prv_instance" where
  "zero_test i = \<lparr>shortID = i, test = 0, dec = 0\<rparr>"

definition prv_create ::
    "u16 \<Rightarrow> lwm2m_data list \<Rightarrow> test_object \<Rightarrow> mem \<Rightarrow> (byte \<times> test_object \<times> mem) res" where
  "prv_create iid ds obj m =
     (case lwm2m_malloc m of
        (False, m1) \<Rightarrow> Inr (COAP_500_INTERNAL_SERVER_ERROR, obj, m1)
      | (True, m1) \<Rightarrow>
          let obj1 = obj\<lparr>instanceList := lwm2m_list_add shortID (instanceList obj) (zero_test iid)\<rparr> in
          bindE (prv_write iid ds obj1 m1) (\<lambda>(r, obj2, m2).
            if r \<noteq> COAP_204_CHANGED then Inr (r, snd (prv_delete iid obj2), m2)
            else Inr (COAP_201_CREATED, obj2, m2)))"

text \<open>The result and what is printed of the parameter; \<open>blk\<close> as for \<open>prv_output_buffer\<close>.\<close>

definition prv_exec ::
    "u16 \<Rightarrow> u16 \<Rightarrow> byte list \<Rightarrow> nat \<Rightarrow> test_object \<Rightarrow> (byte \<times> byte list) res" where
  "prv_exec iid rid blk n obj =
     (if lwm2m_list_find shortID (instanceList obj) iid = None then Inr (COAP_404_NOT_FOUND, [])
      else if rid = 1 then Inr (COAP_405_METHOD_NOT_ALLOWED, [])
      else if rid = 2 then
        bindE (prv_output_buffer blk n) (\<lambda>out. Inr (COAP_204_CHANGED, out))
      else if rid = 3 then Inr (COAP_405_METHOD_NOT_ALLOWED, [])
      else Inr (COAP_404_NOT_FOUND, []))"

section \<open>The object\<close>

text \<open>\<^verbatim>\<open>-30 + i + (double)i / 100.0\<close> for \<open>i\<close> = 0, 1, 2, as doubles: -30, -28.99 and -27.98.\<close>

definition test_dec :: "nat \<Rightarrow> double" where
  "test_dec i = [0xC03E000000000000, 0xC03CFD70A3D70A3D, 0xC03BFAE147AE147B] ! i"

fun test_instances :: "nat list \<Rightarrow> prv_instance list \<Rightarrow> mem \<Rightarrow> prv_instance list option \<times> mem" where
  "test_instances [] xs m = (Some xs, m)"
| "test_instances (i # is) xs m =
     (case lwm2m_malloc m of
        (False, m1) \<Rightarrow> (None, m1)
      | (True, m1) \<Rightarrow>
          test_instances is (lwm2m_list_add shortID xs
            \<lparr>shortID = 10 + word_of_nat i, test = 20 + word_of_nat i, dec = test_dec i\<rparr>) m1)"

definition get_test_object :: "mem \<Rightarrow> test_object option \<times> mem" where
  "get_test_object m =
     (case lwm2m_malloc m of
        (False, m1) \<Rightarrow> (None, m1)
      | (True, m1) \<Rightarrow>
          (case test_instances [0, 1, 2] [] m1 of
             (None, m2) \<Rightarrow> (None, m2)
           | (Some xs, m2) \<Rightarrow>
               (Some \<lparr>objID = 31024, instanceList = xs, userData = None,
                 callbacks = [READ, DISCOVER, WRITE, EXECUTE, CREATE, DELETE]\<rparr>, m2)))"

definition free_test_object :: "test_object \<Rightarrow> test_object option" where
  "free_test_object obj = None"

section \<open>Properties\<close>

text \<open>
  The dump of an execute parameter stays inside its block exactly when the length is a multiple
  of sixteen: any other length reads past the end.
\<close>

theorem test_dump_reads_past_end:
  "ok (prv_output_buffer buf (length buf)) \<longleftrightarrow> length buf mod 16 = 0"
proof (induction "length buf" arbitrary: buf rule: less_induct)
  case less
  show ?case
  proof (cases "length buf < 16")
    case True
    then show ?thesis by (subst prv_output_buffer.simps) auto
  next
    case False
    then have IH: "ok (prv_output_buffer (drop 16 buf) (length buf - 16)) \<longleftrightarrow> (length buf - 16) mod 16 = 0"
      using less [of "drop 16 buf"] by simp
    have "(length buf - 16) mod 16 = length buf mod 16"
      using False by (simp add: mod_if [of "length buf"])
    then show ?thesis using False IH
      by (subst prv_output_buffer.simps)
        (cases "prv_output_buffer (drop 16 buf) (length buf - 16)"; auto)
  qed
qed

lemma test_write_key: "test_write_resource d t m = Inr (r, t', m') \<Longrightarrow> shortID t' = shortID t"
  by (auto simp: test_write_resource_def elim!: bindE_Inr_E split: if_splits option.splits)

interpretation test_writer: instance_writer test_write_resource shortID "\<lambda>_. True" zero_test
  by unfold_locales (auto simp: zero_test_def dest: test_write_key)

text \<open>
  A write of the number resource with an integer between 0 and 255 is read back, in whatever
  instance; outside this range it is refused and nothing changes.
\<close>

theorem test_number_read_after_write:
  assumes "ids_ascending shortID (instanceList obj)"
    and "lwm2m_list_find shortID (instanceList obj) iid = Some t"
    and "lwm2m_data_decode_int (Data 1 v) = Some x"
  shows "\<exists>r obj'. prv_write iid [Data 1 v] obj [] = Inr (r, obj', [])
    \<and> (if 0 \<le> sint x \<and> sint x \<le> 0xFF
       then r = COAP_204_CHANGED \<and> prv_read iid [Data 1 V_undefined] obj' []
          = Inr (COAP_205_CONTENT, [Data 1 (V_integer x)], [])
       else r = COAP_400_BAD_REQUEST
         \<and> (\<forall>j. lwm2m_list_find shortID (instanceList obj') j = lwm2m_list_find shortID (instanceList obj) j))"
proof -
  let ?in = "0 \<le> sint x \<and> sint x \<le> 0xFF"
  let ?t = "if ?in then t\<lparr>test := ucast x\<rparr> else t"
  have loop: "write_loop test_write_resource [Data 1 v] t []
      = Inr (if ?in then COAP_204_CHANGED else COAP_400_BAD_REQUEST, ?t, [])"
    using assms(3) by (auto simp: test_write_resource_def)
  have inv: "list_inv shortID (\<lambda>_. True) (instanceList obj)"
    using assms(1) by (simp add: list_inv_def)
  have "?in \<Longrightarrow> ucast (ucast x :: byte) = x"
    by (rule ucast_narrow_widen) (simp_all add: uint_of_nonneg)
  then show ?thesis
    using loop assms(2) test_writer.find_written [OF inv assms(2) loop]
    by (auto simp: prv_write_def prv_read_def test_get_def)
qed

lemma test_number_read_after_write_witness:
  "\<exists>obj'. prv_write 4 [Data 1 (V_integer 200)]
      \<lparr>objID = 31024, instanceList = [zero_test 4], userData = None, callbacks = []\<rparr> []
      = Inr (COAP_204_CHANGED, obj', [])
    \<and> prv_read 4 [Data 1 V_undefined] obj' [] = Inr (COAP_205_CONTENT, [Data 1 (V_integer 200)], [])"
  using test_number_read_after_write [of "\<lparr>objID = 31024, instanceList = [zero_test 4],
    userData = None, callbacks = []\<rparr>" 4 "zero_test 4" "V_integer 200" 200]
  by (auto simp: zero_test_def)

text \<open>
  An empty opaque value is accepted for the decimal resource and stores nothing: the write
  answers 2.04 and the old value stays.
\<close>

theorem test_empty_decimal_accepted:
  assumes "lwm2m_list_find shortID (instanceList obj) iid = Some t"
  shows "\<exists>obj'. prv_write iid [Data 3 (V_opaque [])] obj m = Inr (COAP_204_CHANGED, obj', m)
    \<and> lwm2m_list_find shortID (instanceList obj') iid = Some t"
proof -
  have "test_write_resource (Data 3 (V_opaque [])) t m = Inr (COAP_204_CHANGED, t, m)"
    by (simp add: test_write_resource_def lwm2m_data_decode_float_def utils_opaqueToFloat_def)
  moreover have "lwm2m_list_find shortID (store_found shortID xs iid t) iid = Some t"
    if "lwm2m_list_find shortID xs iid = Some t" for xs
    using that by (induction xs) (auto split: if_splits)
  ultimately show ?thesis using assms by (simp add: prv_write_def)
qed

lemma test_empty_decimal_accepted_witness:
  "\<exists>obj'. prv_write 4 [Data 3 (V_opaque [])]
      \<lparr>objID = 31024, instanceList = [zero_test 4], userData = None, callbacks = []\<rparr> []
      = Inr (COAP_204_CHANGED, obj', [])"
  using test_empty_decimal_accepted [of "\<lparr>objID = 31024, instanceList = [zero_test 4],
    userData = None, callbacks = []\<rparr>" 4 "zero_test 4" "[]"]
  by (auto simp: zero_test_def)

end
