(* ===== verification/Object_Device.thy ===== *)
theory Object_Device
imports Lwm2m_Object
begin

text \<open>
  The device object of \<^verbatim>\<open>app/lwm2m/object_device.c\<close>, a single-instance object whose state is its
  \<^verbatim>\<open>userData\<close>. \<open>now\<close> is the value of \<^verbatim>\<open>time(NULL)\<close>, \<open>g_reboot\<close> the flag of the main program that the
  reboot resource sets.
\<close>

section \<open>State\<close>

record device_data =
  free_memory :: i64
  error :: i64
  time :: i64
  battery_level :: byte
  time_offset :: "byte list"   \<comment> \<open>\<^verbatim>\<open>char time_offset[7]\<close>\<close>

type_synonym device_object = "(u16, device_data) lwm2m_object"

definition PRV_MANUFACTURER :: "byte list" where "PRV_MANUFACTURER = bytes ''Open Mobile Alliance''"
definition PRV_MODEL_NUMBER :: "byte list" where "PRV_MODEL_NUMBER = bytes ''Lightweight M2M Client''"
definition PRV_SERIAL_NUMBER :: "byte list" where "PRV_SERIAL_NUMBER = bytes ''345000123''"
definition PRV_FIRMWARE_VERSION :: "byte list" where "PRV_FIRMWARE_VERSION = bytes ''1.0''"
definition PRV_TIME_ZONE :: "byte list" where "PRV_TIME_ZONE = bytes ''Europe/Berlin''"
definition PRV_BINDING_MODE :: "byte list" where "PRV_BINDING_MODE = bytes ''U''"

definition DEVICE_READABLE :: "u16 list" where
  "DEVICE_READABLE = [0, 1, 2, 3, 6, 7, 8, 9, 10, 11, 13, 14, 15, 16]"

definition DEVICE_ALL :: "u16 list" where
  "DEVICE_ALL = [0, 1, 2, 3, 4, 5, 6, 7, 8, 9, 10, 11, 12, 13, 14, 15, 16]"

section \<open>The time offset\<close>

definition digit_between :: "byte \<Rightarrow> byte \<Rightarrow> byte \<Rightarrow> bool" where
  "digit_between lo c hi \<longleftrightarrow> \<not> (c < lo \<or> hi < c)"

definition prv_check_time_offset :: "byte list \<Rightarrow> bool" where
  "prv_check_time_offset b =
     (let n = length b in
      if n \<noteq> 3 \<and> n \<noteq> 5 \<and> n \<noteq> 6 then False
      else if b ! 0 \<noteq> 45 \<and> b ! 0 \<noteq> 43 then False
      else if \<not> (if b ! 1 = 48 then digit_between 48 (b ! 2) 57
                 else if b ! 1 = 49 then digit_between 48 (b ! 2) 50 else False) then False
      else if n = 3 then True
      else if n = 6 \<and> b ! 3 \<noteq> 58 then False
      else
        let k = (if n = 5 then 3 else 4) in
        digit_between 48 (b ! k) 53 \<and> digit_between 48 (b ! (k + 1)) 57)"

section \<open>Read and discover\<close>

text \<open>A multiple resource of integers, in an array that is used without a null test.\<close>

definition int_instances ::
    "i64 list \<Rightarrow> lwm2m_data \<Rightarrow> mem \<Rightarrow> (byte \<times> lwm2m_data \<times> mem) res" where
  "int_instances vs d m =
     (case lwm2m_data_new (int (length vs)) m of
        ([], _) \<Rightarrow> Inl NullDeref
      | (_ # _, m1) \<Rightarrow>
          Inr (COAP_205_CONTENT,
            lwm2m_data_encode_instances
              (map (\<lambda>k. lwm2m_data_encode_int (vs ! k) (Data (word_of_nat k) V_undefined)) [0..<length vs])
              (length vs) d, m1))"

definition prv_set_value ::
    "i64 \<Rightarrow> device_data option \<Rightarrow> lwm2m_data \<Rightarrow> mem \<Rightarrow> (byte \<times> lwm2m_data \<times> mem) res" where
  "prv_set_value now dev d m =
     (let i = data_id d; str = (\<lambda>s. Inr (COAP_205_CONTENT, lwm2m_data_encode_string s d m)) in
      if i = 0 then str PRV_MANUFACTURER
      else if i = 1 then str PRV_MODEL_NUMBER
      else if i = 2 then str PRV_SERIAL_NUMBER
      else if i = 3 then str PRV_FIRMWARE_VERSION
      else if i = 4 \<or> i = 5 then Inr (COAP_405_METHOD_NOT_ALLOWED, d, m)
      else if i = 6 then int_instances [1, 5] d m
      else if i = 7 then int_instances [3800, 5000] d m
      else if i = 8 then int_instances [125, 900] d m
      else if i = 9 then
        bindE (deref dev) (\<lambda>t.
          Inr (COAP_205_CONTENT, lwm2m_data_encode_int (ucast (battery_level t)) d, m))
      else if i = 10 then
        bindE (deref dev) (\<lambda>t. Inr (COAP_205_CONTENT, lwm2m_data_encode_int (free_memory t) d, m))
      else if i = 11 then bindE (deref dev) (\<lambda>t. int_instances [error t] d m)
      else if i = 12 then Inr (COAP_405_METHOD_NOT_ALLOWED, d, m)
      else if i = 13 then
        bindE (deref dev) (\<lambda>t. bindE (add_i64 now (time t)) (\<lambda>v.
          Inr (COAP_205_CONTENT, lwm2m_data_encode_int v d, m)))
      else if i = 14 then
        bindE (deref dev) (\<lambda>t. bindE (c_string (time_offset t)) str)
      else if i = 15 then str PRV_TIME_ZONE
      else if i = 16 then str PRV_BINDING_MODE
      else Inr (COAP_404_NOT_FOUND, d, m))"

definition prv_device_read ::
    "i64 \<Rightarrow> u16 \<Rightarrow> lwm2m_data list \<Rightarrow> device_object \<Rightarrow> mem \<Rightarrow> (byte \<times> lwm2m_data list \<times> mem) res" where
  "prv_device_read now iid ds obj m =
     (if iid \<noteq> 0 then Inr (COAP_404_NOT_FOUND, ds, m)
      else case requested DEVICE_READABLE ds m of
        (None, m1) \<Rightarrow> Inr (COAP_500_INTERNAL_SERVER_ERROR, [], m1)
      | (Some ds', m1) \<Rightarrow> read_loop (prv_set_value now (userData obj)) ds' m1)"

definition prv_device_discover ::
    "u16 \<Rightarrow> lwm2m_data list \<Rightarrow> mem \<Rightarrow> byte \<times> lwm2m_data list \<times> mem" where
  "prv_device_discover iid ds m =
     (if iid \<noteq> 0 then (COAP_404_NOT_FOUND, ds, m)
      else if ds = [] then
        (case requested DEVICE_ALL [] m of
           (None, m1) \<Rightarrow> (COAP_500_INTERNAL_SERVER_ERROR, [], m1)
         | (Some ds', m1) \<Rightarrow> (COAP_205_CONTENT, ds', m1))
      else (discover_loop DEVICE_ALL ds, ds, m))"

section \<open>Write, execute and change\<close>

text \<open>The clock is decoded straight into \<^verbatim>\<open>time\<close>; the offset is read without a test of the type.\<close>

definition device_write_resource ::
    "i64 \<Rightarrow> lwm2m_data \<Rightarrow> device_data \<Rightarrow> mem \<Rightarrow> (byte \<times> device_data \<times> mem) res" where
  "device_write_resource now d t m =
     (let i = data_id d in
      if i = 13 then
        (if lwm2m_data_decode_int d = None
         then Inr (COAP_400_BAD_REQUEST, t\<lparr>time := decode_int_target d (time t)\<rparr>, m)
         else bindE (sub_i64 (decode_int_target d (time t)) now) (\<lambda>v.
           Inr (COAP_204_CHANGED, t\<lparr>time := v\<rparr>, m)))
      else if i = 14 then
        bindE (as_buffer d) (\<lambda>b.
          if prv_check_time_offset b then
            bindE (strncpy (time_offset t) b (length b)) (\<lambda>s.
              if length b < length s
              then Inr (COAP_204_CHANGED, t\<lparr>time_offset := s[length b := 0]\<rparr>, m)
              else Inl OutOfBounds)
          else Inr (COAP_400_BAD_REQUEST, t, m))
      else if i = 15 then Inr (COAP_501_NOT_IMPLEMENTED, t, m)
      else Inr (COAP_405_METHOD_NOT_ALLOWED, t, m))"

definition prv_device_write ::
    "i64 \<Rightarrow> u16 \<Rightarrow> lwm2m_data list \<Rightarrow> device_object \<Rightarrow> mem \<Rightarrow> (byte \<times> device_object \<times> mem) res" where
  "prv_device_write now iid ds obj m =
     (if iid \<noteq> 0 then Inr (COAP_404_NOT_FOUND, obj, m)
      else bindE (deref (userData obj)) (\<lambda>t.
        bindE (write_loop (device_write_resource now) ds t m) (\<lambda>(r, t', m').
          Inr (r, obj\<lparr>userData := Some t'\<rparr>, m'))))"

text \<open>\<open>n\<close> is the length of the argument; the third component is \<^verbatim>\<open>g_reboot\<close>.\<close>

definition prv_device_execute ::
    "u16 \<Rightarrow> u16 \<Rightarrow> nat \<Rightarrow> device_object \<Rightarrow> bool \<Rightarrow> (byte \<times> device_object \<times> bool) res" where
  "prv_device_execute iid rid n obj g_reboot =
     (if iid \<noteq> 0 then Inr (COAP_404_NOT_FOUND, obj, g_reboot)
      else if n \<noteq> 0 then Inr (COAP_400_BAD_REQUEST, obj, g_reboot)
      else if rid = 4 then Inr (COAP_204_CHANGED, obj, True)
      else if rid = 5 then Inr (COAP_204_CHANGED, obj, g_reboot)
      else if rid = 12 then
        bindE (deref (userData obj)) (\<lambda>t.
          Inr (COAP_204_CHANGED, obj\<lparr>userData := Some (t\<lparr>error := 0\<rparr>)\<rparr>, g_reboot))
      else Inr (COAP_405_METHOD_NOT_ALLOWED, obj, g_reboot))"

text \<open>\<^verbatim>\<open>device_change\<close>, the entry of the local user interface.\<close>

definition device_change :: "lwm2m_data \<Rightarrow> device_object \<Rightarrow> (byte \<times> device_object) res" where
  "device_change d obj =
     (let i = data_id d; v = lwm2m_data_decode_int d in
      if i = 9 then
        (case v of
           None \<Rightarrow> Inr (COAP_400_BAD_REQUEST, obj)
         | Some x \<Rightarrow>
             if 0 \<le> sint x \<and> sint x \<le> 100 then
               bindE (deref (userData obj)) (\<lambda>t.
                 Inr (COAP_204_CHANGED, obj\<lparr>userData := Some (t\<lparr>battery_level := ucast x\<rparr>)\<rparr>))
             else Inr (COAP_400_BAD_REQUEST, obj))
      else if i = 11 then
        bindE (deref (userData obj)) (\<lambda>t.
          Inr (if v = None then COAP_400_BAD_REQUEST else COAP_204_CHANGED,
            obj\<lparr>userData := Some (t\<lparr>error := decode_int_target d (error t)\<rparr>)\<rparr>))
      else if i = 10 then
        bindE (deref (userData obj)) (\<lambda>t.
          Inr (if v = None then COAP_400_BAD_REQUEST else COAP_204_CHANGED,
            obj\<lparr>userData := Some (t\<lparr>free_memory := decode_int_target d (free_memory t)\<rparr>)\<rparr>))
      else Inr (COAP_405_METHOD_NOT_ALLOWED, obj))"

section \<open>The object\<close>

text \<open>The time offset fills its seven bytes.\<close>

definition get_object_device :: "mem \<Rightarrow> device_object option \<times> mem" where
  "get_object_device m =
     (case alloc_single m of
        (False, m1) \<Rightarrow> (None, m1)
      | (True, m1) \<Rightarrow>
          (Some \<lparr>objID = 3, instanceList = [0],
             userData = Some \<lparr>free_memory = 15, error = 0, time = 1367491215, battery_level = 100,
               time_offset = bytes ''+01:00'' @ [0]\<rparr>,
             callbacks = [READ, DISCOVER, WRITE, EXECUTE]\<rparr>, m1))"

definition free_object_device :: "device_object \<Rightarrow> device_object option" where
  "free_object_device obj = None"

section \<open>Properties\<close>

text \<open>A number below 100 as two digits.\<close>

definition digits2 :: "nat \<Rightarrow> byte list" where
  "digits2 n = [word_of_nat (48 + n div 10), word_of_nat (48 + n mod 10)]"

lemma unat_digit: "k \<le> 9 \<Longrightarrow> unat (word_of_nat (48 + k) :: byte) = 48 + k"
  by (simp only: unat_of_nat) simp

lemma digit_between_iff:
  assumes "h \<le> 9"
  shows "digit_between 48 c (word_of_nat (48 + h)) \<longleftrightarrow> (\<exists>k\<le>h. c = word_of_nat (48 + k))"
proof -
  have "digit_between 48 c (word_of_nat (48 + h)) \<longleftrightarrow> 48 \<le> unat c \<and> unat c \<le> 48 + h"
    using unat_digit [OF assms]
    by (simp only: digit_between_def not_less word_le_nat_alt de_Morgan_disj) simp
  also have "\<dots> \<longleftrightarrow> (\<exists>k\<le>h. unat c = 48 + k)" by presburger
  also have "\<dots> \<longleftrightarrow> (\<exists>k\<le>h. c = word_of_nat (48 + k))"
    using unat_digit assms
    by (intro ex_cong1 conj_cong refl) (simp add: word_unat_eq_iff del: of_nat_add)
  finally show ?thesis .
qed

lemma digits2_pair: "i \<le> 9 \<Longrightarrow> j \<le> 9 \<Longrightarrow> digits2 (10 * i + j) = [word_of_nat (48 + i), word_of_nat (48 + j)]"
  by (simp add: digits2_def)

lemma digits2_split:
  "(\<exists>n\<le>N. [x, y] = digits2 n) \<longleftrightarrow>
   (\<exists>i j. j \<le> 9 \<and> 10 * i + j \<le> N \<and> x = word_of_nat (48 + i) \<and> y = word_of_nat (48 + j))"
proof
  assume "\<exists>n\<le>N. [x, y] = digits2 n"
  then obtain n where "n \<le> N" "[x, y] = digits2 n" by blast
  moreover have "n mod 10 \<le> 9" by presburger
  ultimately show "\<exists>i j. j \<le> 9 \<and> 10 * i + j \<le> N \<and> x = word_of_nat (48 + i) \<and> y = word_of_nat (48 + j)"
    by (intro exI [of _ "n div 10"] exI [of _ "n mod 10"]) (simp add: digits2_def)
next
  assume "\<exists>i j. j \<le> 9 \<and> 10 * i + j \<le> N \<and> x = word_of_nat (48 + i) \<and> y = word_of_nat (48 + j)"
  then obtain i j where "j \<le> 9" "10 * i + j \<le> N" "x = word_of_nat (48 + i)" "y = word_of_nat (48 + j)" by blast
  then show "\<exists>n\<le>N. [x, y] = digits2 n"
    by (intro exI [of _ "10 * i + j"]) (simp add: digits2_def)
qed

lemma minutes_iff:
  "(\<exists>n\<le>59. [x, y] = digits2 n) \<longleftrightarrow> digit_between 48 x 53 \<and> digit_between 48 y 57"
proof -
  have "digit_between 48 x 53 \<longleftrightarrow> (\<exists>k\<le>5. x = word_of_nat (48 + k))"
    "digit_between 48 y 57 \<longleftrightarrow> (\<exists>k\<le>9. y = word_of_nat (48 + k))"
    using digit_between_iff [of 5 x] digit_between_iff [of 9 y] by simp_all
  moreover have "10 * i + j \<le> 59 \<longleftrightarrow> i \<le> 5" if "j \<le> 9" for i j :: nat using that by presburger
  ultimately show ?thesis unfolding digits2_split by blast
qed

lemma hours_iff:
  "(\<exists>n\<le>12. [x, y] = digits2 n) \<longleftrightarrow>
   (if x = 48 then digit_between 48 y 57 else if x = 49 then digit_between 48 y 50 else False)"
proof -
  have y: "digit_between 48 y 57 \<longleftrightarrow> (\<exists>k\<le>9. y = word_of_nat (48 + k))"
    "digit_between 48 y 50 \<longleftrightarrow> (\<exists>k\<le>2. y = word_of_nat (48 + k))"
    using digit_between_iff [of 9 y] digit_between_iff [of 2 y] by simp_all
  have "(j \<le> 9 \<and> 10 * i + j \<le> 12) \<longleftrightarrow> (i = 0 \<and> j \<le> 9) \<or> (i = 1 \<and> j \<le> 2)" for i j :: nat
    by presburger
  then have ij: "(j \<le> 9 \<and> 10 * i + j \<le> 12 \<and> P) \<longleftrightarrow> (i = 0 \<and> j \<le> 9 \<and> P) \<or> (i = 1 \<and> j \<le> 2 \<and> P)"
    for i j :: nat and P by blast
  have "(\<exists>n\<le>12. [x, y] = digits2 n) \<longleftrightarrow>
      x = 48 \<and> (\<exists>k\<le>9. y = word_of_nat (48 + k)) \<or> x = 49 \<and> (\<exists>k\<le>2. y = word_of_nat (48 + k))"
    unfolding digits2_split ij by (auto simp: ex_disj_distrib)
  then show ?thesis unfolding y by simp
qed

lemma offset_forms:
  "[a, x, y] = s # digits2 h \<longleftrightarrow> a = s \<and> [x, y] = digits2 h"
  "[a, x, y] = s # digits2 h @ digits2 m \<longleftrightarrow> False"
  "[a, x, y] = s # digits2 h @ [58] @ digits2 m \<longleftrightarrow> False"
  "[a, x, y, p, q] = s # digits2 h \<longleftrightarrow> False"
  "[a, x, y, p, q] = s # digits2 h @ digits2 m \<longleftrightarrow> a = s \<and> [x, y] = digits2 h \<and> [p, q] = digits2 m"
  "[a, x, y, p, q] = s # digits2 h @ [58] @ digits2 m \<longleftrightarrow> False"
  "[a, x, y, c, p, q] = s # digits2 h \<longleftrightarrow> False"
  "[a, x, y, c, p, q] = s # digits2 h @ digits2 m \<longleftrightarrow> False"
  "[a, x, y, c, p, q] = s # digits2 h @ [58] @ digits2 m \<longleftrightarrow>
     a = s \<and> [x, y] = digits2 h \<and> c = 58 \<and> [p, q] = digits2 m"
  by (simp_all add: digits2_def)

lemma check_offset_iff:
  "prv_check_time_offset b \<longleftrightarrow>
     (\<exists>s h m. s \<in> {43, 45} \<and> h \<le> 12 \<and> m \<le> 59
        \<and> (b = s # digits2 h \<or> b = s # digits2 h @ digits2 m \<or> b = s # digits2 h @ [58] @ digits2 m))"
    (is "_ \<longleftrightarrow> ?R b")
proof (cases "length b = 3 \<or> length b = 5 \<or> length b = 6")
  case False
  have "length (digits2 n) = 2" for n by (simp add: digits2_def)
  with False show ?thesis by (auto simp: prv_check_time_offset_def)
next
  case True
  then consider "length b = 3" | "length b = 5" | "length b = 6" by blast
  then show ?thesis
  proof cases
    case 1
    then have "b = [b ! 0, b ! 1, b ! 2]"
      by (intro nth_equalityI) (auto simp: less_Suc_eq numeral_eq_Suc)
    then obtain a x y where b: "b = [a, x, y]" by blast
    have "?R b \<longleftrightarrow> (a = 43 \<or> a = 45) \<and> (\<exists>h\<le>12. [x, y] = digits2 h)"
      unfolding b offset_forms by auto
    then show ?thesis unfolding hours_iff by (simp add: b prv_check_time_offset_def)
  next
    case 2
    then have "b = [b ! 0, b ! 1, b ! 2, b ! 3, b ! 4]"
      by (intro nth_equalityI) (auto simp: less_Suc_eq numeral_eq_Suc)
    then obtain a x y p q where b: "b = [a, x, y, p, q]" by blast
    have "?R b \<longleftrightarrow> (a = 43 \<or> a = 45) \<and> (\<exists>h\<le>12. [x, y] = digits2 h) \<and> (\<exists>m\<le>59. [p, q] = digits2 m)"
      unfolding b offset_forms by auto
    then show ?thesis unfolding hours_iff minutes_iff by (simp add: b prv_check_time_offset_def)
  next
    case 3
    then have "b = [b ! 0, b ! 1, b ! 2, b ! 3, b ! 4, b ! 5]"
      by (intro nth_equalityI) (auto simp: less_Suc_eq numeral_eq_Suc)
    then obtain a x y c p q where b: "b = [a, x, y, c, p, q]" by blast
    have "?R b \<longleftrightarrow> (a = 43 \<or> a = 45) \<and> (\<exists>h\<le>12. [x, y] = digits2 h) \<and> c = 58
        \<and> (\<exists>m\<le>59. [p, q] = digits2 m)"
      unfolding b offset_forms by auto
    then show ?thesis unfolding hours_iff minutes_iff by (simp add: b prv_check_time_offset_def)
  qed
qed

text \<open>
  The offsets \<^verbatim>\<open>prv_check_time_offset\<close> accepts are exactly a sign, two digits of an hour up to 12
  and, with or without a colon, two digits of a minute up to 59; so +12:30 is one of them, as the
  comment above the function warns.
\<close>

theorem device_offset_language:
  "prv_check_time_offset b \<longleftrightarrow>
     (\<exists>s h m. s \<in> {43, 45} \<and> h \<le> 12 \<and> m \<le> 59
        \<and> (b = s # digits2 h \<or> b = s # digits2 h @ digits2 m \<or> b = s # digits2 h @ [58] @ digits2 m))"
  by (rule check_offset_iff)

text \<open>
  A write of the current time with an opaque value of an impossible length is refused with
  4.00, but the clock is already 0: the value was decoded straight into it.
\<close>

theorem device_refused_time_clears_clock:
  assumes "userData obj = Some t" and "length b \<notin> {0, 1, 2, 4, 8}"
  shows "prv_device_write now 0 [Data 13 (V_opaque b)] obj m
    = Inr (COAP_400_BAD_REQUEST, obj\<lparr>userData := Some (t\<lparr>time := 0\<rparr>)\<rparr>, m)"
proof -
  have "utils_opaqueToInt b = (0, 0)"
    using assms(2) by (auto simp: utils_opaqueToInt_def split: nat.split)
  then have "device_write_resource now (Data 13 (V_opaque b)) t m
      = Inr (COAP_400_BAD_REQUEST, t\<lparr>time := 0\<rparr>, m)"
    using assms(2) by (simp add: device_write_resource_def lwm2m_data_decode_int_def decode_int_target_def)
  then show ?thesis using assms(1) by (simp add: prv_device_write_def deref_def)
qed

lemma device_refused_time_clears_clock_witness:
  "prv_device_write 100 0 [Data 13 (V_opaque [1, 2, 3])]
     \<lparr>objID = 3, instanceList = [0], userData = Some \<lparr>free_memory = 15, error = 0, time = 77,
       battery_level = 100, time_offset = bytes ''+01:00'' @ [0]\<rparr>, callbacks = []\<rparr> []
   = Inr (COAP_400_BAD_REQUEST,
     \<lparr>objID = 3, instanceList = [0], userData = Some \<lparr>free_memory = 15, error = 0, time = 0,
       battery_level = 100, time_offset = bytes ''+01:00'' @ [0]\<rparr>, callbacks = []\<rparr>, [])"
  using device_refused_time_clears_clock [of "\<lparr>objID = 3, instanceList = [0], userData = Some
    \<lparr>free_memory = 15, error = 0, time = 77, battery_level = 100,
      time_offset = bytes ''+01:00'' @ [0]\<rparr>, callbacks = []\<rparr>" _ "[1, 2, 3]" 100 "[]"]
  by simp

section \<open>Every reachable object\<close>

definition device_ok :: "device_data \<Rightarrow> bool" where
  "device_ok t \<longleftrightarrow> unat (battery_level t) \<le> 100 \<and> length (time_offset t) = 7
     \<and> (\<exists>s. c_string (time_offset t) = Inr s \<and> prv_check_time_offset s)"

lemma check_offset_facts:
  assumes "prv_check_time_offset b"
  shows "length b \<le> 6" and "0 \<notin> set b"
proof -
  have d: "0 \<notin> set (digits2 n)" "length (digits2 n) = 2" if "n \<le> 59" for n
  proof -
    have "word_of_nat (48 + k) \<noteq> (0 :: byte)" if "k \<le> 9" for k
      using unat_digit [OF that] by (metis add_is_0 unat_0 zero_neq_numeral)
    moreover have "n div 10 \<le> 9" "n mod 10 \<le> 9" using that by presburger+
    ultimately show "0 \<notin> set (digits2 n)" "length (digits2 n) = 2"
      by (auto simp: digits2_def simp del: of_nat_add)
  qed
  obtain s h m where "s \<in> {43, 45}" "h \<le> 12" "m \<le> 59"
    "b = s # digits2 h \<or> b = s # digits2 h @ digits2 m \<or> b = s # digits2 h @ [58] @ digits2 m"
    using assms unfolding check_offset_iff by blast
  then show "length b \<le> 6" "0 \<notin> set b" using d [of h] d [of m] by auto
qed


lemma device_write_ok:
  assumes "device_ok t" and "device_write_resource now d t m = Inr (r, t', m')"
  shows "device_ok t'"
proof (cases "\<exists>b. as_buffer d = Inr b \<and> data_id d = 14 \<and> prv_check_time_offset b")
  case True
  then obtain b where b: "as_buffer d = Inr b" "data_id d = 14" "prv_check_time_offset b" by blast
  note f = check_offset_facts [OF b(3)]
  have len: "length (time_offset t) = 7" using assms(1) by (simp add: device_ok_def)
  have tk: "takeWhile (\<lambda>b. b \<noteq> 0) b = b" using f(2) by (auto simp: takeWhile_eq_all_conv)
  have cpy: "strncpy (time_offset t) b (length b) = Inr (b @ drop (length b) (time_offset t))"
    using f(1) len by (simp add: strncpy_def Let_def tk)
  have t': "t' = t\<lparr>time_offset := (b @ drop (length b) (time_offset t))[length b := 0]\<rparr>"
    using assms(2) b cpy f(1) len by (simp add: device_write_resource_def)
  have upd: "(b @ drop (length b) (time_offset t))[length b := 0] = b @ 0 # drop (Suc (length b)) (time_offset t)"
    using f(1) len by (simp add: list_update_append Cons_nth_drop_Suc [symmetric])
  have "takeWhile (\<lambda>b. b \<noteq> 0) (b @ 0 # xs) = b" for xs :: "byte list"
    using f(2) by (subst takeWhile_append2) auto
  then have "c_string (b @ 0 # xs) = Inr b" for xs by (simp add: c_string_def)
  then show ?thesis using assms(1) b(3) f(1) len by (simp add: device_ok_def t' upd)
next
  case False
  then show ?thesis using assms
    by (auto simp: device_write_resource_def Let_def device_ok_def elim!: bindE_Inr_E split: if_splits)
qed

interpretation device_writer: resource_writer "device_write_resource now" "\<lambda>_. 0" device_ok
  by unfold_locales (auto dest: device_write_ok)

inductive device_step :: "device_object \<Rightarrow> device_object \<Rightarrow> bool" where
  device_step_write:
    "prv_device_write now iid ds obj m = Inr (r, obj', m') \<Longrightarrow> device_step obj obj'"
| device_step_execute:
    "prv_device_execute iid rid n obj g = Inr (r, obj', g') \<Longrightarrow> device_step obj obj'"
| device_step_change: "device_change d obj = Inr (r, obj') \<Longrightarrow> device_step obj obj'"

definition device_inv :: "device_object \<Rightarrow> bool" where
  "device_inv obj \<longleftrightarrow> (\<exists>t. userData obj = Some t \<and> device_ok t)"

lemma device_write_inv:
  "device_inv obj \<Longrightarrow> prv_device_write now iid ds obj m = Inr (r, obj', m') \<Longrightarrow> device_inv obj'"
  using device_writer.write_good
  by (fastforce simp: device_inv_def prv_device_write_def deref_def bindE_Inr_iff split: if_splits)

lemma device_execute_inv:
  "device_inv obj \<Longrightarrow> prv_device_execute iid rid n obj g = Inr (r, obj', g') \<Longrightarrow> device_inv obj'"
  by (auto simp: device_inv_def prv_device_execute_def deref_def device_ok_def
      elim!: bindE_Inr_E split: if_splits)

lemma battery_in_range: "0 \<le> sint x \<Longrightarrow> sint x \<le> 100 \<Longrightarrow> unat (ucast (x :: i64) :: byte) \<le> 100"
proof -
  assume x: "0 \<le> sint x" "sint x \<le> 100"
  then have "uint x \<le> 100" by (simp add: uint_of_nonneg)
  then have "x \<le> 100" by (simp add: word_le_def)
  then have "unat x \<le> 100" by (simp add: word_le_nat_alt)
  then show ?thesis by (simp add: unsigned_ucast_eq take_bit_nat_eq_self)
qed

lemma device_change_inv:
  "device_inv obj \<Longrightarrow> device_change d obj = Inr (r, obj') \<Longrightarrow> device_inv obj'"
  by (auto simp: device_inv_def device_change_def deref_def device_ok_def Let_def battery_in_range
      elim!: bindE_Inr_E split: if_splits option.splits)

interpretation device_steps: step_invariant device_step device_inv
  by unfold_locales
    (auto elim!: device_step.cases dest: device_write_inv device_execute_inv device_change_inv)

lemma new_device_inv: "get_object_device m = (Some obj, m') \<Longrightarrow> device_inv obj"
proof -
  have "c_string (bytes ''+01:00'' @ [0]) = Inr (bytes ''+01:00'')" by (simp add: c_string_def bytes_def)
  moreover have "prv_check_time_offset (bytes ''+01:00'')"
    by (simp add: prv_check_time_offset_def digit_between_def bytes_def)
  ultimately have "device_ok \<lparr>free_memory = 15, error = 0, time = 1367491215, battery_level = 100,
      time_offset = bytes ''+01:00'' @ [0]\<rparr>" by (simp add: device_ok_def) (simp add: bytes_def)
  moreover assume "get_object_device m = (Some obj, m')"
  then have "userData obj = Some \<lparr>free_memory = 15, error = 0, time = 1367491215, battery_level = 100,
      time_offset = bytes ''+01:00'' @ [0]\<rparr>"
    by (auto simp: get_object_device_def split: prod.splits bool.splits)
  ultimately show ?thesis by (simp add: device_inv_def)
qed

text \<open>
  From its creation on, whatever writes, executes and local changes the device object sees,
  its battery level stays at most 100 and its time offset stays a terminated string of the
  accepted form.
\<close>

theorem device_invariant:
  assumes "get_object_device m = (Some obj, m')" and "device_step\<^sup>*\<^sup>* obj obj'"
  shows "\<exists>t. userData obj' = Some t \<and> unat (battery_level t) \<le> 100
    \<and> (\<exists>s. c_string (time_offset t) = Inr s \<and> prv_check_time_offset s)"
  using device_steps.run_inv [OF assms(2) new_device_inv [OF assms(1)]]
  by (auto simp: device_inv_def device_ok_def)

lemma device_invariant_witness:
  "\<exists>obj obj'. get_object_device [] = (Some obj, []) \<and> device_change (Data 9 (V_integer 42)) obj = Inr (COAP_204_CHANGED, obj')
    \<and> (\<exists>t. userData obj' = Some t \<and> unat (battery_level t) \<le> 100)"
proof -
  obtain obj where obj: "get_object_device [] = (Some obj, [])" by (simp add: get_object_device_def)
  obtain obj' where step: "device_change (Data 9 (V_integer 42)) obj = Inr (COAP_204_CHANGED, obj')"
    using obj by (auto simp: get_object_device_def device_change_def deref_def)
  show ?thesis
    using obj step device_invariant [OF obj r_into_rtranclp, OF device_step_change [OF step]] by blast
qed

end
