(* ===== verification/Object_ConnMoni.thy ===== *)
theory Object_ConnMoni
imports Lwm2m_Object
begin

text \<open>
  The connectivity monitoring object of \<^verbatim>\<open>app/lwm2m/object_connectivity_moni.c\<close>. \<^verbatim>\<open>int\<close> and \<^verbatim>\<open>long\<close>
  are 32 bits, as on the STM32 target.
\<close>

section \<open>State\<close>

record conn_m_data =
  ipAddresses :: "byte list list"         \<comment> \<open>\<^verbatim>\<open>char ipAddresses[2][16]\<close>\<close>
  routerIpAddresses :: "byte list list"
  cellId :: u32
  signalStrength :: u32
  linkQuality :: u32
  linkUtilization :: u32

type_synonym conn_m_object = "(u16, conn_m_data) lwm2m_object"

definition VALUE_IP_ADDRESS_1 :: "byte list" where "VALUE_IP_ADDRESS_1 = bytes ''192.168.178.101''"
definition VALUE_IP_ADDRESS_2 :: "byte list" where "VALUE_IP_ADDRESS_2 = bytes ''192.168.178.102''"
definition VALUE_ROUTER_IP_ADDRESS_1 :: "byte list" where
  "VALUE_ROUTER_IP_ADDRESS_1 = bytes ''192.168.178.001''"
definition VALUE_ROUTER_IP_ADDRESS_2 :: "byte list" where
  "VALUE_ROUTER_IP_ADDRESS_2 = bytes ''192.168.178.002''"
definition VALUE_APN_1 :: "byte list" where "VALUE_APN_1 = bytes ''web.vodafone.de''"

definition CONN_M_RESOURCES :: "u16 list" where
  "CONN_M_RESOURCES = [0, 1, 2, 3, 4, 5, 6, 7, 8, 9, 10]"

section \<open>Read\<close>

text \<open>An array of one element, used without a null test, handed over as a multiple resource.\<close>

definition one_instance ::
    "(lwm2m_data \<Rightarrow> mem \<Rightarrow> lwm2m_data \<times> mem) \<Rightarrow> lwm2m_data \<Rightarrow> mem \<Rightarrow> (byte \<times> lwm2m_data \<times> mem) res" where
  "one_instance fill d m =
     (case lwm2m_data_new 1 m of
        ([], _) \<Rightarrow> Inl NullDeref
      | (x # _, m1) \<Rightarrow>
          (case fill (Data 0 (data_value x)) m1 of (s, m2) \<Rightarrow>
             Inr (COAP_205_CONTENT, lwm2m_data_encode_instances [s] 1 d, m2)))"

definition prv_set_value ::
    "conn_m_data option \<Rightarrow> lwm2m_data \<Rightarrow> mem \<Rightarrow> (byte \<times> lwm2m_data \<times> mem) res" where
  "prv_set_value conn d m =
     (let i = data_id d; int = (\<lambda>v. Inr (COAP_205_CONTENT, lwm2m_data_encode_int v d, m)) in
      if i = 0 then int 0
      else if i = 1 then one_instance (\<lambda>s m. (lwm2m_data_encode_int 0 s, m)) d m
      else if i = 2 then bindE (deref conn) (\<lambda>t. int (scast (signalStrength t)))
      else if i = 3 then bindE (deref conn) (\<lambda>t. int (scast (linkQuality t)))
      else if i = 4 then
        bindE (deref conn) (\<lambda>t. bindE (c_string (ipAddresses t ! 0)) (\<lambda>s.
          one_instance (lwm2m_data_encode_string s) d m))
      else if i = 5 then
        bindE (deref conn) (\<lambda>t. bindE (c_string (routerIpAddresses t ! 0)) (\<lambda>s.
          one_instance (lwm2m_data_encode_string s) d m))
      else if i = 6 then bindE (deref conn) (\<lambda>t. int (scast (linkUtilization t)))
      else if i = 7 then one_instance (lwm2m_data_encode_string VALUE_APN_1) d m
      else if i = 8 then bindE (deref conn) (\<lambda>t. int (scast (cellId t)))
      else if i = 9 then int 33
      else if i = 10 then int 44
      else Inr (COAP_404_NOT_FOUND, d, m))"

definition prv_read ::
    "u16 \<Rightarrow> lwm2m_data list \<Rightarrow> conn_m_object \<Rightarrow> mem \<Rightarrow> (byte \<times> lwm2m_data list \<times> mem) res" where
  "prv_read iid ds obj m =
     (if iid \<noteq> 0 then Inr (COAP_404_NOT_FOUND, ds, m)
      else case requested CONN_M_RESOURCES ds m of
        (None, m1) \<Rightarrow> Inr (COAP_500_INTERNAL_SERVER_ERROR, [], m1)
      | (Some ds', m1) \<Rightarrow> read_loop (prv_set_value (userData obj)) ds' m1)"

section \<open>The object\<close>

text \<open>A C string literal in an array of sixteen bytes.\<close>

definition in16 :: "byte list \<Rightarrow> byte list" where
  "in16 s = s @ replicate (16 - length s) 0"

definition get_object_conn_m :: "mem \<Rightarrow> conn_m_object option \<times> mem" where
  "get_object_conn_m m =
     (case alloc_single m of
        (False, m1) \<Rightarrow> (None, m1)
      | (True, m1) \<Rightarrow>
          (Some \<lparr>objID = 4, instanceList = [0],
             userData = Some \<lparr>
               ipAddresses = [in16 VALUE_IP_ADDRESS_1, in16 VALUE_IP_ADDRESS_2],
               routerIpAddresses = [in16 VALUE_ROUTER_IP_ADDRESS_1, in16 VALUE_ROUTER_IP_ADDRESS_2],
               cellId = 69696969, signalStrength = 80, linkQuality = 98, linkUtilization = 666\<rparr>,
             callbacks = [READ]\<rparr>, m1))"

definition free_object_conn_m :: "conn_m_object \<Rightarrow> conn_m_object option" where
  "free_object_conn_m obj = None"

section \<open>Local changes\<close>

text \<open>
  The new contents of a 16-byte address: refused when it would not leave room for the terminator.
  The buffer is read without a test of the type.
\<close>

definition store_address :: "lwm2m_data \<Rightarrow> byte list option res" where
  "store_address d =
     bindE (as_buffer d) (\<lambda>b.
       Inr (if 16 \<le> length b then None else Some ((b @ drop (length b) (replicate 16 0))[length b := 0])))"

definition connectivity_moni_change :: "lwm2m_data \<Rightarrow> conn_m_object \<Rightarrow> (byte \<times> conn_m_object) res" where
  "connectivity_moni_change d obj =
     (let i = data_id d;
          put = (\<lambda>f. bindE (deref (userData obj)) (\<lambda>t.
                  Inr (COAP_204_CHANGED, obj\<lparr>userData := Some (f t)\<rparr>)));
          bad = Inr (COAP_400_BAD_REQUEST, obj);
          number = (\<lambda>f. case lwm2m_data_decode_int d of None \<Rightarrow> bad | Some v \<Rightarrow> put (f (ucast v)));
          address = (\<lambda>f. bindE (store_address d) (\<lambda>a. case a of None \<Rightarrow> bad | Some s \<Rightarrow> put (f s))) in
      if i = 2 then number (\<lambda>v t. t\<lparr>signalStrength := v\<rparr>)
      else if i = 3 then number (\<lambda>v t. t\<lparr>linkQuality := v\<rparr>)
      else if i = 4 then address (\<lambda>s t. t\<lparr>ipAddresses := (ipAddresses t)[0 := s]\<rparr>)
      else if i = 5 then address (\<lambda>s t. t\<lparr>routerIpAddresses := (routerIpAddresses t)[0 := s]\<rparr>)
      else if i = 8 then number (\<lambda>v t. t\<lparr>cellId := v\<rparr>)
      else Inr (COAP_405_METHOD_NOT_ALLOWED, obj))"

section \<open>Properties\<close>

text \<open>Every address is a terminated string in its sixteen bytes.\<close>

definition conn_m_ok :: "conn_m_data \<Rightarrow> bool" where
  "conn_m_ok t \<longleftrightarrow> ipAddresses t \<noteq> [] \<and> routerIpAddresses t \<noteq> []
     \<and> (\<forall>a\<in>set (ipAddresses t) \<union> set (routerIpAddresses t). length a = 16 \<and> 0 \<in> set a)"

definition conn_m_inv :: "conn_m_object \<Rightarrow> bool" where
  "conn_m_inv obj \<longleftrightarrow> (\<exists>t. userData obj = Some t \<and> conn_m_ok t)"

lemma store_address_terminated:
  "store_address d = Inr (Some s) \<Longrightarrow> length s = 16 \<and> 0 \<in> set s"
proof -
  assume "store_address d = Inr (Some s)"
  then obtain b where b: "length b < 16" "s = (b @ drop (length b) (replicate 16 0))[length b := 0]"
    by (auto simp: store_address_def not_le elim!: bindE_Inr_E split: if_splits)
  then have "length s = 16" "s ! length b = 0" by simp_all
  then show ?thesis using b(1) nth_mem [of "length b" s] by simp
qed

lemma conn_m_ok_updates [simp]:
  "conn_m_ok (t\<lparr>signalStrength := v\<rparr>) = conn_m_ok t"
  "conn_m_ok (t\<lparr>linkQuality := v\<rparr>) = conn_m_ok t"
  "conn_m_ok (t\<lparr>cellId := v\<rparr>) = conn_m_ok t"
  by (simp_all add: conn_m_ok_def)

lemma conn_m_ok_address:
  assumes "conn_m_ok t" and "length s = 16 \<and> 0 \<in> set s"
  shows "conn_m_ok (t\<lparr>ipAddresses := (ipAddresses t)[0 := s]\<rparr>)"
    and "conn_m_ok (t\<lparr>routerIpAddresses := (routerIpAddresses t)[0 := s]\<rparr>)"
  using assms set_update_subset_insert [of "ipAddresses t" 0 s]
    set_update_subset_insert [of "routerIpAddresses t" 0 s]
  by (auto simp: conn_m_ok_def)

lemma conn_m_change_inv:
  assumes "conn_m_inv obj" and "connectivity_moni_change d obj = Inr (r, obj')"
  shows "conn_m_inv obj'"
proof -
  obtain t where t: "userData obj = Some t" "conn_m_ok t" using assms(1) by (auto simp: conn_m_inv_def)
  note chg = assms(2) [unfolded connectivity_moni_change_def Let_def t(1) deref_Some bindE_simps]
  consider "data_id d \<in> {2, 3, 8}" | "data_id d \<in> {4, 5}" | "data_id d \<notin> {2, 3, 4, 5, 8}" by blast
  then show ?thesis
  proof cases
    case 1
    then show ?thesis using chg t by (auto simp: conn_m_inv_def split: option.splits)
  next
    case 2
    then obtain a where "store_address d = Inr a" using chg by (auto elim!: bindE_Inr_E)
    then show ?thesis using 2 chg t store_address_terminated [of d] conn_m_ok_address [OF t(2)]
      by (cases a) (auto simp: conn_m_inv_def)
  next
    case 3
    then show ?thesis using chg assms(1) by auto
  qed
qed

lemma new_conn_m_inv: "get_object_conn_m m = (Some obj, m') \<Longrightarrow> conn_m_inv obj"
  by (auto simp: get_object_conn_m_def conn_m_inv_def conn_m_ok_def in16_def bytes_def VALUE_IP_ADDRESS_1_def
      VALUE_IP_ADDRESS_2_def VALUE_ROUTER_IP_ADDRESS_1_def VALUE_ROUTER_IP_ADDRESS_2_def
      split: prod.splits bool.splits)

interpretation conn_m_steps: step_invariant "\<lambda>obj obj'. \<exists>d r. connectivity_moni_change d obj = Inr (r, obj')"
    conn_m_inv
  by unfold_locales (auto dest: conn_m_change_inv)

lemma conn_m_get_ok:
  assumes "conn_m_inv obj" and "r \<in> set CONN_M_RESOURCES"
  shows "\<exists>v. prv_set_value (userData obj) (Data r V_undefined) [] = Inr (COAP_205_CONTENT, Data r v, [])"
proof -
  obtain t where t: "userData obj = Some t" "ipAddresses t \<noteq> []" "routerIpAddresses t \<noteq> []"
    "\<forall>a\<in>set (ipAddresses t) \<union> set (routerIpAddresses t). length a = 16 \<and> 0 \<in> set a"
    using assms(1) by (auto simp: conn_m_inv_def conn_m_ok_def)
  then have "0 \<in> set (ipAddresses t ! 0)" "0 \<in> set (routerIpAddresses t ! 0)" by auto
  then show ?thesis using t(1) assms(2)
    by (auto simp: prv_set_value_def CONN_M_RESOURCES_def c_string_def one_instance_def
        lwm2m_data_encode_instances_def lwm2m_data_include_def as_children_def)
qed

text \<open>
  Whatever local changes the connectivity object has seen since its creation, a read of the
  whole object answers 2.05 with its eleven resources: the addresses stay terminated in their
  arrays.
\<close>

theorem conn_m_read_after_changes:
  assumes "get_object_conn_m m = (Some obj, m')"
    and "(\<lambda>obj obj'. \<exists>d r. connectivity_moni_change d obj = Inr (r, obj'))\<^sup>*\<^sup>* obj obj'"
  shows "\<exists>ds. prv_read 0 [] obj' [] = Inr (COAP_205_CONTENT, ds, []) \<and> map data_id ds = CONN_M_RESOURCES"
proof -
  have inv: "conn_m_inv obj'" by (rule conn_m_steps.run_inv [OF assms(2) new_conn_m_inv [OF assms(1)]])
  have "\<exists>ds. read_loop (prv_set_value (userData obj')) (map (\<lambda>r. Data r V_undefined) rs) []
      = Inr (COAP_205_CONTENT, ds, []) \<and> map data_id ds = rs"
    if "rs \<noteq> []" "set rs \<subseteq> set CONN_M_RESOURCES" for rs
    using that
  proof (induction rs)
    case Nil
    then show ?case by simp
  next
    case (Cons r rs)
    then show ?case using conn_m_get_ok [OF inv, of r] by (cases "rs = []") auto
  qed
  moreover have "CONN_M_RESOURCES \<noteq> []" by (simp add: CONN_M_RESOURCES_def)
  ultimately show ?thesis by (fastforce simp: prv_read_def)
qed

lemma conn_m_read_after_changes_witness:
  "\<exists>obj ds. get_object_conn_m [] = (Some obj, []) \<and> prv_read 0 [] obj [] = Inr (COAP_205_CONTENT, ds, [])
    \<and> map data_id ds = CONN_M_RESOURCES"
proof -
  obtain obj where obj: "get_object_conn_m [] = (Some obj, [])" by (simp add: get_object_conn_m_def)
  then show ?thesis using conn_m_read_after_changes [OF obj rtranclp.rtrancl_refl] by blast
qed

end
