(* ===== verification/Object_Firmware.thy ===== *)
theory Object_Firmware
imports Lwm2m_Object
begin

text \<open>The firmware update object of \<^verbatim>\<open>app/lwm2m/object_firmware.c\<close>.\<close>

section \<open>State\<close>

record firmware_data =
  state :: byte
  supported :: bool
  result :: byte

type_synonym firmware_object = "(u16, firmware_data) lwm2m_object"

section \<open>The callbacks\<close>

definition firmware_get ::
    "firmware_data option \<Rightarrow> lwm2m_data \<Rightarrow> mem \<Rightarrow> (byte \<times> lwm2m_data \<times> mem) res" where
  "firmware_get data d m =
     (let i = data_id d in
      if i = 0 \<or> i = 1 \<or> i = 2 then Inr (COAP_405_METHOD_NOT_ALLOWED, d, m)
      else if i = 3 then
        bindE (deref data) (\<lambda>t. Inr (COAP_205_CONTENT, lwm2m_data_encode_int (ucast (state t)) d, m))
      else if i = 4 then
        bindE (deref data) (\<lambda>t. Inr (COAP_205_CONTENT, lwm2m_data_encode_bool (supported t) d, m))
      else if i = 5 then
        bindE (deref data) (\<lambda>t. Inr (COAP_205_CONTENT, lwm2m_data_encode_int (ucast (result t)) d, m))
      else Inr (COAP_404_NOT_FOUND, d, m))"

definition prv_firmware_read ::
    "u16 \<Rightarrow> lwm2m_data list \<Rightarrow> firmware_object \<Rightarrow> mem \<Rightarrow> (byte \<times> lwm2m_data list \<times> mem) res" where
  "prv_firmware_read iid ds obj m =
     (if iid \<noteq> 0 then Inr (COAP_404_NOT_FOUND, ds, m)
      else case requested [3, 4, 5] ds m of
        (None, m1) \<Rightarrow> Inr (COAP_500_INTERNAL_SERVER_ERROR, [], m1)
      | (Some ds', m1) \<Rightarrow> read_loop (firmware_get (userData obj)) ds' m1)"

definition firmware_write_resource ::
    "lwm2m_data \<Rightarrow> firmware_data option \<Rightarrow> mem \<Rightarrow> (byte \<times> firmware_data option \<times> mem) res" where
  "firmware_write_resource d data m =
     (let i = data_id d in
      if i = 0 \<or> i = 1 then Inr (COAP_204_CHANGED, data, m)
      else if i = 4 then
        (case lwm2m_data_decode_bool d of
           None \<Rightarrow> Inr (COAP_400_BAD_REQUEST, data, m)
         | Some b \<Rightarrow>
             bindE (deref data) (\<lambda>t. Inr (COAP_204_CHANGED, Some (t\<lparr>supported := b\<rparr>), m)))
      else Inr (COAP_405_METHOD_NOT_ALLOWED, data, m))"

definition prv_firmware_write ::
    "u16 \<Rightarrow> lwm2m_data list \<Rightarrow> firmware_object \<Rightarrow> mem \<Rightarrow> (byte \<times> firmware_object \<times> mem) res" where
  "prv_firmware_write iid ds obj m =
     (if iid \<noteq> 0 then Inr (COAP_404_NOT_FOUND, obj, m)
      else bindE (write_loop firmware_write_resource ds (userData obj) m) (\<lambda>(r, data, m').
        Inr (r, obj\<lparr>userData := data\<rparr>, m')))"

text \<open>\<open>n\<close> is the length of the argument.\<close>

definition prv_firmware_execute ::
    "u16 \<Rightarrow> u16 \<Rightarrow> nat \<Rightarrow> firmware_object \<Rightarrow> (byte \<times> firmware_object) res" where
  "prv_firmware_execute iid rid n obj =
     (if iid \<noteq> 0 then Inr (COAP_404_NOT_FOUND, obj)
      else if n \<noteq> 0 then Inr (COAP_400_BAD_REQUEST, obj)
      else if rid = 2 then
        bindE (deref (userData obj)) (\<lambda>t.
          if state t = 1
          then Inr (COAP_204_CHANGED, obj\<lparr>userData := Some (t\<lparr>state := 2\<rparr>)\<rparr>)
          else Inr (COAP_400_BAD_REQUEST, obj))
      else Inr (COAP_405_METHOD_NOT_ALLOWED, obj))"

definition get_object_firmware :: "mem \<Rightarrow> firmware_object option \<times> mem" where
  "get_object_firmware m =
     (case alloc_single m of
        (False, m1) \<Rightarrow> (None, m1)
      | (True, m1) \<Rightarrow>
          (Some \<lparr>objID = 5, instanceList = [0],
             userData = Some \<lparr>state = 1, supported = False, result = 0\<rparr>,
             callbacks = [READ, WRITE, EXECUTE]\<rparr>, m1))"

definition free_object_firmware :: "firmware_object \<Rightarrow> firmware_object option" where
  "free_object_firmware obj = None"

section \<open>The state machine\<close>

inductive firmware_step :: "firmware_object \<Rightarrow> firmware_object \<Rightarrow> bool" where
  firmware_step_write:
    "prv_firmware_write iid ds obj m = Inr (r, obj', m') \<Longrightarrow> firmware_step obj obj'"
| firmware_step_execute:
    "prv_firmware_execute iid rid n obj = Inr (r, obj') \<Longrightarrow> firmware_step obj obj'"

inductive_cases firmware_stepE: "firmware_step obj obj'"

text \<open>The part of the object the update logic looks at: the state and the result.\<close>

definition firmware_phase :: "firmware_object \<Rightarrow> (byte \<times> byte) option" where
  "firmware_phase obj = map_option (\<lambda>t. (state t, result t)) (userData obj)"

lemma firmware_write_phase:
  "write_loop firmware_write_resource ds data m = Inr (r, data', m') \<Longrightarrow>
   map_option (\<lambda>t. (state t, result t)) data' = map_option (\<lambda>t. (state t, result t)) data"
proof (induction ds arbitrary: data m)
  case Nil
  then show ?case by simp
next
  case (Cons d ds)
  obtain r1 data1 m1 where p: "firmware_write_resource d data m = Inr (r1, data1, m1)"
    using Cons.prems by (auto elim!: bindE_Inr_E)
  have "map_option (\<lambda>t. (state t, result t)) data1 = map_option (\<lambda>t. (state t, result t)) data"
    using p by (auto simp: firmware_write_resource_def Let_def elim!: bindE_Inr_E
        split: if_splits option.splits)
  then show ?case using Cons p by (auto split: if_splits)
qed

lemma firmware_write_keeps:
  "prv_firmware_write iid ds obj m = Inr (r, obj', m') \<Longrightarrow> firmware_phase obj' = firmware_phase obj"
  by (auto simp: prv_firmware_write_def firmware_phase_def elim!: bindE_Inr_E
      dest!: firmware_write_phase split: if_splits)

lemma firmware_execute_moves:
  "prv_firmware_execute iid rid n obj = Inr (r, obj') \<Longrightarrow>
   firmware_phase obj' = firmware_phase obj
   \<or> (\<exists>x. firmware_phase obj = Some (1, x) \<and> firmware_phase obj' = Some (2, x))"
  by (auto simp: prv_firmware_execute_def firmware_phase_def elim!: bindE_Inr_E split: if_splits)

lemma firmware_step_phase:
  "firmware_step obj obj' \<Longrightarrow> firmware_phase obj' = firmware_phase obj
   \<or> (\<exists>x. firmware_phase obj = Some (1, x) \<and> firmware_phase obj' = Some (2, x))"
  by (erule firmware_stepE) (blast dest: firmware_write_keeps firmware_execute_moves)+

interpretation firmware_running: step_invariant firmware_step "\<lambda>obj. firmware_phase obj = Some (2, x)"
  by unfold_locales (auto dest: firmware_step_phase)

interpretation firmware_reachable: step_invariant firmware_step
    "\<lambda>obj. firmware_phase obj \<in> {Some (1, 0), Some (2, 0)}"
  by unfold_locales (auto dest: firmware_step_phase)

text \<open>
  The update state of a new firmware object only ever goes from 1 (idle) to 2 (downloading), and
  the update result stays 0.
\<close>

theorem firmware_states:
  assumes "get_object_firmware m = (Some obj, m')" and "firmware_step\<^sup>*\<^sup>* obj obj'"
  shows "firmware_phase obj' \<in> {Some (1, 0), Some (2, 0)}"
proof -
  have "firmware_phase obj \<in> {Some (1, 0), Some (2, 0)}"
    using assms(1) by (auto simp: get_object_firmware_def firmware_phase_def split: prod.splits bool.splits)
  then show ?thesis by (rule firmware_reachable.run_inv [OF assms(2)])
qed

lemma firmware_states_witness:
  "\<exists>obj obj'. get_object_firmware [] = (Some obj, []) \<and> prv_firmware_execute 0 2 0 obj = Inr (COAP_204_CHANGED, obj')
    \<and> firmware_phase obj' \<in> {Some (1, 0), Some (2, 0)}"
proof -
  obtain obj where obj: "get_object_firmware [] = (Some obj, [])" by (simp add: get_object_firmware_def)
  obtain obj' where x: "prv_firmware_execute 0 2 0 obj = Inr (COAP_204_CHANGED, obj')"
    using obj by (auto simp: get_object_firmware_def prv_firmware_execute_def)
  show ?thesis
    using obj x firmware_states [OF obj r_into_rtranclp, OF firmware_step_execute [OF x]] by blast
qed

text \<open>
  An accepted update locks the object: no sequence of later callbacks leaves the state 2, and
  every further update is refused with 4.00.
\<close>

theorem firmware_update_once:
  assumes "prv_firmware_execute 0 2 0 obj = Inr (COAP_204_CHANGED, obj1)"
    and "firmware_step\<^sup>*\<^sup>* obj1 obj2"
  shows "prv_firmware_execute 0 2 0 obj2 = Inr (COAP_400_BAD_REQUEST, obj2)"
proof -
  have "\<exists>x. firmware_phase obj1 = Some (2, x)"
    using assms(1)
    by (auto simp: prv_firmware_execute_def firmware_phase_def elim!: bindE_Inr_E split: if_splits)
  then obtain x where "firmware_phase obj2 = Some (2, x)"
    using firmware_running.run_inv [OF assms(2)] by blast
  then show ?thesis by (auto simp: firmware_phase_def prv_firmware_execute_def)
qed

lemma firmware_update_once_witness:
  "\<exists>obj obj1. get_object_firmware [] = (Some obj, []) \<and> prv_firmware_execute 0 2 0 obj = Inr (COAP_204_CHANGED, obj1)
    \<and> prv_firmware_execute 0 2 0 obj1 = Inr (COAP_400_BAD_REQUEST, obj1)"
proof -
  obtain obj where obj: "get_object_firmware [] = (Some obj, [])" by (simp add: get_object_firmware_def)
  obtain obj1 where x: "prv_firmware_execute 0 2 0 obj = Inr (COAP_204_CHANGED, obj1)"
    using obj by (auto simp: get_object_firmware_def prv_firmware_execute_def)
  show ?thesis using obj x firmware_update_once [OF x rtranclp.rtrancl_refl] by blast
qed

end
