(* ===== verification/Object_ConnStat.thy ===== *)
theory Object_ConnStat
imports Lwm2m_Object
begin

text \<open>The connectivity statistics object of \<^verbatim>\<open>app/lwm2m/object_connectivity_stat.c\<close>.\<close>

section \<open>State\<close>

record conn_s_data =
  smsTxCounter :: i64
  smsRxCounter :: i64
  txDataByte :: i64
  rxDataByte :: i64
  maxMessageSize :: i64
  avrMessageSize :: i64
  messageCount :: i64
  collectDataStarted :: bool

type_synonym conn_s_object = "(u16, conn_s_data) lwm2m_object"

definition CONN_S_RESOURCES :: "u16 list" where
  "CONN_S_RESOURCES = [0, 1, 2, 3, 4, 5]"

text \<open>\<^verbatim>\<open>int64_t\<close> division: truncated, undefined for a zero divisor.\<close>

definition div_i64 :: "i64 \<Rightarrow> i64 \<Rightarrow> i64 res" where
  "div_i64 a b =
     (if b = 0 then Inl DivByZero
      else fits_i64 (sgn (sint a) * sgn (sint b) * (\<bar>sint a\<bar> div \<bar>sint b\<bar>)))"

section \<open>The callbacks\<close>

definition prv_set_tlv ::
    "conn_s_data option \<Rightarrow> lwm2m_data \<Rightarrow> mem \<Rightarrow> (byte \<times> lwm2m_data \<times> mem) res" where
  "prv_set_tlv data d m =
     (let i = data_id d;
          int = (\<lambda>f. bindE (deref data) (\<lambda>t. bindE (f t) (\<lambda>v.
                  Inr (COAP_205_CONTENT, lwm2m_data_encode_int v d, m)))) in
      if i = 0 then int (\<lambda>t. Inr (smsTxCounter t))
      else if i = 1 then int (\<lambda>t. Inr (smsRxCounter t))
      else if i = 2 then int (\<lambda>t. div_i64 (txDataByte t) 1024)
      else if i = 3 then int (\<lambda>t. div_i64 (rxDataByte t) 1024)
      else if i = 4 then int (\<lambda>t. Inr (maxMessageSize t))
      else if i = 5 then int (\<lambda>t. Inr (avrMessageSize t))
      else Inr (COAP_404_NOT_FOUND, d, m))"

definition prv_read ::
    "u16 \<Rightarrow> lwm2m_data list \<Rightarrow> conn_s_object \<Rightarrow> mem \<Rightarrow> (byte \<times> lwm2m_data list \<times> mem) res" where
  "prv_read iid ds obj m =
     (if iid \<noteq> 0 then Inr (COAP_404_NOT_FOUND, ds, m)
      else case requested CONN_S_RESOURCES ds m of
        (None, m1) \<Rightarrow> Inr (COAP_500_INTERNAL_SERVER_ERROR, [], m1)
      | (Some ds', m1) \<Rightarrow> read_loop (prv_set_tlv (userData obj)) ds' m1)"

definition prv_resetCounter :: "bool \<Rightarrow> conn_s_data" where
  "prv_resetCounter start = \<lparr>smsTxCounter = 0, smsRxCounter = 0, txDataByte = 0, rxDataByte = 0,
     maxMessageSize = 0, avrMessageSize = 0, messageCount = 0, collectDataStarted = start\<rparr>"

definition prv_exec :: "u16 \<Rightarrow> u16 \<Rightarrow> nat \<Rightarrow> conn_s_object \<Rightarrow> (byte \<times> conn_s_object) res" where
  "prv_exec iid rid n obj =
     (if iid \<noteq> 0 then Inr (COAP_404_NOT_FOUND, obj)
      else if n \<noteq> 0 then Inr (COAP_400_BAD_REQUEST, obj)
      else if rid = 6 then
        bindE (deref (userData obj)) (\<lambda>_.
          Inr (COAP_204_CHANGED, obj\<lparr>userData := Some (prv_resetCounter True)\<rparr>))
      else Inr (COAP_405_METHOD_NOT_ALLOWED, obj))"

section \<open>Updates\<close>

definition conn_s_updateTxStatistic :: "u16 \<Rightarrow> bool \<Rightarrow> conn_s_data \<Rightarrow> conn_s_data res" where
  "conn_s_updateTxStatistic n smsBased t =
     (if \<not> collectDataStarted t then Inr t
      else
        bindE (add_i64 (txDataByte t) (ucast n)) (\<lambda>tx.
        bindE (add_i64 (messageCount t) 1) (\<lambda>count.
        bindE (add_i64 tx (rxDataByte t)) (\<lambda>total.
        bindE (div_i64 total count) (\<lambda>avr.
        bindE (if smsBased then add_i64 (smsTxCounter t) 1 else Inr (smsTxCounter t)) (\<lambda>sms.
          Inr (t\<lparr>txDataByte := tx, messageCount := count, avrMessageSize := avr,
                maxMessageSize := (if sint (maxMessageSize t) < uint n then ucast n else maxMessageSize t),
                smsTxCounter := sms\<rparr>)))))))"

text \<open>The received bytes are also added to the transmitted ones, after the average is computed.\<close>

definition conn_s_updateRxStatistic :: "u16 \<Rightarrow> bool \<Rightarrow> conn_s_data \<Rightarrow> conn_s_data res" where
  "conn_s_updateRxStatistic n smsBased t =
     (if \<not> collectDataStarted t then Inr t
      else
        bindE (add_i64 (rxDataByte t) (ucast n)) (\<lambda>rx.
        bindE (add_i64 (messageCount t) 1) (\<lambda>count.
        bindE (add_i64 (txDataByte t) rx) (\<lambda>total.
        bindE (div_i64 total count) (\<lambda>avr.
        bindE (add_i64 (txDataByte t) (ucast n)) (\<lambda>tx.
        bindE (if smsBased then add_i64 (smsRxCounter t) 1 else Inr (smsRxCounter t)) (\<lambda>sms.
          Inr (t\<lparr>rxDataByte := rx, messageCount := count, avrMessageSize := avr,
                maxMessageSize := (if sint (maxMessageSize t) < uint n then ucast n else maxMessageSize t),
                txDataByte := tx, smsRxCounter := sms\<rparr>))))))))"

section \<open>The object\<close>

definition get_object_conn_s :: "mem \<Rightarrow> conn_s_object option \<times> mem" where
  "get_object_conn_s m =
     (case alloc_single m of
        (False, m1) \<Rightarrow> (None, m1)
      | (True, m1) \<Rightarrow>
          (Some \<lparr>objID = 7, instanceList = [0], userData = Some (prv_resetCounter False),
                 callbacks = [READ, EXECUTE]\<rparr>, m1))"

definition free_object_conn_s :: "conn_s_object \<Rightarrow> conn_s_object option" where
  "free_object_conn_s obj = None"

section \<open>Runs of messages\<close>

text \<open>A message of the traffic: its size and whether it went by SMS.\<close>

datatype traffic = Tx u16 bool | Rx u16 bool

fun traffic_size :: "traffic \<Rightarrow> int" where
  "traffic_size (Tx n _) = uint n"
| "traffic_size (Rx n _) = uint n"

fun traffic_received :: "traffic \<Rightarrow> int" where
  "traffic_received (Tx n _) = 0"
| "traffic_received (Rx n _) = uint n"

fun conn_s_update :: "traffic \<Rightarrow> conn_s_data \<Rightarrow> conn_s_data res" where
  "conn_s_update (Tx n b) t = conn_s_updateTxStatistic n b t"
| "conn_s_update (Rx n b) t = conn_s_updateRxStatistic n b t"

fun conn_s_run :: "traffic list \<Rightarrow> conn_s_data \<Rightarrow> conn_s_data res" where
  "conn_s_run [] t = Inr t"
| "conn_s_run (e # es) t = bindE (conn_s_update e t) (conn_s_run es)"

lemma conn_s_run_append:
  "conn_s_run (xs @ ys) t = bindE (conn_s_run xs t) (conn_s_run ys)"
proof (induction xs arbitrary: t)
  case (Cons e xs)
  then show ?case by (cases "conn_s_update e t") simp_all
qed simp

lemma fits_i64_nonneg:
  "0 \<le> n \<Longrightarrow> n < 2 ^ 63 \<Longrightarrow> fits_i64 n = Inr (word_of_int n) \<and> sint (word_of_int n :: i64) = n"
  by (simp add: fits_i64_def signed_take_bit_int_eq_self signed_of_int)

lemma add_i64_nonneg:
  "0 \<le> sint a \<Longrightarrow> 0 \<le> sint b \<Longrightarrow> sint a + sint b < 2 ^ 63 \<Longrightarrow>
   \<exists>c. add_i64 a b = Inr c \<and> sint c = sint a + sint b"
  using fits_i64_nonneg [of "sint a + sint b"] by (auto simp: add_i64_def)

lemma div_i64_nonneg:
  assumes "0 \<le> sint a" and "0 < sint b"
  shows "\<exists>c. div_i64 a b = Inr c \<and> sint c = sint a div sint b"
proof -
  have "0 \<le> sint a div sint b" using assms by (simp add: pos_imp_zdiv_nonneg_iff)
  moreover have "sint a div sint b \<le> sint a" using assms zdiv_mono2 [of "sint a" 1 "sint b"] by simp
  moreover have "sint a < 2 ^ 63" by (rule sint64_bounds)
  ultimately have "fits_i64 (sint a div sint b) = Inr (word_of_int (sint a div sint b))"
    "sint (word_of_int (sint a div sint b) :: i64) = sint a div sint b"
    using fits_i64_nonneg [of "sint a div sint b"] by linarith+
  moreover have "b \<noteq> 0" using assms(2) by auto
  ultimately show ?thesis using assms
    by (cases "sint a = 0") (auto simp: div_i64_def)
qed

lemma uint16_bound: "0 \<le> uint (n :: u16)" "uint (n :: u16) < 65536"
  using unsigned_less [of n, where ?'a = int] by simp_all

lemma sint_ucast16: "sint (ucast (n :: u16) :: i64) = uint n"
proof -
  have "(ucast n :: i64) = word_of_int (uint n)" by simp
  then show ?thesis using fits_i64_nonneg [of "uint n"] uint16_bound [of n] by simp
qed

text \<open>
  The counters of a running collection after the messages \<open>es\<close>: what \<^verbatim>\<open>txDataByte\<close>, \<^verbatim>\<open>rxDataByte\<close>,
  \<^verbatim>\<open>messageCount\<close> and \<^verbatim>\<open>maxMessageSize\<close> hold.
\<close>

definition counters :: "conn_s_data \<Rightarrow> int \<times> int \<times> int \<times> int" where
  "counters t = (sint (txDataByte t), sint (rxDataByte t), sint (messageCount t), sint (maxMessageSize t))"

text \<open>Room left for \<open>k\<close> more messages without overflow.\<close>

definition room :: "nat \<Rightarrow> conn_s_data \<Rightarrow> bool" where
  "room k t \<longleftrightarrow> collectDataStarted t
     \<and> 0 \<le> sint (txDataByte t) \<and> sint (txDataByte t) + 65536 * int k \<le> 2 ^ 61
     \<and> 0 \<le> sint (rxDataByte t) \<and> sint (rxDataByte t) + 65536 * int k \<le> 2 ^ 61
     \<and> 0 \<le> sint (messageCount t) \<and> sint (messageCount t) + int k \<le> 2 ^ 61
     \<and> 0 \<le> sint (smsTxCounter t) \<and> sint (smsTxCounter t) + int k \<le> 2 ^ 61
     \<and> 0 \<le> sint (smsRxCounter t) \<and> sint (smsRxCounter t) + int k \<le> 2 ^ 61"

lemma update_tx:
  assumes "room (Suc k) t"
  shows "\<exists>t'. conn_s_updateTxStatistic n b t = Inr t' \<and> room k t'
    \<and> counters t' = (sint (txDataByte t) + uint n, sint (rxDataByte t), sint (messageCount t) + 1,
        max (sint (maxMessageSize t)) (uint n))
    \<and> sint (avrMessageSize t') = (sint (txDataByte t) + uint n + sint (rxDataByte t)) div (sint (messageCount t) + 1)"
proof -
  note r = assms [unfolded room_def] and n = uint16_bound [of n]
  obtain tx where tx: "add_i64 (txDataByte t) (ucast n) = Inr tx" "sint tx = sint (txDataByte t) + uint n"
    using add_i64_nonneg [of "txDataByte t" "ucast n"] r n by (auto simp: sint_ucast16)
  obtain c where c: "add_i64 (messageCount t) 1 = Inr c" "sint c = sint (messageCount t) + 1"
    using add_i64_nonneg [of "messageCount t" 1] r by auto
  obtain tot where tot: "add_i64 tx (rxDataByte t) = Inr tot" "sint tot = sint tx + sint (rxDataByte t)"
    using add_i64_nonneg [of tx "rxDataByte t"] r n tx(2) by auto
  obtain a where a: "div_i64 tot c = Inr a" "sint a = sint tot div sint c"
    using div_i64_nonneg [of tot c] r n tx(2) tot(2) c(2) by auto
  obtain s where s: "add_i64 (smsTxCounter t) 1 = Inr s" "sint s = sint (smsTxCounter t) + 1"
    using add_i64_nonneg [of "smsTxCounter t" 1] r by auto
  show ?thesis
    using r n tx c tot a s
    by (auto simp: conn_s_updateTxStatistic_def counters_def room_def sint_ucast16)
qed

lemma update_rx:
  assumes "room (Suc k) t"
  shows "\<exists>t'. conn_s_updateRxStatistic n b t = Inr t' \<and> room k t'
    \<and> counters t' = (sint (txDataByte t) + uint n, sint (rxDataByte t) + uint n, sint (messageCount t) + 1,
        max (sint (maxMessageSize t)) (uint n))
    \<and> sint (avrMessageSize t') = (sint (txDataByte t) + (sint (rxDataByte t) + uint n)) div (sint (messageCount t) + 1)"
proof -
  note r = assms [unfolded room_def] and n = uint16_bound [of n]
  obtain rx where rx: "add_i64 (rxDataByte t) (ucast n) = Inr rx" "sint rx = sint (rxDataByte t) + uint n"
    using add_i64_nonneg [of "rxDataByte t" "ucast n"] r n by (auto simp: sint_ucast16)
  obtain tx where tx: "add_i64 (txDataByte t) (ucast n) = Inr tx" "sint tx = sint (txDataByte t) + uint n"
    using add_i64_nonneg [of "txDataByte t" "ucast n"] r n by (auto simp: sint_ucast16)
  obtain c where c: "add_i64 (messageCount t) 1 = Inr c" "sint c = sint (messageCount t) + 1"
    using add_i64_nonneg [of "messageCount t" 1] r by auto
  obtain tot where tot: "add_i64 (txDataByte t) rx = Inr tot" "sint tot = sint (txDataByte t) + sint rx"
    using add_i64_nonneg [of "txDataByte t" rx] r n rx(2) by auto
  obtain a where a: "div_i64 tot c = Inr a" "sint a = sint tot div sint c"
    using div_i64_nonneg [of tot c] r n rx(2) tot(2) c(2) by auto
  obtain s where s: "add_i64 (smsRxCounter t) 1 = Inr s" "sint s = sint (smsRxCounter t) + 1"
    using add_i64_nonneg [of "smsRxCounter t" 1] r by auto
  show ?thesis
    using r n rx tx c tot a s
    by (auto simp: conn_s_updateRxStatistic_def counters_def room_def sint_ucast16)
qed

lemma run_counters:
  "room (length es + k) t \<Longrightarrow> \<exists>t'. conn_s_run es t = Inr t' \<and> room k t'
    \<and> counters t' = (sint (txDataByte t) + sum_list (map traffic_size es),
        sint (rxDataByte t) + sum_list (map traffic_received es),
        sint (messageCount t) + int (length es),
        fold (\<lambda>e x. max x (traffic_size e)) es (sint (maxMessageSize t)))"
proof (induction es arbitrary: t)
  case Nil
  then show ?case by (simp add: counters_def)
next
  case (Cons e es)
  then have r: "room (Suc (length es + k)) t" by simp
  show ?case
  proof (cases e)
    case (Tx n b)
    obtain t1 where "conn_s_updateTxStatistic n b t = Inr t1" "room (length es + k) t1"
      "counters t1 = (sint (txDataByte t) + uint n, sint (rxDataByte t), sint (messageCount t) + 1,
        max (sint (maxMessageSize t)) (uint n))" using update_tx [OF r] by blast
    then show ?thesis using Cons.IH [of t1] Tx by (auto simp: counters_def)
  next
    case (Rx n b)
    obtain t1 where "conn_s_updateRxStatistic n b t = Inr t1" "room (length es + k) t1"
      "counters t1 = (sint (txDataByte t) + uint n, sint (rxDataByte t) + uint n, sint (messageCount t) + 1,
        max (sint (maxMessageSize t)) (uint n))" using update_rx [OF r] by blast
    then show ?thesis using Cons.IH [of t1] Rx by (auto simp: counters_def)
  qed
qed

lemma room_reset: "k \<le> 2 ^ 40 \<Longrightarrow> room k (prv_resetCounter True)"
  by (simp add: room_def prv_resetCounter_def)

section \<open>Properties\<close>

text \<open>
  After a reset and at most 2^40 messages nothing has overflowed, the message count and the
  largest size are those of the messages and the received bytes are counted right; the
  transmitted bytes are the bytes of all messages, sent and received.
\<close>

theorem conn_s_totals:
  assumes "length es \<le> 2 ^ 40"
  shows "\<exists>t. conn_s_run es (prv_resetCounter True) = Inr t
    \<and> sint (messageCount t) = int (length es)
    \<and> sint (maxMessageSize t) = fold (\<lambda>e x. max x (traffic_size e)) es 0
    \<and> sint (rxDataByte t) = sum_list (map traffic_received es)
    \<and> sint (txDataByte t) = sum_list (map traffic_size es)"
  using run_counters [of es 0 "prv_resetCounter True"] room_reset [OF assms] by (auto simp: counters_def prv_resetCounter_def)

lemma conn_s_totals_witness:
  "\<exists>t. conn_s_run [Tx 10 False, Rx 30 True] (prv_resetCounter True) = Inr t
    \<and> sint (rxDataByte t) = 30 \<and> sint (txDataByte t) = 40"
  using conn_s_totals [of "[Tx 10 False, Rx 30 True]"] by auto

text \<open>
  The average is wrong for received messages: after \<open>k\<close> messages of \<open>n\<close> bytes each it is
  \<open>(2 k - 1) n / k\<close>, close to twice the size of every one of them.
\<close>

theorem conn_s_average:
  assumes "0 < k" and "k \<le> 2 ^ 40"
  shows "\<exists>t. conn_s_run (replicate k (Rx n b)) (prv_resetCounter True) = Inr t
    \<and> sint (avrMessageSize t) = ((2 * int k - 1) * uint n) div int k"
proof -
  obtain j where k: "k = Suc j" using assms(1) by (cases k) auto
  have split: "replicate k (Rx n b) = replicate j (Rx n b) @ [Rx n b]"
    by (simp add: k replicate_append_same)
  have sums: "sum_list (map traffic_size (replicate j (Rx n b))) = int j * uint n"
    "sum_list (map traffic_received (replicate j (Rx n b))) = int j * uint n"
    by (simp_all add: sum_list_replicate)
  obtain t where t: "conn_s_run (replicate j (Rx n b)) (prv_resetCounter True) = Inr t" "room (Suc 0) t"
    and c: "counters t = (int j * uint n, int j * uint n, int j,
        fold (\<lambda>e x. max x (traffic_size e)) (replicate j (Rx n b)) 0)"
    using run_counters [of "replicate j (Rx n b)" "Suc 0" "prv_resetCounter True"]
      assms(2) room_reset [of "Suc j"] sums
    by (auto simp: k prv_resetCounter_def)
  have s: "sint (txDataByte t) = int j * uint n" "sint (rxDataByte t) = int j * uint n"
    "sint (messageCount t) = int j" using c by (simp_all add: counters_def)
  obtain t' where t': "conn_s_updateRxStatistic n b t = Inr t'"
    "sint (avrMessageSize t') = (int j * uint n + (int j * uint n + uint n)) div (int j + 1)"
    using update_rx [OF t(2), of n b] s by auto
  have "int j * uint n + (int j * uint n + uint n) = (2 * int k - 1) * uint n"
    by (simp add: k algebra_simps)
  then have "sint (avrMessageSize t') = ((2 * int k - 1) * uint n) div int k"
    using t'(2) by (simp add: k add.commute)
  moreover have "conn_s_run (replicate k (Rx n b)) (prv_resetCounter True) = Inr t'"
    using t(1) t'(1) by (simp only: split conn_s_run_append) simp
  ultimately show ?thesis by blast
qed

lemma conn_s_average_witness:
  "\<exists>t. conn_s_run (replicate 2 (Rx 100 False)) (prv_resetCounter True) = Inr t
    \<and> sint (avrMessageSize t) = 150"
  using conn_s_average [of 2 100 False] by simp

end
