(* ===== verification/Object_Location.thy ===== *)
theory Object_Location
imports Lwm2m_Object
begin

text \<open>
  The location object of \<^verbatim>\<open>app/lwm2m/object_location.c\<close>. A \<^verbatim>\<open>float\<close> is its bit pattern; \<^verbatim>\<open>unsigned
  long\<close> has 32 bits, as on the STM32 target.
\<close>

unbundle bit_operations_syntax

section \<open>State\<close>

record location_data =
  latitude :: cfloat
  longitude :: cfloat
  altitude :: cfloat
  radius :: cfloat
  velocity :: "byte list"      \<comment> \<open>\<^verbatim>\<open>uint8_t velocity[5]\<close>\<close>
  timestamp :: u32
  speed :: cfloat

type_synonym location_object = "(u16, location_data) lwm2m_object"

definition LOCATION_RESOURCES :: "u16 list" where
  "LOCATION_RESOURCES = [0, 1, 2, 3, 4, 5, 6]"

section \<open>Read\<close>

text \<open>The velocity is read as a C string.\<close>

definition prv_res2tlv ::
    "location_data option \<Rightarrow> lwm2m_data \<Rightarrow> mem \<Rightarrow> (byte \<times> lwm2m_data \<times> mem) res" where
  "prv_res2tlv loc d m =
     (let i = data_id d;
          float = (\<lambda>f. bindE (deref loc) (\<lambda>t.
                    Inr (COAP_205_CONTENT, lwm2m_data_encode_float (float_to_double (f t)) d, m))) in
      if i = 0 then float latitude
      else if i = 1 then float longitude
      else if i = 2 then float altitude
      else if i = 3 then float radius
      else if i = 4 then
        bindE (deref loc) (\<lambda>t. bindE (c_string (velocity t)) (\<lambda>s.
          Inr (COAP_205_CONTENT, lwm2m_data_encode_string s d m)))
      else if i = 5 then
        bindE (deref loc) (\<lambda>t.
          Inr (COAP_205_CONTENT, lwm2m_data_encode_int (ucast (timestamp t)) d, m))
      else if i = 6 then float speed
      else Inr (COAP_404_NOT_FOUND, d, m))"

definition prv_location_read ::
    "u16 \<Rightarrow> lwm2m_data list \<Rightarrow> location_object \<Rightarrow> mem \<Rightarrow> (byte \<times> lwm2m_data list \<times> mem) res" where
  "prv_location_read iid ds obj m =
     (if iid \<noteq> 0 then Inr (COAP_404_NOT_FOUND, ds, m)
      else case requested LOCATION_RESOURCES ds m of
        (None, m1) \<Rightarrow> Inr (COAP_500_INTERNAL_SERVER_ERROR, [], m1)
      | (Some ds', m1) \<Rightarrow> read_loop (prv_res2tlv (userData obj)) ds' m1)"

section \<open>Local updates\<close>

text \<open>
  The five octets of the 3GPP velocity. The first is assigned twice: the second assignment, of the
  top bit of the bearing, replaces the velocity type.
\<close>

definition velocity_octets :: "u16 \<Rightarrow> u16 \<Rightarrow> byte \<Rightarrow> byte list" where
  "velocity_octets bearing horizontalSpeed speedUncertainty =
     (let v = replicate 5 (0 :: byte);
          v = v[0 := push_bit 4 2];
          v = v[0 := ucast (drop_bit 8 (bearing AND 0x100))];
          v = v[1 := ucast (bearing AND 0xFF)];
          v = v[2 := ucast (drop_bit 8 horizontalSpeed)];
          v = v[3 := ucast (horizontalSpeed AND 0xFF)] in
      v[4 := speedUncertainty])"

definition location_setVelocity ::
    "location_object \<Rightarrow> u16 \<Rightarrow> u16 \<Rightarrow> byte \<Rightarrow> location_object res" where
  "location_setVelocity obj bearing horizontalSpeed speedUncertainty =
     bindE (deref (userData obj)) (\<lambda>t.
       Inr (obj\<lparr>userData := Some (t\<lparr>velocity :=
         velocity_octets bearing horizontalSpeed speedUncertainty\<rparr>)\<rparr>))"

definition location_setLocationAtTime ::
    "location_object \<Rightarrow> cfloat \<Rightarrow> cfloat \<Rightarrow> cfloat \<Rightarrow> 64 word \<Rightarrow> location_object res" where
  "location_setLocationAtTime obj lat lon alt ts =
     bindE (deref (userData obj)) (\<lambda>t.
       Inr (obj\<lparr>userData := Some (t\<lparr>latitude := lat, longitude := lon, altitude := alt,
         timestamp := ucast ts\<rparr>)\<rparr>))"

text \<open>The initial coordinates are the patterns of 27.986065, 86.922623 and 8495 as \<^verbatim>\<open>float\<close>.\<close>

definition get_object_location :: "i64 \<Rightarrow> mem \<Rightarrow> location_object option \<times> mem" where
  "get_object_location now m =
     (case alloc_single m of
        (False, m1) \<Rightarrow> (None, m1)
      | (True, m1) \<Rightarrow>
          (Some \<lparr>objID = 6, instanceList = [0],
             userData = Some \<lparr>latitude = 0x41DFE376, longitude = 0x42ADD862, altitude = 0x4604BC00,
               radius = 0, velocity = velocity_octets 0 0 255, timestamp = ucast now, speed = 0\<rparr>,
             callbacks = [READ]\<rparr>, m1))"

definition free_object_location :: "location_object \<Rightarrow> location_object option" where
  "free_object_location obj = None"

section \<open>Properties\<close>

lemma bearing_bit:
  "(ucast (drop_bit 8 ((b :: u16) AND 0x100)) :: byte) = (if bit b 8 then 1 else 0)"
proof (rule bit_word_eqI)
  fix n assume n: "n < LENGTH(8)"
  have "bit (0x100 :: u16) (8 + n) \<longleftrightarrow> n = 0" using n by (auto simp: less_Suc_eq numeral_eq_Suc)
  then show "bit (ucast (drop_bit 8 (b AND 0x100)) :: byte) n = bit (if bit b 8 then 1 else 0 :: byte) n"
    using n by (auto simp: bit_ucast_iff bit_drop_bit_eq bit_and_iff bit_1_iff)
qed

lemma velocity_octets_list:
  "velocity_octets b h u = [if bit b 8 then 1 else 0, ucast (b AND 0xFF),
     ucast (drop_bit 8 h), ucast (h AND 0xFF), u]"
  by (simp only: velocity_octets_def Let_def bearing_bit) (simp add: eval_nat_numeral)

text \<open>
  The velocity never carries the type the comments announce (horizontal velocity with
  uncertainty, 2 in the upper half of the first octet): the upper half is 0, and for a bearing
  below 256 degrees the whole first octet is, so that a read of the resource, which treats the
  octets as a C string, answers with the empty string whatever the speed.
\<close>

theorem location_velocity_lost:
  assumes "userData obj = Some t"
  shows "\<exists>obj' v. location_setVelocity obj bearing spd unc = Inr obj'
    \<and> map_option velocity (userData obj') = Some v \<and> v ! 0 AND 0xF0 = 0
    \<and> (\<not> bit bearing 8 \<longrightarrow> prv_location_read 0 [Data 4 V_undefined] obj' []
          = Inr (COAP_205_CONTENT, [Data 4 (V_string [])], []))"
  using assms
  by (auto simp: location_setVelocity_def velocity_octets_list prv_location_read_def
      prv_res2tlv_def c_string_def)

lemma location_velocity_lost_witness:
  "\<exists>obj obj'. get_object_location 7 [] = (Some obj, [])
    \<and> location_setVelocity obj 90 120 3 = Inr obj'
    \<and> prv_location_read 0 [Data 4 V_undefined] obj' [] = Inr (COAP_205_CONTENT, [Data 4 (V_string [])], [])"
proof -
  obtain obj where obj: "get_object_location 7 [] = (Some obj, [])" by (simp add: get_object_location_def)
  then obtain t where "userData obj = Some t" by (auto simp: get_object_location_def)
  then show ?thesis using obj location_velocity_lost [of obj t 90 120 3] by auto
qed

text \<open>
  A velocity without a zero octet is read past its array: from a bearing of 257 degrees on, with
  both speed octets and the uncertainty not 0.
\<close>

theorem location_velocity_overread:
  assumes "userData obj = Some t" and "bit bearing 8"
    and "0 \<notin> set [ucast (drop_bit 8 spd), ucast (spd AND 0xFF), unc]"
    and "(ucast (bearing AND 0xFF) :: byte) \<noteq> 0"
  shows "bindE (location_setVelocity obj bearing spd unc) (\<lambda>obj'.
      prv_location_read 0 [Data 4 V_undefined] obj' []) = Inl OutOfBounds"
  using assms
  by (auto simp: location_setVelocity_def velocity_octets_list prv_location_read_def
      prv_res2tlv_def c_string_def)

lemma location_velocity_overread_witness:
  "bindE (location_setVelocity \<lparr>objID = 6, instanceList = [0], userData = Some
       \<lparr>latitude = 0, longitude = 0, altitude = 0, radius = 0, velocity = [0, 0, 0, 0, 0],
        timestamp = 0, speed = 0\<rparr>, callbacks = []\<rparr> 300 257 5)
     (\<lambda>obj'. prv_location_read 0 [Data 4 V_undefined] obj' []) = Inl OutOfBounds"
  by (rule location_velocity_overread [where t = "\<lparr>latitude = 0, longitude = 0, altitude = 0,
      radius = 0, velocity = [0, 0, 0, 0, 0], timestamp = 0, speed = 0\<rparr>"]) simp_all

end
