(* ===== verification/C_Float.thy ===== *)
theory C_Float
imports C_Text Ieee
begin

text \<open>
  \<^verbatim>\<open>sscanf(s, "%f", &value)\<close>: the C grammar of floating point input, read as the longest prefix of an
  accepted sequence, and the conversion to the nearest float.
\<close>

section \<open>The parts of a number\<close>

definition lower :: "byte \<Rightarrow> byte" where
  "lower c = (if 65 \<le> c \<and> c \<le> 90 then c + 32 else c)"

definition is_hex_byte :: "byte \<Rightarrow> bool" where
  "is_hex_byte c \<longleftrightarrow> is_digit_byte c \<or> (97 \<le> lower c \<and> lower c \<le> 102)"

definition hex_value :: "byte \<Rightarrow> int" where
  "hex_value c = (if is_digit_byte c then uint c - 48 else uint (lower c) - 87)"

text \<open>The value of a digit string to a base, continuing from \<open>v\<close>.\<close>

fun digits_value :: "int \<Rightarrow> int \<Rightarrow> byte list \<Rightarrow> int" where
  "digits_value base v [] = v"
| "digits_value base v (c # cs) = digits_value base (base * v + hex_value c) cs"

text \<open>
  Digits, a dot, digits: the two parts and the rest. The dot belongs to the number whatever
  follows it.
\<close>

definition split_point :: "(byte \<Rightarrow> bool) \<Rightarrow> byte list \<Rightarrow> byte list \<times> byte list \<times> byte list" where
  "split_point digit t =
     (let whole = takeWhile digit t; r = dropWhile digit t in
      if r \<noteq> [] \<and> hd r = 46 then (whole, takeWhile digit (tl r), dropWhile digit (tl r))
      else (whole, [], r))"

text \<open>
  The exponent behind the letter \<open>e\<close>: 0 when it is not there, \<open>None\<close> when the letter is there and no
  digits follow.
\<close>

definition exponent :: "byte \<Rightarrow> byte list \<Rightarrow> int option" where
  "exponent e r =
     (if r = [] \<or> lower (hd r) \<noteq> e then Some 0
      else case signed_digits (tl r) of (neg, t) \<Rightarrow>
        let ds = takeWhile is_digit_byte t in
        if ds = [] then None
        else Some (if neg then - int (decimal_from 0 ds) else int (decimal_from 0 ds)))"

text \<open>\<open>mantissa * base ^ k\<close> as a float.\<close>

definition float_power :: "bool \<Rightarrow> int \<Rightarrow> int \<Rightarrow> int \<Rightarrow> cfloat" where
  "float_power neg mantissa base k =
     (if 0 \<le> k then float_of_ratio neg (mantissa * base ^ nat k) 1
      else float_of_ratio neg mantissa (base ^ nat (- k)))"

definition scan_numeral :: "bool \<Rightarrow> byte list \<Rightarrow> cfloat option" where
  "scan_numeral neg t =
     (if 2 \<le> length t \<and> t ! 0 = 48 \<and> lower (t ! 1) = 120 then
        (case split_point is_hex_byte (drop 2 t) of (w, f, r) \<Rightarrow>
           if w @ f = [] then None
           else map_option (\<lambda>k. float_power neg (digits_value 16 0 (w @ f)) 2 (k - 4 * int (length f)))
             (exponent 112 r))
      else
        (case split_point is_digit_byte t of (w, f, r) \<Rightarrow>
           if w @ f = [] then None
           else map_option (\<lambda>k. float_power neg (digits_value 10 0 (w @ f)) 10 (k - int (length f)))
             (exponent 101 r)))"

section \<open>Infinity and NaN\<close>

text \<open>How many characters of \<open>t\<close> agree with a word in lower case.\<close>

fun agree :: "byte list \<Rightarrow> byte list \<Rightarrow> nat" where
  "agree (c # cs) (w # ws) = (if lower c = w then Suc (agree cs ws) else 0)"
| "agree _ _ = 0"

definition is_nan_byte :: "byte \<Rightarrow> bool" where
  "is_nan_byte c \<longleftrightarrow> is_digit_byte c \<or> (97 \<le> lower c \<and> lower c \<le> 122) \<or> c = 95"

definition scan_special :: "bool \<Rightarrow> byte list \<Rightarrow> cfloat option" where
  "scan_special neg t =
     (let s = (if neg then 2 ^ 31 else 0) in
      if agree t (bytes ''infinity'') \<in> {3, 8} then Some (s + 0x7F800000)
      else if agree t (bytes ''nan'') = 3 then
        (let r = drop 3 t in
         if r \<noteq> [] \<and> hd r = 40 then
           (let q = dropWhile is_nan_byte (tl r) in
            if q \<noteq> [] \<and> hd q = 41 then Some (s + 0x7FC00000) else None)
         else Some (s + 0x7FC00000))
      else None)"

definition scan_float :: "byte list \<Rightarrow> cfloat option res" where
  "scan_float buffer =
     bindE (c_string buffer) (\<lambda>s.
       case signed_digits (dropWhile isspace s) of (neg, t) \<Rightarrow>
         Inr (if t = [] then None
              else if lower (hd t) = 105 \<or> lower (hd t) = 110 then scan_special neg t
              else scan_numeral neg t))"

lemma scan_float_ok: "0 \<in> set b \<Longrightarrow> ok (scan_float b)"
  by (simp add: scan_float_def c_string_def split: prod.split)

end
