(* ===== verification/Lwm2m_Types.thy ===== *)
theory Lwm2m_Types
imports Ieee
begin

text \<open>
  Types of \<^verbatim>\<open>external/wakaama/liblwm2m.h\<close> that the library and the demos share: the content formats,
  and the link attributes with which a server says when it wants to be notified.
\<close>

unbundle bit_operations_syntax

text \<open>The content formats; \<open>CONTENT_OTHER\<close> holds the old numbers and every other.\<close>

datatype media_type =
    CONTENT_TEXT
  | CONTENT_LINK
  | CONTENT_OPAQUE
  | CONTENT_TLV
  | CONTENT_JSON
  | CONTENT_OTHER int

text \<open>The transports of \<^verbatim>\<open>er-coap-13.h\<close>; \<open>COAP_PROTOCOL_OTHER\<close> is any other number.\<close>

datatype coap_protocol =
    COAP_UDP
  | COAP_UDP_DTLS
  | COAP_TCP
  | COAP_TCP_TLS
  | COAP_PROTOCOL_OTHER

record lwm2m_attributes =
  toSet :: byte
  toClear :: byte
  minPeriod :: u32
  maxPeriod :: u32
  greaterThan :: double
  lessThan :: double
  step :: double

definition zero_attributes :: lwm2m_attributes where
  "zero_attributes = \<lparr>toSet = 0, toClear = 0, minPeriod = 0, maxPeriod = 0,
     greaterThan = 0, lessThan = 0, step = 0\<rparr>"

abbreviation ATTR_FLAG_MIN_PERIOD :: byte where "ATTR_FLAG_MIN_PERIOD \<equiv> 0x01"
abbreviation ATTR_FLAG_MAX_PERIOD :: byte where "ATTR_FLAG_MAX_PERIOD \<equiv> 0x02"
abbreviation ATTR_FLAG_GREATER_THAN :: byte where "ATTR_FLAG_GREATER_THAN \<equiv> 0x04"
abbreviation ATTR_FLAG_LESS_THAN :: byte where "ATTR_FLAG_LESS_THAN \<equiv> 0x08"
abbreviation ATTR_FLAG_STEP :: byte where "ATTR_FLAG_STEP \<equiv> 0x10"
abbreviation ATTR_FLAG_NUMERIC :: byte where "ATTR_FLAG_NUMERIC \<equiv> 0x1C"

text \<open>\<^verbatim>\<open>attrs->toSet & flag\<close> as a condition.\<close>

definition sets :: "lwm2m_attributes \<Rightarrow> byte \<Rightarrow> bool" where
  "sets a f \<longleftrightarrow> toSet a AND f \<noteq> 0"

end
