(* ===== verification/Command_Line.thy ===== *)
theory Command_Line
imports C_Text Tlv Lwm2m_Types
begin

text \<open>
  The command line of the demos, \<^verbatim>\<open>app/lwm2m/commandline.c\<close>: splitting a line into arguments, the
  dispatch over a table of commands, and the functions that print received data. Printed text is
  the result of a function; a pointer into a string is the rest of its array.
\<close>

section \<open>Arguments\<close>

fun get_end_of_arg :: "byte list \<Rightarrow> byte list res" where
  "get_end_of_arg [] = Inl OutOfBounds"
| "get_end_of_arg (c # cs) = (if c \<noteq> 0 \<and> \<not> isspace c then get_end_of_arg cs else Inr (c # cs))"

fun prv_end_of_space :: "byte list \<Rightarrow> byte list res" where
  "prv_end_of_space [] = Inl OutOfBounds"
| "prv_end_of_space (c # cs) = (if isspace c then prv_end_of_space cs else Inr (c # cs))"

text \<open>Every caller passes an \<open>end\<close>: the result is the next argument and its end.\<close>

definition get_next_arg :: "byte list \<Rightarrow> (byte list \<times> byte list) res" where
  "get_next_arg buffer =
     bindE (get_end_of_arg buffer) (\<lambda>b.
     bindE (prv_end_of_space b) (\<lambda>b'.
     bindE (get_end_of_arg b') (\<lambda>e. Inr (b', e))))"

definition check_end_of_args :: "byte list \<Rightarrow> bool res" where
  "check_end_of_args buffer = bindE (prv_end_of_space buffer) (\<lambda>b. Inr (hd b = 0))"

section \<open>Commands\<close>

text \<open>The table ends with an entry without a name.\<close>

record ('c, 'u) command_desc =
  name :: "byte list option"
  shortDesc :: "byte list"
  longDesc :: "byte list option"
  callback :: 'c
  userData :: 'u

text \<open>What a line makes happen: a callback with its argument and user data, or text on \<^verbatim>\<open>stdout\<close>.\<close>

datatype ('c, 'u) action = Call 'c "byte list" 'u | Print "byte list"

fun find_entry ::
    "('c, 'u) command_desc list \<Rightarrow> byte list \<Rightarrow> nat \<Rightarrow> ('c, 'u) command_desc option res" where
  "find_entry [] buffer n = Inl OutOfBounds"
| "find_entry (d # ds) buffer n =
     (case name d of
        None \<Rightarrow> Inr None
      | Some s \<Rightarrow>
          if length s \<noteq> n \<or> \<not> strncmp_eq buffer s n then find_entry ds buffer n else Inr (Some d))"

definition prv_find_command ::
    "('c, 'u) command_desc list \<Rightarrow> byte list \<Rightarrow> nat \<Rightarrow> ('c, 'u) command_desc option res" where
  "prv_find_command cmds buffer n = (if n = 0 then Inr None else find_entry cmds buffer n)"

definition HELP_COMMAND :: "byte list" where "HELP_COMMAND = bytes ''help''"

definition HELP_DESC :: "byte list" where
  "HELP_DESC = [84, 121, 112, 101, 32, 39] @ HELP_COMMAND
     @ bytes '' [COMMAND]'' @ [39] @ bytes '' for more details on a command.''"

definition UNKNOWN_CMD_MSG :: "byte list" where
  "UNKNOWN_CMD_MSG = bytes ''Unknown command. Type '' @ [39] @ HELP_COMMAND @ [39] @ bytes '' for help.''"

abbreviation CRLF :: "byte list" where "CRLF \<equiv> [13, 10]"

fun help_lines :: "('c, 'u) command_desc list \<Rightarrow> byte list res" where
  "help_lines [] = Inl OutOfBounds"
| "help_lines (d # ds) =
     (case name d of
        None \<Rightarrow> Inr []
      | Some s \<Rightarrow> bindE (help_lines ds) (\<lambda>r. Inr (s @ [9] @ shortDesc d @ CRLF @ r)))"

definition prv_displayHelp :: "('c, 'u) command_desc list \<Rightarrow> byte list \<Rightarrow> byte list res" where
  "prv_displayHelp cmds buffer =
     bindE (get_end_of_arg buffer) (\<lambda>e.
     bindE (prv_find_command cmds buffer (length buffer - length e)) (\<lambda>cmd.
       case cmd of
         None \<Rightarrow> bindE (help_lines cmds) (\<lambda>r. Inr (HELP_COMMAND @ [9] @ HELP_DESC @ CRLF @ r))
       | Some d \<Rightarrow> Inr ((case longDesc d of Some l \<Rightarrow> l | None \<Rightarrow> shortDesc d) @ CRLF)))"

definition handle_command :: "('c, 'u) command_desc list \<Rightarrow> byte list \<Rightarrow> ('c, 'u) action res" where
  "handle_command cmds buffer =
     bindE (get_end_of_arg buffer) (\<lambda>e.
       let n = length buffer - length e in
       bindE (prv_find_command cmds buffer n) (\<lambda>cmd.
         case cmd of
           Some d \<Rightarrow> bindE (prv_end_of_space e) (\<lambda>arg. Inr (Call (callback d) arg (userData d)))
         | None \<Rightarrow>
             if strncmp_eq buffer HELP_COMMAND n
             then bindE (prv_end_of_space e) (\<lambda>arg.
                  bindE (prv_displayHelp cmds arg) (\<lambda>t. Inr (Print t)))
             else Inr (Print (UNKNOWN_CMD_MSG @ CRLF))))"

section \<open>Dumping a buffer\<close>

definition print_indent :: "nat \<Rightarrow> byte list" where
  "print_indent num = concat (replicate num (bytes ''    ''))"

text \<open>
  One line of \<^verbatim>\<open>output_buffer\<close>: \<open>n\<close> is \<^verbatim>\<open>length - i\<close>, \<open>padded\<close> says whether \<^verbatim>\<open>length > 16\<close>.
\<close>

definition buffer_line :: "byte list \<Rightarrow> nat \<Rightarrow> bool \<Rightarrow> nat \<Rightarrow> byte list" where
  "buffer_line arr n padded indent =
     (let k = min 16 n; gap = (\<lambda>j::nat. if j mod 4 = 3 then [32] else []) in
      print_indent indent
      @ concat (map (\<lambda>j. hex2 (arr ! j) @ [32] @ gap j) [0..<k])
      @ (if padded then concat (map (\<lambda>j. [32, 32, 32] @ gap j) [k..<16]) else [])
      @ [32] @ map (\<lambda>j. if isprint (arr ! j) then arr ! j else 46) [0..<k] @ [10])"

text \<open>Each round copies sixteen bytes from \<^verbatim>\<open>buffer + i\<close>; \<open>blk\<close> is the memory from there on.\<close>

function buffer_lines :: "byte list \<Rightarrow> nat \<Rightarrow> bool \<Rightarrow> nat \<Rightarrow> byte list res" where
  "buffer_lines blk n padded indent =
     (if n = 0 then Inr []
      else if length blk < 16 then Inl OutOfBounds
      else bindE (buffer_lines (drop 16 blk) (n - 16) padded indent) (\<lambda>r.
        Inr (buffer_line (take 16 blk) n padded indent @ r)))"
  by pat_completeness auto
termination by (relation "measure (\<lambda>(blk, n, p, i). n)") auto

declare buffer_lines.simps [simp del]

definition output_buffer :: "byte list option \<Rightarrow> int \<Rightarrow> nat \<Rightarrow> byte list res" where
  "output_buffer buffer n indent =
     (case buffer of
        None \<Rightarrow> Inr (if n = 0 then [10] else [])
      | Some blk \<Rightarrow>
          bindE (buffer_lines blk (nat n) (16 < n) indent) (\<lambda>r.
            Inr ((if n = 0 then [10] else []) @ r)))"

section \<open>Printing TLV\<close>

text \<open>
  What a printing function leaves: text, and the lines that appear when a string can be read as a
  floating point number, whose digits the C library chooses.
\<close>

datatype printed = Txt "byte list" | Float_line nat "byte list"

definition tlv_type_text :: "lwm2m_data_type \<Rightarrow> byte list" where
  "tlv_type_text t =
     (case t of
        TYPE_OBJECT_INSTANCE \<Rightarrow> bytes ''Object Instance''
      | TYPE_MULTIPLE_RESOURCE \<Rightarrow> bytes ''Multiple Instances''
      | TYPE_OPAQUE \<Rightarrow> bytes ''Resource Value''
      | _ \<Rightarrow> bytes ''unknown'')"

text \<open>
  The leaf of \<^verbatim>\<open>output_tlv\<close>: \<open>data\<close> is the memory from the first data byte on, \<open>n\<close> the length of the
  data. The byte after the data is replaced by a terminator for the two \<^verbatim>\<open>sscanf\<close> and put back.
\<close>

definition output_leaf :: "byte list \<Rightarrow> nat \<Rightarrow> nat \<Rightarrow> printed list res" where
  "output_leaf data n indent =
     bindE (output_buffer (Some data) (int n) (indent + 2)) (\<lambda>dump.
       if length data \<le> n then Inl OutOfBounds
       else
         let str = take n data @ [0] in
         bindE (scan_int 64 str) (\<lambda>v.
           Inr ([Txt (print_indent (indent + 2) @ bytes ''data ('' @ int_text (int n) @ bytes '' bytes):'' @ CRLF),
                 Txt dump]
             @ (case v of
                  None \<Rightarrow> []
                | Some i \<Rightarrow> [Txt (print_indent (indent + 2) @ bytes ''data as Integer: '' @ int_text i @ CRLF)])
             @ [Float_line (indent + 2) str])))"

text \<open>
  \<open>blk\<close> is the memory from \<^verbatim>\<open>buffer + length\<close> on, \<open>n\<close> is \<^verbatim>\<open>buffer_len - length\<close>; the decoder reads
  those \<open>n\<close> bytes.
\<close>

function output_tlv :: "byte list \<Rightarrow> nat \<Rightarrow> nat \<Rightarrow> printed list res" where
  "output_tlv blk n indent =
     (if length blk < n then Inl OutOfBounds
      else case lwm2m_decode_TLV (take n blk) of
        None \<Rightarrow> Inr []
      | Some (t, i, di, k, r) \<Rightarrow>
          bindE
            (if t = TYPE_OBJECT_INSTANCE \<or> t = TYPE_MULTIPLE_RESOURCE
             then output_tlv (drop di blk) k (indent + 1)
             else output_leaf (drop di blk) k indent) (\<lambda>body.
          bindE (output_tlv (drop r blk) (n - r) indent) (\<lambda>rest.
            Inr ([Txt (print_indent indent @ [123] @ CRLF),
                  Txt (print_indent (indent + 1) @ bytes ''ID: '' @ int_text (uint i)
                    @ bytes '' type: '' @ tlv_type_text t @ [10]),
                  Txt (print_indent (indent + 1) @ [123, 10])]
              @ body
              @ [Txt (print_indent (indent + 1) @ [125] @ CRLF), Txt (print_indent indent @ [125] @ CRLF)]
              @ rest))))"
  by pat_completeness auto
termination
  by (relation "measure (\<lambda>(blk, n, indent). n)") (auto dest!: decode_TLV_shrinks)

declare output_tlv.simps [simp del]

section \<open>Printing received data\<close>

text \<open>The loop that prints \<^verbatim>\<open>dataLength\<close> characters.\<close>

definition print_chars :: "byte list option \<Rightarrow> int \<Rightarrow> nat \<Rightarrow> printed list res" where
  "print_chars data n indent =
     (if n \<le> 0 then Inr [Txt (print_indent indent @ [10])]
      else case data of
        None \<Rightarrow> Inl NullDeref
      | Some blk \<Rightarrow>
          if length blk < nat n then Inl OutOfBounds
          else Inr [Txt (print_indent indent @ take (nat n) blk @ [10])])"

definition output_data :: "media_type \<Rightarrow> byte list option \<Rightarrow> int \<Rightarrow> nat \<Rightarrow> printed list res" where
  "output_data format data n indent =
     (let head = Txt (print_indent indent @ int_text n @ bytes '' bytes received of type '');
          dump = (\<lambda>title. bindE (output_buffer data n indent) (\<lambda>d. Inr [head, Txt (title @ CRLF), Txt d]));
          chars = (\<lambda>title. bindE (print_chars data n indent) (\<lambda>d. Inr ([head, Txt (title @ CRLF)] @ d))) in
      case format of
        CONTENT_TEXT \<Rightarrow> dump (bytes ''text/plain:'')
      | CONTENT_OPAQUE \<Rightarrow> dump (bytes ''application/octet-stream:'')
      | CONTENT_TLV \<Rightarrow>
          bindE
            (if n < 0 then Inl OutOfBounds
             else case data of
               None \<Rightarrow> if n < 2 then Inr [] else Inl NullDeref
             | Some blk \<Rightarrow> output_tlv blk (nat n) indent)
            (\<lambda>d. Inr ([head, Txt (bytes ''application/vnd.oma.lwm2m+tlv:'' @ CRLF)] @ d))
      | CONTENT_JSON \<Rightarrow> chars (bytes ''application/vnd.oma.lwm2m+json:'')
      | CONTENT_LINK \<Rightarrow> chars (bytes ''application/link-format:'')
      | CONTENT_OTHER k \<Rightarrow> dump (bytes ''Unknown ('' @ int_text k @ bytes ''):''))"

section \<open>Printing data elements\<close>

text \<open>
  \<^verbatim>\<open>dump_tlv\<close>. A string is printed up to its length or a zero byte. The case of a float prints the
  integer member of the union: the bits of the double as a signed number.
\<close>

fun dump_tlv :: "nat \<Rightarrow> lwm2m_data list \<Rightarrow> nat \<Rightarrow> byte list res" where
  "dump_tlv 0 ds indent = Inr []"
| "dump_tlv (Suc n) [] indent = Inl OutOfBounds"
| "dump_tlv (Suc n) (Data i v # ds) indent =
     bindE
       (case v of
          V_object c xs \<Rightarrow>
            bindE (dump_tlv c xs (indent + 1)) (\<lambda>t. Inr (bytes ''LWM2M_TYPE_OBJECT'' @ CRLF @ t))
        | V_object_instance c xs \<Rightarrow>
            bindE (dump_tlv c xs (indent + 1)) (\<lambda>t. Inr (bytes ''LWM2M_TYPE_OBJECT_INSTANCE'' @ CRLF @ t))
        | V_multiple c xs \<Rightarrow>
            bindE (dump_tlv c xs (indent + 1)) (\<lambda>t. Inr (bytes ''LWM2M_TYPE_MULTIPLE_RESOURCE'' @ CRLF @ t))
        | V_undefined \<Rightarrow> Inr (bytes ''LWM2M_TYPE_UNDEFINED'' @ CRLF)
        | V_string b \<Rightarrow>
            Inr (bytes ''LWM2M_TYPE_STRING'' @ CRLF @ print_indent (indent + 1)
              @ [34] @ takeWhile (\<lambda>c. c \<noteq> 0) b @ [34] @ CRLF)
        | V_opaque b \<Rightarrow>
            bindE (output_buffer (if b = [] then None else Some b) (int (length b)) (indent + 1))
              (\<lambda>t. Inr (bytes ''LWM2M_TYPE_OPAQUE'' @ CRLF @ t))
        | V_integer x \<Rightarrow>
            Inr (bytes ''LWM2M_TYPE_INTEGER: '' @ print_indent (indent + 1) @ int_text (sint x) @ CRLF)
        | V_float x \<Rightarrow>
            Inr (bytes ''LWM2M_TYPE_FLOAT: '' @ print_indent (indent + 1) @ int_text (sint x) @ CRLF)
        | V_boolean b \<Rightarrow>
            Inr (bytes ''LWM2M_TYPE_BOOLEAN: '' @ bytes (if b then ''true'' else ''false'') @ CRLF)
        | V_objlink _ _ \<Rightarrow> Inr (bytes ''LWM2M_TYPE_OBJECT_LINK'' @ CRLF))
       (\<lambda>body.
          bindE (dump_tlv n ds indent) (\<lambda>rest.
            Inr (print_indent indent @ [123] @ CRLF
              @ print_indent (indent + 1) @ bytes ''id: '' @ int_text (uint i) @ CRLF
              @ print_indent (indent + 1) @ bytes ''type: '' @ body
              @ print_indent indent @ [125] @ CRLF @ rest)))"

section \<open>Printing a status\<close>

definition prv_status_to_string :: "byte \<Rightarrow> byte list" where
  "prv_status_to_string status =
     (if status = COAP_NO_ERROR then bytes ''COAP_NO_ERROR''
      else if status = 1 then bytes ''COAP_IGNORE''
      else if status = COAP_201_CREATED then bytes ''COAP_201_CREATED''
      else if status = COAP_202_DELETED then bytes ''COAP_202_DELETED''
      else if status = COAP_204_CHANGED then bytes ''COAP_204_CHANGED''
      else if status = COAP_205_CONTENT then bytes ''COAP_205_CONTENT''
      else if status = COAP_400_BAD_REQUEST then bytes ''COAP_400_BAD_REQUEST''
      else if status = 0x81 then bytes ''COAP_401_UNAUTHORIZED''
      else if status = COAP_404_NOT_FOUND then bytes ''COAP_404_NOT_FOUND''
      else if status = COAP_405_METHOD_NOT_ALLOWED then bytes ''COAP_405_METHOD_NOT_ALLOWED''
      else if status = COAP_406_NOT_ACCEPTABLE then bytes ''COAP_406_NOT_ACCEPTABLE''
      else if status = COAP_500_INTERNAL_SERVER_ERROR then bytes ''COAP_500_INTERNAL_SERVER_ERROR''
      else if status = COAP_501_NOT_IMPLEMENTED then bytes ''COAP_501_NOT_IMPLEMENTED''
      else if status = 0xA3 then bytes ''COAP_503_SERVICE_UNAVAILABLE''
      else [])"

definition digits02 :: "nat \<Rightarrow> byte list" where
  "digits02 n = (if n < 10 then 48 # nat_text n else nat_text n)"

definition print_status :: "byte \<Rightarrow> byte list" where
  "print_status status =
     nat_text (unat status div 32) @ [46] @ digits02 (unat status mod 32)
     @ bytes '' ('' @ prv_status_to_string status @ bytes '')''"

section \<open>Words and arguments\<close>

text \<open>A word of a line, and a line cut after its first word.\<close>

definition is_word :: "byte list \<Rightarrow> bool" where
  "is_word w \<longleftrightarrow> (\<forall>c\<in>set w. c \<noteq> 0 \<and> \<not> isspace c)"

definition ends_word :: "byte list \<Rightarrow> bool" where
  "ends_word r \<longleftrightarrow> r \<noteq> [] \<and> (hd r = 0 \<or> isspace (hd r))"

definition spaces :: "byte list \<Rightarrow> bool" where
  "spaces s \<longleftrightarrow> (\<forall>c\<in>set s. isspace c)"

lemma end_of_word: "is_word w \<Longrightarrow> ends_word r \<Longrightarrow> get_end_of_arg (w @ r) = Inr r"
  by (induction w) (cases r; auto simp: is_word_def ends_word_def)+

lemma end_of_spaces: "spaces s \<Longrightarrow> r \<noteq> [] \<Longrightarrow> \<not> isspace (hd r) \<Longrightarrow> prv_end_of_space (s @ r) = Inr r"
  by (induction s) (cases r; auto simp: spaces_def)+

text \<open>From anywhere inside one word to the next one.\<close>

lemma next_arg:
  assumes "is_word v" and "spaces s" and "s \<noteq> []" and "is_word w" and "ends_word r"
    and "w = [] \<Longrightarrow> hd r = 0"
  shows "get_next_arg (v @ s @ w @ r) = Inr (w @ r, r)"
proof -
  have "ends_word (s @ w @ r)" using assms(2,3) by (cases s) (auto simp: ends_word_def spaces_def)
  moreover have "w @ r \<noteq> [] \<and> \<not> isspace (hd (w @ r))"
    using assms(4,5,6) by (cases w) (auto simp: is_word_def ends_word_def)
  ultimately show ?thesis
    using assms(1,2,4,5) by (simp add: get_next_arg_def end_of_word end_of_spaces)
qed

lemma check_end_spaces: "spaces s \<Longrightarrow> check_end_of_args (s @ 0 # r) = Inr True"
  by (simp add: check_end_of_args_def end_of_spaces)

lemma strncmp_word: "0 \<notin> set w \<Longrightarrow> strncmp_eq (w @ r) s (length w) \<longleftrightarrow> take (length w) s = w"
  by (induction w arbitrary: s) (auto simp: Let_def split: list.splits)

text \<open>A table of commands: entries with a name, then one without.\<close>

definition command_table :: "('c, 'u) command_desc list \<Rightarrow> ('c, 'u) command_desc list \<Rightarrow> bool" where
  "command_table cmds ds \<longleftrightarrow>
     (\<exists>e es. cmds = ds @ e # es \<and> name e = None) \<and> (\<forall>d\<in>set ds. name d \<noteq> None)"

lemma find_entry_table:
  assumes "command_table cmds ds" and "0 \<notin> set w"
  shows "find_entry cmds (w @ r) (length w) = Inr (find (\<lambda>d. name d = Some w) ds)"
proof -
  obtain e es where cmds: "cmds = ds @ e # es" "name e = None" and named: "\<forall>d\<in>set ds. name d \<noteq> None"
    using assms(1) unfolding command_table_def by blast
  show ?thesis
    unfolding cmds(1) using named cmds(2)
    by (induction ds) (auto simp: strncmp_word [OF assms(2)])
qed

lemma dispatch_line:
  assumes "command_table cmds ds" and "is_word w" and "w \<noteq> []" and "spaces s"
    and "a \<noteq> []" and "\<not> isspace (hd a)" and "s = [] \<Longrightarrow> hd a = 0"
  shows "handle_command cmds (w @ s @ a) =
    (case find (\<lambda>d. name d = Some w) ds of
       Some d \<Rightarrow> Inr (Call (callback d) a (userData d))
     | None \<Rightarrow>
         if take (length w) HELP_COMMAND = w
         then bindE (prv_displayHelp cmds a) (\<lambda>t. Inr (Print t))
         else Inr (Print (UNKNOWN_CMD_MSG @ CRLF)))"
proof -
  have r: "ends_word (s @ a)"
    using assms(4-7) by (cases s) (auto simp: ends_word_def spaces_def)
  have w0: "0 \<notin> set w" using assms(2) by (auto simp: is_word_def)
  have f: "prv_find_command cmds (w @ s @ a) (length w) = Inr (find (\<lambda>d. name d = Some w) ds)"
    using assms(3) by (simp add: prv_find_command_def find_entry_table [OF assms(1) w0])
  have h: "strncmp_eq (w @ s @ a) HELP_COMMAND (length w) \<longleftrightarrow> take (length w) HELP_COMMAND = w"
    by (rule strncmp_word [OF w0])
  show ?thesis
    unfolding handle_command_def end_of_word [OF assms(2) r] bindE_simps Let_def
    by (simp add: f h end_of_spaces assms(4-6) split: option.split)
qed

section \<open>How far the dumps read\<close>

lemma buffer_lines_ok: "ok (buffer_lines blk n p i) \<longleftrightarrow> 16 * ((n + 15) div 16) \<le> length blk"
proof (induction blk n p i rule: buffer_lines.induct)
  case (1 blk n p i)
  show ?case
  proof (cases "n = 0 \<or> length blk < 16")
    case True
    moreover have "0 < n \<Longrightarrow> 1 \<le> (n + 15) div 16" by (simp add: Suc_le_eq div_greater_zero_iff)
    ultimately show ?thesis by (subst buffer_lines.simps) auto
  next
    case False
    have eq: "(n + 15) div 16 = Suc ((n - 16 + 15) div 16) \<or> (n \<le> 16 \<and> (n + 15) div 16 = 1 \<and> (n - 16 + 15) div 16 = 0)"
      using False by (cases "n \<le> 16") (auto simp: div_nat_eqI le_div_geq)
    have "ok (buffer_lines blk n p i) \<longleftrightarrow> ok (buffer_lines (drop 16 blk) (n - 16) p i)"
      using False by (subst buffer_lines.simps) (auto simp: ok_iff bindE_Inr_iff)
    also have "\<dots> \<longleftrightarrow> 16 * ((n - 16 + 15) div 16) \<le> length blk - 16"
      using 1 False by simp
    also have "\<dots> \<longleftrightarrow> 16 * ((n + 15) div 16) \<le> length blk"
      using eq False by auto
    finally show ?thesis .
  qed
qed

lemma output_buffer_ok:
  "ok (output_buffer (Some blk) (int n) i) \<longleftrightarrow> 16 * ((n + 15) div 16) \<le> length blk"
  by (simp add: output_buffer_def buffer_lines_ok [of blk n "16 < int n" i, symmetric] ok_iff bindE_Inr_iff)

lemma scan_int_outcome: "0 \<in> set s \<Longrightarrow> ok (scan_int w s) \<or> scan_int w s = Inl SignedOverflow"
  by (auto simp: scan_int_def c_string_def Let_def split: prod.split)

lemma round_up_slack: "n + 16 \<le> m \<Longrightarrow> 16 * ((n + 15) div 16) \<le> (m::nat)"
  using times_div_less_eq_dividend [of 16 "n + 15"] by linarith

lemma output_leaf_safe:
  assumes "n + 16 \<le> length data"
  shows "ok (output_leaf data n indent) \<or> output_leaf data n indent = Inl SignedOverflow"
proof -
  have "ok (output_buffer (Some data) (int n) (indent + 2))"
    using output_buffer_ok round_up_slack [OF assms] by blast
  then obtain t where t: "output_buffer (Some data) (int n) (indent + 2) = Inr t" by (auto simp: ok_iff)
  show ?thesis
    using scan_int_outcome [of "take n data @ [0]" 64] assms
    unfolding output_leaf_def t bindE_simps Let_def by (auto simp: ok_iff)
qed

lemma output_tlv_safe:
  assumes "n + 16 \<le> length blk"
  shows "ok (output_tlv blk n indent) \<or> output_tlv blk n indent = Inl SignedOverflow"
  using assms
proof (induction blk n indent rule: output_tlv.induct)
  case (1 blk n indent)
  show ?case
  proof (cases "lwm2m_decode_TLV (take n blk)")
    case None
    then show ?thesis using 1 by (subst output_tlv.simps) auto
  next
    case (Some x)
    then obtain t i di k r where x: "lwm2m_decode_TLV (take n blk) = Some (t, i, di, k, r)" by (cases x) auto
    have b: "2 \<le> di" "r = di + k" "r \<le> n"
      using decode_TLV_bounds [OF x] "1.prems" by auto
    define body where "body = (if t = TYPE_OBJECT_INSTANCE \<or> t = TYPE_MULTIPLE_RESOURCE
             then output_tlv (drop di blk) k (indent + 1)
             else output_leaf (drop di blk) k indent)"
    have len: "\<not> length blk < n" "k + 16 \<le> length (drop di blk)" "n - r + 16 \<le> length (drop r blk)"
      using "1.prems" b by auto
    have body: "ok body \<or> body = Inl SignedOverflow"
      using "1.IH"(1) [OF len(1) x refl refl refl refl] output_leaf_safe [OF len(2)] len(2)
      unfolding body_def by auto
    show ?thesis
    proof (cases body)
      case (Inl e)
      then show ?thesis using body len(1)
        by (subst (1 2) output_tlv.simps) (simp add: x body_def [symmetric])
    next
      case (Inr y)
      then have "ok (output_tlv (drop r blk) (n - r) indent)
          \<or> output_tlv (drop r blk) (n - r) indent = Inl SignedOverflow"
        using "1.IH"(2) [OF len(1) x refl refl refl refl] len(3) unfolding body_def by blast
      then show ?thesis using Inr len(1)
        by (subst (1 2) output_tlv.simps) (auto simp: x body_def [symmetric] ok_iff)
    qed
  qed
qed

text \<open>
  A line is dispatched on its first word: the callback of the first entry with exactly that name
  gets the rest of the line without its leading spaces; another word is an unknown command, unless
  it is a prefix of \<^verbatim>\<open>help\<close>.
\<close>

theorem handle_command_dispatch:
  assumes "command_table cmds ds" and "is_word w" and "w \<noteq> []" and "spaces s"
    and "a \<noteq> []" and "\<not> isspace (hd a)" and "s = [] \<Longrightarrow> hd a = 0"
  shows "handle_command cmds (w @ s @ a) =
    (case find (\<lambda>d. name d = Some w) ds of
       Some d \<Rightarrow> Inr (Call (callback d) a (userData d))
     | None \<Rightarrow>
         if take (length w) HELP_COMMAND = w
         then bindE (prv_displayHelp cmds a) (\<lambda>t. Inr (Print t))
         else Inr (Print (UNKNOWN_CMD_MSG @ CRLF)))"
  by (rule dispatch_line [OF assms])

definition ex_table :: "(nat, nat) command_desc list" where
  "ex_table =
     [\<lparr>name = Some (bytes ''list''), shortDesc = [], longDesc = None, callback = 1, userData = 7\<rparr>,
      \<lparr>name = Some (bytes ''q''), shortDesc = [], longDesc = None, callback = 2, userData = 7\<rparr>,
      \<lparr>name = None, shortDesc = [], longDesc = None, callback = 0, userData = 0\<rparr>]"

lemma ex_table_table: "command_table ex_table (take 2 ex_table)"
  by (simp add: command_table_def ex_table_def)

lemma handle_command_dispatch_witness:
  "handle_command ex_table (bytes ''q'' @ [32, 9] @ [120, 10, 0]) =
    (case find (\<lambda>d. name d = Some (bytes ''q'')) (take 2 ex_table) of
       Some d \<Rightarrow> Inr (Call (callback d) [120, 10, 0] (userData d))
     | None \<Rightarrow>
         if take (length (bytes ''q'')) HELP_COMMAND = bytes ''q''
         then bindE (prv_displayHelp ex_table [120, 10, 0]) (\<lambda>t. Inr (Print t))
         else Inr (Print (UNKNOWN_CMD_MSG @ CRLF)))"
  by (rule handle_command_dispatch [OF ex_table_table])
    (simp_all add: is_word_def spaces_def isspace_def bytes_def)

text \<open>
  Received data is printed without leaving its buffer when sixteen more bytes belong to it,
  whatever the format and however the TLV in it is nested; the one fault left is a number in the
  data that does not fit the integer it is scanned into.
\<close>

theorem output_data_safe:
  assumes "n + 16 \<le> length blk"
  shows "ok (output_data f (Some blk) (int n) indent)
    \<or> output_data f (Some blk) (int n) indent = Inl SignedOverflow"
proof -
  obtain d where d: "output_buffer (Some blk) (int n) indent = Inr d"
    using output_buffer_ok [of blk n indent] round_up_slack [OF assms] by (auto simp: ok_iff)
  show ?thesis
    using output_tlv_safe [OF assms, of indent] assms
    by (cases f) (auto simp: output_data_def Let_def d print_chars_def ok_iff)
qed

lemma output_data_safe_witness:
  "ok (output_data CONTENT_TLV (Some (0xC1 # replicate 18 0)) (int 3) 1)
    \<or> output_data CONTENT_TLV (Some (0xC1 # replicate 18 0)) (int 3) 1 = Inl SignedOverflow"
  by (rule output_data_safe) simp

text \<open>
  \<^verbatim>\<open>dump_tlv\<close> reads past the block of an opaque value, unless its length is a multiple of sixteen;
  the bits of a float are printed as an integer.
\<close>

theorem dump_tlv_values:
  "ok (dump_tlv 1 [Data i (V_opaque b)] indent) = (length b mod 16 = 0)
   \<and> dump_tlv 1 [Data i (V_float x)] indent
     = Inr (print_indent indent @ [123] @ CRLF
         @ print_indent (indent + 1) @ bytes ''id: '' @ int_text (uint i) @ CRLF
         @ print_indent (indent + 1) @ bytes ''type: ''
         @ (bytes ''LWM2M_TYPE_FLOAT: '' @ print_indent (indent + 1) @ int_text (sint x) @ CRLF)
         @ print_indent indent @ [125] @ CRLF)"
proof -
  have "16 * ((length b + 15) div 16) \<le> length b \<longleftrightarrow> length b mod 16 = 0" by presburger
  moreover have "ok (output_buffer (if b = [] then None else Some b) (int (length b)) (indent + 1))
      \<longleftrightarrow> 16 * ((length b + 15) div 16) \<le> length b"
    using output_buffer_ok [of b "length b" "indent + 1"] by (auto simp: output_buffer_def [of None])
  ultimately show ?thesis by (auto simp: ok_iff bindE_Inr_iff)
qed


end
