(* ===== verification/Uri.thy ===== *)
theory Uri
imports C_Text
begin

text \<open>
  LWM2M URIs, \<^verbatim>\<open>external/wakaama/uri.c\<close>: \<^verbatim>\<open>/object/instance/resource\<close> as text, and as the path options
  of a CoAP request.
\<close>

unbundle bit_operations_syntax

section \<open>URIs\<close>

record lwm2m_uri =
  flag :: byte
  objectId :: u16
  instanceId :: u16
  resourceId :: u16

abbreviation FLAG_OBJECT_ID :: byte where "FLAG_OBJECT_ID \<equiv> 0x04"
abbreviation FLAG_INSTANCE_ID :: byte where "FLAG_INSTANCE_ID \<equiv> 0x02"
abbreviation FLAG_RESOURCE_ID :: byte where "FLAG_RESOURCE_ID \<equiv> 0x01"
abbreviation FLAG_DELETE_ALL :: byte where "FLAG_DELETE_ALL \<equiv> 0x10"
abbreviation FLAG_REGISTRATION :: byte where "FLAG_REGISTRATION \<equiv> 0x20"
abbreviation FLAG_BOOTSTRAP :: byte where "FLAG_BOOTSTRAP \<equiv> 0x40"
abbreviation MASK_TYPE :: byte where "MASK_TYPE \<equiv> 0x70"

definition is_set_instance :: "lwm2m_uri \<Rightarrow> bool" where
  "is_set_instance u \<longleftrightarrow> flag u AND FLAG_INSTANCE_ID \<noteq> 0"

definition is_set_resource :: "lwm2m_uri \<Rightarrow> bool" where
  "is_set_resource u \<longleftrightarrow> flag u AND FLAG_RESOURCE_ID \<noteq> 0"

definition zero_uri :: lwm2m_uri where
  "zero_uri = \<lparr>flag = 0, objectId = 0, instanceId = 0, resourceId = 0\<rparr>"

section \<open>Numbers\<close>

text \<open>
  The while loop of \<^verbatim>\<open>prv_parseNumber\<close> on the bytes up to \<^verbatim>\<open>uriLength\<close>; \<open>acc\<close> is \<^verbatim>\<open>result\<close>, ten times
  the number so far. The result is the number and the bytes not read; \<open>None\<close> is -1.
\<close>

fun parse_digits :: "byte list \<Rightarrow> int \<Rightarrow> (int \<times> byte list) option res" where
  "parse_digits [] acc = Inr (Some (acc div 10, []))"
| "parse_digits (c # cs) acc =
     (if c = 47 then Inr (Some (acc div 10, c # cs))
      else if is_digit_byte c then
        (if 2 ^ 31 \<le> (acc + (uint c - 48)) * 10 then Inl SignedOverflow
         else parse_digits cs ((acc + (uint c - 48)) * 10))
      else Inr None)"

text \<open>
  \<open>blk\<close> is the memory from \<^verbatim>\<open>uriString + *headP\<close> on, \<open>n\<close> is \<^verbatim>\<open>uriLength - *headP\<close>. The first byte is
  read whatever \<open>n\<close> is.
\<close>

definition prv_parseNumber :: "byte list \<Rightarrow> nat \<Rightarrow> (int \<times> byte list) option res" where
  "prv_parseNumber blk n =
     (if blk = [] then Inl OutOfBounds
      else if hd blk = 47 then Inr None
      else if length blk < n then Inl OutOfBounds
      else parse_digits (take n blk) 0)"

definition uri_getNumber :: "byte list \<Rightarrow> nat \<Rightarrow> int option res" where
  "uri_getNumber uriString n =
     bindE (prv_parseNumber uriString n) (\<lambda>r. Inr (map_option fst r))"

section \<open>URIs as text\<close>

text \<open>
  One number of the text and the slash behind it. \<open>rest\<close> are the bytes from \<^verbatim>\<open>head\<close> up to
  \<^verbatim>\<open>buffer_len\<close>, \<open>beyond\<close> the memory from \<^verbatim>\<open>buffer_len\<close> on, in which the slash is looked up when \<open>rest\<close>
  is used up. The result is the number, the bytes left and how far \<^verbatim>\<open>head\<close> stands behind
  \<^verbatim>\<open>buffer_len\<close>.
\<close>

definition uri_segment :: "byte list \<Rightarrow> byte list \<Rightarrow> (int \<times> byte list \<times> nat) option res" where
  "uri_segment rest beyond =
     bindE (prv_parseNumber (rest @ beyond) (length rest)) (\<lambda>r.
       case r of
         None \<Rightarrow> Inr None
       | Some (v, []) \<Rightarrow>
           (case beyond of
              [] \<Rightarrow> Inl OutOfBounds
            | c # _ \<Rightarrow> Inr (Some (v, [], if c = 47 then 1 else 0)))
       | Some (v, c # cs) \<Rightarrow> Inr (Some (v, if c = 47 then cs else c # cs, 0)))"

text \<open>
  The result is \<^verbatim>\<open>head\<close> and the URI, \<open>None\<close> is 0. \<open>buffer\<close> is the memory from the pointer on,
  \<open>n\<close> is \<^verbatim>\<open>buffer_len\<close>.
\<close>

definition lwm2m_stringToUri :: "byte list \<Rightarrow> nat \<Rightarrow> (nat \<times> lwm2m_uri) option res" where
  "lwm2m_stringToUri buffer n =
     (if n = 0 then Inr None
      else if length buffer < n then Inl OutOfBounds
      else
        let beyond = drop n buffer in
        case dropWhile isspace (take n buffer) of
          [] \<Rightarrow> Inr None
        | c # s \<Rightarrow>
          if c \<noteq> 47 \<or> s = [] then Inr None
          else bindE (uri_segment s beyond) (\<lambda>r1.
            case r1 of
              None \<Rightarrow> Inr None
            | Some (v1, s1, over1) \<Rightarrow>
              if 65535 < v1 then Inr None
              else
                let u1 = zero_uri\<lparr>flag := FLAG_OBJECT_ID, objectId := word_of_int v1\<rparr> in
                if s1 = [] then Inr (Some (n + over1, u1))
                else bindE (uri_segment s1 beyond) (\<lambda>r2.
                  case r2 of
                    None \<Rightarrow> Inr None
                  | Some (v2, s2, over2) \<Rightarrow>
                    if 65535 \<le> v2 then Inr None
                    else
                      let u2 = u1\<lparr>flag := FLAG_OBJECT_ID OR FLAG_INSTANCE_ID, instanceId := word_of_int v2\<rparr> in
                      if s2 = [] then Inr (Some (n + over2, u2))
                      else bindE (prv_parseNumber (s2 @ beyond) (length s2)) (\<lambda>r3.
                        case r3 of
                          None \<Rightarrow> Inr None
                        | Some (v3, s3) \<Rightarrow>
                          if 65535 \<le> v3 then Inr None
                          else if s3 \<noteq> [] then Inr None
                          else Inr (Some (n, u2\<lparr>
                            flag := FLAG_OBJECT_ID OR FLAG_INSTANCE_ID OR FLAG_RESOURCE_ID,
                            resourceId := word_of_int v3\<rparr>))))))"

datatype uri_depth =
    URI_DEPTH_OBJECT
  | URI_DEPTH_OBJECT_INSTANCE
  | URI_DEPTH_RESOURCE
  | URI_DEPTH_RESOURCE_INSTANCE

text \<open>One id appended to the text \<open>s\<close> in a buffer of \<open>n\<close> bytes; \<open>None\<close> is the result -1.\<close>

definition append_id :: "byte list \<Rightarrow> nat \<Rightarrow> u16 \<Rightarrow> byte list option res" where
  "append_id s n v =
     bindE (utils_intToText (ucast v) (n - length s)) (\<lambda>t.
       Inr (if t = [] then None
            else if n - 1 \<le> length (s @ t) then None else Some (s @ t)))"

definition uri_toString :: "lwm2m_uri option \<Rightarrow> nat \<Rightarrow> (byte list \<times> uri_depth) option res" where
  "uri_toString uriP n =
     (if n = 0 then Inl OutOfBounds
      else case uriP of
        None \<Rightarrow> Inr (Some ([47], URI_DEPTH_OBJECT))
      | Some u \<Rightarrow>
        bindE (append_id [47] n (objectId u)) (\<lambda>r1.
          case r1 of
            None \<Rightarrow> Inr None
          | Some s1 \<Rightarrow>
            if \<not> is_set_instance u then Inr (Some (s1 @ [47], URI_DEPTH_OBJECT_INSTANCE))
            else bindE (append_id (s1 @ [47]) n (instanceId u)) (\<lambda>r2.
              case r2 of
                None \<Rightarrow> Inr None
              | Some s2 \<Rightarrow>
                if \<not> is_set_resource u then Inr (Some (s2 @ [47], URI_DEPTH_RESOURCE))
                else bindE (append_id (s2 @ [47]) n (resourceId u)) (\<lambda>r3.
                  case r3 of
                    None \<Rightarrow> Inr None
                  | Some s3 \<Rightarrow> Inr (Some (s3 @ [47], URI_DEPTH_RESOURCE_INSTANCE))))))"

section \<open>URIs as path options\<close>

text \<open>
  A path is the list of its segments, each an array of its own length. The results are those of
  the whole function: \<open>None\<close> is the null pointer it returns after freeing the URI.
\<close>

definition decode_resource :: "lwm2m_uri \<Rightarrow> byte list list \<Rightarrow> lwm2m_uri option res" where
  "decode_resource u path =
     (case path of
        [] \<Rightarrow> Inr (Some u)
      | seg # rest \<Rightarrow>
        if seg = [] then Inr (if rest = [] then Some u else None)
        else if \<not> is_set_instance u then Inr None
        else bindE (uri_getNumber seg (length seg)) (\<lambda>r.
          Inr (case r of
            None \<Rightarrow> None
          | Some v \<Rightarrow>
              if 65535 < v then None
              else if rest \<noteq> [] then None
              else Some (u\<lparr>resourceId := word_of_int v, flag := flag u OR FLAG_RESOURCE_ID\<rparr>))))"

definition decode_instance :: "lwm2m_uri \<Rightarrow> byte list list \<Rightarrow> lwm2m_uri option res" where
  "decode_instance u path =
     (case path of
        [] \<Rightarrow> Inr (Some u)
      | seg # rest \<Rightarrow>
        if seg = [] then decode_resource u rest
        else bindE (uri_getNumber seg (length seg)) (\<lambda>r.
          case r of
            None \<Rightarrow> Inr None
          | Some v \<Rightarrow>
              if 65535 \<le> v then Inr None
              else decode_resource
                (u\<lparr>instanceId := word_of_int v, flag := flag u OR FLAG_INSTANCE_ID\<rparr>) rest))"

definition decode_object :: "lwm2m_uri \<Rightarrow> byte list list \<Rightarrow> lwm2m_uri option res" where
  "decode_object u path =
     (case path of
        [] \<Rightarrow> Inl NullDeref
      | seg # rest \<Rightarrow>
        bindE (uri_getNumber seg (length seg)) (\<lambda>r.
          case r of
            None \<Rightarrow> Inr None
          | Some v \<Rightarrow>
              if 65535 < v then Inr None
              else
                let u' = u\<lparr>objectId := word_of_int v, flag := flag u OR FLAG_OBJECT_ID\<rparr> in
                if flag u' AND MASK_TYPE = FLAG_REGISTRATION
                then Inr (if rest \<noteq> [] then None else Some u')
                else decode_instance u' rest))"

text \<open>
  The comparison with the alternative path stops at the end of the segment: a segment that is
  shorter than the path matches.
\<close>

fun match_alt :: "byte list \<Rightarrow> byte list \<Rightarrow> bool res" where
  "match_alt [] alt = Inr True"
| "match_alt (c # cs) [] = Inl OutOfBounds"
| "match_alt (c # cs) (a # as) = (if c \<noteq> a then Inr False else match_alt cs as)"

definition uri_decode ::
    "byte list option \<Rightarrow> byte list list \<Rightarrow> mem \<Rightarrow> (lwm2m_uri option \<times> mem) res" where
  "uri_decode altPath path m =
     (case lwm2m_malloc m of
        (False, m1) \<Rightarrow> Inr (None, m1)
      | (True, m1) \<Rightarrow>
        bindE
          (if path \<noteq> [] \<and> hd path = bytes ''rd'' then
             let u = zero_uri\<lparr>flag := FLAG_REGISTRATION\<rparr> in
             if tl path = [] then Inr (Some u) else decode_object u (tl path)
           else if path \<noteq> [] \<and> hd path = bytes ''bs'' then
             Inr (if tl path \<noteq> [] then None else Some (zero_uri\<lparr>flag := FLAG_BOOTSTRAP\<rparr>))
           else
             bindE
               (case altPath of
                  None \<Rightarrow> Inr (Some path)
                | Some alt \<Rightarrow>
                    (case path of
                       [] \<Rightarrow> Inr None
                     | seg # rest \<Rightarrow>
                         bindE (match_alt seg (drop 1 alt)) (\<lambda>b. Inr (if b then Some rest else None))))
               (\<lambda>p. case p of
                  None \<Rightarrow> Inr None
                | Some path' \<Rightarrow>
                    if path' = [] \<or> hd path' = []
                    then Inr (Some (zero_uri\<lparr>flag := FLAG_DELETE_ALL\<rparr>))
                    else decode_object zero_uri path'))
          (\<lambda>r. Inr (r, m1)))"

section \<open>Numbers: what the parser computes\<close>

lemma parse_digits_value:
  assumes "list_all is_digit_byte ds" and "decimal_from v ds < 214748365"
    and "r \<noteq> [] \<Longrightarrow> hd r = 47" and "decimal_from v ds * 10 < 2 ^ 31"
  shows "parse_digits (ds @ r) (10 * int v) = Inr (Some (int (decimal_from v ds), r))"
  using assms
proof (induction ds arbitrary: v)
  case Nil
  then show ?case by (cases r) auto
next
  case (Cons c cs)
  have c: "48 \<le> unat c" "c \<noteq> 47" using Cons.prems(1)
    by (auto simp: is_digit_byte_def word_le_nat_alt)
  have u: "uint c - 48 = int (unat c - 48)" by (simp only: of_nat_diff [OF c(1)]) simp
  have "10 * v + (unat c - 48) \<le> decimal_from (10 * v + (unat c - 48)) cs" by (rule decimal_from_ge)
  then have b: "(10 * v + (unat c - 48)) * 10 < 2 ^ 31" using Cons.prems(4) by simp
  have eq: "(10 * int v + (uint c - 48)) * 10 = 10 * int (10 * v + (unat c - 48))"
    unfolding u by simp
  have "\<not> 2 ^ 31 \<le> (10 * int v + (uint c - 48)) * 10"
    unfolding eq using b by simp
  then show ?case
    using Cons.IH [of "10 * v + (unat c - 48)"] Cons.prems c(2)
    unfolding append.simps parse_digits.simps eq by simp
qed

section \<open>Texts of URIs\<close>

text \<open>A URI by its one, two or three ids, and its text without a final slash.\<close>

fun uri_of :: "u16 list \<Rightarrow> lwm2m_uri" where
  "uri_of [a] = \<lparr>flag = FLAG_OBJECT_ID, objectId = a, instanceId = 0, resourceId = 0\<rparr>"
| "uri_of [a, b] = \<lparr>flag = FLAG_OBJECT_ID OR FLAG_INSTANCE_ID, objectId = a, instanceId = b, resourceId = 0\<rparr>"
| "uri_of (a # b # c # _) =
     \<lparr>flag = FLAG_OBJECT_ID OR FLAG_INSTANCE_ID OR FLAG_RESOURCE_ID, objectId = a, instanceId = b, resourceId = c\<rparr>"
| "uri_of [] = zero_uri"

definition uri_text :: "u16 list \<Rightarrow> byte list" where
  "uri_text ids = concat (map (\<lambda>i. 47 # nat_text (unat i)) ids)"

definition good_ids :: "u16 list \<Rightarrow> bool" where
  "good_ids ids \<longleftrightarrow> ids \<noteq> [] \<and> length ids \<le> 3 \<and> 65535 \<notin> set (tl ids)"

lemma good_ids_cases:
  assumes "good_ids ids"
  obtains a where "ids = [a]" | a b where "ids = [a, b]" "b \<noteq> 65535"
  | a b c where "ids = [a, b, c]" "b \<noteq> 65535" "c \<noteq> 65535"
proof -
  from assms obtain a t where ids: "ids = a # t" by (cases ids) (auto simp: good_ids_def)
  show thesis
  proof (cases t)
    case Nil
    then show thesis using ids that(1) by simp
  next
    case (Cons b t')
    note t = Cons
    show thesis
    proof (cases t')
      case Nil
      then show thesis using ids t assms that(2) by (auto simp: good_ids_def)
    next
      case (Cons c t'')
      then show thesis using ids t assms that(3) by (cases t'') (auto simp: good_ids_def)
    qed
  qed
qed

lemma uint_u16: "uint (i :: u16) < 65536"
  using unsigned_less [of i, where ?'a = int] by simp

lemma unat_u16: "unat (i :: u16) < 65536"
  using unsigned_less [of i, where ?'a = nat] by simp

lemma id_in_range [simp]: "\<not> 65535 < uint (i :: u16)"
  using uint_u16 [of i] by linarith

lemma id_below [simp]: "i \<noteq> 65535 \<Longrightarrow> \<not> 65535 \<le> uint (i :: u16)"
  using uint_u16 [of i] by (auto simp: word_uint_eq_iff)

lemma parse_id:
  assumes "r \<noteq> [] \<Longrightarrow> hd r = 47"
  shows "prv_parseNumber (nat_text (unat (i :: u16)) @ r @ beyond) (length (nat_text (unat i)) + length r)
    = Inr (Some (int (unat i), r))"
proof -
  note d = nat_text_digits [of "unat i"]
  have "hd (nat_text (unat i)) \<noteq> 47"
    using d by (cases "nat_text (unat i)") (auto simp: is_digit_byte_def word_le_nat_alt)
  then show ?thesis
    using d parse_digits_value [of "nat_text (unat i)" 0 r] assms unat_u16 [of i]
    by (simp add: prv_parseNumber_def)
qed

lemma segment_slash:
  "uri_segment (nat_text (unat (i :: u16)) @ 47 # cs) beyond = Inr (Some (int (unat i), cs, 0))"
  using parse_id [of "47 # cs" i beyond] by (simp add: uri_segment_def)

lemma segment_end:
  "c \<noteq> 47 \<Longrightarrow> uri_segment (nat_text (unat (i :: u16))) (c # r) = Inr (Some (int (unat i), [], 0))"
  using parse_id [of "[]" i "c # r"] by (simp add: uri_segment_def)

lemma nat_text_ne [simp]: "nat_text n \<noteq> []"
  using nat_text_digits by simp

lemma not_space_47 [simp]: "\<not> isspace 47"
  by (simp add: isspace_def)

lemma take_drop_parts:
  "take (length s) (s @ r) = s" "drop (length s) (s @ r) = r" "\<not> length (s @ r) < length s"
  by simp_all

text \<open>
  The text of a URI of one, two or three ids, none but the first of them 65535, is parsed to that
  URI, whatever follows it that is not a slash.
\<close>

lemma stringToUri_text:
  assumes "good_ids ids" and "c \<noteq> 47"
  shows "lwm2m_stringToUri (uri_text ids @ c # r) (length (uri_text ids))
    = Inr (Some (length (uri_text ids), uri_of ids))"
  using assms(1)
proof (cases rule: good_ids_cases)
  case (1 a)
  then show ?thesis
    using segment_end [OF assms(2), of a r]
    by (simp add: lwm2m_stringToUri_def uri_text_def zero_uri_def Let_def)
next
  case (2 a b)
  then show ?thesis
    using segment_slash [of a] segment_end [OF assms(2), of b r]
    by (simp add: lwm2m_stringToUri_def uri_text_def zero_uri_def Let_def)
next
  case (3 a b d)
  then show ?thesis
    using segment_slash [of a] segment_slash [of b] parse_id [of "[]" d "c # r"]
    by (simp add: lwm2m_stringToUri_def uri_text_def zero_uri_def Let_def)
qed

lemma text_digits_nat_text:
  assumes "int d < 10 ^ nat (index + 1)" and "0 \<le> index"
  shows "text_digits index d acc = (index - int (length (nat_text d)), 0, nat_text d @ acc)"
  using assms
proof (induction index d acc rule: text_digits.induct)
  case (1 index d acc)
  show ?case
  proof (cases "d < 10")
    case True
    then show ?thesis by (simp add: text_digits.simps [of index] nat_text.simps [of d] Let_def)
  next
    case False
    then have "index \<noteq> 0" using "1.prems"(1) by auto
    then have ge: "0 \<le> index - 1" using "1.prems"(2) by simp
    then have pow: "nat (index + 1) = Suc (nat (index - 1 + 1))" by (simp add: nat_add_distrib)
    have "int (d div 10) < 10 ^ nat (index - 1 + 1)"
      using "1.prems"(1) unfolding pow by (simp add: zdiv_int)
    then show ?thesis
      using "1.IH" [OF refl refl refl] False ge
      by (simp add: text_digits.simps [of index] nat_text.simps [of d] Let_def)
  qed
qed

lemma id_text:
  assumes "5 \<le> n"
  shows "utils_intToText (ucast (i :: u16)) n = Inr (nat_text (unat i))"
proof -
  have u: "sint (ucast i :: i64) = int (unat i)"
    using uint_u16 [of i]
    signed_take_bit_int_eq_self [of 63 "uint i"] order_trans [OF _ uint_ge_0 [of i], of "- 9223372036854775808"]
    by (simp add: sint_uint unsigned_ucast_eq take_bit_int_eq_self)
  have "int (unat i) < 10 ^ 5" using uint_u16 [of i] by simp
  also have "\<dots> \<le> 10 ^ nat (int n - 1 + 1)" using assms by (intro power_increasing) auto
  finally have b: "int (unat i) < 10 ^ nat (int n - 1 + 1)" .
  have "0 \<le> int n - 1" using assms by simp
  moreover have "uint i \<noteq> - 9223372036854775808" using uint_ge_0 [of i] by linarith
  ultimately show ?thesis
    using text_digits_nat_text [OF b, of "[]"] assms u by (simp add: utils_intToText_def Let_def)
qed

lemma id_text_short: "length (nat_text (unat (i :: u16))) \<le> 5"
proof -
  have "length (nat_text n) \<le> 5" if "n < 100000" for n
    using that by (simp add: nat_text.simps)
  then show ?thesis using unat_u16 [of i] by simp
qed

lemma append_id_fits:
  "length s + 7 \<le> n \<Longrightarrow> append_id s n i = Inr (Some (s @ nat_text (unat i)))"
  using id_text_short [of i] by (simp add: append_id_def id_text)

lemma toString_text:
  assumes "good_ids ids" and "25 \<le> n"
  shows "\<exists>depth. uri_toString (Some (uri_of ids)) n = Inr (Some (uri_text ids @ [47], depth))"
  using assms(1)
proof (cases rule: good_ids_cases)
  case (1 a)
  then show ?thesis using assms(2)
    by (simp add: uri_toString_def append_id_fits is_set_instance_def uri_text_def)
next
  case (2 a b)
  then show ?thesis using assms(2) id_text_short [of a]
    by (simp add: uri_toString_def append_id_fits is_set_instance_def is_set_resource_def uri_text_def)
next
  case (3 a b c)
  then show ?thesis using assms(2) id_text_short [of a] id_text_short [of b]
    by (simp add: uri_toString_def append_id_fits is_set_instance_def is_set_resource_def uri_text_def)
qed

text \<open>
  \<^verbatim>\<open>uri_toString\<close> ends every text with a slash: \<^verbatim>\<open>lwm2m_stringToUri\<close> reads back a URI without a
  resource id, but refuses the text of one that has it.
\<close>

theorem uri_roundtrip_slash:
  assumes "good_ids ids" and "25 \<le> n"
  shows "\<exists>s depth. uri_toString (Some (uri_of ids)) n = Inr (Some (s, depth))
    \<and> lwm2m_stringToUri (s @ r) (length s) =
        Inr (if length ids = 3 then None else Some (length s, uri_of ids))"
proof -
  obtain depth where t: "uri_toString (Some (uri_of ids)) n = Inr (Some (uri_text ids @ [47], depth))"
    using toString_text [OF assms] by blast
  have "lwm2m_stringToUri ((uri_text ids @ [47]) @ r) (length (uri_text ids @ [47])) =
      Inr (if length ids = 3 then None else Some (length (uri_text ids @ [47]), uri_of ids))"
    using assms(1)
  proof (cases rule: good_ids_cases)
    case (1 a)
    then show ?thesis using segment_slash [of a "[]" r]
      unfolding lwm2m_stringToUri_def take_drop_parts if_False
      by (simp add: uri_text_def zero_uri_def Let_def)
  next
    case (2 a b)
    then show ?thesis using segment_slash [of a] segment_slash [of b "[]" r]
      unfolding lwm2m_stringToUri_def take_drop_parts if_False
      by (simp add: uri_text_def zero_uri_def Let_def)
  next
    case (3 a b c)
    then show ?thesis
      using segment_slash [of a] segment_slash [of b] parse_id [of "[47]" c r]
      unfolding lwm2m_stringToUri_def take_drop_parts if_False
      by (simp add: uri_text_def zero_uri_def Let_def)
  qed
  then show ?thesis using t by blast
qed

lemma uri_roundtrip_slash_witness:
  "\<exists>s depth. uri_toString (Some (uri_of [3, 0, 15])) 32 = Inr (Some (s, depth))
    \<and> lwm2m_stringToUri (s @ [0]) (length s) =
        Inr (if length [3, 0, 15 :: u16] = 3 then None else Some (length s, uri_of [3, 0, 15]))"
  by (rule uri_roundtrip_slash) (simp_all add: good_ids_def)

text \<open>A URI as path options: the same ids, decoded one by one.\<close>

lemma getNumber_id: "uri_getNumber (nat_text (unat (i :: u16))) (length (nat_text (unat i))) = Inr (Some (uint i))"
  using parse_id [of "[]" i "[]"] by (simp add: uri_getNumber_def)

text \<open>
  The path options of a URI, its ids in decimal, are decoded to that URI; with an alternative path
  the first option only has to be a prefix of it, so even an empty one is accepted in its place.
\<close>

theorem uri_decode_path:
  assumes "good_ids ids" and "w \<noteq> bytes ''rd''" and "w \<noteq> bytes ''bs''"
  shows "uri_decode None (map (\<lambda>i. nat_text (unat i)) ids) [] = Inr (Some (uri_of ids), [])
    \<and> uri_decode (Some (47 # w @ v @ [0])) (w # map (\<lambda>i. nat_text (unat i)) ids) []
      = Inr (Some (uri_of ids), [])"
proof -
  have alt: "match_alt w (w @ v @ [0]) = Inr True" by (induction w) auto
  have "nat_text n \<noteq> bytes ''rd''" and "nat_text n \<noteq> bytes ''bs''" for n
    using nat_text_digits [of n] by (auto simp: bytes_def is_digit_byte_def)
  note ne = this
  have obj: "decode_object zero_uri (map (\<lambda>i. nat_text (unat i)) ids) = Inr (Some (uri_of ids))"
    using assms(1)
    by (cases rule: good_ids_cases)
      (simp_all add: decode_object_def decode_instance_def decode_resource_def getNumber_id Let_def
        zero_uri_def is_set_instance_def)
  have hd: "map (\<lambda>i. nat_text (unat i)) ids \<noteq> []" "hd (map (\<lambda>i. nat_text (unat i)) ids) \<noteq> []"
    "hd (map (\<lambda>i. nat_text (unat i)) ids) \<noteq> bytes ''rd''"
    "hd (map (\<lambda>i. nat_text (unat i)) ids) \<noteq> bytes ''bs''"
    using assms(1) ne by (cases ids; auto simp: good_ids_def)+
  show ?thesis
    using hd assms(2,3) by (simp add: uri_decode_def lwm2m_malloc_def obj alt)
qed

lemma uri_decode_path_witness:
  "uri_decode None (map (\<lambda>i. nat_text (unat i)) [3, 0 :: u16]) [] = Inr (Some (uri_of [3, 0]), [])
    \<and> uri_decode (Some (47 # bytes ''lw'' @ bytes ''m2m'' @ [0]))
        (bytes ''lw'' # map (\<lambda>i. nat_text (unat i)) [3, 0 :: u16]) []
      = Inr (Some (uri_of [3, 0]), [])"
  by (rule uri_decode_path) (simp_all add: good_ids_def bytes_def)

end
