(* ===== verification/Server_Shell.thy ===== *)
theory Server_Shell
imports Command_Line C_Float Uri Lwm2m_Types Lwm2m_List
begin

text \<open>
  The shell of the LWM2M server demo, \<^verbatim>\<open>samples/stm32/lwm2m/server/lwm2m_server_main.c\<close>: the commands
  of its command line, the printing of registered clients and the options of the program. The
  device management calls of wakaama are an argument \<open>dm\<close>, which answers a request with a status and
  changes the context; what a command prints is its result.
\<close>

unbundle bit_operations_syntax

section \<open>Requests to the library\<close>

datatype request =
    Dm_read u16 lwm2m_uri
  | Dm_discover u16 lwm2m_uri
  | Dm_write u16 lwm2m_uri "byte list"
  | Dm_write_attributes u16 lwm2m_uri lwm2m_attributes
  | Dm_execute u16 lwm2m_uri "byte list option"
  | Dm_create u16 lwm2m_uri media_type "byte list"
  | Dm_delete u16 lwm2m_uri
  | Observe u16 lwm2m_uri
  | Observe_cancel u16 lwm2m_uri

definition prv_print_error :: "byte \<Rightarrow> byte list" where
  "prv_print_error status = bytes ''Error: '' @ print_status status @ CRLF"

text \<open>The last lines of every command: one call, and the text for its status.\<close>

definition issue :: "(request \<Rightarrow> 'x \<Rightarrow> int \<times> 'x) \<Rightarrow> request \<Rightarrow> 'x \<Rightarrow> byte list \<times> 'x" where
  "issue dm r x =
     (case dm r x of (status, x') \<Rightarrow>
        (if status = 0 then bytes ''OK'' else prv_print_error (word_of_int status), x'))"

definition SYNTAX_ERROR :: "byte list" where "SYNTAX_ERROR = bytes ''Syntax error !''"

section \<open>Reading arguments\<close>

definition prv_read_id :: "byte list \<Rightarrow> u16 option res" where
  "prv_read_id buffer =
     bindE (scan_int 32 buffer) (\<lambda>v.
       Inr (case v of
         None \<Rightarrow> None
       | Some value \<Rightarrow> if value < 0 \<or> 65535 < value then None else Some (word_of_int value)))"

text \<open>
  How every command starts: the client id, the next argument as a URI, and the rest of the line
  behind it; \<open>None\<close> is the jump to \<^verbatim>\<open>syntax_error\<close>.
\<close>

definition client_and_uri :: "byte list \<Rightarrow> (u16 \<times> lwm2m_uri \<times> byte list) option res" where
  "client_and_uri buffer =
     bindE (prv_read_id buffer) (\<lambda>r.
       case r of
         None \<Rightarrow> Inr None
       | Some clientId \<Rightarrow>
         bindE (get_next_arg buffer) (\<lambda>(arg, e).
           if hd arg = 0 then Inr None
           else bindE (lwm2m_stringToUri arg (length arg - length e)) (\<lambda>u.
             Inr (map_option (\<lambda>(_, uri). (clientId, uri, e)) u))))"

section \<open>The commands\<close>

text \<open>The commands with a client and a URI only: \<open>request\<close> is the call they end in.\<close>

definition plain_command ::
    "(u16 \<Rightarrow> lwm2m_uri \<Rightarrow> request) \<Rightarrow> (request \<Rightarrow> 'x \<Rightarrow> int \<times> 'x) \<Rightarrow> byte list \<Rightarrow> 'x \<Rightarrow> (byte list \<times> 'x) res" where
  "plain_command request dm buffer x =
     bindE (client_and_uri buffer) (\<lambda>r.
       case r of
         None \<Rightarrow> Inr (SYNTAX_ERROR, x)
       | Some (clientId, uri, e) \<Rightarrow>
         bindE (check_end_of_args e) (\<lambda>done'.
           Inr (if done' then issue dm (request clientId uri) x else (SYNTAX_ERROR, x))))"

definition prv_read_client :: "(request \<Rightarrow> 'x \<Rightarrow> int \<times> 'x) \<Rightarrow> byte list \<Rightarrow> 'x \<Rightarrow> (byte list \<times> 'x) res" where
  "prv_read_client = plain_command Dm_read"

definition prv_discover_client :: "(request \<Rightarrow> 'x \<Rightarrow> int \<times> 'x) \<Rightarrow> byte list \<Rightarrow> 'x \<Rightarrow> (byte list \<times> 'x) res" where
  "prv_discover_client = plain_command Dm_discover"

definition prv_delete_client :: "(request \<Rightarrow> 'x \<Rightarrow> int \<times> 'x) \<Rightarrow> byte list \<Rightarrow> 'x \<Rightarrow> (byte list \<times> 'x) res" where
  "prv_delete_client = plain_command Dm_delete"

definition prv_observe_client :: "(request \<Rightarrow> 'x \<Rightarrow> int \<times> 'x) \<Rightarrow> byte list \<Rightarrow> 'x \<Rightarrow> (byte list \<times> 'x) res" where
  "prv_observe_client = plain_command Observe"

definition prv_cancel_client :: "(request \<Rightarrow> 'x \<Rightarrow> int \<times> 'x) \<Rightarrow> byte list \<Rightarrow> 'x \<Rightarrow> (byte list \<times> 'x) res" where
  "prv_cancel_client = plain_command Observe_cancel"

definition prv_write_client :: "(request \<Rightarrow> 'x \<Rightarrow> int \<times> 'x) \<Rightarrow> byte list \<Rightarrow> 'x \<Rightarrow> (byte list \<times> 'x) res" where
  "prv_write_client dm buffer x =
     bindE (client_and_uri buffer) (\<lambda>r.
       case r of
         None \<Rightarrow> Inr (SYNTAX_ERROR, x)
       | Some (clientId, uri, e) \<Rightarrow>
         bindE (get_next_arg e) (\<lambda>(arg, e').
           if hd arg = 0 then Inr (SYNTAX_ERROR, x)
           else bindE (check_end_of_args e') (\<lambda>done'.
             Inr (if done' then issue dm (Dm_write clientId uri (take (length arg - length e') arg)) x
                  else (SYNTAX_ERROR, x)))))"

text \<open>A period of the \<open>time\<close> command: the next argument as a number that is not negative.\<close>

definition read_period :: "byte list \<Rightarrow> (u32 \<times> byte list) option res" where
  "read_period e =
     bindE (get_next_arg e) (\<lambda>(arg, e').
       if hd arg = 0 then Inr None
       else bindE (scan_int 32 arg) (\<lambda>v.
         Inr (case v of
           None \<Rightarrow> None
         | Some value \<Rightarrow> if value < 0 then None else Some (word_of_int value, e'))))"

definition prv_time_client :: "(request \<Rightarrow> 'x \<Rightarrow> int \<times> 'x) \<Rightarrow> byte list \<Rightarrow> 'x \<Rightarrow> (byte list \<times> 'x) res" where
  "prv_time_client dm buffer x =
     bindE (client_and_uri buffer) (\<lambda>r.
       case r of
         None \<Rightarrow> Inr (SYNTAX_ERROR, x)
       | Some (clientId, uri, e) \<Rightarrow>
         bindE (read_period e) (\<lambda>p.
           case p of
             None \<Rightarrow> Inr (SYNTAX_ERROR, x)
           | Some (pmin, e') \<Rightarrow>
             bindE (read_period e') (\<lambda>q.
               case q of
                 None \<Rightarrow> Inr (SYNTAX_ERROR, x)
               | Some (pmax, e'') \<Rightarrow>
                 bindE (check_end_of_args e'') (\<lambda>done'.
                   Inr (if done'
                        then issue dm (Dm_write_attributes clientId uri
                          (zero_attributes\<lparr>toSet := 0x01 OR 0x02, minPeriod := pmin, maxPeriod := pmax\<rparr>)) x
                        else (SYNTAX_ERROR, x))))))"

text \<open>A limit of the \<open>attr\<close> command: the next argument as a float.\<close>

definition read_limit :: "byte list \<Rightarrow> (double \<times> byte list) option res" where
  "read_limit e =
     bindE (get_next_arg e) (\<lambda>(arg, e').
       if hd arg = 0 then Inr None
       else bindE (scan_float arg) (\<lambda>v. Inr (map_option (\<lambda>f. (float_to_double f, e')) v)))"

text \<open>The third limit is optional; when it is missing the end of the line is reached all the same.\<close>

definition prv_attr_client :: "(request \<Rightarrow> 'x \<Rightarrow> int \<times> 'x) \<Rightarrow> byte list \<Rightarrow> 'x \<Rightarrow> (byte list \<times> 'x) res" where
  "prv_attr_client dm buffer x =
     bindE (client_and_uri buffer) (\<lambda>r.
       case r of
         None \<Rightarrow> Inr (SYNTAX_ERROR, x)
       | Some (clientId, uri, e) \<Rightarrow>
         bindE (read_limit e) (\<lambda>p.
           case p of
             None \<Rightarrow> Inr (SYNTAX_ERROR, x)
           | Some (lt, e') \<Rightarrow>
             bindE (read_limit e') (\<lambda>q.
               case q of
                 None \<Rightarrow> Inr (SYNTAX_ERROR, x)
               | Some (gt, e'') \<Rightarrow>
                 let attr = zero_attributes\<lparr>toSet := 0x08 OR 0x04, lessThan := lt, greaterThan := gt\<rparr> in
                 bindE (get_next_arg e'') (\<lambda>(arg, e3).
                 bindE (if hd arg = 0 then Inr (Some attr)
                        else bindE (scan_float arg) (\<lambda>v. Inr (map_option
                          (\<lambda>f. attr\<lparr>step := float_to_double f, toSet := toSet attr OR 0x10\<rparr>) v))) (\<lambda>a.
                   case a of
                     None \<Rightarrow> Inr (SYNTAX_ERROR, x)
                   | Some attr' \<Rightarrow>
                     bindE (check_end_of_args e3) (\<lambda>done'.
                       Inr (if done' then issue dm (Dm_write_attributes clientId uri attr') x
                            else (SYNTAX_ERROR, x))))))))"

text \<open>The check at the end is made behind the argument after the URI, so one more argument passes.\<close>

definition prv_clear_client :: "(request \<Rightarrow> 'x \<Rightarrow> int \<times> 'x) \<Rightarrow> byte list \<Rightarrow> 'x \<Rightarrow> (byte list \<times> 'x) res" where
  "prv_clear_client dm buffer x =
     bindE (client_and_uri buffer) (\<lambda>r.
       case r of
         None \<Rightarrow> Inr (SYNTAX_ERROR, x)
       | Some (clientId, uri, e) \<Rightarrow>
         bindE (get_next_arg e) (\<lambda>(_, e').
         bindE (check_end_of_args e') (\<lambda>done'.
           Inr (if done'
                then issue dm (Dm_write_attributes clientId uri
                  (zero_attributes\<lparr>toClear := 0x08 OR 0x04 OR 0x10 OR 0x01 OR 0x02\<rparr>)) x
                else (SYNTAX_ERROR, x)))))"

definition prv_exec_client :: "(request \<Rightarrow> 'x \<Rightarrow> int \<times> 'x) \<Rightarrow> byte list \<Rightarrow> 'x \<Rightarrow> (byte list \<times> 'x) res" where
  "prv_exec_client dm buffer x =
     bindE (client_and_uri buffer) (\<lambda>r.
       case r of
         None \<Rightarrow> Inr (SYNTAX_ERROR, x)
       | Some (clientId, uri, e) \<Rightarrow>
         bindE (get_next_arg e) (\<lambda>(arg, e').
           if hd arg = 0 then Inr (issue dm (Dm_execute clientId uri None) x)
           else bindE (check_end_of_args e') (\<lambda>done'.
             Inr (if done'
                  then issue dm (Dm_execute clientId uri (Some (take (length arg - length e') arg))) x
                  else (SYNTAX_ERROR, x)))))"

text \<open>
  The data of a create is only used for object 1024, as the value of its resource 1 in TLV; for
  every other object the request carries no data.
\<close>

definition prv_create_client ::
    "(request \<Rightarrow> 'x \<Rightarrow> int \<times> 'x) \<Rightarrow> byte list \<Rightarrow> 'x \<Rightarrow> mem \<Rightarrow> (byte list \<times> 'x \<times> mem) res" where
  "prv_create_client dm buffer x m =
     bindE (client_and_uri buffer) (\<lambda>r.
       case r of
         None \<Rightarrow> Inr (SYNTAX_ERROR, x, m)
       | Some (clientId, uri, e) \<Rightarrow>
         bindE (get_next_arg e) (\<lambda>(arg, e').
           if hd arg = 0 then Inr (SYNTAX_ERROR, x, m)
           else bindE (check_end_of_args e') (\<lambda>done'.
             if \<not> done' then Inr (SYNTAX_ERROR, x, m)
             else if objectId uri = 1024 then
               bindE (scan_int 64 arg) (\<lambda>v.
                 case v of
                   None \<Rightarrow> Inr (bytes ''Invalid value !'', x, m)
                 | Some value \<Rightarrow>
                   (case lwm2m_data_new 1 m of
                      ([], m1) \<Rightarrow> Inr (bytes ''Allocation error !'', x, m1)
                    | (_ # _, m1) \<Rightarrow>
                      bindE (tlv_serialize False 1
                          [lwm2m_data_encode_int (word_of_int value) (Data 1 V_undefined)] m1)
                        (\<lambda>(cells, m2).
                          case issue dm (Dm_create clientId uri CONTENT_TLV
                              (case cells of None \<Rightarrow> [] | Some cs \<Rightarrow> map the cs)) x of
                            (t, x') \<Rightarrow> Inr (t, x', m2))))
             else
               (case issue dm (Dm_create clientId uri CONTENT_TEXT []) x of
                  (t, x') \<Rightarrow> Inr (t, x', m)))))"

section \<open>Registered clients\<close>

record lwm2m_client_object =
  object_id :: u16
  instances :: "u16 list"

record lwm2m_client =
  internalID :: u16
  client_name :: "byte list"
  binding :: lwm2m_binding
  msisdn :: "byte list option"
  altPath :: "byte list option"
  lifetime :: u32
  objectList :: "lwm2m_client_object list"

definition prv_dump_binding :: "lwm2m_binding \<Rightarrow> byte list" where
  "prv_dump_binding b =
     (case b of
        BINDING_UNKNOWN \<Rightarrow> bytes ''Not specified''
      | BINDING_U \<Rightarrow> bytes ''UDP''
      | BINDING_UQ \<Rightarrow> bytes ''UDP queue mode''
      | BINDING_S \<Rightarrow> bytes ''SMS''
      | BINDING_SQ \<Rightarrow> bytes ''SMS queue mode''
      | BINDING_US \<Rightarrow> bytes ''UDP plus SMS''
      | BINDING_UQS \<Rightarrow> bytes ''UDP queue mode plus SMS''
      | _ \<Rightarrow> [])"

definition dump_client_object :: "lwm2m_client_object \<Rightarrow> byte list" where
  "dump_client_object obj =
     (let path = 47 # int_text (uint (object_id obj)) in
      if instances obj = [] then path @ bytes '', ''
      else concat (map (\<lambda>i. path @ 47 # int_text (uint i) @ bytes '', '') (instances obj)))"

definition prv_dump_client :: "lwm2m_client \<Rightarrow> byte list" where
  "prv_dump_client t =
     bytes ''Client #'' @ int_text (uint (internalID t)) @ [58] @ CRLF
     @ [9] @ bytes ''name: '' @ [34] @ client_name t @ [34] @ CRLF
     @ [9] @ bytes ''binding: '' @ [34] @ prv_dump_binding (binding t) @ [34] @ CRLF
     @ (case msisdn t of None \<Rightarrow> [] | Some s \<Rightarrow> [9] @ bytes ''msisdn: '' @ [34] @ s @ [34] @ CRLF)
     @ (case altPath t of None \<Rightarrow> []
        | Some s \<Rightarrow> [9] @ bytes ''alternative path: '' @ [34] @ s @ [34] @ CRLF)
     @ [9] @ bytes ''lifetime: '' @ int_text (sint (lifetime t)) @ bytes '' sec'' @ CRLF
     @ [9] @ bytes ''objects: '' @ concat (map dump_client_object (objectList t)) @ CRLF"

definition prv_output_clients :: "lwm2m_client list \<Rightarrow> byte list" where
  "prv_output_clients clientList =
     (if clientList = [] then bytes ''No client.'' @ CRLF
      else concat (map prv_dump_client clientList))"

section \<open>Callbacks of the library\<close>

definition PROMPT :: "byte list" where "PROMPT = CRLF @ bytes ''> ''"

text \<open>The path a result or a notification is for.\<close>

definition result_path :: "u16 \<Rightarrow> lwm2m_uri \<Rightarrow> byte list" where
  "result_path clientID uri =
     int_text (uint clientID) @ bytes '' /'' @ int_text (uint (objectId uri))
     @ (if is_set_instance uri then 47 # int_text (uint (instanceId uri))
        else if is_set_resource uri then [47] else [])
     @ (if is_set_resource uri then 47 # int_text (uint (resourceId uri)) else [])"

definition prv_result_callback ::
    "u16 \<Rightarrow> lwm2m_uri \<Rightarrow> int \<Rightarrow> media_type \<Rightarrow> byte list option \<Rightarrow> int \<Rightarrow> printed list res" where
  "prv_result_callback clientID uri status format data n =
     bindE (output_data format data n 1) (\<lambda>d.
       Inr ([Txt (CRLF @ bytes ''Client #'' @ result_path clientID uri @ bytes '' : ''
               @ print_status (word_of_int status) @ CRLF)]
         @ d @ [Txt PROMPT]))"

definition prv_notify_callback ::
    "u16 \<Rightarrow> lwm2m_uri \<Rightarrow> int \<Rightarrow> media_type \<Rightarrow> byte list option \<Rightarrow> int \<Rightarrow> printed list res" where
  "prv_notify_callback clientID uri count format data n =
     bindE (output_data format data n 1) (\<lambda>d.
       Inr ([Txt (CRLF @ bytes ''Notify from client #'' @ result_path clientID uri
               @ bytes '' number '' @ int_text count @ CRLF)]
         @ d @ [Txt PROMPT]))"

text \<open>A registration or an update prints the client found in the list, without a null test.\<close>

definition prv_monitor_callback :: "lwm2m_client list \<Rightarrow> u16 \<Rightarrow> int \<Rightarrow> byte list res" where
  "prv_monitor_callback clientList clientID status =
     bindE
       (let dump = (case lwm2m_list_find internalID clientList clientID of
                      None \<Rightarrow> Inl NullDeref
                    | Some t \<Rightarrow> Inr (prv_dump_client t)) in
        if status = 0x41 then
          bindE dump (\<lambda>d. Inr (CRLF @ bytes ''New client #'' @ int_text (uint clientID)
            @ bytes '' registered.'' @ CRLF @ d))
        else if status = 0x42 then
          Inr (CRLF @ bytes ''Client #'' @ int_text (uint clientID) @ bytes '' unregistered.'' @ CRLF)
        else if status = 0x44 then
          bindE dump (\<lambda>d. Inr (CRLF @ bytes ''Client #'' @ int_text (uint clientID)
            @ bytes '' updated.'' @ CRLF @ d))
        else Inr (CRLF @ bytes ''Monitor callback called with an unknown status: ''
            @ int_text status @ [46] @ CRLF))
       (\<lambda>t. Inr (t @ PROMPT))"

section \<open>The shell\<close>

datatype shell_callback =
    CMD_list | CMD_read | CMD_disc | CMD_write | CMD_time | CMD_attr | CMD_clear | CMD_exec
  | CMD_del | CMD_create | CMD_observe | CMD_cancel | CMD_quit

definition commands :: "(shell_callback, unit) command_desc list" where
  "commands =
     [\<lparr>name = Some (bytes ''list''), shortDesc = bytes ''List registered clients.'',
        longDesc = None,
        callback = CMD_list, userData = ()\<rparr>,
      \<lparr>name = Some (bytes ''read''), shortDesc = bytes ''Read from a client.'',
        longDesc = Some (
          bytes '' read CLIENT# URI'' @ [13, 10] @
          bytes ''   CLIENT#: client number as returned by command '' @ [39] @
          bytes ''list'' @ [39, 13, 10] @
          bytes ''   URI: uri to read such as /3, /3/0/2, /1024/11, /1024/0/1'' @ [13, 10] @
          bytes ''Result will be displayed asynchronously.''),
        callback = CMD_read, userData = ()\<rparr>,
      \<lparr>name = Some (bytes ''disc''), shortDesc = bytes ''Discover resources of a client.'',
        longDesc = Some (
          bytes '' disc CLIENT# URI'' @ [13, 10] @
          bytes ''   CLIENT#: client number as returned by command '' @ [39] @
          bytes ''list'' @ [39, 13, 10] @
          bytes ''   URI: uri to discover such as /3, /3/0/2, /1024/11, /1024/0/1'' @
          [13, 10] @ bytes ''Result will be displayed asynchronously.''),
        callback = CMD_disc, userData = ()\<rparr>,
      \<lparr>name = Some (bytes ''write''), shortDesc = bytes ''Write to a client.'',
        longDesc = Some (
          bytes '' write CLIENT# URI DATA'' @ [13, 10] @
          bytes ''   CLIENT#: client number as returned by command '' @ [39] @
          bytes ''list'' @ [39, 13, 10] @
          bytes ''   URI: uri to write to such as /3, /3/0/2, /1024/11, /1024/0/1'' @
          [13, 10] @ bytes ''   DATA: data to write'' @ [13, 10] @
          bytes ''Result will be displayed asynchronously.''),
        callback = CMD_write, userData = ()\<rparr>,
      \<lparr>name = Some (bytes ''time''), shortDesc = bytes ''Write time-related attributes to a client.'',
        longDesc = Some (
          bytes '' time CLIENT# URI PMIN PMAX'' @ [13, 10] @
          bytes ''   CLIENT#: client number as returned by command '' @ [39] @
          bytes ''list'' @ [39, 13, 10] @
          bytes ''   URI: uri to write attributes to such as /3, /3/0/2, /1024/11, /1024/0/1'' @
          [13, 10] @ bytes ''   PMIN: Minimum period'' @ [13, 10] @
          bytes ''   PMAX: Maximum period'' @ [13, 10] @
          bytes ''Result will be displayed asynchronously.''),
        callback = CMD_time, userData = ()\<rparr>,
      \<lparr>name = Some (bytes ''attr''), shortDesc = bytes ''Write value-related attributes to a client.'',
        longDesc = Some (
          bytes '' attr CLIENT# URI LT GT [STEP]'' @ [13, 10] @
          bytes ''   CLIENT#: client number as returned by command '' @ [39] @
          bytes ''list'' @ [39, 13, 10] @
          bytes ''   URI: uri to write attributes to such as /3, /3/0/2, /1024/11, /1024/0/1'' @
          [13, 10] @ bytes ''   LT: '' @ [34] @ bytes ''Less than'' @ [34] @
          bytes '' value'' @ [13, 10] @ bytes ''   GT: '' @ [34] @ bytes ''Greater than'' @
          [34] @ bytes '' value'' @ [13, 10] @ bytes ''   STEP: '' @ [34] @ bytes ''Step'' @
          [34] @ bytes '' value'' @ [13, 10] @
          bytes ''Result will be displayed asynchronously.''),
        callback = CMD_attr, userData = ()\<rparr>,
      \<lparr>name = Some (bytes ''clear''), shortDesc = bytes ''Clear attributes of a client.'',
        longDesc = Some (
          bytes '' clear CLIENT# URI'' @ [13, 10] @
          bytes ''   CLIENT#: client number as returned by command '' @ [39] @
          bytes ''list'' @ [39, 13, 10] @
          bytes ''   URI: uri to clear attributes of such as /3, /3/0/2, /1024/11, /1024/0/1'' @
          [13, 10] @ bytes ''Result will be displayed asynchronously.''),
        callback = CMD_clear, userData = ()\<rparr>,
      \<lparr>name = Some (bytes ''exec''), shortDesc = bytes ''Execute a client resource.'',
        longDesc = Some (
          bytes '' exec CLIENT# URI'' @ [13, 10] @
          bytes ''   CLIENT#: client number as returned by command '' @ [39] @
          bytes ''list'' @ [39, 13, 10] @
          bytes ''   URI: uri of the resource to execute such as /3/0/2'' @ [13, 10] @
          bytes ''Result will be displayed asynchronously.''),
        callback = CMD_exec, userData = ()\<rparr>,
      \<lparr>name = Some (bytes ''del''), shortDesc = bytes ''Delete a client Object instance.'',
        longDesc = Some (
          bytes '' del CLIENT# URI'' @ [13, 10] @
          bytes ''   CLIENT#: client number as returned by command '' @ [39] @
          bytes ''list'' @ [39, 13, 10] @
          bytes ''   URI: uri of the instance to delete such as /1024/11'' @ [13, 10] @
          bytes ''Result will be displayed asynchronously.''),
        callback = CMD_del, userData = ()\<rparr>,
      \<lparr>name = Some (bytes ''create''), shortDesc = bytes ''create an Object instance.'',
        longDesc = Some (
          bytes '' create CLIENT# URI DATA'' @ [13, 10] @
          bytes ''   CLIENT#: client number as returned by command '' @ [39] @
          bytes ''list'' @ [39, 13, 10] @
          bytes ''   URI: uri to which create the Object Instance such as /1024, /1024/45 '' @
          [13, 10] @
          bytes ''   DATA: data to initialize the new Object Instance (0-255 for object 1024) '' @
          [13, 10] @ bytes ''Result will be displayed asynchronously.''),
        callback = CMD_create, userData = ()\<rparr>,
      \<lparr>name = Some (bytes ''observe''), shortDesc = bytes ''Observe from a client.'',
        longDesc = Some (
          bytes '' observe CLIENT# URI'' @ [13, 10] @
          bytes ''   CLIENT#: client number as returned by command '' @ [39] @
          bytes ''list'' @ [39, 13, 10] @
          bytes ''   URI: uri to observe such as /3, /3/0/2, /1024/11'' @ [13, 10] @
          bytes ''Result will be displayed asynchronously.''),
        callback = CMD_observe, userData = ()\<rparr>,
      \<lparr>name = Some (bytes ''cancel''), shortDesc = bytes ''Cancel an observe.'',
        longDesc = Some (
          bytes '' cancel CLIENT# URI'' @ [13, 10] @
          bytes ''   CLIENT#: client number as returned by command '' @ [39] @
          bytes ''list'' @ [39, 13, 10] @
          bytes ''   URI: uri on which to cancel an observe such as /3, /3/0/2, /1024/11'' @
          [13, 10] @ bytes ''Result will be displayed asynchronously.''),
        callback = CMD_cancel, userData = ()\<rparr>,
      \<lparr>name = Some (bytes ''q''), shortDesc = bytes ''Quit the server.'',
        longDesc = None,
        callback = CMD_quit, userData = ()\<rparr>,
      \<lparr>name = None, shortDesc = [], longDesc = None, callback = CMD_quit, userData = ()\<rparr>]"

record 'x server_state =
  g_quit :: int
  clientList :: "lwm2m_client list"
  library :: 'x

definition run_callback ::
    "(request \<Rightarrow> 'x server_state \<Rightarrow> int \<times> 'x server_state) \<Rightarrow> shell_callback \<Rightarrow> byte list
     \<Rightarrow> 'x server_state \<Rightarrow> mem \<Rightarrow> (byte list \<times> 'x server_state \<times> mem) res" where
  "run_callback dm cb buffer x m =
     (let plain = (\<lambda>f. bindE (f dm buffer x) (\<lambda>(t, x'). Inr (t, x', m))) in
      case cb of
        CMD_list \<Rightarrow> Inr (prv_output_clients (clientList x), x, m)
      | CMD_read \<Rightarrow> plain prv_read_client
      | CMD_disc \<Rightarrow> plain prv_discover_client
      | CMD_write \<Rightarrow> plain prv_write_client
      | CMD_time \<Rightarrow> plain prv_time_client
      | CMD_attr \<Rightarrow> plain prv_attr_client
      | CMD_clear \<Rightarrow> plain prv_clear_client
      | CMD_exec \<Rightarrow> plain prv_exec_client
      | CMD_del \<Rightarrow> plain prv_delete_client
      | CMD_create \<Rightarrow> prv_create_client dm buffer x m
      | CMD_observe \<Rightarrow> plain prv_observe_client
      | CMD_cancel \<Rightarrow> plain prv_cancel_client
      | CMD_quit \<Rightarrow> Inr ([], x\<lparr>g_quit := 1\<rparr>, m))"

text \<open>One line of input, as the main loop hands it to \<^verbatim>\<open>handle_command\<close>.\<close>

definition shell_line ::
    "(request \<Rightarrow> 'x server_state \<Rightarrow> int \<times> 'x server_state) \<Rightarrow> byte list
     \<Rightarrow> 'x server_state \<Rightarrow> mem \<Rightarrow> (byte list \<times> 'x server_state \<times> mem) res" where
  "shell_line dm buffer x m =
     bindE (handle_command commands buffer) (\<lambda>a.
       case a of
         Print t \<Rightarrow> Inr (t, x, m)
       | Call cb arg _ \<Rightarrow> run_callback dm cb arg x m)"

section \<open>The pre-shared key option\<close>

definition MBEDTLS_PSK_MAX_LEN :: nat where "MBEDTLS_PSK_MAX_LEN = 32"

text \<open>The macro \<^verbatim>\<open>HEX2NUM\<close>; \<open>None\<close> is its \<^verbatim>\<open>return(-1)\<close>.\<close>

definition HEX2NUM :: "byte \<Rightarrow> byte option" where
  "HEX2NUM c =
     (if 48 \<le> c \<and> c \<le> 57 then Some (c - 48)
      else if 97 \<le> c \<and> c \<le> 102 then Some (c - 87)
      else if 65 \<le> c \<and> c \<le> 70 then Some (c - 55)
      else None)"

fun unhexify_pairs :: "byte list \<Rightarrow> byte list option" where
  "unhexify_pairs (a # b # s) =
     (case (HEX2NUM a, HEX2NUM b) of
        (Some x, Some y) \<Rightarrow> map_option ((#) (push_bit 4 x OR y)) (unhexify_pairs s)
      | _ \<Rightarrow> None)"
| "unhexify_pairs _ = Some []"

text \<open>The bytes written and their number when the result is 0; \<open>None\<close> is -1.\<close>

definition lwm2m_unhexify :: "byte list \<Rightarrow> byte list option res" where
  "lwm2m_unhexify input =
     bindE (c_string input) (\<lambda>s.
       Inr (if length s mod 2 \<noteq> 0 \<or> MBEDTLS_PSK_MAX_LEN < length s div 2 then None
            else unhexify_pairs s))"

section \<open>Commands on terminated lines\<close>

definition sound :: "'a res \<Rightarrow> bool" where
  "sound r \<longleftrightarrow> ok r \<or> r = Inl SignedOverflow"

lemma sound_simps [simp]:
  "sound (Inr x)"
  "sound (Inl e) \<longleftrightarrow> e = SignedOverflow"
  by (simp_all add: sound_def)

lemma sound_bindE: "sound m \<Longrightarrow> (\<And>x. m = Inr x \<Longrightarrow> sound (f x)) \<Longrightarrow> sound (bindE m f)"
  by (cases m) auto

lemma end_of_arg_terminated:
  "0 \<in> set b \<Longrightarrow> \<exists>e. get_end_of_arg b = Inr e \<and> 0 \<in> set e \<and> length e \<le> length b"
  by (induction b) (auto intro: le_SucI)

lemma end_of_space_terminated:
  "0 \<in> set b \<Longrightarrow> \<exists>e. prv_end_of_space b = Inr e \<and> 0 \<in> set e \<and> length e \<le> length b"
  by (induction b) (auto intro: le_SucI)

lemma next_arg_terminated:
  assumes "0 \<in> set b"
  obtains arg e where "get_next_arg b = Inr (arg, e)" and "0 \<in> set arg" and "0 \<in> set e"
    and "length e \<le> length arg"
proof -
  obtain b1 where b1: "get_end_of_arg b = Inr b1" "0 \<in> set b1"
    using end_of_arg_terminated [OF assms] by blast
  obtain b2 where b2: "prv_end_of_space b1 = Inr b2" "0 \<in> set b2"
    using end_of_space_terminated [OF b1(2)] by blast
  obtain e where "get_end_of_arg b2 = Inr e" "0 \<in> set e" "length e \<le> length b2"
    using end_of_arg_terminated [OF b2(2)] by blast
  then show thesis using that [of b2 e] b1 b2 by (simp add: get_next_arg_def)
qed

lemma check_end_sound: "0 \<in> set e \<Longrightarrow> \<exists>r. check_end_of_args e = Inr r"
  using end_of_space_terminated [of e] by (auto simp: check_end_of_args_def)

lemma scan_int_sound: "0 \<in> set b \<Longrightarrow> sound (scan_int w b)"
  using scan_int_outcome by (auto simp: sound_def)

lemma parse_digits_sound: "sound (parse_digits cs acc)"
  by (induction cs acc rule: parse_digits.induct) auto

lemma parseNumber_sound: "beyond \<noteq> [] \<Longrightarrow> sound (prv_parseNumber (rest @ beyond) (length rest))"
  by (simp add: prv_parseNumber_def parse_digits_sound)

lemma segment_sound: "beyond \<noteq> [] \<Longrightarrow> sound (uri_segment rest beyond)"
  unfolding uri_segment_def
  by (intro sound_bindE parseNumber_sound) (auto split: option.splits list.splits)

lemma stringToUri_sound: "n < length buffer \<Longrightarrow> sound (lwm2m_stringToUri buffer n)"
  unfolding lwm2m_stringToUri_def Let_def
  by (auto intro!: sound_bindE segment_sound parseNumber_sound split: list.split option.splits)

lemma client_and_uri_sound:
  assumes "0 \<in> set buffer"
  shows "sound (client_and_uri buffer)"
    and "client_and_uri buffer = Inr (Some (c, u, e)) \<Longrightarrow> 0 \<in> set e"
proof -
  obtain arg e' where a: "get_next_arg buffer = Inr (arg, e')" "0 \<in> set e'" "length e' \<le> length arg"
    using next_arg_terminated [OF assms] by blast
  have "length arg - length e' < length arg" using a(2,3) by (cases e') auto
  note uri = stringToUri_sound [OF this]
  show "sound (client_and_uri buffer)"
    unfolding client_and_uri_def prv_read_id_def
    by (auto intro!: sound_bindE scan_int_sound [OF assms] uri simp: a(1) split: option.splits)
  show "client_and_uri buffer = Inr (Some (c, u, e)) \<Longrightarrow> 0 \<in> set e"
    using a(2) by (auto simp: client_and_uri_def a(1) elim!: bindE_Inr_E split: option.splits if_splits)
qed

lemma with_client_sound:
  assumes "0 \<in> set buffer" and "\<And>c u e. 0 \<in> set e \<Longrightarrow> sound (f c u e)"
  shows "sound (bindE (client_and_uri buffer) (\<lambda>r. case r of None \<Rightarrow> Inr y | Some (c, u, e) \<Rightarrow> f c u e))"
  using client_and_uri_sound [OF assms(1)] assms(2)
  by (intro sound_bindE) (auto split: option.split)

lemma next_arg_sound:
  assumes "0 \<in> set b" and "\<And>arg e. 0 \<in> set arg \<Longrightarrow> 0 \<in> set e \<Longrightarrow> sound (f arg e)"
  shows "sound (bindE (get_next_arg b) (\<lambda>(arg, e). f arg e))"
  using next_arg_terminated [OF assms(1)] assms(2) by (metis bindE_simps(2) case_prod_conv)

lemma check_end_bind_sound:
  assumes "0 \<in> set e" and "\<And>b. sound (f b)"
  shows "sound (bindE (check_end_of_args e) f)"
  using check_end_sound [OF assms(1)] assms(2) by auto

lemma read_period_sound:
  assumes "0 \<in> set e" and "\<And>p e'. 0 \<in> set e' \<Longrightarrow> sound (f p e')"
  shows "sound (bindE (read_period e) (\<lambda>q. case q of None \<Rightarrow> Inr y | Some (p, e') \<Rightarrow> f p e'))"
proof -
  obtain arg e' where a: "get_next_arg e = Inr (arg, e')" "0 \<in> set arg" "0 \<in> set e'"
    using next_arg_terminated [OF assms(1)] by blast
  have "sound (read_period e)"
    using scan_int_sound [OF a(2), of 32] by (auto simp: read_period_def a(1) intro!: sound_bindE)
  moreover have "0 \<in> set e''" if "read_period e = Inr (Some (p, e''))" for p e''
    using that a(3) by (auto simp: read_period_def a(1) bindE_Inr_iff split: if_splits option.splits)
  ultimately show ?thesis
    using assms(2) by (intro sound_bindE) (auto split: option.split)
qed

lemmas command_sound = with_client_sound next_arg_sound check_end_bind_sound read_period_sound

lemma plain_command_sound: "0 \<in> set buffer \<Longrightarrow> sound (plain_command request dm buffer x)"
  unfolding plain_command_def by (intro command_sound) simp_all

lemma write_sound: "0 \<in> set buffer \<Longrightarrow> sound (prv_write_client dm buffer x)"
  unfolding prv_write_client_def by (intro command_sound) (auto intro!: command_sound)

lemma clear_sound: "0 \<in> set buffer \<Longrightarrow> sound (prv_clear_client dm buffer x)"
  unfolding prv_clear_client_def by (intro command_sound) auto

lemma exec_sound: "0 \<in> set buffer \<Longrightarrow> sound (prv_exec_client dm buffer x)"
  unfolding prv_exec_client_def by (intro command_sound) (auto intro!: command_sound)

lemma time_sound: "0 \<in> set buffer \<Longrightarrow> sound (prv_time_client dm buffer x)"
  unfolding prv_time_client_def by (intro command_sound) simp_all

lemma scan_float_sound: "0 \<in> set b \<Longrightarrow> sound (scan_float b)"
  using scan_float_ok by (simp add: sound_def)

lemma read_limit_sound:
  assumes "0 \<in> set e" and "\<And>p e'. 0 \<in> set e' \<Longrightarrow> sound (f p e')"
  shows "sound (bindE (read_limit e) (\<lambda>q. case q of None \<Rightarrow> Inr y | Some (p, e') \<Rightarrow> f p e'))"
proof -
  obtain arg e' where a: "get_next_arg e = Inr (arg, e')" "0 \<in> set arg" "0 \<in> set e'"
    using next_arg_terminated [OF assms(1)] by blast
  have "sound (read_limit e)"
    using scan_float_sound [OF a(2)] by (auto simp: read_limit_def a(1) intro!: sound_bindE)
  moreover have "0 \<in> set e''" if "read_limit e = Inr (Some (p, e''))" for p e''
    using that a(3) by (auto simp: read_limit_def a(1) bindE_Inr_iff split: if_splits)
  ultimately show ?thesis
    using assms(2) by (intro sound_bindE) (auto split: option.split)
qed

lemma attr_sound: "0 \<in> set buffer \<Longrightarrow> sound (prv_attr_client dm buffer x)"
  unfolding prv_attr_client_def Let_def
  by (intro command_sound read_limit_sound)
    (auto intro!: sound_bindE command_sound scan_float_sound split: option.split)

lemma one_integer_sound:
  "sound (tlv_serialize False (Suc 0) [Data 1 (V_integer v)] m)"
proof -
  have "tlv_wellformed [Data 1 (V_integer v)]"
    using utils_encodeInt_length [of v] by (auto simp: plain_payload_def)
  from serialize_bounded [OF this, of False m] show ?thesis
    by (auto simp del: tlv_serialize.simps tlv_wellformed.simps)
qed

lemma create_sound: "0 \<in> set buffer \<Longrightarrow> sound (prv_create_client dm buffer x m)"
  unfolding prv_create_client_def
  by (intro command_sound)
    (auto intro!: sound_bindE command_sound scan_int_sound one_integer_sound
      simp: lwm2m_data_encode_int_def
      split: option.split list.split prod.split simp del: tlv_serialize.simps)

lemma run_callback_sound: "0 \<in> set buffer \<Longrightarrow> sound (run_callback dm cb buffer x m)"
  by (cases cb)
    (auto simp: run_callback_def Let_def prv_read_client_def prv_discover_client_def prv_delete_client_def
      prv_observe_client_def prv_cancel_client_def
      intro!: sound_bindE plain_command_sound write_sound time_sound attr_sound clear_sound exec_sound create_sound)

lemma bytes_eq_iff [simp]: "bytes s = bytes t \<longleftrightarrow> s = t"
proof -
  have "inj (of_char :: char \<Rightarrow> byte)"
  proof (rule injI)
    fix c d :: char
    assume e: "(of_char c :: byte) = of_char d"
    have "of_char c = (of_nat (of_char c) :: byte)" for c :: char
      by (cases c) (simp add: of_char_Char)
    then have "(of_nat (of_char c) :: byte) = of_nat (of_char d)" using e by metis
    then show "c = d" by (simp add: word_of_nat_eq_iff take_bit_eq_mod)
  qed
  then show ?thesis by (simp add: bytes_def inj_map_eq_map)
qed

lemma commands_table: "command_table commands (butlast commands)"
  by (simp add: command_table_def commands_def)

lemma shell_line_sound:
  assumes "0 \<in> set buffer"
  shows "sound (shell_line dm buffer x m)"
proof -
  obtain e where e: "get_end_of_arg buffer = Inr e" "0 \<in> set e"
    using end_of_arg_terminated [OF assms] by blast
  obtain arg where arg: "prv_end_of_space e = Inr arg" "0 \<in> set arg"
    using end_of_space_terminated [OF e(2)] by blast
  have cmd: "\<exists>r. prv_find_command commands b n = Inr r" for b n
    by (simp add: prv_find_command_def commands_def)
  obtain e2 where e2: "get_end_of_arg arg = Inr e2"
    using end_of_arg_terminated [OF arg(2)] by blast
  have "\<exists>t. help_lines commands = Inr t" by (simp add: commands_def)
  then have "\<exists>t. prv_displayHelp commands arg = Inr t"
    using cmd [of arg "length arg - length e2"]
    by (auto simp: prv_displayHelp_def e2 split: option.split)
  moreover obtain r where r: "prv_find_command commands buffer (length buffer - length e) = Inr r"
    using cmd by blast
  ultimately show ?thesis
    using arg(2) by (auto simp: shell_line_def handle_command_def e(1) Let_def r arg(1)
        intro: run_callback_sound split: option.split)
qed

section \<open>What a line asks for\<close>

lemma zero_no_digit [simp]: "\<not> is_digit_byte 0"
  by (simp add: is_digit_byte_def)

lemma bytes_empty [simp]: "bytes s = [] \<longleftrightarrow> s = []" "[] = bytes s \<longleftrightarrow> s = []"
  by (simp_all add: bytes_def)

lemma nat_text_word: "is_word (nat_text n)"
  using nat_text_digits [of n] by (auto simp: is_word_def list_all_iff)

lemma is_word_append:
  "is_word (a @ b) \<longleftrightarrow> is_word a \<and> is_word b"
  "is_word (c # b) \<longleftrightarrow> c \<noteq> 0 \<and> \<not> isspace c \<and> is_word b"
  "is_word []"
  unfolding is_word_def by (simp_all add: ball_Un)

lemma uri_text_word: "is_word (uri_text ids)"
  by (induction ids) (simp_all add: uri_text_def is_word_append nat_text_word)

lemma int_text_u16: "int_text (uint (c :: u16)) = nat_text (unat c)"
  by (simp add: int_text_def)

lemma scan_id:
  assumes "ends_word r" and "0 \<in> set r"
  shows "scan_int 32 (int_text (uint (c :: u16)) @ r) = Inr (Some (uint c))"
proof -
  obtain p q where r: "r = p @ 0 # q" "0 \<notin> set p" using split_list_first [OF assms(2)] by blast
  have "\<not> is_digit_byte (hd r)"
    using assms(1) by (auto simp: ends_word_def)
  then have "p \<noteq> [] \<Longrightarrow> \<not> is_digit_byte (hd p)" using r(1) by (cases p) auto
  then show ?thesis
    using scan_int_text [of 32 "uint c" p q] r uint_u16 [of c] uint_ge_0 [of c]
    by (simp add: order_trans [OF _ uint_ge_0])
qed

text \<open>A line behind the command name: a client id, a URI, and the rest.\<close>

lemma client_and_uri_line:
  assumes "good_ids ids" and "spaces s" and "s \<noteq> []" and "ends_word r" and "0 \<in> set r"
  shows "client_and_uri (int_text (uint (c :: u16)) @ s @ uri_text ids @ r)
    = Inr (Some (c, uri_of ids, r))"
proof -
  have ne: "uri_text ids \<noteq> []" "hd (uri_text ids) = 47"
    using assms(1) by (cases ids; simp add: good_ids_def uri_text_def)+
  have "ends_word (s @ uri_text ids @ r)" using assms(2,3) by (cases s) (auto simp: ends_word_def spaces_def)
  then have id: "prv_read_id (int_text (uint c) @ s @ uri_text ids @ r) = Inr (Some c)"
    using scan_id assms(5) by (simp add: prv_read_id_def)
  have arg: "get_next_arg (int_text (uint c) @ s @ uri_text ids @ r) = Inr (uri_text ids @ r, r)"
    using assms(2-4) ne(1) by (intro next_arg) (simp_all add: int_text_u16 nat_text_word uri_text_word)
  obtain e r' where r0: "r = e # r'" using assms(4) by (cases r) (auto simp: ends_word_def)
  then have r: "r = e # r'" "e \<noteq> 47" using assms(4) by (auto simp: ends_word_def)
  show ?thesis
    using stringToUri_text [OF assms(1) r(2), of r'] ne r(1)
    unfolding client_and_uri_def id arg bindE_simps by simp
qed

definition command_names :: "(byte list option \<times> shell_callback) list" where
  "command_names = map (\<lambda>(s, cb). (Some (bytes s), cb))
      [(''list'', CMD_list), (''read'', CMD_read), (''disc'', CMD_disc), (''write'', CMD_write),
       (''time'', CMD_time), (''attr'', CMD_attr), (''clear'', CMD_clear), (''exec'', CMD_exec),
       (''del'', CMD_del), (''create'', CMD_create), (''observe'', CMD_observe),
       (''cancel'', CMD_cancel), (''q'', CMD_quit)]"

lemma named_commands: "map (\<lambda>d. (name d, callback d)) (butlast commands) = command_names"
  by (simp only: commands_def command_names_def butlast.simps list.map command_desc.simps prod.case
      refl list.distinct if_False if_True)

lemma find_map_of:
  "map_of (map (\<lambda>d. (f d, g d)) xs) k = Some c \<Longrightarrow> \<exists>d. find (\<lambda>d. f d = k) xs = Some d \<and> g d = c"
  by (induction xs) (auto split: if_splits)

lemma shell_line_command:
  assumes "map_of command_names (Some w) = Some cb"
    and "is_word w" and "w \<noteq> []" and "spaces s" and "s \<noteq> []"
  shows "shell_line dm (w @ s @ int_text (uint (c :: u16)) @ r) x m
    = run_callback dm cb (int_text (uint c) @ r) x m"
proof -
  obtain d where "find (\<lambda>d. name d = Some w) (butlast commands) = Some d" and "callback d = cb"
    using find_map_of [OF assms(1) [folded named_commands]] by (elim exE conjE)
  moreover have "nat_text (unat c) \<noteq> [] \<and> \<not> isspace (hd (nat_text (unat c)))"
    using nat_text_word [of "unat c"] by (cases "nat_text (unat c)") (auto simp: is_word_def)
  ultimately show ?thesis
    using assms dispatch_line [OF commands_table, of w s "int_text (uint c) @ r"]
    unfolding shell_line_def int_text_u16 by simp
qed

lemma arg_word:
  assumes "is_word w" and "w \<noteq> []" and "spaces s" and "s \<noteq> []" and "ends_word r"
  shows "get_next_arg (s @ w @ r) = Inr (w @ r, r)" and "hd (w @ r) \<noteq> 0"
    and "length (w @ r) - length r = length w" and "take (length w) (w @ r) = w"
  using next_arg [of "[]" s w r] assms by (cases w; simp add: is_word_append)+

lemma spaces_Cons: "spaces (c # s) \<longleftrightarrow> isspace c \<and> spaces s"
  by (simp add: spaces_def)

lemma spaces_line:
  assumes "spaces s"
  shows "ends_word (s @ 0 # r)" and "s \<noteq> [] \<Longrightarrow> ends_word (s @ t)" and "0 \<in> set (s @ 0 # r)"
  using assms by (cases s; simp add: ends_word_def spaces_Cons)+

text \<open>The commands that take a client and a URI, with the request each of them makes.\<close>

definition plain_requests :: "(byte list \<times> (u16 \<Rightarrow> lwm2m_uri \<Rightarrow> request)) list" where
  "plain_requests =
     [(bytes ''read'', Dm_read), (bytes ''disc'', Dm_discover), (bytes ''del'', Dm_delete),
      (bytes ''observe'', Observe), (bytes ''cancel'', Observe_cancel)]"

lemma command_words:
  "is_word (bytes ''read'')" "is_word (bytes ''disc'')" "is_word (bytes ''del'')"
  "is_word (bytes ''observe'')" "is_word (bytes ''cancel'')" "is_word (bytes ''write'')"
  "is_word (bytes ''create'')" "is_word (bytes ''clear'')"
  by (simp_all add: is_word_append isspace_def bytes_def)

text \<open>
  A line with the name of a plain command, a client id and the text of a URI, separated by any
  white space, makes exactly the one request of that command, for that client and that URI, and
  prints what it returns.
\<close>

theorem shell_plain_line:
  assumes "(w, request) \<in> set plain_requests" and "good_ids ids"
    and "spaces s" and "s \<noteq> []" and "spaces s'" and "s' \<noteq> []" and "spaces s''"
  shows "shell_line dm (w @ s @ int_text (uint (c :: u16)) @ s' @ uri_text ids @ s'' @ [0]) x m
    = (case issue dm (request c (uri_of ids)) x of (t, x') \<Rightarrow> Inr (t, x', m))"
proof -
  have cu: "client_and_uri (int_text (uint c) @ s' @ uri_text ids @ s'' @ [0])
      = Inr (Some (c, uri_of ids, s'' @ [0]))"
    using assms(2,5-7) by (intro client_and_uri_line) (simp_all add: spaces_line)
  have run: "plain_command request dm (int_text (uint c) @ s' @ uri_text ids @ s'' @ [0]) x
      = Inr (issue dm (request c (uri_of ids)) x)" for x
    unfolding plain_command_def cu using check_end_spaces [OF assms(7), of "[]"] by simp
  from assms(1) obtain cb where cb: "map_of command_names (Some w) = Some cb"
    and cmd: "\<And>b. run_callback dm cb b x m = bindE (plain_command request dm b x) (\<lambda>(t, x'). Inr (t, x', m))"
    and w: "is_word w" "w \<noteq> []"
    by (auto simp: plain_requests_def command_names_def run_callback_def command_words
        prv_read_client_def prv_discover_client_def prv_delete_client_def prv_observe_client_def
        prv_cancel_client_def)
  then show ?thesis
    by (simp add: shell_line_command [OF cb w assms(3,4)] cmd run case_prod_unfold)
qed

lemma shell_plain_line_witness:
  "shell_line (\<lambda>r x. (0, x)) (bytes ''read'' @ [32] @ int_text (uint (7 :: u16)) @ [32, 32] @ uri_text [3, 0] @ [] @ [0])
      (\<lparr>g_quit = 0, clientList = [], library = ()\<rparr>) []
    = (case issue (\<lambda>r x. (0, x)) (Dm_read 7 (uri_of [3, 0])) \<lparr>g_quit = 0, clientList = [], library = ()\<rparr> of
         (t, x') \<Rightarrow> Inr (t, x', []))"
  by (rule shell_plain_line) (simp_all add: plain_requests_def good_ids_def spaces_def isspace_def)

text \<open>
  \<^verbatim>\<open>write\<close> sends the word behind the URI, byte for byte and without a terminator; \<^verbatim>\<open>create\<close> on an
  object other than 1024 reads such a word too, and sends a request without data.
\<close>

theorem shell_data_line:
  assumes "good_ids ids" and "is_word data" and "data \<noteq> []"
    and "\<forall>t\<in>set [s, s', s'']. spaces t \<and> t \<noteq> []" and "spaces e"
  shows "shell_line dm (bytes ''write'' @ s @ int_text (uint (c :: u16)) @ s' @ uri_text ids @ s'' @ data @ e @ [0]) x m
      = (case issue dm (Dm_write c (uri_of ids) data) x of (t, x') \<Rightarrow> Inr (t, x', m))
    \<and> (hd ids \<noteq> 1024 \<longrightarrow>
        shell_line dm (bytes ''create'' @ s @ int_text (uint c) @ s' @ uri_text ids @ s'' @ data @ e @ [0]) x m
      = (case issue dm (Dm_create c (uri_of ids) CONTENT_TEXT []) x of (t, x') \<Rightarrow> Inr (t, x', m)))"
proof -
  have sp: "spaces s" "s \<noteq> []" "spaces s'" "s' \<noteq> []" "spaces s''" "s'' \<noteq> []" using assms(4) by simp_all
  have cu: "client_and_uri (int_text (uint c) @ s' @ uri_text ids @ s'' @ data @ e @ [0])
      = Inr (Some (c, uri_of ids, s'' @ data @ e @ [0]))"
    using assms(1) sp by (intro client_and_uri_line) (simp_all add: spaces_line)
  note arg = arg_word [OF assms(2,3) sp(5,6) spaces_line(1) [OF assms(5), of "[]"]]
  note facts = cu arg check_end_spaces [OF assms(5), of "[]"]
  have written: "prv_write_client dm (int_text (uint c) @ s' @ uri_text ids @ s'' @ data @ e @ [0]) x
      = Inr (issue dm (Dm_write c (uri_of ids) data) x)"
    unfolding prv_write_client_def facts(1) bindE_simps option.case prod.case facts(2)
    using facts(3-) by simp
  have id: "objectId (uri_of ids) = hd ids"
    using assms(1) by (cases rule: good_ids_cases) simp_all
  have create: "prv_create_client dm (int_text (uint c) @ s' @ uri_text ids @ s'' @ data @ e @ [0]) x m
      = (case issue dm (Dm_create c (uri_of ids) CONTENT_TEXT []) x of (t, x') \<Rightarrow> Inr (t, x', m))"
    if "hd ids \<noteq> 1024"
    unfolding prv_create_client_def facts(1) bindE_simps option.case prod.case facts(2)
    using facts(3-) that id by simp
  have names: "map_of command_names (Some (bytes ''write'')) = Some CMD_write"
    "map_of command_names (Some (bytes ''create'')) = Some CMD_create"
    by (simp_all add: command_names_def)
  show ?thesis
    using written create
    by (simp add: shell_line_command [OF names(1) _ _ sp(1,2)] shell_line_command [OF names(2) _ _ sp(1,2)]
        command_words run_callback_def case_prod_unfold)
qed

lemma shell_data_line_witness:
  "shell_line (\<lambda>r x. (0, x)) (bytes ''write'' @ [32] @ int_text (uint (7 :: u16)) @ [32] @ uri_text [1, 0, 2] @ [32] @ [53, 48] @ [] @ [0])
      (\<lparr>g_quit = 0, clientList = [], library = ()\<rparr>) []
      = (case issue (\<lambda>r x. (0, x)) (Dm_write 7 (uri_of [1, 0, 2]) [53, 48]) \<lparr>g_quit = 0, clientList = [], library = ()\<rparr> of
           (t, x') \<Rightarrow> Inr (t, x', []))
    \<and> shell_line (\<lambda>r x. (0, x)) (bytes ''create'' @ [32] @ int_text (uint (7 :: u16)) @ [32] @ uri_text [1, 0, 2] @ [32] @ [53, 48] @ [] @ [0])
          \<lparr>g_quit = 0, clientList = [], library = ()\<rparr> []
      = (case issue (\<lambda>r x. (0, x)) (Dm_create 7 (uri_of [1, 0, 2]) CONTENT_TEXT []) \<lparr>g_quit = 0, clientList = [], library = ()\<rparr> of
           (t, x') \<Rightarrow> Inr (t, x', []))"
proof -
  have h: "good_ids [1, 0, 2]" "is_word [53, 48]" "[53, 48 :: byte] \<noteq> []"
    "\<forall>t\<in>set [[32], [32], [32]]. spaces t \<and> t \<noteq> []" "spaces []"
    by (simp_all add: good_ids_def is_word_append spaces_def isspace_def)
  have "hd [1, 0, 2 :: u16] \<noteq> 1024" by simp
  then show ?thesis
    by (intro conjI shell_data_line [OF h, THEN conjunct1] shell_data_line [OF h, THEN conjunct2, THEN mp])
qed

text \<open>
  Whatever line is typed, the shell stays inside the line and never fails on it, except when a
  number in it does not fit its type, for which C leaves the result of \<^verbatim>\<open>sscanf\<close> undefined.
\<close>

theorem shell_line_safe:
  assumes "0 \<in> set buffer"
  shows "ok (shell_line dm buffer x m) \<or> shell_line dm buffer x m = Inl SignedOverflow"
  using shell_line_sound [OF assms] by (simp add: sound_def)

lemma shell_line_safe_witness:
  "ok (shell_line (\<lambda>r x. (0, x)) [104, 101, 10, 0] \<lparr>g_quit = 0, clientList = [], library = ()\<rparr> [])
    \<or> shell_line (\<lambda>r x. (0, x)) [104, 101, 10, 0] \<lparr>g_quit = 0, clientList = [], library = ()\<rparr> [] = Inl SignedOverflow"
  by (rule shell_line_safe) simp

section \<open>Clearing attributes\<close>

text \<open>
  \<^verbatim>\<open>clear\<close> skips one word behind the URI: a line with such a word, which every other command
  refuses as a syntax error, makes the same request as the line without it.
\<close>

theorem shell_clear_extra:
  assumes "good_ids ids" and "is_word extra" and "extra \<noteq> []"
    and "\<forall>t\<in>set [s, s', s'']. spaces t \<and> t \<noteq> []"
  shows "shell_line dm (bytes ''clear'' @ s @ int_text (uint (c :: u16)) @ s' @ uri_text ids @ s'' @ extra @ [0]) x m
      = shell_line dm (bytes ''clear'' @ s @ int_text (uint c) @ s' @ uri_text ids @ [0]) x m"
proof -
  have sp: "spaces s" "s \<noteq> []" "spaces s'" "s' \<noteq> []" "spaces s''" "s'' \<noteq> []" using assms(4) by simp_all
  have cu: "client_and_uri (int_text (uint c) @ s' @ uri_text ids @ s'' @ extra @ [0])
      = Inr (Some (c, uri_of ids, s'' @ extra @ [0]))"
    and cu': "client_and_uri (int_text (uint c) @ s' @ uri_text ids @ [0]) = Inr (Some (c, uri_of ids, [0]))"
    using assms(1) sp client_and_uri_line [OF assms(1) sp(3,4), of "[0]"]
    by (simp_all add: client_and_uri_line spaces_line ends_word_def [of "[0]"])
  have arg: "get_next_arg (s'' @ extra @ [0]) = Inr (extra @ [0], [0])"
    using arg_word(1) [OF assms(2,3) sp(5,6), of "[0]"] by (simp add: ends_word_def)
  have arg': "get_next_arg [0] = Inr ([0], [0])" by (simp add: get_next_arg_def)
  have name: "map_of command_names (Some (bytes ''clear'')) = Some CMD_clear"
    by (simp add: command_names_def)
  have "prv_clear_client dm (int_text (uint c) @ s' @ uri_text ids @ s'' @ extra @ [0]) x
      = prv_clear_client dm (int_text (uint c) @ s' @ uri_text ids @ [0]) x"
    unfolding prv_clear_client_def cu cu' bindE_simps option.case prod.case arg arg' ..
  then show ?thesis
    by (simp add: shell_line_command [OF name _ _ sp(1,2)] command_words run_callback_def)
qed

lemma shell_clear_extra_witness:
  "shell_line (\<lambda>r x. (0, x)) (bytes ''clear'' @ [32] @ int_text (uint (7 :: u16)) @ [32] @ uri_text [3] @ [32] @ [120] @ [0])
      \<lparr>g_quit = 0, clientList = [], library = ()\<rparr> []
      = shell_line (\<lambda>r x. (0, x)) (bytes ''clear'' @ [32] @ int_text (uint (7 :: u16)) @ [32] @ uri_text [3] @ [0])
      \<lparr>g_quit = 0, clientList = [], library = ()\<rparr> []"
  by (rule shell_clear_extra) (simp_all add: good_ids_def is_word_append spaces_def isspace_def)

section \<open>Keys in hexadecimal\<close>

lemma HEX2NUM_digit: "n < 16 \<Longrightarrow> HEX2NUM (hex_digit n) = Some (word_of_nat n)"
proof -
  have "\<forall>n\<in>set [0..<16]. HEX2NUM (hex_digit n) = Some (word_of_nat n)"
    by (simp add: upt_rec HEX2NUM_def hex_digit_def)
  then show "n < 16 \<Longrightarrow> HEX2NUM (hex_digit n) = Some (word_of_nat n)" by simp
qed

lemma nibbles: "unat (b :: byte) div 16 < 16" "unat b mod 16 < 16" "unat b mod 256 = unat b"
  using unat_byte_less [of b] by (simp_all add: less_mult_imp_div_less)

lemma hex2_byte: "push_bit 4 (word_of_nat (unat b div 16)) OR word_of_nat (unat b mod 16) = (b :: byte)"
proof -
  have "word_of_nat (unat b div 16) = drop_bit 4 b" "word_of_nat (unat b mod 16) = take_bit 4 b"
    using nibbles [of b]
    by (simp_all add: word_unat_eq_iff drop_bit_eq_div take_bit_eq_mod unat_div unat_mod unat_of_nat)
  moreover have "push_bit 4 (drop_bit 4 b) OR take_bit 4 b = b"
    by (rule bit_word_eqI) (auto simp: bit_simps)
  ultimately show ?thesis by simp
qed

lemma unhexify_hex2: "unhexify_pairs (concat (map hex2 bs)) = Some bs"
  by (induction bs) (simp_all add: hex2_def HEX2NUM_digit nibbles hex2_byte)

lemma hex_digit_nonzero: "n < 16 \<Longrightarrow> hex_digit n \<noteq> 0"
  using HEX2NUM_digit [of n] by (auto simp: HEX2NUM_def)

text \<open>
  The pre-shared key of the command line is read back from the hexadecimal digits of its bytes, up
  to the 32 bytes of its buffer; a longer key, or an odd number of digits, is refused.
\<close>

theorem unhexify_key:
  "lwm2m_unhexify (concat (map hex2 bs) @ 0 # r) = Inr (if length bs \<le> 32 then Some bs else None)
   \<and> (is_word t \<and> odd (length t) \<longrightarrow> lwm2m_unhexify (t @ 0 # r) = Inr None)"
proof -
  have len: "length (concat (map hex2 bs)) = 2 * length bs" by (induction bs) (simp_all add: hex2_def)
  have "0 \<notin> set (concat (map hex2 bs))" using hex_digit_nonzero nibbles
    by (auto simp: hex2_def dest!: sym [of 0])
  from c_string_append [OF this, of r]
  have "lwm2m_unhexify (concat (map hex2 bs) @ 0 # r) = Inr (if length bs \<le> 32 then Some bs else None)"
    unfolding lwm2m_unhexify_def by (simp add: len unhexify_hex2 MBEDTLS_PSK_MAX_LEN_def)
  moreover have "lwm2m_unhexify (t @ 0 # r) = Inr None" if "is_word t" "odd (length t)"
    using that c_string_append [of t r] by (auto simp: lwm2m_unhexify_def is_word_def odd_iff_mod_2_eq_one)
  ultimately show ?thesis by blast
qed

lemma unhexify_key_witness:
  "lwm2m_unhexify (concat (map hex2 [0xAB, 0x1F]) @ 0 # [9])
      = Inr (if length [0xAB, 0x1F :: byte] \<le> 32 then Some [0xAB, 0x1F] else None)
   \<and> lwm2m_unhexify ([65, 66, 67] @ 0 # [9]) = Inr None"
  using unhexify_key [of "[0xAB, 0x1F]" "[9]" "[65, 66, 67]"]
  by (simp only: is_word_append isspace_def) simp

end
