(* ===== verification/Ethernet.thy ===== *)
theory Ethernet
imports Prelude
begin

text \<open>
  The network start-up of the boards, \<^verbatim>\<open>app/net/app_ethernet.c\<close>, with \<^verbatim>\<open>USE_DHCP\<close>: the state machine
  of the DHCP task as a step function on the state of the module, and the runs of the task over
  what lwIP answers.
\<close>

section \<open>State\<close>

datatype dhcp_state =
    DHCP_OFF
  | DHCP_START
  | DHCP_WAIT_ADDRESS
  | DHCP_ADDRESS_ASSIGNED
  | DHCP_TIMEOUT
  | DHCP_LINK_DOWN

definition MAX_DHCP_TRIES :: nat where "MAX_DHCP_TRIES = 4"

definition IP_ADDR4 :: "byte \<Rightarrow> byte \<Rightarrow> byte \<Rightarrow> byte \<Rightarrow> byte list" where
  "IP_ADDR4 a b c d = [a, b, c, d]"

definition STATIC_ADDR :: "byte list" where "STATIC_ADDR = IP_ADDR4 192 168 0 10"
definition STATIC_NETMASK :: "byte list" where "STATIC_NETMASK = IP_ADDR4 255 255 255 0"
definition STATIC_GW :: "byte list" where "STATIC_GW = IP_ADDR4 192 168 0 1"

text \<open>
  The interface, the state of the task, the registered callback and how often it was called, the
  two lamps, and whether \<^verbatim>\<open>dhcp_start\<close> was called last, not \<^verbatim>\<open>dhcp_stop\<close>.
\<close>

record 'f ethernet =
  DHCP_state :: dhcp_state
  ip_addr :: "byte list"
  netmask :: "byte list"
  gw :: "byte list"
  netif_up :: bool
  dhcp_started :: bool
  user_init_callback :: "'f option"
  calls :: "'f list"
  LED1 :: bool
  LED3 :: bool

text \<open>
  What lwIP knows when the task looks: the address, mask and gateway of the lease, if there is one,
  and the number of tries of its DHCP client, which is missing when \<^verbatim>\<open>dhcp_start\<close> had no memory.
\<close>

record dhcp_view =
  lease :: "(byte list \<times> byte list \<times> byte list) option"
  tries :: "nat option"

section \<open>Operations\<close>

definition app_net_register_thread :: "'f option \<Rightarrow> 'f ethernet \<Rightarrow> 'f ethernet" where
  "app_net_register_thread cb s =
     (case cb of None \<Rightarrow> s | Some f \<Rightarrow> s\<lparr>user_init_callback := Some f\<rparr>)"

definition Netif_Config :: "bool \<Rightarrow> 'f ethernet \<Rightarrow> 'f ethernet" where
  "Netif_Config link_up s =
     s\<lparr>ip_addr := IP_ADDR4 0 0 0 0, netmask := IP_ADDR4 0 0 0 0, gw := IP_ADDR4 0 0 0 0, netif_up := link_up\<rparr>"

definition User_notification :: "'f ethernet \<Rightarrow> 'f ethernet" where
  "User_notification s =
     (if netif_up s then s\<lparr>DHCP_state := DHCP_START\<rparr>
      else s\<lparr>DHCP_state := DHCP_LINK_DOWN, LED3 := True\<rparr>)"

definition app_ethernet_init :: "bool \<Rightarrow> 'f ethernet \<Rightarrow> 'f ethernet" where
  "app_ethernet_init link_up s = User_notification (Netif_Config link_up s)"

text \<open>One round of the loop of \<^verbatim>\<open>DHCP_thread\<close>.\<close>

definition DHCP_thread_step :: "dhcp_view \<Rightarrow> 'f ethernet \<Rightarrow> 'f ethernet res" where
  "DHCP_thread_step v s =
     (case DHCP_state s of
        DHCP_START \<Rightarrow>
          Inr (s\<lparr>ip_addr := IP_ADDR4 0 0 0 0, netmask := IP_ADDR4 0 0 0 0, gw := IP_ADDR4 0 0 0 0,
            dhcp_started := True, DHCP_state := DHCP_WAIT_ADDRESS\<rparr>)
      | DHCP_WAIT_ADDRESS \<Rightarrow>
          (case lease v of
             Some (a, m, g) \<Rightarrow>
               Inr (s\<lparr>DHCP_state := DHCP_ADDRESS_ASSIGNED, ip_addr := a, netmask := m, gw := g,
                 calls := calls s @ (case user_init_callback s of None \<Rightarrow> [] | Some f \<Rightarrow> [f]),
                 LED3 := False, LED1 := True\<rparr>)
           | None \<Rightarrow>
             (case tries v of
                None \<Rightarrow> Inl NullDeref
              | Some t \<Rightarrow>
                  if MAX_DHCP_TRIES < t
                  then Inr (s\<lparr>DHCP_state := DHCP_TIMEOUT, dhcp_started := False,
                    ip_addr := STATIC_ADDR, netmask := STATIC_NETMASK, gw := STATIC_GW,
                    LED3 := False, LED1 := True\<rparr>)
                  else Inr (s\<lparr>LED3 := True\<rparr>)))
      | DHCP_LINK_DOWN \<Rightarrow> Inr (s\<lparr>dhcp_started := False, DHCP_state := DHCP_OFF\<rparr>)
      | _ \<Rightarrow> Inr s)"

text \<open>The rounds of the task, one view of lwIP each.\<close>

fun DHCP_thread :: "dhcp_view list \<Rightarrow> 'f ethernet \<Rightarrow> 'f ethernet res" where
  "DHCP_thread [] s = Inr s"
| "DHCP_thread (v # vs) s = bindE (DHCP_thread_step v s) (DHCP_thread vs)"

section \<open>Steps of the module\<close>

text \<open>
  The states a started board can be in: the start with the link up or down, and the rounds of the
  task that do not fault.
\<close>

inductive eth_step :: "'f ethernet \<Rightarrow> 'f ethernet \<Rightarrow> bool" where
  eth_round: "DHCP_thread_step v s = Inr s' \<Longrightarrow> eth_step s s'"

inductive eth_reach :: "'f ethernet \<Rightarrow> 'f ethernet \<Rightarrow> bool" for s0 where
  eth_start: "eth_reach s0 (app_ethernet_init link s0)"
| eth_more: "eth_reach s0 s \<Longrightarrow> eth_step s s' \<Longrightarrow> eth_reach s0 s'"

inductive_cases eth_stepE: "eth_step s s'"

text \<open>Which state follows which.\<close>

fun dhcp_next :: "dhcp_state \<Rightarrow> dhcp_state list" where
  "dhcp_next DHCP_OFF = [DHCP_OFF]"
| "dhcp_next DHCP_START = [DHCP_WAIT_ADDRESS]"
| "dhcp_next DHCP_WAIT_ADDRESS = [DHCP_WAIT_ADDRESS, DHCP_ADDRESS_ASSIGNED, DHCP_TIMEOUT]"
| "dhcp_next DHCP_ADDRESS_ASSIGNED = [DHCP_ADDRESS_ASSIGNED]"
| "dhcp_next DHCP_TIMEOUT = [DHCP_TIMEOUT]"
| "dhcp_next DHCP_LINK_DOWN = [DHCP_OFF]"

lemmas step_splits = dhcp_state.splits option.splits if_splits prod.splits

lemma step_next: "eth_step s s' \<Longrightarrow> DHCP_state s' \<in> set (dhcp_next (DHCP_state s))"
  by (auto elim!: eth_stepE simp: DHCP_thread_step_def split: step_splits)

text \<open>What holds of a started board in each state.\<close>

definition eth_inv :: "'f ethernet \<Rightarrow> 'f ethernet \<Rightarrow> bool" where
  "eth_inv s0 s \<longleftrightarrow>
     user_init_callback s = user_init_callback s0
     \<and> (case DHCP_state s of
          DHCP_ADDRESS_ASSIGNED \<Rightarrow>
            calls s = calls s0 @ (case user_init_callback s0 of None \<Rightarrow> [] | Some f \<Rightarrow> [f])
            \<and> LED1 s \<and> \<not> LED3 s \<and> netif_up s
        | DHCP_TIMEOUT \<Rightarrow>
            calls s = calls s0 \<and> ip_addr s = STATIC_ADDR \<and> \<not> dhcp_started s
            \<and> LED1 s \<and> \<not> LED3 s \<and> netif_up s
        | DHCP_WAIT_ADDRESS \<Rightarrow> calls s = calls s0 \<and> dhcp_started s \<and> netif_up s
        | DHCP_START \<Rightarrow> calls s = calls s0 \<and> netif_up s
        | DHCP_LINK_DOWN \<Rightarrow> calls s = calls s0 \<and> \<not> netif_up s
        | DHCP_OFF \<Rightarrow> calls s = calls s0 \<and> \<not> netif_up s \<and> \<not> dhcp_started s)"

lemma eth_inv_init: "eth_inv s0 (app_ethernet_init link s0)"
  by (simp add: eth_inv_def app_ethernet_init_def User_notification_def Netif_Config_def)

lemma eth_inv_step: "eth_step s s' \<Longrightarrow> eth_inv s0 s \<Longrightarrow> eth_inv s0 s'"
  by (auto elim!: eth_stepE simp: DHCP_thread_step_def eth_inv_def split: step_splits)

text \<open>
  On every reachable state of a started board: the registered function has been called exactly
  once if an address was assigned by DHCP and not at all otherwise, a timed-out board has the
  static address, and the client of lwIP is stopped whenever the task is off or timed out.
\<close>

theorem ethernet_invariant: "eth_reach s0 s \<Longrightarrow> eth_inv s0 s"
  by (induction rule: eth_reach.induct) (auto intro: eth_inv_init eth_inv_step)

definition ex_board :: "nat ethernet" where
  "ex_board = \<lparr>DHCP_state = DHCP_OFF, ip_addr = [], netmask = [], gw = [], netif_up = False,
     dhcp_started = False, user_init_callback = Some 7, calls = [], LED1 = False, LED3 = False\<rparr>"

lemma ethernet_invariant_witness: "eth_inv ex_board (app_ethernet_init True ex_board)"
  by (rule ethernet_invariant) (rule eth_start)

section \<open>Runs\<close>

lemma thread_append: "DHCP_thread (vs @ ws) s = bindE (DHCP_thread vs s) (DHCP_thread ws)"
  by (induction vs arbitrary: s) (auto simp: bindE_def split: sum.splits)

lemma thread_stays:
  "DHCP_state s \<in> {DHCP_OFF, DHCP_ADDRESS_ASSIGNED, DHCP_TIMEOUT} \<Longrightarrow> DHCP_thread vs s = Inr s"
  by (induction vs) (auto simp: DHCP_thread_step_def)

text \<open>While the client has tries left and no lease the task waits.\<close>

definition waiting :: "dhcp_view \<Rightarrow> bool" where
  "waiting v \<longleftrightarrow> lease v = None \<and> (\<exists>t\<le>MAX_DHCP_TRIES. tries v = Some t)"

lemma thread_waits:
  assumes "\<forall>v\<in>set vs. waiting v" and "DHCP_state s = DHCP_WAIT_ADDRESS"
  shows "DHCP_thread vs s = Inr (if vs = [] then s else s\<lparr>LED3 := True\<rparr>)"
  using assms
  by (induction vs arbitrary: s) (auto simp: DHCP_thread_step_def waiting_def split: if_splits)

text \<open>
  C37. With the link up, however long the task waits, it ends with the address of the lease and the one
  call of the registered function, or, once the client has used up its tries, with the static address
  and without the call; and it stays there.
\<close>

theorem ethernet_gets_address:
  assumes "\<forall>v\<in>set vs. waiting v" and "lease v \<noteq> None \<or> (\<exists>t>MAX_DHCP_TRIES. tries v = Some t)"
  shows "\<exists>s. DHCP_thread (v0 # vs @ v # ws) (app_ethernet_init True s0) = Inr s
    \<and> (case lease v of
         Some (a, m, g) \<Rightarrow> DHCP_state s = DHCP_ADDRESS_ASSIGNED \<and> (ip_addr s, netmask s, gw s) = (a, m, g)
           \<and> calls s = calls s0 @ (case user_init_callback s0 of None \<Rightarrow> [] | Some f \<Rightarrow> [f])
       | None \<Rightarrow> DHCP_state s = DHCP_TIMEOUT \<and> (ip_addr s, netmask s, gw s) = (STATIC_ADDR, STATIC_NETMASK, STATIC_GW)
           \<and> calls s = calls s0)"
proof -
  obtain s1 where s1: "DHCP_thread_step v0 (app_ethernet_init True s0) = Inr s1"
    "DHCP_state s1 = DHCP_WAIT_ADDRESS" "calls s1 = calls s0" "user_init_callback s1 = user_init_callback s0"
    by (simp add: DHCP_thread_step_def app_ethernet_init_def User_notification_def Netif_Config_def)
  obtain s2 where s2: "DHCP_thread vs s1 = Inr s2" "DHCP_state s2 = DHCP_WAIT_ADDRESS" "calls s2 = calls s0"
    "user_init_callback s2 = user_init_callback s0"
    using thread_waits [OF assms(1) s1(2)] s1 by (cases vs) auto
  obtain s3 where s3: "DHCP_thread_step v s2 = Inr s3"
    "case lease v of
         Some (a, m, g) \<Rightarrow> DHCP_state s3 = DHCP_ADDRESS_ASSIGNED \<and> (ip_addr s3, netmask s3, gw s3) = (a, m, g)
           \<and> calls s3 = calls s0 @ (case user_init_callback s0 of None \<Rightarrow> [] | Some f \<Rightarrow> [f])
       | None \<Rightarrow> DHCP_state s3 = DHCP_TIMEOUT \<and> (ip_addr s3, netmask s3, gw s3) = (STATIC_ADDR, STATIC_NETMASK, STATIC_GW)
           \<and> calls s3 = calls s0"
    using assms(2) s2 by (cases "lease v") (auto simp: DHCP_thread_step_def)
  then have "DHCP_thread ws s3 = Inr s3"
    by (intro thread_stays) (auto split: option.splits)
  then show ?thesis using s1(1) s2(1) s3 by (auto simp: thread_append)
qed

lemma ethernet_gets_address_witness:
  "\<exists>s. DHCP_thread (\<lparr>lease = None, tries = None\<rparr> # [\<lparr>lease = None, tries = Some 1\<rparr>]
        @ \<lparr>lease = None, tries = Some 5\<rparr> # []) (app_ethernet_init True ex_board) = Inr s
    \<and> (case lease \<lparr>lease = None, tries = Some 5\<rparr> of
         Some (a, m, g) \<Rightarrow> DHCP_state s = DHCP_ADDRESS_ASSIGNED \<and> (ip_addr s, netmask s, gw s) = (a, m, g)
           \<and> calls s = calls ex_board @ (case user_init_callback ex_board of None \<Rightarrow> [] | Some f \<Rightarrow> [f])
       | None \<Rightarrow> DHCP_state s = DHCP_TIMEOUT \<and> (ip_addr s, netmask s, gw s) = (STATIC_ADDR, STATIC_NETMASK, STATIC_GW)
           \<and> calls s = calls ex_board)"
  by (rule ethernet_gets_address) (auto simp: waiting_def MAX_DHCP_TRIES_def)

text \<open>
  A board started without a link never asks for an address: after the first round the task is off
  for good, whatever lwIP reports later; and a client that could not be allocated makes the task
  dereference a null pointer.
\<close>

theorem ethernet_link_down_off:
  "DHCP_thread (v # vs) (app_ethernet_init False s0)
     = Inr ((app_ethernet_init False s0)\<lparr>dhcp_started := False, DHCP_state := DHCP_OFF\<rparr>)
   \<and> DHCP_thread [v, \<lparr>lease = None, tries = None\<rparr>] (app_ethernet_init True s0) = Inl NullDeref"
  by (simp add: DHCP_thread_step_def app_ethernet_init_def User_notification_def Netif_Config_def thread_stays)

end
