(* ===== verification/Platform_Alt.thy ===== *)
theory Platform_Alt
imports Prelude
begin

text \<open>
  The platform layer of mbedTLS, \<^verbatim>\<open>app/mbedtls_alt\<close>: the delays of \<^verbatim>\<open>timing_alt.c\<close> over the tick counter
  of FreeRTOS, the entropy source of \<^verbatim>\<open>entropy_alt.c\<close> over the random number generator of the HAL,
  and the allocator of \<^verbatim>\<open>memory_alt.c\<close>. The tick counter, the generator and \<^verbatim>\<open>pvPortMalloc\<close> are
  arguments.
\<close>

section \<open>Delays\<close>

text \<open>\<open>now\<close> is what \<^verbatim>\<open>xTaskGetTickCount\<close> returns; \<^verbatim>\<open>unsigned long\<close> has 32 bits.\<close>

record timing_delay_context =
  timer :: u32
  int_ms :: u32
  fin_ms :: u32

definition mbedtls_timing_hardclock :: "u32 \<Rightarrow> u32" where
  "mbedtls_timing_hardclock now = now"

definition mbedtls_timing_get_timer :: "u32 \<Rightarrow> u32 \<Rightarrow> bool \<Rightarrow> u32 \<times> u32" where
  "mbedtls_timing_get_timer now t reset = (if reset then (0, now) else (now - t, t))"

definition mbedtls_timing_set_delay ::
    "u32 \<Rightarrow> u32 \<Rightarrow> u32 \<Rightarrow> timing_delay_context \<Rightarrow> timing_delay_context" where
  "mbedtls_timing_set_delay now i f ctx =
     (let ctx' = ctx\<lparr>int_ms := i, fin_ms := f\<rparr> in
      if f \<noteq> 0 then ctx'\<lparr>timer := snd (mbedtls_timing_get_timer now (timer ctx') True)\<rparr> else ctx')"

definition mbedtls_timing_get_delay :: "u32 \<Rightarrow> timing_delay_context \<Rightarrow> int" where
  "mbedtls_timing_get_delay now ctx =
     (if fin_ms ctx = 0 then -1
      else
        let elapsed_ms = fst (mbedtls_timing_get_timer now (timer ctx) False) in
        if fin_ms ctx \<le> elapsed_ms then 2
        else if int_ms ctx \<le> elapsed_ms then 1
        else 0)"

text \<open>
  A delay set at one tick and looked at \<open>d\<close> ticks later, at most \<open>2 ^ 32 - 1\<close>, reports by the
  number \<open>d\<close> alone which of its two times are over, also when the tick counter has wrapped round.
\<close>

theorem timing_delay_elapsed:
  assumes "d < 2 ^ 32"
  shows "mbedtls_timing_get_delay (now + word_of_nat d) (mbedtls_timing_set_delay now i f ctx) =
    (if f = 0 then -1 else if unat f \<le> d then 2 else if unat i \<le> d then 1 else 0)"
proof -
  have "unat (word_of_nat d :: u32) = d" using assms by (simp add: unat_of_nat)
  then show ?thesis
    by (simp add: mbedtls_timing_get_delay_def mbedtls_timing_set_delay_def mbedtls_timing_get_timer_def
        Let_def word_le_nat_alt)
qed

lemma timing_delay_elapsed_witness:
  "mbedtls_timing_get_delay (0xFFFFFFF0 + word_of_nat 300)
     (mbedtls_timing_set_delay 0xFFFFFFF0 250 1000 \<lparr>timer = 0, int_ms = 0, fin_ms = 0\<rparr>) =
    (if (1000 :: u32) = 0 then -1 else if unat (1000 :: u32) \<le> 300 then 2
     else if unat (250 :: u32) \<le> 300 then 1 else 0)"
  by (rule timing_delay_elapsed) simp

section \<open>Entropy\<close>

text \<open>
  \<open>rng k\<close> is the answer to call number \<open>k\<close> of \<^verbatim>\<open>HAL_RNG_GenerateRandomNumber\<close>, \<open>None\<close> is an error. \<open>n\<close>
  rounds are left, \<open>i\<close> is the offset of the next one in the buffer.
\<close>

definition word_bytes :: "u32 \<Rightarrow> byte list" where
  "word_bytes w = map (\<lambda>j. ucast (drop_bit (8 * j) w)) [0..<4]"

fun poll_loop :: "(nat \<Rightarrow> u32 option) \<Rightarrow> nat \<Rightarrow> nat \<Rightarrow> byte list \<Rightarrow> nat \<Rightarrow> (byte list \<times> nat) res" where
  "poll_loop rng 0 i out olen = Inr (out, olen)"
| "poll_loop rng (Suc n) i out olen =
     (case rng i of
        None \<Rightarrow> Inl Hang
      | Some w \<Rightarrow>
          if length out < i * 4 + 4 then Inl OutOfBounds
          else poll_loop rng n (Suc i) (take (i * 4) out @ word_bytes w @ drop (i * 4 + 4) out) (olen + 4))"

definition mbedtls_hardware_poll ::
    "(nat \<Rightarrow> u32 option) \<Rightarrow> byte list \<Rightarrow> nat \<Rightarrow> nat \<Rightarrow> (int \<times> byte list \<times> nat) res" where
  "mbedtls_hardware_poll rng out len olen =
     bindE (poll_loop rng (len div 4) 0 out olen) (\<lambda>(out', olen'). Inr (0, out', olen'))"

lemma length_word_bytes [simp]: "length (word_bytes w) = 4"
  by (simp add: word_bytes_def)

lemma poll_loop_fills:
  assumes "\<And>k. k < n \<Longrightarrow> rng (i + k) = Some (ws k)" and "length done' = 4 * i" and "4 * n \<le> length rest"
  shows "poll_loop rng n i (done' @ rest) olen
    = Inr (done' @ concat (map (\<lambda>k. word_bytes (ws k)) [0..<n]) @ drop (4 * n) rest, olen + 4 * n)"
  using assms
proof (induction n arbitrary: i done' rest olen ws)
  case 0
  then show ?case by simp
next
  case (Suc n)
  have ws: "rng i = Some (ws 0)" using Suc.prems(1) [of 0] by simp
  have next_ws: "rng (Suc i + k) = Some (ws (Suc k))" if "k < n" for k
    using Suc.prems(1) [of "Suc k"] that by simp
  have upt: "[0..<Suc n] = 0 # map Suc [0..<n]" by (simp add: upt_conv_Cons map_Suc_upt del: upt_Suc)
  have "poll_loop rng n (Suc i) ((done' @ word_bytes (ws 0)) @ drop 4 rest) (olen + 4)
      = Inr ((done' @ word_bytes (ws 0)) @ concat (map (\<lambda>k. word_bytes (ws (Suc k))) [0..<n])
          @ drop (4 * n) (drop 4 rest), olen + 4 + 4 * n)"
    using Suc.prems(2,3) next_ws by (intro Suc.IH) simp_all
  then show ?case
    using Suc.prems(2,3) ws by (simp add: upt comp_def mult.commute add.commute del: upt_Suc)
qed

text \<open>
  The entropy source fills the buffer with the words of the generator, in order, and adds their
  length to \<^verbatim>\<open>oLen\<close>; the last bytes, when the length is not a multiple of four, stay as they are. A
  failing generator makes it loop for ever.
\<close>

theorem hardware_poll_fills:
  assumes "length out = len" and "\<forall>k < len div 4. rng k = Some (ws k)"
  shows "mbedtls_hardware_poll rng out len olen
      = Inr (0, concat (map (\<lambda>k. word_bytes (ws k)) [0..<len div 4]) @ drop (4 * (len div 4)) out,
          olen + 4 * (len div 4))
    \<and> mbedtls_hardware_poll (rng(0 := None)) out (4 + len) olen = Inl Hang"
proof -
  have "poll_loop rng (len div 4) 0 ([] @ out) olen
      = Inr ([] @ concat (map (\<lambda>k. word_bytes (ws k)) [0..<len div 4]) @ drop (4 * (len div 4)) out,
          olen + 4 * (len div 4))"
    using assms by (intro poll_loop_fills) simp_all
  moreover have "(4 + len) div 4 = Suc (len div 4)" by simp
  ultimately show ?thesis by (simp add: mbedtls_hardware_poll_def del: div_add_self1)
qed

lemma hardware_poll_fills_witness:
  "mbedtls_hardware_poll (\<lambda>k. Some 0x01020304) [9, 9, 9, 9, 9] 5 0
      = Inr (0, concat (map (\<lambda>k. word_bytes 0x01020304) [0..<5 div 4]) @ drop (4 * (5 div 4)) [9, 9, 9, 9, 9],
          0 + 4 * (5 div 4))
    \<and> mbedtls_hardware_poll ((\<lambda>k. Some 0x01020304)(0 := None)) [9, 9, 9, 9, 9] (4 + 5) 0 = Inl Hang"
  by (rule hardware_poll_fills) simp_all

section \<open>Memory\<close>

text \<open>
  \<open>available n\<close> says whether \<^verbatim>\<open>pvPortMalloc\<close> has \<open>n\<close> bytes; a block it returns has the length asked for.
  Sizes have 32 bits.
\<close>

definition platform_calloc :: "(nat \<Rightarrow> bool) \<Rightarrow> u32 \<Rightarrow> u32 \<Rightarrow> byte list option" where
  "platform_calloc available n size' =
     (let total = unat (n * size') in
      if available total then Some (replicate total 0) else None)"

text \<open>
  A block of zeros of the right length is allocated as long as the product of the two numbers fits
  in 32 bits; otherwise the block that is returned is too short for what was asked.
\<close>

theorem calloc_length:
  assumes "platform_calloc available n size' = Some blk"
  shows "set blk \<subseteq> {0} \<and> (length blk = unat n * unat size' \<longleftrightarrow> unat n * unat size' < 2 ^ 32)
    \<and> (2 ^ 32 \<le> unat n * unat size' \<longrightarrow> length blk < unat n * unat size')"
proof -
  have len: "length blk = (unat n * unat size') mod 2 ^ 32" and z: "set blk \<subseteq> {0}"
    using assms by (auto simp: platform_calloc_def Let_def unat_word_ariths split: if_splits)
  have "(unat n * unat size') mod 2 ^ 32 < 2 ^ 32" by simp
  then show ?thesis using len z
    by (metis (no_types) leI le_less_trans less_le_trans mod_less not_less)
qed

lemma calloc_length_witness:
  "set [] \<subseteq> {0 :: byte} \<and> (length ([] :: byte list) = unat (0x10000 :: u32) * unat (0x10000 :: u32)
      \<longleftrightarrow> unat (0x10000 :: u32) * unat (0x10000 :: u32) < 2 ^ 32)
    \<and> length ([] :: byte list) < unat (0x10000 :: u32) * unat (0x10000 :: u32)"
  using calloc_length [of "\<lambda>n. True" "0x10000" "0x10000" "[]"]
  by (simp add: platform_calloc_def)

end
