(* ===== verification/Net_Sockets.thy ===== *)
theory Net_Sockets
imports Prelude
begin

text \<open>
  The sockets of mbedTLS on lwIP, \<^verbatim>\<open>app/mbedtls_alt/net_sockets.c\<close>. lwIP is seen through the results of
  its calls: \<open>answers\<close> lists those of the coming calls (a negative one is a failure with that
  \<^verbatim>\<open>errno\<close>), and after the listed ones every call succeeds. A call on a descriptor that is not open
  fails with \<^verbatim>\<open>EBADF\<close>; a new descriptor is the lowest free one.
\<close>

section \<open>Sockets of lwIP\<close>

datatype net_proto = MBEDTLS_NET_PROTO_TCP | MBEDTLS_NET_PROTO_UDP

record 'a net =
  open_fds :: "int list"
  is_stream :: "int \<Rightarrow> bool"
  nonblock :: "int \<Rightarrow> bool"
  bound :: "int \<Rightarrow> 'a option"
  peer :: "int \<Rightarrow> 'a option"
  errno :: int
  waits :: "(nat \<times> nat) option list"
  answers :: "int list"

abbreviation EINTR :: int where "EINTR \<equiv> 4"
abbreviation EBADF :: int where "EBADF \<equiv> 9"
abbreviation EAGAIN :: int where "EAGAIN \<equiv> 11"
abbreviation EPIPE :: int where "EPIPE \<equiv> 32"
abbreviation ECONNRESET :: int where "ECONNRESET \<equiv> 104"
abbreviation ENOTCONN :: int where "ENOTCONN \<equiv> 107"

definition sys :: "'a net \<Rightarrow> int \<times> 'a net" where
  "sys w =
     (case answers w of
        [] \<Rightarrow> (0, w)
      | a # as \<Rightarrow>
          if a < 0 then (-1, w\<lparr>answers := as, errno := - a\<rparr>) else (a, w\<lparr>answers := as\<rparr>))"

definition sys_on :: "int \<Rightarrow> 'a net \<Rightarrow> int \<times> 'a net" where
  "sys_on fd w = (if fd \<in> set (open_fds w) then sys w else (-1, w\<lparr>errno := EBADF\<rparr>))"

text \<open>Calls that answer 0 or -1.\<close>

definition sys_status :: "int \<Rightarrow> 'a net \<Rightarrow> int \<times> 'a net" where
  "sys_status fd w = (case sys_on fd w of (a, w') \<Rightarrow> (if a < 0 then -1 else 0, w'))"

definition lowest_free :: "int list \<Rightarrow> int" where
  "lowest_free fds = hd (filter (\<lambda>i. i \<notin> set fds) (map int [0..<Suc (length fds)]))"

definition open_fd :: "bool \<Rightarrow> 'a net \<Rightarrow> int \<times> 'a net" where
  "open_fd stream w =
     (let fd = lowest_free (open_fds w) in
      (fd, w\<lparr>open_fds := fd # open_fds w, is_stream := (is_stream w)(fd := stream),
        nonblock := (nonblock w)(fd := False), bound := (bound w)(fd := None), peer := (peer w)(fd := None)\<rparr>))"

definition sys_socket :: "bool \<Rightarrow> 'a net \<Rightarrow> int \<times> 'a net" where
  "sys_socket stream w =
     (case sys w of (a, w') \<Rightarrow> if a < 0 then (-1, w') else open_fd stream w')"

definition sys_close :: "int \<Rightarrow> 'a net \<Rightarrow> 'a net" where
  "sys_close fd w = w\<lparr>open_fds := filter (\<lambda>i. i \<noteq> fd) (open_fds w)\<rparr>"

definition sys_connect :: "int \<Rightarrow> 'a \<Rightarrow> 'a net \<Rightarrow> int \<times> 'a net" where
  "sys_connect fd addr w =
     (case sys_status fd w of
        (a, w') \<Rightarrow> (a, if a = 0 then w'\<lparr>peer := (peer w')(fd := Some addr)\<rparr> else w'))"

definition sys_bind :: "int \<Rightarrow> 'a \<Rightarrow> 'a net \<Rightarrow> int \<times> 'a net" where
  "sys_bind fd addr w =
     (case sys_status fd w of
        (a, w') \<Rightarrow> (a, if a = 0 then w'\<lparr>bound := (bound w')(fd := Some addr)\<rparr> else w'))"

definition sys_accept :: "int \<Rightarrow> 'a \<Rightarrow> 'a net \<Rightarrow> int \<times> 'a net" where
  "sys_accept fd from w =
     (case sys_on fd w of
        (a, w') \<Rightarrow>
          if a < 0 then (-1, w')
          else case open_fd True w' of (c, w'') \<Rightarrow> (c, w''\<lparr>peer := (peer w'')(c := Some from)\<rparr>))"

section \<open>Opening sockets\<close>

abbreviation MBEDTLS_ERR_NET_SOCKET_FAILED :: int where "MBEDTLS_ERR_NET_SOCKET_FAILED \<equiv> - 0x42"
abbreviation MBEDTLS_ERR_NET_BUFFER_TOO_SMALL :: int where "MBEDTLS_ERR_NET_BUFFER_TOO_SMALL \<equiv> - 0x43"
abbreviation MBEDTLS_ERR_NET_CONNECT_FAILED :: int where "MBEDTLS_ERR_NET_CONNECT_FAILED \<equiv> - 0x44"
abbreviation MBEDTLS_ERR_NET_INVALID_CONTEXT :: int where "MBEDTLS_ERR_NET_INVALID_CONTEXT \<equiv> - 0x45"
abbreviation MBEDTLS_ERR_NET_BIND_FAILED :: int where "MBEDTLS_ERR_NET_BIND_FAILED \<equiv> - 0x46"
abbreviation MBEDTLS_ERR_NET_LISTEN_FAILED :: int where "MBEDTLS_ERR_NET_LISTEN_FAILED \<equiv> - 0x48"
abbreviation MBEDTLS_ERR_NET_ACCEPT_FAILED :: int where "MBEDTLS_ERR_NET_ACCEPT_FAILED \<equiv> - 0x4A"
abbreviation MBEDTLS_ERR_NET_RECV_FAILED :: int where "MBEDTLS_ERR_NET_RECV_FAILED \<equiv> - 0x4C"
abbreviation MBEDTLS_ERR_NET_SEND_FAILED :: int where "MBEDTLS_ERR_NET_SEND_FAILED \<equiv> - 0x4E"
abbreviation MBEDTLS_ERR_NET_CONN_RESET :: int where "MBEDTLS_ERR_NET_CONN_RESET \<equiv> - 0x50"
abbreviation MBEDTLS_ERR_NET_UNKNOWN_HOST :: int where "MBEDTLS_ERR_NET_UNKNOWN_HOST \<equiv> - 0x52"
abbreviation MBEDTLS_ERR_SSL_TIMEOUT :: int where "MBEDTLS_ERR_SSL_TIMEOUT \<equiv> - 0x6800"
abbreviation MBEDTLS_ERR_SSL_WANT_WRITE :: int where "MBEDTLS_ERR_SSL_WANT_WRITE \<equiv> - 0x6880"
abbreviation MBEDTLS_ERR_SSL_WANT_READ :: int where "MBEDTLS_ERR_SSL_WANT_READ \<equiv> - 0x6900"

text \<open>
  A context is its descriptor. The addresses \<^verbatim>\<open>getaddrinfo\<close> found are an argument, \<open>None\<close> when it
  failed; the results are the return value and the new descriptor of the context.
\<close>

definition mbedtls_net_init :: int where "mbedtls_net_init = -1"

fun connect_loop :: "net_proto \<Rightarrow> 'a list \<Rightarrow> int \<Rightarrow> int \<Rightarrow> 'a net \<Rightarrow> int \<times> int \<times> 'a net" where
  "connect_loop proto [] ret fd w = (ret, fd, w)"
| "connect_loop proto (addr # addrs) ret fd w =
     (case sys_socket (proto \<noteq> MBEDTLS_NET_PROTO_UDP) w of
        (fd1, w1) \<Rightarrow>
          if fd1 < 0 then connect_loop proto addrs MBEDTLS_ERR_NET_SOCKET_FAILED fd1 w1
          else case sys_connect fd1 addr w1 of
            (c, w2) \<Rightarrow>
              if c = 0 then (0, fd1, w2)
              else connect_loop proto addrs MBEDTLS_ERR_NET_CONNECT_FAILED fd1 (sys_close fd1 w2))"

definition mbedtls_net_connect ::
    "int \<Rightarrow> net_proto \<Rightarrow> 'a list option \<Rightarrow> 'a net \<Rightarrow> int \<times> int \<times> 'a net" where
  "mbedtls_net_connect fd proto addr_list w =
     (case addr_list of
        None \<Rightarrow> (MBEDTLS_ERR_NET_UNKNOWN_HOST, fd, w)
      | Some addrs \<Rightarrow> connect_loop proto addrs MBEDTLS_ERR_NET_UNKNOWN_HOST fd w)"

fun bind_loop :: "net_proto \<Rightarrow> 'a list \<Rightarrow> int \<Rightarrow> int \<Rightarrow> 'a net \<Rightarrow> int \<times> int \<times> 'a net" where
  "bind_loop proto [] ret fd w = (ret, fd, w)"
| "bind_loop proto (addr # addrs) ret fd w =
     (case sys_socket (proto \<noteq> MBEDTLS_NET_PROTO_UDP) w of
        (fd1, w1) \<Rightarrow>
          if fd1 < 0 then bind_loop proto addrs MBEDTLS_ERR_NET_SOCKET_FAILED fd1 w1
          else case sys_status fd1 w1 of
            (o1, w2) \<Rightarrow>
              if o1 \<noteq> 0 then bind_loop proto addrs MBEDTLS_ERR_NET_SOCKET_FAILED fd1 (sys_close fd1 w2)
              else case sys_bind fd1 addr w2 of
                (b, w3) \<Rightarrow>
                  if b \<noteq> 0 then bind_loop proto addrs MBEDTLS_ERR_NET_BIND_FAILED fd1 (sys_close fd1 w3)
                  else if proto = MBEDTLS_NET_PROTO_TCP then
                    (case sys_status fd1 w3 of
                       (l, w4) \<Rightarrow>
                         if l \<noteq> 0 then bind_loop proto addrs MBEDTLS_ERR_NET_LISTEN_FAILED fd1 (sys_close fd1 w4)
                         else (0, fd1, w4))
                  else (0, fd1, w3))"

definition mbedtls_net_bind ::
    "int \<Rightarrow> net_proto \<Rightarrow> 'a list option \<Rightarrow> 'a net \<Rightarrow> int \<times> int \<times> 'a net" where
  "mbedtls_net_bind fd proto addr_list w =
     (case addr_list of
        None \<Rightarrow> (MBEDTLS_ERR_NET_UNKNOWN_HOST, fd, w)
      | Some addrs \<Rightarrow> bind_loop proto addrs MBEDTLS_ERR_NET_UNKNOWN_HOST fd w)"

definition mbedtls_net_free :: "int \<Rightarrow> 'a net \<Rightarrow> int \<times> 'a net" where
  "mbedtls_net_free fd w = (if fd = -1 then (fd, w) else (-1, sys_close fd w))"

section \<open>Accepting a client\<close>

text \<open>The descriptor is asked for its flags; a failing \<^verbatim>\<open>fcntl\<close> returns -1, which has every flag set.\<close>

definition net_would_block :: "int \<Rightarrow> 'a net \<Rightarrow> bool \<times> 'a net" where
  "net_would_block fd w =
     (if fd \<notin> set (open_fds w) then (False, w\<lparr>errno := EBADF\<rparr>)
      else (nonblock w fd \<and> errno w = EAGAIN, w))"

text \<open>
  \<open>from\<close> is the address of the client; the results are the return value, the descriptors of the two
  contexts, and the address stored for the caller.
\<close>

definition accept_rest ::
    "int \<Rightarrow> int \<Rightarrow> 'a \<Rightarrow> bool \<Rightarrow> nat \<Rightarrow> 'a net \<Rightarrow> int \<times> int \<times> int \<times> 'a option \<times> 'a net" where
  "accept_rest bind_fd client_fd from wants_ip buf_size w =
     (if wants_ip \<and> buf_size < 4 then (MBEDTLS_ERR_NET_BUFFER_TOO_SMALL, bind_fd, client_fd, None, w)
      else (0, bind_fd, client_fd, if wants_ip then Some from else None, w))"

definition accept_failed ::
    "int \<Rightarrow> int \<Rightarrow> 'a net \<Rightarrow> int \<times> int \<times> int \<times> 'a option \<times> 'a net" where
  "accept_failed bind_fd client_fd w =
     (case net_would_block bind_fd w of
        (b, w') \<Rightarrow>
          (if b then MBEDTLS_ERR_SSL_WANT_READ else MBEDTLS_ERR_NET_ACCEPT_FAILED, bind_fd, client_fd, None, w'))"

definition accept_udp ::
    "int \<Rightarrow> 'a \<Rightarrow> bool \<Rightarrow> nat \<Rightarrow> int \<Rightarrow> 'a net \<Rightarrow> int \<times> int \<times> int \<times> 'a option \<times> 'a net" where
  "accept_udp bind_fd from wants_ip buf_size client_fd w =
     (case sys_connect bind_fd from w of
        (c, w1) \<Rightarrow>
          if c \<noteq> 0 then (MBEDTLS_ERR_NET_ACCEPT_FAILED, bind_fd, client_fd, None, w1)
          else case sys_status bind_fd w1 of
            (g, w2) \<Rightarrow>
              if g \<noteq> 0 then (MBEDTLS_ERR_NET_SOCKET_FAILED, -1, bind_fd, None, w2)
              else case sys_socket False w2 of
                (fd1, w3) \<Rightarrow>
                  if fd1 < 0 then (MBEDTLS_ERR_NET_SOCKET_FAILED, fd1, bind_fd, None, w3)
                  else case sys_status fd1 w3 of
                    (o1, w4) \<Rightarrow>
                      if o1 \<noteq> 0 then (MBEDTLS_ERR_NET_SOCKET_FAILED, fd1, bind_fd, None, w4)
                      else
                        let (b, w5) = (case bound w4 bind_fd of
                            None \<Rightarrow> sys_status fd1 w4
                          | Some local \<Rightarrow> sys_bind fd1 local w4) in
                        if b \<noteq> 0 then (MBEDTLS_ERR_NET_BIND_FAILED, fd1, bind_fd, None, w5)
                        else accept_rest fd1 bind_fd from wants_ip buf_size w5)"

definition mbedtls_net_accept ::
    "int \<Rightarrow> int \<Rightarrow> 'a \<Rightarrow> bool \<Rightarrow> nat \<Rightarrow> 'a net \<Rightarrow> int \<times> int \<times> int \<times> 'a option \<times> 'a net" where
  "mbedtls_net_accept bind_fd client_fd from wants_ip buf_size w =
     (case sys_status bind_fd w of
        (g, w1) \<Rightarrow>
          if g \<noteq> 0 then (MBEDTLS_ERR_NET_ACCEPT_FAILED, bind_fd, client_fd, None, w1)
          else if is_stream w1 bind_fd then
            (case sys_accept bind_fd from w1 of
               (c, w2) \<Rightarrow>
                 if c < 0 then accept_failed bind_fd c w2
                 else accept_rest bind_fd c from wants_ip buf_size w2)
          else
            (case sys_on bind_fd w1 of
               (r, w2) \<Rightarrow>
                 if r < 0 then accept_failed bind_fd client_fd w2
                 else accept_udp bind_fd from wants_ip buf_size client_fd w2))"

definition mbedtls_net_set_block :: "int \<Rightarrow> 'a net \<Rightarrow> int \<times> 'a net" where
  "mbedtls_net_set_block fd w =
     (case sys_status fd w of
        (a, w') \<Rightarrow> (a, if a = 0 then w'\<lparr>nonblock := (nonblock w')(fd := False)\<rparr> else w'))"

definition mbedtls_net_set_nonblock :: "int \<Rightarrow> 'a net \<Rightarrow> int \<times> 'a net" where
  "mbedtls_net_set_nonblock fd w =
     (case sys_status fd w of
        (a, w') \<Rightarrow> (a, if a = 0 then w'\<lparr>nonblock := (nonblock w')(fd := True)\<rparr> else w'))"

section \<open>Sending and receiving\<close>

definition mbedtls_net_usleep :: "nat \<Rightarrow> 'a net \<Rightarrow> 'a net" where
  "mbedtls_net_usleep usec w = w\<lparr>waits := waits w @ [Some (usec div 1000000, usec mod 1000000)]\<rparr>"

text \<open>What \<^verbatim>\<open>read\<close> or \<^verbatim>\<open>write\<close> of \<open>len\<close> bytes answers: never more than \<open>len\<close>.\<close>

definition sys_transfer :: "int \<Rightarrow> nat \<Rightarrow> 'a net \<Rightarrow> int \<times> 'a net" where
  "sys_transfer fd len w =
     (if fd \<in> set (open_fds w) then
        (case answers w of
           [] \<Rightarrow> (int len, w)
         | _ \<Rightarrow> (case sys w of (a, w') \<Rightarrow> (min a (int len), w')))
      else (-1, w\<lparr>errno := EBADF\<rparr>))"

definition transfer_error :: "int \<Rightarrow> int \<Rightarrow> int \<Rightarrow> 'a net \<Rightarrow> int \<times> 'a net" where
  "transfer_error fd again failed w =
     (case net_would_block fd w of
        (b, w') \<Rightarrow>
          (if b then again
           else if errno w' = EPIPE \<or> errno w' = ECONNRESET then MBEDTLS_ERR_NET_CONN_RESET
           else if errno w' = EINTR then again
           else failed, w'))"

definition mbedtls_net_recv :: "int \<Rightarrow> nat \<Rightarrow> 'a net \<Rightarrow> int \<times> 'a net" where
  "mbedtls_net_recv fd len w =
     (if fd < 0 then (MBEDTLS_ERR_NET_INVALID_CONTEXT, w)
      else case sys_transfer fd len w of
        (ret, w') \<Rightarrow>
          if ret < 0 then transfer_error fd MBEDTLS_ERR_SSL_WANT_READ MBEDTLS_ERR_NET_RECV_FAILED w'
          else (ret, w'))"

definition mbedtls_net_recv_timeout :: "int \<Rightarrow> nat \<Rightarrow> nat \<Rightarrow> 'a net \<Rightarrow> int \<times> 'a net" where
  "mbedtls_net_recv_timeout fd len timeout w =
     (if fd < 0 then (MBEDTLS_ERR_NET_INVALID_CONTEXT, w)
      else
        let w1 = w\<lparr>waits := waits w @
          [if timeout = 0 then None else Some (timeout div 1000, timeout mod 1000 * 1000)]\<rparr> in
        case (case answers w1 of [] \<Rightarrow> (1, w1) | _ \<Rightarrow> sys w1) of
          (ret, w2) \<Rightarrow>
            if ret = 0 then (MBEDTLS_ERR_SSL_TIMEOUT, w2)
            else if ret < 0 then (MBEDTLS_ERR_NET_RECV_FAILED, w2)
            else mbedtls_net_recv fd len w2)"

definition mbedtls_net_send :: "int \<Rightarrow> nat \<Rightarrow> 'a net \<Rightarrow> int \<times> 'a net" where
  "mbedtls_net_send fd len w =
     (if fd < 0 then (MBEDTLS_ERR_NET_INVALID_CONTEXT, w)
      else case sys_transfer fd len w of
        (ret, w') \<Rightarrow>
          if ret < 0 then transfer_error fd MBEDTLS_ERR_SSL_WANT_WRITE MBEDTLS_ERR_NET_SEND_FAILED w'
          else (ret, w'))"

section \<open>Which descriptors are open\<close>

lemma lowest_free: "lowest_free fds \<notin> set fds" "0 \<le> lowest_free fds"
proof -
  let ?free = "filter (\<lambda>i. i \<notin> set fds) (map int [0..<Suc (length fds)])"
  have "\<not> int ` {0..<Suc (length fds)} \<subseteq> set fds"
  proof
    assume "int ` {0..<Suc (length fds)} \<subseteq> set fds"
    then have "card (int ` {0..<Suc (length fds)}) \<le> card (set fds)" by (rule card_mono [rotated]) simp
    then show False using card_length [of fds] by (simp add: card_image)
  qed
  then have "\<not> (\<forall>i\<in>set (map int [0..<Suc (length fds)]). i \<in> set fds)"
    unfolding set_map set_upt image_subset_iff by blast
  then have "?free \<noteq> []" unfolding filter_empty_conv by simp
  then have "hd ?free \<in> set ?free" by (rule hd_in_set)
  then show "lowest_free fds \<notin> set fds" "0 \<le> lowest_free fds"
    unfolding lowest_free_def by auto
qed

text \<open>A call leaves descriptors and addresses alone.\<close>

definition same_sockets :: "'a net \<Rightarrow> 'a net \<Rightarrow> bool" where
  "same_sockets w w' \<longleftrightarrow> open_fds w' = open_fds w \<and> is_stream w' = is_stream w \<and> nonblock w' = nonblock w
     \<and> bound w' = bound w \<and> peer w' = peer w"

lemma sys_same: "sys w = (a, w') \<Longrightarrow> same_sockets w w'"
  by (auto simp: sys_def same_sockets_def split: list.splits if_splits)

lemma sys_on_same: "sys_on fd w = (a, w') \<Longrightarrow> same_sockets w w'"
  by (auto simp: sys_on_def same_sockets_def dest!: sys_same split: if_splits)

lemma sys_status_same: "sys_status fd w = (a, w') \<Longrightarrow> same_sockets w w'"
  by (auto simp: sys_status_def dest!: sys_on_same split: prod.splits)

text \<open>A new socket is the lowest free descriptor, with nothing bound or connected.\<close>

lemma sys_socket_new:
  assumes "sys_socket stream w = (fd, w')" and "\<not> fd < 0"
  shows "fd \<notin> set (open_fds w)" and "set (open_fds w') = insert fd (set (open_fds w))"
    and "is_stream w' fd = stream" and "\<And>g. g \<noteq> fd \<Longrightarrow> peer w' g = peer w g \<and> bound w' g = bound w g"
  using assms lowest_free [of "open_fds w"]
  by (auto simp: sys_socket_def open_fd_def Let_def same_sockets_def dest!: sys_same split: prod.splits if_splits)

lemma sys_socket_failed: "sys_socket stream w = (fd, w') \<Longrightarrow> fd < 0 \<Longrightarrow> same_sockets w w'"
  using lowest_free [of "open_fds w"]
  by (auto simp: sys_socket_def open_fd_def Let_def same_sockets_def dest!: sys_same split: prod.splits if_splits)

lemma sys_connect_effect:
  assumes "sys_connect fd addr w = (c, w')"
  shows "open_fds w' = open_fds w" and "is_stream w' = is_stream w" and "bound w' = bound w"
    and "c = 0 \<Longrightarrow> peer w' = (peer w)(fd := Some addr)"
  using assms by (auto simp: sys_connect_def same_sockets_def dest!: sys_status_same split: prod.splits if_splits)

lemma sys_bind_effect:
  assumes "sys_bind fd addr w = (c, w')"
  shows "open_fds w' = open_fds w" and "is_stream w' = is_stream w" and "peer w' = peer w"
    and "c = 0 \<Longrightarrow> bound w' = (bound w)(fd := Some addr)"
  using assms by (auto simp: sys_bind_def same_sockets_def dest!: sys_status_same split: prod.splits if_splits)

lemma set_close [simp]: "set (open_fds (sys_close fd w)) = set (open_fds w) - {fd}"
  by (auto simp: sys_close_def)

lemma connect_loop_fds:
  assumes "connect_loop proto addrs ret0 fd0 w = (ret, fd, w')" and "ret0 \<noteq> 0"
  shows "(ret = 0 \<longrightarrow> fd \<notin> set (open_fds w) \<and> set (open_fds w') = insert fd (set (open_fds w))
        \<and> (\<exists>a\<in>set addrs. peer w' fd = Some a) \<and> is_stream w' fd = (proto = MBEDTLS_NET_PROTO_TCP))
    \<and> (ret \<noteq> 0 \<longrightarrow> set (open_fds w') = set (open_fds w))"
  using assms
proof (induction proto addrs ret0 fd0 w rule: connect_loop.induct)
  case (1 proto ret0 fd0 w)
  then show ?case by simp
next
  case (2 proto addr addrs ret0 fd0 w)
  obtain fd1 w1 where s: "sys_socket (proto \<noteq> MBEDTLS_NET_PROTO_UDP) w = (fd1, w1)"
    by (metis surj_pair)
  obtain c w2 where c: "sys_connect fd1 addr w1 = (c, w2)" by (metis surj_pair)
  have tcp: "proto \<noteq> MBEDTLS_NET_PROTO_UDP \<longleftrightarrow> proto = MBEDTLS_NET_PROTO_TCP" by (cases proto) auto
  show ?case
  proof (cases "fd1 < 0")
    case True
    have "open_fds w1 = open_fds w" using sys_socket_failed [OF s True] by (simp add: same_sockets_def)
    then show ?thesis using "2.IH"(1) [OF s [symmetric] True] "2.prems"(1) True s by simp
  next
    case False
    note new = sys_socket_new [OF s False]
    note con = sys_connect_effect [OF c]
    show ?thesis
    proof (cases "c = 0")
      case True
      then show ?thesis using "2.prems" s c False new con tcp by auto
    next
      case no: False
      have "set (open_fds (sys_close fd1 w2)) = set (open_fds w)" using new con by auto
      then show ?thesis
        using "2.IH"(2) [OF s [symmetric] False c [symmetric] no] "2.prems"(1) False s c no by simp
    qed
  qed
qed

lemma bind_loop_fds:
  assumes "bind_loop proto addrs ret0 fd0 w = (ret, fd, w')" and "ret0 \<noteq> 0"
  shows "(ret = 0 \<longrightarrow> fd \<notin> set (open_fds w) \<and> set (open_fds w') = insert fd (set (open_fds w))
        \<and> (\<exists>a\<in>set addrs. bound w' fd = Some a) \<and> is_stream w' fd = (proto = MBEDTLS_NET_PROTO_TCP))
    \<and> (ret \<noteq> 0 \<longrightarrow> set (open_fds w') = set (open_fds w))"
  using assms
proof (induction proto addrs ret0 fd0 w rule: bind_loop.induct)
  case (1 proto ret0 fd0 w)
  then show ?case by simp
next
  case (2 proto addr addrs ret0 fd0 w)
  obtain fd1 w1 where s: "sys_socket (proto \<noteq> MBEDTLS_NET_PROTO_UDP) w = (fd1, w1)"
    by (metis surj_pair)
  obtain o1 w2 where o1: "sys_status fd1 w1 = (o1, w2)" by (metis surj_pair)
  obtain b w3 where b: "sys_bind fd1 addr w2 = (b, w3)" by (metis surj_pair)
  obtain l w4 where l: "sys_status fd1 w3 = (l, w4)" by (metis surj_pair)
  have tcp: "proto \<noteq> MBEDTLS_NET_PROTO_UDP \<longleftrightarrow> proto = MBEDTLS_NET_PROTO_TCP" by (cases proto) auto
  show ?case
  proof (cases "fd1 < 0")
    case True
    have "open_fds w1 = open_fds w" using sys_socket_failed [OF s True] by (simp add: same_sockets_def)
    then show ?thesis using "2.IH"(1) [OF s [symmetric] True] "2.prems"(1) True s by simp
  next
    case False
    note new = sys_socket_new [OF s False]
    have w2: "open_fds w2 = open_fds w1" "is_stream w2 = is_stream w1"
      using sys_status_same [OF o1] by (simp_all add: same_sockets_def)
    have w3: "open_fds w3 = open_fds w1" "is_stream w3 = is_stream w1"
      using sys_bind_effect [OF b] w2 by simp_all
    have w4: "open_fds w4 = open_fds w1" "is_stream w4 = is_stream w1" "bound w4 = bound w3"
      using sys_status_same [OF l] w3 by (simp_all add: same_sockets_def)
    have restored: "set (open_fds (sys_close fd1 v)) = set (open_fds w)" if "open_fds v = open_fds w1" for v :: "'a net"
      using new that by auto
    consider "o1 \<noteq> 0" | "o1 = 0" "b \<noteq> 0" | "o1 = 0" "b = 0" "proto = MBEDTLS_NET_PROTO_TCP" "l \<noteq> 0"
      | "o1 = 0" "b = 0" "proto = MBEDTLS_NET_PROTO_TCP \<Longrightarrow> l = 0" by blast
    then show ?thesis
    proof cases
      case 1
      then show ?thesis
        using "2.IH"(2) [OF s [symmetric] False o1 [symmetric] 1] "2.prems"(1) False s o1 restored [OF w2(1)]
        by (simp del: set_close)
    next
      case 2
      then show ?thesis
        using "2.IH"(3) [OF s [symmetric] False o1 [symmetric] _ b [symmetric]] "2.prems"(1) False s o1 b
          restored [OF w3(1)] by (simp del: set_close)
    next
      case 3
      then show ?thesis
        using "2.IH"(4) [OF s [symmetric] False o1 [symmetric] _ b [symmetric] _ _ l [symmetric]] "2.prems"(1)
          False s o1 b l restored [OF w4(1)] by (simp del: set_close)
    next
      case 4
      then show ?thesis
        using "2.prems"(1) False s o1 b l new w3 w4 sys_bind_effect(4) [OF b] tcp
        by (auto split: if_splits)
    qed
  qed
qed

text \<open>What a call that opens a socket may do: \<open>at\<close> is where the address of the socket is kept.\<close>

definition opened ::
    "('a net \<Rightarrow> int \<Rightarrow> 'a option) \<Rightarrow> net_proto \<Rightarrow> 'a list option \<Rightarrow> 'a net \<Rightarrow> int \<Rightarrow> int \<Rightarrow> 'a net \<Rightarrow> bool" where
  "opened at proto addr_list w ret fd w' \<longleftrightarrow>
     (if ret = 0 then fd \<notin> set (open_fds w) \<and> set (open_fds w') = insert fd (set (open_fds w))
        \<and> (\<exists>addrs. addr_list = Some addrs \<and> (\<exists>a\<in>set addrs. at w' fd = Some a))
        \<and> is_stream w' fd = (proto = MBEDTLS_NET_PROTO_TCP)
      else set (open_fds w') = set (open_fds w))"

text \<open>
  Opening a connection or a listening socket, whatever lwIP answers: on success the context holds
  the one new descriptor, of the right kind and connected or bound to one of the addresses that were
  found; on failure no descriptor is left open.
\<close>

theorem net_open_no_leak:
  "(case mbedtls_net_connect fd0 proto addr_list w of (ret, fd, w') \<Rightarrow> opened peer proto addr_list w ret fd w')
   \<and> (case mbedtls_net_bind fd0 proto addr_list w of (ret, fd, w') \<Rightarrow> opened bound proto addr_list w ret fd w')"
proof (cases addr_list)
  case None
  then show ?thesis by (simp add: mbedtls_net_connect_def mbedtls_net_bind_def opened_def)
next
  case (Some addrs)
  have "opened peer proto (Some addrs) w ret fd w'"
    if "connect_loop proto addrs MBEDTLS_ERR_NET_UNKNOWN_HOST fd0 w = (ret, fd, w')" for ret fd w'
    using connect_loop_fds [OF that] by (simp add: opened_def)
  moreover have "opened bound proto (Some addrs) w ret fd w'"
    if "bind_loop proto addrs MBEDTLS_ERR_NET_UNKNOWN_HOST fd0 w = (ret, fd, w')" for ret fd w'
    using bind_loop_fds [OF that] by (simp add: opened_def)
  ultimately show ?thesis
    by (simp add: mbedtls_net_connect_def mbedtls_net_bind_def Some split: prod.split)
qed

definition ex_net :: "int list \<Rightarrow> nat net" where
  "ex_net as = \<lparr>open_fds = [3, 0], is_stream = (\<lambda>fd. False), nonblock = (\<lambda>fd. False), bound = [3 \<mapsto> 6684],
     peer = (\<lambda>fd. None), errno = 0, waits = [], answers = as\<rparr>"

section \<open>Accepting over UDP\<close>

text \<open>
  A UDP client that is accepted takes over the listening descriptor, now connected to it, and the
  listening context gets a new descriptor bound to the same address, the only one that was opened. When
  the last \<^verbatim>\<open>bind\<close> fails that descriptor stays open.
\<close>

theorem net_accept_udp:
  assumes "bind_fd \<in> set (open_fds w)" and "\<not> is_stream w bind_fd" and "bound w bind_fd = Some local"
    and "answers w = [0, 1, 0, 0, 0, 0] @ (if works then [] else [-98])" and "4 \<le> n"
  shows "\<exists>fd w'. fd \<notin> set (open_fds w) \<and> set (open_fds w') = insert fd (set (open_fds w))
    \<and> mbedtls_net_accept bind_fd client_fd from True n w =
        (if works then (0, fd, bind_fd, Some from, w') else (MBEDTLS_ERR_NET_BIND_FAILED, fd, bind_fd, None, w'))
    \<and> peer w' bind_fd = Some from \<and> (works \<longrightarrow> bound w' fd = Some local)"
proof -
  let ?fd = "lowest_free (open_fds w)"
  have fresh: "?fd \<notin> set (open_fds w)" "\<not> ?fd < 0" "?fd \<noteq> bind_fd" using lowest_free [of "open_fds w"] assms(1) by auto
  show ?thesis
    using assms fresh
    by (cases works)
      (auto simp: mbedtls_net_accept_def sys_status_def sys_on_def sys_def accept_udp_def sys_connect_def
        sys_socket_def open_fd_def Let_def sys_bind_def accept_rest_def)
qed

lemma net_accept_udp_witness:
  "\<exists>fd w'. fd \<notin> set (open_fds (ex_net ([0, 1, 0, 0, 0, 0] @ []))) \<and> set (open_fds w') = insert fd (set (open_fds (ex_net ([0, 1, 0, 0, 0, 0] @ []))))
    \<and> mbedtls_net_accept 3 (-1) 5 True 16 (ex_net ([0, 1, 0, 0, 0, 0] @ [])) = (0, fd, 3, Some 5, w')
    \<and> peer w' 3 = Some 5 \<and> bound w' fd = Some 6684"
  using net_accept_udp [of 3 "ex_net ([0, 1, 0, 0, 0, 0] @ [])" 6684 True 16 "-1" 5]
  by (simp add: ex_net_def)

text \<open>
  The descriptor of a connection that failed stays in the context although it was closed: when
  another socket is opened, it gets that descriptor, and freeing the context closes that socket.
\<close>

theorem net_free_closes_foreign:
  assumes "answers w = [0, - 111]"
  shows "\<exists>fd w1 w2. mbedtls_net_connect (-1) proto (Some [addr]) w = (MBEDTLS_ERR_NET_CONNECT_FAILED, fd, w1)
    \<and> sys_socket stream w1 = (fd, w2) \<and> fd \<in> set (open_fds w2)
    \<and> fd \<notin> set (open_fds (snd (mbedtls_net_free fd w2)))"
proof -
  let ?fd = "lowest_free (open_fds w)"
  have fresh: "?fd \<notin> set (open_fds w)" "\<not> ?fd < 0" "?fd \<noteq> -1" using lowest_free [of "open_fds w"] by auto
  then have "filter (\<lambda>i. i \<noteq> ?fd) (open_fds w) = open_fds w" by (auto simp: filter_id_conv)
  then show ?thesis
    using assms fresh
    by (simp add: mbedtls_net_connect_def sys_socket_def sys_def open_fd_def Let_def sys_connect_def
        sys_status_def sys_on_def sys_close_def mbedtls_net_free_def)
qed

lemma net_free_closes_foreign_witness:
  "\<exists>fd w1 w2. mbedtls_net_connect (-1) MBEDTLS_NET_PROTO_UDP (Some [9]) (ex_net [0, - 111])
      = (MBEDTLS_ERR_NET_CONNECT_FAILED, fd, w1)
    \<and> sys_socket False w1 = (fd, w2) \<and> fd \<in> set (open_fds w2)
    \<and> fd \<notin> set (open_fds (snd (mbedtls_net_free fd w2)))"
  by (rule net_free_closes_foreign) (simp add: ex_net_def)

end
