(* ===== verification/Easy_Tls.thy ===== *)
theory Easy_Tls
imports Net_Sockets
begin

text \<open>
  TLS contexts and sessions, \<^verbatim>\<open>app/lwm2m/easy_tls.c\<close>: which blocks are allocated and freed, which
  sockets are opened and closed, and what is returned. mbedTLS is seen through the results of the
  calls that can fail: \<open>lib_answers\<close> lists those of the coming calls, after the listed ones every
  call returns 0.
\<close>

section \<open>Memory and state\<close>

datatype easy_tls_error =
    TLS_SUCCESS
  | TLS_ALLOC_FAIL
  | TLS_INVALID_INPUT_PARAM
  | TLS_CONTEXT_INIT_FAIL
  | TLS_PARSE_CRED_FAIL
  | TLS_INVALID_CRED
  | TLS_SET_DEFAULT_FAIL
  | TLS_SET_HOSTNAME_FAIL
  | TLS_SET_COOKIE_FAIL
  | TLS_INVALID_CACERT
  | TLS_INVALID_DEVCERT
  | TLS_INVALID_DEVKEY
  | TLS_INVALID_PSK

text \<open>A pointer is the number of its block, \<open>None\<close> is null. Numbers of blocks are not used again.\<close>

type_synonym ptr = "nat option"

record tls_ctx =
  conf :: ptr
  crt :: ptr
  pkey :: ptr
  entropy :: ptr
  ctr_drbg :: ptr
  timer :: ptr
  cookie :: ptr

text \<open>The descriptor of a session has no value before it is assigned.\<close>

record tls_session =
  net_fd :: "int option"
  ssl :: ptr

record tls_cred =
  ca_cert :: "byte list option"
  dev_cert :: "byte list option"
  dev_key :: "byte list option"
  psk :: "byte list option"
  psk_identity :: "byte list option"
  psk_len :: nat

record tls_opt =
  server :: int
  transport :: int
  auth_mode :: int
  debug_mode :: int
  host_name :: "byte list option"
  force_ciphersuites :: "int list"

abbreviation MBEDTLS_SSL_IS_CLIENT :: int where "MBEDTLS_SSL_IS_CLIENT \<equiv> 0"
abbreviation MBEDTLS_SSL_IS_SERVER :: int where "MBEDTLS_SSL_IS_SERVER \<equiv> 1"
abbreviation MBEDTLS_SSL_TRANSPORT_STREAM :: int where "MBEDTLS_SSL_TRANSPORT_STREAM \<equiv> 0"
abbreviation MBEDTLS_SSL_TRANSPORT_DATAGRAM :: int where "MBEDTLS_SSL_TRANSPORT_DATAGRAM \<equiv> 1"
abbreviation MBEDTLS_ERR_SSL_HELLO_VERIFY_REQUIRED :: int where
  "MBEDTLS_ERR_SSL_HELLO_VERIFY_REQUIRED \<equiv> - 0x6A80"

record 'a tls_world =
  live :: "nat list"
  next_block :: nat
  alloc :: mem
  lib_answers :: "int list"
  ctxs :: "nat \<Rightarrow> tls_ctx"
  sessions :: "nat \<Rightarrow> tls_session"
  sockets :: "'a net"

definition malloc :: "'a tls_world \<Rightarrow> ptr \<times> 'a tls_world" where
  "malloc w =
     (case lwm2m_malloc (alloc w) of
        (False, m) \<Rightarrow> (None, w\<lparr>alloc := m\<rparr>)
      | (True, m) \<Rightarrow>
          (Some (next_block w),
           w\<lparr>alloc := m, live := next_block w # live w, next_block := Suc (next_block w)\<rparr>))"

definition free :: "ptr \<Rightarrow> 'a tls_world \<Rightarrow> 'a tls_world res" where
  "free p w =
     (case p of
        None \<Rightarrow> Inr w
      | Some b \<Rightarrow>
          if b \<in> set (live w) then Inr (w\<lparr>live := remove1 b (live w)\<rparr>) else Inl DoubleFree)"

text \<open>A block that is read or written must be live.\<close>

definition touch :: "ptr \<Rightarrow> 'a tls_world \<Rightarrow> nat res" where
  "touch p w =
     (case p of
        None \<Rightarrow> Inl NullDeref
      | Some b \<Rightarrow> if b \<in> set (live w) then Inr b else Inl UseAfterFree)"

definition lib :: "'a tls_world \<Rightarrow> int \<times> 'a tls_world" where
  "lib w = (case lib_answers w of [] \<Rightarrow> (0, w) | a # as \<Rightarrow> (a, w\<lparr>lib_answers := as\<rparr>))"

section \<open>Contexts\<close>

text \<open>The pointers of a context in the order in which they are allocated and freed.\<close>

definition ctx_fields :: "((ptr \<Rightarrow> ptr) \<Rightarrow> tls_ctx \<Rightarrow> tls_ctx) list" where
  "ctx_fields = [conf_update, crt_update, pkey_update, entropy_update, ctr_drbg_update, timer_update]"

definition zero_ctx :: tls_ctx where
  "zero_ctx = \<lparr>conf = None, crt = None, pkey = None, entropy = None, ctr_drbg = None, timer = None,
     cookie = None\<rparr>"

fun alloc_fields ::
    "((ptr \<Rightarrow> ptr) \<Rightarrow> tls_ctx \<Rightarrow> tls_ctx) list \<Rightarrow> tls_ctx \<Rightarrow> 'a tls_world
     \<Rightarrow> easy_tls_error \<times> tls_ctx \<times> 'a tls_world" where
  "alloc_fields [] c w = (TLS_SUCCESS, c, w)"
| "alloc_fields (f # fs) c w =
     (case malloc w of
        (None, w') \<Rightarrow> (TLS_ALLOC_FAIL, f (\<lambda>_. None) c, w')
      | (Some b, w') \<Rightarrow> alloc_fields fs (f (\<lambda>_. Some b) c) w')"

definition tls_context_alloc :: "nat \<Rightarrow> 'a tls_world \<Rightarrow> easy_tls_error \<times> 'a tls_world" where
  "tls_context_alloc b w =
     (case alloc_fields ctx_fields zero_ctx w of
        (r, c, w') \<Rightarrow> (r, w'\<lparr>ctxs := (ctxs w')(b := c)\<rparr>))"

fun free_all :: "ptr list \<Rightarrow> 'a tls_world \<Rightarrow> 'a tls_world res" where
  "free_all [] w = Inr w"
| "free_all (p # ps) w = bindE (free p w) (free_all ps)"

definition ctx_ptrs :: "tls_ctx \<Rightarrow> ptr list" where
  "ctx_ptrs c = [conf c, crt c, pkey c, entropy c, ctr_drbg c, timer c, cookie c]"

definition tls_context_free :: "ptr \<Rightarrow> 'a tls_world \<Rightarrow> 'a tls_world res" where
  "tls_context_free ctx w =
     (case ctx of
        None \<Rightarrow> Inr w
      | Some b \<Rightarrow>
          bindE (touch ctx w) (\<lambda>_.
          bindE (free_all (ctx_ptrs (ctxs w b)) w) (\<lambda>w'. Inr (w'\<lparr>ctxs := (ctxs w')(b := zero_ctx)\<rparr>))))"

fun touch_all :: "ptr list \<Rightarrow> 'a tls_world \<Rightarrow> unit res" where
  "touch_all [] w = Inr ()"
| "touch_all (p # ps) w = bindE (touch p w) (\<lambda>_. touch_all ps w)"

definition tls_context_init :: "ptr \<Rightarrow> 'a tls_world \<Rightarrow> easy_tls_error res" where
  "tls_context_init ctx w =
     (case ctx of
        None \<Rightarrow> Inr TLS_CONTEXT_INIT_FAIL
      | Some b \<Rightarrow>
          bindE (touch ctx w) (\<lambda>_.
          let c = ctxs w b in
          bindE (touch_all [conf c, crt c, pkey c, entropy c, ctr_drbg c] w) (\<lambda>_. Inr TLS_SUCCESS)))"

definition tls_context_release :: "ptr \<Rightarrow> 'a tls_world \<Rightarrow> unit res" where
  "tls_context_release ctx w =
     (case ctx of
        None \<Rightarrow> Inr ()
      | Some b \<Rightarrow>
          bindE (touch ctx w) (\<lambda>_.
          let c = ctxs w b in
          touch_all ([conf c, crt c, pkey c, entropy c, ctr_drbg c]
            @ (case cookie c of None \<Rightarrow> [] | Some k \<Rightarrow> [Some k])) w))"

definition tls_entropy_init :: "'a tls_world \<Rightarrow> int \<times> 'a tls_world" where
  "tls_entropy_init w = lib w"

text \<open>
  \<open>set_psk\<close>, \<open>set_ca\<close> and \<open>set_cert\<close> are the three parts of \<^verbatim>\<open>tls_set_cred\<close>: the value of an early
  return, if there is one, and whether \<open>ret\<close> was set to the result of a call.
\<close>

definition set_psk :: "tls_cred \<Rightarrow> 'a tls_world \<Rightarrow> (easy_tls_error option \<times> bool \<times> 'a tls_world) res" where
  "set_psk cred w =
     (if psk cred \<noteq> None \<and> psk_len cred \<noteq> 0 then
        (case psk_identity cred of
           None \<Rightarrow> Inl NullDeref
         | Some _ \<Rightarrow>
             (case lib w of
                (ret, w') \<Rightarrow> Inr (if ret \<noteq> 0 then (Some TLS_INVALID_PSK, True, w') else (None, True, w'))))
      else Inr (None, False, w))"

definition set_ca :: "tls_cred \<Rightarrow> 'a tls_world \<Rightarrow> easy_tls_error option \<times> bool \<times> 'a tls_world" where
  "set_ca cred w =
     (if ca_cert cred \<noteq> None then
        (case lib w of
           (ret, w') \<Rightarrow> if ret \<noteq> 0 then (Some TLS_INVALID_CACERT, True, w') else (None, True, w'))
      else (None, False, w))"

definition set_cert :: "tls_cred \<Rightarrow> 'a tls_world \<Rightarrow> easy_tls_error option \<times> bool \<times> 'a tls_world" where
  "set_cert cred w =
     (if dev_cert cred \<noteq> None \<and> dev_key cred \<noteq> None then
        (case lib w of
           (r1, w1) \<Rightarrow>
             if r1 \<noteq> 0 then (Some TLS_INVALID_DEVCERT, True, w1)
             else case lib w1 of
               (r2, w2) \<Rightarrow>
                 if r2 \<noteq> 0 then (Some TLS_INVALID_DEVKEY, True, w2)
                 else case lib w2 of
                   (r3, w3) \<Rightarrow> if r3 \<noteq> 0 then (Some TLS_INVALID_DEVCERT, True, w3) else (None, True, w3))
      else (None, False, w))"

definition tls_set_cred ::
    "tls_cred option \<Rightarrow> 'a tls_world \<Rightarrow> (easy_tls_error \<times> 'a tls_world) res" where
  "tls_set_cred cred w =
     (case cred of
        None \<Rightarrow> Inr (TLS_INVALID_CRED, w)
      | Some c \<Rightarrow>
          bindE (set_psk c w) (\<lambda>(e1, done1, w1).
            case e1 of
              Some r \<Rightarrow> Inr (r, w1)
            | None \<Rightarrow>
              (case set_ca c w1 of
                 (Some r, _, w2) \<Rightarrow> Inr (r, w2)
               | (None, done2, w2) \<Rightarrow>
                 (case set_cert c w2 of
                    (Some r, _, w3) \<Rightarrow> Inr (r, w3)
                  | (None, done3, w3) \<Rightarrow>
                    Inr (if done1 \<or> done2 \<or> done3 then TLS_SUCCESS else TLS_PARSE_CRED_FAIL, w3)))))"

definition TLSCtx_free :: "ptr \<Rightarrow> 'a tls_world \<Rightarrow> (easy_tls_error \<times> 'a tls_world) res" where
  "TLSCtx_free ctx w =
     (if ctx = None then Inr (TLS_INVALID_INPUT_PARAM, w)
      else
        bindE (tls_context_release ctx w) (\<lambda>_.
        bindE (tls_context_free ctx w) (\<lambda>w1.
        bindE (free ctx w1) (\<lambda>w2. Inr (TLS_SUCCESS, w2)))))"

text \<open>The code behind \<^verbatim>\<open>errout\<close>: the pointer of the caller is not cleared by \<^verbatim>\<open>TLSCtx_free\<close>.\<close>

definition ctx_errout :: "ptr \<Rightarrow> 'a tls_world \<Rightarrow> (ptr \<times> 'a tls_world) res" where
  "ctx_errout ctx w =
     bindE (TLSCtx_free ctx w) (\<lambda>(_, w1).
     bindE (free ctx w1) (\<lambda>w2. Inr (None, w2)))"

definition TLSCtx :: "tls_cred option \<Rightarrow> 'a tls_world \<Rightarrow> (ptr \<times> 'a tls_world) res" where
  "TLSCtx cred w =
     (case malloc w of
        (None, w1) \<Rightarrow> Inr (None, w1)
      | (Some b, w1) \<Rightarrow>
        (case tls_context_alloc b w1 of
           (r, w2) \<Rightarrow>
             if r \<noteq> TLS_SUCCESS then
               bindE (tls_context_free (Some b) w2) (\<lambda>w3.
               bindE (free (Some b) w3) (\<lambda>w4. Inr (None, w4)))
             else
               bindE (tls_context_init (Some b) w2) (\<lambda>i.
                 if i \<noteq> TLS_SUCCESS then ctx_errout (Some b) w2
                 else case tls_entropy_init w2 of
                   (e, w3) \<Rightarrow>
                     if e \<noteq> 0 then ctx_errout (Some b) w3
                     else bindE (tls_set_cred cred w3) (\<lambda>(c, w4).
                       if c \<noteq> TLS_SUCCESS then ctx_errout (Some b) w4 else Inr (Some b, w4)))))"

section \<open>Sessions\<close>

text \<open>\<^verbatim>\<open>tls_set_default\<close> for the block of a session and of a context.\<close>

definition setup_cookie :: "tls_opt \<Rightarrow> nat \<Rightarrow> 'a tls_world \<Rightarrow> easy_tls_error \<times> 'a tls_world" where
  "setup_cookie opt cb w =
     (if transport opt = MBEDTLS_SSL_TRANSPORT_DATAGRAM \<and> server opt = MBEDTLS_SSL_IS_SERVER then
        (case malloc w of
           (p, w1) \<Rightarrow>
             let w2 = w1\<lparr>ctxs := (ctxs w1)(cb := (ctxs w1 cb)\<lparr>cookie := p\<rparr>)\<rparr> in
             if p = None then (TLS_ALLOC_FAIL, w2)
             else case lib w2 of
               (r, w3) \<Rightarrow> (if r \<noteq> 0 then TLS_SET_COOKIE_FAIL else TLS_SUCCESS, w3))
      else (TLS_SUCCESS, w))"

definition tls_set_default ::
    "nat \<Rightarrow> nat \<Rightarrow> tls_opt \<Rightarrow> 'a tls_world \<Rightarrow> (easy_tls_error \<times> 'a tls_world) res" where
  "tls_set_default sb cb opt w =
     bindE (touch (ssl (sessions w sb)) w) (\<lambda>_.
       if server opt \<noteq> MBEDTLS_SSL_IS_SERVER \<and> server opt \<noteq> MBEDTLS_SSL_IS_CLIENT
       then Inr (TLS_INVALID_INPUT_PARAM, w)
       else if transport opt \<noteq> MBEDTLS_SSL_TRANSPORT_STREAM \<and> transport opt \<noteq> MBEDTLS_SSL_TRANSPORT_DATAGRAM
       then Inr (TLS_INVALID_INPUT_PARAM, w)
       else
         bindE (touch (Some cb) w) (\<lambda>_.
         bindE (touch (conf (ctxs w cb)) w) (\<lambda>_.
           case lib w of
             (d, w1) \<Rightarrow>
               if d \<noteq> 0 then Inr (TLS_SET_DEFAULT_FAIL, w1)
               else
                 let (h, w2) = (if host_name opt \<noteq> None then lib w1 else (0, w1)) in
                 if h \<noteq> 0 then Inr (TLS_SET_HOSTNAME_FAIL, w2)
                 else
                   (case setup_cookie opt cb w2 of
                      (k, w3) \<Rightarrow>
                        if k \<noteq> TLS_SUCCESS then Inr (k, w3)
                        else case lib w3 of
                          (s, w4) \<Rightarrow>
                            Inr (if s \<noteq> 0 then TLS_SET_DEFAULT_FAIL else TLS_SUCCESS, w4)))))"

definition TLSSession_free :: "ptr \<Rightarrow> 'a tls_world \<Rightarrow> (easy_tls_error \<times> 'a tls_world) res" where
  "TLSSession_free session w =
     (case session of
        None \<Rightarrow> Inr (TLS_INVALID_INPUT_PARAM, w)
      | Some b \<Rightarrow>
          bindE (touch session w) (\<lambda>_.
          bindE (case ssl (sessions w b) of None \<Rightarrow> Inr 0 | p \<Rightarrow> touch p w) (\<lambda>_.
            case net_fd (sessions w b) of
              None \<Rightarrow> Inl Uninitialised
            | Some fd \<Rightarrow>
                (case mbedtls_net_free fd (sockets w) of
                   (fd', n) \<Rightarrow>
                     bindE (free (ssl (sessions w b)) (w\<lparr>sockets := n\<rparr>)) (\<lambda>w1.
                     let w2 = w1\<lparr>sessions := (sessions w1)(b := \<lparr>net_fd = Some fd', ssl = None\<rparr>)\<rparr> in
                     bindE (free session w2) (\<lambda>w3. Inr (TLS_SUCCESS, w3)))))))"

text \<open>
  From \<^verbatim>\<open>reset\<close> to the handshake: the descriptors of \<^verbatim>\<open>listen_ctx\<close> and of the session, and whether the
  calls succeeded. \<open>from\<close> is the address of the client that is accepted.
\<close>

definition accept_client ::
    "tls_opt \<Rightarrow> 'a \<Rightarrow> int \<Rightarrow> int \<Rightarrow> 'a tls_world \<Rightarrow> bool \<times> int \<times> int \<times> 'a tls_world" where
  "accept_client opt from listen_fd fd w =
     (if server opt = MBEDTLS_SSL_IS_SERVER then
        (case mbedtls_net_accept listen_fd fd from True 16 (sockets w) of
           (ret, listen1, fd1, _, n1) \<Rightarrow>
             if ret \<noteq> 0 then (False, listen1, fd1, w\<lparr>sockets := n1\<rparr>)
             else case mbedtls_net_set_block fd1 n1 of
               (b, n2) \<Rightarrow>
                 let w2 = w\<lparr>sockets := n2\<rparr> in
                 if b \<noteq> 0 then (False, listen1, fd1, w2)
                 else if transport opt = MBEDTLS_SSL_TRANSPORT_DATAGRAM then
                   (case lib w2 of (t, w3) \<Rightarrow> (t = 0, listen1, fd1, w3))
                 else (True, listen1, fd1, w2))
      else (True, listen_fd, fd, w))"

text \<open>
  The loop over the handshake; \<open>hs\<close> are the results of \<^verbatim>\<open>mbedtls_ssl_handshake\<close>, and after the listed
  ones it returns 0.
\<close>

fun handshake ::
    "int list \<Rightarrow> tls_opt \<Rightarrow> 'a \<Rightarrow> int \<Rightarrow> int \<Rightarrow> 'a tls_world \<Rightarrow> bool \<times> int \<times> int \<times> 'a tls_world" where
  "handshake [] opt from listen_fd fd w = (True, listen_fd, fd, w)"
| "handshake (ret # hs) opt from listen_fd fd w =
     (if ret = 0 then (True, listen_fd, fd, w)
      else if ret = MBEDTLS_ERR_SSL_WANT_READ \<or> ret = MBEDTLS_ERR_SSL_WANT_WRITE
      then handshake hs opt from listen_fd fd w
      else if ret = MBEDTLS_ERR_SSL_HELLO_VERIFY_REQUIRED then
        (case mbedtls_net_free fd (sockets w) of
           (fd1, n1) \<Rightarrow>
             (case accept_client opt from listen_fd fd1 (w\<lparr>sockets := n1\<rparr>) of
                (ok', listen2, fd2, w2) \<Rightarrow>
                  if ok' then handshake hs opt from listen2 fd2 w2 else (False, listen2, fd2, w2)))
      else (False, listen_fd, fd, w))"

definition TLSSession ::
    "int \<Rightarrow> ptr \<Rightarrow> tls_opt option \<Rightarrow> int list \<Rightarrow> 'a \<Rightarrow> 'a tls_world \<Rightarrow> (ptr \<times> 'a tls_world) res" where
  "TLSSession fd ctx opt hs from w =
     (case (ctx, opt) of
        (Some cb, Some opt') \<Rightarrow>
          if fd < 0 then Inr (None, w)
          else
            (case malloc w of
               (None, w1) \<Rightarrow> Inr (None, w1)
             | (Some sb, w1) \<Rightarrow>
               (case malloc w1 of
                  (None, w2) \<Rightarrow> bindE (free (Some sb) w2) (\<lambda>w3. Inr (None, w3))
                | (Some ssl_b, w2) \<Rightarrow>
                  let w3 = w2\<lparr>sessions := (sessions w2)(sb := \<lparr>net_fd = None, ssl = Some ssl_b\<rparr>)\<rparr> in
                  bindE (tls_set_default sb cb opt' w3) (\<lambda>(r, w4).
                    if r \<noteq> TLS_SUCCESS
                    then bindE (TLSSession_free (Some sb) w4) (\<lambda>(_, w5). Inr (None, w5))
                    else
                      let (ok1, listen1, fd1, w5) = accept_client opt' from fd fd w4;
                          (ok2, listen2, fd2, w6) =
                            (if ok1 then handshake hs opt' from listen1 fd1 w5 else (False, listen1, fd1, w5));
                          w7 = w6\<lparr>sessions := (sessions w6)(sb := \<lparr>net_fd = Some fd2, ssl = Some ssl_b\<rparr>)\<rparr> in
                      if ok2 then Inr (Some sb, w7)
                      else bindE (TLSSession_free (Some sb) w7) (\<lambda>(_, w8). Inr (None, w8)))))
      | _ \<Rightarrow> Inr (None, w))"

text \<open>Sending and receiving go to the library, on the memory of the session.\<close>

definition TLSSend :: "ptr \<Rightarrow> 'a tls_world \<Rightarrow> (int \<times> 'a tls_world) res" where
  "TLSSend session w = bindE (touch session w) (\<lambda>b. bindE (touch (ssl (sessions w b)) w) (\<lambda>_. Inr (lib w)))"

definition TLSRecv :: "ptr \<Rightarrow> 'a tls_world \<Rightarrow> (int \<times> 'a tls_world) res" where
  "TLSRecv session w = bindE (touch session w) (\<lambda>b. bindE (touch (ssl (sessions w b)) w) (\<lambda>_. Inr (lib w)))"

section \<open>Contexts: allocation and release\<close>

definition fresh_world :: "'a tls_world \<Rightarrow> bool" where
  "fresh_world w \<longleftrightarrow> distinct (live w) \<and> (\<forall>b\<in>set (live w). b < next_block w)"

text \<open>The context allocated at block \<open>b\<close>, and the blocks it needs behind it.\<close>

definition ctx_from :: "nat \<Rightarrow> tls_ctx" where
  "ctx_from b = \<lparr>conf = Some (b + 1), crt = Some (b + 2), pkey = Some (b + 3), entropy = Some (b + 4),
     ctr_drbg = Some (b + 5), timer = Some (b + 6), cookie = None\<rparr>"

definition ctx_blocks :: "nat \<Rightarrow> nat list" where
  "ctx_blocks b = [b + 6, b + 5, b + 4, b + 3, b + 2, b + 1, b]"

lemma malloc_cases:
  obtains m where "malloc w = (None, w\<lparr>alloc := m\<rparr>)"
  | m where "malloc w = (Some (next_block w),
      w\<lparr>alloc := m, live := next_block w # live w, next_block := Suc (next_block w)\<rparr>)"
  by (cases "lwm2m_malloc (alloc w)"; cases "fst (lwm2m_malloc (alloc w))") (auto simp: malloc_def)

lemma remove1_distinct: "distinct xs \<Longrightarrow> remove1 b xs = filter (\<lambda>x. x \<noteq> b) xs"
  by (induction xs) (auto intro: filter_True [symmetric])

lemma free_all_live:
  assumes "distinct (live w)" and "distinct (filter (\<lambda>p. p \<noteq> None) ps)"
    and "\<And>b. Some b \<in> set ps \<Longrightarrow> b \<in> set (live w)"
  shows "free_all ps w = Inr (w\<lparr>live := filter (\<lambda>b. Some b \<notin> set ps) (live w)\<rparr>)"
  using assms
proof (induction ps arbitrary: w)
  case Nil
  then show ?case by simp
next
  case (Cons p ps)
  show ?case
  proof (cases p)
    case None
    then show ?thesis using Cons.IH [of w] Cons.prems by (simp add: free_def)
  next
    case (Some b)
    let ?w = "w\<lparr>live := filter (\<lambda>x. x \<noteq> b) (live w)\<rparr>"
    have "free p w = Inr ?w" using Some Cons.prems by (simp add: free_def remove1_distinct)
    moreover have "free_all ps ?w = Inr (?w\<lparr>live := filter (\<lambda>b. Some b \<notin> set ps) (live ?w)\<rparr>)"
      using Cons.prems Some by (intro Cons.IH) auto
    moreover have "filter (\<lambda>x. Some x \<notin> set ps) (filter (\<lambda>x. x \<noteq> b) (live w))
        = filter (\<lambda>x. Some x \<notin> set (p # ps)) (live w)"
      using Some by (auto simp: conj_commute intro!: filter_cong)
    ultimately show ?thesis by simp
  qed
qed

text \<open>\<open>k\<close> of the allocations succeed.\<close>

lemma alloc_fields_first:
  "\<exists>k m. k \<le> length fs \<and> (alloc w = [] \<longrightarrow> k = length fs \<and> m = [])
    \<and> alloc_fields fs c w =
      (if k = length fs then TLS_SUCCESS else TLS_ALLOC_FAIL,
       fold (\<lambda>(f, p). f (\<lambda>_. p)) (zip fs (map Some [next_block w..<next_block w + k] @ [None])) c,
       w\<lparr>alloc := m, live := rev [next_block w..<next_block w + k] @ live w, next_block := next_block w + k\<rparr>)"
proof (induction fs arbitrary: c w)
  case Nil
  show ?case by (rule exI [of _ 0], rule exI [of _ "alloc w"]) simp
next
  case (Cons f fs)
  show ?case
  proof (cases "fst (lwm2m_malloc (alloc w))")
    case False
    define m where "m = snd (lwm2m_malloc (alloc w))"
    have m: "malloc w = (None, w\<lparr>alloc := m\<rparr>)" "alloc w \<noteq> []"
      using False by (cases "lwm2m_malloc (alloc w)"; auto simp: malloc_def m_def)+
    show ?thesis by (rule exI [of _ 0], rule exI [of _ m]) (simp add: m)
  next
    case True
    define m1 where "m1 = snd (lwm2m_malloc (alloc w))"
    let ?w = "w\<lparr>alloc := m1, live := next_block w # live w, next_block := Suc (next_block w)\<rparr>"
    have m: "malloc w = (Some (next_block w), ?w)" and m1: "alloc w = [] \<longrightarrow> m1 = []"
      using True by (cases "lwm2m_malloc (alloc w)"; simp add: malloc_def m1_def)+
    obtain k m' where k: "k \<le> length fs" "m1 = [] \<longrightarrow> k = length fs \<and> m' = []"
      "alloc_fields fs (f (\<lambda>_. Some (next_block w)) c) ?w =
      (if k = length fs then TLS_SUCCESS else TLS_ALLOC_FAIL,
       fold (\<lambda>(f, p). f (\<lambda>_. p)) (zip fs (map Some [Suc (next_block w)..<Suc (next_block w) + k] @ [None]))
         (f (\<lambda>_. Some (next_block w)) c),
       ?w\<lparr>alloc := m', live := rev [Suc (next_block w)..<Suc (next_block w) + k] @ live ?w,
         next_block := Suc (next_block w) + k\<rparr>)"
      using Cons.IH [of ?w "f (\<lambda>_. Some (next_block w)) c"] by auto
    have upt: "[next_block w..<Suc (next_block w + k)] = next_block w # [Suc (next_block w)..<Suc (next_block w + k)]"
      by (simp add: upt_conv_Cons del: upt_Suc)
    show ?thesis
      by (rule exI [of _ "Suc k"], rule exI [of _ m'])
        (use k m m1 in \<open>simp add: upt del: upt_Suc\<close>)
  qed
qed

lemma alloc_outcome:
  assumes "fresh_world w" and "malloc w = (Some b, w1)" and "tls_context_alloc b w1 = (r, w2)"
  shows "if r = TLS_SUCCESS
    then b = next_block w \<and> live w2 = ctx_blocks b @ live w \<and> ctxs w2 b = ctx_from b
      \<and> next_block w2 = b + 7 \<and> lib_answers w2 = lib_answers w \<and> sockets w2 = sockets w
      \<and> (alloc w = [] \<longrightarrow> alloc w2 = [])
    else alloc w \<noteq> [] \<and> (\<exists>w4. bindE (tls_context_free (Some b) w2) (free (Some b)) = Inr w4
      \<and> live w4 = live w \<and> sockets w4 = sockets w)"
proof -
  define m where "m = snd (lwm2m_malloc (alloc w))"
  have w1: "b = next_block w" "w1 = w\<lparr>alloc := m, live := b # live w, next_block := Suc b\<rparr>"
    using assms(2) by (auto simp: malloc_def m_def split: prod.splits bool.splits)
  have m: "alloc w = [] \<longrightarrow> m = []" by (simp add: m_def)
  have len: "length ctx_fields = 6" by (simp add: ctx_fields_def)
  have n1: "next_block w1 = Suc b" using w1(2) by simp
  obtain k m' where k: "k \<le> 6" "alloc w1 = [] \<longrightarrow> k = 6 \<and> m' = []"
    and al: "alloc_fields ctx_fields zero_ctx w1 =
      (if k = 6 then TLS_SUCCESS else TLS_ALLOC_FAIL,
       fold (\<lambda>(f, p). f (\<lambda>_. p)) (zip ctx_fields (map Some [Suc b..<Suc b + k] @ [None])) zero_ctx,
       w1\<lparr>alloc := m', live := rev [Suc b..<Suc b + k] @ live w1, next_block := Suc b + k\<rparr>)"
    using alloc_fields_first [of ctx_fields w1 zero_ctx] unfolding len n1 by blast
  have r: "r = (if k = 6 then TLS_SUCCESS else TLS_ALLOC_FAIL)"
    and w2: "w2 = w1\<lparr>alloc := m', live := rev [Suc b..<Suc b + k] @ live w1, next_block := Suc b + k,
      ctxs := (ctxs w1)(b := fold (\<lambda>(f, p). f (\<lambda>_. p)) (zip ctx_fields (map Some [Suc b..<Suc b + k] @ [None])) zero_ctx)\<rparr>"
    using assms(3) unfolding tls_context_alloc_def al by auto
  let ?c = "fold (\<lambda>(f, p). f (\<lambda>_. p)) (zip ctx_fields (map Some [Suc b..<Suc b + k] @ [None])) zero_ctx"
  have ptrs: "set (ctx_ptrs ?c) = insert None (Some ` {Suc b..<Suc b + k}) \<and> distinct (filter (\<lambda>p. p \<noteq> None) (ctx_ptrs ?c))
      \<and> (k = 6 \<longrightarrow> ?c = ctx_from b)"
  proof -
    have "k \<in> set [0..<7]" using k(1) by simp
    then consider "k = 0" | "k = 1" | "k = 2" | "k = 3" | "k = 4" | "k = 5" | "k = 6"
      by (auto simp: upt_rec)
    then show ?thesis
      by cases (simp_all add: upt_rec ctx_fields_def zero_ctx_def ctx_ptrs_def ctx_from_def
        atLeastLessThan_upt insert_commute)
  qed
  define c where "c = ?c"
  note ptrs = ptrs [folded c_def]
  have live2: "live w2 = rev [Suc b..<Suc b + k] @ b # live w" and same: "ctxs w2 b = c" "next_block w2 = Suc b + k"
    "lib_answers w2 = lib_answers w" "sockets w2 = sockets w" "alloc w2 = m'"
    unfolding w2 w1(2) c_def by simp_all
  have old: "\<forall>x\<in>set (live w). x < b" and dist0: "distinct (live w)"
    using assms(1) w1(1) by (simp_all add: fresh_world_def)
  have dist: "distinct (live w2)" unfolding live2 using old dist0 by auto
  have rest: "filter (\<lambda>x. Some x \<notin> set (ctx_ptrs c)) (live w2) = b # live w"
    unfolding live2 using old ptrs by (auto simp: filter_empty_conv intro!: filter_True)
  show ?thesis
  proof (cases "k = 6")
    case True
    have "rev [Suc b..<Suc b + 6] @ [b] = ctx_blocks b" by (simp add: upt_rec ctx_blocks_def)
    then have "live w2 = ctx_blocks b @ live w" unfolding live2 True by (metis append.assoc append_Cons append_Nil)
    moreover have "alloc w = [] \<longrightarrow> m' = []" using k(2) m w1(2) by simp
    ultimately show ?thesis using True r w1(1) ptrs same by simp
  next
    case False
    have sub: "\<And>x. Some x \<in> set (ctx_ptrs c) \<Longrightarrow> x \<in> set (live w2)"
      using ptrs unfolding live2 by (auto simp del: upt_Suc)
    have "free_all (ctx_ptrs c) w2 = Inr (w2\<lparr>live := b # live w\<rparr>)"
      using free_all_live [OF dist conjunct1 [OF conjunct2 [OF ptrs]] sub] unfolding rest .
    moreover have "b \<in> set (live w2)" unfolding live2 by simp
    moreover have "alloc w \<noteq> []" using False k(2) m w1(2) by auto
    ultimately show ?thesis
      using False r same by (simp add: tls_context_free_def touch_def free_def)
  qed
qed

text \<open>A context in use: its own block and those of its parts are live, and no two of them are the same.\<close>

definition good_ctx :: "nat \<Rightarrow> 'a tls_world \<Rightarrow> bool" where
  "good_ctx b w \<longleftrightarrow>
     distinct (live w) \<and> b \<in> set (live w) \<and> None \<notin> set (butlast (ctx_ptrs (ctxs w b)))
     \<and> Some b \<notin> set (ctx_ptrs (ctxs w b)) \<and> distinct (filter (\<lambda>p. p \<noteq> None) (ctx_ptrs (ctxs w b)))
     \<and> (\<forall>x. Some x \<in> set (ctx_ptrs (ctxs w b)) \<longrightarrow> x \<in> set (live w))"

lemma touch_live: "b \<in> set (live w) \<Longrightarrow> touch (Some b) w = Inr b"
  by (simp add: touch_def)

lemma touch_all_live:
  "\<forall>p\<in>set ps. p \<noteq> None \<and> (\<forall>x. p = Some x \<longrightarrow> x \<in> set (live w)) \<Longrightarrow> touch_all ps w = Inr ()"
  by (induction ps) (auto simp: touch_live)

lemma good_ctx_touch:
  assumes "good_ctx b w"
  shows "touch_all [conf (ctxs w b), crt (ctxs w b), pkey (ctxs w b), entropy (ctxs w b), ctr_drbg (ctxs w b)] w = Inr ()"
    and "tls_context_release (Some b) w = Inr ()"
proof -
  let ?c = "ctxs w b"
  let ?ps = "[conf ?c, crt ?c, pkey ?c, entropy ?c, ctr_drbg ?c]"
  have sub: "set ?ps \<subseteq> set (butlast (ctx_ptrs ?c))" "set (?ps @ [cookie ?c]) \<subseteq> set (ctx_ptrs ?c)"
    by (simp_all add: ctx_ptrs_def)
  have none: "None \<notin> set (butlast (ctx_ptrs ?c))" and lives: "\<forall>x. Some x \<in> set (ctx_ptrs ?c) \<longrightarrow> x \<in> set (live w)"
    and b: "b \<in> set (live w)"
    using assms unfolding good_ctx_def by blast+
  have ps: "\<forall>p\<in>set ?ps. p \<noteq> None \<and> (\<forall>x. p = Some x \<longrightarrow> x \<in> set (live w))"
  proof
    fix p assume "p \<in> set ?ps"
    then have p: "p \<in> set (butlast (ctx_ptrs ?c))" by (rule subsetD [OF sub(1)])
    show "p \<noteq> None \<and> (\<forall>x. p = Some x \<longrightarrow> x \<in> set (live w))"
      using none lives p in_set_butlastD [OF p] by metis
  qed
  then show "touch_all ?ps w = Inr ()" by (rule touch_all_live)
  have "\<forall>x. cookie ?c = Some x \<longrightarrow> x \<in> set (live w)"
  proof (intro allI impI)
    fix x assume "cookie ?c = Some x"
    then have "Some x \<in> set (ctx_ptrs ?c)" by (simp add: ctx_ptrs_def)
    then show "x \<in> set (live w)" using lives by blast
  qed
  then have "\<forall>p\<in>set (?ps @ (case cookie ?c of None \<Rightarrow> [] | Some k \<Rightarrow> [Some k])).
      p \<noteq> None \<and> (\<forall>x. p = Some x \<longrightarrow> x \<in> set (live w))"
    using ps by (auto split: option.splits)
  then show "tls_context_release (Some b) w = Inr ()"
    unfolding tls_context_release_def option.case touch_live [OF b] bindE_simps Let_def by (rule touch_all_live)
qed

lemma ctx_free_good:
  assumes "good_ctx b w"
  shows "\<exists>w'. TLSCtx_free (Some b) w = Inr (TLS_SUCCESS, w')
    \<and> live w' = filter (\<lambda>x. x \<noteq> b \<and> Some x \<notin> set (ctx_ptrs (ctxs w b))) (live w) \<and> sockets w' = sockets w"
proof -
  let ?rest = "filter (\<lambda>x. Some x \<notin> set (ctx_ptrs (ctxs w b))) (live w)"
  have fa: "free_all (ctx_ptrs (ctxs w b)) w = Inr (w\<lparr>live := ?rest\<rparr>)"
    using assms by (intro free_all_live) (auto simp: good_ctx_def)
  let ?w1 = "w\<lparr>live := ?rest, ctxs := (ctxs w)(b := zero_ctx)\<rparr>"
  have b: "b \<in> set (live w)" and b1: "b \<in> set (live ?w1)"
    using assms by (simp_all add: good_ctx_def)
  have tf: "tls_context_free (Some b) w = Inr ?w1"
    unfolding tls_context_free_def option.case touch_live [OF b] bindE_simps fa by simp
  have fr: "free (Some b) ?w1 = Inr (?w1\<lparr>live := remove1 b ?rest\<rparr>)"
    unfolding free_def option.case if_P [OF b1] by simp
  have "remove1 b ?rest = filter (\<lambda>x. x \<noteq> b) ?rest"
    using assms by (intro remove1_distinct) (simp add: good_ctx_def)
  also have "\<dots> = filter (\<lambda>x. x \<noteq> b \<and> Some x \<notin> set (ctx_ptrs (ctxs w b))) (live w)"
    by (simp add: conj_commute)
  finally have rest: "remove1 b ?rest = filter (\<lambda>x. x \<noteq> b \<and> Some x \<notin> set (ctx_ptrs (ctxs w b))) (live w)" .
  have "TLSCtx_free (Some b) w = Inr (TLS_SUCCESS, ?w1\<lparr>live := remove1 b ?rest\<rparr>)"
    unfolding TLSCtx_free_def good_ctx_touch(2) [OF assms] bindE_simps tf fr by simp
  then show ?thesis unfolding rest by simp
qed

lemma ctx_errout_good: "good_ctx b w \<Longrightarrow> ctx_errout (Some b) w = Inl DoubleFree"
  using ctx_free_good [of b w] by (auto simp: ctx_errout_def free_def)

text \<open>The calls into the library only use up answers.\<close>

lemma lib_same: "lib w = (a, w') \<Longrightarrow> \<exists>as. w' = w\<lparr>lib_answers := as\<rparr>"
  by (auto simp: lib_def split: list.splits intro: exI [of _ "lib_answers w"])

lemma set_cred_same: "tls_set_cred cred w = Inr (r, w') \<Longrightarrow> \<exists>as. w' = w\<lparr>lib_answers := as\<rparr>"
proof -
  have self: "\<exists>as. w = w\<lparr>lib_answers := as\<rparr>" for w :: "'b tls_world"
    by (rule exI [of _ "lib_answers w"]) simp
  have p1: "set_psk c w = Inr (e, d, w') \<Longrightarrow> \<exists>as. w' = w\<lparr>lib_answers := as\<rparr>" for c e d and w w' :: "'a tls_world"
    using self by (auto simp: set_psk_def dest!: lib_same split: if_splits option.splits prod.splits)
  have p2: "set_ca c w = (e, d, w') \<Longrightarrow> \<exists>as. w' = w\<lparr>lib_answers := as\<rparr>" for c e d and w w' :: "'a tls_world"
    using self by (auto simp: set_ca_def dest!: lib_same split: if_splits prod.splits)
  have p3: "set_cert c w = (e, d, w') \<Longrightarrow> \<exists>as. w' = w\<lparr>lib_answers := as\<rparr>" for c e d and w w' :: "'a tls_world"
    using self by (auto simp: set_cert_def dest!: lib_same split: if_splits prod.splits)
  show "tls_set_cred cred w = Inr (r, w') \<Longrightarrow> \<exists>as. w' = w\<lparr>lib_answers := as\<rparr>"
    using self by (auto simp: tls_set_cred_def bindE_Inr_iff dest!: p1 p2 p3 split: option.splits prod.splits)
qed

lemma good_ctx_answers: "good_ctx b (w\<lparr>lib_answers := as\<rparr>) \<longleftrightarrow> good_ctx b w"
  by (simp add: good_ctx_def)

lemma new_ctx_good:
  assumes "fresh_world w" and "b = next_block w" and "live w2 = ctx_blocks b @ live w" and "ctxs w2 b = ctx_from b"
  shows "good_ctx b w2"
proof -
  have "\<forall>x\<in>set (live w). x < b" "distinct (live w)" using assms(1,2) by (simp_all add: fresh_world_def)
  then show ?thesis
    using assms(3,4) by (auto simp: good_ctx_def ctx_blocks_def ctx_from_def ctx_ptrs_def)
qed

text \<open>
  \<^verbatim>\<open>TLSCtx\<close> either returns a context that \<^verbatim>\<open>TLSCtx_free\<close> gives back completely, or, out of memory,
  returns null and keeps nothing. Every other failure, of the random generator or of the credentials,
  ends in the double free of the context (or in a missing identity being measured).
\<close>

theorem tls_ctx_outcomes:
  assumes "fresh_world w"
  shows "case TLSCtx cred w of
      Inr (None, w') \<Rightarrow> alloc w \<noteq> [] \<and> live w' = live w
    | Inr (Some b, w') \<Rightarrow> b \<notin> set (live w)
        \<and> (\<exists>w''. TLSCtx_free (Some b) w' = Inr (TLS_SUCCESS, w'') \<and> live w'' = live w)
    | Inl f \<Rightarrow> f = DoubleFree \<or> (f = NullDeref \<and> (\<exists>c. cred = Some c \<and> psk_identity c = None))"
proof (cases w rule: malloc_cases)
  case (1 m)
  then show ?thesis by (auto simp: TLSCtx_def malloc_def)
next
  case (2 m)
  let ?b = "next_block w"
  let ?w1 = "w\<lparr>alloc := m, live := next_block w # live w, next_block := Suc (next_block w)\<rparr>"
  obtain r w2 where al: "tls_context_alloc ?b ?w1 = (r, w2)" by (metis surj_pair)
  note out = alloc_outcome [OF assms 2 al]
  show ?thesis
  proof (cases "r = TLS_SUCCESS")
    case False
    then show ?thesis using out 2 al by (auto simp: TLSCtx_def bindE_def split: sum.splits)
  next
    case True
    then have o2: "live w2 = ctx_blocks ?b @ live w" "ctxs w2 ?b = ctx_from ?b" using out by auto
    note good = new_ctx_good [OF assms refl o2]
    have old: "\<forall>x\<in>set (live w). x < ?b" using assms by (simp add: fresh_world_def)
    have init: "tls_context_init (Some ?b) w2 = Inr TLS_SUCCESS"
      using good good_ctx_touch(1) [OF good] by (simp add: tls_context_init_def touch_live good_ctx_def Let_def)
    obtain e w3 where e: "tls_entropy_init w2 = (e, w3)" by (metis surj_pair)
    obtain as3 where w3: "w3 = w2\<lparr>lib_answers := as3\<rparr>" using lib_same [OF e [unfolded tls_entropy_init_def]] by blast
    have ctx: "TLSCtx cred w =
      (if e \<noteq> 0 then ctx_errout (Some ?b) w3
       else bindE (tls_set_cred cred w3) (\<lambda>(c, w4).
         if c \<noteq> TLS_SUCCESS then ctx_errout (Some ?b) w4 else Inr (Some ?b, w4)))"
      using 2 al True init e by (simp add: TLSCtx_def)
    show ?thesis
    proof (cases "tls_set_cred cred w3")
      case (Inl f)
      then have "f = NullDeref \<and> (\<exists>c. cred = Some c \<and> psk_identity c = None)"
        by (auto simp: tls_set_cred_def set_psk_def bindE_def split: option.splits sum.splits prod.splits if_splits)
      then show ?thesis
        using Inl good by (simp add: ctx ctx_errout_good w3 good_ctx_answers)
    next
      case (Inr cw)
      obtain c w4 where cw: "cw = (c, w4)" by (cases cw)
      obtain as4 where w4: "w4 = w2\<lparr>lib_answers := as4\<rparr>"
        using set_cred_same [OF Inr [unfolded cw]] w3 by auto
      have g4: "good_ctx ?b w4" using good w4 by (simp add: good_ctx_answers)
      have "filter (\<lambda>x. x \<noteq> ?b \<and> Some x \<notin> set (ctx_ptrs (ctxs w4 ?b))) (live w4) = live w"
        using old o2 w4 by (auto simp: ctx_blocks_def ctx_from_def ctx_ptrs_def intro!: filter_True)
      then have "\<exists>w''. TLSCtx_free (Some ?b) w4 = Inr (TLS_SUCCESS, w'') \<and> live w'' = live w"
        using ctx_free_good [OF g4] by auto
      then show ?thesis
        using Inr cw good g4 old by (auto simp: ctx ctx_errout_good w3 good_ctx_answers)
    qed
  qed
qed

definition ex_world :: "bool list \<Rightarrow> int list \<Rightarrow> nat tls_world" where
  "ex_world m as = \<lparr>live = [], next_block = 0, alloc = m, lib_answers = as, ctxs = (\<lambda>_. zero_ctx),
     sessions = (\<lambda>_. \<lparr>net_fd = None, ssl = None\<rparr>), sockets = ex_net []\<rparr>"

definition psk_cred :: tls_cred where
  "psk_cred = \<lparr>ca_cert = None, dev_cert = None, dev_key = None, psk = Some [0x11], psk_identity = Some [105],
     psk_len = 1\<rparr>"

lemma tls_ctx_outcomes_witness:
  "case TLSCtx (Some psk_cred) (ex_world [] [0, - 1]) of
      Inr (None, w') \<Rightarrow> alloc (ex_world [] [0, - 1]) \<noteq> [] \<and> live w' = live (ex_world [] [0, - 1])
    | Inr (Some b, w') \<Rightarrow> b \<notin> set (live (ex_world [] [0, - 1]))
        \<and> (\<exists>w''. TLSCtx_free (Some b) w' = Inr (TLS_SUCCESS, w'') \<and> live w'' = live (ex_world [] [0, - 1]))
    | Inl f \<Rightarrow> f = DoubleFree \<or> (f = NullDeref \<and> (\<exists>c. Some psk_cred = Some c \<and> psk_identity c = None))"
  by (rule tls_ctx_outcomes) (simp add: fresh_world_def ex_world_def)

lemma good_ctx_conf: "good_ctx b w \<Longrightarrow> \<exists>c. conf (ctxs w b) = Some c \<and> c \<in> set (live w)"
  using good_ctx_touch(1) [of b w] by (auto simp: bindE_Inr_iff touch_def split: option.splits if_splits)

section \<open>Sessions: what they keep\<close>

text \<open>A new session: its two blocks are the newest.\<close>

lemma session_free_new:
  assumes "sessions w sb = \<lparr>net_fd = Some fd, ssl = Some ssl_b\<rparr>" and "live w = ssl_b # sb # rest \<or> live w = k # ssl_b # sb # rest"
    and "distinct (live w)"
  shows "\<exists>w'. TLSSession_free (Some sb) w = Inr (TLS_SUCCESS, w')
    \<and> live w' = (if live w = ssl_b # sb # rest then rest else k # rest)
    \<and> sockets w' = snd (mbedtls_net_free fd (sockets w)) \<and> ctxs w' = ctxs w"
  using assms
  by (auto simp: TLSSession_free_def touch_def free_def split: prod.split)

lemma set_default_client:
  assumes "lib_answers w = []" and "server opt = MBEDTLS_SSL_IS_CLIENT"
    and "transport opt = MBEDTLS_SSL_TRANSPORT_STREAM \<or> transport opt = MBEDTLS_SSL_TRANSPORT_DATAGRAM"
    and "ssl (sessions w sb) = Some s" and "s \<in> set (live w)" and "cb \<in> set (live w)"
    and "conf (ctxs w cb) = Some c" and "c \<in> set (live w)"
  shows "tls_set_default sb cb opt w = Inr (TLS_SUCCESS, w)"
  using assms by (auto simp: tls_set_default_def touch_def lib_def Let_def setup_cookie_def)

text \<open>On a client the handshake only closes its own descriptor, when a verification is asked for.\<close>

definition handshake_ok :: "int list \<Rightarrow> bool" where
  "handshake_ok hs \<longleftrightarrow>
     (case dropWhile (\<lambda>r. r \<in> {MBEDTLS_ERR_SSL_WANT_READ, MBEDTLS_ERR_SSL_WANT_WRITE,
         MBEDTLS_ERR_SSL_HELLO_VERIFY_REQUIRED}) hs of [] \<Rightarrow> True | r # _ \<Rightarrow> r = 0)"

lemma handshake_client:
  assumes "server opt = MBEDTLS_SSL_IS_CLIENT"
  shows "\<exists>fd' n. handshake hs opt from l fd w = (handshake_ok hs, l, fd', w\<lparr>sockets := n\<rparr>)
    \<and> snd (mbedtls_net_free fd' n) = snd (mbedtls_net_free fd (sockets w))"
proof (induction hs arbitrary: fd w)
  case Nil
  show ?case by (rule exI [of _ fd], rule exI [of _ "sockets w"]) (simp add: handshake_ok_def)
next
  case (Cons r hs)
  consider "r = 0" | "r = MBEDTLS_ERR_SSL_WANT_READ \<or> r = MBEDTLS_ERR_SSL_WANT_WRITE"
    | "r = MBEDTLS_ERR_SSL_HELLO_VERIFY_REQUIRED"
    | "r \<noteq> 0" "r \<notin> {MBEDTLS_ERR_SSL_WANT_READ, MBEDTLS_ERR_SSL_WANT_WRITE, MBEDTLS_ERR_SSL_HELLO_VERIFY_REQUIRED}"
    by blast
  then show ?case
  proof cases
    case 1
    show ?thesis by (rule exI [of _ fd], rule exI [of _ "sockets w"]) (simp add: 1 handshake_ok_def)
  next
    case 2
    then show ?thesis using Cons.IH [of fd w] by (auto simp: handshake_ok_def)
  next
    case 3
    obtain fd1 n1 where f: "mbedtls_net_free fd (sockets w) = (fd1, n1)" by (metis surj_pair)
    then have "mbedtls_net_free fd1 n1 = (fd1, n1)" by (auto simp: mbedtls_net_free_def split: if_splits)
    then show ?thesis using Cons.IH [of fd1 "w\<lparr>sockets := n1\<rparr>"] assms f 3
      by (auto simp: handshake_ok_def accept_client_def)
  next
    case 4
    show ?thesis by (rule exI [of _ fd], rule exI [of _ "sockets w"]) (use 4 in \<open>simp add: handshake_ok_def\<close>)
  qed
qed

text \<open>
  A client session is balanced: whatever the handshake reports, the session exists exactly if the
  handshake ends with success; afterwards, or when it is freed, all its memory is given back and the
  descriptor of the caller has been closed.
\<close>

theorem client_session_balanced:
  assumes "fresh_world w" and "good_ctx cb w" and "alloc w = []" and "lib_answers w = []" and "0 \<le> fd"
    and "server opt = MBEDTLS_SSL_IS_CLIENT"
    and "transport opt = MBEDTLS_SSL_TRANSPORT_STREAM \<or> transport opt = MBEDTLS_SSL_TRANSPORT_DATAGRAM"
  shows "\<exists>p w' w''. TLSSession fd (Some cb) (Some opt) hs from w = Inr (p, w') \<and> (p \<noteq> None \<longleftrightarrow> handshake_ok hs)
    \<and> TLSSession_free p w' = Inr (if p = None then TLS_INVALID_INPUT_PARAM else TLS_SUCCESS, w'')
    \<and> live w'' = live w \<and> ctxs w'' = ctxs w \<and> set (open_fds (sockets w'')) = set (open_fds (sockets w)) - {fd}"
proof -
  define sb where "sb = next_block w"
  have old: "\<forall>x\<in>set (live w). x < sb" "distinct (live w)" using assms(1) by (simp_all add: fresh_world_def sb_def)
  define w3 where "w3 = w\<lparr>alloc := [], live := Suc sb # sb # live w, next_block := Suc (Suc sb),
    sessions := (sessions w)(sb := \<lparr>net_fd = None, ssl = Some (Suc sb)\<rparr>)\<rparr>"
  have cb: "cb \<in> set (live w)" using assms(2) by (simp add: good_ctx_def)
  obtain c where c: "conf (ctxs w cb) = Some c" "c \<in> set (live w)"
    using good_ctx_conf [OF assms(2)] by blast
  have sd: "tls_set_default sb cb opt w3 = Inr (TLS_SUCCESS, w3)"
    using assms(4,6,7) c cb by (intro set_default_client [where s = "Suc sb" and c = c]) (auto simp: w3_def)
  obtain fd' n where h: "handshake hs opt from fd fd w3 = (handshake_ok hs, fd, fd', w3\<lparr>sockets := n\<rparr>)"
    and n: "snd (mbedtls_net_free fd' n) = snd (mbedtls_net_free fd (sockets w))"
    using handshake_client [OF assms(6), of hs "from" fd fd w3] by (auto simp: w3_def)
  define w7 where "w7 = w3\<lparr>sockets := n, sessions := (sessions w3)(sb := \<lparr>net_fd = Some fd', ssl = Some (Suc sb)\<rparr>)\<rparr>"
  have run: "TLSSession fd (Some cb) (Some opt) hs from w =
      (if handshake_ok hs then Inr (Some sb, w7) else bindE (TLSSession_free (Some sb) w7) (\<lambda>(_, w8). Inr (None, w8)))"
    using assms(3,5,6) sd h unfolding w3_def
    by (simp add: TLSSession_def malloc_def sb_def accept_client_def Let_def w7_def w3_def)
  have "distinct (live w7)" using old by (auto simp: w7_def w3_def)
  then obtain w8 where f: "TLSSession_free (Some sb) w7 = Inr (TLS_SUCCESS, w8)" "live w8 = live w"
    "sockets w8 = snd (mbedtls_net_free fd' n)" "ctxs w8 = ctxs w"
    using session_free_new [of w7 sb fd' "Suc sb" "live w"] by (auto simp: w7_def w3_def)
  have "set (open_fds (sockets w8)) = set (open_fds (sockets w)) - {fd}"
    using f(3) n assms(5) by (simp add: mbedtls_net_free_def)
  then show ?thesis
    using run f by (cases "handshake_ok hs") (auto simp: TLSSession_free_def [of None])
qed

text \<open>A context with its parts, and nothing else.\<close>

definition ex_ctx_world :: "nat tls_world" where
  "ex_ctx_world = (ex_world [] [])\<lparr>live := ctx_blocks 0, next_block := 7, ctxs := (\<lambda>_. ctx_from 0)\<rparr>"

lemma ex_ctx_world_facts:
  "fresh_world ex_ctx_world" "good_ctx 0 ex_ctx_world" "alloc ex_ctx_world = []" "lib_answers ex_ctx_world = []"
  by (simp_all add: ex_ctx_world_def ex_world_def fresh_world_def good_ctx_def ctx_blocks_def ctx_from_def ctx_ptrs_def)

lemma client_session_balanced_witness:
  "\<exists>p w' w''. TLSSession 3 (Some 0) (Some \<lparr>server = 0, transport = 1, auth_mode = 2, debug_mode = 1,
        host_name = None, force_ciphersuites = [0, 0, 0]\<rparr>) [- 0x6900, - 0x6A80, - 0x7780] 9 ex_ctx_world = Inr (p, w')
    \<and> (p \<noteq> None \<longleftrightarrow> handshake_ok [- 0x6900, - 0x6A80, - 0x7780])
    \<and> TLSSession_free p w' = Inr (if p = None then TLS_INVALID_INPUT_PARAM else TLS_SUCCESS, w'')
    \<and> live w'' = live ex_ctx_world \<and> ctxs w'' = ctxs ex_ctx_world
    \<and> set (open_fds (sockets w'')) = set (open_fds (sockets ex_ctx_world)) - {3}"
  using ex_ctx_world_facts by (intro client_session_balanced) simp_all

text \<open>
  A DTLS server session is not: when it has been opened and freed, one block more is live, the
  cookie context, to which only the context of the server still points, and one more socket is open, the
  new listening one, of which nobody has the descriptor; the descriptor of the caller is closed.
\<close>

theorem server_session_leaks:
  assumes "fresh_world w" and "good_ctx cb w" and "alloc w = []" and "lib_answers w = []" and "0 \<le> fd"
    and "server opt = MBEDTLS_SSL_IS_SERVER" and "transport opt = MBEDTLS_SSL_TRANSPORT_DATAGRAM"
    and "fd \<in> set (open_fds (sockets w))" and "\<not> is_stream (sockets w) fd" and "answers (sockets w) = []"
  shows "\<exists>sb k l w' w''. TLSSession fd (Some cb) (Some opt) [] from w = Inr (Some sb, w')
    \<and> TLSSession_free (Some sb) w' = Inr (TLS_SUCCESS, w'')
    \<and> live w'' = k # live w \<and> k \<notin> set (live w) \<and> cookie (ctxs w'' cb) = Some k
    \<and> set (open_fds (sockets w'')) = insert l (set (open_fds (sockets w)) - {fd}) \<and> l \<notin> set (open_fds (sockets w))"
proof -
  define sb where "sb = next_block w"
  have old: "\<forall>x\<in>set (live w). x < sb" "distinct (live w)" using assms(1) by (simp_all add: fresh_world_def sb_def)
  have cb: "cb \<in> set (live w)" using assms(2) by (simp add: good_ctx_def)
  obtain c where c: "conf (ctxs w cb) = Some c" "c \<in> set (live w)"
    using good_ctx_conf [OF assms(2)] by blast
  let ?fds = "open_fds (sockets w)"
  have free_fd: "lowest_free ?fds \<notin> set ?fds" "0 \<le> lowest_free ?fds" "lowest_free ?fds \<noteq> fd"
    using lowest_free [of ?fds] assms(8) by auto
  have acc: "\<exists>n. mbedtls_net_accept fd fd from True 16 (sockets w) = (0, lowest_free ?fds, fd, Some from, n)
      \<and> set (open_fds n) = insert (lowest_free ?fds) (set ?fds) \<and> answers n = []"
    using assms(8-10) free_fd
    by (cases "bound (sockets w) fd")
      (simp_all add: mbedtls_net_accept_def sys_status_def sys_on_def sys_def accept_udp_def sys_connect_def
        sys_socket_def open_fd_def Let_def sys_bind_def accept_rest_def)
  then obtain n where n: "mbedtls_net_accept fd fd from True 16 (sockets w) = (0, lowest_free ?fds, fd, Some from, n)"
    "set (open_fds n) = insert (lowest_free ?fds) (set ?fds)" "answers n = []" by blast
  have blk: "mbedtls_net_set_block fd n = (0, n\<lparr>nonblock := (nonblock n)(fd := False)\<rparr>)"
    using n assms(8) by (simp add: mbedtls_net_set_block_def sys_status_def sys_on_def sys_def)
  define w' where "w' = w\<lparr>alloc := [], live := Suc (Suc sb) # Suc sb # sb # live w, next_block := Suc (Suc (Suc sb)),
    sessions := (sessions w)(sb := \<lparr>net_fd = Some fd, ssl = Some (Suc sb)\<rparr>),
    ctxs := (ctxs w)(cb := (ctxs w cb)\<lparr>cookie := Some (Suc (Suc sb))\<rparr>), sockets := n\<lparr>nonblock := (nonblock n)(fd := False)\<rparr>\<rparr>"
  have open': "TLSSession fd (Some cb) (Some opt) [] from w = Inr (Some sb, w')"
    using assms(3-7) cb c n(1) blk
    by (simp add: TLSSession_def malloc_def sb_def tls_set_default_def touch_def lib_def Let_def setup_cookie_def
        accept_client_def w'_def)
  have "distinct (live w')" using old by (auto simp: w'_def)
  then obtain w'' where f: "TLSSession_free (Some sb) w' = Inr (TLS_SUCCESS, w'')" "live w'' = Suc (Suc sb) # live w"
    "sockets w'' = snd (mbedtls_net_free fd (sockets w'))" "ctxs w'' = ctxs w'"
    using session_free_new [of w' sb fd "Suc sb" "live w" "Suc (Suc sb)"] by (auto simp: w'_def)
  have "set (open_fds (sockets w'')) = insert (lowest_free ?fds) (set ?fds - {fd})"
    using f(3) assms(5) n(2) free_fd(3) by (auto simp: mbedtls_net_free_def w'_def)
  then show ?thesis
    using open' f old free_fd by (intro exI [of _ sb] exI [of _ "Suc (Suc sb)"] exI [of _ "lowest_free ?fds"] exI [of _ w'] exI [of _ w'']) (auto simp: w'_def)
qed

lemma server_session_leaks_witness:
  "\<exists>sb k l w' w''. TLSSession 3 (Some 0) (Some \<lparr>server = 1, transport = 1, auth_mode = 2, debug_mode = 1,
        host_name = None, force_ciphersuites = [0, 0, 0]\<rparr>) [] 9 ex_ctx_world = Inr (Some sb, w')
    \<and> TLSSession_free (Some sb) w' = Inr (TLS_SUCCESS, w'')
    \<and> live w'' = k # live ex_ctx_world \<and> k \<notin> set (live ex_ctx_world) \<and> cookie (ctxs w'' 0) = Some k
    \<and> set (open_fds (sockets w'')) = insert l (set (open_fds (sockets ex_ctx_world)) - {3})
    \<and> l \<notin> set (open_fds (sockets ex_ctx_world))"
  using ex_ctx_world_facts
  by (intro server_session_leaks) (simp_all add: ex_ctx_world_def ex_world_def ex_net_def)

text \<open>
  A session that fails before its descriptor is assigned, because the library refuses the defaults or
  an option has no valid value, is freed with a descriptor that was never written.
\<close>

theorem session_early_failure:
  assumes "good_ctx cb w" and "alloc w = []" and "0 \<le> fd"
    and "server opt \<notin> {0, 1} \<or> transport opt \<notin> {0, 1} \<or> (\<exists>e as. lib_answers w = e # as \<and> e \<noteq> 0)"
  shows "TLSSession fd (Some cb) (Some opt) hs from w = Inl Uninitialised"
proof -
  obtain c where c: "conf (ctxs w cb) = Some c" "c \<in> set (live w)" "cb \<in> set (live w)"
    using good_ctx_conf [OF assms(1)] assms(1) by (auto simp: good_ctx_def)
  then show ?thesis
    using assms(2-4)
    by (auto simp: TLSSession_def malloc_def tls_set_default_def touch_def lib_def Let_def TLSSession_free_def)
qed

lemma session_early_failure_witness:
  "TLSSession 3 (Some 0) (Some \<lparr>server = 2, transport = 1, auth_mode = 2, debug_mode = 1,
      host_name = None, force_ciphersuites = [0, 0, 0]\<rparr>) [] 9 ex_ctx_world = Inl Uninitialised"
  using ex_ctx_world_facts by (intro session_early_failure) simp_all

end
