(* ===== verification/Connection.thy ===== *)
theory Connection
imports Easy_Tls Command_Line
begin

text \<open>
  The connections of the LWM2M demos, \<^verbatim>\<open>samples/stm32/lwm2m/server/lwm2m_connection.c\<close>: sockets, TLS
  sessions and the list of connections over them. An address is the bytes of its \<^verbatim>\<open>sockaddr\<close>; a
  pointer to a connection is the list from that connection on, \<open>[]\<close> is null.
\<close>

section \<open>State\<close>

record connection =
  block :: nat
  sock :: int
  addr :: "byte list"
  addrLen :: nat
  session :: ptr

type_synonym world = "byte list tls_world"

text \<open>The size of \<^verbatim>\<open>struct sockaddr_in\<close>, the type of the member \<^verbatim>\<open>addr\<close>.\<close>

definition ADDR_SIZE :: nat where "ADDR_SIZE = 16"

text \<open>A socket call on the world of the TLS sessions.\<close>

definition on_sockets :: "(byte list net \<Rightarrow> 'r \<times> byte list net) \<Rightarrow> world \<Rightarrow> 'r \<times> world" where
  "on_sockets f w = (case f (sockets w) of (r, n) \<Rightarrow> (r, w\<lparr>sockets := n\<rparr>))"

section \<open>Opening\<close>

text \<open>
  The loop over the addresses that \<^verbatim>\<open>getaddrinfo\<close> found; \<open>s\<close> is the descriptor so far. The value of the
  option \<^verbatim>\<open>SO_REUSEADDR\<close> comes from a variable that is never assigned.
\<close>

fun socket_loop :: "bool \<Rightarrow> byte list list \<Rightarrow> int \<Rightarrow> byte list net \<Rightarrow> int \<times> byte list net" where
  "socket_loop stream [] s w = (s, w)"
| "socket_loop stream (a # as) s w =
     (case sys_socket stream w of
        (s1, w1) \<Rightarrow>
          if 0 \<le> s1 then
            (case sys_status s1 w1 of
               (o1, w2) \<Rightarrow>
                 if o1 < 0 then socket_loop stream as (-1) (sys_close s1 w2)
                 else case sys_bind s1 a w2 of
                   (b, w3) \<Rightarrow>
                     if b = -1 then socket_loop stream as (-1) (sys_close s1 w3) else (s1, w3))
          else socket_loop stream as s1 w1)"

text \<open>The addresses \<^verbatim>\<open>getaddrinfo\<close> finds are an argument, \<open>None\<close> when it fails.\<close>

definition create_socket :: "coap_protocol \<Rightarrow> byte list list option \<Rightarrow> byte list net \<Rightarrow> int \<times> byte list net" where
  "create_socket protocol res w =
     (case res of
        None \<Rightarrow> (-1, w)
      | Some as \<Rightarrow> socket_loop (protocol = COAP_TCP \<or> protocol = COAP_TCP_TLS) as (-1) w)"

definition connection_new_incoming ::
    "connection list \<Rightarrow> int \<Rightarrow> byte list \<Rightarrow> nat \<Rightarrow> world \<Rightarrow> (connection list \<times> world) res" where
  "connection_new_incoming connList s a len w =
     (case malloc w of
        (None, w1) \<Rightarrow> Inr ([], w1)
      | (Some b, w1) \<Rightarrow>
          if ADDR_SIZE < len \<or> length a < len then Inl OutOfBounds
          else Inr (\<lparr>block = b, sock = s, addr = take len a, addrLen = len, session = None\<rparr> # connList, w1))"

text \<open>
  The address of the peer is \<open>from\<close>, of \<^verbatim>\<open>length from\<close> bytes; with TLS the address of the caller,
  \<open>caddr\<close>, is not written. \<open>hs\<close> are the results of the handshake.
\<close>

definition accept_new ::
    "int \<Rightarrow> byte list \<Rightarrow> coap_protocol \<Rightarrow> ptr \<Rightarrow> tls_opt option \<Rightarrow> int list \<Rightarrow> byte list \<Rightarrow> world
     \<Rightarrow> ((int \<times> ptr \<times> byte list) option \<times> world) res" where
  "accept_new sockfd caddr proto ctx opt hs from w =
     (let tls = (\<lambda>w. bindE (TLSSession sockfd ctx opt hs from w) (\<lambda>(p, w').
            Inr (case p of
              None \<Rightarrow> (None, w')
            | Some b \<Rightarrow> (Some (case net_fd (sessions w' b) of None \<Rightarrow> -1 | Some fd \<Rightarrow> fd, p, caddr), w')))) in
      case proto of
        COAP_TCP \<Rightarrow>
          (case on_sockets (sys_status sockfd) w of
             (l, w1) \<Rightarrow>
               if l \<noteq> 0 then Inr (None, w1)
               else case on_sockets (sys_accept sockfd from) w1 of
                 (s, w2) \<Rightarrow> Inr (Some (s, None, if s < 0 then caddr else from), w2))
      | COAP_TCP_TLS \<Rightarrow>
          (case on_sockets (sys_status sockfd) w of
             (l, w1) \<Rightarrow> if l \<noteq> 0 then Inr (None, w1) else tls w1)
      | COAP_UDP_DTLS \<Rightarrow> tls w
      | COAP_UDP \<Rightarrow>
          (case on_sockets (sys_transfer sockfd 1) w of
             (r, w1) \<Rightarrow> Inr (Some (if 0 < r then sockfd else -1, None, if r < 0 then caddr else from), w1))
      | COAP_PROTOCOL_OTHER \<Rightarrow> Inr (Some (-1, None, caddr), w))"

definition create_session ::
    "int \<Rightarrow> byte list \<Rightarrow> coap_protocol \<Rightarrow> ptr \<Rightarrow> tls_opt option \<Rightarrow> int list \<Rightarrow> byte list \<Rightarrow> world
     \<Rightarrow> (connection list \<times> byte list \<times> world) res" where
  "create_session sockfd caddr proto ctx opt hs from w =
     bindE (accept_new sockfd caddr proto ctx opt hs from w) (\<lambda>(a, w1).
       case a of
         None \<Rightarrow> Inr ([], caddr, w1)
       | Some (newsock, sess, caddr') \<Rightarrow>
           if newsock < 0 then Inr ([], caddr', w1)
           else
             bindE (connection_new_incoming [] newsock caddr' (length caddr') w1) (\<lambda>(cs, w2).
               case cs of
                 [] \<Rightarrow> Inl NullDeref
               | c # cs' \<Rightarrow>
                   (case on_sockets (sys_status sockfd) w2 of
                      (_, w3) \<Rightarrow>
                        (case on_sockets (sys_status sockfd) w3 of
                           (_, w4) \<Rightarrow> Inr (c\<lparr>session := sess\<rparr> # cs', caddr', w4)))))"

text \<open>
  The address list of \<^verbatim>\<open>getaddrinfo\<close> is a block of its own; only its first address is tried.
\<close>

definition connection_create ::
    "connection list \<Rightarrow> int \<Rightarrow> byte list list option \<Rightarrow> world \<Rightarrow> (connection list \<times> world) res" where
  "connection_create connList s res w =
     (case res of
        None \<Rightarrow> Inr ([], w)
      | Some [] \<Rightarrow> Inr ([], w)
      | Some (a # _) \<Rightarrow>
          (case malloc w of
             (None, w1) \<Rightarrow> Inr ([], w1)
           | (servinfo, w1) \<Rightarrow>
               (case on_sockets (sys_status s) w1 of
                  (_, w2) \<Rightarrow>
                    (case on_sockets (sys_connect s a) w2 of
                       (c, w3) \<Rightarrow>
                         if c = -1 then Inr ([], w3)
                         else
                           bindE (connection_new_incoming connList s a (length a) w3) (\<lambda>(cs, w4).
                           bindE (free servinfo w4) (\<lambda>w5. Inr (cs, w5)))))))"

section \<open>Closing\<close>

fun connection_free :: "connection list \<Rightarrow> world \<Rightarrow> world res" where
  "connection_free [] w = Inr w"
| "connection_free (c # cs) w =
     bindE (touch (Some (block c)) w) (\<lambda>_.
     bindE (case session c of None \<Rightarrow> Inr w | p \<Rightarrow> bindE (TLSSession_free p w) (\<lambda>(_, w'). Inr w')) (\<lambda>w1.
     bindE (free (Some (block c)) w1) (connection_free cs)))"

section \<open>Sending and receiving\<close>

text \<open>
  One call that sends the bytes in \<open>rest\<close>: what it answers. The library, like the sockets, never takes
  more than it was given.
\<close>

definition ssl_transfer :: "ptr \<Rightarrow> nat \<Rightarrow> world \<Rightarrow> (int \<times> world) res" where
  "ssl_transfer s len w =
     bindE (touch s w) (\<lambda>b.
     bindE (touch (ssl (sessions w b)) w) (\<lambda>_.
       Inr (case lib_answers w of
         [] \<Rightarrow> (int len, w)
       | a # as \<Rightarrow> (min a (int len), w\<lparr>lib_answers := as\<rparr>))))"

definition send_once :: "connection \<Rightarrow> coap_protocol \<Rightarrow> nat \<Rightarrow> world \<Rightarrow> (int \<times> world) res" where
  "send_once c proto len w =
     (case proto of
        COAP_UDP_DTLS \<Rightarrow> ssl_transfer (session c) len w
      | COAP_TCP_TLS \<Rightarrow> ssl_transfer (session c) len w
      | COAP_TCP \<Rightarrow> Inr (on_sockets (sys_transfer (sock c) len) w)
      | COAP_UDP \<Rightarrow> Inr (on_sockets (sys_transfer (sock c) len) w)
      | COAP_PROTOCOL_OTHER \<Rightarrow> Inl Hang)"

definition answers_left :: "world \<Rightarrow> nat" where
  "answers_left w = length (answers (sockets w)) + length (lib_answers w)"

lemma send_once_answers:
  assumes "send_once c proto len w = Inr (n, w')"
  shows "n \<le> int len" and "n = int len \<or> n < 0 \<or> answers_left w' < answers_left w"
    and "answers_left w' \<le> answers_left w"
  using assms
  by (auto simp: send_once_def ssl_transfer_def sys_transfer_def sys_def on_sockets_def answers_left_def
      bindE_Inr_iff split: coap_protocol.splits list.splits if_splits prod.splits)

text \<open>
  The loop of \<^verbatim>\<open>connection_send\<close>: the result and the pieces that were sent. Every round uses up an
  answer, sends the rest or fails.
\<close>

function send_loop :: "connection \<Rightarrow> coap_protocol \<Rightarrow> byte list \<Rightarrow> world \<Rightarrow> (int \<times> byte list list \<times> world) res" where
  "send_loop c proto rest w =
     (if rest = [] then Inr (0, [], w)
      else bindE (send_once c proto (length rest) w) (\<lambda>(n, w').
        if n < 0 then Inr (-1, [], w')
        else bindE (send_loop c proto (drop (nat n) rest) w') (\<lambda>(r, pieces, w'').
          Inr (r, take (nat n) rest # pieces, w''))))"
  by pat_completeness auto
termination
proof (relation "measures [\<lambda>(c, proto, rest, w). answers_left w, \<lambda>(c, proto, rest, w). length rest]", simp)
  fix c proto and rest :: "byte list" and w x n w'
  assume "rest \<noteq> []" and "send_once c proto (length rest) w = Inr x" and "(n, w') = x" and "\<not> n < 0"
  then show "((c, proto, drop (nat n) rest, w'), c, proto, rest, w)
      \<in> measures [\<lambda>(c, proto, rest, w). answers_left w, \<lambda>(c, proto, rest, w). length rest]"
    using send_once_answers [of c proto "length rest" w n w'] by auto
qed

declare send_loop.simps [simp del]

text \<open>\<open>blk\<close> is the memory from the buffer on, \<open>n\<close> its length; the buffer is dumped first.\<close>

definition connection_send ::
    "connection \<Rightarrow> byte list \<Rightarrow> nat \<Rightarrow> coap_protocol \<Rightarrow> world \<Rightarrow> (int \<times> byte list list \<times> world) res" where
  "connection_send c blk n proto w =
     bindE (output_buffer (Some blk) (int n) 0) (\<lambda>_.
       if length blk < n then Inl OutOfBounds else send_loop c proto (take n blk) w)"

definition lwm2m_buffer_send ::
    "connection list \<Rightarrow> byte list \<Rightarrow> nat \<Rightarrow> coap_protocol \<Rightarrow> world \<Rightarrow> (byte \<times> byte list list \<times> world) res" where
  "lwm2m_buffer_send sessionH blk n proto w =
     (case sessionH of
        [] \<Rightarrow> Inr (COAP_500_INTERNAL_SERVER_ERROR, [], w)
      | c # _ \<Rightarrow>
          bindE (connection_send c blk n proto w) (\<lambda>(r, pieces, w').
            Inr (if r = -1 then COAP_500_INTERNAL_SERVER_ERROR else COAP_NO_ERROR, pieces, w')))"

definition lwm2m_session_is_equal :: "ptr \<Rightarrow> ptr \<Rightarrow> bool" where
  "lwm2m_session_is_equal session1 session2 \<longleftrightarrow> session1 = session2"

definition connection_read ::
    "coap_protocol \<Rightarrow> connection list \<Rightarrow> int \<Rightarrow> nat \<Rightarrow> world \<Rightarrow> (int \<times> world) res" where
  "connection_read protocol connP s len w =
     (let tls = (case connP of [] \<Rightarrow> Inl NullDeref | c # _ \<Rightarrow> ssl_transfer (session c) len w) in
      case protocol of
        COAP_TCP_TLS \<Rightarrow> tls
      | COAP_UDP_DTLS \<Rightarrow> tls
      | COAP_UDP \<Rightarrow> Inr (on_sockets (sys_transfer s len) w)
      | COAP_TCP \<Rightarrow> Inr (on_sockets (sys_transfer s len) w)
      | COAP_PROTOCOL_OTHER \<Rightarrow> Inr (-1, w))"

section \<open>What is sent\<close>

lemma send_loop_pieces:
  "send_loop c proto rest w = Inr (r, pieces, w') \<Longrightarrow>
    (r = 0 \<and> concat pieces = rest) \<or> (r = -1 \<and> (\<exists>k < length rest. concat pieces = take k rest))"
proof (induction c proto rest w arbitrary: r pieces w' rule: send_loop.induct)
  case (1 c proto rest w)
  show ?case
  proof (cases "rest = []")
    case True
    then show ?thesis using "1.prems" by (simp add: send_loop.simps)
  next
    case False
    then obtain n w1 where s: "send_once c proto (length rest) w = Inr (n, w1)"
      using "1.prems" by (subst (asm) send_loop.simps) (auto simp: bindE_Inr_iff)
    show ?thesis
    proof (cases "n < 0")
      case True
      then show ?thesis using "1.prems" False s by (subst (asm) send_loop.simps) auto
    next
      case no: False
      then obtain pieces1 where rec: "send_loop c proto (drop (nat n) rest) w1 = Inr (r, pieces1, w')"
        and p: "pieces = take (nat n) rest # pieces1"
        using "1.prems" False s by (subst (asm) send_loop.simps) (auto simp: bindE_Inr_iff)
      have n: "nat n \<le> length rest" using send_once_answers(1) [OF s] by linarith
      from "1.IH" [OF False s refl no rec] show ?thesis
      proof
        assume "r = 0 \<and> concat pieces1 = drop (nat n) rest"
        then show ?thesis using p by simp
      next
        assume "r = -1 \<and> (\<exists>k < length (drop (nat n) rest). concat pieces1 = take k (drop (nat n) rest))"
        then obtain k where k: "k < length rest - nat n" "concat pieces1 = take k (drop (nat n) rest)" "r = -1"
          by auto
        have "concat pieces = take (nat n + k) rest" using p k(2) by (simp add: take_add)
        moreover have "nat n + k < length rest" using k(1) n by linarith
        ultimately show ?thesis using k(3) by blast
      qed
    qed
  qed
qed

text \<open>A connection whose calls reach a socket or a live session.\<close>

definition usable :: "coap_protocol \<Rightarrow> connection \<Rightarrow> world \<Rightarrow> bool" where
  "usable proto c w \<longleftrightarrow>
     (proto = COAP_UDP \<or> proto = COAP_TCP
      \<or> ((proto = COAP_UDP_DTLS \<or> proto = COAP_TCP_TLS)
         \<and> (\<exists>s l. session c = Some s \<and> s \<in> set (live w) \<and> ssl (sessions w s) = Some l \<and> l \<in> set (live w))))"

lemma send_once_usable:
  assumes "usable proto c w"
  shows "\<exists>n w'. send_once c proto len w = Inr (n, w') \<and> usable proto c w'"
  using assms
  by (cases proto)
    (auto simp: usable_def send_once_def ssl_transfer_def touch_def on_sockets_def sys_transfer_def sys_def
      split: list.splits prod.splits)

lemma send_loop_returns: "usable proto c w \<Longrightarrow> ok (send_loop c proto rest w)"
proof (induction c proto rest w rule: send_loop.induct)
  case (1 c proto rest w)
  show ?case
  proof (cases "rest = []")
    case True
    then show ?thesis by (simp add: send_loop.simps)
  next
    case False
    obtain n w1 where s: "send_once c proto (length rest) w = Inr (n, w1)" "usable proto c w1"
      using send_once_usable [OF "1.prems"] by blast
    show ?thesis
    proof (cases "n < 0")
      case True
      then show ?thesis using False s by (subst send_loop.simps) simp
    next
      case no: False
      have "ok (send_loop c proto (drop (nat n) rest) w1)"
        by (rule "1.IH" [OF False s(1) refl no s(2)])
      then show ?thesis using False s no by (subst send_loop.simps) (auto simp: ok_iff)
    qed
  qed
qed

text \<open>
  C36. On a usable connection, with the memory behind the packet readable up to the next multiple of 16,
  \<^verbatim>\<open>lwm2m_buffer_send\<close> returns: with 0 when the pieces handed to the socket are the whole packet, in
  order, and with 5.00 when only a part of it was sent. Without a connection it answers 5.00.
\<close>

theorem buffer_send_complete:
  assumes "usable proto c w" and "n + 16 \<le> length blk"
  shows "\<exists>r pieces w'. lwm2m_buffer_send (c # cs) blk n proto w = Inr (r, pieces, w')
      \<and> (if r = COAP_NO_ERROR then concat pieces = take n blk
         else r = COAP_500_INTERNAL_SERVER_ERROR \<and> (\<exists>k < n. concat pieces = take k blk))
    \<and> lwm2m_buffer_send [] blk n proto w = Inr (COAP_500_INTERNAL_SERVER_ERROR, [], w)"
proof -
  have len: "length (take n blk) = n" "\<not> length blk < n" using assms(2) by simp_all
  obtain t where t: "output_buffer (Some blk) (int n) 0 = Inr t"
    using output_buffer_ok [of blk n 0] round_up_slack [OF assms(2)] by (auto simp: ok_iff)
  obtain r pieces w' where l: "send_loop c proto (take n blk) w = Inr (r, pieces, w')"
    using send_loop_returns [OF assms(1), of "take n blk"] by (auto simp: ok_iff)
  have run: "lwm2m_buffer_send (c # cs) blk n proto w
      = Inr (if r = -1 then COAP_500_INTERNAL_SERVER_ERROR else COAP_NO_ERROR, pieces, w')"
    using len by (simp add: lwm2m_buffer_send_def connection_send_def t l)
  from send_loop_pieces [OF l] show ?thesis
  proof
    assume "r = 0 \<and> concat pieces = take n blk"
    then show ?thesis using run by (simp add: lwm2m_buffer_send_def)
  next
    assume "r = -1 \<and> (\<exists>k < length (take n blk). concat pieces = take k (take n blk))"
    then obtain k where "k < n" "concat pieces = take k blk" "r = -1" using len(1) by (auto simp: min_def split: if_splits)
    then show ?thesis using run by (auto simp: lwm2m_buffer_send_def)
  qed
qed

lemma buffer_send_complete_witness:
  "\<exists>r pieces w'. lwm2m_buffer_send [\<lparr>block = 1, sock = 3, addr = [], addrLen = 16, session = None\<rparr>]
        (replicate 19 65) 3 COAP_UDP \<lparr>live = [], next_block = 2, alloc = [], lib_answers = [], ctxs = (\<lambda>_. zero_ctx),
          sessions = (\<lambda>_. \<lparr>net_fd = None, ssl = None\<rparr>),
          sockets = \<lparr>open_fds = [3], is_stream = (\<lambda>_. False), nonblock = (\<lambda>_. False), bound = (\<lambda>_. None),
            peer = (\<lambda>_. None), errno = 0, waits = [], answers = [1, - 5]\<rparr>\<rparr> = Inr (r, pieces, w')
      \<and> (if r = COAP_NO_ERROR then concat pieces = take 3 (replicate 19 65)
         else r = COAP_500_INTERNAL_SERVER_ERROR \<and> (\<exists>k < 3. concat pieces = take k (replicate 19 65)))
    \<and> lwm2m_buffer_send [] (replicate 19 65) 3 COAP_UDP \<lparr>live = [], next_block = 2, alloc = [], lib_answers = [],
        ctxs = (\<lambda>_. zero_ctx), sessions = (\<lambda>_. \<lparr>net_fd = None, ssl = None\<rparr>),
          sockets = \<lparr>open_fds = [3], is_stream = (\<lambda>_. False), nonblock = (\<lambda>_. False), bound = (\<lambda>_. None),
            peer = (\<lambda>_. None), errno = 0, waits = [], answers = [1, - 5]\<rparr>\<rparr>
      = Inr (COAP_500_INTERNAL_SERVER_ERROR, [], \<lparr>live = [], next_block = 2, alloc = [], lib_answers = [],
        ctxs = (\<lambda>_. zero_ctx), sessions = (\<lambda>_. \<lparr>net_fd = None, ssl = None\<rparr>),
          sockets = \<lparr>open_fds = [3], is_stream = (\<lambda>_. False), nonblock = (\<lambda>_. False), bound = (\<lambda>_. None),
            peer = (\<lambda>_. None), errno = 0, waits = [], answers = [1, - 5]\<rparr>\<rparr>)"
  by (rule buffer_send_complete) (simp_all add: usable_def)

section \<open>Sockets and memory\<close>

lemma socket_loop_fds:
  assumes "socket_loop stream as s0 w = (s, w')" and "s0 < 0"
  shows "if 0 \<le> s then s \<notin> set (open_fds w) \<and> set (open_fds w') = insert s (set (open_fds w))
      \<and> (\<exists>a\<in>set as. bound w' s = Some a) \<and> is_stream w' s = stream
    else set (open_fds w') = set (open_fds w)"
  using assms
proof (induction stream as s0 w rule: socket_loop.induct)
  case (1 stream s0 w)
  then show ?case by simp
next
  case (2 stream a as s0 w)
  obtain s1 w1 where s: "sys_socket stream w = (s1, w1)" by (metis surj_pair)
  obtain o1 w2 where o1: "sys_status s1 w1 = (o1, w2)" by (metis surj_pair)
  obtain b w3 where b: "sys_bind s1 a w2 = (b, w3)" by (metis surj_pair)
  show ?case
  proof (cases "0 \<le> s1")
    case False
    then have "open_fds w1 = open_fds w" using sys_socket_failed [OF s] by (simp add: same_sockets_def)
    then show ?thesis using "2.IH"(3) [OF s [symmetric] False] "2.prems"(1) False s by auto
  next
    case True
    then have nn: "\<not> s1 < 0" by simp
    note new = sys_socket_new [OF s nn]
    have w2: "open_fds w2 = open_fds w1" "is_stream w2 = is_stream w1"
      using sys_status_same [OF o1] by (simp_all add: same_sockets_def)
    have w3: "open_fds w3 = open_fds w1" "is_stream w3 = is_stream w1"
      using sys_bind_effect [OF b] w2 by simp_all
    have closed: "set (open_fds (sys_close s1 v)) = set (open_fds w)" if "open_fds v = open_fds w1" for v :: "byte list net"
      using new that by auto
    have b01: "b = 0 \<or> b = -1" using b by (auto simp: sys_bind_def sys_status_def split: prod.splits if_splits)
    consider "o1 < 0" | "\<not> o1 < 0" "b = -1" | "\<not> o1 < 0" "b = 0" using b01 by blast
    then show ?thesis
    proof cases
      case 1
      then show ?thesis using "2.IH"(1) [OF s [symmetric] True o1 [symmetric] 1] "2.prems"(1) True s o1 closed [OF w2(1)]
        by (auto simp del: set_close split: if_splits)
    next
      case 2
      then show ?thesis using "2.IH"(2) [OF s [symmetric] True o1 [symmetric] _ b [symmetric]] "2.prems"(1) True s o1 b
          closed [OF w3(1)] by (auto simp del: set_close split: if_splits)
    next
      case 3
      then show ?thesis using "2.prems"(1) True s o1 b new w3 sys_bind_effect(4) [OF b] by auto
    qed
  qed
qed

text \<open>
  \<^verbatim>\<open>create_socket\<close> returns a new socket of the right kind, bound to one of the addresses, as the only
  one that is left open, or a negative number and leaves none open.
\<close>

theorem create_socket_no_leak:
  "case create_socket protocol res w of (s, w') \<Rightarrow>
     if 0 \<le> s then s \<notin> set (open_fds w) \<and> set (open_fds w') = insert s (set (open_fds w))
       \<and> (\<exists>as. res = Some as \<and> (\<exists>a\<in>set as. bound w' s = Some a))
       \<and> is_stream w' s = (protocol = COAP_TCP \<or> protocol = COAP_TCP_TLS)
     else set (open_fds w') = set (open_fds w)"
proof (cases res)
  case None
  then show ?thesis by (simp add: create_socket_def)
next
  case (Some as)
  obtain s w' where c: "socket_loop (protocol = COAP_TCP \<or> protocol = COAP_TCP_TLS) as (-1) w = (s, w')"
    by (metis surj_pair)
  show ?thesis using socket_loop_fds [OF c] Some by (simp add: create_socket_def c split: if_splits)
qed

text \<open>The blocks of a connection, and the lists that can be freed.\<close>

definition conn_blocks :: "world \<Rightarrow> connection \<Rightarrow> nat list" where
  "conn_blocks w c = block c # (case session c of None \<Rightarrow> [] | Some s \<Rightarrow> s # (case ssl (sessions w s) of None \<Rightarrow> [] | Some l \<Rightarrow> [l]))"

definition conn_fds :: "world \<Rightarrow> connection \<Rightarrow> int set" where
  "conn_fds w c = (case session c of None \<Rightarrow> {} | Some s \<Rightarrow> {the (net_fd (sessions w s))})"

definition freeable :: "connection list \<Rightarrow> world \<Rightarrow> bool" where
  "freeable cs w \<longleftrightarrow>
     distinct (live w) \<and> distinct (concat (map (conn_blocks w) cs)) \<and> set (concat (map (conn_blocks w) cs)) \<subseteq> set (live w)
     \<and> (\<forall>c\<in>set cs. \<forall>s. session c = Some s \<longrightarrow> (\<exists>fd. net_fd (sessions w s) = Some fd \<and> 0 \<le> fd) \<and> ssl (sessions w s) \<noteq> None)"

lemma session_free_blocks:
  assumes "distinct (live w)" and "sessions w s = \<lparr>net_fd = Some fd, ssl = Some l\<rparr>" and "0 \<le> fd"
    and "s \<in> set (live w)" and "l \<in> set (live w)" and "s \<noteq> l"
  shows "\<exists>w'. TLSSession_free (Some s) w = Inr (TLS_SUCCESS, w')
    \<and> live w' = filter (\<lambda>x. x \<notin> {s, l}) (live w) \<and> set (open_fds (sockets w')) = set (open_fds (sockets w)) - {fd}
    \<and> (\<forall>t. t \<noteq> s \<longrightarrow> sessions w' t = sessions w t)"
proof -
  have r1: "remove1 l (live w) = filter (\<lambda>x. x \<noteq> l) (live w)" using assms(1) by (rule remove1_distinct)
  have "remove1 s (filter (\<lambda>x. x \<noteq> l) (live w)) = filter (\<lambda>x. x \<noteq> s) (filter (\<lambda>x. x \<noteq> l) (live w))"
    using assms(1) by (intro remove1_distinct) simp
  then show ?thesis
    using assms r1 by (simp add: TLSSession_free_def touch_def free_def mbedtls_net_free_def conj_commute)
qed

lemma filter_notin_append: "filter (\<lambda>x. x \<notin> A) (filter (\<lambda>x. x \<notin> B) xs) = filter (\<lambda>x. x \<notin> B \<union> A) xs"
  by (simp add: conj_commute)

text \<open>
  Freeing a list of connections gives back their blocks and those of their sessions, closes the
  descriptors of the sessions, and touches nothing else; nothing is freed twice.
\<close>

theorem connection_free_all:
  "freeable cs w \<Longrightarrow> \<exists>w'. connection_free cs w = Inr w'
    \<and> live w' = filter (\<lambda>x. x \<notin> set (concat (map (conn_blocks w) cs))) (live w)
    \<and> set (open_fds (sockets w')) = set (open_fds (sockets w)) - (\<Union>c\<in>set cs. conn_fds w c)"
proof (induction cs arbitrary: w)
  case Nil
  then show ?case by simp
next
  case (Cons c cs)
  have dist: "distinct (live w)" and bc: "block c \<in> set (live w)"
    using Cons.prems by (simp_all add: freeable_def conn_blocks_def)
  obtain w1 where w1: "(case session c of None \<Rightarrow> Inr w | p \<Rightarrow> bindE (TLSSession_free p w) (\<lambda>(_, w'). Inr w')) = Inr w1"
    and live1: "live w1 = filter (\<lambda>x. x \<notin> set (tl (conn_blocks w c))) (live w)"
    and fds1: "set (open_fds (sockets w1)) = set (open_fds (sockets w)) - conn_fds w c"
    and same: "\<forall>t. session c \<noteq> Some t \<longrightarrow> sessions w1 t = sessions w t"
  proof (cases "session c")
    case None
    then show thesis using that [of w] by (simp add: conn_blocks_def conn_fds_def)
  next
    case (Some s)
    obtain fd where fd: "net_fd (sessions w s) = Some fd" "0 \<le> fd" using Cons.prems Some by (auto simp: freeable_def)
    obtain l where l: "ssl (sessions w s) = Some l" using Cons.prems Some by (auto simp: freeable_def)
    have sess: "sessions w s = \<lparr>net_fd = Some fd, ssl = Some l\<rparr>" using fd l by (cases "sessions w s") simp
    have "s \<in> set (live w)" "l \<in> set (live w)" "s \<noteq> l"
      using Cons.prems Some l by (auto simp: freeable_def conn_blocks_def)
    from session_free_blocks [OF dist sess fd(2) this] show thesis
      using that Some fd l by (auto simp: conn_blocks_def conn_fds_def)
  qed
  have b1: "block c \<in> set (live w1)"
    using bc live1 Cons.prems by (auto simp: freeable_def conn_blocks_def split: option.splits)
  define w2 where "w2 = w1\<lparr>live := remove1 (block c) (live w1)\<rparr>"
  have live2: "live w2 = filter (\<lambda>x. x \<notin> set (conn_blocks w c)) (live w)"
  proof -
    have "remove1 (block c) (live w1) = filter (\<lambda>x. x \<noteq> block c) (live w1)"
      using dist live1 by (intro remove1_distinct) simp
    then show ?thesis by (auto simp: w2_def live1 conn_blocks_def intro: filter_cong)
  qed
  have other: "session d \<noteq> session c \<or> session d = None" if "d \<in> set cs" for d
  proof (rule ccontr)
    assume "\<not> (session d \<noteq> session c \<or> session d = None)"
    then obtain s where s: "session d = Some s" "session c = Some s" by auto
    have "set (conn_blocks w c) \<inter> set (concat (map (conn_blocks w) cs)) = {}"
      using Cons.prems by (simp add: freeable_def)
    moreover have "s \<in> set (conn_blocks w c)" "s \<in> set (conn_blocks w d)"
      using s by (simp_all add: conn_blocks_def)
    ultimately show False using that by auto
  qed
  have blocks: "conn_blocks w2 d = conn_blocks w d" "conn_fds w2 d = conn_fds w d" if "d \<in> set cs" for d
    using other [OF that] same by (cases "session d"; auto simp: conn_blocks_def conn_fds_def w2_def)+
  have map2: "map (conn_blocks w2) cs = map (conn_blocks w) cs" using blocks by simp
  have "freeable cs w2"
    unfolding freeable_def map2 live2
  proof (intro conjI ballI allI impI)
    show "distinct (filter (\<lambda>x. x \<notin> set (conn_blocks w c)) (live w))" using dist by simp
    show "distinct (concat (map (conn_blocks w) cs))" using Cons.prems by (simp add: freeable_def)
    show "set (concat (map (conn_blocks w) cs)) \<subseteq> set (filter (\<lambda>x. x \<notin> set (conn_blocks w c)) (live w))"
      using Cons.prems by (auto simp: freeable_def)
  next
    fix d s assume d: "d \<in> set cs" "session d = Some s"
    then have "sessions w2 s = sessions w s" using other [OF d(1)] same by (auto simp: w2_def)
    then show "\<exists>fd. net_fd (sessions w2 s) = Some fd \<and> 0 \<le> fd" "ssl (sessions w2 s) \<noteq> None"
      using Cons.prems d by (auto simp: freeable_def)
  qed
  from Cons.IH [OF this] obtain w' where rec: "connection_free cs w2 = Inr w'"
    "live w' = filter (\<lambda>x. x \<notin> set (concat (map (conn_blocks w) cs))) (live w2)"
    "set (open_fds (sockets w')) = set (open_fds (sockets w2)) - (\<Union>d\<in>set cs. conn_fds w2 d)"
    unfolding map2 by blast
  have "connection_free (c # cs) w = Inr w'"
    using bc b1 w1 rec(1) by (simp add: touch_live free_def w2_def)
  moreover have "live w' = filter (\<lambda>x. x \<notin> set (concat (map (conn_blocks w) (c # cs)))) (live w)"
    unfolding rec(2) live2 by (simp add: conj_commute)
  moreover have "set (open_fds (sockets w')) = set (open_fds (sockets w)) - (\<Union>d\<in>set (c # cs). conn_fds w d)"
    using rec(3) fds1 blocks by (auto simp: w2_def)
  ultimately show ?case by blast
qed

definition ex_conns :: "connection list" where
  "ex_conns = [\<lparr>block = 4, sock = 3, addr = [], addrLen = 0, session = Some 5\<rparr>,
     \<lparr>block = 7, sock = 2, addr = [], addrLen = 0, session = None\<rparr>]"

definition ex_conn_world :: "bool list \<Rightarrow> int list \<Rightarrow> world" where
  "ex_conn_world m as = \<lparr>live = [7, 6, 5, 4, 1], next_block = 8, alloc = m, lib_answers = [], ctxs = (\<lambda>_. zero_ctx),
     sessions = (\<lambda>_. \<lparr>net_fd = Some 3, ssl = Some 6\<rparr>),
     sockets = \<lparr>open_fds = [3, 2], is_stream = (\<lambda>_. False), nonblock = (\<lambda>_. False), bound = (\<lambda>_. None),
       peer = (\<lambda>_. None), errno = 0, waits = [], answers = as\<rparr>\<rparr>"

lemma connection_free_all_witness:
  "\<exists>w'. connection_free ex_conns (ex_conn_world [] []) = Inr w'
    \<and> live w' = filter (\<lambda>x. x \<notin> set (concat (map (conn_blocks (ex_conn_world [] [])) ex_conns))) (live (ex_conn_world [] []))
    \<and> set (open_fds (sockets w')) = set (open_fds (sockets (ex_conn_world [] []))) - (\<Union>c\<in>set ex_conns. conn_fds (ex_conn_world [] []) c)"
  by (rule connection_free_all) (simp add: freeable_def ex_conns_def ex_conn_world_def conn_blocks_def)

section \<open>New connections\<close>

text \<open>
  Over UDP the first packet makes a connection on the listening socket itself, for the sender of the
  packet, as one new block; without memory for it the code dereferences the null pointer.
\<close>

theorem create_session_udp:
  assumes "sockfd \<in> set (open_fds (sockets w))" and "0 \<le> sockfd" and "answers (sockets w) = []"
    and "length from = ADDR_SIZE"
  shows "if fst (lwm2m_malloc (alloc w))
    then \<exists>w'. create_session sockfd caddr COAP_UDP ctx opt hs from w
        = Inr ([\<lparr>block = next_block w, sock = sockfd, addr = from, addrLen = ADDR_SIZE, session = None\<rparr>], from, w')
      \<and> live w' = next_block w # live w \<and> sockets w' = sockets w
    else create_session sockfd caddr COAP_UDP ctx opt hs from w = Inl NullDeref"
  using assms
  by (cases "lwm2m_malloc (alloc w)"; cases "fst (lwm2m_malloc (alloc w))")
    (auto simp: create_session_def accept_new_def Let_def on_sockets_def sys_transfer_def sys_status_def sys_on_def
      sys_def connection_new_incoming_def malloc_def ADDR_SIZE_def)

lemma create_session_udp_witness:
  "if fst (lwm2m_malloc (alloc (ex_conn_world [False] [])))
    then \<exists>w'. create_session 2 [] COAP_UDP None None [] (replicate 16 1) (ex_conn_world [False] [])
        = Inr ([\<lparr>block = next_block (ex_conn_world [False] []), sock = 2, addr = replicate 16 1, addrLen = ADDR_SIZE, session = None\<rparr>],
            replicate 16 1, w')
      \<and> live w' = next_block (ex_conn_world [False] []) # live (ex_conn_world [False] [])
      \<and> sockets w' = sockets (ex_conn_world [False] [])
    else create_session 2 [] COAP_UDP None None [] (replicate 16 1) (ex_conn_world [False] []) = Inl NullDeref"
  by (rule create_session_udp) (simp_all add: ex_conn_world_def ADDR_SIZE_def)

text \<open>
  A connection that cannot be made to the first address found is given up, and the address list of
  \<^verbatim>\<open>getaddrinfo\<close> stays allocated; when it is made, the list is freed and one block is new.
\<close>

theorem connection_create_leak:
  assumes "alloc w = []" and "s \<in> set (open_fds (sockets w))" and "length a = ADDR_SIZE"
    and "answers (sockets w) = [0, e]" and "next_block w \<notin> set (live w)"
  shows "\<exists>cs w'. connection_create connList s (Some (a # as)) w = Inr (cs, w')
    \<and> (if e < 0 then cs = [] \<and> live w' = next_block w # live w
       else cs = \<lparr>block = Suc (next_block w), sock = s, addr = a, addrLen = ADDR_SIZE, session = None\<rparr> # connList
         \<and> live w' = Suc (next_block w) # live w \<and> peer (sockets w') s = Some a)"
  using assms
  by (auto simp: connection_create_def malloc_def on_sockets_def sys_status_def sys_on_def sys_def sys_connect_def
      connection_new_incoming_def free_def ADDR_SIZE_def)

lemma connection_create_leak_witness:
  "\<exists>cs w'. connection_create [] 2 (Some [replicate 16 1]) (ex_conn_world [] [0, - 111]) = Inr (cs, w')
    \<and> (if - 111 < (0 :: int) then cs = [] \<and> live w' = next_block (ex_conn_world [] [0, - 111]) # live (ex_conn_world [] [0, - 111])
       else cs = \<lparr>block = Suc (next_block (ex_conn_world [] [0, - 111])), sock = 2, addr = replicate 16 1, addrLen = ADDR_SIZE, session = None\<rparr> # []
         \<and> live w' = Suc (next_block (ex_conn_world [] [0, - 111])) # live (ex_conn_world [] [0, - 111])
         \<and> peer (sockets w') 2 = Some (replicate 16 1))"
  by (rule connection_create_leak) (simp_all add: ex_conn_world_def ADDR_SIZE_def)

end
