(* ===== verification/Observed.thy ===== *)
theory Observed
imports Uri Lwm2m_Object Lwm2m_Types
begin

text \<open>
  The observed resources of a client, the list functions of \<^verbatim>\<open>external/wakaama/observe.c\<close> and the
  structs of \<^verbatim>\<open>liblwm2m.h\<close> they work on. A server is its number (the pointer to it), a session
  handle is a number as well.
\<close>

unbundle bit_operations_syntax

section \<open>Watchers and observations\<close>

text \<open>
  \<^verbatim>\<open>lastValue\<close> is a union of two members of 64 bits and kept as those bits. Times are signed numbers
  of 32 bits.
\<close>

type_synonym time = int
type_synonym server = nat
type_synonym session = nat

record watcher =
  active :: bool
  update :: bool
  server :: server
  parameters :: "lwm2m_attributes option"
  token :: "byte list"
  lastTime :: time
  counter :: u32
  lastMid :: u16
  lastValue :: i64

text \<open>
  A node of \<^verbatim>\<open>observedList\<close>. \<open>freed\<close> is a node that \<^verbatim>\<open>prv_getWatcher\<close> has freed and left in the list.
\<close>

record observed =
  uri :: lwm2m_uri
  watcherList :: "watcher list"
  freed :: bool

definition new_watcher :: "server \<Rightarrow> watcher" where
  "new_watcher srv = \<lparr>active = False, update = False, server = srv, parameters = None, token = [],
     lastTime = 0, counter = 0, lastMid = 0, lastValue = 0\<rparr>"

section \<open>Looking up\<close>

text \<open>The loop condition of \<^verbatim>\<open>prv_findObserved\<close>, negated.\<close>

definition same_uri :: "lwm2m_uri \<Rightarrow> lwm2m_uri \<Rightarrow> bool" where
  "same_uri u v \<longleftrightarrow>
     objectId u = objectId v \<and> flag u = flag v
     \<and> (is_set_instance v \<longrightarrow> instanceId u = instanceId v)
     \<and> (is_set_resource v \<longrightarrow> resourceId u = resourceId v)"

text \<open>The condition of \<^verbatim>\<open>observe_findByUri\<close>, which ignores the other flags.\<close>

definition found_by_uri :: "lwm2m_uri \<Rightarrow> lwm2m_uri \<Rightarrow> bool" where
  "found_by_uri u v \<longleftrightarrow>
     objectId u = objectId v
     \<and> (\<not> is_set_instance v \<and> \<not> is_set_instance u
        \<or> is_set_instance v \<and> is_set_instance u \<and> instanceId v = instanceId u)
     \<and> (\<not> is_set_resource v \<and> \<not> is_set_resource u
        \<or> is_set_resource v \<and> is_set_resource u \<and> resourceId v = resourceId u)"

text \<open>The index of the first node whose URI is accepted.\<close>

fun find_node :: "(lwm2m_uri \<Rightarrow> bool) \<Rightarrow> observed list \<Rightarrow> nat option res" where
  "find_node p [] = Inr None"
| "find_node p (ob # obs) =
     (if freed ob then Inl UseAfterFree
      else if p (uri ob) then Inr (Some 0)
      else bindE (find_node p obs) (\<lambda>r. Inr (map_option Suc r)))"

definition prv_findObserved :: "observed list \<Rightarrow> lwm2m_uri \<Rightarrow> nat option res" where
  "prv_findObserved obs u = find_node (\<lambda>v. same_uri v u) obs"

definition observe_findByUri :: "observed list \<Rightarrow> lwm2m_uri \<Rightarrow> nat option res" where
  "observe_findByUri obs u = find_node (\<lambda>v. found_by_uri v u) obs"

fun prv_findWatcher :: "watcher list \<Rightarrow> server \<Rightarrow> nat option" where
  "prv_findWatcher [] srv = None"
| "prv_findWatcher (w # ws) srv = (if server w = srv then Some 0 else map_option Suc (prv_findWatcher ws srv))"

text \<open>
  \<^verbatim>\<open>prv_getWatcher\<close>: the list and the place of the watcher in it. A node made for a watcher that cannot
  be allocated is freed and stays in the list.
\<close>

definition prv_getWatcher ::
    "observed list \<Rightarrow> lwm2m_uri \<Rightarrow> server \<Rightarrow> mem \<Rightarrow> (observed list \<times> (nat \<times> nat) option \<times> mem) res" where
  "prv_getWatcher obs u srv m =
     bindE (prv_findObserved obs u) (\<lambda>found.
       case (case found of
               Some i \<Rightarrow> (True, obs, i, False, m)
             | None \<Rightarrow>
                 (case lwm2m_malloc m of
                    (False, m1) \<Rightarrow> (False, obs, 0, False, m1)
                  | (True, m1) \<Rightarrow> (True, \<lparr>uri = u, watcherList = [], freed = False\<rparr> # obs, 0, True, m1))) of
         (False, obs1, i, allocated, m1) \<Rightarrow> Inr (obs1, None, m1)
       | (True, obs1, i, allocated, m1) \<Rightarrow>
           (case prv_findWatcher (watcherList (obs1 ! i)) srv of
              Some j \<Rightarrow> Inr (obs1, Some (i, j), m1)
            | None \<Rightarrow>
                (case lwm2m_malloc m1 of
                   (False, m2) \<Rightarrow>
                     Inr (if allocated then obs1[i := (obs1 ! i)\<lparr>freed := True\<rparr>] else obs1, None, m2)
                 | (True, m2) \<Rightarrow>
                     Inr (obs1[i := (obs1 ! i)\<lparr>watcherList := new_watcher srv # watcherList (obs1 ! i)\<rparr>],
                       Some (i, 0), m2))))"

section \<open>Cancelling\<close>

text \<open>
  The loop over the watchers behind the first: the list without the watcher that is removed, or \<open>None\<close>.
  A watcher is passed over when its message id differs or its session \<^emph>\<open>is\<close> the one that asks.
\<close>

fun cancel_behind :: "(server \<Rightarrow> session) \<Rightarrow> u16 \<Rightarrow> session \<Rightarrow> watcher list \<Rightarrow> watcher list option" where
  "cancel_behind sess mid from [] = None"
| "cancel_behind sess mid from (w # ws) =
     (if lastMid w \<noteq> mid \<or> sess (server w) = from
      then map_option ((#) w) (cancel_behind sess mid from ws)
      else Some ws)"

abbreviation LWM2M_MAX_ID :: u16 where "LWM2M_MAX_ID \<equiv> 0xFFFF"

fun observe_cancel :: "(server \<Rightarrow> session) \<Rightarrow> u16 \<Rightarrow> session \<Rightarrow> observed list \<Rightarrow> observed list res" where
  "observe_cancel sess mid from [] = Inr []"
| "observe_cancel sess mid from (ob # obs) =
     (if freed ob then Inl UseAfterFree
      else case watcherList ob of
        [] \<Rightarrow> Inl NullDeref
      | w # ws \<Rightarrow>
          let removed =
            (if (LWM2M_MAX_ID = mid \<or> lastMid w = mid) \<and> sess (server w) = from then Some ws
             else map_option ((#) w) (cancel_behind sess mid from ws)) in
          case removed of
            Some [] \<Rightarrow> Inr obs
          | Some ws' \<Rightarrow> Inr (ob\<lparr>watcherList := ws'\<rparr> # obs)
          | None \<Rightarrow> bindE (observe_cancel sess mid from obs) (\<lambda>obs'. Inr (ob # obs')))"

section \<open>Changes\<close>

text \<open>Which observations a change of the resources under \<open>u\<close> concerns.\<close>

definition concerned :: "lwm2m_uri \<Rightarrow> lwm2m_uri \<Rightarrow> bool" where
  "concerned v u \<longleftrightarrow>
     objectId v = objectId u
     \<and> (\<not> is_set_instance u \<or> flag v AND FLAG_INSTANCE_ID = 0 \<or> instanceId u = instanceId v)
     \<and> (\<not> is_set_resource u \<or> flag v AND FLAG_RESOURCE_ID = 0 \<or> resourceId u = resourceId v)"

definition tag_watcher :: "watcher \<Rightarrow> watcher" where
  "tag_watcher w = (if active w then w\<lparr>update := True\<rparr> else w)"

fun lwm2m_resource_value_changed :: "lwm2m_uri \<Rightarrow> observed list \<Rightarrow> observed list res" where
  "lwm2m_resource_value_changed u [] = Inr []"
| "lwm2m_resource_value_changed u (ob # obs) =
     (if freed ob then Inl UseAfterFree
      else bindE (lwm2m_resource_value_changed u obs) (\<lambda>obs'.
        Inr ((if concerned (uri ob) u then ob\<lparr>watcherList := map tag_watcher (watcherList ob)\<rparr> else ob) # obs')))"

section \<open>Well-formed lists\<close>

definition observed_ok :: "observed \<Rightarrow> bool" where
  "observed_ok ob \<longleftrightarrow> \<not> freed ob \<and> watcherList ob \<noteq> [] \<and> distinct (map server (watcherList ob))"

definition observed_inv :: "observed list \<Rightarrow> bool" where
  "observed_inv obs \<longleftrightarrow>
     (\<forall>ob\<in>set obs. observed_ok ob) \<and> sorted_wrt (\<lambda>a b. \<not> same_uri (uri a) (uri b)) obs"

lemma same_uri_refl [simp]: "same_uri u u"
  by (simp add: same_uri_def)

lemma same_uri_sym: "same_uri u v \<longleftrightarrow> same_uri v u"
  by (auto simp: same_uri_def is_set_instance_def is_set_resource_def)

lemma observed_inv_Nil [simp]: "observed_inv []"
  by (simp add: observed_inv_def)

lemma observed_inv_Cons:
  "observed_inv (ob # obs) \<longleftrightarrow>
     observed_ok ob \<and> (\<forall>a\<in>set obs. \<not> same_uri (uri ob) (uri a)) \<and> observed_inv obs"
  by (auto simp: observed_inv_def)

lemma find_node_spec:
  assumes "\<forall>ob\<in>set obs. \<not> freed ob"
  shows "find_node p obs = Inr None \<and> (\<forall>ob\<in>set obs. \<not> p (uri ob))
    \<or> (\<exists>i<length obs. find_node p obs = Inr (Some i) \<and> p (uri (obs ! i)))"
  using assms
proof (induction obs)
  case Nil
  then show ?case by simp
next
  case (Cons ob obs)
  show ?case
  proof (cases "p (uri ob)")
    case True
    with Cons.prems show ?thesis by (intro disjI2 exI [of _ 0]) simp
  next
    case False
    from Cons consider "find_node p obs = Inr None" "\<forall>ob\<in>set obs. \<not> p (uri ob)"
      | i where "i < length obs" "find_node p obs = Inr (Some i)" "p (uri (obs ! i))" by auto
    then show ?thesis
    proof cases
      case 1
      with False Cons.prems show ?thesis by simp
    next
      case (2 i)
      with False Cons.prems show ?thesis by (intro disjI2 exI [of _ "Suc i"]) simp
    qed
  qed
qed

lemma findWatcher_spec:
  "prv_findWatcher ws srv = None \<and> srv \<notin> server ` set ws
    \<or> (\<exists>j<length ws. prv_findWatcher ws srv = Some j \<and> server (ws ! j) = srv)"
proof (induction ws)
  case Nil
  then show ?case by simp
next
  case (Cons w ws)
  show ?case
  proof (cases "server w = srv")
    case True
    then show ?thesis by (intro disjI2 exI [of _ 0]) simp
  next
    case False
    from Cons consider "prv_findWatcher ws srv = None" "srv \<notin> server ` set ws"
      | j where "j < length ws" "prv_findWatcher ws srv = Some j" "server (ws ! j) = srv" by auto
    then show ?thesis
    proof cases
      case 1
      with False show ?thesis by auto
    next
      case (2 j)
      with False show ?thesis by (intro disjI2 exI [of _ "Suc j"]) simp
    qed
  qed
qed

lemma new_watcher_simps [simp]:
  "server (new_watcher srv) = srv" "active (new_watcher srv) = False" "parameters (new_watcher srv) = None"
  by (simp_all add: new_watcher_def)

text \<open>Changing a node without its URI keeps the list well-formed.\<close>

lemma observed_inv_update:
  assumes "observed_inv obs" and "i < length obs" and "observed_ok ob" and "uri ob = uri (obs ! i)"
  shows "observed_inv (obs[i := ob])"
  using assms
proof (induction obs arbitrary: i)
  case Nil
  then show ?case by simp
next
  case (Cons a obs)
  show ?case
  proof (cases i)
    case 0
    with Cons.prems show ?thesis by (simp add: observed_inv_Cons)
  next
    case (Suc k)
    with Cons.prems have "observed_inv (obs[k := ob])" by (intro Cons.IH) (simp_all add: observed_inv_Cons)
    moreover have "\<not> same_uri (uri a) (uri b)" if "b \<in> set (obs[k := ob])" for b
      using that Cons.prems Suc set_update_subset_insert [of obs k ob] by (auto simp: observed_inv_Cons)
    ultimately show ?thesis using Cons.prems Suc by (simp add: observed_inv_Cons)
  qed
qed

text \<open>The result of \<^verbatim>\<open>prv_getWatcher\<close> while memory lasts.\<close>

definition watcher_at :: "observed list \<Rightarrow> nat \<times> nat \<Rightarrow> watcher" where
  "watcher_at obs p = watcherList (obs ! fst p) ! snd p"

lemma getWatcher_spec:
  assumes "observed_inv obs"
  obtains obs' i j where "prv_getWatcher obs u srv [] = Inr (obs', Some (i, j), [])"
    and "observed_inv obs'" and "i < length obs'" and "j < length (watcherList (obs' ! i))"
    and "same_uri (uri (obs' ! i)) u" and "server (watcher_at obs' (i, j)) = srv"
proof -
  have live: "\<forall>ob\<in>set obs. \<not> freed ob" using assms by (simp add: observed_inv_def observed_ok_def)
  from find_node_spec [OF live, of "\<lambda>v. same_uri v u"]
  consider "prv_findObserved obs u = Inr None" "\<forall>ob\<in>set obs. \<not> same_uri (uri ob) u"
    | i where "i < length obs" "prv_findObserved obs u = Inr (Some i)" "same_uri (uri (obs ! i)) u"
    unfolding prv_findObserved_def by blast
  then show thesis
  proof cases
    case 1
    let ?ob = "\<lparr>uri = u, watcherList = [new_watcher srv], freed = False\<rparr>"
    have "observed_inv (?ob # obs)"
      using assms 1(2) by (auto simp: observed_inv_Cons observed_ok_def same_uri_sym [of u])
    with 1 show thesis
      by (intro that [of "?ob # obs" 0 0]) (simp_all add: prv_getWatcher_def watcher_at_def)
  next
    case 2
    let ?ws = "watcherList (obs ! i)"
    have ok: "observed_ok (obs ! i)" using assms 2(1) by (simp add: observed_inv_def)
    from findWatcher_spec [of ?ws srv]
    consider "prv_findWatcher ?ws srv = None" "srv \<notin> server ` set ?ws"
      | j where "j < length ?ws" "prv_findWatcher ?ws srv = Some j" "server (?ws ! j) = srv" by auto
    then show thesis
    proof cases
      case new: 1
      let ?ob = "(obs ! i)\<lparr>watcherList := new_watcher srv # ?ws\<rparr>"
      have "observed_inv (obs[i := ?ob])"
        using assms 2(1) ok new(2) by (intro observed_inv_update) (auto simp: observed_ok_def)
      with 2 new show thesis
        by (intro that [of "obs[i := ?ob]" i 0]) (simp_all add: prv_getWatcher_def watcher_at_def)
    next
      case old: 2
      with 2 assms show thesis
        by (intro that [of obs i j]) (simp_all add: prv_getWatcher_def watcher_at_def)
    qed
  qed
qed

lemma cancel_behind_spec:
  "cancel_behind sess mid s ws = Some ws' \<Longrightarrow>
    \<exists>xs w ys. ws = xs @ w # ys \<and> ws' = xs @ ys \<and> lastMid w = mid \<and> sess (server w) \<noteq> s"
proof (induction ws arbitrary: ws')
  case Nil
  then show ?case by simp
next
  case (Cons a ws)
  show ?case
  proof (cases "lastMid a \<noteq> mid \<or> sess (server a) = s")
    case True
    with Cons.prems obtain zs where "cancel_behind sess mid s ws = Some zs" "ws' = a # zs" by auto
    with Cons.IH obtain xs w ys where "ws = xs @ w # ys" "zs = xs @ ys" "lastMid w = mid" "sess (server w) \<noteq> s"
      by blast
    with \<open>ws' = a # zs\<close> show ?thesis by (intro exI [of _ "a # xs"]) auto
  next
    case False
    with Cons.prems show ?thesis by (intro exI [of _ "[]"]) auto
  qed
qed

text \<open>What \<^verbatim>\<open>observe_cancel\<close> does to one node.\<close>

definition cancel_node :: "(server \<Rightarrow> session) \<Rightarrow> u16 \<Rightarrow> session \<Rightarrow> watcher list \<Rightarrow> watcher list option" where
  "cancel_node sess mid s ws =
     (if (LWM2M_MAX_ID = mid \<or> lastMid (hd ws) = mid) \<and> sess (server (hd ws)) = s then Some (tl ws)
      else map_option ((#) (hd ws)) (cancel_behind sess mid s (tl ws)))"

lemma cancel_Cons:
  assumes "observed_ok ob"
  shows "observe_cancel sess mid s (ob # obs) =
    (case cancel_node sess mid s (watcherList ob) of
       Some [] \<Rightarrow> Inr obs
     | Some ws \<Rightarrow> Inr (ob\<lparr>watcherList := ws\<rparr> # obs)
     | None \<Rightarrow> bindE (observe_cancel sess mid s obs) (\<lambda>obs'. Inr (ob # obs')))"
proof -
  obtain w ws where "watcherList ob = w # ws" using assms by (cases "watcherList ob") (auto simp: observed_ok_def)
  then show ?thesis using assms by (simp add: cancel_node_def observed_ok_def Let_def)
qed

declare observe_cancel.simps(2) [simp del]

lemma cancel_node_sub:
  assumes "cancel_node sess mid s ws = Some ws'" and "ws \<noteq> []"
  obtains xs w ys where "ws = xs @ w # ys" and "ws' = xs @ ys"
proof (cases "(LWM2M_MAX_ID = mid \<or> lastMid (hd ws) = mid) \<and> sess (server (hd ws)) = s")
  case True
  with assms show thesis by (intro that [of "[]" "hd ws" "tl ws"]) (auto simp: cancel_node_def)
next
  case False
  then obtain zs where z: "cancel_behind sess mid s (tl ws) = Some zs" "ws' = hd ws # zs"
    using assms(1) by (auto simp: cancel_node_def)
  from cancel_behind_spec [OF z(1)] obtain xs w ys where "tl ws = xs @ w # ys" "zs = xs @ ys" by blast
  then have "ws = (hd ws # xs) @ w # ys" and "ws' = (hd ws # xs) @ ys"
    using assms(2) z(2) by (auto simp: neq_Nil_conv)
  then show thesis by (rule that)
qed

section \<open>The list over the life of a client\<close>

text \<open>
  The steps of the list while memory lasts: a watcher is looked up or made, its fields are set, a
  server cancels, resources change.
\<close>

inductive obs_step :: "observed list \<Rightarrow> observed list \<Rightarrow> bool" where
  obs_watch: "prv_getWatcher obs u srv [] = Inr (obs', p, m) \<Longrightarrow> obs_step obs obs'"
| obs_set: "i < length obs \<Longrightarrow> map server ws = map server (watcherList (obs ! i))
    \<Longrightarrow> obs_step obs (obs[i := (obs ! i)\<lparr>watcherList := ws\<rparr>])"
| obs_cancel: "observe_cancel sess mid s obs = Inr obs' \<Longrightarrow> obs_step obs obs'"
| obs_changed: "lwm2m_resource_value_changed u obs = Inr obs' \<Longrightarrow> obs_step obs obs'"

lemma cancel_inv:
  assumes "observed_inv obs" and "observe_cancel sess mid s obs = Inr obs'"
  shows "observed_inv obs' \<and> uri ` set obs' \<subseteq> uri ` set obs"
  using assms
proof (induction obs arbitrary: obs')
  case Nil
  then show ?case by simp
next
  case (Cons ob obs)
  have ok: "observed_ok ob" and inv: "observed_inv obs" using Cons.prems(1) by (simp_all add: observed_inv_Cons)
  then have ne: "watcherList ob \<noteq> []" by (simp add: observed_ok_def)
  show ?case
  proof (cases "cancel_node sess mid s (watcherList ob)")
    case None
    with Cons.prems(2) obtain os where os: "observe_cancel sess mid s obs = Inr os" "obs' = ob # os"
      by (auto simp: cancel_Cons [OF ok] bindE_Inr_iff)
    with Cons.IH [OF inv] Cons.prems(1) show ?thesis by (auto simp: observed_inv_Cons)
  next
    case (Some ws)
    obtain xs w ys where ws: "watcherList ob = xs @ w # ys" "ws = xs @ ys"
      using cancel_node_sub [OF Some ne] .
    then have "distinct (map server ws)" using ok by (auto simp: observed_ok_def)
    then show ?thesis using Cons.prems Some ok ne
      by (auto simp: cancel_Cons [OF ok] observed_inv_Cons observed_ok_def split: list.splits)
  qed
qed

lemma changed_inv:
  "lwm2m_resource_value_changed u obs = Inr obs' \<Longrightarrow> observed_inv obs \<Longrightarrow>
   observed_inv obs' \<and> map uri obs' = map uri obs"
proof (induction obs arbitrary: obs')
  case Nil
  then show ?case by simp
next
  case (Cons ob obs)
  then obtain os where os: "lwm2m_resource_value_changed u obs = Inr os"
    "obs' = (if concerned (uri ob) u then ob\<lparr>watcherList := map tag_watcher (watcherList ob)\<rparr> else ob) # os"
    by (auto simp: bindE_Inr_iff split: if_splits)
  have inv: "observed_inv obs" using Cons.prems(2) by (simp add: observed_inv_Cons)
  have servers: "map server (map tag_watcher ws) = map server ws" for ws by (simp add: tag_watcher_def)
  from Cons.IH [OF os(1) inv] have inv': "observed_inv os" and uris: "map uri os = map uri obs" by simp_all
  define ob' where "ob' = (if concerned (uri ob) u then ob\<lparr>watcherList := map tag_watcher (watcherList ob)\<rparr> else ob)"
  have ob: "uri ob' = uri ob" and "observed_ok ob'"
    using Cons.prems(2) servers by (simp_all add: ob'_def observed_inv_Cons observed_ok_def del: map_map)
  moreover have "\<forall>v\<in>set (map uri os). \<not> same_uri (uri ob) v"
    using Cons.prems(2) unfolding uris by (simp add: observed_inv_Cons)
  ultimately have "observed_inv (ob' # os)" using inv' by (simp add: observed_inv_Cons)
  then show ?case using os(2) uris ob unfolding ob'_def [symmetric] by simp
qed

lemma step_inv: "obs_step obs obs' \<Longrightarrow> observed_inv obs \<Longrightarrow> observed_inv obs'"
proof (induction rule: obs_step.induct)
  case (obs_watch obs u srv obs' p m)
  then show ?case by (metis getWatcher_spec Inr_inject Pair_inject)
next
  case (obs_set i obs ws)
  have "watcherList (obs ! i) \<noteq> []" and "\<not> freed (obs ! i)" and "distinct (map server (watcherList (obs ! i)))"
    using obs_set.hyps(1) obs_set.prems by (simp_all add: observed_inv_def observed_ok_def)
  moreover from this obs_set.hyps(2) have "ws \<noteq> []" by auto
  ultimately show ?case using obs_set by (intro observed_inv_update) (simp_all add: observed_ok_def)
next
  case (obs_cancel sess mid s obs obs')
  then show ?case using cancel_inv by blast
next
  case (obs_changed u obs obs')
  then show ?case using changed_inv by blast
qed

interpretation observed_steps: step_invariant obs_step observed_inv
  by unfold_locales (rule step_inv)

lemma cancel_ok: "observed_inv obs \<Longrightarrow> ok (observe_cancel sess mid s obs)"
proof (induction obs)
  case Nil
  then show ?case by simp
next
  case (Cons ob obs)
  then have "ok (observe_cancel sess mid s obs)" and "observed_ok ob" by (simp_all add: observed_inv_Cons)
  then show ?case by (auto simp: cancel_Cons ok_iff split: option.split list.split)
qed

lemma find_ok: "observed_inv obs \<Longrightarrow> ok (find_node p obs)"
  using find_node_spec [of obs p] by (auto simp: observed_inv_def observed_ok_def)

lemma changed_ok: "observed_inv obs \<Longrightarrow> ok (lwm2m_resource_value_changed u obs)"
  by (induction obs) (auto simp: observed_inv_Cons observed_ok_def ok_bindE ok_iff)

lemma getWatcher_ok: "observed_inv obs \<Longrightarrow> ok (prv_getWatcher obs u srv m)"
  using find_ok [of obs "\<lambda>v. same_uri v u"]
  by (auto simp: prv_getWatcher_def prv_findObserved_def ok_iff Let_def split: option.split prod.split bool.split)


section \<open>What a cancellation cancels\<close>

definition ex_uri :: "u16 \<Rightarrow> lwm2m_uri" where
  "ex_uri r = \<lparr>flag = 7, objectId = 3, instanceId = 0, resourceId = r\<rparr>"


text \<open>
  A request to cancel an observation names its URI, but the URI is not used: what is removed is the
  watcher of the asking session in the first node whose first watcher it is.
\<close>

theorem observe_cancel_first:
  assumes "observed_inv (obs @ ob # rest)" and "watcherList ob = w # ws" and "sess (server w) = s"
    and "\<forall>a\<in>set obs. sess (server (hd (watcherList a))) \<noteq> s
      \<and> (\<forall>x\<in>set (tl (watcherList a)). lastMid x \<noteq> LWM2M_MAX_ID)"
  shows "observe_cancel sess LWM2M_MAX_ID s (obs @ ob # rest)
    = Inr (obs @ (if ws = [] then rest else ob\<lparr>watcherList := ws\<rparr> # rest))"
  using assms
proof (induction obs)
  case Nil
  then have "observed_ok ob" by (simp add: observed_inv_Cons)
  with Nil show ?case by (simp add: cancel_Cons cancel_node_def split: list.split)
next
  case (Cons a obs)
  have none: "cancel_behind sess LWM2M_MAX_ID s ws' = None"
    if "\<forall>x\<in>set ws'. lastMid x \<noteq> LWM2M_MAX_ID" for ws'
    using that by (induction ws') simp_all
  have "observed_ok a" using Cons.prems(1) by (simp add: observed_inv_Cons)
  moreover have "cancel_node sess LWM2M_MAX_ID s (watcherList a) = None"
    using Cons.prems(4) by (simp add: cancel_node_def none)
  ultimately show ?case using Cons by (simp add: cancel_Cons observed_inv_Cons)
qed

lemma observe_cancel_first_witness:
  "observe_cancel (\<lambda>srv. srv) LWM2M_MAX_ID 5
     ([] @ \<lparr>uri = ex_uri 9, watcherList = [new_watcher 5], freed = False\<rparr>
       # [\<lparr>uri = ex_uri 1, watcherList = [new_watcher 5], freed = False\<rparr>])
   = Inr ([] @ (if ([] :: watcher list) = []
       then [\<lparr>uri = ex_uri 1, watcherList = [new_watcher 5], freed = False\<rparr>]
       else \<lparr>uri = ex_uri 9, watcherList = [new_watcher 5], freed = False\<rparr>\<lparr>watcherList := []\<rparr>
         # [\<lparr>uri = ex_uri 1, watcherList = [new_watcher 5], freed = False\<rparr>]))"
  by (rule observe_cancel_first [where w = "new_watcher 5"])
    (simp_all add: observed_inv_Cons observed_ok_def same_uri_def ex_uri_def is_set_instance_def is_set_resource_def)

text \<open>
  Behind the first watcher of a node the test of the session is inverted: a server that is not the
  first watcher cannot cancel its own observation, and a message id that two servers share removes
  the watcher of the wrong one.
\<close>

theorem observe_cancel_inverted:
  assumes "observed_ok ob" and "watcherList ob = w # xs @ x # ys"
    and "\<forall>y\<in>set xs. lastMid y \<noteq> mid" and "lastMid x = mid" and "mid \<noteq> LWM2M_MAX_ID"
    and "sess (server w) \<noteq> s \<or> lastMid w \<noteq> mid" and "\<forall>y\<in>set ys. lastMid y \<noteq> mid"
  shows "observe_cancel sess mid s (ob # rest) =
    (if sess (server x) = s then bindE (observe_cancel sess mid s rest) (\<lambda>rest'. Inr (ob # rest'))
     else Inr (ob\<lparr>watcherList := w # xs @ ys\<rparr> # rest))"
proof -
  have none: "cancel_behind sess mid s ys = None"
    using assms(7) by (induction ys) simp_all
  have "cancel_behind sess mid s (xs @ x # ys) = (if sess (server x) = s then None else Some (xs @ ys))"
    using assms(3) by (induction xs) (simp_all add: assms(4) none)
  then have "cancel_node sess mid s (watcherList ob)
      = (if sess (server x) = s then None else Some (w # xs @ ys))"
    using assms(2,5,6) by (auto simp: cancel_node_def)
  then show ?thesis using cancel_Cons [OF assms(1), of sess mid s rest] by simp
qed

lemma observe_cancel_inverted_witness:
  "observe_cancel (\<lambda>srv. srv) 7 2
     (\<lparr>uri = ex_uri 9, watcherList = new_watcher 1 # [] @ (new_watcher 2)\<lparr>lastMid := 7\<rparr> # [], freed = False\<rparr> # []) =
    (if server ((new_watcher 2)\<lparr>lastMid := 7\<rparr>) = 2
     then bindE (observe_cancel (\<lambda>srv. srv) 7 2 [])
       (\<lambda>rest'. Inr (\<lparr>uri = ex_uri 9, watcherList = new_watcher 1 # [] @ (new_watcher 2)\<lparr>lastMid := 7\<rparr> # [], freed = False\<rparr> # rest'))
     else Inr (\<lparr>uri = ex_uri 9, watcherList = new_watcher 1 # [] @ (new_watcher 2)\<lparr>lastMid := 7\<rparr> # [], freed = False\<rparr>
       \<lparr>watcherList := new_watcher 1 # [] @ []\<rparr> # []))"
  by (rule observe_cancel_inverted) (simp_all add: observed_ok_def)

text \<open>
  When the node of a new observation can be allocated and its watcher cannot, the node is freed but
  stays at the head of the list: whatever is looked up next reads freed memory.
\<close>

theorem observe_dangling_node:
  assumes "prv_findObserved obs u = Inr None"
  shows "bindE (prv_getWatcher obs u srv [True, False]) (\<lambda>(obs', p, m). prv_findObserved obs' v) = Inl UseAfterFree
    \<and> bindE (prv_getWatcher obs u srv [True, False]) (\<lambda>(obs', p, m). observe_cancel sess mid s obs') = Inl UseAfterFree"
  using assms by (simp add: prv_getWatcher_def prv_findObserved_def observe_cancel.simps)

lemma observe_dangling_node_witness:
  "bindE (prv_getWatcher [] (ex_uri 9) 1 [True, False]) (\<lambda>(obs', p, m). prv_findObserved obs' (ex_uri 9)) = Inl UseAfterFree
    \<and> bindE (prv_getWatcher [] (ex_uri 9) 1 [True, False]) (\<lambda>(obs', p, m). observe_cancel (\<lambda>srv. srv) 7 1 obs') = Inl UseAfterFree"
  by (rule observe_dangling_node) (simp add: prv_findObserved_def)

end
