(* ===== verification/Float_Text.thy ===== *)
theory Float_Text
imports Lwm2m_Utils Ieee
begin

text \<open>
  The rest of the text conversions of \<^verbatim>\<open>external/wakaama/utils.c\<close>: a \<^verbatim>\<open>double\<close> as decimal text, and
  what the text of an integer looks like in a buffer of any size.
\<close>

section \<open>A double as text\<close>

text \<open>The magnitude of \<^verbatim>\<open>(int64_t)x\<close>.\<close>

definition dbl_trunc :: "double \<Rightarrow> int" where
  "dbl_trunc x = (case double_ratio x of (n, d) \<Rightarrow> n div d)"

text \<open>
  The magnitude of \<^verbatim>\<open>data - intPart\<close>. It is a double whatever the number is, so nothing is rounded
  away.
\<close>

definition dbl_frac :: "double \<Rightarrow> double" where
  "dbl_frac x = (case double_ratio x of (n, d) \<Rightarrow> double_of_ratio False (n mod d) d)"

text \<open>\<^verbatim>\<open>FLT_EPSILON\<close> and the float \<^verbatim>\<open>1 + FLT_EPSILON\<close>, as doubles.\<close>

definition FLT_EPSILON :: double where "FLT_EPSILON = 0x3E80000000000000"
definition ONE_EPSILON :: double where "ONE_EPSILON = 0x3FF0000020000000"

text \<open>
  \<^verbatim>\<open>decPart - (int64_t)decPart > noiseFloor\<close>. The difference of a double that is at least one and its
  integer part is a double, so it is compared as the ratio it is.
\<close>

definition above_noise :: "double \<Rightarrow> double \<Rightarrow> bool" where
  "above_noise x noise =
     (case double_ratio x of (n, d) \<Rightarrow> case double_ratio noise of (p, q) \<Rightarrow> p * d < (n mod d) * q)"

text \<open>
  The do-while loop that makes the decimals an integer. The noise floors of its rounds depend on
  nothing: \<open>noise_floors\<close> lists those of the first seven, and the seventh is above one, where the
  loop stops whatever the number is.
\<close>

fun noise_from :: "nat \<Rightarrow> double \<Rightarrow> double list" where
  "noise_from 0 noiseFloor = []"
| "noise_from (Suc k) noiseFloor =
     (let noiseFloor' = dbl_mul noiseFloor (double_of_nat 10) in noiseFloor' # noise_from k noiseFloor')"

definition noise_floors :: "double list" where
  "noise_floors = noise_from 7 FLT_EPSILON"

fun shift_decimals :: "double list \<Rightarrow> double \<Rightarrow> double" where
  "shift_decimals [] decPart = decPart"
| "shift_decimals (noiseFloor # rest) decPart =
     (let decPart' = dbl_mul decPart (double_of_nat 10) in
      if above_noise decPart' noiseFloor then shift_decimals rest decPart' else decPart')"

text \<open>
  The text is what is left at the start of the buffer, \<open>[]\<close> is the result 0. A NaN passes the test of
  the range, and its conversion to an integer is undefined.
\<close>

definition utils_floatToText :: "double \<Rightarrow> nat \<Rightarrow> byte list res" where
  "utils_floatToText data len =
     (if double_nan data then Inl SignedOverflow
      else if 0x43E0000000000000 \<le> double_mag data then Inr []
      else
        let intMag = dbl_trunc data;
            intPart = (word_of_int (if double_neg data then - intMag else intMag) :: i64);
            dec = dbl_add (double_of_nat 1) (dbl_frac data);
            decPart = (if dbl_less ONE_EPSILON dec then dec else 0) in
        bindE
          (if intMag = 0 \<and> double_neg data \<and> double_mag data \<noteq> 0 then
             Inr (if len < 4 then [] else bytes ''-0'')
           else utils_intToText intPart len) (\<lambda>text.
          if text = [] then Inr []
          else if decPart = 0 then Inr text
          else if len - 1 \<le> length text then Inr []
          else
            bindE (utils_intToText (word_of_int (dbl_trunc (shift_decimals noise_floors decPart)))
                     (len - length text)) (\<lambda>decimals.
              if length decimals \<le> 1 then Inr []
              else Inr (text @ 46 # tl decimals))))"

definition utils_float64ToPlainText :: "double \<Rightarrow> mem \<Rightarrow> (byte list \<times> mem) res" where
  "utils_float64ToPlainText data m =
     bindE (utils_floatToText data (PRV_STR_LENGTH * 2)) (\<lambda>text.
       if text = [] then Inr ([], m)
       else case lwm2m_malloc m of
         (False, m') \<Rightarrow> Inr ([], m')
       | (True, m') \<Rightarrow> Inr (text, m'))"

section \<open>Examples\<close>

text \<open>
  Evaluation: the operations with their intermediate results as arguments, so that each is a number
  before it is used.
\<close>

definition rounded_at :: "int \<Rightarrow> int \<Rightarrow> int \<Rightarrow> int \<Rightarrow> int \<Rightarrow> int" where
  "rounded_at p emin q n d =
     (q + p - emin) * pow2 p + round_quotient (fst (scaled (- q) n d)) (snd (scaled (- q) n d))"

definition exponent_at :: "int \<Rightarrow> int \<Rightarrow> int \<Rightarrow> int" where
  "exponent_at e n d = (if fst (scaled (- e) n d) < snd (scaled (- e) n d) then e - 1 else e)"

lemma round_ratio_eval:
  "round_ratio p emin pinf n d =
     (if n = 0 then 0 else min pinf (rounded_at p emin (max (ratio_exponent n d) emin - p) n d))"
  by (simp add: round_ratio_def rounded_at_def Let_def split_beta)

lemma ratio_exponent_eval: "ratio_exponent n d = exponent_at (bit_count n - bit_count d) n d"
  by (simp add: ratio_exponent_def exponent_at_def Let_def split_beta)

lemma dbl_eval:
  "dbl_mul x y = double_of_ratio False (fst (double_ratio x) * fst (double_ratio y))
     (snd (double_ratio x) * snd (double_ratio y))"
  "dbl_add x y = double_of_ratio False (fst (double_ratio x) * snd (double_ratio y)
     + fst (double_ratio y) * snd (double_ratio x)) (snd (double_ratio x) * snd (double_ratio y))"
  "dbl_frac x = double_of_ratio False (fst (double_ratio x) mod snd (double_ratio x)) (snd (double_ratio x))"
  "dbl_trunc x = fst (double_ratio x) div snd (double_ratio x)"
  "above_noise x y \<longleftrightarrow> fst (double_ratio y) * snd (double_ratio x)
     < (fst (double_ratio x) mod snd (double_ratio x)) * snd (double_ratio y)"
  by (simp_all add: dbl_mul_def dbl_add_def dbl_frac_def dbl_trunc_def above_noise_def split_beta)

lemmas float_eval = round_ratio_eval rounded_at_def ratio_exponent_eval exponent_at_def dbl_eval
  double_of_ratio_def scaled_def bit_count.simps pow2.simps double_ratio_def double_mag_def
  double_neg_def double_nan_def dbl_less_def double_of_nat_def round_quotient_def
  FLT_EPSILON_def ONE_EPSILON_def


lemma pow2_pos: "0 < pow2 k"
proof (induction k rule: pow2.induct)
  case (1 k)
  then show ?case by (cases "k \<le> 0") (simp_all add: pow2.simps [of k] Let_def)
qed

lemma double_ratio_pos: "double_ratio x = (n, d) \<Longrightarrow> 0 < d"
  by (auto simp: double_ratio_def scaled_def Let_def pow2_pos split: if_splits)

lemma noise_floors_eval: "noise_floors =
    [0x3EB4000000000000, 0x3EE9000000000000, 0x3F1F400000000000, 0x3F53880000000000,
     0x3F886A0000000000, 0x3FBE848000000000, 0x3FF312D000000000]"
proof -
  have m0: "dbl_mul FLT_EPSILON (double_of_nat 10) = 0x3EB4000000000000" by (simp add: float_eval)
  have m1: "dbl_mul 0x3EB4000000000000 (double_of_nat 10) = 0x3EE9000000000000" by (simp add: float_eval)
  have m2: "dbl_mul 0x3EE9000000000000 (double_of_nat 10) = 0x3F1F400000000000" by (simp add: float_eval)
  have m3: "dbl_mul 0x3F1F400000000000 (double_of_nat 10) = 0x3F53880000000000" by (simp add: float_eval)
  have m4: "dbl_mul 0x3F53880000000000 (double_of_nat 10) = 0x3F886A0000000000" by (simp add: float_eval)
  have m5: "dbl_mul 0x3F886A0000000000 (double_of_nat 10) = 0x3FBE848000000000" by (simp add: float_eval)
  have m6: "dbl_mul 0x3FBE848000000000 (double_of_nat 10) = 0x3FF312D000000000" by (simp add: float_eval)
  have "noise_from 7 FLT_EPSILON = noise_from (Suc (Suc (Suc (Suc (Suc (Suc (Suc 0))))))) FLT_EPSILON"
    by (simp add: eval_nat_numeral del: noise_from.simps)
  then show ?thesis by (simp only: noise_floors_def noise_from.simps Let_def m0 m1 m2 m3 m4 m5 m6)
qed

text \<open>The seventh noise floor is above one, so the loop stops there at the latest.\<close>

lemma noise_floors_end:
  shows "length noise_floors = 7" and "\<not> above_noise x (noise_floors ! 6)"
proof -
  show "length noise_floors = 7" by (simp add: noise_floors_eval)
  have last: "double_ratio (noise_floors ! 6) = (5368709120000000, 4503599627370496)"
    by (simp add: noise_floors_eval float_eval)
  obtain n d where x: "double_ratio x = (n, d)" by (cases "double_ratio x")
  then have d: "0 < d" by (simp add: double_ratio_pos)
  have "\<not> 78125 * d < 65536 * (n mod d)" using d pos_mod_bound [OF d, of n] by linarith
  then show "\<not> above_noise x (noise_floors ! 6)" by (simp add: above_noise_def x last)
qed

lemma float_text_eval:
  assumes "\<not> double_nan x" and "double_mag x < 0x43E0000000000000"
    and "dbl_trunc x = k" and "dbl_add (double_of_nat 1) (dbl_frac x) = dec"
    and "dbl_less ONE_EPSILON dec" and "dec \<noteq> 0"
    and "dbl_trunc (shift_decimals noise_floors dec) = q"
  shows "utils_floatToText x len =
    bindE
      (if k = 0 \<and> double_neg x \<and> double_mag x \<noteq> 0 then Inr (if len < 4 then [] else bytes ''-0'')
       else utils_intToText (word_of_int (if double_neg x then - k else k)) len) (\<lambda>text.
      if text = [] then Inr []
      else if len - 1 \<le> length text then Inr []
      else bindE (utils_intToText (word_of_int q) (len - length text)) (\<lambda>decimals.
        if length decimals \<le> 1 then Inr [] else Inr (text @ 46 # tl decimals)))"
  using assms by (simp add: utils_floatToText_def Let_def cong: if_cong)

text \<open>
  Texts of simple fractions are exact. The largest double below one becomes 0.0: the leading one
  that is added to the decimals rounds the sum up to two, and the digit is then replaced by the
  dot.
\<close>

lemma float_text_exact: "utils_floatToText 0xC009000000000000 64 = Inr (bytes ''-3.125'')"
proof -
  have k: "dbl_trunc 0xC009000000000000 = 3" by (simp add: float_eval)
  have dec: "dbl_add (double_of_nat 1) (dbl_frac 0xC009000000000000) = 0x3FF2000000000000"
    by (simp add: float_eval)
  have q: "dbl_trunc (shift_decimals noise_floors 0x3FF2000000000000) = 1125"
    unfolding noise_floors_eval by (simp add: float_eval)
  show ?thesis
    by (subst float_text_eval [OF _ _ k dec _ _ q])
      (simp_all add: float_eval utils_intToText_def text_digits.simps bytes_def)
qed

lemma float_text_below_one: "utils_floatToText 0x3FEFFFFFFFFFFFFF 64 = Inr (bytes ''0.0'')"
proof -
  have k: "dbl_trunc 0x3FEFFFFFFFFFFFFF = 0" by (simp add: float_eval)
  have dec: "dbl_add (double_of_nat 1) (dbl_frac 0x3FEFFFFFFFFFFFFF) = 0x4000000000000000"
    by (simp add: float_eval)
  have q: "dbl_trunc (shift_decimals noise_floors 0x4000000000000000) = 20"
    unfolding noise_floors_eval by (simp add: float_eval)
  show ?thesis
    by (subst float_text_eval [OF _ _ k dec _ _ q])
      (simp_all add: float_eval utils_intToText_def text_digits.simps bytes_def)
qed

section \<open>The text of an integer in a small buffer\<close>

lemma text_digits_length:
  "0 \<le> index \<Longrightarrow> text_digits index d acc = (i, d', t) \<Longrightarrow> length t \<le> length acc + nat (index + 1)"
proof (induction index d acc rule: text_digits.induct)
  case (1 index d acc)
  show ?case
  proof (cases "0 \<le> index - 1 \<and> 0 < d div 10")
    case True
    with "1.prems"(2) have "text_digits (index - 1) (d div 10) ((48 + word_of_nat (d mod 10)) # acc) = (i, d', t)"
      by (simp add: text_digits.simps [of index])
    moreover have "Suc (nat index) = nat (index + 1)" using True by linarith
    ultimately show ?thesis using "1.IH" [OF refl refl refl True] True by simp
  next
    case False
    with "1.prems" show ?thesis by (auto simp: text_digits.simps [of index] Let_def)
  qed
qed

lemma intToText_nonneg:
  assumes "0 \<le> sint v" and "0 < len"
  shows "\<exists>t. utils_intToText v len = Inr t \<and> length t \<le> len"
proof -
  obtain i d' t where t: "text_digits (int len - 1) (nat \<bar>sint v\<bar>) [] = (i, d', t)"
    by (metis surj_pair)
  then have "length t \<le> len" using text_digits_length [OF _ t] assms(2) by simp
  then show ?thesis using t assms by (simp add: utils_intToText_def Let_def)
qed

end
