(* ===== verification/Discover.thy ===== *)
theory Discover
imports Observed Float_Text
begin

text \<open>
  The link format a client answers a discover request with, \<^verbatim>\<open>external/wakaama/discover.c\<close>. \<open>obs\<close> is
  the list of observations, \<open>None\<close> when \<^verbatim>\<open>contextP\<close> is null; \<open>srv\<close> is \<^verbatim>\<open>serverP\<close>. Text that is
  written into a buffer is the list of the bytes written so far.
\<close>

unbundle bit_operations_syntax

section \<open>Text in a bounded buffer\<close>

text \<open>
  \<open>None\<close> is the \<^verbatim>\<open>return -1\<close> of \<^verbatim>\<open>PRV_CONCAT_STR\<close> and of the tests behind \<^verbatim>\<open>utils_intToText\<close>; \<open>cap\<close> is
  the size of the buffer.
\<close>

definition bindO :: "'a option res \<Rightarrow> ('a \<Rightarrow> 'b option res) \<Rightarrow> 'b option res" where
  "bindO r f = bindE r (\<lambda>x. case x of None \<Rightarrow> Inr None | Some y \<Rightarrow> f y)"

definition PRV_CONCAT_STR :: "nat \<Rightarrow> byte list \<Rightarrow> byte list \<Rightarrow> byte list option res" where
  "PRV_CONCAT_STR cap s out = Inr (if cap - length out < length s then None else Some (out @ s))"

definition concat_int :: "nat \<Rightarrow> i64 \<Rightarrow> byte list \<Rightarrow> byte list option res" where
  "concat_int cap v out =
     bindE (utils_intToText v (cap - length out)) (\<lambda>t. Inr (if t = [] then None else Some (out @ t)))"

definition concat_float :: "nat \<Rightarrow> double \<Rightarrow> byte list \<Rightarrow> byte list option res" where
  "concat_float cap v out =
     bindE (utils_floatToText v (cap - length out)) (\<lambda>t. Inr (if t = [] then None else Some (out @ t)))"

lemma bindO_simps [simp]:
  "bindO (Inl e) f = Inl e" "bindO (Inr None) f = Inr None" "bindO (Inr (Some x)) f = f x"
  by (simp_all add: bindO_def)

lemma bindO_Some: "bindO r f = Inr (Some y) \<longleftrightarrow> (\<exists>x. r = Inr (Some x) \<and> f x = Inr (Some y))"
  by (auto simp: bindO_def bindE_Inr_iff split: option.splits)

section \<open>Attributes\<close>

text \<open>The loop runs to the end: of several watchers of one server the last one counts.\<close>

definition prv_findAttributes ::
    "observed list option \<Rightarrow> lwm2m_uri \<Rightarrow> server option \<Rightarrow> lwm2m_attributes option res" where
  "prv_findAttributes obs u srv =
     (case (obs, srv) of
        (Some os, Some s) \<Rightarrow>
          bindE (observe_findByUri os u) (\<lambda>r. Inr (case r of
            None \<Rightarrow> None
          | Some i \<Rightarrow>
              fold (\<lambda>w p. if server w = s then parameters w else p) (watcherList (os ! i)) None))
      | _ \<Rightarrow> Inr None)"

text \<open>
  A period: the own value, or the one inherited from the object. The inherited attributes are read
  whenever the own flag is not set, without a test that there are any.
\<close>

definition put_period ::
    "nat \<Rightarrow> byte \<Rightarrow> (lwm2m_attributes \<Rightarrow> u32) \<Rightarrow> string \<Rightarrow> lwm2m_attributes \<Rightarrow> lwm2m_attributes option
     \<Rightarrow> byte list \<Rightarrow> byte list option res" where
  "put_period cap f get name own inherited out =
     (let put = (\<lambda>a. bindO (PRV_CONCAT_STR cap (bytes '';'') out) (\<lambda>o1.
                     bindO (PRV_CONCAT_STR cap (bytes name) o1) (concat_int cap (ucast (get a))))) in
      if sets own f then put own
      else case inherited of
        None \<Rightarrow> Inl NullDeref
      | Some a \<Rightarrow> if sets a f then put a else Inr (Some out))"

definition put_limit ::
    "nat \<Rightarrow> byte \<Rightarrow> (lwm2m_attributes \<Rightarrow> double) \<Rightarrow> string \<Rightarrow> lwm2m_attributes \<Rightarrow> byte list \<Rightarrow> byte list option res" where
  "put_limit cap f get name own out =
     (if sets own f then
        bindO (PRV_CONCAT_STR cap (bytes '';'') out) (\<lambda>o1.
        bindO (PRV_CONCAT_STR cap (bytes name) o1) (concat_float cap (get own)))
      else Inr (Some out))"

text \<open>
  \<open>head\<close> is the text in front of the attributes, up to \<^verbatim>\<open>uriLen\<close>. The result is the whole text;
  without attributes it is \<open>None\<close> inside and the returned length 0.
\<close>

definition prv_serializeAttributes ::
    "observed list option \<Rightarrow> lwm2m_uri \<Rightarrow> server option \<Rightarrow> lwm2m_attributes option \<Rightarrow> byte list \<Rightarrow> nat
     \<Rightarrow> byte list option option res" where
  "prv_serializeAttributes obs u srv objectParam head cap =
     bindE (prv_findAttributes obs u srv) (\<lambda>found.
       case (case found of None \<Rightarrow> objectParam | Some a \<Rightarrow> Some a) of
         None \<Rightarrow> Inr (Some None)
       | Some own \<Rightarrow>
           bindO (put_period cap ATTR_FLAG_MIN_PERIOD minPeriod ''pmin='' own objectParam head) (\<lambda>o1.
           bindO (put_period cap ATTR_FLAG_MAX_PERIOD maxPeriod ''pmax='' own objectParam o1) (\<lambda>o2.
           bindO (put_limit cap ATTR_FLAG_GREATER_THAN greaterThan ''gt='' own o2) (\<lambda>o3.
           bindO (put_limit cap ATTR_FLAG_LESS_THAN lessThan ''lt='' own o3) (\<lambda>o4.
           bindO (put_limit cap ATTR_FLAG_STEP step ''stp='' own o4) (\<lambda>o5.
           bindO (PRV_CONCAT_STR cap (bytes '','') o5) (\<lambda>o6. Inr (Some (Some o6)))))))))"

section \<open>Links\<close>

definition URI_MAX_STRING_LEN :: nat where "URI_MAX_STRING_LEN = 18"

text \<open>
  The attributes of a link replace its final comma. \<open>out\<close> is the text so far.
\<close>

definition add_attributes ::
    "observed list option \<Rightarrow> lwm2m_uri \<Rightarrow> server option \<Rightarrow> lwm2m_attributes option \<Rightarrow> byte list \<Rightarrow> nat
     \<Rightarrow> byte list option res" where
  "add_attributes obs u srv objectParam out cap =
     (if srv = None then Inr (Some out)
      else bindO (prv_serializeAttributes obs u srv objectParam (butlast out) cap) (\<lambda>r.
        Inr (Some (case r of None \<Rightarrow> out | Some t \<Rightarrow> t))))"

text \<open>The link of a resource; \<open>dim\<close> is the number of instances of a multiple resource.\<close>

definition resource_link ::
    "observed list option \<Rightarrow> server option \<Rightarrow> lwm2m_attributes option \<Rightarrow> lwm2m_uri \<Rightarrow> byte list \<Rightarrow> nat
     \<Rightarrow> u16 \<Rightarrow> nat option \<Rightarrow> byte list option res" where
  "resource_link obs srv objectParam parent parentStr cap i dim =
     bindO (PRV_CONCAT_STR cap (bytes ''<'') []) (\<lambda>o1.
     bindO (PRV_CONCAT_STR cap parentStr o1) (\<lambda>o2.
     bindO (PRV_CONCAT_STR cap (bytes ''/'') o2) (\<lambda>o3.
     bindO (concat_int cap (ucast i) o3) (\<lambda>o4.
     bindO
       (case dim of
          Some n \<Rightarrow>
            bindO (PRV_CONCAT_STR cap (bytes ''>;dim='') o4) (\<lambda>o5.
            bindO (concat_int cap (word_of_nat n) o5) (PRV_CONCAT_STR cap (bytes '','')))
        | None \<Rightarrow> PRV_CONCAT_STR cap (bytes ''>,'') o4) (\<lambda>o6.
       add_attributes obs (parent\<lparr>resourceId := i, flag := flag parent OR FLAG_RESOURCE_ID\<rparr>) srv
         objectParam o6 cap)))))"

text \<open>
  The path of an instance, and its link. An instance without attributes of its own is not listed
  to a server: the text is rewound.
\<close>

definition instance_path :: "byte list \<Rightarrow> u16 \<Rightarrow> byte list option res" where
  "instance_path parentStr i =
     (if URI_MAX_STRING_LEN < length parentStr then Inr None
      else bindO (PRV_CONCAT_STR URI_MAX_STRING_LEN (bytes ''/'') parentStr)
        (concat_int URI_MAX_STRING_LEN (ucast i)))"

definition instance_link ::
    "observed list option \<Rightarrow> server option \<Rightarrow> lwm2m_uri \<Rightarrow> byte list \<Rightarrow> nat \<Rightarrow> byte list option res" where
  "instance_link obs srv u uriStr cap =
     bindO (PRV_CONCAT_STR cap (bytes ''<'') []) (\<lambda>o1.
     bindO (PRV_CONCAT_STR cap uriStr o1) (\<lambda>o2.
     bindO (PRV_CONCAT_STR cap (bytes ''>,'') o2) (\<lambda>o3.
       if srv = None then Inr (Some o3)
       else bindO (prv_serializeAttributes obs u srv None (butlast o3) cap) (\<lambda>r.
         Inr (Some (case r of
           None \<Rightarrow> []
         | Some t \<Rightarrow> if length t = length o3 then [] else t))))))"

text \<open>\<open>prv_serializeLinks\<close> is the loop over the children, \<open>n\<close> of which are left.\<close>

fun prv_serializeLinkData ::
    "observed list option \<Rightarrow> lwm2m_data \<Rightarrow> server option \<Rightarrow> lwm2m_attributes option \<Rightarrow> lwm2m_uri \<Rightarrow> byte list
     \<Rightarrow> nat \<Rightarrow> byte list option res"
and prv_serializeLinks ::
    "observed list option \<Rightarrow> nat \<Rightarrow> lwm2m_data list \<Rightarrow> server option \<Rightarrow> lwm2m_attributes option \<Rightarrow> lwm2m_uri \<Rightarrow> byte list
     \<Rightarrow> nat \<Rightarrow> byte list \<Rightarrow> byte list option res" where
  "prv_serializeLinkData obs (Data i v) srv objectParam parent parentStr cap =
     (case v of
        V_object _ _ \<Rightarrow> Inr None
      | V_object_instance n xs \<Rightarrow>
          bindO (instance_path parentStr i) (\<lambda>uriStr.
            let u = parent\<lparr>instanceId := i, flag := flag parent OR FLAG_INSTANCE_ID\<rparr> in
            bindO (instance_link obs srv u uriStr cap) (prv_serializeLinks obs n xs srv objectParam u uriStr cap))
      | V_multiple n xs \<Rightarrow> resource_link obs srv objectParam parent parentStr cap i (Some n)
      | _ \<Rightarrow> resource_link obs srv objectParam parent parentStr cap i None)"
| "prv_serializeLinks obs 0 ds srv objectParam parent parentStr cap out = Inr (Some out)"
| "prv_serializeLinks obs (Suc n) [] srv objectParam parent parentStr cap out = Inl OutOfBounds"
| "prv_serializeLinks obs (Suc n) (d # ds) srv objectParam parent parentStr cap out =
     bindO (prv_serializeLinkData obs d srv objectParam parent parentStr (cap - length out)) (\<lambda>t.
       prv_serializeLinks obs n ds srv objectParam parent parentStr cap (out @ t))"

section \<open>\<^verbatim>\<open>discover_serialize\<close>\<close>

definition PRV_LINK_BUFFER_SIZE :: nat where "PRV_LINK_BUFFER_SIZE = 1024"

text \<open>The attributes a resource inherits: those of the object and of the instance together.\<close>

definition merged_attributes :: "lwm2m_attributes option \<Rightarrow> lwm2m_attributes option \<Rightarrow> lwm2m_attributes option" where
  "merged_attributes objParam instParam =
     (case (objParam, instParam) of
        (None, _) \<Rightarrow> instParam
      | (Some a, None) \<Rightarrow> Some a
      | (Some a, Some b) \<Rightarrow>
          Some (zero_attributes\<lparr>toSet := toSet a OR toSet b,
            minPeriod := (if sets b ATTR_FLAG_MIN_PERIOD then minPeriod b
                          else if sets a ATTR_FLAG_MIN_PERIOD then minPeriod a else 0),
            maxPeriod := (if sets b ATTR_FLAG_MAX_PERIOD then maxPeriod b
                          else if sets a ATTR_FLAG_MAX_PERIOD then maxPeriod a else 0)\<rparr>))"

text \<open>The loop over the data, which also stops when the buffer is full.\<close>

fun link_loop ::
    "observed list option \<Rightarrow> nat \<Rightarrow> lwm2m_data list \<Rightarrow> server option \<Rightarrow> lwm2m_attributes option \<Rightarrow> lwm2m_uri \<Rightarrow> byte list
     \<Rightarrow> byte list \<Rightarrow> byte list option res" where
  "link_loop obs 0 ds srv p u base out = Inr (Some out)"
| "link_loop obs (Suc n) ds srv p u base out =
     (if PRV_LINK_BUFFER_SIZE \<le> length out then Inr (Some out)
      else case ds of
        [] \<Rightarrow> Inl OutOfBounds
      | d # ds' \<Rightarrow>
          bindO (prv_serializeLinkData obs d srv p u base (PRV_LINK_BUFFER_SIZE - length out)) (\<lambda>t.
            link_loop obs n ds' srv p u base (out @ t)))"

text \<open>
  What comes in front of the links of the data: the inherited attributes, the text, and the URI with
  the flag of the resource cleared.
\<close>

definition discover_start ::
    "observed list option \<Rightarrow> lwm2m_uri \<Rightarrow> server option
     \<Rightarrow> (lwm2m_attributes option \<times> byte list \<times> lwm2m_uri) option res" where
  "discover_start obs u srv =
     (let cap = PRV_LINK_BUFFER_SIZE; concat = PRV_CONCAT_STR cap in
      if is_set_resource u then
        let temp = zero_uri\<lparr>objectId := objectId u, flag := FLAG_OBJECT_ID\<rparr> in
        bindE (prv_findAttributes obs temp srv) (\<lambda>objParam.
        bindE (prv_findAttributes obs (temp\<lparr>instanceId := instanceId u, flag := FLAG_INSTANCE_ID\<rparr>) srv) (\<lambda>instParam.
          Inr (Some (merged_attributes objParam instParam, [], u\<lparr>flag := flag u AND NOT FLAG_RESOURCE_ID\<rparr>))))
      else
        bindO (concat (bytes ''<'') []) (\<lambda>o1.
        bindO (concat (bytes ''/'') o1) (\<lambda>o2.
        bindO (concat_int cap (ucast (objectId u)) o2) (\<lambda>o3.
          if is_set_instance u then
            bindO (concat (bytes ''/'') o3) (\<lambda>o4.
            bindO (concat_int cap (ucast (instanceId u)) o4) (\<lambda>o5.
            bindO (concat (bytes ''>,'') o5) (\<lambda>o6.
            bindO (add_attributes obs
              (zero_uri\<lparr>objectId := objectId u, instanceId := instanceId u, flag := FLAG_INSTANCE_ID\<rparr>) srv None o6 cap) (\<lambda>o7.
              Inr (Some (None, o7, u))))))
          else
            bindO (concat (bytes ''>,'') o3) (\<lambda>o4.
            bindO (add_attributes obs (zero_uri\<lparr>objectId := objectId u, flag := FLAG_OBJECT_ID\<rparr>) srv None o4 cap) (\<lambda>o5.
              Inr (Some (None, o5, u))))))))"

text \<open>
  The result is the text, \<open>None\<close> for -1 and \<open>[]\<close> for 0, and the URI, whose resource flag is cleared in
  place.
\<close>

definition discover_serialize ::
    "observed list option \<Rightarrow> lwm2m_uri \<Rightarrow> server option \<Rightarrow> nat \<Rightarrow> lwm2m_data list \<Rightarrow> mem
     \<Rightarrow> (byte list option \<times> lwm2m_uri \<times> mem) res" where
  "discover_serialize obs u srv count ds m =
     bindE (discover_start obs u srv) (\<lambda>start.
       case start of
         None \<Rightarrow> Inr (None, u, m)
       | Some (p, out, u') \<Rightarrow>
           bindE (uri_toString (Some u') URI_MAX_STRING_LEN) (\<lambda>base.
             case base of
               None \<Rightarrow> Inr (None, u', m)
             | Some (baseStr, _) \<Rightarrow>
                 bindE (link_loop obs count ds srv p u' (butlast baseStr) out) (\<lambda>r.
                   case r of
                     None \<Rightarrow> Inr (None, u', m)
                   | Some [] \<Rightarrow> Inr (Some [], u', m)
                   | Some t \<Rightarrow>
                       (case lwm2m_malloc m of
                          (False, m1) \<Rightarrow> Inr (Some [], u', m1)
                        | (True, m1) \<Rightarrow> Inr (Some (butlast t), u', m1)))))"

section \<open>Numbers that fit\<close>

lemma nat_text_bound: "n < 10 ^ length (nat_text n)"
proof (induction n rule: nat_text.induct)
  case (1 n)
  then show ?case by (cases "n < 10") (simp_all add: nat_text.simps [of n])
qed

lemma intToText_nat:
  assumes "n < 2 ^ 63" and "length (nat_text n) \<le> len"
  shows "utils_intToText (word_of_nat n) len = Inr (nat_text n)"
proof -
  have "0 < length (nat_text n)" by simp
  with assms(2) have len: "0 < len" by linarith
  have s: "sint (word_of_nat n :: i64) = int n"
    using assms(1) by (simp add: signed_of_nat signed_take_bit_int_eq_self)
  have "n < 10 ^ length (nat_text n)" by (rule nat_text_bound)
  also have "\<dots> \<le> 10 ^ len" using assms(2) by (intro power_increasing) simp_all
  finally have "int n < 10 ^ nat (int len - 1 + 1)" by simp
  from text_digits_nat_text [OF this, of "[]"] len
  have "text_digits (int len - 1) n [] = (int len - 1 - int (length (nat_text n)), 0, nat_text n)" by simp
  then show ?thesis using s len by (simp add: utils_intToText_def Let_def)
qed

lemma ucast_nat: "(ucast (i :: u16) :: i64) = word_of_nat (unat i)"
  using unat_u16 [of i] by (simp add: word_unat_eq_iff unat_ucast_up unat_of_nat)

lemma concat_nat:
  assumes "n < 2 ^ 63" and "length out + length (nat_text n) \<le> cap"
  shows "concat_int cap (word_of_nat n) out = Inr (Some (out @ nat_text n))"
  using assms intToText_nat [of n "cap - length out"] by (simp add: concat_int_def)

lemma concat_id:
  "length out + length (nat_text (unat i)) \<le> cap \<Longrightarrow>
   concat_int cap (ucast (i :: u16)) out = Inr (Some (out @ nat_text (unat i)))"
  unfolding ucast_nat using concat_nat [of "unat i" out cap] unat_u16 [of i] by simp

lemma concat_str:
  "length out + length s \<le> cap \<Longrightarrow> PRV_CONCAT_STR cap s out = Inr (Some (out @ s))"
  by (simp add: PRV_CONCAT_STR_def)

section \<open>Properties\<close>

text \<open>The link of one resource, and all the links with the comma behind each.\<close>

definition link :: "byte list \<Rightarrow> lwm2m_data \<Rightarrow> byte list" where
  "link base d = 60 # base @ 47 # nat_text (unat (data_id d)) @
     (case data_value d of V_multiple n _ \<Rightarrow> bytes ''>;dim='' @ nat_text n | _ \<Rightarrow> [62])"

definition links :: "byte list list \<Rightarrow> byte list" where
  "links ls = concat (map (\<lambda>l. l @ [44]) ls)"

definition is_resource :: "lwm2m_data \<Rightarrow> bool" where
  "is_resource d \<longleftrightarrow> (case data_value d of V_object _ _ \<Rightarrow> False | V_object_instance _ _ \<Rightarrow> False
     | V_multiple n _ \<Rightarrow> n < 2 ^ 63 | _ \<Rightarrow> True)"

lemma links_simps [simp]:
  "links [] = []" "links (l # ls) = l @ 44 # links ls"
  by (simp_all add: links_def)

lemma plain_attributes:
  assumes "\<And>v. prv_findAttributes obs v srv = Inr None"
  shows "add_attributes obs v srv None out cap = Inr (Some out)"
  using assms by (simp add: add_attributes_def prv_serializeAttributes_def)

lemma resource_link_text:
  assumes "\<And>v. prv_findAttributes obs v srv = Inr None" and "is_resource d"
    and "length (link base d) < cap"
  shows "prv_serializeLinkData obs d srv None u base cap = Inr (Some (link base d @ [44]))"
proof -
  obtain i v where d: "d = Data i v" by (cases d)
  have "resource_link obs srv None u base cap i (case v of V_multiple n _ \<Rightarrow> Some n | _ \<Rightarrow> None)
      = Inr (Some (link base d @ [44]))"
    using assms(2,3) unfolding d link_def is_resource_def resource_link_def
    by (cases v) (simp_all add: concat_str concat_id concat_nat plain_attributes [OF assms(1)] bytes_def)
  then show ?thesis using assms(2) unfolding d is_resource_def by (cases v) simp_all
qed

lemma link_loop_text:
  assumes "\<And>v. prv_findAttributes obs v srv = Inr None" and "\<forall>d\<in>set ds. is_resource d"
    and "length (out @ links (map (link base) ds)) \<le> PRV_LINK_BUFFER_SIZE"
  shows "link_loop obs (length ds) ds srv None u base out = Inr (Some (out @ links (map (link base) ds)))"
  using assms(2,3)
proof (induction ds arbitrary: out)
  case Nil
  then show ?case by simp
next
  case (Cons d ds)
  have "prv_serializeLinkData obs d srv None u base (PRV_LINK_BUFFER_SIZE - length out)
      = Inr (Some (link base d @ [44]))"
    using Cons.prems by (intro resource_link_text [OF assms(1)]) simp_all
  moreover have "\<not> PRV_LINK_BUFFER_SIZE \<le> length out" using Cons.prems(2) by simp
  ultimately show ?case using Cons.IH [of "out @ link base d @ [44]"] Cons.prems by simp
qed

lemma discover_start_instance:
  assumes "\<And>v. prv_findAttributes obs v srv = Inr None"
  shows "discover_start obs (uri_of [a, b]) srv = Inr (Some (None, 60 # uri_text [a, b] @ [62, 44], uri_of [a, b]))"
  using id_text_short [of a] id_text_short [of b]
  by (simp add: discover_start_def PRV_LINK_BUFFER_SIZE_def concat_str concat_id plain_attributes [OF assms]
      is_set_resource_def is_set_instance_def bytes_def uri_text_def)

lemma instance_base:
  "\<exists>depth. uri_toString (Some (uri_of [a, b])) URI_MAX_STRING_LEN = Inr (Some (uri_text [a, b] @ [47], depth))"
  using id_text_short [of a] id_text_short [of b]
  by (simp add: URI_MAX_STRING_LEN_def uri_toString_def append_id_fits is_set_instance_def is_set_resource_def uri_text_def)

text \<open>
  C40. To a server that has set no attributes, the discovery of an instance answers with the link of the
  instance and one link for each resource, with the number of instances for a multiple resource,
  separated by commas, as long as the text fits in the buffer.
\<close>

theorem discover_lists_resources:
  assumes "\<forall>v. prv_findAttributes obs v srv = Inr None" and "\<forall>d\<in>set ds. is_resource d"
    and "length (links ((60 # uri_text [a, b] @ [62]) # map (link (uri_text [a, b])) ds)) \<le> 1024"
  shows "discover_serialize obs (uri_of [a, b]) srv (length ds) ds [] =
    Inr (Some (butlast (links ((60 # uri_text [a, b] @ [62]) # map (link (uri_text [a, b])) ds))),
      uri_of [a, b], [])"
proof -
  have none: "\<And>v. prv_findAttributes obs v srv = Inr None" using assms(1) by simp
  obtain depth where base: "uri_toString (Some (uri_of [a, b])) URI_MAX_STRING_LEN
      = Inr (Some (uri_text [a, b] @ [47], depth))"
    using instance_base by blast
  have "link_loop obs (length ds) ds srv None (uri_of [a, b]) (uri_text [a, b]) (60 # uri_text [a, b] @ [62, 44])
      = Inr (Some ((60 # uri_text [a, b] @ [62, 44]) @ links (map (link (uri_text [a, b])) ds)))"
    using assms(2,3) by (intro link_loop_text [OF none]) (simp_all add: PRV_LINK_BUFFER_SIZE_def)
  then show ?thesis
    unfolding discover_serialize_def discover_start_instance [OF none] bindE_simps option.case prod.case base
    by simp
qed

lemma discover_lists_resources_witness:
  "discover_serialize (Some []) (uri_of [3, 0]) (Some 1) (length [Data 9 (V_integer 5), Data 6 (V_multiple 2 [])])
     [Data 9 (V_integer 5), Data 6 (V_multiple 2 [])] [] =
    Inr (Some (butlast (links ((60 # uri_text [3, 0] @ [62])
        # map (link (uri_text [3, 0])) [Data 9 (V_integer 5), Data 6 (V_multiple 2 [])]))), uri_of [3, 0], [])"
  by (rule discover_lists_resources)
    (simp_all add: prv_findAttributes_def observe_findByUri_def is_resource_def link_def bytes_def
      uri_text_def nat_text.simps)

text \<open>
  A server that has set attributes on an instance, but no minimum period, crashes the client by
  discovering that instance: the attributes to inherit are read through a null pointer.
\<close>

theorem discover_null_attributes:
  assumes "prv_findAttributes obs (zero_uri\<lparr>objectId := a, instanceId := b, flag := FLAG_INSTANCE_ID\<rparr>) srv = Inr (Some attrs)"
    and "\<not> sets attrs ATTR_FLAG_MIN_PERIOD" and "srv \<noteq> None"
  shows "discover_serialize obs (uri_of [a, b]) srv n ds m = Inl NullDeref"
proof -
  have "prv_serializeAttributes obs (zero_uri\<lparr>objectId := a, instanceId := b, flag := FLAG_INSTANCE_ID\<rparr>) srv None out cap
      = Inl NullDeref" for out cap
    using assms(1,2) by (simp add: prv_serializeAttributes_def put_period_def)
  then have "discover_start obs (uri_of [a, b]) srv = Inl NullDeref"
    using id_text_short [of a] id_text_short [of b] assms(3)
    by (simp add: discover_start_def PRV_LINK_BUFFER_SIZE_def concat_str concat_id add_attributes_def
        is_set_resource_def is_set_instance_def bytes_def)
  then show ?thesis by (simp add: discover_serialize_def)
qed

lemma discover_null_attributes_witness:
  "discover_serialize
     (Some [\<lparr>uri = uri_of [3, 0], watcherList = [(new_watcher 1)\<lparr>parameters :=
        Some (zero_attributes\<lparr>toSet := ATTR_FLAG_MAX_PERIOD, maxPeriod := 60\<rparr>)\<rparr>], freed = False\<rparr>])
     (uri_of [3, 0]) (Some 1) 0 [] [] = Inl NullDeref"
  by (rule discover_null_attributes [where attrs = "zero_attributes\<lparr>toSet := ATTR_FLAG_MAX_PERIOD, maxPeriod := 60\<rparr>"])
    (simp_all add: prv_findAttributes_def observe_findByUri_def found_by_uri_def is_set_instance_def
      is_set_resource_def zero_uri_def sets_def zero_attributes_def)

end
