(* ===== verification/Data_Format.thy ===== *)
theory Data_Format
imports Discover Tlv
begin

text \<open>
  Data elements as the payload of a message, \<^verbatim>\<open>lwm2m_data_parse\<close> and \<^verbatim>\<open>lwm2m_data_serialize\<close> of
  \<^verbatim>\<open>external/wakaama/data.c\<close>, as the client of the board is built: \<^verbatim>\<open>LWM2M_CLIENT_MODE\<close> without JSON and
  without the old formats.
\<close>

unbundle bit_operations_syntax

section \<open>Parsing\<close>

definition parse_buffer :: "u16 \<Rightarrow> (byte list \<Rightarrow> lwm2m_value) \<Rightarrow> byte list \<Rightarrow> mem \<Rightarrow> lwm2m_data list \<times> mem" where
  "parse_buffer i con buffer m =
     (case lwm2m_data_new 1 m of
        ([], m1) \<Rightarrow> ([], m1)
      | (_ # _, m1) \<Rightarrow>
          (case prv_setBuffer buffer m1 of
             (None, m2) \<Rightarrow> ([], m2)
           | (Some b, m2) \<Rightarrow> ([Data i (con b)], m2)))"

text \<open>The result \<open>[]\<close> is the result 0.\<close>

definition lwm2m_data_parse ::
    "lwm2m_uri \<Rightarrow> byte list \<Rightarrow> media_type \<Rightarrow> mem \<Rightarrow> (lwm2m_data list \<times> mem) res" where
  "lwm2m_data_parse u buffer format m =
     (case format of
        CONTENT_TEXT \<Rightarrow>
          Inr (if \<not> is_set_resource u then ([], m) else parse_buffer (resourceId u) V_string buffer m)
      | CONTENT_OPAQUE \<Rightarrow>
          Inr (if \<not> is_set_resource u then ([], m) else parse_buffer (resourceId u) V_opaque buffer m)
      | CONTENT_TLV \<Rightarrow> tlv_parse buffer m
      | _ \<Rightarrow> Inr ([], m))"

text \<open>The content type of a message as a format; an unknown one counts as text.\<close>

definition utils_convertMediaType :: "u16 \<Rightarrow> media_type" where
  "utils_convertMediaType t =
     (if t = 0 then CONTENT_TEXT
      else if t = 42 then CONTENT_OPAQUE
      else if t = 1542 then CONTENT_OTHER 1542
      else if t = 11542 then CONTENT_TLV
      else if t = 1543 then CONTENT_OTHER 1543
      else if t = 11543 then CONTENT_JSON
      else if t = 40 then CONTENT_LINK
      else CONTENT_TEXT)"

section \<open>Serializing\<close>

text \<open>\<open>None\<close> is the result -1, \<open>[]\<close> the result 0.\<close>

definition prv_textSerialize :: "lwm2m_data \<Rightarrow> mem \<Rightarrow> (byte list option \<times> mem) res" where
  "prv_textSerialize d m =
     (let text = (\<lambda>r. bindE r (\<lambda>(t, m1). Inr (if t = [] then None else Some t, m1))) in
      case data_value d of
        V_string b \<Rightarrow>
          (case lwm2m_malloc m of (False, m1) \<Rightarrow> Inr (Some [], m1) | (True, m1) \<Rightarrow> Inr (Some b, m1))
      | V_integer v \<Rightarrow> text (utils_int64ToPlainText v m)
      | V_float v \<Rightarrow> text (utils_float64ToPlainText v m)
      | V_boolean v \<Rightarrow> text (utils_boolToPlainText v m)
      | V_objlink oid iid \<Rightarrow>
          (case lwm2m_malloc m of
             (False, m1) \<Rightarrow> Inr (None, m1)
           | (True, m1) \<Rightarrow> Inr (Some (nat_text (unat oid) @ 58 # nat_text (unat iid)), m1))
      | _ \<Rightarrow> Inr (None, m))"

definition is_container :: "lwm2m_data \<Rightarrow> bool" where
  "is_container d \<longleftrightarrow>
     (case data_value d of V_object _ _ \<Rightarrow> True | V_object_instance _ _ \<Rightarrow> True | V_multiple _ _ \<Rightarrow> True | _ \<Rightarrow> False)"

text \<open>\<open>n\<close> is \<^verbatim>\<open>size\<close>; \<^verbatim>\<open>dataP\<close> is read when it is one.\<close>

definition final_format ::
    "lwm2m_uri option \<Rightarrow> nat \<Rightarrow> lwm2m_data list \<Rightarrow> media_type \<Rightarrow> media_type res" where
  "final_format u n ds format =
     (let plain = (format = CONTENT_TEXT \<or> format = CONTENT_OPAQUE) in
      if plain \<and> (n \<noteq> 1 \<or> (case u of None \<Rightarrow> False | Some v \<Rightarrow> \<not> is_set_resource v)) then Inr CONTENT_TLV
      else if \<not> plain then Inr format
      else case ds of
        [] \<Rightarrow> Inl NullDeref
      | d # _ \<Rightarrow>
          Inr (if is_container d then CONTENT_TLV
               else if format = CONTENT_TEXT then
                 (case data_value d of V_opaque _ \<Rightarrow> CONTENT_OPAQUE | _ \<Rightarrow> CONTENT_TEXT)
               else format))"

definition resource_instances :: "lwm2m_uri option \<Rightarrow> nat \<Rightarrow> lwm2m_data list \<Rightarrow> bool res" where
  "resource_instances u n ds =
     (case u of
        Some v \<Rightarrow>
          if \<not> is_set_resource v then Inr False
          else if n \<noteq> 1 then Inr True
          else (case ds of [] \<Rightarrow> Inl NullDeref | d # _ \<Rightarrow> Inr (data_id d \<noteq> resourceId v))
      | None \<Rightarrow> Inr False)"

text \<open>
  The results are \<^verbatim>\<open>*formatP\<close>, the bytes of the buffer (\<open>None\<close> inside is a byte never written; \<open>None\<close>
  outside is -1) and the URI.
\<close>

definition lwm2m_data_serialize ::
    "lwm2m_uri option \<Rightarrow> nat \<Rightarrow> lwm2m_data list \<Rightarrow> media_type \<Rightarrow> mem
     \<Rightarrow> (media_type \<times> byte option list option \<times> lwm2m_uri option \<times> mem) res" where
  "lwm2m_data_serialize u n ds format m =
     bindE (final_format u n ds format) (\<lambda>f.
       case f of
         CONTENT_TEXT \<Rightarrow>
           bindE (prv_textSerialize (hd ds) m) (\<lambda>(r, m1). Inr (f, map_option (map Some) r, u, m1))
       | CONTENT_OPAQUE \<Rightarrow>
           bindE (as_buffer (hd ds)) (\<lambda>b.
             case lwm2m_malloc m of
               (False, m1) \<Rightarrow> Inr (f, None, u, m1)
             | (True, m1) \<Rightarrow> Inr (f, Some (map Some b), u, m1))
       | CONTENT_TLV \<Rightarrow>
           bindE (resource_instances u n ds) (\<lambda>ri.
           bindE (tlv_serialize ri n ds m) (\<lambda>(r, m1). Inr (f, r, u, m1)))
       | CONTENT_LINK \<Rightarrow>
           (case u of
              None \<Rightarrow> Inl NullDeref
            | Some v \<Rightarrow>
                bindE (discover_serialize None v None n ds m) (\<lambda>(r, v', m1).
                  Inr (f, map_option (map Some) r, Some v', m1)))
       | _ \<Rightarrow> Inr (f, None, u, m))"

section \<open>Properties\<close>



text \<open>
  A resource that is neither a string nor an opaque value is not refused when it is asked for as
  opaque bytes: its number is used as the length and the address of the bytes to answer with.
\<close>

theorem serialize_opaque_misread:
  assumes "is_set_resource u" and "\<not> is_container d" and "\<forall>b. data_value d \<noteq> V_string b"
    and "\<forall>b. data_value d \<noteq> V_opaque b" and "data_value d \<noteq> V_undefined"
  shows "lwm2m_data_serialize (Some u) 1 [d] CONTENT_OPAQUE m = Inl UnionMisread"
proof -
  have "as_buffer d = Inl UnionMisread"
    using assms(2-5) by (auto simp: as_buffer_def is_container_def split: lwm2m_value.splits)
  then show ?thesis using assms(1,2) by (simp add: lwm2m_data_serialize_def final_format_def)
qed

lemma serialize_opaque_misread_witness:
  "lwm2m_data_serialize (Some (uri_of [3, 0, 9])) 1 [Data 9 (V_integer 100)] CONTENT_OPAQUE [] = Inl UnionMisread"
  by (rule serialize_opaque_misread) (simp_all add: is_container_def is_set_resource_def)

end
