(* ===== verification/Block1.thy ===== *)
theory Block1
imports Prelude
begin

text \<open>
  The reassembly of a payload that a server sends in blocks, \<^verbatim>\<open>external/wakaama/block1.c\<close>.
\<close>

abbreviation COAP_231_CONTINUE :: byte where "COAP_231_CONTINUE \<equiv> 0x5F"
abbreviation COAP_408_REQ_ENTITY_INCOMPLETE :: byte where "COAP_408_REQ_ENTITY_INCOMPLETE \<equiv> 0x88"
abbreviation COAP_413_ENTITY_TOO_LARGE :: byte where "COAP_413_ENTITY_TOO_LARGE \<equiv> 0x8D"

definition MAX_BLOCK1_SIZE :: nat where "MAX_BLOCK1_SIZE = 4096"

record block1_data =
  block1buffer :: "byte list option"
  block1bufferSize :: nat
  lastmid :: u16

section \<open>The handler\<close>

text \<open>Block 0 starts a new transfer, whatever is stored.\<close>

definition block1_first ::
    "block1_data option \<Rightarrow> u16 \<Rightarrow> byte list \<Rightarrow> mem \<Rightarrow> (block1_data option \<times> mem) res" where
  "block1_first st mid buffer m =
     (case (case st of None \<Rightarrow> lwm2m_malloc m | Some _ \<Rightarrow> (True, m)) of
        (False, m1) \<Rightarrow> Inr (None, m1)
      | (True, m1) \<Rightarrow>
          (case lwm2m_malloc m1 of
             (False, m2) \<Rightarrow>
               if buffer = []
               then Inr (Some \<lparr>block1buffer = None, block1bufferSize = 0, lastmid = mid\<rparr>, m2)
               else Inl NullDeref
           | (True, m2) \<Rightarrow>
               Inr (Some \<lparr>block1buffer = Some buffer, block1bufferSize = length buffer, lastmid = mid\<rparr>, m2)))"

text \<open>
  A later block: the status (\<open>NO_ERROR\<close> when the block is stored), and the data. A buffer that cannot
  be enlarged is lost, and its size is already that of the new one.
\<close>

definition block1_next ::
    "block1_data \<Rightarrow> u16 \<Rightarrow> byte list \<Rightarrow> u16 \<Rightarrow> u32 \<Rightarrow> mem \<Rightarrow> (byte \<times> block1_data \<times> mem) res" where
  "block1_next d mid buffer blockSize blockNum m =
     (if lastmid d = mid then Inr (COAP_NO_ERROR, d, m)
      else if block1bufferSize d \<noteq> unat (ucast blockSize * blockNum) then Inr (COAP_408_REQ_ENTITY_INCOMPLETE, d, m)
      else if MAX_BLOCK1_SIZE \<le> block1bufferSize d + length buffer then Inr (COAP_413_ENTITY_TOO_LARGE, d, m)
      else
        let d1 = d\<lparr>block1bufferSize := block1bufferSize d + length buffer\<rparr> in
        case lwm2m_malloc m of
          (False, m1) \<Rightarrow> Inr (COAP_500_INTERNAL_SERVER_ERROR, d1\<lparr>block1buffer := None\<rparr>, m1)
        | (True, m1) \<Rightarrow>
            (case block1buffer d of
               None \<Rightarrow> if block1bufferSize d = 0
                 then Inr (COAP_NO_ERROR, d1\<lparr>block1buffer := Some buffer, lastmid := mid\<rparr>, m1)
                 else Inl NullDeref
             | Some old \<Rightarrow>
                 Inr (COAP_NO_ERROR, d1\<lparr>block1buffer := Some (old @ buffer), lastmid := mid\<rparr>, m1)))"

text \<open>
  The results are the status, the output (the buffer and its length, \<open>None\<close> when it is not set or the
  length is -1) and the stored data.
\<close>

definition coap_block1_handler ::
    "block1_data option \<Rightarrow> u16 \<Rightarrow> byte list \<Rightarrow> u16 \<Rightarrow> u32 \<Rightarrow> bool \<Rightarrow> mem
     \<Rightarrow> (byte \<times> (byte list option \<times> nat) option \<times> block1_data option \<times> mem) res" where
  "coap_block1_handler st mid buffer blockSize blockNum blockMore m =
     (let answer = (\<lambda>d m1.
        if blockMore then Inr (COAP_231_CONTINUE, None, Some d, m1)
        else Inr (COAP_NO_ERROR, Some (block1buffer d, block1bufferSize d), Some d, m1)) in
      if blockNum = 0 then
        bindE (block1_first st mid buffer m) (\<lambda>(st', m1).
          case st' of
            None \<Rightarrow> Inr (COAP_500_INTERNAL_SERVER_ERROR, None, None, m1)
          | Some d \<Rightarrow> answer d m1)
      else
        case st of
          None \<Rightarrow> Inr (COAP_408_REQ_ENTITY_INCOMPLETE, None, None, m)
        | Some d \<Rightarrow>
            bindE (block1_next d mid buffer blockSize blockNum m) (\<lambda>(r, d', m1).
              if r \<noteq> COAP_NO_ERROR then Inr (r, None, Some d', m1) else answer d' m1))"

definition free_block1_buffer :: "block1_data option \<Rightarrow> block1_data option" where
  "free_block1_buffer st = None"

section \<open>Transfers\<close>

text \<open>
  A transfer: the blocks with their message ids, numbered from \<open>k\<close>; all but the last announce more.
  The result is the answer to the last block; another answer than 2.31 before ends the run.
\<close>

fun transfer ::
    "u16 \<Rightarrow> nat \<Rightarrow> (u16 \<times> byte list) list \<Rightarrow> block1_data option \<Rightarrow> mem
     \<Rightarrow> (byte \<times> (byte list option \<times> nat) option \<times> block1_data option \<times> mem) res" where
  "transfer blockSize k [] st m = Inr (COAP_231_CONTINUE, None, st, m)"
| "transfer blockSize k ((mid, b) # bs) st m =
     bindE (coap_block1_handler st mid b blockSize (word_of_nat k) (bs \<noteq> []) m) (\<lambda>(r, out, st', m').
       if r \<noteq> COAP_231_CONTINUE then Inr (r, out, st', m')
       else transfer blockSize (Suc k) bs st' m')"

text \<open>The blocks of a payload: full but the last one, consecutive message ids differ.\<close>

fun blocks_ok :: "nat \<Rightarrow> (u16 \<times> byte list) list \<Rightarrow> bool" where
  "blocks_ok n [] = False"
| "blocks_ok n [(mid, b)] = True"
| "blocks_ok n ((mid, b) # (mid', b') # bs) \<longleftrightarrow> length b = n \<and> mid \<noteq> mid' \<and> blocks_ok n ((mid', b') # bs)"

lemma block_offset:
  assumes "unat (blockSize :: u16) * k < 4096" and "0 < unat blockSize" and "0 < k"
  shows "unat (ucast blockSize * word_of_nat k :: u32) = unat blockSize * k" and "(word_of_nat k :: u32) \<noteq> 0"
proof -
  have "k \<le> unat blockSize * k" using assms(2) by simp
  then have k: "k < 4096" using assms(1) by linarith
  then have uk: "unat (word_of_nat k :: u32) = k" by (simp add: unat_of_nat)
  have "unat (ucast blockSize :: u32) = unat blockSize" by (simp add: unat_ucast_up)
  then show "unat (ucast blockSize * word_of_nat k :: u32) = unat blockSize * k"
    using assms(1) uk by (simp add: unat_word_ariths)
  show "(word_of_nat k :: u32) \<noteq> 0" using uk assms(3) by (metis less_irrefl unat_0)
qed

text \<open>A stored prefix, and one more block of the transfer.\<close>

definition stored :: "byte list \<Rightarrow> u16 \<Rightarrow> block1_data" where
  "stored old mid = \<lparr>block1buffer = Some old, block1bufferSize = length old, lastmid = mid\<rparr>"

lemma next_block:
  assumes "length old = unat blockSize * k" and "0 < unat blockSize" and "0 < k"
    and "length (old @ b) < 4096" and "mid0 \<noteq> mid"
  shows "coap_block1_handler (Some (stored old mid0)) mid b blockSize (word_of_nat k) blockMore [] =
    Inr (if blockMore then COAP_231_CONTINUE else COAP_NO_ERROR,
      if blockMore then None else Some (Some (old @ b), length (old @ b)), Some (stored (old @ b) mid), [])"
proof -
  have "unat blockSize * k < 4096" using assms(1,4) by simp
  from block_offset [OF this assms(2,3)] assms(1,4,5) show ?thesis
    by (simp add: coap_block1_handler_def block1_next_def stored_def MAX_BLOCK1_SIZE_def)
qed

lemma transfer_rest:
  assumes "blocks_ok (unat blockSize) ((mid0, b0) # bs)" and "bs \<noteq> []" and "0 < k" and "0 < unat blockSize"
    and "length old = unat blockSize * k" and "length (old @ concat (map snd bs)) < 4096"
  shows "\<exists>d. transfer blockSize k bs (Some (stored old mid0)) []
    = Inr (COAP_NO_ERROR, Some (Some (old @ concat (map snd bs)), length (old @ concat (map snd bs))), Some d, [])"
  using assms
proof (induction bs arbitrary: mid0 b0 k old)
  case Nil
  then show ?case by simp
next
  case (Cons x bs)
  obtain mid b where x: "x = (mid, b)" by (cases x)
  have "length (old @ b) < 4096" and "mid0 \<noteq> mid" using Cons.prems x by simp_all
  note step = next_block [OF Cons.prems(5,4,3) this, of "bs \<noteq> []"]
  show ?case
  proof (cases "bs = []")
    case True
    then show ?thesis using step x by simp
  next
    case False
    obtain mid' b' bs' where bs: "bs = (mid', b') # bs'" using False by (metis list.exhaust surj_pair)
    have "blocks_ok (unat blockSize) ((mid, b) # bs)" and "length (old @ b) = unat blockSize * Suc k"
      using Cons.prems(1,5) x bs by simp_all
    from Cons.IH [OF this(1) False _ Cons.prems(4) this(2)] Cons.prems(6) x step False
    show ?thesis by simp
  qed
qed



lemma first_block: "block1_first st mid b [] = Inr (Some (stored b mid), [])"
  by (cases st) (simp_all add: block1_first_def stored_def)

lemma next_stores: "block1_next d mid b n k m = Inr (COAP_NO_ERROR, d', m') \<Longrightarrow> lastmid d' = mid"
  by (auto simp: block1_next_def Let_def split: if_splits option.splits prod.splits bool.splits)

lemma next_not_continue: "block1_next d mid b n k m \<noteq> Inr (COAP_231_CONTINUE, d', m')"
  by (auto simp: block1_next_def Let_def split: if_splits option.splits prod.splits bool.splits)

lemma next_known: "lastmid d = mid \<Longrightarrow> block1_next d mid b n k m = Inr (COAP_NO_ERROR, d, m)"
  by (simp add: block1_next_def)

text \<open>
  A block that is sent again, under the same message id, is answered as before and changes nothing.
\<close>

theorem block1_retransmission:
  assumes "coap_block1_handler st mid b blockSize blockNum blockMore [] = Inr (r, out, st', m)"
    and "r = COAP_231_CONTINUE \<or> r = COAP_NO_ERROR"
  shows "coap_block1_handler st' mid b blockSize blockNum blockMore [] = Inr (r, out, st', [])"
proof (cases "blockNum = 0")
  case True
  then show ?thesis using assms(1) by (auto simp: coap_block1_handler_def first_block split: if_splits)
next
  case False
  with assms obtain d d' m' where d: "st = Some d" "block1_next d mid b blockSize blockNum [] = Inr (COAP_NO_ERROR, d', m')"
      "st' = Some d'" "r = (if blockMore then COAP_231_CONTINUE else COAP_NO_ERROR)"
      "out = (if blockMore then None else Some (block1buffer d', block1bufferSize d'))"
    by (auto simp: coap_block1_handler_def bindE_Inr_iff Let_def next_not_continue split: option.splits if_splits)
  show ?thesis
    using False next_known [OF next_stores [OF d(2)]] by (simp add: coap_block1_handler_def d(3-5))
qed

lemma block1_retransmission_witness:
  "coap_block1_handler (Some \<lparr>block1buffer = Some [1, 2], block1bufferSize = 2, lastmid = 7\<rparr>) 7 [1, 2] 2 0 True []
    = Inr (COAP_231_CONTINUE, None, Some \<lparr>block1buffer = Some [1, 2], block1bufferSize = 2, lastmid = 7\<rparr>, [])"
  by (rule block1_retransmission [of None _ _ _ _ _ _ _ _ "[]"])
    (simp_all add: coap_block1_handler_def first_block stored_def)

text \<open>
  When a transfer cannot be enlarged for want of memory, the bytes received so far are lost but still
  counted: the block that would follow them is copied behind a null pointer.
\<close>

theorem block1_lost_buffer:
  assumes "length old = unat blockSize * k" and "length b = unat blockSize" and "0 < unat blockSize" and "0 < k"
    and "length (old @ b @ c) < 4096" and "mid0 \<noteq> mid" and "mid' \<noteq> mid0"
  shows "\<exists>d. coap_block1_handler (Some (stored old mid0)) mid b blockSize (word_of_nat k) True [False]
        = Inr (COAP_500_INTERNAL_SERVER_ERROR, None, Some d, [])
    \<and> coap_block1_handler (Some d) mid' c blockSize (word_of_nat (Suc k)) True [] = Inl NullDeref"
proof -
  have "unat blockSize * k < 4096" "unat blockSize * Suc k < 4096" using assms(1,2,5) by simp_all
  with block_offset [of blockSize k] block_offset [of blockSize "Suc k"] assms
  show ?thesis
    by (simp add: coap_block1_handler_def block1_next_def stored_def MAX_BLOCK1_SIZE_def)
qed

lemma block1_lost_buffer_witness:
  "\<exists>d. coap_block1_handler (Some (stored [1, 2] 7)) 8 [3, 4] 2 (word_of_nat 1) True [False]
        = Inr (COAP_500_INTERNAL_SERVER_ERROR, None, Some d, [])
    \<and> coap_block1_handler (Some d) 9 [5, 6] 2 (word_of_nat (Suc 1)) True [] = Inl NullDeref"
  by (rule block1_lost_buffer) simp_all

end
