(* ===== verification/Objects.thy ===== *)
theory Objects
imports Data_Format Block1 Lwm2m_Object
begin

text \<open>
  The dispatch of requests to the objects of a client, \<^verbatim>\<open>external/wakaama/objects.c\<close>. An object is a
  struct of callbacks (\<^verbatim>\<open>lwm2m_object_t\<close>); all of them work on one state \<open>'s\<close>, the user data and the
  instance lists of all objects together.
\<close>

unbundle bit_operations_syntax

section \<open>Objects and servers\<close>

type_synonym 's reader = "u16 \<Rightarrow> lwm2m_data list \<Rightarrow> 's \<Rightarrow> mem \<Rightarrow> (byte \<times> lwm2m_data list \<times> mem) res"
type_synonym 's writer = "u16 \<Rightarrow> lwm2m_data list \<Rightarrow> 's \<Rightarrow> mem \<Rightarrow> (byte \<times> 's \<times> mem) res"

record 's object_ops =
  ops_id :: u16
  instances :: "'s \<Rightarrow> u16 list"
  readFunc :: "'s reader option"
  writeFunc :: "'s writer option"
  executeFunc :: "(u16 \<Rightarrow> u16 \<Rightarrow> byte list \<Rightarrow> 's \<Rightarrow> mem \<Rightarrow> (byte \<times> 's \<times> mem) res) option"
  createFunc :: "'s writer option"
  deleteFunc :: "(u16 \<Rightarrow> 's \<Rightarrow> mem \<Rightarrow> (byte \<times> 's \<times> mem) res) option"
  discoverFunc :: "'s reader option"

definition find_object :: "'s object_ops list \<Rightarrow> u16 \<Rightarrow> 's object_ops option" where
  "find_object objs i = lwm2m_list_find ops_id objs i"

definition has_instance :: "'s object_ops \<Rightarrow> 's \<Rightarrow> u16 \<Rightarrow> bool" where
  "has_instance ob s i \<longleftrightarrow> lwm2m_list_find (\<lambda>x. x) (instances ob s) i \<noteq> None"

text \<open>A callback that gets one element with the id of the resource.\<close>

definition read_resource :: "'s reader \<Rightarrow> lwm2m_uri \<Rightarrow> 's \<Rightarrow> mem \<Rightarrow> (byte \<times> lwm2m_data list \<times> mem) res" where
  "read_resource f u s m =
     (case lwm2m_data_new 1 m of
        ([], m1) \<Rightarrow> Inr (COAP_500_INTERNAL_SERVER_ERROR, [], m1)
      | (_ # _, m1) \<Rightarrow> f (instanceId u) [Data (resourceId u) V_undefined] s m1)"

section \<open>Checks\<close>

definition object_checkReadable :: "'s object_ops list \<Rightarrow> lwm2m_uri \<Rightarrow> 's \<Rightarrow> mem \<Rightarrow> (byte \<times> mem) res" where
  "object_checkReadable objs u s m =
     (case find_object objs (objectId u) of
        None \<Rightarrow> Inr (COAP_404_NOT_FOUND, m)
      | Some ob \<Rightarrow>
        (case readFunc ob of
           None \<Rightarrow> Inr (COAP_405_METHOD_NOT_ALLOWED, m)
         | Some f \<Rightarrow>
           if \<not> is_set_instance u then Inr (COAP_205_CONTENT, m)
           else if \<not> has_instance ob s (instanceId u) then Inr (COAP_404_NOT_FOUND, m)
           else if \<not> is_set_resource u then Inr (COAP_205_CONTENT, m)
           else bindE (read_resource f u s m) (\<lambda>(r, ds, m1). Inr (r, m1))))"

text \<open>\<^verbatim>\<open>dataP->type\<close> is read after the callback; the callback may have changed the array.\<close>

definition object_checkNumeric :: "'s object_ops list \<Rightarrow> lwm2m_uri \<Rightarrow> 's \<Rightarrow> mem \<Rightarrow> (byte \<times> mem) res" where
  "object_checkNumeric objs u s m =
     (if \<not> is_set_resource u then Inr (COAP_405_METHOD_NOT_ALLOWED, m)
      else case find_object objs (objectId u) of
        None \<Rightarrow> Inr (COAP_404_NOT_FOUND, m)
      | Some ob \<Rightarrow>
        (case readFunc ob of
           None \<Rightarrow> Inr (COAP_405_METHOD_NOT_ALLOWED, m)
         | Some f \<Rightarrow>
           bindE (read_resource f u s m) (\<lambda>(r, ds, m1).
             if r \<noteq> COAP_205_CONTENT then Inr (r, m1)
             else case ds of
               [] \<Rightarrow> Inl NullDeref
             | d # _ \<Rightarrow>
                 Inr (case data_value d of
                   V_integer _ \<Rightarrow> r | V_float _ \<Rightarrow> r | _ \<Rightarrow> COAP_405_METHOD_NOT_ALLOWED, m1))))"

section \<open>Reading\<close>

text \<open>
  The loop over the instances: it ends at the first one that cannot be read, which is still filled
  in; those behind it stay as \<^verbatim>\<open>lwm2m_data_new\<close> made them.
\<close>

fun read_instances ::
    "'s reader \<Rightarrow> u16 list \<Rightarrow> 's \<Rightarrow> mem \<Rightarrow> (byte \<times> lwm2m_data list \<times> mem) res" where
  "read_instances f [] s m = Inr (COAP_205_CONTENT, [], m)"
| "read_instances f (i # is) s m =
     bindE (f i [] s m) (\<lambda>(r, ds, m1).
       let d = Data i (V_object_instance (length ds) ds) in
       if r = COAP_205_CONTENT
       then bindE (read_instances f is s m1) (\<lambda>(r', ds', m2). Inr (r', d # ds', m2))
       else Inr (r, d # replicate (length is) (Data 0 V_undefined), m1))"

definition read_all :: "'s reader \<Rightarrow> u16 list \<Rightarrow> 's \<Rightarrow> mem \<Rightarrow> (byte \<times> lwm2m_data list \<times> mem) res" where
  "read_all f is s m =
     (if is = [] then Inr (COAP_205_CONTENT, [], m)
      else case lwm2m_data_new (int (length is)) m of
        ([], m1) \<Rightarrow> Inr (COAP_500_INTERNAL_SERVER_ERROR, [], m1)
      | (_ # _, m1) \<Rightarrow> read_instances f is s m1)"

definition read_uri ::
    "'s object_ops \<Rightarrow> 's reader \<Rightarrow> lwm2m_uri \<Rightarrow> 's \<Rightarrow> mem \<Rightarrow> (byte \<times> lwm2m_data list \<times> mem) res" where
  "read_uri ob f u s m =
     (if is_set_instance u then
        if \<not> has_instance ob s (instanceId u) then Inr (COAP_404_NOT_FOUND, [], m)
        else if is_set_resource u then read_resource f u s m
        else f (instanceId u) [] s m
      else read_all f (instances ob s) s m)"

definition object_readData ::
    "'s object_ops list \<Rightarrow> lwm2m_uri \<Rightarrow> 's \<Rightarrow> mem \<Rightarrow> (byte \<times> lwm2m_data list \<times> mem) res" where
  "object_readData objs u s m =
     (case find_object objs (objectId u) of
        None \<Rightarrow> Inr (COAP_404_NOT_FOUND, [], m)
      | Some ob \<Rightarrow>
        (case readFunc ob of
           None \<Rightarrow> Inr (COAP_405_METHOD_NOT_ALLOWED, [], m)
         | Some f \<Rightarrow> read_uri ob f u s m))"

text \<open>
  The results are the status, the format, the bytes (\<open>None\<close> when there are none to send) and the URI,
  which a discovery changes.
\<close>

definition object_read ::
    "'s object_ops list \<Rightarrow> lwm2m_uri \<Rightarrow> media_type \<Rightarrow> 's \<Rightarrow> mem
     \<Rightarrow> (byte \<times> media_type \<times> byte option list option \<times> lwm2m_uri \<times> mem) res" where
  "object_read objs u format s m =
     bindE (object_readData objs u s m) (\<lambda>(r, ds, m1).
       if r \<noteq> COAP_205_CONTENT then Inr (r, format, None, u, m1)
       else bindE (lwm2m_data_serialize (Some u) (length ds) ds format m1) (\<lambda>(f, b, u', m2).
         case b of
           None \<Rightarrow> Inr (COAP_500_INTERNAL_SERVER_ERROR, f, None, the u', m2)
         | Some cells \<Rightarrow> Inr (r, f, Some cells, the u', m2)))"

section \<open>Writing, executing, creating, deleting\<close>

definition object_write ::
    "'s object_ops list \<Rightarrow> lwm2m_uri \<Rightarrow> media_type \<Rightarrow> byte list \<Rightarrow> 's \<Rightarrow> mem \<Rightarrow> (byte \<times> 's \<times> mem) res" where
  "object_write objs u format buffer s m =
     (case find_object objs (objectId u) of
        None \<Rightarrow> Inr (COAP_404_NOT_FOUND, s, m)
      | Some ob \<Rightarrow>
        (case writeFunc ob of
           None \<Rightarrow> Inr (COAP_405_METHOD_NOT_ALLOWED, s, m)
         | Some f \<Rightarrow>
           bindE (lwm2m_data_parse u buffer format m) (\<lambda>(ds, m1).
             if ds = [] then Inr (COAP_406_NOT_ACCEPTABLE, s, m1)
             else f (instanceId u) ds s m1)))"

definition object_execute ::
    "'s object_ops list \<Rightarrow> lwm2m_uri \<Rightarrow> byte list \<Rightarrow> 's \<Rightarrow> mem \<Rightarrow> (byte \<times> 's \<times> mem) res" where
  "object_execute objs u buffer s m =
     (case find_object objs (objectId u) of
        None \<Rightarrow> Inr (COAP_404_NOT_FOUND, s, m)
      | Some ob \<Rightarrow>
        (case executeFunc ob of
           None \<Rightarrow> Inr (COAP_405_METHOD_NOT_ALLOWED, s, m)
         | Some f \<Rightarrow>
           if \<not> has_instance ob s (instanceId u) then Inr (COAP_404_NOT_FOUND, s, m)
           else f (instanceId u) (resourceId u) buffer s m))"

text \<open>\<^verbatim>\<open>value.asChildren.count\<close> elements of \<^verbatim>\<open>value.asChildren.array\<close>.\<close>

definition children :: "lwm2m_data \<Rightarrow> lwm2m_data list res" where
  "children d =
     (case as_children (data_value d) of (n, xs) \<Rightarrow>
        if length xs < n then Inl OutOfBounds else Inr (take n xs))"

text \<open>An empty list is both \<^verbatim>\<open>length == 0\<close> and the null buffer. The URI gets the id of the new instance.\<close>

definition object_create ::
    "'s object_ops list \<Rightarrow> lwm2m_uri \<Rightarrow> media_type \<Rightarrow> byte list \<Rightarrow> 's \<Rightarrow> mem
     \<Rightarrow> (byte \<times> lwm2m_uri \<times> 's \<times> mem) res" where
  "object_create objs u format buffer s m =
     (if buffer = [] then Inr (COAP_400_BAD_REQUEST, u, s, m)
      else case find_object objs (objectId u) of
        None \<Rightarrow> Inr (COAP_404_NOT_FOUND, u, s, m)
      | Some ob \<Rightarrow>
        (case createFunc ob of
           None \<Rightarrow> Inr (COAP_405_METHOD_NOT_ALLOWED, u, s, m)
         | Some f \<Rightarrow>
           bindE (lwm2m_data_parse u buffer format m) (\<lambda>(ds, m1).
             let create = (\<lambda>i elems.
               bindE (f i elems s m1) (\<lambda>(r, s', m2).
                 Inr (r, u\<lparr>instanceId := i, flag := flag u OR FLAG_INSTANCE_ID\<rparr>, s', m2))) in
             case ds of
               [] \<Rightarrow> Inr (COAP_400_BAD_REQUEST, u, s, m1)
             | d # rest \<Rightarrow>
               (case data_value d of
                  V_object _ _ \<Rightarrow> Inr (COAP_400_BAD_REQUEST, u, s, m1)
                | V_object_instance _ _ \<Rightarrow>
                    if rest \<noteq> [] then Inr (COAP_400_BAD_REQUEST, u, s, m1)
                    else if has_instance ob s (data_id d) then Inr (COAP_406_NOT_ACCEPTABLE, u, s, m1)
                    else bindE (children d) (create (data_id d))
                | _ \<Rightarrow> create (lwm2m_list_newId (\<lambda>x. x) (instances ob s)) ds))))"

text \<open>The loop that deletes the first instance until none is left; \<open>None\<close> is a loop that never ends.\<close>

partial_function (option) delete_all ::
    "('s \<Rightarrow> u16 list) \<Rightarrow> (u16 \<Rightarrow> 's \<Rightarrow> mem \<Rightarrow> (byte \<times> 's \<times> mem) res) \<Rightarrow> 's \<Rightarrow> mem \<Rightarrow> (byte \<times> 's \<times> mem) res option" where
  "delete_all ids f s m =
     (case ids s of
        [] \<Rightarrow> Some (Inr (COAP_202_DELETED, s, m))
      | i # _ \<Rightarrow>
          (case f i s m of
             Inl e \<Rightarrow> Some (Inl e)
           | Inr (r, s', m') \<Rightarrow>
               if r \<noteq> COAP_202_DELETED then Some (Inr (r, s', m')) else delete_all ids f s' m'))"

definition object_delete ::
    "'s object_ops list \<Rightarrow> lwm2m_uri \<Rightarrow> 's \<Rightarrow> mem \<Rightarrow> (byte \<times> 's \<times> mem) res option" where
  "object_delete objs u s m =
     (case find_object objs (objectId u) of
        None \<Rightarrow> Some (Inr (COAP_404_NOT_FOUND, s, m))
      | Some ob \<Rightarrow>
        (case deleteFunc ob of
           None \<Rightarrow> Some (Inr (COAP_405_METHOD_NOT_ALLOWED, s, m))
         | Some f \<Rightarrow>
           if is_set_instance u then Some (f (instanceId u) s m)
           else delete_all (instances ob) f s m))"

section \<open>Discovering\<close>

definition object_discover ::
    "'s object_ops list \<Rightarrow> observed list \<Rightarrow> lwm2m_uri \<Rightarrow> server option \<Rightarrow> 's \<Rightarrow> mem
     \<Rightarrow> (byte \<times> byte list option \<times> lwm2m_uri \<times> mem) res" where
  "object_discover objs obs u srv s m =
     (case find_object objs (objectId u) of
        None \<Rightarrow> Inr (COAP_404_NOT_FOUND, None, u, m)
      | Some ob \<Rightarrow>
        (case discoverFunc ob of
           None \<Rightarrow> Inr (COAP_501_NOT_IMPLEMENTED, None, u, m)
         | Some f \<Rightarrow>
           bindE (read_uri ob f u s m) (\<lambda>(r, ds, m1).
             if r \<noteq> COAP_205_CONTENT then Inr (r, None, u, m1)
             else bindE (discover_serialize (Some obs) u srv (length ds) ds m1) (\<lambda>(t, u', m2).
               case t of
                 None \<Rightarrow> Inr (COAP_500_INTERNAL_SERVER_ERROR, None, u', m2)
               | Some [] \<Rightarrow> Inr (COAP_500_INTERNAL_SERVER_ERROR, None, u', m2)
               | Some text \<Rightarrow> Inr (r, Some text, u', m2)))))"

definition object_isInstanceNew :: "'s object_ops list \<Rightarrow> u16 \<Rightarrow> u16 \<Rightarrow> 's \<Rightarrow> bool" where
  "object_isInstanceNew objs oid iid s =
     (case find_object objs oid of None \<Rightarrow> True | Some ob \<Rightarrow> \<not> has_instance ob s iid)"

definition object_createInstance ::
    "'s object_ops list \<Rightarrow> lwm2m_uri \<Rightarrow> lwm2m_data \<Rightarrow> 's \<Rightarrow> mem \<Rightarrow> (byte \<times> 's \<times> mem) res" where
  "object_createInstance objs u d s m =
     (case find_object objs (objectId u) of
        None \<Rightarrow> Inr (COAP_404_NOT_FOUND, s, m)
      | Some ob \<Rightarrow>
        (case createFunc ob of
           None \<Rightarrow> Inr (COAP_405_METHOD_NOT_ALLOWED, s, m)
         | Some f \<Rightarrow>
             bindE (children d) (\<lambda>ds. f (lwm2m_list_newId (\<lambda>x. x) (instances ob s)) ds s m)))"

definition object_writeInstance ::
    "'s object_ops list \<Rightarrow> lwm2m_uri \<Rightarrow> lwm2m_data \<Rightarrow> 's \<Rightarrow> mem \<Rightarrow> (byte \<times> 's \<times> mem) res" where
  "object_writeInstance objs u d s m =
     (case find_object objs (objectId u) of
        None \<Rightarrow> Inr (COAP_404_NOT_FOUND, s, m)
      | Some ob \<Rightarrow>
        (case writeFunc ob of
           None \<Rightarrow> Inr (COAP_405_METHOD_NOT_ALLOWED, s, m)
         | Some f \<Rightarrow> bindE (children d) (\<lambda>ds. f (data_id d) ds s m)))"

section \<open>The payload of a registration\<close>

text \<open>The text \<^verbatim>\<open></id/\<close>; \<open>None\<close> is -1. The copies write a terminator behind the text, which must fit too.\<close>

definition copy_str :: "nat \<Rightarrow> byte list \<Rightarrow> byte list \<Rightarrow> byte list option res" where
  "copy_str cap s out = Inr (map_option (\<lambda>t. out @ butlast t) (utils_stringCopy (cap - length out) s))"

definition copy_int :: "nat \<Rightarrow> u16 \<Rightarrow> byte list \<Rightarrow> byte list option res" where
  "copy_int cap v out =
     bindE (utils_intCopy (cap - length out) (ucast v)) (\<lambda>r. Inr (map_option (\<lambda>t. out @ butlast t) r))"

definition prv_getObjectTemplate :: "nat \<Rightarrow> u16 \<Rightarrow> byte list option res" where
  "prv_getObjectTemplate cap i =
     (if cap < 5 then Inr None
      else bindO (copy_int cap i (bytes ''</'')) (\<lambda>t.
        Inr (if cap - length t < 2 then None else Some (t @ bytes ''/''))))"

text \<open>
  The loop over the instances of an object. \<open>out\<close> ends with the template \<open>t\<close> in the first round; later
  rounds copy it.
\<close>

fun payload_instances :: "nat \<Rightarrow> byte list \<Rightarrow> bool \<Rightarrow> u16 list \<Rightarrow> byte list \<Rightarrow> byte list option res" where
  "payload_instances cap t first [] out = Inr (Some out)"
| "payload_instances cap t first (i # is) out =
     (if cap - length out \<le> length t then Inr None
      else bindO (copy_int cap i (if first then out else out @ t)) (\<lambda>o1.
        bindO (copy_str cap (bytes ''>,'') o1) (payload_instances cap t False is)))"

fun payload_objects :: "nat \<Rightarrow> 's object_ops list \<Rightarrow> 's \<Rightarrow> byte list \<Rightarrow> byte list option res" where
  "payload_objects cap [] s out = Inr (Some out)"
| "payload_objects cap (ob # obs) s out =
     (if ops_id ob = 0 then payload_objects cap obs s out
      else bindO (prv_getObjectTemplate (cap - length out) (ops_id ob)) (\<lambda>t.
        bindO
          (if instances ob s = [] then copy_str cap (bytes ''>,'') (butlast (out @ t))
           else payload_instances cap t True (instances ob s) (out @ t))
          (payload_objects cap obs s)))"

text \<open>The text without its final comma; \<open>[]\<close> is the result 0.\<close>

definition object_getRegisterPayload ::
    "'s object_ops list \<Rightarrow> byte list option \<Rightarrow> 's \<Rightarrow> nat \<Rightarrow> byte list res" where
  "object_getRegisterPayload objs altPath s cap =
     bindE
       (bindO (copy_str cap (bytes ''<'') []) (\<lambda>o1.
        bindO (copy_str cap (case altPath of Some (c # cs) \<Rightarrow> c # cs | _ \<Rightarrow> bytes ''/'') o1) (\<lambda>o2.
        bindO (copy_str cap (bytes ''>;rt='' @ [34] @ bytes ''oma.lwm2m'' @ [34] @ bytes '','') o2)
          (payload_objects cap objs s))))
       (\<lambda>r. Inr (case r of None \<Rightarrow> [] | Some t \<Rightarrow> butlast t))"

section \<open>The servers of a client\<close>

datatype lwm2m_status =
    STATE_DEREGISTERED
  | STATE_REG_PENDING
  | STATE_REGISTERED
  | STATE_REG_FAILED
  | STATE_REG_UPDATE_PENDING
  | STATE_REG_UPDATE_NEEDED
  | STATE_REG_FULL_UPDATE_NEEDED
  | STATE_DEREG_PENDING
  | STATE_BS_HOLD_OFF
  | STATE_BS_INITIATED
  | STATE_BS_PENDING
  | STATE_BS_FINISHING
  | STATE_BS_FINISHED
  | STATE_BS_FAILING
  | STATE_BS_FAILED

text \<open>The pointer to a server is its \<^verbatim>\<open>secObjInstID\<close>, which no two servers share.\<close>

record lwm2m_server =
  secObjInstID :: u16
  shortID :: u16
  lifetime :: time
  registration :: time
  binding :: lwm2m_binding
  sessionH :: "session option"
  status :: lwm2m_status
  location :: "byte list option"
  dirty :: bool
  block1Data :: "block1_data option"

definition new_server :: "u16 \<Rightarrow> lwm2m_server" where
  "new_server i = \<lparr>secObjInstID = i, shortID = 0, lifetime = 0, registration = 0, binding = BINDING_UNKNOWN,
     sessionH = None, status = STATE_DEREGISTERED, location = None, dirty = False, block1Data = None\<rparr>"

text \<open>A value stored in a \<^verbatim>\<open>time_t\<close> of 32 bits.\<close>

definition to_time :: "i64 \<Rightarrow> time" where
  "to_time v = sint (ucast v :: u32)"

text \<open>A callback that reads the resources of the list; a null callback is called as well.\<close>

definition read_ids ::
    "'s object_ops \<Rightarrow> u16 \<Rightarrow> u16 list \<Rightarrow> 's \<Rightarrow> mem \<Rightarrow> (lwm2m_data list option \<times> mem) res" where
  "read_ids ob i rids s m =
     (case lwm2m_data_new (int (length rids)) m of
        ([], m1) \<Rightarrow> Inr (None, m1)
      | (_ # _, m1) \<Rightarrow>
        (case readFunc ob of
           None \<Rightarrow> Inl NullDeref
         | Some f \<Rightarrow>
           bindE (f i (map (\<lambda>r. Data r V_undefined) rids) s m1) (\<lambda>(r, ds, m2).
             if r \<noteq> COAP_205_CONTENT then Inr (None, m2)
             else if length ds < length rids then Inl OutOfBounds
             else Inr (Some ds, m2))))"

fun find_server_from :: "'s object_ops \<Rightarrow> u16 \<Rightarrow> u16 list \<Rightarrow> 's \<Rightarrow> mem \<Rightarrow> (u16 option \<times> mem) res" where
  "find_server_from ob short [] s m = Inr (None, m)"
| "find_server_from ob short (i # is) s m =
     bindE (read_ids ob i [0] s m) (\<lambda>(r, m1).
       case r of
         None \<Rightarrow> Inr (None, m1)
       | Some ds \<Rightarrow>
           if lwm2m_data_decode_int (hd ds) = Some (ucast short) then Inr (Some i, m1)
           else find_server_from ob short is s m1)"

definition prv_findServerInstance ::
    "'s object_ops option \<Rightarrow> u16 \<Rightarrow> 's \<Rightarrow> mem \<Rightarrow> (u16 option \<times> mem) res" where
  "prv_findServerInstance ob short s m =
     (case ob of
        None \<Rightarrow> Inl NullDeref
      | Some ops \<Rightarrow> find_server_from ops short (instances ops s) s m)"

text \<open>\<open>None\<close> is the result -1, otherwise the server with its lifetime and binding.\<close>

definition prv_getMandatoryInfo ::
    "'s object_ops \<Rightarrow> u16 \<Rightarrow> lwm2m_server \<Rightarrow> 's \<Rightarrow> mem \<Rightarrow> (lwm2m_server option \<times> mem) res" where
  "prv_getMandatoryInfo ob i srv s m =
     bindE (read_ids ob i [1, 7] s m) (\<lambda>(r, m1).
       case r of
         None \<Rightarrow> Inr (None, m1)
       | Some ds \<Rightarrow>
           (case lwm2m_data_decode_int (hd ds) of
              None \<Rightarrow> Inr (None, m1)
            | Some v \<Rightarrow>
                if sint v < 0 \<or> 0xFFFFFFFF < sint v then Inr (None, m1)
                else bindE (as_buffer (ds ! 1)) (\<lambda>b.
                  let bnd = utils_stringToBinding b in
                  Inr (if bnd = BINDING_UNKNOWN then None
                       else Some (srv\<lparr>lifetime := to_time v, binding := bnd\<rparr>), m1))))"

text \<open>
  One instance of the security object that is not known yet: the lists with the new server, and whether
  it could be made.
\<close>

definition add_server ::
    "'s object_ops \<Rightarrow> 's object_ops option \<Rightarrow> u16 \<Rightarrow> lwm2m_server list \<Rightarrow> lwm2m_server list \<Rightarrow> 's \<Rightarrow> mem
     \<Rightarrow> (bool \<times> lwm2m_server list \<times> lwm2m_server list \<times> mem) res" where
  "add_server sec srvs i bsList srvList s m =
     bindE (read_ids sec i [1, 10, 11] s m) (\<lambda>(r, m1).
       case r of
         None \<Rightarrow> Inr (False, bsList, srvList, m1)
       | Some ds \<Rightarrow>
         (case lwm2m_malloc m1 of
            (False, m2) \<Rightarrow> Inr (False, bsList, srvList, m2)
          | (True, m2) \<Rightarrow>
            (case (lwm2m_data_decode_bool (ds ! 0), lwm2m_data_decode_int (ds ! 1)) of
               (Some isBootstrap, Some v) \<Rightarrow>
                 if sint v < (if isBootstrap then 0 else 1) \<or> 0xFFFF < sint v
                 then Inr (False, bsList, srvList, m2)
                 else
                   let t = (new_server i)\<lparr>shortID := ucast v\<rparr> in
                   if isBootstrap then
                     (case lwm2m_data_decode_int (ds ! 2) of
                        None \<Rightarrow> Inr (False, bsList, srvList, m2)
                      | Some h \<Rightarrow>
                          if sint h < 0 \<or> 0xFFFFFFFF < sint h then Inr (False, bsList, srvList, m2)
                          else Inr (True, lwm2m_list_add secObjInstID bsList (t\<lparr>lifetime := to_time h\<rparr>), srvList, m2))
                   else
                     bindE (prv_findServerInstance srvs (shortID t) s m2) (\<lambda>(j, m3).
                       case (j, srvs) of
                         (Some k, Some ops) \<Rightarrow>
                           bindE (prv_getMandatoryInfo ops k t s m3) (\<lambda>(t', m4).
                             Inr (case t' of
                               None \<Rightarrow> (False, bsList, srvList, m4)
                             | Some t2 \<Rightarrow> (True, bsList, lwm2m_list_add secObjInstID srvList t2, m4)))
                       | _ \<Rightarrow> Inr (False, bsList, srvList, m3))
             | _ \<Rightarrow> Inr (False, bsList, srvList, m2))))"

fun add_servers ::
    "'s object_ops \<Rightarrow> 's object_ops option \<Rightarrow> u16 list \<Rightarrow> lwm2m_server list \<Rightarrow> lwm2m_server list \<Rightarrow> 's \<Rightarrow> mem
     \<Rightarrow> (int \<times> lwm2m_server list \<times> lwm2m_server list \<times> mem) res" where
  "add_servers sec srvs [] bsList srvList s m = Inr (0, bsList, srvList, m)"
| "add_servers sec srvs (i # is) bsList srvList s m =
     (if lwm2m_list_find secObjInstID bsList i = None \<and> lwm2m_list_find secObjInstID srvList i = None
      then bindE (add_server sec srvs i bsList srvList s m) (\<lambda>(added, bs', srv', m1).
        if added then add_servers sec srvs is bs' srv' s m1 else Inr (-1, bs', srv', m1))
      else add_servers sec srvs is bsList srvList s m)"

text \<open>The last object with the id counts.\<close>

definition last_object :: "'s object_ops list \<Rightarrow> u16 \<Rightarrow> 's object_ops option" where
  "last_object objs i = find (\<lambda>ob. ops_id ob = i) (rev objs)"

definition object_getServers ::
    "'s object_ops list \<Rightarrow> lwm2m_server list \<Rightarrow> lwm2m_server list \<Rightarrow> 's \<Rightarrow> mem
     \<Rightarrow> (int \<times> lwm2m_server list \<times> lwm2m_server list \<times> mem) res" where
  "object_getServers objs bsList srvList s m =
     (case last_object objs 0 of
        None \<Rightarrow> Inr (-1, bsList, srvList, m)
      | Some sec \<Rightarrow> add_servers sec (last_object objs 1) (instances sec s) bsList srvList s m)"

section \<open>The contract of an object\<close>

lemma find_ids_iff: "sorted_wrt (<) is \<Longrightarrow> lwm2m_list_find (\<lambda>x. x) is i \<noteq> None \<longleftrightarrow> i \<in> set is"
  by (induction "is") auto

text \<open>
  What the dispatch relies on: the instances are listed by ascending ids, a new instance can be added,
  and deleting a listed instance succeeds and removes it, nothing else. \<open>inv\<close> is what the callbacks
  keep of the state.
\<close>

locale instance_object =
  fixes ob :: "'s object_ops" and inv :: "'s \<Rightarrow> bool"
    and del :: "u16 \<Rightarrow> 's \<Rightarrow> mem \<Rightarrow> (byte \<times> 's \<times> mem) res"
  assumes ids_sorted: "inv s \<Longrightarrow> sorted_wrt (<) (instances ob s)"
    and can_delete: "deleteFunc ob = Some del"
    and delete_listed: "inv s \<Longrightarrow> i \<in> set (instances ob s) \<Longrightarrow>
      \<exists>s'. del i s m = Inr (COAP_202_DELETED, s', m) \<and> inv s' \<and> instances ob s' = remove1 i (instances ob s)"
begin

lemma has_instance_iff: "inv s \<Longrightarrow> has_instance ob s i \<longleftrightarrow> i \<in> set (instances ob s)"
  using find_ids_iff [OF ids_sorted] by (simp add: has_instance_def)

text \<open>Deleting all instances ends, and leaves none.\<close>

lemma delete_all_clears:
  "inv s \<Longrightarrow> \<exists>s'. delete_all (instances ob) del s m = Some (Inr (COAP_202_DELETED, s', m))
     \<and> inv s' \<and> instances ob s' = []"
proof (induction "length (instances ob s)" arbitrary: s)
  case 0
  then show ?case by (subst delete_all.simps) simp
next
  case (Suc n)
  then obtain i "is" where ids: "instances ob s = i # is" by (cases "instances ob s") auto
  then obtain s' where s': "del i s m = Inr (COAP_202_DELETED, s', m)" "inv s'" "instances ob s' = is"
    using delete_listed [OF Suc.prems, of i m] by auto
  have "n = length (instances ob s')" using Suc.hyps(2) ids s'(3) by simp
  from Suc.hyps(1) [OF this s'(2)] s'(1) ids show ?case by (subst delete_all.simps) simp
qed

text \<open>A deleted instance is not found any more, whatever is asked of it.\<close>

lemma deleted_gone:
  assumes "inv s" and "i \<in> set (instances ob s)"
  shows "\<exists>s'. del i s m = Inr (COAP_202_DELETED, s', m) \<and> inv s' \<and> \<not> has_instance ob s' i
    \<and> (\<forall>j. j \<noteq> i \<longrightarrow> has_instance ob s' j = has_instance ob s j)"
proof -
  obtain s' where s': "del i s m = Inr (COAP_202_DELETED, s', m)" "inv s'"
      "instances ob s' = remove1 i (instances ob s)"
    using delete_listed [OF assms] by blast
  have "sorted_wrt (<) is \<Longrightarrow> distinct is" for "is" :: "u16 list" by (induction "is") auto
  then have "distinct (instances ob s)" using ids_sorted [OF assms(1)] .
  then have "set (instances ob s') = set (instances ob s) - {i}" using s'(3) by simp
  then show ?thesis using s'(1,2) assms(1) by (intro exI [of _ s']) (simp add: has_instance_iff)
qed

text \<open>Through the dispatch.\<close>

lemma dispatch_delete_all:
  assumes "inv s" and "find_object objs (objectId u) = Some ob" and "\<not> is_set_instance u"
  shows "\<exists>s'. object_delete objs u s m = Some (Inr (COAP_202_DELETED, s', m)) \<and> instances ob s' = []"
  using delete_all_clears [OF assms(1), of m] assms(2,3)
  by (auto simp: object_delete_def can_delete)

lemma dispatch_delete:
  assumes "inv s" and "find_object objs (objectId u) = Some ob" and "is_set_instance u"
    and "instanceId u \<in> set (instances ob s)"
  shows "\<exists>s'. object_delete objs u s m = Some (Inr (COAP_202_DELETED, s', m))
    \<and> inv s' \<and> \<not> has_instance ob s' (instanceId u)
    \<and> (\<forall>j. j \<noteq> instanceId u \<longrightarrow> has_instance ob s' j = has_instance ob s j)"
  using deleted_gone [OF assms(1,4), of m] assms(2,3)
  by (auto simp: object_delete_def can_delete)

end

text \<open>
  What all objects of a client promise together: no callback breaks the invariant, a create under a
  new id.
\<close>

locale object_table =
  fixes objs :: "'s object_ops list" and inv :: "'s \<Rightarrow> bool"
  assumes table_sorted: "ob \<in> set objs \<Longrightarrow> createFunc ob \<noteq> None \<Longrightarrow> inv s \<Longrightarrow> sorted_wrt (<) (instances ob s)"
    and write_keeps: "ob \<in> set objs \<Longrightarrow> writeFunc ob = Some f \<Longrightarrow> inv s \<Longrightarrow>
      f i ds s m = Inr (r, s', m') \<Longrightarrow> inv s'"
    and create_keeps: "ob \<in> set objs \<Longrightarrow> createFunc ob = Some f \<Longrightarrow> inv s \<Longrightarrow>
      i \<notin> set (instances ob s) \<Longrightarrow> f i ds s m = Inr (r, s', m') \<Longrightarrow> inv s'"
    and delete_keeps: "ob \<in> set objs \<Longrightarrow> deleteFunc ob = Some g \<Longrightarrow> inv s \<Longrightarrow>
      g i s m = Inr (r, s', m') \<Longrightarrow> inv s'"
    and execute_keeps: "ob \<in> set objs \<Longrightarrow> executeFunc ob = Some x \<Longrightarrow> inv s \<Longrightarrow>
      x i rid b s m = Inr (r, s', m') \<Longrightarrow> inv s'"
begin

lemma found: "find_object objs i = Some ob \<Longrightarrow> ob \<in> set objs"
  by (auto simp: find_object_def dest: find_in_set)

lemma request_write:
  "inv s \<Longrightarrow> object_write objs u f b s m = Inr (r, s', m') \<Longrightarrow> inv s'"
  by (auto simp: object_write_def bindE_Inr_iff dest!: found dest: write_keeps
      split: option.splits if_splits)

lemma request_execute:
  "inv s \<Longrightarrow> object_execute objs u b s m = Inr (r, s', m') \<Longrightarrow> inv s'"
  by (auto simp: object_execute_def dest!: found dest: execute_keeps split: option.splits if_splits)

lemma new_id:
  assumes "sorted_wrt (<) is" and "length is < 65536"
  shows "lwm2m_list_newId (\<lambda>x. x) is \<notin> set is"
  using newId_free_and_lowest(1) [of "\<lambda>x. x" "is"] assms by (simp add: ids_ascending_def)

lemma request_create:
  assumes "inv s" and "object_create objs u f b s m = Inr (r, u', s', m')"
    and "\<And>ob. ob \<in> set objs \<Longrightarrow> length (instances ob s) < 65536"
  shows "inv s'"
proof -
  have created: "inv s'" if "find_object objs (objectId u) = Some ob" "createFunc ob = Some g"
    "g i ds s m1 = Inr (r, s', m')"
    "\<not> has_instance ob s i \<or> i = lwm2m_list_newId (\<lambda>x. x) (instances ob s)" for ob g i ds m1
  proof -
    have ob: "ob \<in> set objs" using found [OF that(1)] .
    then have sorted: "sorted_wrt (<) (instances ob s)" using table_sorted that(2) assms(1) by simp
    have "i \<notin> set (instances ob s)"
      using that(4) find_ids_iff [OF sorted, of i] new_id [OF sorted assms(3) [OF ob]]
      by (auto simp: has_instance_def)
    then show ?thesis using create_keeps [OF ob that(2) assms(1) _ that(3)] by simp
  qed
  show ?thesis
  proof (cases "find_object objs (objectId u)")
    case None
    then show ?thesis using assms(1,2) by (auto simp: object_create_def split: if_splits)
  next
    case (Some ob)
    show ?thesis
    proof (cases "createFunc ob")
      case None
      then show ?thesis using Some assms(1,2) by (auto simp: object_create_def split: if_splits)
    next
      case g: (Some g)
      show ?thesis
      proof (rule ccontr)
        assume bad: "\<not> inv s'"
        then have no: "\<not> (\<exists>i ds m1. g i ds s m1 = Inr (r, s', m')
            \<and> (\<not> has_instance ob s i \<or> i = lwm2m_list_newId (\<lambda>x. x) (instances ob s)))"
          using created [OF Some g] by blast
        have ne: "s' \<noteq> s" using bad assms(1) by blast
        obtain ds m1 where "lwm2m_data_parse u b f m = Inr (ds, m1)"
          using assms(2) Some g ne by (auto simp: object_create_def Let_def elim!: bindE_Inr_E split: if_splits)
        then show False using assms(2) Some g ne no
          by (cases ds) (fastforce simp: object_create_def Let_def elim!: bindE_Inr_E
              split: if_splits lwm2m_value.splits)+
      qed
    qed
  qed
qed

lemma all_deleted:
  assumes "delete_all ids g s m = Some y"
    and "\<And>i s m r s' m'. inv s \<Longrightarrow> g i s m = Inr (r, s', m') \<Longrightarrow> inv s'"
  shows "inv s \<longrightarrow> (\<forall>r s' m'. y = Inr (r, s', m') \<longrightarrow> inv s')"
proof -
  have "g = g \<longrightarrow> inv s \<longrightarrow> (\<forall>r s' m'. y = Inr (r, s', m') \<longrightarrow> inv s')"
  proof (rule delete_all.raw_induct [OF _ assms(1), where P = "\<lambda>ids h s m y. h = g \<longrightarrow> inv s \<longrightarrow>
        (\<forall>r s' m'. y = Inr (r, s', m') \<longrightarrow> inv s')"])
    fix del ids h s m y
    assume IH: "\<And>ids h s m y. del ids h s m = Some y \<Longrightarrow> h = g \<longrightarrow> inv s \<longrightarrow>
          (\<forall>r s' m'. y = Inr (r, s', m') \<longrightarrow> inv s')"
      and body: "(case ids s of [] \<Rightarrow> Some (Inr (COAP_202_DELETED, s, m))
        | i # _ \<Rightarrow> (case h i s m of Inl e \<Rightarrow> Some (Inl e)
           | Inr (r, s', m') \<Rightarrow> if r \<noteq> COAP_202_DELETED then Some (Inr (r, s', m')) else del ids h s' m')) = Some y"
    show "h = g \<longrightarrow> inv s \<longrightarrow> (\<forall>r s' m'. y = Inr (r, s', m') \<longrightarrow> inv s')"
    proof (intro impI allI)
      fix r s' m'
      assume h: "h = g" "inv s" "y = Inr (r, s', m')"
      consider "ids s = []" | i "is" e where "ids s = i # is" "g i s m = Inl e"
        | i "is" c t m1 where "ids s = i # is" "g i s m = Inr (c, t, m1)"
        by (metis list.exhaust sum.exhaust surj_pair)
      then show "inv s'"
      proof cases
        case 3
        then have t: "inv t" using assms(2) h(2) by blast
        show ?thesis
        proof (cases "c = COAP_202_DELETED")
          case True
          then have "del ids g t m1 = Some y" using body h(1) 3 by simp
          then show ?thesis using IH t h(3) by blast
        next
          case False
          then show ?thesis using body h(1,3) 3 t by simp
        qed
      qed (use body h in simp_all)
    qed
  qed
  then show ?thesis by simp
qed

lemma request_delete:
  assumes "inv s" and "object_delete objs u s m = Some (Inr (r, s', m'))"
  shows "inv s'"
proof (cases "find_object objs (objectId u)")
  case None
  then show ?thesis using assms by (simp add: object_delete_def)
next
  case (Some ob)
  show ?thesis
  proof (cases "deleteFunc ob")
    case None
    then show ?thesis using Some assms by (simp add: object_delete_def)
  next
    case g: (Some g)
    then have keeps: "inv s \<Longrightarrow> g i s m = Inr (r, s', m') \<Longrightarrow> inv s'" for i s m r s' m'
      using delete_keeps [OF found [OF Some]] by blast
    show ?thesis using assms Some g all_deleted [of "instances ob" g s m "Inr (r, s', m')"] keeps
      by (auto simp: object_delete_def split: if_splits)
  qed
qed

end

end
