(* ===== verification/Client_Objects.thy ===== *)
theory Client_Objects
imports Objects Object_Server Object_Security Object_Acl Object_Test
  Object_Device Object_ConnMoni Object_Firmware Object_ConnStat
  Object_Location Connection
begin

text \<open>
  The objects of the LWM2M client demo together: the tables of callbacks that the constructors of
  \<^verbatim>\<open>app/lwm2m\<close> fill in, over one state with the data of all nine objects, their creation
  (\<^verbatim>\<open>lwm2m_init_object\<close> of \<^verbatim>\<open>samples/stm32/lwm2m/client/lwm2m_client_main.c\<close>), and what the requests of a
  server keep of them.
\<close>

section \<open>State\<close>

text \<open>\<open>now\<close> is the time that \<^verbatim>\<open>lwm2m_gettime\<close> answers.\<close>

record client =
  securityObj :: security_object
  serverObj :: server_object
  deviceObj :: device_object
  firmwareObj :: firmware_object
  locationObj :: location_object
  testObj :: test_object
  connMObj :: conn_m_object
  connSObj :: conn_s_object
  aclObj :: acl_object
  now :: i64
  g_reboot :: bool

section \<open>Callbacks on the whole state\<close>

definition reads ::
    "(client \<Rightarrow> 'o) \<Rightarrow> (u16 \<Rightarrow> lwm2m_data list \<Rightarrow> 'o \<Rightarrow> mem \<Rightarrow> (byte \<times> lwm2m_data list \<times> mem) res)
     \<Rightarrow> client reader option" where
  "reads get f = Some (\<lambda>i ds s m. f i ds (get s) m)"

definition writes ::
    "(client \<Rightarrow> 'o) \<Rightarrow> (('o \<Rightarrow> 'o) \<Rightarrow> client \<Rightarrow> client)
     \<Rightarrow> (u16 \<Rightarrow> lwm2m_data list \<Rightarrow> 'o \<Rightarrow> mem \<Rightarrow> (byte \<times> 'o \<times> mem) res) \<Rightarrow> client writer option" where
  "writes get put f =
     Some (\<lambda>i ds s m. bindE (f i ds (get s) m) (\<lambda>(r, ob, m'). Inr (r, put (\<lambda>_. ob) s, m')))"

definition deleting ::
    "(client \<Rightarrow> 'o) \<Rightarrow> (('o \<Rightarrow> 'o) \<Rightarrow> client \<Rightarrow> client) \<Rightarrow> (u16 \<Rightarrow> 'o \<Rightarrow> byte \<times> 'o)
     \<Rightarrow> u16 \<Rightarrow> client \<Rightarrow> mem \<Rightarrow> (byte \<times> client \<times> mem) res" where
  "deleting get put f i s m = (case f i (get s) of (r, ob) \<Rightarrow> Inr (r, put (\<lambda>_. ob) s, m))"

section \<open>The objects\<close>

definition security_ops :: "client object_ops" where
  "security_ops = \<lparr>ops_id = 0,
     instances = (\<lambda>s. map Object_Security.instanceId (instanceList (securityObj s))),
     readFunc = reads securityObj prv_security_read,
     writeFunc = writes securityObj securityObj_update prv_security_write,
     executeFunc = None,
     createFunc = writes securityObj securityObj_update prv_security_create,
     deleteFunc = Some (deleting securityObj securityObj_update prv_security_delete),
     discoverFunc = None\<rparr>"

definition server_ops :: "client object_ops" where
  "server_ops = \<lparr>ops_id = 1,
     instances = (\<lambda>s. map Object_Server.instanceId (instanceList (serverObj s))),
     readFunc = reads serverObj prv_server_read,
     writeFunc = writes serverObj serverObj_update prv_server_write,
     executeFunc = Some (\<lambda>i r b s m. Inr (prv_server_execute i r (serverObj s), s, m)),
     createFunc = writes serverObj serverObj_update prv_server_create,
     deleteFunc = Some (deleting serverObj serverObj_update prv_server_delete),
     discoverFunc = Some (\<lambda>i ds s m. Inr (prv_server_discover ds m))\<rparr>"

definition acl_ops :: "client object_ops" where
  "acl_ops = \<lparr>ops_id = 2,
     instances = (\<lambda>s. map objInstId (instanceList (aclObj s))),
     readFunc = reads aclObj Object_Acl.prv_read,
     writeFunc = writes aclObj aclObj_update Object_Acl.prv_write,
     executeFunc = None,
     createFunc = writes aclObj aclObj_update Object_Acl.prv_create,
     deleteFunc = Some (deleting aclObj aclObj_update Object_Acl.prv_delete),
     discoverFunc = None\<rparr>"

definition device_ops :: "client object_ops" where
  "device_ops = \<lparr>ops_id = 3,
     instances = (\<lambda>s. instanceList (deviceObj s)),
     readFunc = Some (\<lambda>i ds s m. prv_device_read (now s) i ds (deviceObj s) m),
     writeFunc = Some (\<lambda>i ds s m. bindE (prv_device_write (now s) i ds (deviceObj s) m) (\<lambda>(r, ob, m').
       Inr (r, s\<lparr>deviceObj := ob\<rparr>, m'))),
     executeFunc = Some (\<lambda>i r b s m.
       bindE (prv_device_execute i r (length b) (deviceObj s) (g_reboot s)) (\<lambda>(c, ob, g).
         Inr (c, s\<lparr>deviceObj := ob, g_reboot := g\<rparr>, m))),
     createFunc = None,
     deleteFunc = None,
     discoverFunc = Some (\<lambda>i ds s m. Inr (prv_device_discover i ds m))\<rparr>"

definition conn_m_ops :: "client object_ops" where
  "conn_m_ops = \<lparr>ops_id = 4,
     instances = (\<lambda>s. instanceList (connMObj s)),
     readFunc = reads connMObj Object_ConnMoni.prv_read,
     writeFunc = None, executeFunc = None, createFunc = None, deleteFunc = None, discoverFunc = None\<rparr>"

definition firmware_ops :: "client object_ops" where
  "firmware_ops = \<lparr>ops_id = 5,
     instances = (\<lambda>s. instanceList (firmwareObj s)),
     readFunc = reads firmwareObj prv_firmware_read,
     writeFunc = writes firmwareObj firmwareObj_update prv_firmware_write,
     executeFunc = Some (\<lambda>i r b s m.
       bindE (prv_firmware_execute i r (length b) (firmwareObj s)) (\<lambda>(c, ob).
         Inr (c, s\<lparr>firmwareObj := ob\<rparr>, m))),
     createFunc = None, deleteFunc = None, discoverFunc = None\<rparr>"

definition location_ops :: "client object_ops" where
  "location_ops = \<lparr>ops_id = 6,
     instances = (\<lambda>s. instanceList (locationObj s)),
     readFunc = reads locationObj prv_location_read,
     writeFunc = None, executeFunc = None, createFunc = None, deleteFunc = None, discoverFunc = None\<rparr>"

definition conn_s_ops :: "client object_ops" where
  "conn_s_ops = \<lparr>ops_id = 7,
     instances = (\<lambda>s. instanceList (connSObj s)),
     readFunc = reads connSObj Object_ConnStat.prv_read,
     writeFunc = None,
     executeFunc = Some (\<lambda>i r b s m.
       bindE (Object_ConnStat.prv_exec i r (length b) (connSObj s)) (\<lambda>(c, ob).
         Inr (c, s\<lparr>connSObj := ob\<rparr>, m))),
     createFunc = None, deleteFunc = None, discoverFunc = None\<rparr>"

definition test_ops :: "client object_ops" where
  "test_ops = \<lparr>ops_id = 31024,
     instances = (\<lambda>s. map Object_Test.shortID (instanceList (testObj s))),
     readFunc = reads testObj Object_Test.prv_read,
     writeFunc = writes testObj testObj_update Object_Test.prv_write,
     executeFunc = Some (\<lambda>i r b s m.
       bindE (Object_Test.prv_exec i r b (length b) (testObj s)) (\<lambda>(c, out). Inr (c, s, m))),
     createFunc = writes testObj testObj_update Object_Test.prv_create,
     deleteFunc = Some (deleting testObj testObj_update Object_Test.prv_delete),
     discoverFunc = Some (\<lambda>i ds s m. Inr (Object_Test.prv_discover ds m))\<rparr>"

text \<open>The array of the demo, in its order, and the list that \<^verbatim>\<open>lwm2m_configure\<close> sorts it into.\<close>

definition objArray :: "client object_ops list" where
  "objArray = [security_ops, server_ops, device_ops, firmware_ops, location_ops, test_ops,
     conn_m_ops, conn_s_ops, acl_ops]"

definition objectList :: "client object_ops list" where
  "objectList = foldl (lwm2m_list_add ops_id) [] objArray"

section \<open>Start-up\<close>

definition coap_uri_prefix :: "coap_protocol \<Rightarrow> byte list res" where
  "coap_uri_prefix p =
     (case p of
        COAP_UDP \<Rightarrow> Inr (bytes ''coap://'')
      | COAP_UDP_DTLS \<Rightarrow> Inr (bytes ''coaps://'')
      | COAP_TCP \<Rightarrow> Inr (bytes ''coap+tcp://'')
      | COAP_TCP_TLS \<Rightarrow> Inr (bytes ''coaps+tcp://'')
      | COAP_PROTOCOL_OTHER \<Rightarrow> Inl OutOfBounds)"

definition coap_get_port_from_proto :: "coap_protocol \<Rightarrow> byte list option" where
  "coap_get_port_from_proto p =
     (case p of
        COAP_TCP \<Rightarrow> Some (bytes ''6683'')
      | COAP_UDP \<Rightarrow> Some (bytes ''6683'')
      | COAP_TCP_TLS \<Rightarrow> Some (bytes ''6684'')
      | COAP_UDP_DTLS \<Rightarrow> Some (bytes ''6684'')
      | COAP_PROTOCOL_OTHER \<Rightarrow> None)"

text \<open>\<^verbatim>\<open>!strncmp(uri, prefix, strlen(prefix))\<close> on the characters of a C string.\<close>

definition has_prefix :: "byte list \<Rightarrow> byte list \<Rightarrow> bool" where
  "has_prefix p s \<longleftrightarrow> take (length p) s = p"

definition coap_get_protocol_from_uri :: "byte list \<Rightarrow> coap_protocol" where
  "coap_get_protocol_from_uri s =
     (if has_prefix (bytes ''coap://'') s then COAP_UDP
      else if has_prefix (bytes ''coaps://'') s then COAP_UDP_DTLS
      else if has_prefix (bytes ''coap+tcp://'') s then COAP_TCP
      else if has_prefix (bytes ''coaps+tcp://'') s then COAP_TCP_TLS
      else COAP_PROTOCOL_OTHER)"

definition server_binding :: "coap_protocol \<Rightarrow> byte list option" where
  "server_binding p =
     (case p of
        COAP_TCP \<Rightarrow> Some (bytes ''T'')
      | COAP_TCP_TLS \<Rightarrow> Some (bytes ''T'')
      | COAP_UDP \<Rightarrow> Some (bytes ''U'')
      | COAP_UDP_DTLS \<Rightarrow> Some (bytes ''U'')
      | COAP_PROTOCOL_OTHER \<Rightarrow> None)"

text \<open>
  The access control object with its one instance and two values: the result of the last branches of
  \<^verbatim>\<open>lwm2m_init_object\<close>.
\<close>

definition init_acl :: "acl_object \<Rightarrow> u16 \<Rightarrow> mem \<Rightarrow> int \<times> acl_object option \<times> mem" where
  "init_acl ob serverId m =
     (case acc_ctrl_obj_add_inst (Some ob) 0 3 0 serverId m of
        (True, Some ob1, m1) \<Rightarrow>
          (case acc_ctrl_oi_add_ac_val ob1 0 0 0x0f m1 of
             (False, ob2, m2) \<Rightarrow> (-1, Some ob2, m2)
           | (True, ob2, m2) \<Rightarrow>
               (case acc_ctrl_oi_add_ac_val ob2 0 999 0x01 m2 of
                  (b, ob3, m3) \<Rightarrow> (if b then 0 else -1, Some ob3, m3)))
      | (_, p, m1) \<Rightarrow> (-1, p, m1))"

text \<open>
  \<^verbatim>\<open>lwm2m_init_object\<close> with its global variables as arguments. The objects are \<open>None\<close> when an entry of the
  array is null. The text of the URI is written to an array of 50 bytes.
\<close>

definition lwm2m_init_object ::
    "coap_protocol \<Rightarrow> byte list \<Rightarrow> byte list \<Rightarrow> byte list option \<Rightarrow> byte list option \<Rightarrow> u16 \<Rightarrow> int \<Rightarrow> i64 \<Rightarrow> mem
     \<Rightarrow> (int \<times> client option \<times> mem) res" where
  "lwm2m_init_object proto host serverPort pskId pskBuffer pskLen life t m =
     bindE (coap_uri_prefix proto) (\<lambda>p.
       let serverUri = p @ host @ bytes '':'' @ serverPort in
       if 50 \<le> length serverUri then Inl OutOfBounds
       else bindE (get_security_object 123 serverUri pskId pskBuffer pskLen False m) (\<lambda>(sec, m0).
       case sec of None \<Rightarrow> Inr (-1, None, m0) | Some sec' \<Rightarrow>
       bindE (case server_binding proto of
           None \<Rightarrow> Inr (None, m0) | Some b \<Rightarrow> get_server_object 123 b life False m0) (\<lambda>(srv, m1).
       case srv of None \<Rightarrow> Inr (-1, None, m1) | Some srv' \<Rightarrow>
       (case get_object_device m1 of (None, m2) \<Rightarrow> Inr (-1, None, m2) | (Some dev, m2) \<Rightarrow>
       (case get_object_firmware m2 of (None, m3) \<Rightarrow> Inr (-1, None, m3) | (Some fw, m3) \<Rightarrow>
       (case get_object_location t m3 of (None, m4) \<Rightarrow> Inr (-1, None, m4) | (Some loc, m4) \<Rightarrow>
       (case get_test_object m4 of (None, m5) \<Rightarrow> Inr (-1, None, m5) | (Some tst, m5) \<Rightarrow>
       (case get_object_conn_m m5 of (None, m6) \<Rightarrow> Inr (-1, None, m6) | (Some cm, m6) \<Rightarrow>
       (case get_object_conn_s m6 of (None, m7) \<Rightarrow> Inr (-1, None, m7) | (Some cs, m7) \<Rightarrow>
       (case acc_ctrl_create_object m7 of (None, m8) \<Rightarrow> Inr (-1, None, m8) | (Some acl, m8) \<Rightarrow>
       (case init_acl acl 123 m8 of
          (r, None, m9) \<Rightarrow> Inr (r, None, m9)
        | (r, Some acl', m9) \<Rightarrow>
            Inr (r, Some \<lparr>securityObj = sec', serverObj = srv', deviceObj = dev, firmwareObj = fw,
              locationObj = loc, testObj = tst, connMObj = cm, connSObj = cs, aclObj = acl',
              now = t, g_reboot = False\<rparr>, m9))))))))))))"

end
