(* ===== verification/Client_Requests.thy ===== *)
theory Client_Requests
imports Client_Objects
begin

text \<open>
  The requests of a server on the objects of the client demo, through the dispatch of \<^verbatim>\<open>objects.c\<close>:
  what they keep of the objects, and what \<^verbatim>\<open>object_getServers\<close> finds in them.
\<close>

section \<open>The instance lists\<close>

definition test_inv :: "test_object \<Rightarrow> bool" where
  "test_inv obj \<longleftrightarrow> list_inv Object_Test.shortID (\<lambda>_. True) (instanceList obj)"

lemma test_write_inv:
  "test_inv obj \<Longrightarrow> Object_Test.prv_write iid ds obj m = Inr (r, obj', m') \<Longrightarrow> test_inv obj'"
  by (auto simp: test_inv_def Object_Test.prv_write_def dest: test_writer.write_list_inv
      elim!: bindE_Inr_E split: option.splits if_splits)

lemma test_delete_list:
  "snd (Object_Test.prv_delete i obj)
   = obj\<lparr>instanceList := fst (lwm2m_list_remove Object_Test.shortID (instanceList obj) i)\<rparr>"
  by (auto simp: Object_Test.prv_delete_def split: prod.splits option.splits)

lemma test_delete_inv: "test_inv obj \<Longrightarrow> Object_Test.prv_delete i obj = (r, obj') \<Longrightarrow> test_inv obj'"
  using test_delete_list [of i obj] test_writer.removed_inv [of "instanceList obj" i]
  by (simp add: test_inv_def)

lemma test_create_inv:
  assumes "test_inv obj" and "lwm2m_list_find Object_Test.shortID (instanceList obj) iid = None"
    and "Object_Test.prv_create iid ds obj m = Inr (r, obj', m')"
  shows "test_inv obj'"
proof -
  let ?obj = "obj\<lparr>instanceList := lwm2m_list_add Object_Test.shortID (instanceList obj) (zero_test iid)\<rparr>"
  have inv: "test_inv ?obj" using test_writer.added_inv assms(1,2) by (simp add: test_inv_def)
  show ?thesis
    using assms(1,3) test_write_inv [OF inv] test_delete_inv [OF _ surjective_pairing]
    by (auto simp: Object_Test.prv_create_def Let_def elim!: bindE_Inr_E
        split: if_splits prod.splits bool.splits)
qed

text \<open>The ids behind a list that keeps its order, and behind the removal of one of them.\<close>

lemma list_inv_sorted: "list_inv key good xs \<Longrightarrow> sorted_wrt (<) (map key xs)"
  by (simp add: list_inv_def ids_ascending_def)

lemma find_absent: "i \<notin> key ` set xs \<Longrightarrow> lwm2m_list_find key xs i = None"
  by (cases "lwm2m_list_find key xs i") (auto dest: find_in_set)

lemma remove_after_keys:
  "ids_ascending key xs \<Longrightarrow> i \<in> key ` set xs \<Longrightarrow>
   map key (fst (remove_after key xs i)) = remove1 i (map key xs) \<and> snd (remove_after key xs i) \<noteq> None"
  by (induction xs) (fastforce split: prod.splits)+

lemma remove_keys:
  "list_inv key good xs \<Longrightarrow> i \<in> set (map key xs) \<Longrightarrow>
   map key (fst (lwm2m_list_remove key xs i)) = remove1 i (map key xs)
   \<and> snd (lwm2m_list_remove key xs i) \<noteq> None"
  using remove_after_keys [of key xs i] by (simp add: list_inv_def list_remove_eq_after)

section \<open>The invariant of the client\<close>

definition client_inv :: "client \<Rightarrow> bool" where
  "client_inv s \<longleftrightarrow> security_inv (securityObj s) \<and> server_inv (serverObj s) \<and> acl_inv (aclObj s)
     \<and> test_inv (testObj s) \<and> device_inv (deviceObj s)"

lemmas object_invs = security_inv_def server_inv_def acl_inv_def test_inv_def

lemmas ops_defs = security_ops_def server_ops_def acl_ops_def device_ops_def conn_m_ops_def
  firmware_ops_def location_ops_def conn_s_ops_def test_ops_def

lemma ops_ids [simp]:
  "ops_id security_ops = 0" "ops_id server_ops = 1" "ops_id acl_ops = 2" "ops_id device_ops = 3"
  "ops_id conn_m_ops = 4" "ops_id firmware_ops = 5" "ops_id location_ops = 6" "ops_id conn_s_ops = 7"
  "ops_id test_ops = 31024"
  by (simp_all add: ops_defs)

lemma objectList: "objectList = [security_ops, server_ops, acl_ops, device_ops, conn_m_ops, firmware_ops,
    location_ops, conn_s_ops, test_ops]"
  by (simp add: objectList_def objArray_def)

lemma find_objects:
  "find_object objectList 0 = Some security_ops" "find_object objectList 1 = Some server_ops"
  "find_object objectList 2 = Some acl_ops" "find_object objectList 31024 = Some test_ops"
  by (simp_all add: find_object_def objectList)

lemma writes_keeps:
  assumes "writes get put f = Some g" and "g i ds s m = Inr (r, s', m')"
    and "\<And>ob. f i ds (get s) m = Inr (r, ob, m') \<Longrightarrow> P (put (\<lambda>_. ob) s)"
  shows "P s'"
  using assms by (auto simp: writes_def elim!: bindE_Inr_E)

lemma deleting_keeps:
  assumes "deleting get put f i s m = Inr (r, s', m')"
    and "\<And>ob. f i (get s) = (r, ob) \<Longrightarrow> P (put (\<lambda>_. ob) s)"
  shows "P s'"
  using assms by (auto simp: deleting_def split: prod.splits)

lemma table_sorted:
  "client_inv s \<Longrightarrow> \<forall>ob\<in>set objectList. createFunc ob \<noteq> None \<longrightarrow> sorted_wrt (<) (instances ob s)"
  unfolding objectList by (auto simp: ops_defs client_inv_def object_invs list_inv_sorted)

lemma table_write:
  "client_inv s \<Longrightarrow> \<forall>ob\<in>set objectList. writeFunc ob = Some f \<longrightarrow> f i ds s m = Inr (r, s', m') \<longrightarrow> client_inv s'"
  unfolding objectList
  by (auto simp: ops_defs client_inv_def Object_Acl.prv_write_def elim!: writes_keeps bindE_Inr_E
      dest: security_write_inv server_write_inv acl_resources_inv test_write_inv device_write_inv)

lemma table_create:
  "client_inv s \<Longrightarrow> \<forall>ob\<in>set objectList. createFunc ob = Some f \<longrightarrow> i \<notin> set (instances ob s) \<longrightarrow>
   f i ds s m = Inr (r, s', m') \<longrightarrow> client_inv s'"
  unfolding objectList
  by (auto simp: ops_defs client_inv_def elim!: writes_keeps
      dest: security_create_inv [OF _ find_absent] server_create_inv [OF _ find_absent]
        acl_create_inv [OF _ find_absent] test_create_inv [OF _ find_absent])

lemma table_delete:
  "client_inv s \<Longrightarrow> \<forall>ob\<in>set objectList. deleteFunc ob = Some g \<longrightarrow> g i s m = Inr (r, s', m') \<longrightarrow> client_inv s'"
  unfolding objectList
  by (auto simp: ops_defs client_inv_def elim!: deleting_keeps
      dest: security_delete_inv server_delete_inv acl_delete_inv test_delete_inv)

lemma table_execute:
  "client_inv s \<Longrightarrow> \<forall>ob\<in>set objectList. executeFunc ob = Some x \<longrightarrow> x i rid b s m = Inr (r, s', m') \<longrightarrow> client_inv s'"
  unfolding objectList
  by (auto simp: ops_defs client_inv_def elim!: bindE_Inr_E dest: device_execute_inv)

interpretation requests: object_table objectList client_inv
proof unfold_locales
  fix ob :: "client object_ops" and s
  assume "ob \<in> set objectList" "createFunc ob \<noteq> None" "client_inv s"
  then show "sorted_wrt (<) (instances ob s)" using table_sorted by blast
next
  fix ob f s i ds m r s' m'
  assume "ob \<in> set objectList" "writeFunc ob = Some f" "client_inv s" "f i ds s m = Inr (r, s', m')"
  then show "client_inv s'" using table_write by blast
next
  fix ob f s i ds m r s' m'
  assume "ob \<in> set objectList" "createFunc ob = Some f" "client_inv s" "i \<notin> set (instances ob s)"
    "f i ds s m = Inr (r, s', m')"
  then show "client_inv s'" using table_create by blast
next
  fix ob g s i m r s' m'
  assume "ob \<in> set objectList" "deleteFunc ob = Some g" "client_inv s" "g i s m = Inr (r, s', m')"
  then show "client_inv s'" using table_delete by blast
next
  fix ob x s i rid b m r s' m'
  assume "ob \<in> set objectList" "executeFunc ob = Some x" "client_inv s" "x i rid b s m = Inr (r, s', m')"
  then show "client_inv s'" using table_execute by blast
qed

section \<open>Deleting\<close>

lemma deleting_listed:
  assumes "list_inv key good (instanceList (get s))"
    and "\<And>ob. f i ob = (case lwm2m_list_remove key (instanceList ob) i of
        (xs, None) \<Rightarrow> (COAP_404_NOT_FOUND, ob\<lparr>instanceList := xs\<rparr>)
      | (xs, Some _) \<Rightarrow> (COAP_202_DELETED, ob\<lparr>instanceList := xs\<rparr>))"
    and "\<And>ob. get (put (\<lambda>_. ob) s) = ob" and "i \<in> set (map key (instanceList (get s)))"
  shows "\<exists>s'. deleting get put f i s m = Inr (COAP_202_DELETED, s', m)
    \<and> map key (instanceList (get s')) = remove1 i (map key (instanceList (get s)))"
proof -
  obtain xs n where "lwm2m_list_remove key (instanceList (get s)) i = (xs, Some n)"
      "map key xs = remove1 i (map key (instanceList (get s)))"
    using remove_keys [OF assms(1,4)] by (metis fst_conv not_None_eq snd_conv surj_pair)
  then show ?thesis using assms(2) [of "get s"] assms(3) by (simp add: deleting_def)
qed

lemma object_contract:
  assumes "ob \<in> set objectList" and "deleteFunc ob = Some del" and "createFunc ob \<noteq> None"
    and "\<And>s i m. client_inv s \<Longrightarrow> i \<in> set (instances ob s) \<Longrightarrow> \<exists>s'. del i s m = Inr (COAP_202_DELETED, s', m)
      \<and> instances ob s' = remove1 i (instances ob s)"
  shows "instance_object ob client_inv del"
  using assms table_sorted table_delete [of _ del] by unfold_locales (blast, blast, blast)

interpretation security_instances: instance_object security_ops client_inv
    "deleting securityObj securityObj_update prv_security_delete"
proof (rule object_contract)
  fix s i m
  assume "client_inv s" and "i \<in> set (instances security_ops s)"
  then show "\<exists>s'. deleting securityObj securityObj_update prv_security_delete i s m = Inr (COAP_202_DELETED, s', m)
      \<and> instances security_ops s' = remove1 i (instances security_ops s)"
    using deleting_listed [of Object_Security.instanceId good_security securityObj s prv_security_delete i
        securityObj_update m]
    by (simp add: security_ops_def client_inv_def security_inv_def prv_security_delete_def)
qed (simp_all add: objectList, simp_all add: security_ops_def writes_def)

interpretation server_instances: instance_object server_ops client_inv
    "deleting serverObj serverObj_update prv_server_delete"
proof (rule object_contract)
  fix s i m
  assume "client_inv s" and "i \<in> set (instances server_ops s)"
  then show "\<exists>s'. deleting serverObj serverObj_update prv_server_delete i s m = Inr (COAP_202_DELETED, s', m)
      \<and> instances server_ops s' = remove1 i (instances server_ops s)"
    using deleting_listed [of Object_Server.instanceId good_server serverObj s prv_server_delete i
        serverObj_update m]
    by (simp add: server_ops_def client_inv_def server_inv_def prv_server_delete_def)
qed (simp_all add: objectList, simp_all add: server_ops_def writes_def)

interpretation acl_instances: instance_object acl_ops client_inv
    "deleting aclObj aclObj_update Object_Acl.prv_delete"
proof (rule object_contract)
  fix s i m
  assume "client_inv s" and "i \<in> set (instances acl_ops s)"
  then show "\<exists>s'. deleting aclObj aclObj_update Object_Acl.prv_delete i s m = Inr (COAP_202_DELETED, s', m)
      \<and> instances acl_ops s' = remove1 i (instances acl_ops s)"
    using deleting_listed [of objInstId good_acl aclObj s Object_Acl.prv_delete i aclObj_update m]
    by (simp add: acl_ops_def client_inv_def acl_inv_def Object_Acl.prv_delete_def)
qed (simp_all add: objectList, simp_all add: acl_ops_def writes_def)

interpretation test_instances: instance_object test_ops client_inv
    "deleting testObj testObj_update Object_Test.prv_delete"
proof (rule object_contract)
  fix s i m
  assume "client_inv s" and "i \<in> set (instances test_ops s)"
  then show "\<exists>s'. deleting testObj testObj_update Object_Test.prv_delete i s m = Inr (COAP_202_DELETED, s', m)
      \<and> instances test_ops s' = remove1 i (instances test_ops s)"
    using deleting_listed [of Object_Test.shortID "\<lambda>_. True" testObj s Object_Test.prv_delete i
        testObj_update m]
    by (simp add: test_ops_def client_inv_def test_inv_def Object_Test.prv_delete_def)
qed (simp_all add: objectList, simp_all add: test_ops_def writes_def)

end
