(* ===== verification/Client_Reachable.thy ===== *)
theory Client_Reachable
imports Client_Requests
begin

text \<open>
  The client demo from its start: what every sequence of requests keeps of its objects, and that the
  core can always read the servers and their credentials from them.
\<close>

section \<open>Reachable clients\<close>

text \<open>
  What happens to the objects: the requests of a server, a local change of the device, and time. An
  instance is only created while an id is free.
\<close>

inductive client_step :: "client \<Rightarrow> client \<Rightarrow> bool" where
  step_write: "object_write objectList u f b s m = Inr (r, s', m') \<Longrightarrow> client_step s s'"
| step_execute: "object_execute objectList u b s m = Inr (r, s', m') \<Longrightarrow> client_step s s'"
| step_create: "object_create objectList u f b s m = Inr (r, u', s', m') \<Longrightarrow>
    list_all (\<lambda>ob. length (instances ob s) < 65536) objectList \<Longrightarrow> client_step s s'"
| step_delete: "object_delete objectList u s m = Some (Inr (r, s', m')) \<Longrightarrow> client_step s s'"
| step_change: "device_change d (deviceObj s) = Inr (r, ob) \<Longrightarrow> client_step s (s\<lparr>deviceObj := ob\<rparr>)"
| step_time: "client_step s (s\<lparr>now := t\<rparr>)"

lemma client_step_inv:
  assumes "client_inv s" and "client_step s s'"
  shows "client_inv s'"
  using assms(2)
proof cases
  case (step_create u f b m r u' m')
  then show ?thesis
    using assms(1) requests.request_create [of s u f b m r u' s' m'] by (simp add: list_all_iff)
next
  case (step_change d r ob)
  then show ?thesis using assms(1) device_change_inv [of "deviceObj s" d r ob] by (simp add: client_inv_def)
next
  case (step_time t)
  then show ?thesis using assms(1) by (simp add: client_inv_def)
qed (use assms(1) in \<open>blast intro: requests.request_write requests.request_execute requests.request_delete\<close>)+

interpretation client_steps: step_invariant client_step client_inv
  by unfold_locales (rule client_step_inv)

section \<open>Start-up\<close>

lemma init_security:
  assumes "unat pskLen \<le> length key"
  shows "\<exists>ob t. get_security_object 123 u (Some pid) (Some key) pskLen False [] = Inr (Some ob, [])
    \<and> instanceList ob = [t] \<and> good_security t \<and> Object_Security.instanceId t = 0
    \<and> isBootstrap t = False \<and> Object_Security.shortID t = 123"
  using assms
  by (auto simp: get_security_object_def zero_security_def good_security_def block_string_def block_ok_def
      block_bytes_def c_string_def Let_def unat_of_nat)

lemma init_server:
  assumes "length b = 1"
  shows "\<exists>ob. get_server_object 123 b life False [] = Inr (Some ob, [])
    \<and> instanceList ob = [(zero_server 0)\<lparr>shortServerId := 123, lifetime := word_of_int life, storing := False,
        binding := b @ [0, 0, 0]\<rparr>]"
proof -
  have "replicate (4 - length b) (0 :: byte) = [0, 0, 0]" using assms by (simp add: numeral_3_eq_3)
  then show ?thesis using assms by (simp add: get_server_object_def Let_def)
qed

section \<open>The servers of a client\<close>

lemma read_ids_security:
  assumes "instanceList (securityObj s) = [t]" and "good_security t" and "Object_Security.instanceId t = 0"
    and "rs \<noteq> []" and "set rs \<subseteq> set LWM2M_SECURITY_RESOURCES"
  shows "read_ids security_ops 0 rs s [] = Inr (Some (map (\<lambda>r. Data r (security_value t r)) rs), [])"
proof -
  have "read_loop (Object_Security.prv_get_value t) (map (\<lambda>r. Data r V_undefined) rs) []
      = Inr (COAP_205_CONTENT, map (\<lambda>r. Data r (security_value t r)) rs, [])"
    by (rule security_reader.read_known) (use assms(2,4,5) in auto)
  then show ?thesis using assms(1,3,4)
    by (cases rs) (simp_all add: read_ids_def security_ops_def reads_def prv_security_read_def nat_add_distrib)
qed

lemma read_ids_server:
  assumes "instanceList (serverObj s) = [t]" and "good_server t" and "Object_Server.instanceId t = 0"
    and "rs \<noteq> []" and "set rs \<subseteq> set LWM2M_SERVER_RESOURCES"
  shows "read_ids server_ops 0 rs s [] = Inr (Some (map (\<lambda>r. Data r (server_value t r)) rs), [])"
proof -
  have "read_loop (Object_Server.prv_get_value t) (map (\<lambda>r. Data r V_undefined) rs) []
      = Inr (COAP_205_CONTENT, map (\<lambda>r. Data r (server_value t r)) rs, [])"
    by (rule server_reader.read_known) (use assms(2,4,5) in auto)
  then show ?thesis using assms(1,3,4)
    by (cases rs) (simp_all add: read_ids_def server_ops_def reads_def prv_server_read_def nat_add_distrib)
qed

lemma sint_widened: "sint (ucast (x :: u32) :: i64) = uint x"
proof -
  have "uint x < 2 ^ 32" using uint_lt2p [of x] by simp
  then have "signed_take_bit 63 (uint x) = uint x" "take_bit 64 (uint x) = uint x"
    by (intro signed_take_bit_int_eq_self take_bit_int_eq_self; simp add: order.trans [OF _ uint_nonnegative])+
  then show ?thesis by (simp add: sint_uint unsigned_ucast_eq)
qed

lemma widened_back: "ucast (ucast (x :: u32) :: i64) = x"
  by (rule bit_word_eqI) (simp add: bit_ucast_iff)

lemma last_objects:
  "last_object objectList 0 = Some security_ops" "last_object objectList 1 = Some server_ops"
  by (simp_all add: last_object_def objectList)

definition single_server :: "time \<Rightarrow> lwm2m_binding \<Rightarrow> lwm2m_server" where
  "single_server life b = (new_server 0)\<lparr>lwm2m_server.shortID := 123, lwm2m_server.lifetime := life,
     lwm2m_server.binding := b\<rparr>"

text \<open>A client with one instance of the security object, which is not a bootstrap server.\<close>

lemma getServers_single:
  assumes sec: "instanceList (securityObj s) = [t]" "good_security t" "Object_Security.instanceId t = 0"
      "\<not> isBootstrap t" "Object_Security.shortID t = 123"
    and srv: "instanceList (serverObj s) = [v]" "good_server v" "Object_Server.instanceId v = 0"
      "shortServerId v = 123"
    and b: "utils_stringToBinding (takeWhile (\<lambda>b. b \<noteq> 0) (Object_Server.binding v)) = b" "b \<noteq> BINDING_UNKNOWN"
  shows "object_getServers objectList [] [] s [] = Inr (0, [],
    [single_server (sint (Object_Server.lifetime v)) b], [])"
proof -
  have ids: "instances security_ops s = [0]" "instances server_ops s = [0]"
    using sec srv by (simp_all add: security_ops_def server_ops_def)
  have r1: "read_ids security_ops 0 [1, 10, 11] s []
      = Inr (Some (map (\<lambda>r. Data r (security_value t r)) [1, 10, 11]), [])"
    by (rule read_ids_security [OF sec(1-3)]) (simp_all add: LWM2M_SECURITY_RESOURCES_def)
  have r2: "read_ids server_ops 0 [0] s [] = Inr (Some (map (\<lambda>r. Data r (server_value v r)) [0]), [])"
    by (rule read_ids_server [OF srv(1-3)]) (simp_all add: LWM2M_SERVER_RESOURCES_def)
  have r3: "read_ids server_ops 0 [1, 7] s [] = Inr (Some (map (\<lambda>r. Data r (server_value v r)) [1, 7]), [])"
    by (rule read_ids_server [OF srv(1-3)]) (simp_all add: LWM2M_SERVER_RESOURCES_def)
  have find: "prv_findServerInstance (Some server_ops) 123 s [] = Inr (Some 0, [])"
    using r2 srv(4) ids
    by (simp add: prv_findServerInstance_def server_value_def lwm2m_data_decode_int_def)
  have life: "\<not> sint (ucast (Object_Server.lifetime v) :: i64) < 0"
    "\<not> 0xFFFFFFFF < sint (ucast (Object_Server.lifetime v) :: i64)"
    "to_time (ucast (Object_Server.lifetime v)) = sint (Object_Server.lifetime v)"
    using uint_lt2p [of "Object_Server.lifetime v"] by (simp_all add: sint_widened to_time_def widened_back)
  have info: "prv_getMandatoryInfo server_ops 0 x s []
      = Inr (Some (x\<lparr>lwm2m_server.lifetime := sint (Object_Server.lifetime v), lwm2m_server.binding := b\<rparr>), [])" for x
    using r3 life b
    by (simp add: prv_getMandatoryInfo_def server_value_def lwm2m_data_decode_int_def as_buffer_def Let_def)
  have add: "add_server security_ops (Some server_ops) 0 [] [] s [] = Inr (True, [],
      [single_server (sint (Object_Server.lifetime v)) b], [])"
    using r1 sec(4,5) find info
    by (simp add: add_server_def single_server_def security_value_def lwm2m_data_decode_int_def lwm2m_data_decode_bool_def Let_def)
  show ?thesis using add ids by (simp add: object_getServers_def last_objects)
qed

section \<open>The client after its start\<close>

lemma init_others:
  "\<exists>ob. get_object_firmware [] = (Some ob, [])" "\<exists>ob. get_object_location t [] = (Some ob, [])"
  "\<exists>ob. get_object_conn_m [] = (Some ob, [])" "\<exists>ob. get_object_conn_s [] = (Some ob, [])"
  "\<exists>ob. get_object_device [] = (Some ob, [])"
  by (simp_all add: get_object_firmware_def get_object_location_def get_object_conn_m_def
      get_object_conn_s_def get_object_device_def)

lemma init_test: "\<exists>ob. get_test_object [] = (Some ob, []) \<and> test_inv ob"
  by (simp add: get_test_object_def test_inv_def list_inv_def)

lemma init_acl_ok: "\<exists>ob ob'. acc_ctrl_create_object [] = (Some ob, []) \<and> init_acl ob 123 [] = (0, Some ob', [])
    \<and> acl_inv ob'"
  by (simp add: acc_ctrl_create_object_def init_acl_def acc_ctrl_obj_add_inst_def acc_ctrl_oi_add_ac_val_def
      prv_add_ac_val_def acl_inv_def list_inv_def good_acl_def)

definition demo_binding :: "coap_protocol \<Rightarrow> lwm2m_binding" where
  "demo_binding proto = (if proto = COAP_TCP \<or> proto = COAP_TCP_TLS then BINDING_T else BINDING_U)"

lemma init_value:
  assumes "coap_uri_prefix proto = Inr p" and "length p + length host + length port < 49"
    and "unat pskLen \<le> length key"
  shows "\<exists>s. lwm2m_init_object proto host port (Some pid) (Some key) pskLen life t [] = Inr (0, Some s, [])
    \<and> client_inv s
    \<and> object_getServers objectList [] [] s [] = Inr (0, [], [single_server (sint (word_of_int life :: u32)) (demo_binding proto)], [])"
proof -
  obtain sec t1 where sec: "get_security_object 123 (p @ host @ bytes '':'' @ port) (Some pid) (Some key) pskLen
        False [] = Inr (Some sec, [])"
      "instanceList sec = [t1]" "good_security t1" "Object_Security.instanceId t1 = 0"
      "\<not> isBootstrap t1" "Object_Security.shortID t1 = 123"
    using init_security [OF assms(3), of "p @ host @ bytes '':'' @ port" pid] by auto
  obtain b where b: "server_binding proto = Some b" "length b = 1"
      "utils_stringToBinding (takeWhile (\<lambda>b. b \<noteq> 0) (b @ [0, 0, 0])) = demo_binding proto"
    using assms(1) by (cases proto) (simp_all add: server_binding_def coap_uri_prefix_def bytes_def
        utils_stringToBinding_def demo_binding_def Let_def)
  let ?v = "(zero_server 0)\<lparr>shortServerId := 123, Object_Server.lifetime := word_of_int life,
      storing := False, Object_Server.binding := b @ [0, 0, 0]\<rparr>"
  obtain srv where srv: "get_server_object 123 b life False [] = Inr (Some srv, [])" "instanceList srv = [?v]"
    using init_server [OF b(2), of life] by auto
  obtain fw loc tst cm cs dev acl acl' where rest: "get_object_device [] = (Some dev, [])"
      "get_object_firmware [] = (Some fw, [])" "get_object_location t [] = (Some loc, [])"
      "get_test_object [] = (Some tst, [])" "get_object_conn_m [] = (Some cm, [])"
      "get_object_conn_s [] = (Some cs, [])" "acc_ctrl_create_object [] = (Some acl, [])"
      "init_acl acl 123 [] = (0, Some acl', [])" "acl_inv acl'" "test_inv tst" "device_inv dev"
    using init_others init_test init_acl_ok new_device_inv by metis
  let ?s = "\<lparr>securityObj = sec, serverObj = srv, deviceObj = dev, firmwareObj = fw,
      locationObj = loc, testObj = tst, connMObj = cm, connSObj = cs, aclObj = acl', now = t,
      g_reboot = False\<rparr>"
  have len: "length (p @ host @ bytes '':'' @ port) < 50" using assms(2) by (simp add: bytes_def)
  have init: "lwm2m_init_object proto host port (Some pid) (Some key) pskLen life t [] = Inr (0, Some ?s, [])"
    using assms(1) len sec(1) srv(1) rest(1-8) b(1) by (simp add: lwm2m_init_object_def)
  have good: "good_server ?v" using b(2) by (simp add: good_server_def nth_append)
  have "client_inv ?s"
    using sec srv good rest
    by (simp add: client_inv_def security_inv_def server_inv_def list_inv_def)
  moreover have "object_getServers objectList [] [] ?s []
      = Inr (0, [], [single_server (sint (word_of_int life :: u32)) (demo_binding proto)], [])"
    using getServers_single [of ?s t1 ?v "demo_binding proto"] sec srv good b
    by (simp add: zero_server_def demo_binding_def)
  ultimately show ?thesis using init by blast
qed

lemma init_premises:
  assumes "lwm2m_init_object proto host port (Some pid) (Some key) pskLen life t [] = Inr (rc, Some s, m)"
  shows "\<exists>p. coap_uri_prefix proto = Inr p \<and> length p + length host + length port < 49"
    and "unat pskLen \<le> length key"
proof -
  obtain p sec m0 where p: "coap_uri_prefix proto = Inr p"
      "\<not> 50 \<le> length (p @ host @ bytes '':'' @ port)"
      "get_security_object 123 (p @ host @ bytes '':'' @ port) (Some pid) (Some key) pskLen False [] = Inr (sec, m0)"
    using assms unfolding lwm2m_init_object_def Let_def by (auto elim!: bindE_Inr_E split: if_splits)
  show "\<exists>p. coap_uri_prefix proto = Inr p \<and> length p + length host + length port < 49"
    using p(1,2) by (auto simp: bytes_def)
  show "unat pskLen \<le> length key"
  proof (cases "pskLen = 0")
    case False
    then show ?thesis using p(3)
      by (auto simp: get_security_object_def Let_def block_bytes_def word_gt_0 unat_eq_0 elim!: bindE_Inr_E
          split: if_splits)
  qed simp
qed

section \<open>Reads that never fail\<close>

lemma ok_bindI: "ok x \<Longrightarrow> (\<And>y. x = Inr y \<Longrightarrow> ok (f y)) \<Longrightarrow> ok (bindE x f)"
  by (auto simp: ok_iff)

lemma read_instances_ok: "(\<And>i ds m. ok (f i ds s m)) \<Longrightarrow> ok (read_instances f is s m)"
proof (induction "is" arbitrary: m)
  case Nil
  then show ?case by simp
next
  case (Cons i "is")
  obtain r ds m1 where "f i [] s m = Inr (r, ds, m1)" using Cons.prems [of i "[]" m] by (auto simp: ok_iff)
  moreover have "ok (read_instances f is s m1)" by (rule Cons.IH [OF Cons.prems])
  then obtain x where "read_instances f is s m1 = Inr x" unfolding ok_iff by blast
  ultimately show ?case by (cases x) (simp add: Let_def)
qed

lemma readData_ok:
  assumes "find_object objs (lwm2m_uri.objectId u) = Some ob" and "readFunc ob = Some f" and "\<And>i ds m. ok (f i ds s m)"
  shows "ok (object_readData objs u s m)"
  using assms read_instances_ok [of f s]
  by (auto simp: object_readData_def read_uri_def read_resource_def read_all_def split: prod.splits list.splits)

lemma security_read_length:
  "ds \<noteq> [] \<Longrightarrow> prv_security_read i ds ob m = Inr (COAP_205_CONTENT, ds', m') \<Longrightarrow> length ds' = length ds"
  by (auto simp: prv_security_read_def dest: read_loop_length split: option.splits)

lemma server_read_length:
  "ds \<noteq> [] \<Longrightarrow> prv_server_read i ds ob m = Inr (COAP_205_CONTENT, ds', m') \<Longrightarrow> length ds' = length ds"
  by (auto simp: prv_server_read_def dest: read_loop_length split: option.splits)

lemma read_ids_ok:
  assumes "readFunc ob = Some f" and "\<And>i ds m. ok (f i ds s m)"
    and "\<And>i ds m ds' m'. ds \<noteq> [] \<Longrightarrow> f i ds s m = Inr (COAP_205_CONTENT, ds', m') \<Longrightarrow> length ds' = length ds"
    and "rs \<noteq> []"
  shows "ok (read_ids ob i rs s m)"
proof (cases "lwm2m_data_new (int (length rs)) m")
  case (Pair xs m1)
  show ?thesis
  proof (cases xs)
    case Nil
    then show ?thesis using Pair by (simp add: read_ids_def)
  next
    case (Cons y ys)
    obtain r ds m2 where "f i (map (\<lambda>r. Data r V_undefined) rs) s m1 = Inr (r, ds, m2)"
      using assms(2) [of i _ m1] by (metis ok_iff surj_pair)
    then show ?thesis using Cons Pair assms(1,4) assms(3) [of "map (\<lambda>r. Data r V_undefined) rs" i m1 ds m2]
      by (auto simp: read_ids_def)
  qed
qed

lemma client_reads:
  assumes "client_inv s"
  shows "ok (prv_security_read i ds (securityObj s) m)" and "ok (prv_server_read i ds (serverObj s) m)"
  using assms security_read_ok server_read_ok by (simp_all add: client_inv_def)

lemma ids_ok:
  assumes "client_inv s" and "rs \<noteq> []"
  shows "ok (read_ids security_ops i rs s m)" and "ok (read_ids server_ops i rs s m)"
proof -
  show "ok (read_ids security_ops i rs s m)"
    by (rule read_ids_ok [of _ "\<lambda>i ds s m. prv_security_read i ds (securityObj s) m"])
      (use assms client_reads(1) security_read_length in \<open>auto simp: security_ops_def reads_def\<close>)
  show "ok (read_ids server_ops i rs s m)"
    by (rule read_ids_ok [of _ "\<lambda>i ds s m. prv_server_read i ds (serverObj s) m"])
      (use assms client_reads(2) server_read_length in \<open>auto simp: server_ops_def reads_def\<close>)
qed

text \<open>What is read of a binding is a buffer.\<close>

lemma server_binding_buffer:
  assumes "prv_server_read i [Data 1 V_undefined, Data 7 V_undefined] ob m = Inr (COAP_205_CONTENT, ds, m')"
  shows "ok (as_buffer (ds ! 1))"
proof -
  obtain t where "read_loop (Object_Server.prv_get_value t) [Data 1 V_undefined, Data 7 V_undefined] m
      = Inr (COAP_205_CONTENT, ds, m')"
    using assms by (auto simp: prv_server_read_def split: option.splits)
  then obtain m1 m2 where "Object_Server.prv_get_value t (Data 7 V_undefined) m1 = Inr (COAP_205_CONTENT, ds ! 1, m2)"
    using read_loop_nth [of "Object_Server.prv_get_value t" "[Data 1 V_undefined, Data 7 V_undefined]" m ds m' 1] by auto
  then show ?thesis
    by (auto simp: Object_Server.prv_get_value_def lwm2m_data_encode_string_def as_buffer_def
        elim!: bindE_Inr_E split: if_splits prod.splits option.splits dest!: sym [of _ "ds ! Suc 0"])
qed

lemma mandatory_ok:
  assumes "client_inv s"
  shows "ok (prv_getMandatoryInfo server_ops i srv s m)"
proof -
  obtain r m1 where r: "read_ids server_ops i [1, 7] s m = Inr (r, m1)"
    using ids_ok(2) [OF assms, of "[1, 7]" i m] by (auto simp: ok_iff)
  show ?thesis
  proof (cases r)
    case None
    then show ?thesis using r by (simp add: prv_getMandatoryInfo_def)
  next
    case (Some ds)
    have "\<exists>m m'. prv_server_read i [Data 1 V_undefined, Data 7 V_undefined] (serverObj s) m
        = Inr (COAP_205_CONTENT, ds, m')"
      using r Some by (fastforce simp: read_ids_def server_ops_def reads_def elim!: bindE_Inr_E
          split: prod.splits list.splits if_splits)
    then have "ok (as_buffer (ds ! 1))" using server_binding_buffer by blast
    then show ?thesis using r Some
      by (auto simp: prv_getMandatoryInfo_def Let_def ok_iff split: option.splits)
  qed
qed

lemma find_server_ok:
  assumes "client_inv s"
  shows "ok (find_server_from server_ops short is s m)"
proof (induction "is" arbitrary: m)
  case Nil
  then show ?case by simp
next
  case (Cons i "is")
  obtain r m1 where "read_ids server_ops i [0] s m = Inr (r, m1)"
    using ids_ok(2) [OF assms, of "[0]" i m] by (auto simp: ok_iff)
  then show ?case using Cons.IH by (cases r) simp_all
qed

lemma add_server_ok:
  assumes "client_inv s"
  shows "ok (add_server security_ops (Some server_ops) i bs srvs s m)"
proof -
  obtain r m1 where r: "read_ids security_ops i [1, 10, 11] s m = Inr (r, m1)"
    using ids_ok(1) [OF assms, of "[1, 10, 11]" i m] by (auto simp: ok_iff)
  have find: "ok (prv_findServerInstance (Some server_ops) k s m)" for k m
    using find_server_ok [OF assms] by (simp add: prv_findServerInstance_def)
  show ?thesis
    unfolding add_server_def r bindE_simps prod.case
    by (auto simp: Let_def intro!: ok_bindI find mandatory_ok [OF assms] split: option.split prod.split bool.split)
qed

lemma getServers_ok:
  assumes "client_inv s"
  shows "ok (object_getServers objectList bs srvs s m)"
proof -
  have "ok (add_servers security_ops (Some server_ops) is bs srvs s m)" for "is"
  proof (induction "is" arbitrary: bs srvs m)
    case Nil
    then show ?case by simp
  next
    case (Cons i "is")
    then show ?case using add_server_ok [OF assms, of i bs srvs m]
      by (auto simp: ok_iff)
  qed
  then show ?thesis by (simp add: object_getServers_def last_objects)
qed

section \<open>Properties\<close>

text \<open>
  C23. When memory lasts, the start of the demo succeeds for every protocol, host and port that fit the
  array of the URI, and the core then finds exactly one server: number 123, with the lifetime of the
  demo and the binding of its protocol.
\<close>

theorem client_start_finds_server:
  assumes "proto \<noteq> COAP_PROTOCOL_OTHER" and "length host + length port < 37"
    and "unat pskLen \<le> length key" and "0 \<le> life" and "life < 2 ^ 31"
  shows "\<exists>s. lwm2m_init_object proto host port (Some pid) (Some key) pskLen life t [] = Inr (0, Some s, [])
    \<and> client_inv s
    \<and> object_getServers objectList [] [] s [] = Inr (0, [], [single_server life (demo_binding proto)], [])"
proof -
  obtain p where p: "coap_uri_prefix proto = Inr p" "length p \<le> 12"
    using assms(1) by (cases proto) (simp_all add: coap_uri_prefix_def bytes_def)
  have "sint (word_of_int life :: u32) = life"
    using assms(4,5) by (simp add: sint_uint take_bit_int_eq_self signed_take_bit_int_eq_self unsigned_of_int)
  then show ?thesis using init_value [OF p(1) _ assms(3), of host port pid life t] p(2) assms(2) by simp
qed

lemma client_start_finds_server_witness:
  "\<exists>s. lwm2m_init_object COAP_UDP_DTLS (bytes ''wsncoap.org'') (bytes ''6684'') (Some (bytes ''PSK_identity''))
      (Some (bytes ''11111111'' @ [0])) 8 300 0 [] = Inr (0, Some s, [])
    \<and> client_inv s
    \<and> object_getServers objectList [] [] s [] = Inr (0, [], [single_server 300 BINDING_U], [])"
  using client_start_finds_server [of COAP_UDP_DTLS "bytes ''wsncoap.org''" "bytes ''6684''" 8
      "bytes ''11111111'' @ [0]" 300 "bytes ''PSK_identity''" 0]
  by (simp add: bytes_def demo_binding_def)

text \<open>
  C6. Whatever requests a server sends to the demo after its start, in whatever order, the objects stay
  well-formed, every read of the security and server objects stays in the defined behaviour of C, and so
  does every refresh of the list of servers.
\<close>

theorem client_requests_safe:
  assumes "lwm2m_init_object proto host port (Some pid) (Some key) pskLen life t [] = Inr (rc, Some s0, m0)"
    and "client_step\<^sup>*\<^sup>* s0 s"
  shows "client_inv s \<and> (lwm2m_uri.objectId u \<in> {0, 1} \<longrightarrow> ok (object_readData objectList u s m))
    \<and> ok (object_getServers objectList bs srvs s m)"
proof -
  obtain p where "coap_uri_prefix proto = Inr p" "length p + length host + length port < 49"
    using init_premises(1) [OF assms(1)] by blast
  then have "client_inv s0" using init_value [of proto p host port pskLen key pid life t]
      init_premises(2) [OF assms(1)] assms(1) by auto
  then have inv: "client_inv s" by (rule client_steps.run_inv [OF assms(2)])
  have "ok (object_readData objectList u s m)" if id: "lwm2m_uri.objectId u \<in> {0, 1}"
  proof -
    consider "lwm2m_uri.objectId u = 0" | "lwm2m_uri.objectId u = 1" using id by auto
    then show ?thesis
    proof cases
      case 1
      show ?thesis
        by (rule readData_ok [of _ _ security_ops "\<lambda>i ds s m. prv_security_read i ds (securityObj s) m"])
          (use 1 find_objects client_reads(1) [OF inv] in \<open>simp_all add: security_ops_def reads_def\<close>)
    next
      case 2
      show ?thesis
        by (rule readData_ok [of _ _ server_ops "\<lambda>i ds s m. prv_server_read i ds (serverObj s) m"])
          (use 2 find_objects client_reads(2) [OF inv] in \<open>simp_all add: server_ops_def reads_def\<close>)
    qed
  qed
  then show ?thesis using inv getServers_ok [OF inv] by blast
qed

text \<open>The demo as it is started, after a request that deletes all server instances.\<close>

lemma demo_start:
  "\<exists>s. lwm2m_init_object COAP_UDP_DTLS (bytes ''wsncoap.org'') (bytes ''6684'') (Some (bytes ''PSK_identity''))
      (Some (bytes ''11111111'' @ [0])) 8 300 0 [] = Inr (0, Some s, []) \<and> client_inv s"
  using init_value [of COAP_UDP_DTLS "bytes ''coaps://''" "bytes ''wsncoap.org''" "bytes ''6684''" 8
      "bytes ''11111111'' @ [0]" "bytes ''PSK_identity''" 300 0]
  by (auto simp: bytes_def coap_uri_prefix_def)

lemma client_requests_safe_witness:
  "\<exists>s0 s. lwm2m_init_object COAP_UDP_DTLS (bytes ''wsncoap.org'') (bytes ''6684'') (Some (bytes ''PSK_identity''))
      (Some (bytes ''11111111'' @ [0])) 8 300 0 [] = Inr (0, Some s0, [])
    \<and> object_delete objectList \<lparr>flag = 4, objectId = 1, instanceId = 0, resourceId = 0\<rparr> s0 []
      = Some (Inr (COAP_202_DELETED, s, []))
    \<and> client_inv s \<and> ok (object_getServers objectList [] [] s [])"
proof -
  let ?u = "\<lparr>flag = 4, objectId = 1, instanceId = 0, resourceId = 0\<rparr>"
  obtain s0 where s0: "lwm2m_init_object COAP_UDP_DTLS (bytes ''wsncoap.org'') (bytes ''6684'')
      (Some (bytes ''PSK_identity'')) (Some (bytes ''11111111'' @ [0])) 8 300 0 [] = Inr (0, Some s0, [])"
      "client_inv s0"
    using demo_start by blast
  obtain s where s: "object_delete objectList ?u s0 [] = Some (Inr (COAP_202_DELETED, s, []))"
    using server_instances.dispatch_delete_all [OF s0(2), of objectList ?u "[]"] find_objects(2)
    by (auto simp: is_set_instance_def)
  have "client_step\<^sup>*\<^sup>* s0 s" using step_delete [OF s] by (rule r_into_rtranclp)
  then show ?thesis using s0(1) s client_requests_safe [OF s0(1), of s ?u "[]" "[]" "[]"] by blast
qed

text \<open>
  C22. A delete of all instances of one of the objects that allow it always ends: it is answered with 2.02
  and no instance is left.
\<close>

theorem client_delete_all:
  assumes "client_inv s" and "lwm2m_uri.objectId u \<in> {0, 1, 2, 31024}" and "\<not> is_set_instance u"
  shows "\<exists>ob s'. find_object objectList (lwm2m_uri.objectId u) = Some ob
    \<and> object_delete objectList u s m = Some (Inr (COAP_202_DELETED, s', m))
    \<and> client_inv s' \<and> instances ob s' = []"
proof -
  have "\<exists>s'. object_delete objectList u s m = Some (Inr (COAP_202_DELETED, s', m)) \<and> instances ob s' = []"
    if "find_object objectList (lwm2m_uri.objectId u) = Some ob" "ob \<in> {security_ops, server_ops, acl_ops, test_ops}"
    for ob
    using that assms(1,3) security_instances.dispatch_delete_all server_instances.dispatch_delete_all
      acl_instances.dispatch_delete_all test_instances.dispatch_delete_all
    by auto
  then show ?thesis using assms(1,2) requests.request_delete [OF assms(1), of u m] find_objects by fastforce
qed

lemma client_delete_all_witness:
  "\<exists>s s'. lwm2m_init_object COAP_UDP_DTLS (bytes ''wsncoap.org'') (bytes ''6684'') (Some (bytes ''PSK_identity''))
      (Some (bytes ''11111111'' @ [0])) 8 300 0 [] = Inr (0, Some s, [])
    \<and> object_delete objectList \<lparr>flag = 4, objectId = 31024, instanceId = 0, resourceId = 0\<rparr> s []
      = Some (Inr (COAP_202_DELETED, s', [])) \<and> instances test_ops s' = []"
proof -
  obtain s where s: "lwm2m_init_object COAP_UDP_DTLS (bytes ''wsncoap.org'') (bytes ''6684'')
      (Some (bytes ''PSK_identity'')) (Some (bytes ''11111111'' @ [0])) 8 300 0 [] = Inr (0, Some s, [])"
      "client_inv s"
    using demo_start by blast
  show ?thesis
    using s(1) client_delete_all [OF s(2), of "\<lparr>flag = 4, objectId = 31024, instanceId = 0, resourceId = 0\<rparr>" "[]"]
      find_objects(4)
    by (auto simp: is_set_instance_def)
qed

end
