(* ===== verification/Coap_Packet.thy ===== *)
theory Coap_Packet
imports Lwm2m_Types
begin

text \<open>
  The CoAP packets of \<^verbatim>\<open>external/wakaama/er-coap-13\<close>: the parsed form of a message, the bitmap of its
  options, the lists of repeated options, and the setters and getters of the options.

  A pointer to bytes is the bytes of its array from there on; its length is a field of its own, as
  in the code. The arrays inside a packet (token, ETag, If-Match, Accept) are the list of their used
  elements, so that their length fields (\<^verbatim>\<open>token_len\<close>, \<^verbatim>\<open>etag_len\<close>, \<^verbatim>\<open>if_match_len\<close>, \<^verbatim>\<open>accept_num\<close>) are the
  lengths of the lists.
\<close>

section \<open>Packets\<close>

text \<open>One element of a \<^verbatim>\<open>multi_option_t\<close>: its list is the list of them.\<close>

datatype multi_option = Multi (is_static: bool) (opt_len: byte) (opt_data: "byte list")

definition option_bytes :: "multi_option \<Rightarrow> byte list" where
  "option_bytes x = take (unat (opt_len x)) (opt_data x)"

abbreviation (input) COAP_TYPE_CON :: byte where "COAP_TYPE_CON \<equiv> 0"
abbreviation (input) COAP_TYPE_NON :: byte where "COAP_TYPE_NON \<equiv> 1"
abbreviation (input) COAP_TYPE_ACK :: byte where "COAP_TYPE_ACK \<equiv> 2"
abbreviation (input) COAP_TYPE_RST :: byte where "COAP_TYPE_RST \<equiv> 3"

abbreviation (input) COAP_GET :: byte where "COAP_GET \<equiv> 1"
abbreviation (input) COAP_POST :: byte where "COAP_POST \<equiv> 2"
abbreviation (input) COAP_PUT :: byte where "COAP_PUT \<equiv> 3"
abbreviation (input) COAP_DELETE :: byte where "COAP_DELETE \<equiv> 4"

abbreviation (input) COAP_OPTION_IF_MATCH :: nat where "COAP_OPTION_IF_MATCH \<equiv> 1"
abbreviation (input) COAP_OPTION_URI_HOST :: nat where "COAP_OPTION_URI_HOST \<equiv> 3"
abbreviation (input) COAP_OPTION_ETAG :: nat where "COAP_OPTION_ETAG \<equiv> 4"
abbreviation (input) COAP_OPTION_IF_NONE_MATCH :: nat where "COAP_OPTION_IF_NONE_MATCH \<equiv> 5"
abbreviation (input) COAP_OPTION_OBSERVE :: nat where "COAP_OPTION_OBSERVE \<equiv> 6"
abbreviation (input) COAP_OPTION_URI_PORT :: nat where "COAP_OPTION_URI_PORT \<equiv> 7"
abbreviation (input) COAP_OPTION_LOCATION_PATH :: nat where "COAP_OPTION_LOCATION_PATH \<equiv> 8"
abbreviation (input) COAP_OPTION_URI_PATH :: nat where "COAP_OPTION_URI_PATH \<equiv> 11"
abbreviation (input) COAP_OPTION_CONTENT_TYPE :: nat where "COAP_OPTION_CONTENT_TYPE \<equiv> 12"
abbreviation (input) COAP_OPTION_MAX_AGE :: nat where "COAP_OPTION_MAX_AGE \<equiv> 14"
abbreviation (input) COAP_OPTION_URI_QUERY :: nat where "COAP_OPTION_URI_QUERY \<equiv> 15"
abbreviation (input) COAP_OPTION_ACCEPT :: nat where "COAP_OPTION_ACCEPT \<equiv> 17"
abbreviation (input) COAP_OPTION_TOKEN :: nat where "COAP_OPTION_TOKEN \<equiv> 19"
abbreviation (input) COAP_OPTION_LOCATION_QUERY :: nat where "COAP_OPTION_LOCATION_QUERY \<equiv> 20"
abbreviation (input) COAP_OPTION_BLOCK2 :: nat where "COAP_OPTION_BLOCK2 \<equiv> 23"
abbreviation (input) COAP_OPTION_BLOCK1 :: nat where "COAP_OPTION_BLOCK1 \<equiv> 27"
abbreviation (input) COAP_OPTION_SIZE :: nat where "COAP_OPTION_SIZE \<equiv> 28"
abbreviation (input) COAP_OPTION_PROXY_URI :: nat where "COAP_OPTION_PROXY_URI \<equiv> 35"

definition COAP_TOKEN_LEN :: nat where "COAP_TOKEN_LEN = 8"
definition COAP_ETAG_LEN :: nat where "COAP_ETAG_LEN = 8"
definition COAP_MAX_ACCEPT_NUM :: nat where "COAP_MAX_ACCEPT_NUM = 2"

text \<open>
  The content type is an enumeration whose values fit in 16 bits, the size that the tool chain
  gives it.
\<close>

record coap_packet =
  version :: byte
  msg_type :: byte
  code :: byte
  mid :: u16
  options :: "byte list"
  options_len :: u16
  content_type :: u16
  max_age :: u32
  proxy_uri_len :: nat
  proxy_uri :: "byte list"
  etag :: "byte list"
  uri_host_len :: nat
  uri_host :: "byte list"
  location_path :: "multi_option list"
  uri_port :: u16
  location_query_len :: nat
  location_query :: "byte list"
  uri_path :: "multi_option list"
  observe_num :: u32
  pkt_token :: "byte list"
  accept :: "u16 list"
  if_match :: "byte list"
  block2_num :: u32
  block2_more :: byte
  block2_size :: u16
  block2_offset :: u32
  block1_num :: u32
  block1_more :: byte
  block1_size :: u16
  block1_offset :: u32
  pkt_size :: u32
  uri_query :: "multi_option list"
  if_none_match :: byte
  payload_len :: u16
  payload :: "byte list option"
  protocol :: coap_protocol

text \<open>\<^verbatim>\<open>memset(coap_pkt, 0, sizeof(coap_packet_t))\<close>: the bitmap has the bytes of options 0 to 39.\<close>

definition zero_packet :: coap_packet where
  "zero_packet = \<lparr>version = 0, msg_type = 0, code = 0, mid = 0, options = replicate 5 0, options_len = 0,
     content_type = 0, max_age = 0, proxy_uri_len = 0, proxy_uri = [], etag = [], uri_host_len = 0,
     uri_host = [], location_path = [], uri_port = 0, location_query_len = 0, location_query = [],
     uri_path = [], observe_num = 0, pkt_token = [], accept = [], if_match = [], block2_num = 0,
     block2_more = 0, block2_size = 0, block2_offset = 0, block1_num = 0, block1_more = 0,
     block1_size = 0, block1_offset = 0, pkt_size = 0, uri_query = [], if_none_match = 0,
     payload_len = 0, payload = None, protocol = COAP_UDP\<rparr>"

definition coap_init_message :: "coap_protocol \<Rightarrow> byte \<Rightarrow> byte \<Rightarrow> u16 \<Rightarrow> coap_packet" where
  "coap_init_message proto t c i = zero_packet\<lparr>protocol := proto, msg_type := t, code := c, mid := i\<rparr>"

definition coap_free_header :: "coap_packet \<Rightarrow> coap_packet" where
  "coap_free_header p = p\<lparr>uri_path := [], uri_query := [], location_path := []\<rparr>"

text \<open>The counter of message ids: the id and the new counter.\<close>

definition coap_get_mid :: "u16 \<Rightarrow> u16 \<times> u16" where
  "coap_get_mid current_mid = (current_mid + 1, current_mid + 1)"

section \<open>The bitmap of the options\<close>

definition IS_OPTION :: "coap_packet \<Rightarrow> nat \<Rightarrow> bool" where
  "IS_OPTION p n \<longleftrightarrow> options p ! (n div 8) AND push_bit (n mod 8) 1 \<noteq> 0"

text \<open>For an option whose byte is in the bitmap.\<close>

definition SET_OPTION :: "nat \<Rightarrow> coap_packet \<Rightarrow> coap_packet" where
  "SET_OPTION n p = p\<lparr>options := (options p)[n div 8 := options p ! (n div 8) OR push_bit (n mod 8) 1]\<rparr>"

lemma IS_OPTION_bit: "IS_OPTION p n \<longleftrightarrow> bit (options p ! (n div 8)) (n mod 8)"
  by (simp only: IS_OPTION_def bit_iff_and_push_bit_not_eq_0)

lemma SET_OPTION_length [simp]: "length (options (SET_OPTION n p)) = length (options p)"
  by (simp add: SET_OPTION_def)

lemma IS_OPTION_SET [simp]:
  assumes "length (options p) = 5" and "n < 40" and "m < 40"
  shows "IS_OPTION (SET_OPTION n p) m \<longleftrightarrow> m = n \<or> IS_OPTION p m"
proof -
  have n: "n div 8 < length (options p)" using assms by simp
  have split: "m = n \<longleftrightarrow> m div 8 = n div 8 \<and> m mod 8 = n mod 8" by (metis div_mult_mod_eq)
  show ?thesis
    using n unfolding IS_OPTION_bit SET_OPTION_def split
    by (cases "m div 8 = n div 8") (auto simp: bit_or_iff bit_exp_iff)
qed

lemma zero_packet_options [simp]:
  "length (options zero_packet) = 5"
  "n < 40 \<Longrightarrow> \<not> IS_OPTION zero_packet n"
  by (simp_all add: zero_packet_def IS_OPTION_bit)

section \<open>Repeated options\<close>

text \<open>
  The element is dropped without a notice when it, or the copy of its bytes, cannot be allocated.
  Its length is kept in 8 bits.
\<close>

definition coap_add_multi_option ::
    "multi_option list \<Rightarrow> byte list \<Rightarrow> nat \<Rightarrow> bool \<Rightarrow> mem \<Rightarrow> (multi_option list \<times> mem) res" where
  "coap_add_multi_option dst opt n static m =
     (case lwm2m_malloc m of
        (False, m1) \<Rightarrow> Inr (dst, m1)
      | (True, m1) \<Rightarrow>
          if static then Inr (dst @ [Multi True (word_of_nat n) opt], m1)
          else
            (case lwm2m_malloc m1 of
               (False, m2) \<Rightarrow> Inr (dst, m2)
             | (True, m2) \<Rightarrow>
                 if length opt < n then Inl OutOfBounds
                 else Inr (dst @ [Multi False (word_of_nat n) (take n opt)], m2)))"

text \<open>The text of a path, \<open>None\<close> when it cannot be allocated.\<close>

definition coap_get_multi_option_as_string ::
    "multi_option list \<Rightarrow> mem \<Rightarrow> (byte list option \<times> mem) res" where
  "coap_get_multi_option_as_string opts m =
     (case lwm2m_malloc m of
        (False, m1) \<Rightarrow> Inr (None, m1)
      | (True, m1) \<Rightarrow>
          if \<exists>x \<in> set opts. length (opt_data x) < unat (opt_len x) then Inl OutOfBounds
          else Inr (Some (concat (map (\<lambda>x. of_char CHR ''/'' # option_bytes x) opts)), m1))"

text \<open>
  The loop with which a path or a query is cut at a separator: the options, and the number of bytes
  passed. It ends when no byte is left behind a separator.
\<close>

function add_segments ::
    "byte \<Rightarrow> byte list \<Rightarrow> multi_option list \<Rightarrow> mem \<Rightarrow> (multi_option list \<times> nat \<times> mem) res" where
  "add_segments sep s opts m =
     (let seg = takeWhile (\<lambda>b. b \<noteq> sep) s; rest = drop (length seg) s; i = length seg + (if rest = [] then 0 else 1) in
      bindE (coap_add_multi_option opts seg (length seg) False m) (\<lambda>(opts', m').
        if drop i s = [] then Inr (opts', i, m')
        else bindE (add_segments sep (drop i s) opts' m') (\<lambda>(r, n, m''). Inr (r, i + n, m''))))"
  by pat_completeness auto
termination
proof (relation "measure (\<lambda>(sep, s, opts, m). length s)", goal_cases)
  case 1
  show ?case by simp
next
  case (2 sep s opts m seg rest i z opts' m')
  then have "s \<noteq> []" by auto
  moreover have "0 < i"
  proof (cases "rest = []")
    case True
    then have "seg = s" using 2(1,2) by (metis append_Nil2 append_take_drop_id takeWhile_eq_take)
    with \<open>s \<noteq> []\<close> show ?thesis using 2(3) by simp
  next
    case False
    then show ?thesis using 2(3) by simp
  qed
  ultimately show ?case by simp
qed

declare add_segments.simps [simp del]

section \<open>Setters\<close>

definition coap_set_status_code :: "coap_packet \<Rightarrow> u32 \<Rightarrow> int \<times> coap_packet" where
  "coap_set_status_code p c = (if c \<le> 0xFF then (1, p\<lparr>code := ucast c\<rparr>) else (0, p))"

definition coap_set_header_content_type :: "coap_packet \<Rightarrow> u32 \<Rightarrow> coap_packet" where
  "coap_set_header_content_type p c = SET_OPTION COAP_OPTION_CONTENT_TYPE (p\<lparr>content_type := ucast c\<rparr>)"

definition coap_set_header_accept :: "coap_packet \<Rightarrow> u16 \<Rightarrow> nat \<times> coap_packet" where
  "coap_set_header_accept p a =
     (let p' = (if length (accept p) < COAP_MAX_ACCEPT_NUM
                then SET_OPTION COAP_OPTION_ACCEPT (p\<lparr>accept := accept p @ [a]\<rparr>) else p) in
      (length (accept p'), p'))"

definition coap_set_header_max_age :: "coap_packet \<Rightarrow> u32 \<Rightarrow> coap_packet" where
  "coap_set_header_max_age p a = SET_OPTION COAP_OPTION_MAX_AGE (p\<lparr>max_age := a\<rparr>)"

text \<open>\<^verbatim>\<open>memcpy\<close> of \<open>n\<close> bytes from an array.\<close>

definition copied :: "nat \<Rightarrow> byte list \<Rightarrow> byte list res" where
  "copied n b = (if length b < n then Inl OutOfBounds else Inr (take n b))"

definition coap_set_header_etag :: "coap_packet \<Rightarrow> byte list \<Rightarrow> nat \<Rightarrow> (nat \<times> coap_packet) res" where
  "coap_set_header_etag p b n =
     bindE (copied (min COAP_ETAG_LEN n) b) (\<lambda>t.
       Inr (length t, SET_OPTION COAP_OPTION_ETAG (p\<lparr>etag := t\<rparr>)))"

definition coap_set_header_if_match :: "coap_packet \<Rightarrow> byte list \<Rightarrow> nat \<Rightarrow> (nat \<times> coap_packet) res" where
  "coap_set_header_if_match p b n =
     bindE (copied (min COAP_ETAG_LEN n) b) (\<lambda>t.
       Inr (length t, SET_OPTION COAP_OPTION_IF_MATCH (p\<lparr>if_match := t\<rparr>)))"

definition coap_set_header_if_none_match :: "coap_packet \<Rightarrow> coap_packet" where
  "coap_set_header_if_none_match p = SET_OPTION COAP_OPTION_IF_NONE_MATCH p"

definition coap_set_header_token :: "coap_packet \<Rightarrow> byte list \<Rightarrow> nat \<Rightarrow> (nat \<times> coap_packet) res" where
  "coap_set_header_token p b n =
     bindE (copied (min COAP_TOKEN_LEN n) b) (\<lambda>t.
       Inr (length t, SET_OPTION COAP_OPTION_TOKEN (p\<lparr>pkt_token := t\<rparr>)))"

definition coap_set_header_proxy_uri :: "coap_packet \<Rightarrow> byte list \<Rightarrow> (nat \<times> coap_packet) res" where
  "coap_set_header_proxy_uri p s =
     bindE (c_string s) (\<lambda>t.
       Inr (length t, SET_OPTION COAP_OPTION_PROXY_URI (p\<lparr>proxy_uri := s, proxy_uri_len := length t\<rparr>)))"

definition coap_set_header_uri_host :: "coap_packet \<Rightarrow> byte list \<Rightarrow> (nat \<times> coap_packet) res" where
  "coap_set_header_uri_host p s =
     bindE (c_string s) (\<lambda>t.
       Inr (length t, SET_OPTION COAP_OPTION_URI_HOST (p\<lparr>uri_host := s, uri_host_len := length t\<rparr>)))"

text \<open>The string of a path or query without its leading separator, cut into options.\<close>

definition cut_string :: "byte \<Rightarrow> byte \<Rightarrow> byte list \<Rightarrow> mem \<Rightarrow> (multi_option list \<times> nat \<times> mem) res" where
  "cut_string first sep s m =
     bindE (c_string s) (\<lambda>t.
       add_segments sep (case t of [] \<Rightarrow> [] | b # t' \<Rightarrow> if b = first then t' else t) [] m)"

definition coap_set_header_uri_path :: "coap_packet \<Rightarrow> byte list \<Rightarrow> mem \<Rightarrow> (nat \<times> coap_packet \<times> mem) res" where
  "coap_set_header_uri_path p path m =
     bindE (cut_string (of_char CHR ''/'') (of_char CHR ''/'') path m) (\<lambda>(opts, n, m').
       Inr (n, SET_OPTION COAP_OPTION_URI_PATH (p\<lparr>uri_path := opts\<rparr>), m'))"

text \<open>\<open>None\<close> is a null segment.\<close>

definition coap_set_header_uri_path_segment ::
    "coap_packet \<Rightarrow> byte list option \<Rightarrow> mem \<Rightarrow> (nat \<times> coap_packet \<times> mem) res" where
  "coap_set_header_uri_path_segment p segment m =
     bindE (case segment of None \<Rightarrow> Inr [] | Some s \<Rightarrow> c_string s) (\<lambda>t.
     bindE (coap_add_multi_option (uri_path p) t (length t) (t = []) m) (\<lambda>(opts, m').
       Inr (length t, SET_OPTION COAP_OPTION_URI_PATH (p\<lparr>uri_path := opts\<rparr>), m')))"

definition coap_set_header_uri_query :: "coap_packet \<Rightarrow> byte list \<Rightarrow> mem \<Rightarrow> (nat \<times> coap_packet \<times> mem) res" where
  "coap_set_header_uri_query p query m =
     bindE (cut_string (of_char CHR ''?'') (of_char CHR ''&'') query m) (\<lambda>(opts, n, m').
       Inr (n, SET_OPTION COAP_OPTION_URI_QUERY (p\<lparr>uri_query := opts\<rparr>), m'))"

definition coap_set_header_location_path :: "coap_packet \<Rightarrow> byte list \<Rightarrow> mem \<Rightarrow> (nat \<times> coap_packet \<times> mem) res" where
  "coap_set_header_location_path p path m =
     bindE (cut_string (of_char CHR ''/'') (of_char CHR ''/'') path m) (\<lambda>(opts, n, m').
       Inr (n, SET_OPTION COAP_OPTION_LOCATION_PATH (p\<lparr>location_path := opts\<rparr>), m'))"

definition coap_set_header_location_query :: "coap_packet \<Rightarrow> byte list \<Rightarrow> (nat \<times> coap_packet) res" where
  "coap_set_header_location_query p query =
     (let q = dropWhile (\<lambda>b. b = of_char CHR ''?'') query in
      bindE (c_string q) (\<lambda>t.
        Inr (length t, SET_OPTION COAP_OPTION_LOCATION_QUERY (p\<lparr>location_query := q, location_query_len := length t\<rparr>))))"

definition coap_set_header_observe :: "coap_packet \<Rightarrow> u32 \<Rightarrow> coap_packet" where
  "coap_set_header_observe p n = SET_OPTION COAP_OPTION_OBSERVE (p\<lparr>observe_num := 0x00FFFFFF AND n\<rparr>)"

definition coap_set_header_block2 :: "coap_packet \<Rightarrow> u32 \<Rightarrow> byte \<Rightarrow> u16 \<Rightarrow> int \<times> coap_packet" where
  "coap_set_header_block2 p num mo sz =
     (if sz < 16 \<or> 2048 < sz \<or> 0x0FFFFF < num then (0, p)
      else (1, SET_OPTION COAP_OPTION_BLOCK2
        (p\<lparr>block2_num := num, block2_more := (if mo = 0 then 0 else 1), block2_size := sz\<rparr>)))"

definition coap_set_header_block1 :: "coap_packet \<Rightarrow> u32 \<Rightarrow> byte \<Rightarrow> u16 \<Rightarrow> int \<times> coap_packet" where
  "coap_set_header_block1 p num mo sz =
     (if sz < 16 \<or> 2048 < sz \<or> 0x0FFFFF < num then (0, p)
      else (1, SET_OPTION COAP_OPTION_BLOCK1 (p\<lparr>block1_num := num, block1_more := mo, block1_size := sz\<rparr>)))"

definition coap_set_header_size :: "coap_packet \<Rightarrow> u32 \<Rightarrow> coap_packet" where
  "coap_set_header_size p n = SET_OPTION COAP_OPTION_SIZE (p\<lparr>pkt_size := n\<rparr>)"

text \<open>The length is kept in 16 bits.\<close>

definition coap_set_payload :: "coap_packet \<Rightarrow> byte list option \<Rightarrow> nat \<Rightarrow> u16 \<times> coap_packet" where
  "coap_set_payload p b n = (word_of_nat n, p\<lparr>payload := b, payload_len := word_of_nat n\<rparr>)"

section \<open>Getters\<close>

text \<open>\<open>None\<close> is the result 0 that leaves the output as it was.\<close>

definition coap_get_header_content_type :: "coap_packet \<Rightarrow> u32" where
  "coap_get_header_content_type p = (if IS_OPTION p COAP_OPTION_CONTENT_TYPE then ucast (content_type p) else - 1)"

definition coap_get_header_accept :: "coap_packet \<Rightarrow> u16 list option" where
  "coap_get_header_accept p = (if IS_OPTION p COAP_OPTION_ACCEPT then Some (accept p) else None)"

definition coap_get_header_max_age :: "coap_packet \<Rightarrow> u32" where
  "coap_get_header_max_age p = (if IS_OPTION p COAP_OPTION_MAX_AGE then max_age p else 60)"

definition coap_get_header_etag :: "coap_packet \<Rightarrow> byte list option" where
  "coap_get_header_etag p = (if IS_OPTION p COAP_OPTION_ETAG then Some (etag p) else None)"

definition coap_get_header_if_match :: "coap_packet \<Rightarrow> byte list option" where
  "coap_get_header_if_match p = (if IS_OPTION p COAP_OPTION_IF_MATCH then Some (if_match p) else None)"

definition coap_get_header_if_none_match :: "coap_packet \<Rightarrow> bool" where
  "coap_get_header_if_none_match p = IS_OPTION p COAP_OPTION_IF_NONE_MATCH"

definition coap_get_header_token :: "coap_packet \<Rightarrow> byte list option" where
  "coap_get_header_token p = (if IS_OPTION p COAP_OPTION_TOKEN then Some (pkt_token p) else None)"

definition coap_get_header_proxy_uri :: "coap_packet \<Rightarrow> (byte list \<times> nat) option" where
  "coap_get_header_proxy_uri p = (if IS_OPTION p COAP_OPTION_PROXY_URI then Some (proxy_uri p, proxy_uri_len p) else None)"

definition coap_get_header_uri_host :: "coap_packet \<Rightarrow> (byte list \<times> nat) option" where
  "coap_get_header_uri_host p = (if IS_OPTION p COAP_OPTION_URI_HOST then Some (uri_host p, uri_host_len p) else None)"

definition coap_get_header_location_query :: "coap_packet \<Rightarrow> (byte list \<times> nat) option" where
  "coap_get_header_location_query p =
     (if IS_OPTION p COAP_OPTION_LOCATION_QUERY then Some (location_query p, location_query_len p) else None)"

definition coap_get_header_observe :: "coap_packet \<Rightarrow> u32 option" where
  "coap_get_header_observe p = (if IS_OPTION p COAP_OPTION_OBSERVE then Some (observe_num p) else None)"

text \<open>Number, more flag, size and offset.\<close>

definition coap_get_header_block2 :: "coap_packet \<Rightarrow> (u32 \<times> byte \<times> u16 \<times> u32) option" where
  "coap_get_header_block2 p =
     (if IS_OPTION p COAP_OPTION_BLOCK2 then Some (block2_num p, block2_more p, block2_size p, block2_offset p) else None)"

definition coap_get_header_block1 :: "coap_packet \<Rightarrow> (u32 \<times> byte \<times> u16 \<times> u32) option" where
  "coap_get_header_block1 p =
     (if IS_OPTION p COAP_OPTION_BLOCK1 then Some (block1_num p, block1_more p, block1_size p, block1_offset p) else None)"

definition coap_get_header_size :: "coap_packet \<Rightarrow> u32 option" where
  "coap_get_header_size p = (if IS_OPTION p COAP_OPTION_SIZE then Some (pkt_size p) else None)"

definition coap_get_payload :: "coap_packet \<Rightarrow> byte list option \<times> u16" where
  "coap_get_payload p = (case payload p of None \<Rightarrow> (None, 0) | Some b \<Rightarrow> (Some b, payload_len p))"

text \<open>
  A variable of a query text of \<open>n\<close> bytes: the loop over the positions, \<open>prev\<close> telling whether a
  variable can start here. The value is returned with the bytes behind it.
\<close>

fun get_variable_from :: "bool \<Rightarrow> byte list \<Rightarrow> byte list \<Rightarrow> (nat \<times> byte list) option" where
  "get_variable_from prev [] name = None"
| "get_variable_from prev (b # s) name =
     (if length name < length (b # s) then
        if prev \<and> (b # s) ! length name = of_char CHR ''='' \<and> strncmp_eq name (b # s) (length name) then
          let v = drop (length name + 1) (b # s) in Some (length (takeWhile (\<lambda>x. x \<noteq> of_char CHR ''&'') v), v)
        else get_variable_from (b = of_char CHR ''&'') s name
      else None)"

definition coap_get_variable :: "byte list \<Rightarrow> nat \<Rightarrow> byte list \<Rightarrow> (nat \<times> byte list) option res" where
  "coap_get_variable buffer n name =
     bindE (c_string name) (\<lambda>t.
       if length buffer < n then Inl OutOfBounds else Inr (get_variable_from True (take n buffer) t))"

definition coap_get_post_variable :: "coap_packet \<Rightarrow> byte list \<Rightarrow> (nat \<times> byte list) option res" where
  "coap_get_post_variable p name =
     (if payload_len p = 0 then Inr None
      else case payload p of None \<Rightarrow> Inl NullDeref | Some b \<Rightarrow> coap_get_variable b (unat (payload_len p)) name)"

section \<open>Paths\<close>

text \<open>The option that holds the bytes of a segment.\<close>

definition segment_option :: "byte list \<Rightarrow> multi_option" where
  "segment_option v = Multi False (word_of_nat (length v)) v"

lemma option_bytes_segment: "length v < 256 \<Longrightarrow> option_bytes (segment_option v) = v"
  by (simp add: option_bytes_def segment_option_def unat_of_nat)

lemma add_segments_text:
  assumes "s = [] \<or> last s \<noteq> sep"
  shows "\<exists>segs. add_segments sep s opts [] = Inr (opts @ map segment_option segs, length s, []) \<and>
    concat (map (\<lambda>v. sep # v) segs) = sep # s"
  using assms
proof (induction "length s" arbitrary: s opts rule: less_induct)
  case less
  let ?seg = "takeWhile (\<lambda>b. b \<noteq> sep) s"
  have add: "coap_add_multi_option opts ?seg (length ?seg) False [] = Inr (opts @ [segment_option ?seg], [])"
    by (simp add: coap_add_multi_option_def segment_option_def)
  show ?case
  proof (cases "drop (length ?seg) s")
    case Nil
    then have seg: "?seg = s" by (metis append_Nil2 append_take_drop_id takeWhile_eq_take)
    have "add_segments sep s opts [] = Inr (opts @ [segment_option s], length s, [])"
      using add unfolding seg by (subst add_segments.simps) (simp add: Let_def seg)
    then show ?thesis by (intro exI [of _ "[s]"]) simp
  next
    case (Cons b t)
    obtain u where u: "?seg = u" by blast
    have split: "s = u @ b # t" using Cons by (metis append_take_drop_id takeWhile_eq_take u)
    have len: "length u + 1 + length t = length s" by (subst split) simp
    have "dropWhile (\<lambda>b. b \<noteq> sep) s = b # t" using Cons by (simp only: dropWhile_eq_drop)
    then have b: "b = sep" using hd_dropWhile [of "\<lambda>b. b \<noteq> sep" s] by simp
    have t: "drop (length ?seg + 1) s = t" unfolding u by (subst split) simp
    have "last (u @ [b]) = sep" using b by simp
    then have ne: "t \<noteq> []" using less.prems split by auto
    have "last (u @ b # t) = last t" using ne by simp
    then have "last t \<noteq> sep" using less.prems split by auto
    moreover have "length t < length s" using len by linarith
    ultimately obtain segs where segs: "add_segments sep t (opts @ [segment_option ?seg]) [] =
        Inr ((opts @ [segment_option ?seg]) @ map segment_option segs, length t, [])"
        "concat (map (\<lambda>v. sep # v) segs) = sep # t"
      using less.hyps by blast
    have "add_segments sep s opts [] = Inr (opts @ map segment_option (?seg # segs), length ?seg + 1 + length t, [])"
      using add Cons t ne segs(1) by (subst add_segments.simps) (simp add: Let_def del: drop_eq_Nil)
    then have "add_segments sep s opts [] = Inr (opts @ map segment_option (u # segs), length s, [])"
      unfolding u len .
    moreover have "concat (map (\<lambda>v. sep # v) (u # segs)) = sep # s"
      by (subst split) (simp add: segs(2) b)
    ultimately show ?thesis by blast
  qed
qed

lemma get_string_segments:
  assumes "concat (map (\<lambda>v. of_char CHR ''/'' # v) segs) = t" and "length t \<le> 256"
  shows "coap_get_multi_option_as_string (map segment_option segs) [] = Inr (Some t, [])"
proof -
  have short: "length v < 256" if "v \<in> set segs" for v
  proof -
    have "Suc (length v) \<le> length t"
      unfolding assms(1) [symmetric] length_concat map_map
      using that by (intro member_le_sum_list) (auto intro!: image_eqI [of _ _ v])
    then show ?thesis using assms(2) by simp
  qed
  have "option_bytes (segment_option v) = v" "\<not> length (opt_data (segment_option v)) < unat (opt_len (segment_option v))"
    if "v \<in> set segs" for v
    using option_bytes_segment [OF short [OF that]] short [OF that] by (simp_all add: segment_option_def unat_of_nat)
  then show ?thesis
    unfolding coap_get_multi_option_as_string_def using assms(1) by (simp add: comp_def cong: map_cong)
qed

text \<open>
  Round trip of paths: the path that is set on a packet, with or without a leading slash, is cut into its
  segments, and joining the segments gives the path back with a leading slash. The path has at most 255 bytes and
  no slash at its end.
\<close>

theorem coap_path_roundtrip:
  assumes "0 \<notin> set s" and "s \<noteq> []" and "hd s \<noteq> of_char CHR ''/''" and "last s \<noteq> of_char CHR ''/''" and "length s < 256"
    and "path \<in> {s @ 0 # r, of_char CHR ''/'' # s @ 0 # r}"
  shows "\<exists>p'. coap_set_header_uri_path p path [] = Inr (length s, p', []) \<and>
    coap_get_multi_option_as_string (uri_path p') [] = Inr (Some (of_char CHR ''/'' # s), [])"
proof -
  let ?c = "of_char CHR ''/'' :: byte"
  obtain segs where segs: "add_segments ?c s [] [] = Inr (map segment_option segs, length s, [])"
      "concat (map (\<lambda>v. ?c # v) segs) = ?c # s"
    using add_segments_text [of s ?c "[]"] assms(4) by auto
  have nz: "takeWhile (\<lambda>b. b \<noteq> 0) (s @ 0 # r) = s"
    using assms(1) by (subst takeWhile_append2) auto
  have "cut_string ?c ?c path [] = Inr (map segment_option segs, length s, [])"
    using assms(2,3,6) segs(1) nz by (cases s) (auto simp: cut_string_def c_string_def)
  then show ?thesis
    using get_string_segments [OF segs(2)] assms(5)
    by (auto simp: coap_set_header_uri_path_def SET_OPTION_def)
qed

theorem coap_path_roundtrip_witness:
  "\<exists>p'. coap_set_header_uri_path zero_packet (bytes ''/rd/42'' @ [0]) [] = Inr (length (bytes ''rd/42''), p', []) \<and>
    coap_get_multi_option_as_string (uri_path p') [] = Inr (Some (bytes ''/rd/42''), [])"
  using coap_path_roundtrip [of "bytes ''rd/42''" "bytes ''/rd/42'' @ [0]" "[]" zero_packet] by (simp add: bytes_def)

end
