(* ===== verification/Coap_Serialize.thy ===== *)
theory Coap_Serialize
imports Coap_Packet
begin

text \<open>
  The serializer of \<^verbatim>\<open>external/wakaama/er-coap-13/er-coap-13.c\<close>. The code writes every message from its
  first byte to its last: what it writes is a list of bytes, and whether the list fits in the
  block that the caller allocated is a question for the caller.
\<close>

section \<open>Options\<close>

function log_2_loop :: "u16 \<Rightarrow> u16 \<Rightarrow> u16" where
  "log_2_loop v r = (if drop_bit 1 v = 0 then r + 1 else log_2_loop (drop_bit 1 v) (r + 1))"
  by pat_completeness auto
termination
proof (relation "measure (\<lambda>(v, r). unat v)", goal_cases)
  case 1
  show ?case by simp
next
  case (2 v r)
  have "unat (drop_bit 1 v) = unat v div 2" by (simp add: drop_bit_eq_div unat_div)
  moreover have "unat (drop_bit 1 v) \<noteq> 0" using 2 by (simp only: unat_eq_zero not_False_eq_True)
  ultimately show ?case by simp
qed

declare log_2_loop.simps [simp del]

definition coap_log_2 :: "u16 \<Rightarrow> u16" where
  "coap_log_2 v = (let r = log_2_loop v 0 in if r \<noteq> 0 then r - 1 else r)"

definition coap_option_nibble :: "nat \<Rightarrow> byte" where
  "coap_option_nibble n = (if n < 13 then word_of_nat n else if n \<le> 0xFF + 13 then 13 else 14)"

text \<open>The extended form of a delta or a length.\<close>

definition option_extension :: "nat \<Rightarrow> byte list" where
  "option_extension n =
     (if 268 < n then [word_of_nat ((n - 269) div 256), word_of_nat (n - 269)]
      else if 12 < n then [word_of_nat (n - 13)] else [])"

definition coap_set_option_header :: "nat \<Rightarrow> nat \<Rightarrow> byte list" where
  "coap_set_option_header d n =
     (push_bit 4 (coap_option_nibble d) OR coap_option_nibble n) # option_extension d @ option_extension n"

text \<open>A number without its leading zero bytes.\<close>

definition int_bytes :: "u32 \<Rightarrow> byte list" where
  "int_bytes v =
     (if 0xFF000000 AND v \<noteq> 0 then [ucast (drop_bit 24 v)] else []) @
     (if 0xFFFF0000 AND v \<noteq> 0 then [ucast (drop_bit 16 v)] else []) @
     (if 0xFFFFFF00 AND v \<noteq> 0 then [ucast (drop_bit 8 v)] else []) @
     (if 0xFFFFFFFF AND v \<noteq> 0 then [ucast v] else [])"

definition coap_serialize_int_option :: "nat \<Rightarrow> nat \<Rightarrow> u32 \<Rightarrow> byte list" where
  "coap_serialize_int_option number current v =
     coap_set_option_header (number - current) (length (int_bytes v)) @ int_bytes v"

text \<open>
  Several values of one option: the first header carries the distance from the previous option.
\<close>

fun put_parts :: "nat \<Rightarrow> byte list list \<Rightarrow> byte list" where
  "put_parts d [] = []"
| "put_parts d (v # vs) = coap_set_option_header d (length v) @ v @ put_parts 0 vs"

text \<open>
  The parts between the separators. The byte behind a separator is not tested, and the byte behind
  the array is read.
\<close>

function split_parts :: "byte \<Rightarrow> byte list \<Rightarrow> nat \<Rightarrow> nat \<Rightarrow> nat \<Rightarrow> byte list list res" where
  "split_parts sep arr n start j =
     (if n < j then Inr []
      else if length arr \<le> j then Inl OutOfBounds
      else if arr ! j = sep \<or> j = n
      then bindE (split_parts sep arr n (j + 1) (j + 2)) (\<lambda>r. Inr (take (j - start) (drop start arr) # r))
      else split_parts sep arr n start (j + 1))"
  by pat_completeness auto
termination by (relation "measure (\<lambda>(sep, arr, n, start, j). n + 1 - j)") auto

declare split_parts.simps [simp del]

text \<open>\<open>None\<close> is the split character 0.\<close>

definition coap_serialize_array_option :: "nat \<Rightarrow> nat \<Rightarrow> byte list \<Rightarrow> nat \<Rightarrow> byte option \<Rightarrow> byte list res" where
  "coap_serialize_array_option number current arr n sep =
     bindE (case sep of None \<Rightarrow> bindE (copied n arr) (\<lambda>b. Inr [b]) | Some c \<Rightarrow> split_parts c arr n 0 0) (\<lambda>parts.
       Inr (put_parts (number - current) parts))"

definition coap_serialize_multi_option :: "nat \<Rightarrow> nat \<Rightarrow> multi_option list \<Rightarrow> byte list res" where
  "coap_serialize_multi_option number current opts =
     (if \<exists>x \<in> set opts. length (opt_data x) < unat (opt_len x) then Inl OutOfBounds
      else Inr (put_parts (number - current) (map option_bytes opts)))"

text \<open>
  The macros of the header file. Each takes the number of the previous option and returns the new one and what it
  writes.
\<close>

type_synonym writer = "nat \<Rightarrow> (nat \<times> byte list) res"

definition COAP_SERIALIZE_INT_OPTION :: "coap_packet \<Rightarrow> nat \<Rightarrow> u32 \<Rightarrow> writer" where
  "COAP_SERIALIZE_INT_OPTION p number v current =
     Inr (if IS_OPTION p number then (number, coap_serialize_int_option number current v) else (current, []))"

definition COAP_SERIALIZE_STRING_OPTION :: "coap_packet \<Rightarrow> nat \<Rightarrow> byte list \<Rightarrow> nat \<Rightarrow> byte option \<Rightarrow> writer" where
  "COAP_SERIALIZE_STRING_OPTION p number arr n sep current =
     (if IS_OPTION p number
      then bindE (coap_serialize_array_option number current arr n sep) (\<lambda>b. Inr (number, b))
      else Inr (current, []))"

definition COAP_SERIALIZE_BYTE_OPTION :: "coap_packet \<Rightarrow> nat \<Rightarrow> byte list \<Rightarrow> writer" where
  "COAP_SERIALIZE_BYTE_OPTION p number arr = COAP_SERIALIZE_STRING_OPTION p number arr (length arr) None"

definition COAP_SERIALIZE_MULTI_OPTION :: "coap_packet \<Rightarrow> nat \<Rightarrow> multi_option list \<Rightarrow> writer" where
  "COAP_SERIALIZE_MULTI_OPTION p number opts current =
     (if IS_OPTION p number
      then bindE (coap_serialize_multi_option number current opts) (\<lambda>b. Inr (number, b))
      else Inr (current, []))"

fun put_accepts :: "nat \<Rightarrow> u16 list \<Rightarrow> nat \<Rightarrow> nat \<times> byte list" where
  "put_accepts number [] current = (current, [])"
| "put_accepts number (a # as) current =
     (let (c, b) = put_accepts number as number in (c, coap_serialize_int_option number current (ucast a) @ b))"

definition COAP_SERIALIZE_ACCEPT_OPTION :: "coap_packet \<Rightarrow> nat \<Rightarrow> u16 list \<Rightarrow> writer" where
  "COAP_SERIALIZE_ACCEPT_OPTION p number as current =
     Inr (if IS_OPTION p number then put_accepts number as current else (current, []))"

definition block_value :: "u32 \<Rightarrow> byte \<Rightarrow> u16 \<Rightarrow> u32" where
  "block_value num mo sz =
     push_bit 4 num OR (if mo \<noteq> 0 then 0x8 else 0) OR (0xF AND ucast (coap_log_2 (sz div 16)))"

definition COAP_SERIALIZE_BLOCK_OPTION :: "coap_packet \<Rightarrow> nat \<Rightarrow> u32 \<Rightarrow> byte \<Rightarrow> u16 \<Rightarrow> writer" where
  "COAP_SERIALIZE_BLOCK_OPTION p number num mo sz = COAP_SERIALIZE_INT_OPTION p number (block_value num mo sz)"

fun run_writers :: "writer list \<Rightarrow> nat \<Rightarrow> byte list res" where
  "run_writers [] current = Inr []"
| "run_writers (w # ws) current =
     bindE (w current) (\<lambda>(c, b). bindE (run_writers ws c) (\<lambda>b'. Inr (b @ b')))"

definition option_writers :: "coap_packet \<Rightarrow> writer list" where
  "option_writers p =
     [COAP_SERIALIZE_BYTE_OPTION p COAP_OPTION_IF_MATCH (if_match p),
      COAP_SERIALIZE_STRING_OPTION p COAP_OPTION_URI_HOST (uri_host p) (uri_host_len p) None,
      COAP_SERIALIZE_BYTE_OPTION p COAP_OPTION_ETAG (etag p),
      COAP_SERIALIZE_INT_OPTION p COAP_OPTION_IF_NONE_MATCH (ucast (content_type p) - ucast (content_type p)),
      COAP_SERIALIZE_INT_OPTION p COAP_OPTION_OBSERVE (observe_num p),
      COAP_SERIALIZE_INT_OPTION p COAP_OPTION_URI_PORT (ucast (uri_port p)),
      COAP_SERIALIZE_MULTI_OPTION p COAP_OPTION_LOCATION_PATH (location_path p),
      COAP_SERIALIZE_MULTI_OPTION p COAP_OPTION_URI_PATH (uri_path p),
      COAP_SERIALIZE_INT_OPTION p COAP_OPTION_CONTENT_TYPE (ucast (content_type p)),
      COAP_SERIALIZE_INT_OPTION p COAP_OPTION_MAX_AGE (max_age p),
      COAP_SERIALIZE_MULTI_OPTION p COAP_OPTION_URI_QUERY (uri_query p),
      COAP_SERIALIZE_ACCEPT_OPTION p COAP_OPTION_ACCEPT (accept p),
      COAP_SERIALIZE_STRING_OPTION p COAP_OPTION_LOCATION_QUERY (location_query p) (location_query_len p)
        (Some (of_char CHR ''&'')),
      COAP_SERIALIZE_BLOCK_OPTION p COAP_OPTION_BLOCK2 (block2_num p) (block2_more p) (block2_size p),
      COAP_SERIALIZE_BLOCK_OPTION p COAP_OPTION_BLOCK1 (block1_num p) (block1_more p) (block1_size p),
      COAP_SERIALIZE_INT_OPTION p COAP_OPTION_SIZE (pkt_size p),
      COAP_SERIALIZE_STRING_OPTION p COAP_OPTION_PROXY_URI (proxy_uri p) (proxy_uri_len p) None]"

section \<open>Sizes\<close>

definition COAP_MAX_OPTION_HEADER_LEN :: nat where "COAP_MAX_OPTION_HEADER_LEN = 5"

definition multi_size :: "multi_option list \<Rightarrow> nat" where
  "multi_size opts = (\<Sum>x\<leftarrow>opts. COAP_MAX_OPTION_HEADER_LEN + unat (opt_len x))"

text \<open>What the size functions count for every option, with its number.\<close>

definition option_sizes :: "coap_packet \<Rightarrow> (nat \<times> nat) list" where
  "option_sizes p =
     [(COAP_OPTION_IF_MATCH, COAP_MAX_OPTION_HEADER_LEN + length (if_match p)),
      (COAP_OPTION_URI_HOST, COAP_MAX_OPTION_HEADER_LEN + uri_host_len p),
      (COAP_OPTION_ETAG, COAP_MAX_OPTION_HEADER_LEN + length (etag p)),
      (COAP_OPTION_IF_NONE_MATCH, COAP_MAX_OPTION_HEADER_LEN),
      (COAP_OPTION_OBSERVE, COAP_MAX_OPTION_HEADER_LEN),
      (COAP_OPTION_URI_PORT, COAP_MAX_OPTION_HEADER_LEN),
      (COAP_OPTION_LOCATION_PATH, multi_size (location_path p)),
      (COAP_OPTION_URI_PATH, multi_size (uri_path p)),
      (COAP_OPTION_CONTENT_TYPE, COAP_MAX_OPTION_HEADER_LEN),
      (COAP_OPTION_MAX_AGE, COAP_MAX_OPTION_HEADER_LEN),
      (COAP_OPTION_URI_QUERY, multi_size (uri_query p)),
      (COAP_OPTION_ACCEPT, length (accept p) * COAP_MAX_OPTION_HEADER_LEN),
      (COAP_OPTION_LOCATION_QUERY, COAP_MAX_OPTION_HEADER_LEN + location_query_len p),
      (COAP_OPTION_BLOCK2, COAP_MAX_OPTION_HEADER_LEN),
      (COAP_OPTION_BLOCK1, COAP_MAX_OPTION_HEADER_LEN),
      (COAP_OPTION_SIZE, COAP_MAX_OPTION_HEADER_LEN),
      (COAP_OPTION_PROXY_URI, COAP_MAX_OPTION_HEADER_LEN + proxy_uri_len p)]"

definition options_size :: "coap_packet \<Rightarrow> nat" where
  "options_size p = (\<Sum>(n, k)\<leftarrow>option_sizes p. if IS_OPTION p n then k else 0)"

text \<open>The marker in front of the payload is not counted.\<close>

definition coap_serialize_get_size :: "coap_packet \<Rightarrow> nat" where
  "coap_serialize_get_size p = 4 + unat (payload_len p) + length (pkt_token p) + options_size p"

text \<open>The length of the options and of the whole are kept in 16 bits.\<close>

definition coap_serialize_get_size_tcp :: "coap_packet \<Rightarrow> nat \<times> coap_packet" where
  "coap_serialize_get_size_tcp p =
     (let ol = word_of_nat (options_size p) :: u16; len = ol + payload_len p;
          hd_len = (if len < 13 then 2 else if unat len < 2 ^ 8 + 13 then 3 else if unat len < 2 ^ 16 + 269 then 4 else 6) in
      (hd_len + length (pkt_token p) + unat ol + (if payload_len p = 0 then 0 else 1 + unat (payload_len p)),
       p\<lparr>options_len := ol\<rparr>))"

section \<open>Messages\<close>

text \<open>The marker and the payload.\<close>

definition payload_bytes :: "coap_packet \<Rightarrow> byte list res" where
  "payload_bytes p =
     (if payload_len p = 0 then Inr []
      else case payload p of
        None \<Rightarrow> Inl NullDeref
      | Some b \<Rightarrow> bindE (copied (unat (payload_len p)) b) (\<lambda>c. Inr (0xFF # c)))"

definition udp_header :: "coap_packet \<Rightarrow> byte list" where
  "udp_header p =
     [(0xC0 AND push_bit 6 1) OR (0x30 AND push_bit 4 (msg_type p)) OR (0x0F AND word_of_nat (length (pkt_token p))),
      code p, ucast (drop_bit 8 (mid p)), ucast (mid p)]"

definition coap_serialize_message :: "coap_packet \<Rightarrow> (byte list \<times> coap_packet) res" where
  "coap_serialize_message p =
     bindE (run_writers (option_writers p) 0) (\<lambda>opts.
     bindE (payload_bytes p) (\<lambda>pl.
       Inr (udp_header p @ pkt_token p @ opts @ pl, coap_free_header (p\<lparr>version := 1\<rparr>))))"

text \<open>The header for \<open>len\<close> bytes of options and payload.\<close>

definition tcp_header :: "coap_packet \<Rightarrow> u32 \<Rightarrow> byte list" where
  "tcp_header p len =
     (let tkl = 0x0F AND word_of_nat (length (pkt_token p)) in
      if len < 13 then [tkl OR push_bit 4 (ucast len), code p]
      else if len < 2 ^ 8 + 13 then [tkl OR push_bit 4 13, ucast (len - 13), code p]
      else if len < 2 ^ 16 + 269
      then [tkl OR push_bit 4 14, ucast (drop_bit 8 ((len - 269) AND 0xFF00)), ucast ((len - 269) AND 0x00FF), code p]
      else [tkl OR push_bit 4 15, ucast (drop_bit 24 ((len - 65805) AND 0xFF000000)),
            ucast (drop_bit 16 ((len - 65805) AND 0x00FF0000)), ucast (drop_bit 8 ((len - 65805) AND 0x0000FF00)),
            ucast ((len - 65805) AND 0x00FF), code p])"

text \<open>
  The options are first written to a block of \<open>options_len\<close> bytes. The empty list is the result 0,
  for want of memory.
\<close>

definition coap_serialize_message_tcp :: "coap_packet \<Rightarrow> mem \<Rightarrow> (byte list \<times> coap_packet \<times> mem) res" where
  "coap_serialize_message_tcp p m =
     (let n = (if options_len p = 0 then 5 else options_len p); p0 = p\<lparr>version := 1, options_len := n\<rparr> in
      case lwm2m_malloc m of
        (False, m1) \<Rightarrow> Inr ([], p0, m1)
      | (True, m1) \<Rightarrow>
          bindE (run_writers (option_writers p0) 0) (\<lambda>opts.
            if unat n < length opts then Inl OutOfBounds
            else
              let p1 = p0\<lparr>options_len := word_of_nat (length opts)\<rparr>;
                  len = ucast (options_len p1) + (if payload_len p = 0 then 0 else 1 + ucast (payload_len p)) in
              bindE (payload_bytes p) (\<lambda>pl.
                Inr (tcp_header p len @ pkt_token p @ opts @ pl, coap_free_header p1, m1))))"

end
