(* ===== verification/Coap_Parse.thy ===== *)
theory Coap_Parse
imports Coap_Serialize
begin

text \<open>
  The parser of \<^verbatim>\<open>external/wakaama/er-coap-13/er-coap-13.c\<close>, and what parser and serializer have to do
  with each other. The parser reads the array behind its argument: \<open>cur\<close> are the bytes of the array
  from the current position on, and \<open>left\<close> is the number of them that belong to the message. The array can
  be longer, and what the parser reads behind the message is then not what was received.
\<close>

section \<open>Option values\<close>

definition coap_parse_int_option :: "byte list \<Rightarrow> u32" where
  "coap_parse_int_option = foldl (\<lambda>v b. push_bit 8 v OR ucast b) 0"

text \<open>A delta or a length from its four bits and the bytes behind them.\<close>

definition read_extended :: "nat \<Rightarrow> byte list \<Rightarrow> (nat \<times> byte list) res" where
  "read_extended x r =
     (if x = 13 then (case r of b # r' \<Rightarrow> Inr (13 + unat b, r') | _ \<Rightarrow> Inl OutOfBounds)
      else if x = 14 then (case r of b # c # r' \<Rightarrow> Inr (14 + 255 + 256 * unat b + unat c, r') | _ \<Rightarrow> Inl OutOfBounds)
      else Inr (x, r))"

text \<open>
  The options are merged in place: the separator and the moved bytes overwrite the header of
  the option, and nothing behind its value.
\<close>

definition coap_merge_multi_option :: "byte list \<Rightarrow> nat \<Rightarrow> byte list \<Rightarrow> nat \<Rightarrow> byte \<Rightarrow> (byte list \<times> nat) res" where
  "coap_merge_multi_option dst dst_len opt n sep =
     (if 0 < dst_len then
        if length dst < dst_len + 1 + n \<or> length opt < n then Inl OutOfBounds
        else Inr (take dst_len dst @ [sep] @ take n opt @ drop (dst_len + 1 + n) dst, dst_len + 1 + n)
      else Inr (opt, n))"

text \<open>The number, the more flag, the size and the offset of a block option.\<close>

definition block_fields :: "u32 \<Rightarrow> u32 \<times> byte \<times> u16 \<times> u32" where
  "block_fields v =
     (drop_bit 4 v, ucast (drop_bit 3 (v AND 0x08)), push_bit (unat (v AND 0x07)) 16,
      push_bit (unat (v AND 0x07)) (v AND NOT 0x0000000F))"

section \<open>One option\<close>

abbreviation (input) BAD_OPTION_4_02 :: byte where "BAD_OPTION_4_02 \<equiv> 0x82"
abbreviation (input) PROXYING_NOT_SUPPORTED_5_05 :: byte where "PROXYING_NOT_SUPPORTED_5_05 \<equiv> 0xA5"

definition critical_message :: "byte list" where
  "critical_message = bytes ''Unsupported critical option''"

definition proxy_message :: "byte list" where
  "proxy_message = bytes ''This is a constrained server (Contiki)''"

definition version_message :: "byte list" where
  "version_message = bytes ''CoAP version must be 1''"

text \<open>
  The switch over the option numbers, for an option of \<open>n\<close> bytes: the status, the packet and the
  error message.
\<close>

definition parse_option ::
    "nat \<Rightarrow> nat \<Rightarrow> byte list \<Rightarrow> coap_packet \<Rightarrow> byte list \<Rightarrow> mem \<Rightarrow> (byte \<times> coap_packet \<times> byte list \<times> mem) res" where
  "parse_option number n cur p em m =
     (let int_option = (\<lambda>f. bindE (copied n cur) (\<lambda>b. Inr (COAP_NO_ERROR, f (coap_parse_int_option b) p, em, m)));
          etag_option = (\<lambda>f. bindE (copied (min COAP_ETAG_LEN n) cur) (\<lambda>b. Inr (COAP_NO_ERROR, f b p, em, m)));
          multi = (\<lambda>dst f. bindE (coap_add_multi_option dst cur n True m) (\<lambda>(os, m'). Inr (COAP_NO_ERROR, f os p, em, m'))) in
      if number = COAP_OPTION_CONTENT_TYPE then int_option (\<lambda>v p. p\<lparr>content_type := ucast v\<rparr>)
      else if number = COAP_OPTION_MAX_AGE then int_option (\<lambda>v p. p\<lparr>max_age := v\<rparr>)
      else if number = COAP_OPTION_ETAG then etag_option (\<lambda>b p. p\<lparr>etag := b\<rparr>)
      else if number = COAP_OPTION_ACCEPT then
        (if length (accept p) < COAP_MAX_ACCEPT_NUM
         then int_option (\<lambda>v p. p\<lparr>accept := accept p @ [ucast v]\<rparr>) else Inr (COAP_NO_ERROR, p, em, m))
      else if number = COAP_OPTION_IF_MATCH then etag_option (\<lambda>b p. p\<lparr>if_match := b\<rparr>)
      else if number = COAP_OPTION_IF_NONE_MATCH then Inr (COAP_NO_ERROR, p\<lparr>if_none_match := 1\<rparr>, em, m)
      else if number = COAP_OPTION_URI_HOST then Inr (COAP_NO_ERROR, p\<lparr>uri_host := cur, uri_host_len := n\<rparr>, em, m)
      else if number = COAP_OPTION_URI_PORT then int_option (\<lambda>v p. p\<lparr>uri_port := ucast v\<rparr>)
      else if number = COAP_OPTION_URI_PATH then multi (uri_path p) (\<lambda>os p. p\<lparr>uri_path := os\<rparr>)
      else if number = COAP_OPTION_URI_QUERY then multi (uri_query p) (\<lambda>os p. p\<lparr>uri_query := os\<rparr>)
      else if number = COAP_OPTION_LOCATION_PATH then multi (location_path p) (\<lambda>os p. p\<lparr>location_path := os\<rparr>)
      else if number = COAP_OPTION_LOCATION_QUERY then
        bindE (coap_merge_multi_option (location_query p) (location_query_len p) cur n (of_char CHR ''&'')) (\<lambda>(q, k).
          Inr (COAP_NO_ERROR, p\<lparr>location_query := q, location_query_len := k\<rparr>, em, m))
      else if number = COAP_OPTION_PROXY_URI then
        Inr (PROXYING_NOT_SUPPORTED_5_05, p\<lparr>proxy_uri := cur, proxy_uri_len := n\<rparr>, proxy_message, m)
      else if number = COAP_OPTION_OBSERVE then int_option (\<lambda>v p. p\<lparr>observe_num := v\<rparr>)
      else if number = COAP_OPTION_BLOCK2 then
        int_option (\<lambda>v p. case block_fields v of (num, mo, sz, off) \<Rightarrow>
          p\<lparr>block2_num := num, block2_more := mo, block2_size := sz, block2_offset := off\<rparr>)
      else if number = COAP_OPTION_BLOCK1 then
        int_option (\<lambda>v p. case block_fields v of (num, mo, sz, off) \<Rightarrow>
          p\<lparr>block1_num := num, block1_more := mo, block1_size := sz, block1_offset := off\<rparr>)
      else if number = COAP_OPTION_SIZE then int_option (\<lambda>v p. p\<lparr>pkt_size := v\<rparr>)
      else if odd number then Inr (BAD_OPTION_4_02, p, critical_message, m)
      else Inr (COAP_NO_ERROR, p, em, m))"

section \<open>Messages\<close>

text \<open>
  The loop over the options. The bitmap holds the options 0 to 39; the bit of a larger number is written behind it.
\<close>

function parse_options ::
    "nat \<Rightarrow> byte list \<Rightarrow> nat \<Rightarrow> coap_packet \<Rightarrow> byte list \<Rightarrow> mem \<Rightarrow> (byte \<times> coap_packet \<times> byte list \<times> mem) res" where
  "parse_options left cur number p em m =
     (if left = 0 then Inr (COAP_NO_ERROR, p, em, m)
      else case cur of
        [] \<Rightarrow> Inl OutOfBounds
      | b # r \<Rightarrow>
          if b AND 0xF0 = 0xF0
          then Inr (COAP_NO_ERROR, p\<lparr>payload := Some r, payload_len := word_of_nat (left - 1)\<rparr>, em, m)
          else
            bindE (read_extended (unat (drop_bit 4 b)) r) (\<lambda>(d, r1).
            bindE (read_extended (unat (b AND 0x0F)) r1) (\<lambda>(n, r2).
              if 40 \<le> number + d then Inl OutOfBounds
              else
                bindE (parse_option (number + d) n r2 (SET_OPTION (number + d) p) em m) (\<lambda>(st, p', em', m').
                  if st \<noteq> COAP_NO_ERROR then Inr (st, p', em', m')
                  else parse_options (left - (1 + (length r - length r2)) - n) (drop n r2) (number + d) p' em' m'))))"
  by pat_completeness auto
termination by (relation "measure (\<lambda>(left, cur, number, p, em, m). left)") auto

declare parse_options.simps [simp del]

text \<open>Token and options, behind the header.\<close>

definition parse_body ::
    "nat \<Rightarrow> byte list \<Rightarrow> nat \<Rightarrow> coap_packet \<Rightarrow> byte list \<Rightarrow> mem \<Rightarrow> (byte \<times> coap_packet \<times> byte list \<times> mem) res" where
  "parse_body left cur token_len p em m =
     (if version p \<noteq> 1 then Inr (COAP_400_BAD_REQUEST, p, version_message, m)
      else if COAP_TOKEN_LEN < token_len then Inl OutOfBounds
      else
        bindE (copied token_len cur) (\<lambda>t.
          parse_options (left - token_len) (drop token_len cur) 0
            (if token_len \<noteq> 0 then SET_OPTION COAP_OPTION_TOKEN (p\<lparr>pkt_token := t\<rparr>) else p) em m))"

definition parse_udp ::
    "coap_packet \<Rightarrow> byte list \<Rightarrow> nat \<Rightarrow> byte list \<Rightarrow> mem \<Rightarrow> (byte \<times> coap_packet \<times> byte list \<times> mem) res" where
  "parse_udp p data data_len em m =
     (case data of
        b0 # b1 # b2 # b3 # r \<Rightarrow>
          parse_body (data_len - 4) r (min COAP_TOKEN_LEN (unat (0x0F AND b0)))
            (p\<lparr>version := drop_bit 6 (0xC0 AND b0), msg_type := drop_bit 4 (0x30 AND b0), code := b1,
               mid := push_bit 8 (ucast b2) OR ucast b3\<rparr>) em m
      | _ \<Rightarrow> Inl OutOfBounds)"

text \<open>The length in the header is passed over.\<close>

definition parse_tcp ::
    "coap_packet \<Rightarrow> byte list \<Rightarrow> nat \<Rightarrow> byte list \<Rightarrow> mem \<Rightarrow> (byte \<times> coap_packet \<times> byte list \<times> mem) res" where
  "parse_tcp p data data_len em m =
     (case data of
        [] \<Rightarrow> Inl OutOfBounds
      | b0 # _ \<Rightarrow>
          let nibble = unat (drop_bit 4 (b0 AND 0xF0));
              i = (if nibble < 13 then 1 else if nibble = 13 then 2 else if nibble = 14 then 3 else 5) in
          if length data \<le> i then Inl OutOfBounds
          else parse_body (data_len - (i + 1)) (drop (i + 1) data) (unat (b0 AND 0x0F))
            (p\<lparr>version := 1, msg_type := COAP_TYPE_CON, code := data ! i, mid := 0\<rparr>) em m)"

definition coap_parse_message ::
    "coap_protocol \<Rightarrow> byte list \<Rightarrow> nat \<Rightarrow> byte list \<Rightarrow> mem \<Rightarrow> (byte \<times> coap_packet \<times> byte list \<times> mem) res" where
  "coap_parse_message proto data data_len em m =
     (let p = zero_packet\<lparr>protocol := proto\<rparr> in
      case proto of
        COAP_UDP \<Rightarrow> parse_udp p data data_len em m
      | COAP_UDP_DTLS \<Rightarrow> parse_udp p data data_len em m
      | COAP_TCP \<Rightarrow> parse_tcp p data data_len em m
      | COAP_TCP_TLS \<Rightarrow> parse_tcp p data data_len em m
      | COAP_PROTOCOL_OTHER \<Rightarrow> parse_body data_len data 0 p em m)"

end
