(* ===== verification/Coap_Roundtrip.thy ===== *)
theory Coap_Roundtrip
imports Coap_Parse
begin

text \<open>
  Parser and serializer of CoAP messages against the format: a message is a header, a token, a list
  of options in the order of their numbers, and a payload. The serializer writes the encoding of the
  options that a packet holds, and the parser gets the options back from it.
\<close>

section \<open>The options that a packet holds\<close>

text \<open>
  Location-Query is left out, which the serializer cuts and the parser merges, and Proxy-Uri, which the parser refuses.
\<close>

definition known_options :: "nat list" where
  "known_options = [1, 3, 4, 5, 6, 7, 8, 11, 12, 14, 15, 17, 23, 27, 28]"

definition repeatable :: "nat \<Rightarrow> bool" where
  "repeatable n \<longleftrightarrow> n \<in> {8, 11, 15, 17}"

definition field_values :: "coap_packet \<Rightarrow> nat \<Rightarrow> byte list list" where
  "field_values p n =
     (if n = 1 then [if_match p]
      else if n = 3 then [take (uri_host_len p) (uri_host p)]
      else if n = 4 then [etag p]
      else if n = 5 then [[]]
      else if n = 6 then [int_bytes (observe_num p)]
      else if n = 7 then [int_bytes (ucast (uri_port p))]
      else if n = 8 then map option_bytes (location_path p)
      else if n = 11 then map option_bytes (uri_path p)
      else if n = 12 then [int_bytes (ucast (content_type p))]
      else if n = 14 then [int_bytes (max_age p)]
      else if n = 15 then map option_bytes (uri_query p)
      else if n = 17 then map (\<lambda>a. int_bytes (ucast a)) (accept p)
      else if n = 23 then [int_bytes (block_value (block2_num p) (block2_more p) (block2_size p))]
      else if n = 27 then [int_bytes (block_value (block1_num p) (block1_more p) (block1_size p))]
      else if n = 28 then [int_bytes (pkt_size p)]
      else [])"

definition option_list :: "coap_packet \<Rightarrow> nat \<Rightarrow> (nat \<times> byte list) list" where
  "option_list p n = (if IS_OPTION p n then map (Pair n) (field_values p n) else [])"

definition options_of :: "coap_packet \<Rightarrow> (nat \<times> byte list) list" where
  "options_of p = concat (map (option_list p) known_options)"

fun encode :: "nat \<Rightarrow> (nat \<times> byte list) list \<Rightarrow> byte list" where
  "encode cur [] = []"
| "encode cur ((n, v) # os) = coap_set_option_header (n - cur) (length v) @ v @ encode n os"

section \<open>The serializer writes the encoding\<close>

text \<open>A packet that can be sent: its pointers reach as far as its lengths say, and a path that is present has a segment.\<close>

definition multi_ok :: "multi_option list \<Rightarrow> bool" where
  "multi_ok os \<longleftrightarrow> os \<noteq> [] \<and> (\<forall>x \<in> set os. unat (opt_len x) \<le> length (opt_data x))"

definition sendable :: "coap_packet \<Rightarrow> bool" where
  "sendable p \<longleftrightarrow>
     \<not> IS_OPTION p COAP_OPTION_LOCATION_QUERY \<and> \<not> IS_OPTION p COAP_OPTION_PROXY_URI \<and>
     (IS_OPTION p COAP_OPTION_LOCATION_PATH \<longrightarrow> multi_ok (location_path p)) \<and>
     (IS_OPTION p COAP_OPTION_URI_PATH \<longrightarrow> multi_ok (uri_path p)) \<and>
     (IS_OPTION p COAP_OPTION_URI_QUERY \<longrightarrow> multi_ok (uri_query p)) \<and>
     (IS_OPTION p COAP_OPTION_URI_HOST \<longrightarrow> uri_host_len p \<le> length (uri_host p)) \<and>
     (payload_len p \<noteq> 0 \<longrightarrow> (\<exists>b. payload p = Some b \<and> unat (payload_len p) \<le> length b))"

definition payload_of :: "coap_packet \<Rightarrow> byte list" where
  "payload_of p = (case payload p of None \<Rightarrow> [] | Some b \<Rightarrow> take (unat (payload_len p)) b)"

definition with_marker :: "byte list \<Rightarrow> byte list" where
  "with_marker b = (if b = [] then [] else 0xFF # b)"

lemma encode_parts:
  "encode cur (map (Pair n) vs @ os) = put_parts (n - cur) vs @ encode (if vs = [] then cur else n) os"
proof (induction vs arbitrary: cur)
  case (Cons v vs)
  then show ?case by (cases vs) simp_all
qed simp

text \<open>What a macro does when its option has the values \<open>vs\<close>.\<close>

definition writes_values :: "coap_packet \<Rightarrow> nat \<Rightarrow> byte list list \<Rightarrow> writer \<Rightarrow> bool" where
  "writes_values p n vs w \<longleftrightarrow>
     (\<forall>cur. w cur = (if IS_OPTION p n \<and> vs \<noteq> [] then Inr (n, put_parts (n - cur) vs) else Inr (cur, [])))"

lemma writes_int: "writes_values p n [int_bytes v] (COAP_SERIALIZE_INT_OPTION p n v)"
  by (simp add: writes_values_def COAP_SERIALIZE_INT_OPTION_def coap_serialize_int_option_def)

lemma writes_string:
  assumes "IS_OPTION p n \<longrightarrow> k \<le> length b"
  shows "writes_values p n [take k b] (COAP_SERIALIZE_STRING_OPTION p n b k None)"
  using assms
  by (auto simp: writes_values_def COAP_SERIALIZE_STRING_OPTION_def coap_serialize_array_option_def copied_def min_def
      linorder_not_less)

lemma writes_bytes: "writes_values p n [b] (COAP_SERIALIZE_BYTE_OPTION p n b)"
  using writes_string [of p n "length b" b] by (simp add: COAP_SERIALIZE_BYTE_OPTION_def)

lemma writes_multi:
  assumes "IS_OPTION p n \<longrightarrow> multi_ok os"
  shows "writes_values p n (map option_bytes os) (COAP_SERIALIZE_MULTI_OPTION p n os)"
  using assms
  by (auto simp: writes_values_def COAP_SERIALIZE_MULTI_OPTION_def coap_serialize_multi_option_def multi_ok_def
      linorder_not_less)

lemma put_accepts_parts:
  "put_accepts n as cur =
     (if as = [] then (cur, []) else (n, put_parts (n - cur) (map (\<lambda>a. int_bytes (ucast a)) as)))"
proof (induction as arbitrary: cur)
  case (Cons a as)
  then show ?case by (simp add: coap_serialize_int_option_def)
qed simp

lemma writes_accept:
  "writes_values p n (map (\<lambda>a. int_bytes (ucast a)) as) (COAP_SERIALIZE_ACCEPT_OPTION p n as)"
  by (simp add: writes_values_def COAP_SERIALIZE_ACCEPT_OPTION_def put_accepts_parts)

lemma run_writers_encode:
  assumes "list_all2 (\<lambda>n w. writes_values p n (field_values p n) w) ns ws"
  shows "run_writers ws cur = Inr (encode cur (concat (map (option_list p) ns)))"
  using assms
proof (induction ns ws arbitrary: cur rule: list_all2_induct)
  case (Cons n ns w ws)
  from Cons(1) have w: "w cur = (if IS_OPTION p n \<and> field_values p n \<noteq> []
      then Inr (n, put_parts (n - cur) (field_values p n)) else Inr (cur, []))"
    by (simp add: writes_values_def)
  show ?case by (simp add: w Cons(3) option_list_def encode_parts)
qed simp

text \<open>The macros of absent options write nothing.\<close>

lemma writes_absent:
  assumes "\<not> IS_OPTION p n"
  shows "COAP_SERIALIZE_STRING_OPTION p n b k sep cur = Inr (cur, [])"
  using assms by (simp add: COAP_SERIALIZE_STRING_OPTION_def)

lemma run_writers_append:
  "run_writers (xs @ (\<lambda>cur. Inr (cur, [])) # ys) cur = run_writers (xs @ ys) cur"
proof (induction xs arbitrary: cur)
  case Nil
  show ?case by (cases "run_writers ys cur") simp_all
qed simp

lemma options_encoded:
  assumes "sendable p"
  shows "run_writers (option_writers p) 0 = Inr (encode 0 (options_of p))"
proof -
  let ?ws = "option_writers p"
  have lq: "COAP_SERIALIZE_STRING_OPTION p 20 b k sep = (\<lambda>cur. Inr (cur, []))"
    and pu: "COAP_SERIALIZE_STRING_OPTION p 35 b k sep = (\<lambda>cur. Inr (cur, []))" for b k sep
    using assms by (auto simp: sendable_def writes_absent)
  have "run_writers ?ws 0 = run_writers (take 12 ?ws @ take 3 (drop 13 ?ws)) 0"
    using run_writers_append [of "take 12 ?ws" "drop 13 ?ws" 0]
      run_writers_append [of "take 12 ?ws @ take 3 (drop 13 ?ws)" "[]" 0]
    by (simp add: option_writers_def lq pu)
  also have "\<dots> = Inr (encode 0 (options_of p))"
    unfolding options_of_def
  proof (rule run_writers_encode)
    show "list_all2 (\<lambda>n w. writes_values p n (field_values p n) w) known_options (take 12 ?ws @ take 3 (drop 13 ?ws))"
      using assms
      by (simp add: option_writers_def known_options_def field_values_def sendable_def writes_int writes_string
          writes_bytes writes_multi writes_accept COAP_SERIALIZE_BLOCK_OPTION_def
          writes_int [where v = 0, simplified int_bytes_def, simplified])
  qed
  finally show ?thesis .
qed

lemma payload_encoded:
  assumes "sendable p"
  shows "payload_bytes p = Inr (with_marker (payload_of p))"
proof (cases "payload_len p = 0")
  case True
  then show ?thesis by (simp add: payload_bytes_def with_marker_def payload_of_def split: option.split)
next
  case False
  then obtain b where b: "payload p = Some b" "unat (payload_len p) \<le> length b"
    using assms by (auto simp: sendable_def)
  moreover have "0 < unat (payload_len p)" using False by (metis gr0I unat_eq_zero)
  ultimately show ?thesis using False
    by (auto simp: payload_bytes_def with_marker_def payload_of_def copied_def)
qed

lemma message_encoded:
  assumes "sendable p"
  shows "coap_serialize_message p =
    Inr (udp_header p @ pkt_token p @ encode 0 (options_of p) @ with_marker (payload_of p),
      coap_free_header (p\<lparr>version := 1\<rparr>))"
  by (simp add: coap_serialize_message_def options_encoded [OF assms] payload_encoded [OF assms])

section \<open>Numbers\<close>

lemma parse_int_zero: "coap_parse_int_option (0 # b) = coap_parse_int_option b"
  by (simp add: coap_parse_int_option_def)

lemma parse_int_dropWhile: "coap_parse_int_option (dropWhile (\<lambda>x. x = 0) b) = coap_parse_int_option b"
  by (induction b) (auto simp: parse_int_zero)

lemma low_byte_split: "push_bit 8 (drop_bit 8 v) OR ucast (ucast v :: byte) = (v :: u32)"
  by (rule bit_word_eqI) (auto simp: bit_simps)

lemma zero_split: "(v :: u32) = 0 \<longleftrightarrow> drop_bit 8 v = 0 \<and> (ucast v :: byte) = 0"
proof
  assume "drop_bit 8 v = 0 \<and> (ucast v :: byte) = 0"
  then show "v = 0" by (subst low_byte_split [symmetric]) simp
qed simp

lemma drop_all [simp]: "drop_bit 32 (v :: u32) = 0"
  by (rule bit_word_eqI) (simp add: bit_simps)

lemma parse_int_four:
  "coap_parse_int_option [ucast (drop_bit 24 v), ucast (drop_bit 16 v), ucast (drop_bit 8 v), ucast v] = v"
proof -
  have s: "push_bit 8 (drop_bit (k + 8) v) OR ucast (ucast (drop_bit k v) :: byte) = drop_bit k v" for k
    using low_byte_split [of "drop_bit k v"] by (simp add: add.commute)
  have "ucast (ucast (drop_bit 24 v) :: byte) = drop_bit 24 v" using s [of 24] by simp
  then show ?thesis
    using s [of 16] s [of 8] s [of 0] by (simp add: coap_parse_int_option_def)
qed

lemma mask_zero: "push_bit k (mask (32 - k)) AND (v :: u32) = 0 \<longleftrightarrow> drop_bit k v = 0"
proof -
  have "push_bit k (mask (32 - k)) AND v = push_bit k (drop_bit k v)"
    by (rule bit_word_eqI) (auto simp: bit_simps)
  moreover have "drop_bit k (push_bit k (drop_bit k v)) = drop_bit k v"
    by (rule bit_word_eqI) (auto simp: bit_simps dest: bit_imp_le_length)
  ultimately show ?thesis by (metis drop_bit_of_0 push_bit_of_0)
qed

lemma top_bytes:
  fixes v :: u32
  shows "0xFF000000 AND v = 0 \<longleftrightarrow> (ucast (drop_bit 24 v) :: byte) = 0"
    and "0xFFFF0000 AND v = 0 \<longleftrightarrow> (ucast (drop_bit 24 v) :: byte) = 0 \<and> (ucast (drop_bit 16 v) :: byte) = 0"
    and "0xFFFFFF00 AND v = 0 \<longleftrightarrow> (ucast (drop_bit 24 v) :: byte) = 0 \<and> (ucast (drop_bit 16 v) :: byte) = 0
           \<and> (ucast (drop_bit 8 v) :: byte) = 0"
    and "0xFFFFFFFF AND v = 0 \<longleftrightarrow> (ucast (drop_bit 24 v) :: byte) = 0 \<and> (ucast (drop_bit 16 v) :: byte) = 0
           \<and> (ucast (drop_bit 8 v) :: byte) = 0 \<and> (ucast v :: byte) = 0"
proof -
  have z: "drop_bit k v = 0 \<longleftrightarrow> drop_bit (k + 8) v = 0 \<and> (ucast (drop_bit k v) :: byte) = 0" for k
    by (subst zero_split) (simp add: add.commute)
  note steps = z [of 24, simplified] z [of 16, simplified] z [of 8, simplified] z [of 0, simplified]
  show "0xFF000000 AND v = 0 \<longleftrightarrow> (ucast (drop_bit 24 v) :: byte) = 0"
    using mask_zero [of 24 v] steps(1) by (simp add: mask_eq_exp_minus_1)
  show "0xFFFF0000 AND v = 0 \<longleftrightarrow> (ucast (drop_bit 24 v) :: byte) = 0 \<and> (ucast (drop_bit 16 v) :: byte) = 0"
    using mask_zero [of 16 v] steps(1,2) by (simp add: mask_eq_exp_minus_1)
  show "0xFFFFFF00 AND v = 0 \<longleftrightarrow> (ucast (drop_bit 24 v) :: byte) = 0 \<and> (ucast (drop_bit 16 v) :: byte) = 0
           \<and> (ucast (drop_bit 8 v) :: byte) = 0"
    using mask_zero [of 8 v] steps(1-3) by (simp add: mask_eq_exp_minus_1)
  show "0xFFFFFFFF AND v = 0 \<longleftrightarrow> (ucast (drop_bit 24 v) :: byte) = 0 \<and> (ucast (drop_bit 16 v) :: byte) = 0
           \<and> (ucast (drop_bit 8 v) :: byte) = 0 \<and> (ucast v :: byte) = 0"
    using mask_zero [of 0 v] steps(1-4) by (simp add: mask_eq_exp_minus_1)
qed

lemma int_bytes_dropWhile:
  "int_bytes v = dropWhile (\<lambda>x. x = 0) [ucast (drop_bit 24 v), ucast (drop_bit 16 v), ucast (drop_bit 8 v), ucast v]"
  by (simp add: int_bytes_def top_bytes)

lemma parse_int_bytes [simp]: "coap_parse_int_option (int_bytes v) = v"
  by (simp only: int_bytes_dropWhile parse_int_dropWhile parse_int_four)

lemma int_bytes_length: "length (int_bytes v) \<le> 4"
  by (simp add: int_bytes_def)

lemma less_8_cases:
  assumes "k < (8::nat)"
  shows "k = 0 \<or> k = 1 \<or> k = 2 \<or> k = 3 \<or> k = 4 \<or> k = 5 \<or> k = 6 \<or> k = 7"
  using assms by linarith

lemma log_2_block:
  assumes "k < 8"
  shows "coap_log_2 (push_bit k 16 div 16) = word_of_nat k"
  using less_8_cases [OF assms]
  by (elim disjE) (simp_all add: coap_log_2_def log_2_loop.simps)

lemma and_one_bit: "(v :: u32) AND push_bit k 1 = (if bit v k then push_bit k 1 else 0)"
  by (rule bit_word_eqI) (auto simp: bit_simps)

lemma bits_split: "push_bit 4 (drop_bit 4 v) OR v AND push_bit 3 1 OR v AND mask 3 = (v :: u32)"
proof -
  have "push_bit 4 (drop_bit 4 v) OR v AND mask 4 = v"
    by (rule bit_word_eqI) (auto simp: bit_simps)
  moreover have "(mask 4 :: u32) = push_bit 3 1 OR mask 3" by (simp add: mask_eq_exp_minus_1)
  ultimately show ?thesis by (simp only: bit.conj_disj_distrib or.assoc)
qed

lemma block_value_fields:
  assumes "block_fields v = (num, mo, sz, off)"
  shows "block_value num mo sz = v"
proof -
  have k: "unat (v AND 7) < 8"
  proof -
    have "v AND 7 = take_bit 3 v" by (simp add: take_bit_eq_mask mask_eq_exp_minus_1)
    then have "unat (v AND 7) = take_bit 3 (unat v)" by (simp add: unsigned_take_bit_eq)
    also have "\<dots> < 2 ^ 3" by (rule take_bit_nat_less_exp)
    finally show ?thesis by simp
  qed
  have f: "num = drop_bit 4 v" "mo = ucast (drop_bit 3 (v AND 8))" "sz = push_bit (unat (v AND 7)) 16"
    using assms by (simp_all add: block_fields_def)
  have "v AND 7 = word_of_nat (unat (v AND 7))" by simp
  then obtain k where kw: "v AND 7 = word_of_nat k" and k8: "k < 8" using k by blast
  have uk: "unat (v AND 7) = k" using k8 by (simp add: kw unat_of_nat)
  have lg: "0xF AND ucast (coap_log_2 (sz div 16)) = v AND 7"
  proof -
    have "sz = push_bit k 16" by (simp add: f(3) uk)
    then show ?thesis
      unfolding kw using log_2_block [OF k8] less_8_cases [OF k8] by (elim disjE) simp_all
  qed
  have m: "mo \<noteq> 0 \<longleftrightarrow> bit v 3" using and_one_bit [of v 3] by (simp add: f(2))
  have "push_bit 4 (drop_bit 4 v) OR v AND push_bit 3 1 OR v AND mask 3 = v"
    by (rule bits_split)
  then have "push_bit 4 (drop_bit 4 v) OR (if bit v 3 then 8 else 0) OR v AND mask 3 = v"
    unfolding and_one_bit by (cases "bit v 3") simp_all
  then show ?thesis
    unfolding block_value_def lg f(1) by (simp add: m mask_eq_exp_minus_1)
qed

section \<open>Headers of options\<close>

lemma nibble_values:
  "unat (coap_option_nibble n) = (if n < 13 then n else if n \<le> 268 then 13 else 14)"
  by (auto simp: coap_option_nibble_def unat_of_nat)

lemma take_4_id: "take_bit 4 (z :: byte) = z" if "unat z < 16"
  using that by (simp add: word_eq_iff_unsigned [where 'a = nat] unsigned_take_bit_eq take_bit_nat_eq_self)

lemma two_nibbles:
  fixes x y :: byte
  assumes "unat x < 16" and "unat y < 16"
  shows "drop_bit 4 (push_bit 4 x OR y) = x" and "(push_bit 4 x OR y) AND 0x0F = y"
proof -
  have b: "n < 4" if "unat z < 16" "bit z n" for z :: byte and n
    using take_4_id [OF that(1)] that(2) by (metis bit_take_bit_iff)
  show "drop_bit 4 (push_bit 4 x OR y) = x"
    using b [OF assms(1)] b [OF assms(2)] by (intro bit_word_eqI) (fastforce simp: bit_simps)
  have "(push_bit 4 x OR y) AND mask 4 = y"
    using b [OF assms(2)] by (intro bit_word_eqI) (auto simp: bit_simps)
  then show "(push_bit 4 x OR y) AND 0x0F = y" by (simp add: mask_eq_exp_minus_1)
qed

lemma nibble_pair:
  fixes x y :: byte
  assumes "unat x < 15" and "unat y < 15"
  shows "drop_bit 4 (push_bit 4 x OR y) = x" and "(push_bit 4 x OR y) AND 0x0F = y"
    and "(push_bit 4 x OR y) AND 0xF0 \<noteq> 0xF0"
proof -
  have d: "drop_bit 4 (push_bit 4 x OR y) = x" and l: "(push_bit 4 x OR y) AND 0x0F = y"
    using two_nibbles [of x y] assms by simp_all
  show "drop_bit 4 (push_bit 4 x OR y) = x" by (rule d)
  show "(push_bit 4 x OR y) AND 0x0F = y" by (rule l)
  show "(push_bit 4 x OR y) AND 0xF0 \<noteq> 0xF0"
  proof
    assume "(push_bit 4 x OR y) AND 0xF0 = 0xF0"
    then have "drop_bit 4 ((push_bit 4 x OR y) AND 0xF0) = drop_bit 4 0xF0" by simp
    then have "x AND 0x0F = 0x0F" by (simp only: drop_bit_and d) simp
    moreover have "x AND 0x0F = x" using take_4_id [of x] assms(1) by (simp add: take_bit_eq_mask mask_eq_exp_minus_1)
    ultimately show False using assms(1) by simp
  qed
qed

lemma nibble_less: "unat (coap_option_nibble n) < 15"
  by (simp add: nibble_values)

lemma read_extension:
  assumes "n < 65805"
  shows "read_extended (unat (coap_option_nibble n)) (option_extension n @ r) = Inr (n, r)"
proof -
  consider "n < 13" | "13 \<le> n" "n \<le> 268" | "268 < n" by linarith
  then show ?thesis
  proof cases
    case 3
    have "(n - 269) div 256 < 256" using assms by linarith
    then have h: "unat (word_of_nat ((n - 269) div 256) :: byte) = (n - 269) div 256" by (simp add: unat_of_nat)
    have l: "unat (word_of_nat (n - 269) :: byte) = (n - 269) mod 256" by (simp only: unat_of_nat) simp
    have "14 + 255 + 256 * ((n - 269) div 256) + (n - 269) mod 256 = n"
      using 3 mult_div_mod_eq [of 256 "n - 269"] by linarith
    then show ?thesis using 3
      unfolding nibble_values read_extended_def option_extension_def by (simp del: of_nat_diff add: h l)
  next
    case 2
    have "unat (word_of_nat (n - 13) :: byte) = n - 13" using 2 by (simp only: unat_of_nat) simp
    then show ?thesis using 2
      unfolding nibble_values read_extended_def option_extension_def by (simp del: of_nat_diff)
  qed (simp add: nibble_values read_extended_def option_extension_def)
qed

section \<open>The parser reads the encoding\<close>

text \<open>The values that an option can have: a number is written without leading zeros.\<close>

definition canonical :: "nat \<Rightarrow> byte list \<Rightarrow> bool" where
  "canonical n v \<longleftrightarrow>
     n \<in> set known_options \<and> length v < 65805 \<and>
     (n \<in> {1, 4} \<longrightarrow> length v \<le> COAP_ETAG_LEN) \<and>
     (n = 5 \<longrightarrow> v = []) \<and>
     (n \<in> {8, 11, 15} \<longrightarrow> length v < 256) \<and>
     (n \<in> {6, 14, 23, 27, 28} \<longrightarrow> int_bytes (coap_parse_int_option v) = v) \<and>
     (n \<in> {7, 12, 17} \<longrightarrow> int_bytes (ucast (ucast (coap_parse_int_option v) :: u16)) = v)"

lemma canonical_bounds:
  assumes "canonical n v"
  shows "n < 40" and "length v < 65805"
proof -
  have "n \<in> set known_options" using assms by (simp only: canonical_def)
  then show "n < 40" by (auto simp: known_options_def)
  show "length v < 65805" using assms by (simp only: canonical_def)
qed

text \<open>What the header and the payload of a packet are.\<close>

definition envelope :: "coap_packet \<Rightarrow> _" where
  "envelope p = (version p, msg_type p, code p, mid p, pkt_token p, payload p, payload_len p, protocol p)"

text \<open>One option more in a packet.\<close>

definition extends :: "nat \<Rightarrow> byte list \<Rightarrow> coap_packet \<Rightarrow> coap_packet \<Rightarrow> bool" where
  "extends n v p p' \<longleftrightarrow>
     options p' = options (SET_OPTION n p) \<and> envelope p' = envelope p \<and>
     (\<forall>k. k \<noteq> n \<longrightarrow> field_values p' k = field_values p k) \<and>
     field_values p' n = (if repeatable n then field_values p n @ [v] else [v])"

lemma copied_append [simp]: "copied (length v) (v @ r) = Inr v"
  by (simp add: copied_def)

lemma option_bytes_static:
  assumes "length v < 256"
  shows "option_bytes (Multi True (word_of_nat (length v)) (v @ r)) = v"
  using assms by (simp add: option_bytes_def unat_of_nat)

lemma parse_option_extends:
  assumes c: "canonical n v" and a: "n = 17 \<Longrightarrow> length (accept p) < COAP_MAX_ACCEPT_NUM"
  shows "\<exists>p'. parse_option n (length v) (v @ r) (SET_OPTION n p) em [] = Inr (COAP_NO_ERROR, p', em, []) \<and> extends n v p p'"
proof -
  obtain num mo sz off where bf: "block_fields (coap_parse_int_option v) = (num, mo, sz, off)"
    by (metis surj_pair)
  note bv = block_value_fields [OF bf]
  have "n = 1 \<or> n = 3 \<or> n = 4 \<or> n = 5 \<or> n = 6 \<or> n = 7 \<or> n = 8 \<or> n = 11 \<or> n = 12 \<or> n = 14 \<or> n = 15
    \<or> n = 17 \<or> n = 23 \<or> n = 27 \<or> n = 28"
    using c by (simp add: canonical_def known_options_def)
  then show ?thesis
    using c a
    by (elim disjE)
      (simp_all add: parse_option_def extends_def canonical_def envelope_def field_values_def repeatable_def
        SET_OPTION_def bf bv coap_add_multi_option_def option_bytes_static min_absorb2)
qed

section \<open>The loop over the options\<close>

definition option_values :: "(nat \<times> byte list) list \<Rightarrow> nat \<Rightarrow> byte list list" where
  "option_values os n = map snd (filter (\<lambda>x. fst x = n) os)"

lemma option_values_simps [simp]:
  "option_values [] n = []"
  "option_values ((k, v) # os) n = (if k = n then v # option_values os n else option_values os n)"
  by (simp_all add: option_values_def)

text \<open>The field of an option after the options \<open>os\<close> were read into it.\<close>

definition field_after :: "byte list list \<Rightarrow> (nat \<times> byte list) list \<Rightarrow> nat \<Rightarrow> byte list list" where
  "field_after old os n =
     (if repeatable n then old @ option_values os n else if option_values os n = [] then old else [last (option_values os n)])"

lemma parse_options_step:
  assumes d: "cur \<le> n" "n - cur < 65805" and l: "length v < 65805"
  shows "parse_options (length (coap_set_option_header (n - cur) (length v)) + length v + left)
      (coap_set_option_header (n - cur) (length v) @ v @ r) cur p em m =
    (if 40 \<le> n then Inl OutOfBounds
     else bindE (parse_option n (length v) (v @ r) (SET_OPTION n p) em m) (\<lambda>(st, p', em', m').
       if st \<noteq> COAP_NO_ERROR then Inr (st, p', em', m') else parse_options left r n p' em' m'))"
proof -
  let ?d = "n - cur" and ?k = "length v"
  let ?b = "push_bit 4 (coap_option_nibble ?d) OR coap_option_nibble ?k"
  note pair = nibble_pair [OF nibble_less [of ?d] nibble_less [of ?k]]
  have left: "length (?b # option_extension ?d @ option_extension ?k) + ?k + left - (1 + (length (option_extension ?d @ option_extension ?k @ v @ r)
      - length (v @ r))) - ?k = left"
    by simp
  have x: "read_extended (unat (coap_option_nibble ?d)) (option_extension ?d @ s) = Inr (?d, s)" for s
    using d by (intro read_extension) simp
  show ?thesis
    by (subst parse_options.simps)
      (use left d in \<open>simp add: coap_set_option_header_def pair x read_extension [OF l] del: drop_bit_or length_append cong: if_cong\<close>)
qed

lemma parse_options_encoded:
  assumes "\<forall>(n, v) \<in> set os. canonical n v \<and> cur \<le> n" and "sorted (map fst os)"
    and "length (accept p) + length (option_values os 17) \<le> COAP_MAX_ACCEPT_NUM"
    and "length pl < 65536"
  shows "\<exists>q. parse_options (length (encode cur os) + length (with_marker pl)) (encode cur os @ with_marker pl @ slack) cur p em []
        = Inr (COAP_NO_ERROR, q, em, []) \<and>
      envelope q = envelope (if pl = [] then p else p\<lparr>payload := Some (pl @ slack), payload_len := word_of_nat (length pl)\<rparr>) \<and>
      (length (options p) = 5 \<longrightarrow> length (options q) = 5 \<and> (\<forall>n<40. IS_OPTION q n \<longleftrightarrow> IS_OPTION p n \<or> n \<in> fst ` set os)) \<and>
      (\<forall>n. field_values q n = field_after (field_values p n) os n)"
  using assms
proof (induction os arbitrary: cur p)
  case Nil
  let ?q = "if pl = [] then p else p\<lparr>payload := Some (pl @ slack), payload_len := word_of_nat (length pl)\<rparr>"
  have "parse_options (length (with_marker pl)) (with_marker pl @ slack) cur p em [] = Inr (COAP_NO_ERROR, ?q, em, [])"
    by (subst parse_options.simps) (simp add: with_marker_def)
  moreover have "field_values ?q n = field_values p n" and "options ?q = options p" for n
    by (simp_all add: field_values_def)
  ultimately show ?case
    by (intro exI [of _ ?q]) (simp add: field_after_def IS_OPTION_def)
next
  case (Cons x os)
  obtain n v where x: "x = (n, v)" by (metis surj_pair)
  have c: "canonical n v" and d: "cur \<le> n" using Cons.prems(1) by (auto simp: x)
  note n = canonical_bounds(1) [OF c] and l = canonical_bounds(2) [OF c]
  have "n = 17 \<Longrightarrow> length (accept p) < COAP_MAX_ACCEPT_NUM" using Cons.prems(3) by (simp add: x)
  from parse_option_extends [OF c this, of "encode n os @ with_marker pl @ slack" em]
  obtain p' where p': "parse_option n (length v) (v @ encode n os @ with_marker pl @ slack) (SET_OPTION n p) em [] = Inr (COAP_NO_ERROR, p', em, [])"
    and e: "extends n v p p'" by auto
  have fv: "field_values p' k = (if k = n then if repeatable n then field_values p n @ [v] else [v] else field_values p k)" for k
    using e by (simp add: extends_def)
  have acc: "length (accept p') = length (field_values p' 17)" for p' by (simp add: field_values_def)
  have "\<forall>(k, w) \<in> set os. canonical k w \<and> n \<le> k" using Cons.prems(1,2) by (auto simp: x)
  moreover have "sorted (map fst os)" using Cons.prems(2) by simp
  moreover have "length (accept p') + length (option_values os 17) \<le> COAP_MAX_ACCEPT_NUM"
    using Cons.prems(3) unfolding acc fv by (auto simp: x repeatable_def)
  ultimately obtain q where q: "parse_options (length (encode n os) + length (with_marker pl)) (encode n os @ with_marker pl @ slack) n p' em []
        = Inr (COAP_NO_ERROR, q, em, [])"
      "envelope q = envelope (if pl = [] then p' else p'\<lparr>payload := Some (pl @ slack), payload_len := word_of_nat (length pl)\<rparr>)"
      "length (options p') = 5 \<longrightarrow> length (options q) = 5 \<and> (\<forall>k<40. IS_OPTION q k \<longleftrightarrow> IS_OPTION p' k \<or> k \<in> fst ` set os)"
      "\<forall>k. field_values q k = field_after (field_values p' k) os k"
    using Cons.IH [of n p'] Cons.prems(4) by blast
  have run: "parse_options (length (encode cur (x # os)) + length (with_marker pl)) (encode cur (x # os) @ with_marker pl @ slack) cur p em []
      = Inr (COAP_NO_ERROR, q, em, [])"
    using n parse_options_step [OF d _ l, of "length (encode n os) + length (with_marker pl)" "encode n os @ with_marker pl @ slack" p em "[]"]
    by (simp add: x p' q(1) add.assoc)
  have opts: "IS_OPTION p' k \<longleftrightarrow> IS_OPTION (SET_OPTION n p) k" "length (options p') = length (options p)" for k
    using e by (simp_all add: extends_def IS_OPTION_def)
  show ?case
    using run q(2-4) e n by (intro exI [of _ q]) (auto simp: x opts fv field_after_def extends_def envelope_def)
qed

section \<open>Round trip\<close>

lemma option_values_append [simp]: "option_values (xs @ ys) n = option_values xs n @ option_values ys n"
  by (simp add: option_values_def)

lemma option_values_list: "option_values (option_list p k) n = (if k = n \<and> IS_OPTION p n then field_values p n else [])"
  by (cases "k = n") (simp_all add: option_list_def option_values_def filter_map comp_def)

lemma option_values_concat:
  assumes "distinct ns"
  shows "option_values (concat (map (option_list p) ns)) n = (if n \<in> set ns \<and> IS_OPTION p n then field_values p n else [])"
  using assms by (induction ns) (auto simp: option_values_list)

lemma option_values_of:
  "option_values (options_of p) n = (if n \<in> set known_options \<and> IS_OPTION p n then field_values p n else [])"
  unfolding options_of_def by (rule option_values_concat) (simp add: known_options_def)

lemma option_values_fst: "n \<in> fst ` set os \<longleftrightarrow> option_values os n \<noteq> []"
  by (auto simp: option_values_def filter_empty_conv)

lemma options_of_sorted: "sorted (map fst (options_of p))"
proof -
  have s: "sorted (map fst (concat (map (option_list p) ns)))" if "sorted ns" for ns
    using that
    by (induction ns) (auto simp: sorted_append option_list_def comp_def map_replicate_const)
  show ?thesis unfolding options_of_def by (rule s) (simp add: known_options_def)
qed

text \<open>The limits of the arrays of a packet.\<close>

definition packet_limits :: "coap_packet \<Rightarrow> bool" where
  "packet_limits p \<longleftrightarrow>
     msg_type p < 4 \<and> length (pkt_token p) \<le> COAP_TOKEN_LEN \<and> length (etag p) \<le> COAP_ETAG_LEN \<and>
     length (if_match p) \<le> COAP_ETAG_LEN \<and> length (accept p) \<le> COAP_MAX_ACCEPT_NUM \<and> uri_host_len p < 65805"

lemma ucast_up_down: "(ucast (ucast x :: u32) :: u16) = x"
  by (rule bit_word_eqI) (auto simp: bit_simps)

lemma option_bytes_length: "length (option_bytes x) < 256"
  by (simp add: option_bytes_def min_less_iff_disj)

lemma int_bytes_short: "length (int_bytes v) < 65805"
  using int_bytes_length [of v] by simp

lemma field_values_canonical:
  assumes "packet_limits p" and "n \<in> set known_options" and "v \<in> set (field_values p n)"
  shows "canonical n v"
proof -
  have host: "length (take (uri_host_len p) (uri_host p)) < 65805"
    using assms(1) by (simp add: packet_limits_def min_less_iff_disj)
  have multi: "length (option_bytes x) < 65805" for x using option_bytes_length [of x] by simp
  have "n = 1 \<or> n = 3 \<or> n = 4 \<or> n = 5 \<or> n = 6 \<or> n = 7 \<or> n = 8 \<or> n = 11 \<or> n = 12 \<or> n = 14 \<or> n = 15
    \<or> n = 17 \<or> n = 23 \<or> n = 27 \<or> n = 28"
    using assms(2) by (simp add: known_options_def)
  then show ?thesis
    using assms(1,3) host
    by (elim disjE)
      (auto simp: canonical_def known_options_def field_values_def packet_limits_def COAP_ETAG_LEN_def
        option_bytes_length multi int_bytes_short ucast_up_down)
qed

lemma options_of_canonical:
  assumes "packet_limits p"
  shows "\<forall>(n, v) \<in> set (options_of p). canonical n v \<and> 0 \<le> n"
  using field_values_canonical [OF assms] by (auto simp: options_of_def option_list_def split: if_splits)

lemma header_read:
  assumes "packet_limits p"
  shows "parse_udp q (udp_header p @ r) n em m =
    parse_body (n - 4) r (length (pkt_token p)) (q\<lparr>version := 1, msg_type := msg_type p, code := code p, mid := mid p\<rparr>) em m"
proof -
  have mid: "push_bit 8 (ucast (ucast (drop_bit 8 i) :: byte)) OR ucast (ucast i :: byte) = i" for i :: u16
    by (rule bit_word_eqI) (auto simp: bit_simps)
  have bit: "drop_bit 6 (0xC0 AND b) = 1 \<and> drop_bit 4 (0x30 AND b) = t \<and> unat (0x0F AND b) = k"
    if "b = (0xC0 AND push_bit 6 1) OR (0x30 AND push_bit 4 t) OR (0x0F AND word_of_nat k)" "t < 4" "k \<le> 8"
    for b t :: byte and k :: nat
  proof -
    have "unat t < 4" using that(2) by (simp add: word_less_nat_alt)
    then have "unat t = 0 \<or> unat t = 1 \<or> unat t = 2 \<or> unat t = 3" by linarith
    then have "t = 0 \<or> t = 1 \<or> t = 2 \<or> t = 3" by (simp add: word_eq_iff_unsigned [where 'a = nat])
    moreover have "k = 0 \<or> k = 1 \<or> k = 2 \<or> k = 3 \<or> k = 4 \<or> k = 5 \<or> k = 6 \<or> k = 7 \<or> k = 8" using that(3) by linarith
    ultimately show ?thesis unfolding that(1) by (elim disjE) simp_all
  qed
  show ?thesis
    using assms bit [of _ "msg_type p" "length (pkt_token p)"]
    by (simp add: parse_udp_def udp_header_def mid packet_limits_def COAP_TOKEN_LEN_def)
qed

lemma zero_repeatable: "repeatable n \<Longrightarrow> field_values zero_packet n = []"
  by (auto simp: repeatable_def field_values_def zero_packet_def)

lemma field_values_single:
  assumes "n \<in> set known_options" and "\<not> repeatable n"
  shows "\<exists>v. field_values p n = [v]"
  using assms by (auto simp: known_options_def repeatable_def field_values_def)

text \<open>The parser on the encoding of the options of a packet.\<close>

lemma body_read:
  assumes p: "packet_limits p" and z: "field_values p0 = field_values zero_packet" "options p0 = options zero_packet" "version p0 = 1"
    and pl: "length pl < 65536"
  shows "\<exists>q. parse_body (length (pkt_token p @ encode 0 (options_of p) @ with_marker pl))
        (pkt_token p @ encode 0 (options_of p) @ with_marker pl @ slack) (length (pkt_token p)) p0 em []
      = Inr (COAP_NO_ERROR, q, em, []) \<and> options_of q = options_of p \<and> length (options q) = 5 \<and>
      envelope q = envelope (p0\<lparr>pkt_token := if pkt_token p = [] then pkt_token p0 else pkt_token p,
        payload := if pl = [] then payload p0 else Some (pl @ slack),
        payload_len := if pl = [] then payload_len p0 else word_of_nat (length pl)\<rparr>)"
proof -
  let ?p1 = "if pkt_token p \<noteq> [] then SET_OPTION COAP_OPTION_TOKEN (p0\<lparr>pkt_token := pkt_token p\<rparr>) else p0"
  have fv: "field_values ?p1 n = field_values zero_packet n" for n
    using z(1) by (auto simp: field_values_def SET_OPTION_def dest: fun_cong [of _ _ n])
  have acc: "length (accept r) = length (field_values r 17)" for r by (simp add: field_values_def)
  have lim: "length (accept ?p1) + length (option_values (options_of p) 17) \<le> COAP_MAX_ACCEPT_NUM"
    using p unfolding acc fv by (simp add: zero_repeatable repeatable_def option_values_of acc [symmetric] packet_limits_def)
  from parse_options_encoded [OF options_of_canonical [OF p] options_of_sorted lim pl, of slack em]
  obtain q where q: "parse_options (length (encode 0 (options_of p)) + length (with_marker pl))
        (encode 0 (options_of p) @ with_marker pl @ slack) 0 ?p1 em [] = Inr (COAP_NO_ERROR, q, em, [])"
      "envelope q = envelope (if pl = [] then ?p1 else ?p1\<lparr>payload := Some (pl @ slack), payload_len := word_of_nat (length pl)\<rparr>)"
      "length (options ?p1) = 5 \<longrightarrow> length (options q) = 5 \<and>
        (\<forall>n<40. IS_OPTION q n \<longleftrightarrow> IS_OPTION ?p1 n \<or> n \<in> fst ` set (options_of p))"
      "\<forall>n. field_values q n = field_after (field_values ?p1 n) (options_of p) n" by blast
  have run: "parse_body (length (pkt_token p @ encode 0 (options_of p) @ with_marker pl))
        (pkt_token p @ encode 0 (options_of p) @ with_marker pl @ slack) (length (pkt_token p)) p0 em []
      = Inr (COAP_NO_ERROR, q, em, [])"
    using q(1) p z(3) by (simp add: parse_body_def packet_limits_def not_less)
  have o1: "length (options ?p1) = 5" using z(2) by simp
  have off: "\<not> IS_OPTION ?p1 n" if "n \<in> set known_options" for n
  proof -
    have "n < 40" "n \<noteq> 19" using that by (auto simp: known_options_def)
    moreover have "IS_OPTION ?p1 n \<longleftrightarrow> IS_OPTION (if pkt_token p \<noteq> [] then SET_OPTION COAP_OPTION_TOKEN zero_packet else zero_packet) n"
      using z(2) by (simp add: IS_OPTION_def SET_OPTION_def)
    ultimately show ?thesis by simp
  qed
  have "option_list q n = option_list p n" if n: "n \<in> set known_options" for n
  proof -
    have "n < 40" using n by (auto simp: known_options_def)
    then have "IS_OPTION q n \<longleftrightarrow> IS_OPTION p n \<and> field_values p n \<noteq> []"
      using q(3) o1 off [OF n] n by (simp add: option_values_fst option_values_of)
    moreover have "field_values q n = field_values p n" if "IS_OPTION p n" "field_values p n \<noteq> []"
      using q(4) that n field_values_single [OF n, of p] zero_repeatable [of n]
      unfolding fv by (auto simp: field_after_def option_values_of)
    ultimately show ?thesis by (auto simp: option_list_def)
  qed
  then have "options_of q = options_of p" by (simp add: options_of_def cong: map_cong)
  with run q(2,3) o1 show ?thesis
    by (intro exI [of _ q]) (simp add: envelope_def SET_OPTION_def)
qed

lemma payload_of_length: "length (payload_of p) < 65536"
  using unsigned_less [of "payload_len p", where ?'a = nat]
  by (simp add: payload_of_def min_less_iff_disj split: option.split)

lemma body_roundtrip:
  assumes "packet_limits p" and "p0 = zero_packet\<lparr>protocol := proto, version := 1, msg_type := t, code := c, mid := i\<rparr>"
  shows "\<exists>q. parse_body (length (pkt_token p @ encode 0 (options_of p) @ with_marker (payload_of p)))
        (pkt_token p @ encode 0 (options_of p) @ with_marker (payload_of p) @ slack) (length (pkt_token p)) p0 em []
      = Inr (COAP_NO_ERROR, q, em, []) \<and> options_of q = options_of p \<and> payload_of q = payload_of p \<and>
      msg_type q = t \<and> code q = c \<and> mid q = i \<and> pkt_token q = pkt_token p"
proof -
  let ?pl = "payload_of p"
  have z: "field_values p0 = field_values zero_packet" "options p0 = options zero_packet" "version p0 = 1"
    by (auto simp: field_values_def assms(2))
  from body_read [OF assms(1) z payload_of_length [of p], of slack em]
  obtain q where q: "parse_body (length (pkt_token p @ encode 0 (options_of p) @ with_marker ?pl))
        (pkt_token p @ encode 0 (options_of p) @ with_marker ?pl @ slack) (length (pkt_token p)) p0 em []
      = Inr (COAP_NO_ERROR, q, em, [])" "options_of q = options_of p"
      "envelope q = envelope (p0\<lparr>pkt_token := if pkt_token p = [] then pkt_token p0 else pkt_token p,
        payload := if ?pl = [] then payload p0 else Some (?pl @ slack),
        payload_len := if ?pl = [] then payload_len p0 else word_of_nat (length ?pl)\<rparr>)" by blast
  have env: "msg_type q = t" "code q = c" "mid q = i" "pkt_token q = pkt_token p"
    using q(3) by (simp_all add: envelope_def zero_packet_def assms(2))
  have "payload_of q = ?pl"
  proof (cases "?pl = []")
    case True
    then show ?thesis using q(3) by (simp add: envelope_def zero_packet_def payload_of_def assms(2))
  next
    case False
    then have "payload q = Some (?pl @ slack)" "payload_len q = word_of_nat (length ?pl)"
      using q(3) by (simp_all add: envelope_def)
    then show ?thesis using payload_of_length [of p]
      unfolding payload_of_def [of q] by (simp add: unat_of_nat)
  qed
  with q(1,2) env show ?thesis by blast
qed

lemma message_read:
  assumes "sendable p" and "packet_limits p" and "proto \<in> {COAP_UDP, COAP_UDP_DTLS}"
  shows "\<exists>b p' q. coap_serialize_message p = Inr (b, p') \<and>
    coap_parse_message proto (b @ slack) (length b) em [] = Inr (COAP_NO_ERROR, q, em, []) \<and>
    options_of q = options_of p \<and> payload_of q = payload_of p \<and> msg_type q = msg_type p \<and> code q = code p \<and>
    mid q = mid p \<and> pkt_token q = pkt_token p"
proof -
  let ?b = "udp_header p @ pkt_token p @ encode 0 (options_of p) @ with_marker (payload_of p)"
  from body_roundtrip [OF assms(2) refl, where proto = proto and t = "msg_type p" and c = "code p" and i = "mid p" and slack = slack and em = em]
  obtain q where q: "parse_body (length (pkt_token p @ encode 0 (options_of p) @ with_marker (payload_of p)))
        (pkt_token p @ encode 0 (options_of p) @ with_marker (payload_of p) @ slack) (length (pkt_token p))
        (zero_packet\<lparr>protocol := proto, version := 1, msg_type := msg_type p, code := code p, mid := mid p\<rparr>) em []
      = Inr (COAP_NO_ERROR, q, em, [])" "options_of q = options_of p" "payload_of q = payload_of p"
      "msg_type q = msg_type p" "code q = code p" "mid q = mid p" "pkt_token q = pkt_token p" by blast
  have "length (udp_header p) = 4" by (simp add: udp_header_def)
  then have "coap_parse_message proto (?b @ slack) (length ?b) em [] = Inr (COAP_NO_ERROR, q, em, [])"
    using assms(3) q(1) header_read [OF assms(2)] by (auto simp: coap_parse_message_def)
  then show ?thesis using message_encoded [OF assms(1)] q(2-) by blast
qed


text \<open>A POST with a token, two path segments, a content type, a block option and a payload.\<close>

definition ex_request :: coap_packet where
  "ex_request = snd (coap_set_header_block1 (coap_set_header_content_type (SET_OPTION COAP_OPTION_URI_PATH
     ((coap_init_message COAP_UDP COAP_TYPE_CON COAP_POST 0x1234)\<lparr>uri_path := [Multi True 1 [51], Multi True 1 [48, 7]],
       pkt_token := [1, 2], payload := Some [5, 6, 7], payload_len := 2\<rparr>)) 11542) 1 1 16)"

lemma ex_request_ok: "sendable ex_request" "packet_limits ex_request"
  by (simp_all add: ex_request_def sendable_def packet_limits_def coap_set_header_block1_def coap_set_header_content_type_def
      SET_OPTION_def coap_init_message_def zero_packet_def IS_OPTION_def multi_ok_def COAP_TOKEN_LEN_def)


lemma ex_request_options:
  "options_of ex_request = [(11, [51]), (11, [48]), (12, [0x2D, 0x16]), (27, [0x18])]"
  by (simp add: ex_request_def options_of_def known_options_def option_list_def field_values_def option_bytes_def
      coap_set_header_block1_def coap_set_header_content_type_def SET_OPTION_def coap_init_message_def zero_packet_def
      IS_OPTION_def int_bytes_def block_value_def coap_log_2_def log_2_loop.simps)

section \<open>Repeated options inside the message\<close>

text \<open>The repeated options of a packet lie inside the blocks they point to.\<close>

definition whole_option :: "multi_option \<Rightarrow> bool" where
  "whole_option x \<longleftrightarrow> unat (opt_len x) \<le> length (opt_data x)"

definition whole_options :: "coap_packet \<Rightarrow> bool" where
  "whole_options p \<longleftrightarrow> (\<forall>x \<in> set (uri_path p) \<union> set (uri_query p) \<union> set (location_path p). whole_option x)"

lemma whole_static: "whole_option (Multi True (word_of_nat (length v)) (v @ r))"
proof -
  have "unat (word_of_nat (length v) :: byte) \<le> length v" by (simp add: unat_of_nat)
  then show ?thesis by (simp add: whole_option_def)
qed

lemma parse_option_whole:
  assumes "parse_option n (length v) (v @ r) (SET_OPTION n p) em [] = Inr (st, p', em', m')" and "whole_options p"
  shows "whole_options p'"
  using assms whole_static [of v r]
  by (auto simp: parse_option_def Let_def SET_OPTION_def whole_options_def coap_add_multi_option_def
      elim!: bindE_Inr_E split: if_splits prod.splits)

lemma parse_options_invariant:
  assumes inv: "\<And>n v r p em st p' em' m'. parse_option n (length v) (v @ r) (SET_OPTION n p) em [] = Inr (st, p', em', m') \<Longrightarrow> n < 40 \<Longrightarrow> I p \<Longrightarrow> I p'"
      "\<And>p. I p \<Longrightarrow> I (p\<lparr>payload := Some (pl @ slack), payload_len := word_of_nat (length pl)\<rparr>)"
    and "\<forall>(n, v) \<in> set os. canonical n v \<and> cur \<le> n" and "sorted (map fst os)"
    and "parse_options (length (encode cur os) + length (with_marker pl)) (encode cur os @ with_marker pl @ slack) cur p em []
      = Inr (st, q, em', m')" and "I p"
  shows "I q"
  using assms(3-)
proof (induction os arbitrary: cur p em)
  case Nil
  have "parse_options (length (with_marker pl)) (with_marker pl @ slack) cur p em []
      = Inr (COAP_NO_ERROR, if pl = [] then p else p\<lparr>payload := Some (pl @ slack), payload_len := word_of_nat (length pl)\<rparr>, em, [])"
    by (subst parse_options.simps) (simp add: with_marker_def)
  then show ?case using Nil inv(2) by (auto split: if_splits)
next
  case (Cons x os)
  obtain n v where x: "x = (n, v)" by (metis surj_pair)
  have c: "canonical n v" and d: "cur \<le> n" using Cons.prems(1) by (auto simp: x)
  note n = canonical_bounds(1) [OF c] and l = canonical_bounds(2) [OF c]
  let ?r = "encode n os @ with_marker pl @ slack" and ?left = "length (encode n os) + length (with_marker pl)"
  let ?f = "\<lambda>(st, p', em', m'). if st \<noteq> COAP_NO_ERROR then Inr (st, p', em', m') else parse_options ?left ?r n p' em' m'"
  have run: "bindE (parse_option n (length v) (v @ ?r) (SET_OPTION n p) em []) ?f = Inr (st, q, em', m')"
    using Cons.prems(3) n parse_options_step [OF d _ l, of ?left ?r p em "[]"] by (simp add: x add.assoc)
  obtain p1 em1 m1 st1 where p1: "parse_option n (length v) (v @ ?r) (SET_OPTION n p) em [] = Inr (st1, p1, em1, m1)"
    and rest: "(if st1 \<noteq> COAP_NO_ERROR then Inr (st1, p1, em1, m1) else parse_options ?left ?r n p1 em1 m1) = Inr (st, q, em', m')"
    using run by (auto elim!: bindE_Inr_E)
  have w: "I p1" by (rule inv(1) [OF p1 n Cons.prems(4)])
  have m: "m1 = []"
    using p1 by (auto simp: parse_option_def Let_def coap_add_multi_option_def elim!: bindE_Inr_E split: if_splits prod.splits)
  show ?case
  proof (cases "st1 = COAP_NO_ERROR")
    case True
    have "\<forall>(k, w) \<in> set os. canonical k w \<and> n \<le> k" using Cons.prems(1,2) by (auto simp: x)
    then show ?thesis using Cons.IH [of n p1 em1] Cons.prems(2) rest True m w by simp
  next
    case False
    then show ?thesis using rest w by simp
  qed
qed

lemma parse_option_keeps:
  assumes "parse_option n (length v) (v @ r) (SET_OPTION n p) em [] = Inr (st, p', em', m')"
  shows "options p' = options (SET_OPTION n p)" and "protocol p' = protocol p"
    and "payload p' = payload p" and "payload_len p' = payload_len p"
  using assms
  by (auto simp: parse_option_def Let_def SET_OPTION_def coap_add_multi_option_def elim!: bindE_Inr_E split: if_splits prod.splits)

lemma parse_option_query:
  assumes "parse_option n (length v) (v @ r) (SET_OPTION n p) em [] = Inr (st, p', em', m')"
  shows "uri_query p' = [] \<Longrightarrow> n \<noteq> COAP_OPTION_URI_QUERY \<and> uri_query p = []"
  using assms
  by (auto simp: parse_option_def Let_def SET_OPTION_def coap_add_multi_option_def elim!: bindE_Inr_E split: if_splits prod.splits)

definition whole_payload :: "coap_packet \<Rightarrow> bool" where
  "whole_payload p \<longleftrightarrow> unat (payload_len p) \<le> (case payload p of None \<Rightarrow> 0 | Some b \<Rightarrow> length b)"

lemma whole_payload_of: "whole_payload p \<Longrightarrow> length (payload_of p) = unat (payload_len p)"
  by (auto simp: whole_payload_def payload_of_def split: option.splits)

text \<open>What the parser finds of a message: its options and its payload are whole, a token is marked as one, and the protocol is kept.\<close>

lemma message_read_whole:
  assumes "sendable p" and "packet_limits p" and "proto \<in> {COAP_UDP, COAP_UDP_DTLS}" and "coap_serialize_message p = Inr (b, p')"
    and q: "coap_parse_message proto (b @ slack) (length b) em [] = Inr (st, q, em', m')" and tok: "pkt_token p \<noteq> []"
  shows "whole_options q" and "IS_OPTION q COAP_OPTION_TOKEN" and "protocol q = proto" and "whole_payload q"
    and "IS_OPTION q COAP_OPTION_URI_QUERY \<Longrightarrow> uri_query q \<noteq> []"
proof -
  let ?e = "encode 0 (options_of p) @ with_marker (payload_of p)"
  have b: "b = udp_header p @ pkt_token p @ ?e" using message_encoded [OF assms(1)] assms(4) by simp
  let ?q = "zero_packet\<lparr>protocol := proto, version := 1, msg_type := msg_type p, code := code p, mid := mid p\<rparr>"
  let ?q1 = "SET_OPTION COAP_OPTION_TOKEN (?q\<lparr>pkt_token := pkt_token p\<rparr>)"
  let ?I = "\<lambda>q. whole_options q \<and> IS_OPTION q COAP_OPTION_TOKEN \<and> length (options q) = 5 \<and> protocol q = proto \<and> whole_payload q \<and>
    (IS_OPTION q COAP_OPTION_URI_QUERY \<longrightarrow> uri_query q \<noteq> [])"
  have "length (udp_header p) = 4" by (simp add: udp_header_def)
  then have "parse_body (length (pkt_token p @ ?e)) (pkt_token p @ ?e @ slack) (length (pkt_token p)) ?q em [] = Inr (st, q, em', m')"
    using q assms(3) header_read [OF assms(2)] unfolding b by (auto simp: coap_parse_message_def)
  moreover have "length (pkt_token p) \<le> COAP_TOKEN_LEN" using assms(2) by (simp add: packet_limits_def)
  ultimately have run: "parse_options (length (encode 0 (options_of p)) + length (with_marker (payload_of p)))
      (encode 0 (options_of p) @ with_marker (payload_of p) @ slack) 0 ?q1 em [] = Inr (st, q, em', m')"
    using tok by (auto simp: parse_body_def copied_def split: if_splits)
  have "IS_OPTION (SET_OPTION COAP_OPTION_TOKEN zero_packet) COAP_OPTION_TOKEN"
      "\<not> IS_OPTION (SET_OPTION COAP_OPTION_TOKEN zero_packet) COAP_OPTION_URI_QUERY" "length (options zero_packet) = 5" by simp_all
  then have "?I ?q1" by (simp add: whole_payload_def whole_options_def SET_OPTION_def IS_OPTION_def zero_packet_def)
  moreover have "?I p1" if "parse_option n (length v) (v @ r) (SET_OPTION n p0) em [] = Inr (st, p1, em', m')" "n < 40" "?I p0" for n v r p0 em st p1 em' m'
  proof -
    have "IS_OPTION (SET_OPTION n p0) COAP_OPTION_TOKEN" "length (options (SET_OPTION n p0)) = 5" using that(2,3) by simp_all
    moreover have "IS_OPTION (SET_OPTION n p0) COAP_OPTION_URI_QUERY \<longleftrightarrow> n = COAP_OPTION_URI_QUERY \<or> IS_OPTION p0 COAP_OPTION_URI_QUERY"
      using that(2,3) by auto
    ultimately show ?thesis using parse_option_keeps [OF that(1)] parse_option_whole [OF that(1)] parse_option_query [OF that(1)] that(3)
      by (auto simp: IS_OPTION_def whole_payload_def)
  qed
  moreover have "?I (p\<lparr>payload := Some (payload_of p0 @ slack), payload_len := word_of_nat (length (payload_of p0))\<rparr>)" if "?I p" for p p0
    using that by (simp add: whole_payload_def whole_options_def IS_OPTION_def unat_of_nat trans_le_add1)
  ultimately have "?I q"
    using parse_options_invariant [where I = ?I, OF _ _ options_of_canonical [OF assms(2)] options_of_sorted run] by blast
  then show "whole_options q" "IS_OPTION q COAP_OPTION_TOKEN" "protocol q = proto" "whole_payload q"
    "IS_OPTION q COAP_OPTION_URI_QUERY \<Longrightarrow> uri_query q \<noteq> []" by simp_all
qed

end
