(* ===== verification/Coap_Bounds.thy ===== *)
theory Coap_Bounds
imports Coap_Roundtrip
begin

text \<open>
  The sizes of CoAP messages against the blocks that are allocated for them, the limits that the parser
  keeps for every input, and the messages over TCP.
\<close>

section \<open>Sizes\<close>

text \<open>The bytes of one option, whatever the option in front of it.\<close>

definition item_cost :: "nat \<times> byte list \<Rightarrow> nat" where
  "item_cost x = (if fst x < 13 then 1 else 2) + (if length (snd x) < 13 then 0 else if length (snd x) < 269 then 1 else 2)
     + length (snd x)"

lemma encode_length:
  assumes "\<forall>x \<in> set os. fst x < 269"
  shows "length (encode cur os) \<le> (\<Sum>x\<leftarrow>os. item_cost x)"
  using assms
proof (induction cur os rule: encode.induct)
  case (2 cur n v os)
  have "length (option_extension (n - cur)) \<le> (if n < 13 then 0 else 1)"
    using 2(2) by (auto simp: option_extension_def)
  moreover have "length (option_extension (length v)) = (if length v < 13 then 0 else if length v < 269 then 1 else 2)"
    by (auto simp: option_extension_def)
  ultimately have "length (coap_set_option_header (n - cur) (length v) @ v) \<le> item_cost (n, v)"
    by (auto simp: coap_set_option_header_def item_cost_def)
  moreover have "length (encode n os) \<le> (\<Sum>x\<leftarrow>os. item_cost x)" using 2 by simp
  ultimately show ?case by simp
qed simp

text \<open>
  The numbers that the setters keep: a sequence number of 24 bits, blocks of 20 bits. Max-Age and
  Size have four bytes, for which five bytes are not enough.
\<close>

definition sized :: "coap_packet \<Rightarrow> bool" where
  "sized p \<longleftrightarrow> \<not> IS_OPTION p COAP_OPTION_MAX_AGE \<and> \<not> IS_OPTION p COAP_OPTION_SIZE \<and>
     (IS_OPTION p COAP_OPTION_BLOCK2 \<longrightarrow> block2_num p \<le> 0x0FFFFF) \<and>
     (IS_OPTION p COAP_OPTION_BLOCK1 \<longrightarrow> block1_num p \<le> 0x0FFFFF)"

lemma int_bytes_24:
  assumes "drop_bit 24 v = 0"
  shows "length (int_bytes v) \<le> 3"
  using assms by (simp add: int_bytes_def top_bytes)

lemma int_bytes_16: "length (int_bytes (ucast (x :: u16))) \<le> 2"
proof -
  have "drop_bit 24 (ucast x :: u32) = 0" "drop_bit 16 (ucast x :: u32) = 0"
    by (rule bit_word_eqI; auto simp: bit_simps dest: bit_imp_le_length)+
  then show ?thesis by (simp add: int_bytes_def top_bytes)
qed

lemma block_value_24:
  assumes "num \<le> 0x0FFFFF"
  shows "drop_bit 24 (block_value num mo sz) = 0"
proof -
  have "unat num < 2 ^ 20" using assms by (simp add: word_le_nat_alt)
  then have "take_bit 20 num = num"
    by (simp add: word_eq_iff_unsigned [where 'a = nat] unsigned_take_bit_eq take_bit_nat_eq_self)
  then have "\<not> bit num (20 + n)" for n by (metis bit_take_bit_iff not_add_less1)
  then have "drop_bit 24 (push_bit 4 num) = 0"
    by (intro bit_word_eqI) (simp add: bit_simps)
  moreover have "drop_bit 24 (0xF AND x) = 0" for x :: u32
    by (simp add: drop_bit_and)
  ultimately show ?thesis by (simp add: block_value_def)
qed

text \<open>What the size functions count for the option \<open>n\<close>.\<close>

definition size_entry :: "coap_packet \<Rightarrow> nat \<Rightarrow> nat" where
  "size_entry p n = (if IS_OPTION p n then the (map_of (option_sizes p) n) else 0)"

lemma options_size_entries:
  assumes "sendable p"
  shows "options_size p = (\<Sum>n\<leftarrow>known_options. size_entry p n)"
  using assms
  by (simp add: options_size_def option_sizes_def size_entry_def known_options_def sendable_def)

lemma multi_cost:
  assumes "n < 269"
  shows "(\<Sum>x\<leftarrow>map (\<lambda>y. (n, option_bytes y)) os. item_cost x) \<le> multi_size os"
proof (induction os)
  case (Cons y os)
  have "length (option_bytes y) \<le> unat (opt_len y)" by (simp add: option_bytes_def)
  then have "item_cost (n, option_bytes y) \<le> 5 + unat (opt_len y)"
    using option_bytes_length [of y] by (auto simp: item_cost_def)
  with Cons show ?case by (simp add: multi_size_def COAP_MAX_OPTION_HEADER_LEN_def)
qed simp

lemma accept_cost: "(\<Sum>x\<leftarrow>map (\<lambda>a. (17, int_bytes (ucast a))) (as :: u16 list). item_cost x) \<le> length as * 5"
proof (induction as)
  case (Cons a as)
  have "item_cost (17, int_bytes (ucast a)) \<le> 5" using int_bytes_16 [of a] by (simp add: item_cost_def)
  with Cons show ?case by simp
qed simp

lemma entry_cost:
  assumes "sized p" and "packet_limits p" and "n \<in> set known_options"
  shows "(\<Sum>x\<leftarrow>option_list p n. item_cost x) \<le> size_entry p n - (if n = 12 \<and> IS_OPTION p 12 then 2 else 0)"
proof (cases "IS_OPTION p n")
  case True
  have i: "length (int_bytes v) < 13" for v using int_bytes_length [of v] by simp
  have h: "item_cost (k, int_bytes (ucast x)) \<le> 4" for k and x :: u16
    using int_bytes_16 [of x] by (simp add: item_cost_def)
  have h7: "item_cost (7, int_bytes (ucast x)) \<le> 5" for x :: u16 using h [of 7 x] by simp
  have c: "item_cost (12, int_bytes (ucast x)) \<le> 3" for x :: u16
    using int_bytes_16 [of x] by (simp add: item_cost_def)
  have b: "item_cost (k, int_bytes (block_value num mo sz)) \<le> 5" if "num \<le> 0x0FFFFF" for k num mo sz
    using int_bytes_24 [OF block_value_24 [OF that, of mo sz]] by (simp add: item_cost_def)
  have o: "item_cost (6, int_bytes x) \<le> 5" for x using int_bytes_length [of x] by (simp add: item_cost_def)
  have e: "item_cost (k, v) \<le> 5 + length v" for k v by (simp add: item_cost_def)
  have t: "item_cost (3, take k v) \<le> 5 + k" for k v using e [of 3 "take k v"] by simp
  have "n = 1 \<or> n = 3 \<or> n = 4 \<or> n = 5 \<or> n = 6 \<or> n = 7 \<or> n = 8 \<or> n = 11 \<or> n = 12 \<or> n = 14 \<or> n = 15
    \<or> n = 17 \<or> n = 23 \<or> n = 27 \<or> n = 28"
    using assms(3) by (simp add: known_options_def)
  then show ?thesis
    using True assms(1) e t h7 c o b multi_cost accept_cost
    by (elim disjE)
      (simp_all add: option_list_def field_values_def size_entry_def option_sizes_def sized_def COAP_MAX_OPTION_HEADER_LEN_def
        comp_def item_cost_def [of "(5, [])"])
next
  case False
  then show ?thesis by (auto simp: option_list_def)
qed

lemma options_fit:
  assumes "sendable p" and "sized p" and "packet_limits p"
  shows "length (encode 0 (options_of p)) + (if IS_OPTION p COAP_OPTION_CONTENT_TYPE then 2 else 0) \<le> options_size p"
proof -
  have "\<forall>x \<in> set (options_of p). fst x < 269"
    by (auto simp: options_of_def known_options_def option_list_def split: if_splits)
  then have "length (encode 0 (options_of p)) \<le> (\<Sum>x\<leftarrow>options_of p. item_cost x)" by (rule encode_length)
  also have "\<dots> = (\<Sum>n\<leftarrow>known_options. \<Sum>x\<leftarrow>option_list p n. item_cost x)"
    by (simp add: options_of_def known_options_def)
  also have "\<dots> \<le> (\<Sum>n\<leftarrow>known_options. size_entry p n - (if n = 12 \<and> IS_OPTION p 12 then 2 else 0))"
    by (intro sum_list_mono entry_cost [OF assms(2,3)])
  also have "\<dots> + (if IS_OPTION p 12 then 2 else 0) = (\<Sum>n\<leftarrow>known_options. size_entry p n)"
    by (simp add: known_options_def size_entry_def option_sizes_def COAP_MAX_OPTION_HEADER_LEN_def)
  finally show ?thesis by (simp add: options_size_entries [OF assms(1)])
qed

lemma message_fits:
  assumes "sendable p" and "sized p" and "packet_limits p"
  shows "\<exists>b p'. coap_serialize_message p = Inr (b, p') \<and>
    length b \<le> coap_serialize_get_size p + (if payload_len p = 0 then 0 else 1) \<and>
    (IS_OPTION p COAP_OPTION_CONTENT_TYPE \<longrightarrow> length b \<le> coap_serialize_get_size p)"
proof -
  have "length (payload_of p) \<le> unat (payload_len p)"
    by (simp add: payload_of_def split: option.split)
  then show ?thesis
    using options_fit [OF assms] message_encoded [OF assms(1)]
    by (auto simp: coap_serialize_get_size_def udp_header_def with_marker_def split: if_splits)
qed



text \<open>
  The missing byte: a message with a payload and without options is one byte longer than the block that is allocated
  for it. The error answers of the library are such messages.
\<close>

theorem coap_payload_overruns:
  assumes "\<forall>n<40. n \<noteq> COAP_OPTION_TOKEN \<longrightarrow> \<not> IS_OPTION p n"
    and "payload p = Some b" and "length b = unat (payload_len p)" and "payload_len p \<noteq> 0"
  shows "\<exists>out p'. coap_serialize_message p = Inr (out, p') \<and> length out = coap_serialize_get_size p + 1"
proof -
  have s: "sendable p" using assms by (simp add: sendable_def)
  have "options_of p = []" using assms(1) by (simp add: options_of_def known_options_def option_list_def)
  moreover have "options_size p = 0" using assms(1) by (simp add: options_size_def option_sizes_def)
  moreover have "payload_of p = b" using assms(2,3) by (simp add: payload_of_def)
  moreover have "b \<noteq> []" using assms(3,4) by (metis list.size(3) unat_eq_zero)
  ultimately show ?thesis
    using message_encoded [OF s] assms(3) by (auto simp: coap_serialize_get_size_def udp_header_def with_marker_def)
qed

theorem coap_payload_overruns_witness:
  "\<exists>out p'. coap_serialize_message ((coap_init_message COAP_UDP COAP_TYPE_ACK BAD_OPTION_4_02 7)
      \<lparr>payload := Some critical_message, payload_len := 27\<rparr>) = Inr (out, p') \<and>
    length out = coap_serialize_get_size ((coap_init_message COAP_UDP COAP_TYPE_ACK BAD_OPTION_4_02 7)
      \<lparr>payload := Some critical_message, payload_len := 27\<rparr>) + 1"
  by (rule coap_payload_overruns [where b = critical_message])
    (auto simp: coap_init_message_def critical_message_def bytes_def zero_packet_def IS_OPTION_bit)



section \<open>What the parser keeps\<close>

lemma SET_OPTION_limits [simp]: "packet_limits (SET_OPTION n p) = packet_limits p"
  by (simp add: SET_OPTION_def packet_limits_def)

lemma read_extended_bound:
  assumes "read_extended x r = Inr (n, r')" and "x \<le> 15"
  shows "n < 65805"
proof -
  have "14 + 255 + 256 * unat b + unat c < 65805" for b c :: byte
    using unat_byte_less [of b] unat_byte_less [of c] by linarith
  moreover have "13 + unat b < 65805" for b :: byte
    using unat_byte_less [of b] by linarith
  ultimately show ?thesis using assms
    by (auto simp: read_extended_def split: if_splits list.splits)
qed

lemma parse_option_limits:
  assumes "parse_option number n cur p em m = Inr (st, p', em', m')" and "packet_limits p" and "n < 65805"
  shows "packet_limits p' \<and> options p' = options p"
  using assms
  by (auto simp: parse_option_def Let_def bindE_Inr_iff packet_limits_def copied_def COAP_ETAG_LEN_def
      split: if_splits prod.splits)

lemma parse_options_limits:
  assumes "parse_options left cur number p em m = Inr (st, q, em', m')" and "packet_limits p"
  shows "packet_limits q \<and> length (options q) = length (options p)"
  using assms
proof (induction left cur number p em m rule: parse_options.induct)
  case (1 left cur number p em m)
  show ?case
  proof (cases "left = 0")
    case True
    then show ?thesis using 1(2,3) by (simp add: parse_options.simps)
  next
    case nz: False
    show ?thesis
    proof (cases cur)
      case Nil
      then show ?thesis using 1(2) nz by (simp add: parse_options.simps)
    next
      case (Cons b r)
      show ?thesis
      proof (cases "b AND 0xF0 = 0xF0")
        case True
        then show ?thesis using 1(2,3) nz Cons by (auto simp: parse_options.simps packet_limits_def)
      next
        case False
        from 1(2) nz Cons False obtain d r1 n r2 st1 p1 em1 m1 where
          e: "read_extended (unat (drop_bit 4 b)) r = Inr (d, r1)" "read_extended (unat (b AND 0x0F)) r1 = Inr (n, r2)"
             "\<not> 40 \<le> number + d" "parse_option (number + d) n r2 (SET_OPTION (number + d) p) em m = Inr (st1, p1, em1, m1)"
          and rest: "(if st1 \<noteq> COAP_NO_ERROR then Inr (st1, p1, em1, m1)
            else parse_options (left - (1 + (length r - length r2)) - n) (drop n r2) (number + d) p1 em1 m1) = Inr (st, q, em', m')"
          by (subst (asm) parse_options.simps) (auto simp: bindE_Inr_iff split: if_splits)
        have "n < 65805"
        proof (rule read_extended_bound [OF e(2)])
          have "b AND 0x0F = take_bit 4 b" by (simp add: take_bit_eq_mask mask_eq_exp_minus_1)
          then have "unat (b AND 0x0F) = take_bit 4 (unat b)" by (simp add: unsigned_take_bit_eq)
          then show "unat (b AND 0x0F) \<le> 15" using take_bit_nat_less_exp [of 4 "unat b"] by simp
        qed
        then have p1: "packet_limits p1" "length (options p1) = length (options p)"
          using parse_option_limits [OF e(4)] 1(3) by simp_all
        show ?thesis
        proof (cases "st1 = COAP_NO_ERROR")
          case True
          have "packet_limits q \<and> length (options q) = length (options p1)"
            using 1(1) [OF nz Cons False e(1) refl e(2) refl e(3,4) refl refl refl] rest True p1(1) by simp
          then show ?thesis using p1 by simp
        next
          case False
          then show ?thesis using rest p1 by simp
        qed
      qed
    qed
  qed
qed



section \<open>Over TCP\<close>

lemma tcp_nibbles:
  fixes x y :: byte
  assumes "unat x < 16" and "unat y < 16"
  shows "unat (drop_bit 4 ((y OR push_bit 4 x) AND 0xF0)) = unat x" and "unat ((y OR push_bit 4 x) AND 0x0F) = unat y"
proof -
  have "drop_bit 4 ((y OR push_bit 4 x) AND 0xF0) = drop_bit 4 (y OR push_bit 4 x) AND drop_bit 4 0xF0" by (rule drop_bit_and)
  also have "\<dots> = x"
    using two_nibbles(1) [OF assms] take_4_id [OF assms(1)]
    by (simp only: or.commute [of y]) (simp add: take_bit_eq_mask mask_eq_exp_minus_1)
  finally show "unat (drop_bit 4 ((y OR push_bit 4 x) AND 0xF0)) = unat x" by simp
  show "unat ((y OR push_bit 4 x) AND 0x0F) = unat y"
    using two_nibbles(2) [OF assms] by (simp only: or.commute [of y])
qed

text \<open>The parser skips the header that was written, whatever the length in it.\<close>

lemma tcp_header_read:
  assumes "packet_limits p"
  shows "parse_tcp q (tcp_header p len @ r) (length (tcp_header p len) + n) em m =
    parse_body n r (length (pkt_token p)) (q\<lparr>version := 1, msg_type := COAP_TYPE_CON, code := code p, mid := 0\<rparr>) em m"
proof -
  let ?t = "0x0F AND word_of_nat (length (pkt_token p)) :: byte"
  have k: "length (pkt_token p) < 16" using assms by (simp add: packet_limits_def COAP_TOKEN_LEN_def)
  have "unat (word_of_nat (length (pkt_token p)) :: byte) = length (pkt_token p)" using k by (simp add: unat_of_nat)
  moreover from this have "take_bit 4 (word_of_nat (length (pkt_token p))) = (word_of_nat (length (pkt_token p)) :: byte)"
    using k by (intro take_4_id) simp
  ultimately have t: "unat ?t = length (pkt_token p)"
    by (simp add: take_bit_eq_mask mask_eq_exp_minus_1 and.commute)
  have s: "unat (ucast len :: byte) = unat len" if "len < 13"
    using that by (simp add: unsigned_ucast_eq take_bit_nat_eq_self word_less_nat_alt)
  note nib = tcp_nibbles [of _ ?t]
  consider "len < 13" | "\<not> len < 13" "len < 2 ^ 8 + 13" | "\<not> len < 13" "\<not> len < 2 ^ 8 + 13" "len < 2 ^ 16 + 269"
    | "\<not> len < 13" "\<not> len < 2 ^ 8 + 13" "\<not> len < 2 ^ 16 + 269" by blast
  then show ?thesis
  proof cases
    case 1
    then have "unat (ucast len :: byte) < 13" using s by (simp add: word_less_nat_alt)
    then show ?thesis using 1 nib [of "ucast len"] t k
      unfolding parse_tcp_def tcp_header_def by (simp add: Let_def)
  next
    case 2
    then show ?thesis using nib [of 13] t k unfolding parse_tcp_def tcp_header_def by (simp add: Let_def)
  next
    case 3
    then show ?thesis using nib [of 14] t k unfolding parse_tcp_def tcp_header_def by (simp add: Let_def numeral_3_eq_3)
  next
    case 4
    then show ?thesis using nib [of 15] t k unfolding parse_tcp_def tcp_header_def by (simp add: Let_def)
  qed
qed

text \<open>The fields that the options do not depend on.\<close>

lemma options_len_kept:
  "field_values (p\<lparr>version := v, options_len := x\<rparr>) = field_values p"
  "IS_OPTION (p\<lparr>version := v, options_len := x\<rparr>) n = IS_OPTION p n"
  by (rule ext, simp add: field_values_def) (simp add: IS_OPTION_def)

lemma options_len_options:
  "options_of (p\<lparr>version := v, options_len := x\<rparr>) = options_of p"
  "sendable (p\<lparr>version := v, options_len := x\<rparr>) = sendable p"
  by (simp_all add: options_of_def option_list_def [abs_def] sendable_def options_len_kept cong: if_cong)



end
