(* ===== verification/Transaction.thy ===== *)
theory Transaction
imports Lwm2m_List Observed Coap_Parse
begin

text \<open>
  The transactions of wakaama, \<^verbatim>\<open>external/wakaama/transaction.c\<close>, with \<^verbatim>\<open>message_send\<close> of \<^verbatim>\<open>packet.c\<close>: requests that
  are sent again until they are answered, and the callbacks that hear of the answer.

  A transaction is a node of a list sorted by message ids; \<open>ref\<close> is its address. What the platform
  answers is part of the state: \<open>clock\<close> is what \<^verbatim>\<open>lwm2m_gettime\<close> returns, \<open>link\<close> lists whether the coming
  datagrams can be sent, \<open>sent\<close> collects them; nothing is sent without a session. Sessions are equal when their handles are, as in
  \<^verbatim>\<open>lwm2m_connection.c\<close> of the client.
\<close>

section \<open>State\<close>

text \<open>
  The callback is a function of the code together with its \<^verbatim>\<open>userData\<close>; what it does is the parameter
  \<open>run\<close> of the operations.
\<close>

record 'c transaction =
  ref :: nat
  mID :: u16
  peerH :: session
  ack_received :: bool
  response_timeout :: time
  retrans_counter :: byte
  retrans_time :: time
  message :: coap_packet
  pkt_buffer :: "byte list option"
  callback :: "'c option"

record 'c net =
  transactionList :: "'c transaction list"
  nextMID :: u16
  ctx_protocol :: coap_protocol
  next_ref :: nat
  clock :: time
  link :: "bool list"
  sent :: "(session \<times> byte list) list"
  memory :: mem

type_synonym ('c, 'z) runner = "'c \<Rightarrow> coap_packet option \<Rightarrow> ('c, 'z) net_scheme \<Rightarrow> ('c, 'z) net_scheme res"

definition COAP_RESPONSE_TIMEOUT :: int where "COAP_RESPONSE_TIMEOUT = 2"
definition COAP_MAX_RETRANSMIT :: byte where "COAP_MAX_RETRANSMIT = 4"

abbreviation (input) COAP_401_UNAUTHORIZED :: byte where "COAP_401_UNAUTHORIZED \<equiv> 0x81"

definition is_tcp :: "coap_protocol \<Rightarrow> bool" where
  "is_tcp p \<longleftrightarrow> p = COAP_TCP \<or> p = COAP_TCP_TLS"

text \<open>Sums of times, and what is left of a sum that is stored with 32 bits.\<close>

definition add_time :: "time \<Rightarrow> time \<Rightarrow> time res" where
  "add_time a b = (if - 0x80000000 \<le> a + b \<and> a + b < 0x80000000 then Inr (a + b) else Inl SignedOverflow)"

definition wrap_time :: "time \<Rightarrow> time" where
  "wrap_time x = sint (word_of_int x :: u32)"

section \<open>Sending\<close>

definition lwm2m_buffer_send :: "session option \<Rightarrow> byte list \<Rightarrow> ('c, 'z) net_scheme \<Rightarrow> byte \<times> ('c, 'z) net_scheme" where
  "lwm2m_buffer_send sess b n =
     (case sess of
        None \<Rightarrow> (COAP_500_INTERNAL_SERVER_ERROR, n)
      | Some s \<Rightarrow>
          (case link n of
             [] \<Rightarrow> (COAP_NO_ERROR, n\<lparr>sent := sent n @ [(s, b)]\<rparr>)
           | True # l \<Rightarrow> (COAP_NO_ERROR, n\<lparr>sent := sent n @ [(s, b)], link := l\<rparr>)
           | False # l \<Rightarrow> (COAP_500_INTERNAL_SERVER_ERROR, n\<lparr>link := l\<rparr>)))"

text \<open>The size of a message and the message in a block of that size, by the protocol of the context.\<close>

definition packet_size :: "coap_protocol \<Rightarrow> coap_packet \<Rightarrow> nat \<times> coap_packet" where
  "packet_size proto p =
     (case proto of
        COAP_UDP \<Rightarrow> (coap_serialize_get_size p, p)
      | COAP_UDP_DTLS \<Rightarrow> (coap_serialize_get_size p, p)
      | COAP_PROTOCOL_OTHER \<Rightarrow> (0, p)
      | _ \<Rightarrow> coap_serialize_get_size_tcp p)"

definition write_packet ::
    "coap_protocol \<Rightarrow> nat \<Rightarrow> coap_packet \<Rightarrow> mem \<Rightarrow> (byte list \<times> coap_packet \<times> mem) res" where
  "write_packet proto sz p m =
     bindE (case proto of
        COAP_UDP \<Rightarrow> bindE (coap_serialize_message p) (\<lambda>(b, p'). Inr (b, p', m))
      | COAP_UDP_DTLS \<Rightarrow> bindE (coap_serialize_message p) (\<lambda>(b, p'). Inr (b, p', m))
      | COAP_PROTOCOL_OTHER \<Rightarrow> Inr ([], p, m)
      | _ \<Rightarrow> coap_serialize_message_tcp p m) (\<lambda>(b, p', m').
     if sz < length b then Inl OutOfBounds else Inr (b, p', m'))"

definition message_send ::
    "coap_packet \<Rightarrow> session option \<Rightarrow> ('c, 'z) net_scheme \<Rightarrow> (byte \<times> coap_packet \<times> ('c, 'z) net_scheme) res" where
  "message_send p s n =
     (let (sz, p1) = packet_size (ctx_protocol n) p in
      if sz = 0 then Inr (COAP_500_INTERNAL_SERVER_ERROR, p1, n)
      else case lwm2m_malloc (memory n) of
        (False, m1) \<Rightarrow> Inr (COAP_500_INTERNAL_SERVER_ERROR, p1, n\<lparr>memory := m1\<rparr>)
      | (True, m1) \<Rightarrow>
          bindE (write_packet (ctx_protocol n) sz p1 m1) (\<lambda>(b, p2, m2).
            if b = [] then Inr (COAP_500_INTERNAL_SERVER_ERROR, p2, n\<lparr>memory := m2\<rparr>)
            else let (st, n') = lwm2m_buffer_send s b (n\<lparr>memory := m2\<rparr>) in Inr (st, p2, n')))"

section \<open>The list of transactions\<close>

definition get_transaction :: "nat \<Rightarrow> ('c, 'z) net_scheme \<Rightarrow> 'c transaction option" where
  "get_transaction r n = find (\<lambda>t. ref t = r) (transactionList n)"

text \<open>A write through the pointer to a transaction.\<close>

definition put_transaction :: "'c transaction \<Rightarrow> ('c, 'z) net_scheme \<Rightarrow> ('c, 'z) net_scheme" where
  "put_transaction t n = n\<lparr>transactionList := map (\<lambda>x. if ref x = ref t then t else x) (transactionList n)\<rparr>"

text \<open>
  The node is taken out by its message id and then freed by its address: another node of the same id in front of it leaves
  the freed node in the list.
\<close>

definition transaction_remove :: "'c transaction \<Rightarrow> ('c, 'z) net_scheme \<Rightarrow> ('c, 'z) net_scheme res" where
  "transaction_remove t n =
     (case lwm2m_list_remove mID (transactionList n) (mID t) of
        (ts, Some x) \<Rightarrow> if ref x = ref t then Inr (n\<lparr>transactionList := ts\<rparr>) else Inl UseAfterFree
      | (ts, None) \<Rightarrow> Inl UseAfterFree)"

section \<open>New transactions\<close>

definition LWM2M_STRING_ID_MAX_LEN :: nat where "LWM2M_STRING_ID_MAX_LEN = 6"

text \<open>A number as a segment of the path; \<open>None\<close> when it does not fit in its array.\<close>

definition id_segment :: "u16 \<Rightarrow> coap_packet option \<times> mem \<Rightarrow> (coap_packet option \<times> mem) res" where
  "id_segment i st =
     (case st of
        (None, m) \<Rightarrow> Inr (None, m)
      | (Some p, m) \<Rightarrow>
          bindE (utils_intCopy LWM2M_STRING_ID_MAX_LEN (ucast i)) (\<lambda>r.
            case r of
              None \<Rightarrow> Inr (None, m)
            | Some s \<Rightarrow> bindE (coap_set_header_uri_path_segment p (Some s) m) (\<lambda>(_, p', m'). Inr (Some p', m'))))"

definition uri_segments :: "lwm2m_uri \<Rightarrow> coap_packet \<Rightarrow> mem \<Rightarrow> (coap_packet option \<times> mem) res" where
  "uri_segments u p m =
     bindE (id_segment (objectId u) (Some p, m)) (\<lambda>st1.
     bindE (if is_set_instance u then id_segment (instanceId u) st1
            else if is_set_resource u
            then (case st1 of (None, m1) \<Rightarrow> Inr (None, m1)
                  | (Some p1, m1) \<Rightarrow> bindE (coap_set_header_uri_path_segment p1 None m1) (\<lambda>(_, p', m'). Inr (Some p', m')))
            else Inr st1) (\<lambda>st2.
     if is_set_resource u then id_segment (resourceId u) st2 else Inr st2))"

text \<open>
  A token that the caller does not provide: the bytes that are written to the array of eight, the
  others are whatever the stack holds.
\<close>

definition generated_token :: "coap_protocol \<Rightarrow> u16 \<Rightarrow> time \<Rightarrow> byte list" where
  "generated_token proto i tv =
     (let w = word_of_int tv :: u32; tb = [ucast w, ucast (drop_bit 8 w), ucast (drop_bit 16 w), ucast (drop_bit 24 w)] in
      case proto of
        COAP_TCP \<Rightarrow> tb
      | COAP_TCP_TLS \<Rightarrow> tb
      | COAP_UDP \<Rightarrow> [ucast i, ucast (drop_bit 8 i)] @ tb
      | COAP_UDP_DTLS \<Rightarrow> [ucast i, ucast (drop_bit 8 i)] @ tb
      | COAP_PROTOCOL_OTHER \<Rightarrow> [])"

definition set_token :: "nat \<Rightarrow> byte list option \<Rightarrow> u16 \<Rightarrow> time \<Rightarrow> coap_packet \<Rightarrow> coap_packet res" where
  "set_token token_len tok i tv p =
     (if token_len = 0 then Inr p
      else case tok of
        Some b \<Rightarrow> bindE (coap_set_header_token p b token_len) (\<lambda>(_, p'). Inr p')
      | None \<Rightarrow>
          let g = generated_token (protocol p) i tv in
          if length g < min COAP_TOKEN_LEN token_len then Inl Uninitialised
          else bindE (coap_set_header_token p g token_len) (\<lambda>(_, p'). Inr p'))"

definition transaction_new ::
    "session option \<Rightarrow> coap_protocol \<Rightarrow> byte \<Rightarrow> byte list option \<Rightarrow> lwm2m_uri option \<Rightarrow> u16 \<Rightarrow> nat \<Rightarrow> byte list option
     \<Rightarrow> ('c, 'z) net_scheme \<Rightarrow> ('c transaction option \<times> ('c, 'z) net_scheme) res" where
  "transaction_new sess proto mth altPath u i token_len tok n =
     (case sess of
        None \<Rightarrow> Inr (None, n)
      | Some s \<Rightarrow>
        (case lwm2m_malloc (memory n) of
           (False, m1) \<Rightarrow> Inr (None, n\<lparr>memory := m1\<rparr>)
         | (True, m1) \<Rightarrow>
           (case lwm2m_malloc m1 of
              (False, m2) \<Rightarrow> Inr (None, n\<lparr>memory := m2\<rparr>)
            | (True, m2) \<Rightarrow>
              let p = coap_init_message proto COAP_TYPE_CON mth i in
              bindE (case altPath of
                  None \<Rightarrow> Inr (p, m2)
                | Some a \<Rightarrow> bindE (coap_set_header_uri_path_segment p (Some (drop 1 a)) m2) (\<lambda>(_, p', m'). Inr (p', m'))) (\<lambda>(p1, m3).
              bindE (case u of None \<Rightarrow> Inr (Some p1, m3) | Some v \<Rightarrow> uri_segments v p1 m3) (\<lambda>(r, m4).
                case r of
                  None \<Rightarrow> Inr (None, n\<lparr>memory := m4\<rparr>)
                | Some p2 \<Rightarrow>
                    bindE (set_token token_len tok i (clock n) p2) (\<lambda>p3.
                      Inr (Some \<lparr>ref = next_ref n, mID = i, peerH = s, ack_received = False, response_timeout = 0,
                             retrans_counter = 0, retrans_time = 0, message = p3, pkt_buffer = None, callback = None\<rparr>,
                        n\<lparr>memory := m4, next_ref := next_ref n + 1\<rparr>)))))))"

definition transaction_add :: "'c transaction \<Rightarrow> ('c, 'z) net_scheme \<Rightarrow> ('c, 'z) net_scheme" where
  "transaction_add t n = n\<lparr>transactionList := lwm2m_list_add mID (transactionList n) t\<rparr>"

section \<open>Answers\<close>

definition prv_checkFinished :: "'c transaction \<Rightarrow> coap_packet \<Rightarrow> bool" where
  "prv_checkFinished t received =
     (if COAP_DELETE < code (message t) then ack_received t
      else if \<not> IS_OPTION (message t) COAP_OPTION_TOKEN then ack_received t
      else pkt_token (message t) = (case coap_get_header_token received of None \<Rightarrow> [] | Some b \<Rightarrow> b))"

text \<open>The answer ends the transaction: the callback hears of it, and the transaction is removed.\<close>

definition run_callback ::
    "('c, 'z) runner \<Rightarrow> 'c transaction \<Rightarrow> coap_packet option \<Rightarrow> ('c, 'z) net_scheme \<Rightarrow> ('c, 'z) net_scheme res" where
  "run_callback run t p n = (case callback t of None \<Rightarrow> Inr n | Some c \<Rightarrow> run c p n)"

definition finish_transaction ::
    "('c, 'z) runner \<Rightarrow> 'c transaction \<Rightarrow> coap_packet option \<Rightarrow> ('c, 'z) net_scheme \<Rightarrow> ('c, 'z) net_scheme res" where
  "finish_transaction run t p n = bindE (run_callback run t p n) (transaction_remove t)"

text \<open>Whether the message acknowledges the transaction that waits for it.\<close>

definition acknowledges :: "coap_protocol \<Rightarrow> coap_packet \<Rightarrow> 'c transaction \<Rightarrow> bool" where
  "acknowledges proto p t \<longleftrightarrow>
     \<not> ack_received t \<and>
     (if msg_type p = COAP_TYPE_ACK \<or> msg_type p = COAP_TYPE_RST then mID t = mid p
      else msg_type p = COAP_TYPE_CON \<and> is_tcp proto)"

text \<open>One transaction of the session of the message; \<open>None\<close> when the search goes on.\<close>

definition handle_one ::
    "('c, 'z) runner \<Rightarrow> session \<Rightarrow> coap_packet \<Rightarrow> bool \<Rightarrow> 'c transaction \<Rightarrow> ('c, 'z) net_scheme \<Rightarrow> ('c, 'z) net_scheme option res" where
  "handle_one run from p has_response t n =
     (let found = acknowledges (ctx_protocol n) p t;
          reset = (found \<and> msg_type p = COAP_TYPE_RST);
          t1 = (if found then t\<lparr>ack_received := True\<rparr> else t) in
      if reset \<or> prv_checkFinished t1 p then
        bindE (if \<not> reset \<and> msg_type p = COAP_TYPE_CON \<and> has_response \<and> \<not> is_tcp (ctx_protocol n)
               then bindE (message_send (coap_init_message (ctx_protocol n) COAP_TYPE_ACK 0 (mid p)) (Some from) n) (\<lambda>(_, _, n'). Inr n')
               else Inr n) (\<lambda>n1.
          if \<not> reset \<and> code p = COAP_401_UNAUTHORIZED \<and> retrans_counter t1 < COAP_MAX_RETRANSMIT
          then bindE (add_time (retrans_time t1) COAP_RESPONSE_TIMEOUT) (\<lambda>rt.
            Inr (Some (put_transaction (t1\<lparr>ack_received := False, retrans_time := rt\<rparr>) n1)))
          else bindE (finish_transaction run t1 (Some p) (put_transaction t1 n1)) (\<lambda>n2. Inr (Some n2)))
      else if found then
        bindE (add_time (if 0 \<le> clock n then clock n else retrans_time t1)
            (if response_timeout t1 \<noteq> 0 then response_timeout t1 else COAP_RESPONSE_TIMEOUT * uint (retrans_counter t1))) (\<lambda>rt.
          Inr (Some (put_transaction (t1\<lparr>retrans_time := rt\<rparr>) n)))
      else Inr None)"

fun response_loop ::
    "('c, 'z) runner \<Rightarrow> session \<Rightarrow> coap_packet \<Rightarrow> bool \<Rightarrow> 'c transaction list \<Rightarrow> ('c, 'z) net_scheme \<Rightarrow> (bool \<times> ('c, 'z) net_scheme) res" where
  "response_loop run from p has_response [] n = Inr (False, n)"
| "response_loop run from p has_response (t # ts) n =
     bindE (if peerH t = from then handle_one run from p has_response t n else Inr None) (\<lambda>r.
       case r of Some n' \<Rightarrow> Inr (True, n') | None \<Rightarrow> response_loop run from p has_response ts n)"

definition transaction_handleResponse ::
    "('c, 'z) runner \<Rightarrow> session \<Rightarrow> coap_packet \<Rightarrow> bool \<Rightarrow> ('c, 'z) net_scheme \<Rightarrow> (bool \<times> ('c, 'z) net_scheme) res" where
  "transaction_handleResponse run from p has_response n = response_loop run from p has_response (transactionList n) n"

section \<open>Retransmission\<close>

text \<open>
  The datagram of a transaction is made when it is first sent. \<open>None\<close> when it is there, otherwise the result; a
  size above 65535 is truncated.
\<close>

definition prepare_buffer ::
    "'c transaction \<Rightarrow> ('c, 'z) net_scheme \<Rightarrow> (int option \<times> 'c transaction \<times> ('c, 'z) net_scheme) res" where
  "prepare_buffer t n =
     (if pkt_buffer t \<noteq> None then Inr (None, t, n)
      else
        let (sz, p1) = packet_size (ctx_protocol n) (message t); len = word_of_nat sz :: u16; t1 = t\<lparr>message := p1\<rparr> in
        if len = 0 then Inr (Some 160, t1, put_transaction t1 n)
        else case lwm2m_malloc (memory n) of
          (False, m1) \<Rightarrow> Inr (Some 160, t1, put_transaction t1 (n\<lparr>memory := m1\<rparr>))
        | (True, m1) \<Rightarrow>
            bindE (write_packet (ctx_protocol n) (unat len) p1 m1) (\<lambda>(b, p2, m2).
              let t2 = t1\<lparr>message := p2\<rparr> in
              if b = [] then bindE (transaction_remove t2 (n\<lparr>memory := m2\<rparr>)) (\<lambda>n'. Inr (Some 160, t2, n'))
              else let t3 = t2\<lparr>pkt_buffer := Some b\<rparr> in Inr (None, t3, put_transaction t3 (n\<lparr>memory := m2\<rparr>))))"

text \<open>
  When the time cannot be read at the first transmission, the datagram is sent nevertheless and the
  timeout is a variable that was never set.
\<close>

definition first_transmission :: "'c transaction \<Rightarrow> ('c, 'z) net_scheme \<Rightarrow> ('c transaction \<times> int) res" where
  "first_transmission t n =
     (if retrans_counter t = 0
      then if 0 \<le> clock n
           then bindE (add_time (clock n) COAP_RESPONSE_TIMEOUT) (\<lambda>rt. Inr (t\<lparr>retrans_time := rt, retrans_counter := 1\<rparr>, 0))
           else Inl Uninitialised
      else Inr (t, COAP_RESPONSE_TIMEOUT * 2 ^ (unat (retrans_counter t) - 1)))"

definition give_up :: "('c, 'z) runner \<Rightarrow> 'c transaction \<Rightarrow> ('c, 'z) net_scheme \<Rightarrow> (int \<times> ('c, 'z) net_scheme) res" where
  "give_up run t n = bindE (finish_transaction run t None n) (\<lambda>n'. Inr (- 1, n'))"

definition transmit ::
    "('c, 'z) runner \<Rightarrow> 'c transaction \<Rightarrow> byte list \<Rightarrow> ('c, 'z) net_scheme \<Rightarrow> (int \<times> ('c, 'z) net_scheme) res" where
  "transmit run t b n =
     (if ack_received t then give_up run t n
      else bindE (first_transmission t n) (\<lambda>(t1, timeout).
        if retrans_counter t1 \<le> COAP_MAX_RETRANSMIT + 1 then
          let (_, n1) = lwm2m_buffer_send (Some (peerH t1)) b n;
              t2 = t1\<lparr>retrans_time := wrap_time (retrans_time t1 + timeout), retrans_counter := retrans_counter t1 + 1\<rparr> in
          Inr (0, put_transaction t2 n1)
        else give_up run t1 (put_transaction t1 n)))"

definition transaction_send :: "('c, 'z) runner \<Rightarrow> nat \<Rightarrow> ('c, 'z) net_scheme \<Rightarrow> (int \<times> ('c, 'z) net_scheme) res" where
  "transaction_send run r n =
     (case get_transaction r n of
        None \<Rightarrow> Inl UseAfterFree
      | Some t \<Rightarrow>
          bindE (prepare_buffer t n) (\<lambda>(ret, t1, n1).
            case ret of
              Some x \<Rightarrow> Inr (x, n1)
            | None \<Rightarrow> (case pkt_buffer t1 of None \<Rightarrow> Inl NullDeref | Some b \<Rightarrow> transmit run t1 b n1)))"

text \<open>The time until the transaction is due, for the caller's timeout.\<close>

definition due_in :: "'c transaction \<Rightarrow> time \<Rightarrow> time" where
  "due_in t now = (if now < retrans_time t then retrans_time t - now else 1)"

fun step_loop :: "('c, 'z) runner \<Rightarrow> time \<Rightarrow> nat list \<Rightarrow> time \<Rightarrow> ('c, 'z) net_scheme \<Rightarrow> (time \<times> ('c, 'z) net_scheme) res" where
  "step_loop run now [] timeout n = Inr (timeout, n)"
| "step_loop run now (r # rs) timeout n =
     (case get_transaction r n of
        None \<Rightarrow> Inl UseAfterFree
      | Some t \<Rightarrow>
          bindE (if retrans_time t \<le> now then transaction_send run r n else Inr (0, n)) (\<lambda>(removed, n1).
            if removed = 0 then
              (case get_transaction r n1 of
                 None \<Rightarrow> Inl UseAfterFree
               | Some t1 \<Rightarrow> step_loop run now rs (min timeout (due_in t1 now)) n1)
            else step_loop run now rs 1 n1))"

definition transaction_step :: "('c, 'z) runner \<Rightarrow> time \<Rightarrow> time \<Rightarrow> ('c, 'z) net_scheme \<Rightarrow> (time \<times> ('c, 'z) net_scheme) res" where
  "transaction_step run now timeout n = step_loop run now (map ref (transactionList n)) timeout n"

section \<open>Lists with distinct ids and addresses\<close>

definition transactions_ok :: "('c, 'z) net_scheme \<Rightarrow> bool" where
  "transactions_ok n \<longleftrightarrow>
     ids_ascending mID (transactionList n) \<and> distinct (map ref (transactionList n)) \<and>
     (\<forall>t \<in> set (transactionList n). ref t < next_ref n)"

lemma transactions_okD:
  assumes "transactions_ok n"
  shows "ids_ascending mID (transactionList n)" "distinct (map ref (transactionList n))"
    "t \<in> set (transactionList n) \<Longrightarrow> ref t < next_ref n"
  using assms by (simp_all add: transactions_ok_def)

lemma remove_after_middle:
  "ids_ascending key (xs @ t # ts) \<Longrightarrow> remove_after key (xs @ t # ts) (key t) = (xs @ ts, Some t)"
  by (induction xs) (auto simp: ids_ascending_def)

lemma remove_middle:
  assumes "ids_ascending key (xs @ t # ts)"
  shows "lwm2m_list_remove key (xs @ t # ts) (key t) = (xs @ ts, Some t)"
proof (cases xs)
  case (Cons x ys)
  then have "key x \<noteq> key t" using assms by auto
  moreover have "ids_ascending key (ys @ t # ts)" using assms Cons by simp
  ultimately show ?thesis using Cons remove_after_middle [of key ys t ts] by simp
qed simp

lemma get_middle:
  assumes "transactionList n = xs @ t # ts" and "distinct (map ref (xs @ t # ts))"
  shows "get_transaction (ref t) n = Some t"
proof -
  have "find (\<lambda>x. ref x = ref t) (xs @ t # ts) = Some t"
    using assms(2) by (induction xs) auto
  then show ?thesis by (simp add: get_transaction_def assms(1))
qed

lemma put_middle:
  assumes "transactionList n = xs @ t # ts" and "distinct (map ref (xs @ t # ts))" and "ref t' = ref t"
  shows "put_transaction t' n = n\<lparr>transactionList := xs @ t' # ts\<rparr>"
proof -
  have "ref t \<notin> ref ` set xs" "ref t \<notin> ref ` set ts" using assms(2) by auto
  then have "ref x \<noteq> ref t" if "x \<in> set xs \<union> set ts" for x
    using that by (metis UnE imageI)
  then have "map (\<lambda>x. if ref x = ref t' then t' else x) (xs @ t # ts) = xs @ t' # ts"
    using assms(3) by (auto intro!: map_idI)
  then show ?thesis by (simp add: put_transaction_def assms(1))
qed

lemma transaction_remove_middle:
  assumes "transactionList n = xs @ t # ts" and "ids_ascending mID (xs @ t # ts)" and "mID t' = mID t" and "ref t' = ref t"
  shows "transaction_remove t' n = Inr (n\<lparr>transactionList := xs @ ts\<rparr>)"
  using remove_middle [OF assms(2)] by (simp add: transaction_remove_def assms)

section \<open>What a step does to each transaction\<close>

text \<open>
  The contract of the callbacks: they leave the list and the platform alone, and they are defined while
  what they point to is there and the options of the answer lie in its blocks.
\<close>

definition readable :: "coap_packet option \<Rightarrow> bool" where
  "readable p \<longleftrightarrow> (case p of None \<Rightarrow> True | Some q \<Rightarrow> \<forall>x \<in> set (location_path q). unat (opt_len x) \<le> length (opt_data x))"

lemma readable_None [simp]: "readable None"
  by (simp add: readable_def)

locale transaction_callbacks =
  fixes run :: "('c, 'z) runner" and valid :: "'c \<Rightarrow> ('c, 'z) net_scheme \<Rightarrow> bool"
  assumes run_ok: "valid c n \<Longrightarrow> readable p \<Longrightarrow> \<exists>n'. run c p n = Inr n'"
    and run_keeps: "run c p n = Inr n' \<Longrightarrow>
      transactionList n' = transactionList n \<and> ctx_protocol n' = ctx_protocol n \<and> next_ref n' = next_ref n \<and>
      nextMID n' = nextMID n \<and> clock n' = clock n \<and> link n' = link n \<and> sent n' = sent n"
    and valid_run: "run c p n = Inr n' \<Longrightarrow> valid d n' = valid d n"
    and valid_frame: "net.more n' = net.more n \<Longrightarrow> valid d n' = valid d n"

text \<open>One transaction at a time \<open>now\<close>: whether it stays, and what becomes of it.\<close>

definition alive :: "'c transaction \<Rightarrow> bool" where
  "alive t \<longleftrightarrow> \<not> ack_received t \<and> retrans_counter t \<le> 5"

definition retransmit :: "time \<Rightarrow> 'c transaction \<Rightarrow> 'c transaction" where
  "retransmit now t =
     (if retrans_counter t = 0 then t\<lparr>retrans_time := now + COAP_RESPONSE_TIMEOUT, retrans_counter := 2\<rparr>
      else t\<lparr>retrans_time := wrap_time (retrans_time t + COAP_RESPONSE_TIMEOUT * 2 ^ (unat (retrans_counter t) - 1)),
             retrans_counter := retrans_counter t + 1\<rparr>)"

definition evolve :: "time \<Rightarrow> 'c transaction \<Rightarrow> 'c transaction option" where
  "evolve now t = (if now < retrans_time t then Some t else if alive t then Some (retransmit now t) else None)"

definition datagrams :: "time \<Rightarrow> 'c transaction list \<Rightarrow> (session \<times> byte list) list" where
  "datagrams now ts = map (\<lambda>t. (peerH t, the (pkt_buffer t))) (filter (\<lambda>t. retrans_time t \<le> now \<and> alive t) ts)"

text \<open>
  What a message does to a transaction of its session: nothing unless it answers it, then the transaction ends
  (\<open>None\<close>), is put off because the peer does not know the sender yet, or waits for its answer.
\<close>

definition answers :: "coap_protocol \<Rightarrow> coap_packet \<Rightarrow> 'c transaction \<Rightarrow> bool" where
  "answers proto p t \<longleftrightarrow> acknowledges proto p t \<or> prv_checkFinished t p"

definition after_response :: "coap_protocol \<Rightarrow> coap_packet \<Rightarrow> time \<Rightarrow> 'c transaction \<Rightarrow> 'c transaction option" where
  "after_response proto p now t =
     (let found = acknowledges proto p t; t1 = (if found then t\<lparr>ack_received := True\<rparr> else t) in
      if found \<and> msg_type p = COAP_TYPE_RST then None
      else if prv_checkFinished t1 p
      then if code p = COAP_401_UNAUTHORIZED \<and> retrans_counter t < COAP_MAX_RETRANSMIT
           then Some (t\<lparr>ack_received := False, retrans_time := retrans_time t + COAP_RESPONSE_TIMEOUT\<rparr>) else None
      else Some (t1\<lparr>retrans_time := now + (if response_timeout t \<noteq> 0 then response_timeout t
                                         else COAP_RESPONSE_TIMEOUT * uint (retrans_counter t))\<rparr>))"

definition within_range :: "time \<Rightarrow> 'c transaction \<Rightarrow> bool" where
  "within_range now t \<longleftrightarrow>
     0 \<le> now \<and> now < 0x40000000 \<and> 0 \<le> retrans_time t \<and> retrans_time t < 0x40000000 \<and>
     0 \<le> response_timeout t \<and> response_timeout t < 0x40000000"

lemma within_range_add:
  assumes "within_range now t"
  shows "0 \<le> now" "add_time (retrans_time t) COAP_RESPONSE_TIMEOUT = Inr (retrans_time t + COAP_RESPONSE_TIMEOUT)"
    "add_time now (response_timeout t) = Inr (now + response_timeout t)"
    "add_time now (COAP_RESPONSE_TIMEOUT * uint (retrans_counter t)) = Inr (now + COAP_RESPONSE_TIMEOUT * uint (retrans_counter t))"
proof -
  define k where "k = uint (retrans_counter t)"
  have "k < 256" "0 \<le> k"
    unfolding k_def using uint_lt2p [of "retrans_counter t"] by simp_all
  then show "0 \<le> now" "add_time (retrans_time t) COAP_RESPONSE_TIMEOUT = Inr (retrans_time t + COAP_RESPONSE_TIMEOUT)"
    "add_time now (response_timeout t) = Inr (now + response_timeout t)"
    "add_time now (COAP_RESPONSE_TIMEOUT * uint (retrans_counter t)) = Inr (now + COAP_RESPONSE_TIMEOUT * uint (retrans_counter t))"
    unfolding k_def [symmetric] using assms by (simp_all add: within_range_def add_time_def COAP_RESPONSE_TIMEOUT_def)
qed

text \<open>The state of a transaction that was first sent at \<open>t0\<close> and is sent again on time.\<close>

definition scheduled :: "time \<Rightarrow> 'c transaction \<Rightarrow> bool" where
  "scheduled t0 t \<longleftrightarrow> \<not> ack_received t \<and> 2 \<le> retrans_counter t \<and> retrans_counter t \<le> 6 \<and>
     retrans_time t = t0 + 2 ^ unat (retrans_counter t) - 2"

text \<open>One step in each of the given seconds.\<close>

fun steps_at :: "('c, 'z) runner \<Rightarrow> time list \<Rightarrow> ('c, 'z) net_scheme \<Rightarrow> ('c, 'z) net_scheme res" where
  "steps_at run [] n = Inr n"
| "steps_at run (x # xs) n = bindE (transaction_step run x 60 (n\<lparr>clock := x\<rparr>)) (\<lambda>(_, n'). steps_at run xs n')"

lemma wrap_time_small: "0 \<le> x \<Longrightarrow> x < 0x80000000 \<Longrightarrow> wrap_time x = x"
  by (simp add: wrap_time_def sint_word_ariths signed_of_int signed_take_bit_int_eq_self)

lemma retransmit_keeps [simp]:
  "ref (retransmit now t) = ref t" "mID (retransmit now t) = mID t" "callback (retransmit now t) = callback t"
  "pkt_buffer (retransmit now t) = pkt_buffer t" "peerH (retransmit now t) = peerH t"
  by (simp_all add: retransmit_def)

text \<open>The transactions that the theorems are about: their datagrams are made, their callbacks are valid.\<close>

lemma sorted_wrt_distinct: "sorted_wrt (\<lambda>x y. x \<noteq> y) xs = distinct xs"
  by (induction xs) auto

definition ready :: "('c \<Rightarrow> ('c, 'z) net_scheme \<Rightarrow> bool) \<Rightarrow> ('c, 'z) net_scheme \<Rightarrow> 'c transaction \<Rightarrow> bool" where
  "ready valid n t \<longleftrightarrow> pkt_buffer t \<noteq> None \<and> (\<forall>c. callback t = Some c \<longrightarrow> valid c n)"

lemma buffer_send_keeps:
  "net.more (snd (lwm2m_buffer_send sess b n)) = net.more n"
  "transactionList (snd (lwm2m_buffer_send sess b n)) = transactionList n"
  "clock (snd (lwm2m_buffer_send sess b n)) = clock n"
  "next_ref (snd (lwm2m_buffer_send sess b n)) = next_ref n"
  "link n = [] \<Longrightarrow> lwm2m_buffer_send (Some s) b n = (COAP_NO_ERROR, n\<lparr>sent := sent n @ [(s, b)]\<rparr>)"
  by (simp_all add: lwm2m_buffer_send_def split: option.split list.split bool.split)

context transaction_callbacks
begin

lemma give_up_middle:
  assumes "transactionList n = xs @ t # ts" and "ids_ascending mID (xs @ t # ts)" and "ready valid n t"
  shows "\<exists>n'. give_up run t n = Inr (- 1, n') \<and> transactionList n' = xs @ ts \<and> clock n' = clock n \<and>
    next_ref n' = next_ref n \<and> link n' = link n \<and> sent n' = sent n \<and> (\<forall>d. valid d n' = valid d n)"
proof -
  obtain n1 where n1: "run_callback run t None n = Inr n1" "transactionList n1 = transactionList n" "clock n1 = clock n"
      "next_ref n1 = next_ref n" "link n1 = link n" "sent n1 = sent n" "\<forall>d. valid d n1 = valid d n"
  proof (cases "callback t")
    case None
    then show ?thesis using that [of n] by (simp add: run_callback_def)
  next
    case (Some c)
    then have "valid c n" using assms(3) by (simp add: ready_def)
    then obtain n1 where "run c None n = Inr n1" using run_ok [of c n None] by auto
    then show ?thesis using that [of n1] run_keeps [of c None n n1] valid_run [of c None n n1] Some
      by (simp add: run_callback_def)
  qed
  have "transaction_remove t n1 = Inr (n1\<lparr>transactionList := xs @ ts\<rparr>)"
    using n1(2) assms(1,2) by (intro transaction_remove_middle) simp_all
  moreover have "valid d (n1\<lparr>transactionList := xs @ ts\<rparr>) = valid d n1" for d
    by (rule valid_frame) simp
  ultimately show ?thesis using n1 by (simp add: give_up_def finish_transaction_def)
qed

lemma send_middle:
  assumes n: "transactionList n = xs @ t # ts" and ids: "ids_ascending mID (xs @ t # ts)"
    and refs: "distinct (map ref (xs @ t # ts))" and r: "ready valid n t"
    and c: "0 \<le> clock n" "clock n + COAP_RESPONSE_TIMEOUT < 0x80000000"
  shows "\<exists>n'. transaction_send run (ref t) n = Inr (if alive t then 0 else - 1, n') \<and>
    transactionList n' = xs @ (if alive t then [retransmit (clock n) t] else []) @ ts \<and> clock n' = clock n \<and>
    next_ref n' = next_ref n \<and>
    (link n = [] \<longrightarrow> link n' = [] \<and> sent n' = sent n @ (if alive t then [(peerH t, the (pkt_buffer t))] else [])) \<and>
    (\<forall>d. valid d n' = valid d n)"
proof -
  obtain b where b: "pkt_buffer t = Some b" using r by (auto simp: ready_def)
  have prep: "prepare_buffer t n = Inr (None, t, n)" by (simp add: prepare_buffer_def b)
  note start = get_middle [OF n refs] prep b
  show ?thesis
  proof (cases "alive t")
    case True
    let ?n1 = "snd (lwm2m_buffer_send (Some (peerH t)) b n)"
    have "\<exists>t1 timeout. first_transmission t n = Inr (t1, timeout) \<and> retrans_counter t1 \<le> COAP_MAX_RETRANSMIT + 1 \<and> peerH t1 = peerH t \<and>
        t1\<lparr>retrans_time := wrap_time (retrans_time t1 + timeout), retrans_counter := retrans_counter t1 + 1\<rparr> = retransmit (clock n) t"
    proof (cases "retrans_counter t = 0")
      case zero: True
      have "wrap_time (clock n + COAP_RESPONSE_TIMEOUT) = clock n + COAP_RESPONSE_TIMEOUT"
        using c by (intro wrap_time_small) (simp_all add: COAP_RESPONSE_TIMEOUT_def)
      then show ?thesis
        using zero c by (simp add: first_transmission_def add_time_def retransmit_def COAP_MAX_RETRANSMIT_def COAP_RESPONSE_TIMEOUT_def)
    next
      case False
      then show ?thesis using True by (simp add: first_transmission_def retransmit_def alive_def COAP_MAX_RETRANSMIT_def)
    qed
    then obtain t1 timeout where t1: "first_transmission t n = Inr (t1, timeout)" "retrans_counter t1 \<le> COAP_MAX_RETRANSMIT + 1" "peerH t1 = peerH t"
        "t1\<lparr>retrans_time := wrap_time (retrans_time t1 + timeout), retrans_counter := retrans_counter t1 + 1\<rparr> = retransmit (clock n) t"
      by blast
    have put: "put_transaction (retransmit (clock n) t) ?n1 = ?n1\<lparr>transactionList := xs @ retransmit (clock n) t # ts\<rparr>"
      using n refs by (intro put_middle) (simp_all add: buffer_send_keeps)
    have "transmit run t b n = Inr (0, ?n1\<lparr>transactionList := xs @ retransmit (clock n) t # ts\<rparr>)"
      using True t1 put by (simp add: transmit_def alive_def split_def Let_def)
    moreover have "valid d (?n1\<lparr>transactionList := xs @ retransmit (clock n) t # ts\<rparr>) = valid d n" for d
      by (rule valid_frame) (simp add: buffer_send_keeps)
    ultimately show ?thesis
      using True start by (simp add: transaction_send_def buffer_send_keeps)
  next
    case False
    obtain n' where n': "give_up run t n = Inr (- 1, n')" "transactionList n' = xs @ ts" "clock n' = clock n"
        "next_ref n' = next_ref n" "link n' = link n" "sent n' = sent n" "\<forall>d. valid d n' = valid d n"
      using give_up_middle [OF n ids r] by blast
    have "put_transaction t n = n" using put_middle [OF n refs refl] n by simp
    then have "transmit run t b n = Inr (- 1, n')"
      using False n'(1) by (auto simp: transmit_def alive_def first_transmission_def COAP_MAX_RETRANSMIT_def)
    then show ?thesis using False start n' by (simp add: transaction_send_def)
  qed
qed

lemma step_loop_effect:
  assumes "transactionList n = xs @ ts" and "ids_ascending mID (xs @ ts)" and "distinct (map ref (xs @ ts))"
    and "\<forall>t \<in> set ts. ready valid n t" and "0 \<le> clock n" and "clock n + COAP_RESPONSE_TIMEOUT < 0x80000000" and "now = clock n"
  shows "\<exists>timeout' n'. step_loop run now (map ref ts) timeout n = Inr (timeout', n') \<and>
    transactionList n' = xs @ List.map_filter (evolve now) ts \<and> clock n' = clock n \<and> next_ref n' = next_ref n \<and>
    (link n = [] \<longrightarrow> link n' = [] \<and> sent n' = sent n @ datagrams now ts) \<and> (\<forall>d. valid d n' = valid d n)"
  using assms
proof (induction ts arbitrary: xs n timeout)
  case Nil
  then show ?case by (simp add: datagrams_def map_filter_simps)
next
  case (Cons t ts)
  note refs = Cons.prems(3) and ids = Cons.prems(2)
  have get: "get_transaction (ref t) n = Some t" by (rule get_middle [OF Cons.prems(1) refs])
  show ?case
  proof (cases "retrans_time t \<le> now")
    case True
    have "ready valid n t" using Cons.prems(4) by simp
    from send_middle [OF Cons.prems(1) ids refs this Cons.prems(5,6)] obtain n1 where
      n1: "transaction_send run (ref t) n = Inr (if alive t then 0 else - 1, n1)"
        "transactionList n1 = xs @ (if alive t then [retransmit (clock n) t] else []) @ ts" "clock n1 = clock n"
        "next_ref n1 = next_ref n"
        "link n = [] \<longrightarrow> link n1 = [] \<and> sent n1 = sent n @ (if alive t then [(peerH t, the (pkt_buffer t))] else [])"
        "\<forall>d. valid d n1 = valid d n" by blast
    let ?xs = "xs @ (if alive t then [retransmit (clock n) t] else [])"
    have l1: "transactionList n1 = ?xs @ ts" using n1(2) by simp
    have ids1: "ids_ascending mID (?xs @ ts)" and refs1: "distinct (map ref (?xs @ ts))"
      using ids refs by (auto simp: ids_ascending_def sorted_wrt_append)
    have ready1: "\<forall>x \<in> set ts. ready valid n1 x" using Cons.prems(4) n1(6) by (simp add: ready_def)
    have get1: "alive t \<Longrightarrow> get_transaction (ref t) n1 = Some (retransmit (clock n) t)"
      using get_middle [of n1 xs "retransmit (clock n) t" ts] n1(2) refs by simp
    have ih: "\<exists>timeout' n'. step_loop run now (map ref ts) tm n1 = Inr (timeout', n') \<and>
      transactionList n' = ?xs @ List.map_filter (evolve now) ts \<and> clock n' = clock n1 \<and> next_ref n' = next_ref n1 \<and>
      (link n1 = [] \<longrightarrow> link n' = [] \<and> sent n' = sent n1 @ datagrams now ts) \<and> (\<forall>d. valid d n' = valid d n1)" for tm
      using Cons.IH [OF l1 ids1 refs1 ready1] Cons.prems(5-7) n1(3) by simp
    have ev: "?xs @ List.map_filter (evolve now) ts = xs @ List.map_filter (evolve now) (t # ts)"
      using True Cons.prems(7) by (simp add: evolve_def map_filter_simps)
    have dg: "datagrams now (t # ts) = (if alive t then [(peerH t, the (pkt_buffer t))] else []) @ datagrams now ts"
      using True by (simp add: datagrams_def)
    obtain tm where run1: "step_loop run now (map ref (t # ts)) timeout n = step_loop run now (map ref ts) tm n1"
      using get True n1(1) get1 that by (cases "alive t") auto
    from ih [of tm] obtain timeout' n' where "step_loop run now (map ref ts) tm n1 = Inr (timeout', n')"
      "transactionList n' = ?xs @ List.map_filter (evolve now) ts" "clock n' = clock n1" "next_ref n' = next_ref n1"
      "link n1 = [] \<longrightarrow> link n' = [] \<and> sent n' = sent n1 @ datagrams now ts" "\<forall>d. valid d n' = valid d n1" by blast
    then show ?thesis using run1 n1 ev dg by (intro exI [of _ timeout'] exI [of _ n']) auto
  next
    case False
    have l1: "transactionList n = (xs @ [t]) @ ts" using Cons.prems(1) by simp
    have "\<exists>timeout' n'. step_loop run now (map ref ts) (min timeout (due_in t now)) n = Inr (timeout', n') \<and>
      transactionList n' = (xs @ [t]) @ List.map_filter (evolve now) ts \<and> clock n' = clock n \<and> next_ref n' = next_ref n \<and>
      (link n = [] \<longrightarrow> link n' = [] \<and> sent n' = sent n @ datagrams now ts) \<and> (\<forall>d. valid d n' = valid d n)"
      using Cons.IH [OF l1, of "min timeout (due_in t now)"] Cons.prems by simp
    moreover have "xs @ List.map_filter (evolve now) (t # ts) = (xs @ [t]) @ List.map_filter (evolve now) ts"
      using False by (simp add: evolve_def map_filter_simps)
    moreover have "datagrams now (t # ts) = datagrams now ts" using False by (simp add: datagrams_def)
    ultimately show ?thesis using False get by simp
  qed
qed

lemma step_effect:
  assumes "transactions_ok n" and "\<forall>t \<in> set (transactionList n). ready valid n t"
    and "0 \<le> clock n" and "clock n + COAP_RESPONSE_TIMEOUT < 0x80000000"
  shows "\<exists>timeout' n'. transaction_step run (clock n) timeout n = Inr (timeout', n') \<and>
    transactionList n' = List.map_filter (evolve (clock n)) (transactionList n) \<and> transactions_ok n' \<and> clock n' = clock n \<and>
    (link n = [] \<longrightarrow> link n' = [] \<and> sent n' = sent n @ datagrams (clock n) (transactionList n)) \<and>
    (\<forall>t \<in> set (transactionList n'). ready valid n' t)"
proof -
  let ?ts = "transactionList n" and ?now = "clock n"
  from step_loop_effect [of n "[]" ?ts ?now timeout] assms
  obtain timeout' n' where n': "step_loop run ?now (map ref ?ts) timeout n = Inr (timeout', n')"
      "transactionList n' = List.map_filter (evolve ?now) ?ts" "clock n' = clock n" "next_ref n' = next_ref n"
      "link n = [] \<longrightarrow> link n' = [] \<and> sent n' = sent n @ datagrams ?now ?ts" "\<forall>d. valid d n' = valid d n"
    by (auto simp: transactions_ok_def)
  have ev: "ref t' = ref t \<and> mID t' = mID t \<and> callback t' = callback t \<and> pkt_buffer t' = pkt_buffer t" if "evolve ?now t = Some t'" for t t'
    using that by (auto simp: evolve_def split: if_splits)
  have mem: "\<exists>t \<in> set ?ts. evolve ?now t = Some t'" if "t' \<in> set (transactionList n')" for t'
    using that n'(2) by (auto simp: map_filter_def)
  have ids: "sorted_wrt P (map f (List.map_filter (evolve ?now) xs))" if "sorted_wrt P (map f xs)" "\<And>t t'. evolve ?now t = Some t' \<Longrightarrow> f t' = f t"
    for P and f :: "'c transaction \<Rightarrow> 'b" and xs
    using that by (induction xs) (auto simp: map_filter_simps map_filter_def split: option.splits)
  have i: "ids_ascending mID (transactionList n')"
    using assms(1) unfolding transactions_ok_def ids_ascending_def n'(2) by (intro ids) (simp_all add: ev)
  have d: "distinct (map ref (transactionList n'))"
    using assms(1) unfolding transactions_ok_def n'(2) sorted_wrt_distinct [symmetric] by (intro ids) (simp_all add: ev)
  have "ref t' < next_ref n'" if t': "t' \<in> set (transactionList n')" for t'
  proof -
    obtain t where t: "t \<in> set ?ts" "evolve ?now t = Some t'" using mem [OF t'] by blast
    then have "ref t < next_ref n" using assms(1) by (simp add: transactions_ok_def)
    then show ?thesis using ev [OF t(2)] n'(4) by simp
  qed
  then have "transactions_ok n'" using i d by (simp add: transactions_ok_def)
  moreover have "\<forall>t \<in> set (transactionList n'). ready valid n' t"
    using assms(2) mem ev n'(6) unfolding ready_def by metis
  ultimately show ?thesis using n' by (auto simp: transaction_step_def)
qed

text \<open>A message from the session \<open>from\<close> goes to the first transaction that it answers.\<close>

lemma handle_one_None:
  "\<not> answers (ctx_protocol n) p t \<Longrightarrow> handle_one run from p has_response t n = Inr None"
  by (simp add: handle_one_def answers_def Let_def)

lemma response_loop_skip:
  assumes "\<forall>x \<in> set xs. peerH x = from \<longrightarrow> \<not> answers (ctx_protocol n) p x"
  shows "response_loop run from p has_response (xs @ ts) n = response_loop run from p has_response ts n"
  using assms by (induction xs) (simp_all add: handle_one_None)

lemma response_unanswered:
  assumes "\<forall>x \<in> set (transactionList n). peerH x = from \<longrightarrow> \<not> answers (ctx_protocol n) p x"
  shows "transaction_handleResponse run from p has_response n = Inr (False, n)"
  using response_loop_skip [OF assms, of has_response "[]"] by (simp add: transaction_handleResponse_def)

lemma finish_middle:
  assumes "transactionList n = xs @ t # ts" and "ids_ascending mID (xs @ t # ts)" and "\<forall>c. callback t = Some c \<longrightarrow> valid c n"
    and "readable p"
  shows "\<exists>n1 n'. run_callback run t p n = Inr n1 \<and> finish_transaction run t p n = Inr n' \<and> n' = n1\<lparr>transactionList := xs @ ts\<rparr> \<and>
    clock n1 = clock n \<and> next_ref n1 = next_ref n \<and> link n1 = link n \<and> sent n1 = sent n \<and> (\<forall>d. valid d n' = valid d n)"
proof -
  obtain n1 where n1: "run_callback run t p n = Inr n1" "transactionList n1 = transactionList n" "clock n1 = clock n"
      "next_ref n1 = next_ref n" "link n1 = link n" "sent n1 = sent n" "\<forall>d. valid d n1 = valid d n"
  proof (cases "callback t")
    case None
    then show ?thesis using that [of n] by (simp add: run_callback_def)
  next
    case (Some c)
    then have "valid c n" using assms(3) by simp
    then obtain n1 where "run c p n = Inr n1" using run_ok assms(4) by blast
    then show ?thesis using that [of n1] run_keeps [of c p n n1] valid_run [of c p n n1] Some
      by (simp add: run_callback_def)
  qed
  have "transaction_remove t n1 = Inr (n1\<lparr>transactionList := xs @ ts\<rparr>)"
    using n1(2) assms(1,2) by (intro transaction_remove_middle) simp_all
  moreover have "valid d (n1\<lparr>transactionList := xs @ ts\<rparr>) = valid d n1" for d
    by (rule valid_frame) simp
  ultimately show ?thesis using n1 by (simp add: finish_transaction_def)
qed

lemma response_resolves:
  assumes n: "transactionList n = xs @ t # ts" and ok: "transactions_ok n" and t: "peerH t = from" "answers (ctx_protocol n) p t"
    and first: "\<forall>x \<in> set xs. peerH x = from \<longrightarrow> \<not> answers (ctx_protocol n) p x"
    and v: "\<forall>c. callback t = Some c \<longrightarrow> valid c n"
    and range: "within_range (clock n) t" and quiet: "has_response \<longrightarrow> msg_type p \<noteq> COAP_TYPE_CON"
    and opts: "readable (Some p)"
  shows "\<exists>n'. transaction_handleResponse run from p has_response n = Inr (True, n') \<and>
    transactionList n' = xs @ (case after_response (ctx_protocol n) p (clock n) t of None \<Rightarrow> [] | Some t' \<Rightarrow> [t']) @ ts \<and>
    transactions_ok n' \<and> clock n' = clock n \<and> link n' = link n \<and> sent n' = sent n \<and> (\<forall>d. valid d n' = valid d n)"
proof -
  let ?found = "acknowledges (ctx_protocol n) p t"
  define t1 where "t1 = (if ?found then t\<lparr>ack_received := True\<rparr> else t)"
  have t1: "ref t1 = ref t" "mID t1 = mID t" "callback t1 = callback t" "retrans_counter t1 = retrans_counter t"
      "retrans_time t1 = retrans_time t" "response_timeout t1 = response_timeout t"
    by (simp_all add: t1_def)
  note ids = transactions_okD(1) [OF ok, unfolded n] and refs = transactions_okD(2) [OF ok, unfolded n]
  have loop: "transaction_handleResponse run from p has_response n = response_loop run from p has_response (t # ts) n"
    using response_loop_skip [OF first] by (simp add: transaction_handleResponse_def n)
  have put: "put_transaction x n = n\<lparr>transactionList := xs @ x # ts\<rparr>" if "ref x = ref t" for x
    by (rule put_middle [OF n refs that])
  have frame: "valid d (n\<lparr>transactionList := l\<rparr>) = valid d n" for d l by (rule valid_frame) simp
  have okay: "transactions_ok (n\<lparr>transactionList := xs @ x # ts\<rparr>)" if "ref x = ref t" "mID x = mID t" for x
    using ok that by (simp add: transactions_ok_def n ids_ascending_def)
  have unq: "\<not> (has_response \<and> msg_type p = COAP_TYPE_CON)" using quiet by blast
  show ?thesis
  proof (cases "after_response (ctx_protocol n) p (clock n) t")
    case None
    let ?n = "n\<lparr>transactionList := xs @ t1 # ts\<rparr>"
    have ids1: "ids_ascending mID (xs @ t1 # ts)" using ids t1 by (simp add: ids_ascending_def)
    have v1: "\<forall>c. callback t1 = Some c \<longrightarrow> valid c ?n" using v t1 frame by simp
    from finish_middle [OF _ ids1 v1 opts] obtain n1 n' where fin:
      "finish_transaction run t1 (Some p) ?n = Inr n'" "n' = n1\<lparr>transactionList := xs @ ts\<rparr>"
      "clock n1 = clock n" "next_ref n1 = next_ref n" "link n1 = link n" "sent n1 = sent n" "\<forall>d. valid d n' = valid d ?n"
      by auto
    have "handle_one run from p has_response t n = Inr (Some n')"
      using None fin(1) put [OF t1(1)] unq t1(4)
      by (auto simp: handle_one_def after_response_def Let_def t1_def split: if_splits)
    moreover have "transactions_ok n'"
      using ok fin by (auto simp: transactions_ok_def n ids_ascending_def sorted_wrt_append)
    ultimately show ?thesis using loop None fin t(1) frame by auto
  next
    case (Some t')
    have "handle_one run from p has_response t n = Inr (Some (put_transaction t' n))"
      using Some range unq t(2) within_range_add [OF range] t1
      by (auto simp: handle_one_def after_response_def Let_def t1_def answers_def split: if_splits)
    moreover have r: "ref t' = ref t" "mID t' = mID t"
      using Some by (auto simp: after_response_def Let_def split: if_splits)
    ultimately show ?thesis using loop Some put [OF r(1)] okay [OF r] frame t(1) by auto
  qed
qed

end

end
