(* ===== verification/Registration.thy ===== *)
theory Registration
imports Objects Transaction
begin

text \<open>
  The registration of a client at its servers, the part of \<^verbatim>\<open>external/wakaama/registration.c\<close> under
  \<^verbatim>\<open>LWM2M_CLIENT_MODE\<close>, over the struct \<^verbatim>\<open>lwm2m_context_t\<close>: the transactions, the objects and their
  state, the two lists of servers and the observations.

  \<open>connects\<close> lists what \<^verbatim>\<open>lwm2m_connect_server\<close> of the application answers to the coming calls, \<open>closed\<close> collects the
  sessions that are given to \<^verbatim>\<open>lwm2m_close_connection\<close>.
\<close>

abbreviation (input) COAP_503_SERVICE_UNAVAILABLE :: byte where "COAP_503_SERVICE_UNAVAILABLE \<equiv> 0xA3"

section \<open>The context\<close>

text \<open>
  A callback of a transaction with its \<^verbatim>\<open>userData\<close>: the server by its \<^verbatim>\<open>secObjInstID\<close>, in the list the callback is for.
  When a server is freed, the callbacks that point to it dangle.
\<close>

datatype reply_handler =
    Registration_reply u16
  | Update_reply u16
  | Deregistration_reply
  | Bootstrap_reply u16
  | Dangling_reply

datatype lwm2m_client_state =
    STATE_INITIAL
  | STATE_BOOTSTRAP_REQUIRED
  | STATE_BOOTSTRAPPING
  | STATE_REGISTER_REQUIRED
  | STATE_REGISTERING
  | STATE_READY

record 's lwm2m_context = "reply_handler net" +
  object_state :: 's
  object_list :: "'s object_ops list"
  endpointName :: "byte list option"
  msisdn :: "byte list option"
  altPath :: "byte list option"
  serverList :: "lwm2m_server list"
  bootstrapServerList :: "lwm2m_server list"
  client_state :: lwm2m_client_state
  observedList :: "observed list"
  connects :: "session option list"
  closed :: "session list"

definition get_server :: "u16 \<Rightarrow> 's lwm2m_context \<Rightarrow> lwm2m_server res" where
  "get_server i n = (case find (\<lambda>s. secObjInstID s = i) (serverList n) of None \<Rightarrow> Inl UseAfterFree | Some s \<Rightarrow> Inr s)"

definition set_in :: "u16 \<Rightarrow> (lwm2m_server \<Rightarrow> lwm2m_server) \<Rightarrow> lwm2m_server list \<Rightarrow> lwm2m_server list" where
  "set_in i f = map (\<lambda>s. if secObjInstID s = i then f s else s)"

text \<open>A write through the pointer to a server.\<close>

definition set_server :: "u16 \<Rightarrow> (lwm2m_server \<Rightarrow> lwm2m_server) \<Rightarrow> 's lwm2m_context \<Rightarrow> 's lwm2m_context" where
  "set_server i f n = n\<lparr>serverList := set_in i f (serverList n)\<rparr>"

definition lwm2m_connect_server :: "'s lwm2m_context \<Rightarrow> session option \<times> 's lwm2m_context" where
  "lwm2m_connect_server n = (case connects n of [] \<Rightarrow> (None, n) | c # cs \<Rightarrow> (c, n\<lparr>connects := cs\<rparr>))"

definition close_session :: "session \<Rightarrow> 's lwm2m_context \<Rightarrow> 's lwm2m_context" where
  "close_session h n = n\<lparr>closed := closed n @ [h]\<rparr>"

section \<open>The query of a registration\<close>

text \<open>
  A copy behind the text \<open>out\<close> in an array of \<open>cap\<close> bytes when the callee is told that \<open>room\<close> bytes are left. \<open>None\<close> is -1:
  the room was filled without the terminator.
\<close>

definition query_copy :: "nat \<Rightarrow> nat \<Rightarrow> byte list \<Rightarrow> byte list \<Rightarrow> byte list option res" where
  "query_copy cap room s out =
     (case utils_stringCopy room s of
        None \<Rightarrow> if cap < length out + room then Inl OutOfBounds else Inr None
      | Some t \<Rightarrow> if cap < length out + length t then Inl OutOfBounds else Inr (Some (out @ butlast t)))"

definition query_add :: "nat \<Rightarrow> byte list \<Rightarrow> byte list \<Rightarrow> byte list option res" where
  "query_add cap s out = query_copy cap (cap - length out) s out"

definition hex_digit :: "byte \<Rightarrow> byte" where
  "hex_digit x = (if 9 < x then x - 10 + of_char CHR ''a'' else x + of_char CHR ''0'')"

definition secret_text :: "byte list \<Rightarrow> byte list" where
  "secret_text b = concat (map (\<lambda>x. [hex_digit (x div 16 mod 16), hex_digit (x mod 16)]) b)"

text \<open>
  Over TCP the key of the security object is added. The room is reckoned from the length of the
  key, as a \<^verbatim>\<open>size_t\<close>.
\<close>

definition token_room :: "nat \<Rightarrow> nat \<Rightarrow> nat" where
  "token_room dlength index = (if index \<le> dlength then dlength - index else 0x100000000 + dlength - index)"

definition query_token :: "nat \<Rightarrow> byte list \<Rightarrow> byte list \<Rightarrow> byte list option res" where
  "query_token cap key out =
     bindO (query_copy cap (token_room (2 * length key) (length out)) (bytes ''&token='') out) (\<lambda>o1.
       query_copy cap (token_room (2 * length key) (length o1)) (secret_text key) o1)"

definition query_secret ::
    "nat \<Rightarrow> 's object_ops list \<Rightarrow> 's \<Rightarrow> byte list \<Rightarrow> mem \<Rightarrow> (byte list option \<times> mem) res" where
  "query_secret cap objs s out m =
     (case find_object objs 0 of
        None \<Rightarrow> Inr (Some out, m)
      | Some ob \<Rightarrow>
        (case readFunc ob of
           None \<Rightarrow> Inr (Some out, m)
         | Some f \<Rightarrow>
           (case lwm2m_data_new 1 m of
              ([], m1) \<Rightarrow> Inr (None, m1)
            | (_ # _, m1) \<Rightarrow>
              bindE (f 0 [Data 5 V_undefined] s m1) (\<lambda>(_, ds, m2).
                case ds of
                  Data _ (V_opaque key) # _ \<Rightarrow>
                    (case lwm2m_malloc m2 of
                       (False, m3) \<Rightarrow> Inr (None, m3)
                     | (True, m3) \<Rightarrow> bindE (query_token cap key out) (\<lambda>r. Inr (r, m3)))
                | _ \<Rightarrow> Inr (Some out, m2)))))"

definition query_binding :: "lwm2m_binding \<Rightarrow> byte list option" where
  "query_binding b =
     (case b of
        BINDING_T \<Rightarrow> Some (bytes ''&b=T'')
      | BINDING_U \<Rightarrow> Some (bytes ''&b=U'')
      | BINDING_UQ \<Rightarrow> Some (bytes ''&b=UQ'')
      | BINDING_S \<Rightarrow> Some (bytes ''&b=S'')
      | BINDING_SQ \<Rightarrow> Some (bytes ''&b=SQ'')
      | BINDING_US \<Rightarrow> Some (bytes ''&b=US'')
      | BINDING_UQS \<Rightarrow> Some (bytes ''&b=UQS'')
      | _ \<Rightarrow> None)"

text \<open>\<open>None\<close> is the result 0.\<close>

definition prv_getRegistrationQuery :: "'s lwm2m_context \<Rightarrow> lwm2m_server \<Rightarrow> nat \<Rightarrow> (byte list option \<times> mem) res" where
  "prv_getRegistrationQuery n srv cap =
     bindE (bindO (query_add cap (bytes ''?lwm2m=1.0&ep='') []) (\<lambda>q1.
       case endpointName n of
         None \<Rightarrow> Inl NullDeref
       | Some name \<Rightarrow>
           bindO (query_add cap name q1) (\<lambda>q2.
             case msisdn n of
               None \<Rightarrow> Inr (Some q2)
             | Some num \<Rightarrow> bindO (query_add cap (bytes ''&sms='') q2) (query_add cap num)))) (\<lambda>r.
     case r of
       None \<Rightarrow> Inr (None, memory n)
     | Some q \<Rightarrow>
       bindE (if is_tcp (ctx_protocol n) then query_secret cap (object_list n) (object_state n) q (memory n)
              else Inr (Some q, memory n)) (\<lambda>(r', m).
         case (r', query_binding (binding srv)) of
           (Some q', Some b) \<Rightarrow> bindE (query_add cap b q') (\<lambda>r''. Inr (r'', m))
         | _ \<Rightarrow> Inr (None, m)))"

section \<open>Answers of the server\<close>

definition prv_handleRegistrationReply :: "u16 \<Rightarrow> coap_packet option \<Rightarrow> 's lwm2m_context \<Rightarrow> 's lwm2m_context res" where
  "prv_handleRegistrationReply i packet n =
     bindE (get_server i n) (\<lambda>t.
       if status t \<noteq> STATE_REG_PENDING then Inr n
       else
         let n1 = (if 0 \<le> clock n then set_server i (\<lambda>s. s\<lparr>registration := clock n\<rparr>) n else n);
             failed = set_server i (\<lambda>s. s\<lparr>status := STATE_REG_FAILED\<rparr>) n1 in
         case packet of
           None \<Rightarrow> Inr failed
         | Some p \<Rightarrow>
             if code p = COAP_201_CREATED then
               bindE (coap_get_multi_option_as_string (location_path p) (memory n1)) (\<lambda>(l, m).
                 Inr (set_server i (\<lambda>s. s\<lparr>status := STATE_REGISTERED, location := l\<rparr>) (n1\<lparr>memory := m\<rparr>)))
             else Inr failed)"

definition prv_handleRegistrationUpdateReply :: "u16 \<Rightarrow> coap_packet option \<Rightarrow> 's lwm2m_context \<Rightarrow> 's lwm2m_context res" where
  "prv_handleRegistrationUpdateReply i packet n =
     bindE (get_server i n) (\<lambda>t.
       if status t \<noteq> STATE_REG_UPDATE_PENDING then Inr n
       else
         let n1 = (if 0 \<le> clock n then set_server i (\<lambda>s. s\<lparr>registration := clock n\<rparr>) n else n);
             changed = (case packet of None \<Rightarrow> False | Some p \<Rightarrow> code p = COAP_204_CHANGED) in
         Inr (set_server i (\<lambda>s. s\<lparr>status := if changed then STATE_REGISTERED else STATE_REG_FAILED\<rparr>) n1))"

text \<open>The \<^verbatim>\<open>userData\<close> of a deregistration is the context, which the callback reads as a server.\<close>

definition prv_handleDeregistrationReply :: "'s lwm2m_context \<Rightarrow> 's lwm2m_context res" where
  "prv_handleDeregistrationReply n = Inl UnionMisread"

definition get_bootstrap_server :: "u16 \<Rightarrow> 's lwm2m_context \<Rightarrow> lwm2m_server res" where
  "get_bootstrap_server i n =
     (case find (\<lambda>s. secObjInstID s = i) (bootstrapServerList n) of None \<Rightarrow> Inl UseAfterFree | Some s \<Rightarrow> Inr s)"

definition set_bootstrap_server :: "u16 \<Rightarrow> (lwm2m_server \<Rightarrow> lwm2m_server) \<Rightarrow> 's lwm2m_context \<Rightarrow> 's lwm2m_context" where
  "set_bootstrap_server i f n = n\<lparr>bootstrapServerList := set_in i f (bootstrapServerList n)\<rparr>"

text \<open>The answer to a bootstrap request, from \<^verbatim>\<open>bootstrap.c\<close>.\<close>

definition prv_handleBootstrapReply :: "u16 \<Rightarrow> coap_packet option \<Rightarrow> 's lwm2m_context \<Rightarrow> 's lwm2m_context res" where
  "prv_handleBootstrapReply i packet n =
     bindE (get_bootstrap_server i n) (\<lambda>t.
       if status t \<noteq> STATE_BS_INITIATED then Inr n
       else
         let pending = (case packet of None \<Rightarrow> False | Some p \<Rightarrow> msg_type p \<noteq> COAP_TYPE_RST \<and> code p = COAP_204_CHANGED) in
         Inr (set_bootstrap_server i (\<lambda>s. s\<lparr>status := if pending then STATE_BS_PENDING else STATE_BS_FAILING\<rparr>) n))"

fun client_callback :: "reply_handler \<Rightarrow> coap_packet option \<Rightarrow> 's lwm2m_context \<Rightarrow> 's lwm2m_context res" where
  "client_callback (Registration_reply i) p n = prv_handleRegistrationReply i p n"
| "client_callback (Update_reply i) p n = prv_handleRegistrationUpdateReply i p n"
| "client_callback Deregistration_reply p n = prv_handleDeregistrationReply n"
| "client_callback (Bootstrap_reply i) p n = prv_handleBootstrapReply i p n"
| "client_callback Dangling_reply p n = Inl UseAfterFree"

section \<open>Requests to the server\<close>

text \<open>
  The arrays of the caller that the payload of a message points to end with the call. A transaction whose datagram
  could not be made yet keeps the pointer: a block of which no byte may be read.
\<close>

definition end_payload :: "nat \<Rightarrow> ('c, 'z) net_scheme \<Rightarrow> ('c, 'z) net_scheme" where
  "end_payload r n = n\<lparr>transactionList := map (\<lambda>t.
     if ref t = r \<and> payload (message t) \<noteq> None then t\<lparr>message := (message t)\<lparr>payload := Some []\<rparr>\<rparr> else t) (transactionList n)\<rparr>"

text \<open>\<^verbatim>\<open>transaction_new\<close> with the next message id, as the client calls it.\<close>

definition new_request ::
    "session option \<Rightarrow> byte \<Rightarrow> 's lwm2m_context \<Rightarrow> (reply_handler transaction option \<times> 's lwm2m_context) res" where
  "new_request sess mth n =
     transaction_new sess (ctx_protocol n) mth None None (nextMID n) 4 None (n\<lparr>nextMID := nextMID n + 1\<rparr>)"

text \<open>A transaction with its message and callback is added to the list and sent.\<close>

definition add_and_send ::
    "reply_handler transaction \<Rightarrow> coap_packet \<Rightarrow> reply_handler \<Rightarrow> 's lwm2m_context \<Rightarrow> (int \<times> 's lwm2m_context) res" where
  "add_and_send t p c n =
     bindE (transaction_send client_callback (ref t) (transaction_add (t\<lparr>message := p, callback := Some c\<rparr>) n)) (\<lambda>(r, n').
       Inr (r, end_payload (ref t) n'))"

definition register_query :: "'s lwm2m_context \<Rightarrow> lwm2m_server \<Rightarrow> (byte list option \<times> mem) res" where
  "register_query n srv =
     bindE (prv_getRegistrationQuery n srv 200) (\<lambda>(r, m).
       bindE (case r of
           None \<Rightarrow> Inr None
         | Some q \<Rightarrow>
             if lifetime srv = 0 then Inr (Some q)
             else bindO (query_add 200 (bytes ''&lt='') q) (\<lambda>q1.
               bindE (utils_intCopy (200 - length q1) (word_of_int (lifetime srv))) (\<lambda>i.
                 Inr (map_option (\<lambda>t. q1 @ butlast t) i)))) (\<lambda>r'. Inr (r', m)))"

definition register_message ::
    "byte list \<Rightarrow> byte list \<Rightarrow> coap_packet \<Rightarrow> mem \<Rightarrow> (coap_packet \<times> mem) res" where
  "register_message query pl p m =
     bindE (coap_set_header_uri_path p (bytes ''/rd'' @ [0]) m) (\<lambda>(_, p1, m1).
     bindE (coap_set_header_uri_query p1 (query @ [0]) m1) (\<lambda>(_, p2, m2).
     Inr (snd (coap_set_payload (coap_set_header_content_type p2 40) (Some pl) (length pl)), m2)))"

definition prv_register :: "u16 \<Rightarrow> 's lwm2m_context \<Rightarrow> (byte \<times> 's lwm2m_context) res" where
  "prv_register i n =
     bindE (get_server i n) (\<lambda>srv.
     bindE (object_getRegisterPayload (object_list n) (altPath n) (object_state n) 512) (\<lambda>pl.
     if pl = [] then Inr (COAP_500_INTERNAL_SERVER_ERROR, n)
     else bindE (register_query n srv) (\<lambda>(q, m).
       let n0 = n\<lparr>memory := m\<rparr> in
       case q of
         None \<Rightarrow> Inr (COAP_500_INTERNAL_SERVER_ERROR, n0)
       | Some query \<Rightarrow>
         let (sess, n1) = (if sessionH srv = None
                           then let (c, n') = lwm2m_connect_server n0 in (c, set_server i (\<lambda>s. s\<lparr>sessionH := c\<rparr>) n')
                           else (sessionH srv, n0)) in
         if sess = None then Inr (COAP_503_SERVICE_UNAVAILABLE, n1)
         else bindE (new_request sess COAP_POST n1) (\<lambda>(r, n2).
           case r of
             None \<Rightarrow> Inr (COAP_500_INTERNAL_SERVER_ERROR, n2)
           | Some t \<Rightarrow>
             bindE (register_message query pl (message t) (memory n2)) (\<lambda>(p, m3).
             bindE (add_and_send t p (Registration_reply i) (n2\<lparr>memory := m3\<rparr>)) (\<lambda>(ret, n3).
               if ret \<noteq> 0 then Inr (COAP_500_INTERNAL_SERVER_ERROR, n3)
               else Inr (COAP_NO_ERROR, set_server i (\<lambda>s. s\<lparr>status := STATE_REG_PENDING\<rparr>) n3)))))))"

text \<open>A path from the heap, which may be null.\<close>

definition path_header :: "byte list option \<Rightarrow> coap_packet \<Rightarrow> mem \<Rightarrow> (coap_packet \<times> mem) res" where
  "path_header loc p m =
     (case loc of
        None \<Rightarrow> Inl NullDeref
      | Some l \<Rightarrow> bindE (coap_set_header_uri_path p (l @ [0]) m) (\<lambda>(_, p', m'). Inr (p', m')))"

definition prv_updateRegistration :: "u16 \<Rightarrow> bool \<Rightarrow> 's lwm2m_context \<Rightarrow> (byte \<times> 's lwm2m_context) res" where
  "prv_updateRegistration i withObjects n =
     bindE (get_server i n) (\<lambda>srv.
     bindE (new_request (sessionH srv) COAP_POST n) (\<lambda>(r, n1).
       case r of
         None \<Rightarrow> Inr (COAP_500_INTERNAL_SERVER_ERROR, n1)
       | Some t \<Rightarrow>
         bindE (path_header (location srv) (message t) (memory n1)) (\<lambda>(p1, m).
         bindE (if withObjects
                then bindE (object_getRegisterPayload (object_list n1) (altPath n1) (object_state n1) 512) (\<lambda>pl.
                  Inr (if pl = [] then None else Some (snd (coap_set_payload p1 (Some pl) (length pl)))))
                else Inr (Some p1)) (\<lambda>p2.
           case p2 of
             None \<Rightarrow> Inr (COAP_500_INTERNAL_SERVER_ERROR, n1\<lparr>memory := m\<rparr>)
           | Some p \<Rightarrow>
             bindE (add_and_send t p (Update_reply i) (n1\<lparr>memory := m\<rparr>)) (\<lambda>(ret, n2).
               Inr (COAP_NO_ERROR, if ret = 0 then set_server i (\<lambda>s. s\<lparr>status := STATE_REG_UPDATE_PENDING\<rparr>) n2 else n2))))))"

section \<open>Updates asked for by the application\<close>

text \<open>The servers with the update asked for, and the result when the loop is left in its body.\<close>

fun mark_updates :: "u16 \<Rightarrow> bool \<Rightarrow> lwm2m_server list \<Rightarrow> byte option \<times> lwm2m_server list" where
  "mark_updates short withObjects [] = (None, [])"
| "mark_updates short withObjects (t # ts) =
     (let acts = (status t = STATE_REGISTERED \<or> status t = STATE_REG_UPDATE_PENDING);
          t1 = t\<lparr>status := if withObjects then STATE_REG_FULL_UPDATE_NEEDED else STATE_REG_UPDATE_NEEDED\<rparr> in
      if short \<noteq> 0 \<and> shortID t = short then
        if acts then (Some COAP_NO_ERROR, t1 # ts)
        else if status t = STATE_REG_FULL_UPDATE_NEEDED \<or> status t = STATE_REG_UPDATE_NEEDED
        then (Some COAP_NO_ERROR, (if withObjects then t1 else t) # ts)
        else (Some COAP_400_BAD_REQUEST, t # ts)
      else
        let (r, ts') = mark_updates short withObjects ts in (r, (if short = 0 \<and> acts then t1 else t) # ts'))"

text \<open>When there is no server, the list is filled but the search has ended already.\<close>

definition lwm2m_update_registration :: "u16 \<Rightarrow> bool \<Rightarrow> 's lwm2m_context \<Rightarrow> (byte \<times> 's lwm2m_context) res" where
  "lwm2m_update_registration short withObjects n =
     (if serverList n = [] then
        bindE (object_getServers (object_list n) (bootstrapServerList n) [] (object_state n) (memory n)) (\<lambda>(r, bs, srv, m).
          Inr (if r = - 1 \<or> short \<noteq> 0 then COAP_404_NOT_FOUND else COAP_NO_ERROR,
               n\<lparr>bootstrapServerList := bs, serverList := srv, memory := m\<rparr>))
      else
        let (r, ts) = mark_updates short withObjects (serverList n) in
        Inr (case r of Some x \<Rightarrow> x | None \<Rightarrow> if short \<noteq> 0 then COAP_404_NOT_FOUND else COAP_NO_ERROR, n\<lparr>serverList := ts\<rparr>))"

section \<open>Registering and deregistering\<close>

fun start_loop :: "u16 list \<Rightarrow> 's lwm2m_context \<Rightarrow> (byte \<times> 's lwm2m_context) res" where
  "start_loop [] n = Inr (COAP_NO_ERROR, n)"
| "start_loop (i # is) n =
     bindE (get_server i n) (\<lambda>t.
     bindE (if status t = STATE_DEREGISTERED \<or> status t = STATE_REG_FAILED then prv_register i n else Inr (COAP_NO_ERROR, n)) (\<lambda>(r, n').
       if r = COAP_NO_ERROR then start_loop is n' else Inr (r, n')))"

definition registration_start :: "'s lwm2m_context \<Rightarrow> (byte \<times> 's lwm2m_context) res" where
  "registration_start n = start_loop (map secObjInstID (serverList n)) n"

fun status_loop :: "lwm2m_status \<Rightarrow> lwm2m_server list \<Rightarrow> lwm2m_status" where
  "status_loop reg_status [] = reg_status"
| "status_loop reg_status (t # ts) =
     status_loop
       (if status t \<in> {STATE_REGISTERED, STATE_REG_UPDATE_NEEDED, STATE_REG_FULL_UPDATE_NEEDED, STATE_REG_UPDATE_PENDING}
        then if reg_status = STATE_REG_FAILED then STATE_REGISTERED else reg_status
        else if status t = STATE_REG_PENDING then STATE_REG_PENDING
        else reg_status) ts"

definition registration_getStatus :: "'s lwm2m_context \<Rightarrow> lwm2m_status" where
  "registration_getStatus n = status_loop STATE_REG_FAILED (serverList n)"

definition registration_deregister :: "u16 \<Rightarrow> 's lwm2m_context \<Rightarrow> 's lwm2m_context res" where
  "registration_deregister i n =
     bindE (get_server i n) (\<lambda>srv.
       if status srv \<in> {STATE_DEREGISTERED, STATE_REG_PENDING, STATE_DEREG_PENDING, STATE_REG_FAILED} \<or> location srv = None
       then Inr n
       else bindE (new_request (sessionH srv) COAP_DELETE n) (\<lambda>(r, n1).
         case r of
           None \<Rightarrow> Inr n1
         | Some t \<Rightarrow>
           bindE (path_header (location srv) (message t) (memory n1)) (\<lambda>(p, m).
           bindE (add_and_send t p Deregistration_reply (n1\<lparr>memory := m\<rparr>)) (\<lambda>(ret, n2).
             Inr (if ret = 0 then set_server i (\<lambda>s. s\<lparr>status := STATE_DEREG_PENDING\<rparr>) n2 else n2)))))"

section \<open>Updates in time\<close>

text \<open>\<^verbatim>\<open>COAP_MAX_TRANSMIT_WAIT\<close> is the floating point number 93.0.\<close>

definition COAP_MAX_TRANSMIT_WAIT :: int where "COAP_MAX_TRANSMIT_WAIT = 93"

definition next_update :: "time \<Rightarrow> time" where
  "next_update life = (if COAP_MAX_TRANSMIT_WAIT < life then life - COAP_MAX_TRANSMIT_WAIT else life div 2)"

definition registration_due :: "lwm2m_server \<Rightarrow> time \<Rightarrow> time res" where
  "registration_due t now = bindE (add_time (registration t) (next_update (lifetime t))) (\<lambda>x. add_time x (- now))"

definition server_step :: "u16 \<Rightarrow> time \<Rightarrow> time \<Rightarrow> 's lwm2m_context \<Rightarrow> (time \<times> 's lwm2m_context) res" where
  "server_step i now timeout n =
     bindE (get_server i n) (\<lambda>t.
       case status t of
         STATE_REGISTERED \<Rightarrow>
           bindE (registration_due t now) (\<lambda>interval.
             if interval \<le> 0 then bindE (prv_updateRegistration i False n) (\<lambda>(_, n'). Inr (timeout, n'))
             else Inr (min interval timeout, n))
       | STATE_REG_UPDATE_NEEDED \<Rightarrow> bindE (prv_updateRegistration i False n) (\<lambda>(_, n'). Inr (timeout, n'))
       | STATE_REG_FULL_UPDATE_NEEDED \<Rightarrow> bindE (prv_updateRegistration i True n) (\<lambda>(_, n'). Inr (timeout, n'))
       | STATE_REG_FAILED \<Rightarrow>
           Inr (timeout, case sessionH t of None \<Rightarrow> n | Some h \<Rightarrow> set_server i (\<lambda>s. s\<lparr>sessionH := None\<rparr>) (close_session h n))
       | _ \<Rightarrow> Inr (timeout, n))"

fun server_steps :: "u16 list \<Rightarrow> time \<Rightarrow> time \<Rightarrow> 's lwm2m_context \<Rightarrow> (time \<times> 's lwm2m_context) res" where
  "server_steps [] now timeout n = Inr (timeout, n)"
| "server_steps (i # is) now timeout n = bindE (server_step i now timeout n) (\<lambda>(tm, n'). server_steps is now tm n')"

definition registration_step :: "time \<Rightarrow> time \<Rightarrow> 's lwm2m_context \<Rightarrow> (time \<times> 's lwm2m_context) res" where
  "registration_step now timeout n = server_steps (map secObjInstID (serverList n)) now timeout n"

end
