(* ===== verification/Bootstrap.thy ===== *)
theory Bootstrap
imports Registration
begin

text \<open>
  The client side of \<^verbatim>\<open>external/wakaama/bootstrap.c\<close>: a client asks a bootstrap server, which then writes and deletes
  the security and server objects of the client.
\<close>

abbreviation (input) COAP_IGNORE :: byte where "COAP_IGNORE \<equiv> 0x01"

section \<open>Asking for a bootstrap\<close>

definition bootstrap_query :: "'s lwm2m_context \<Rightarrow> byte list option res" where
  "bootstrap_query n =
     bindO (query_add 200 (bytes ''?ep='') []) (\<lambda>q.
       case endpointName n of None \<Rightarrow> Inl NullDeref | Some name \<Rightarrow> query_add 200 name q)"

definition bootstrap_message :: "byte list \<Rightarrow> coap_packet \<Rightarrow> mem \<Rightarrow> (coap_packet \<times> mem) res" where
  "bootstrap_message query p m =
     bindE (coap_set_header_uri_path p (bytes ''/bs'' @ [0]) m) (\<lambda>(_, p1, m1).
     bindE (coap_set_header_uri_query p1 (query @ [0]) m1) (\<lambda>(_, p2, m2). Inr (p2, m2)))"

definition set_bs_status :: "u16 \<Rightarrow> lwm2m_status \<Rightarrow> 's lwm2m_context \<Rightarrow> 's lwm2m_context" where
  "set_bs_status i st = set_bootstrap_server i (\<lambda>s. s\<lparr>status := st\<rparr>)"

definition prv_requestBootstrap :: "u16 \<Rightarrow> 's lwm2m_context \<Rightarrow> 's lwm2m_context res" where
  "prv_requestBootstrap i n =
     bindE (get_bootstrap_server i n) (\<lambda>srv.
     bindE (bootstrap_query n) (\<lambda>q.
       case q of
         None \<Rightarrow> Inr (set_bs_status i STATE_BS_FAILING n)
       | Some query \<Rightarrow>
         let (sess, n1) = (if sessionH srv = None
                           then let (c, n') = lwm2m_connect_server n in (c, set_bootstrap_server i (\<lambda>s. s\<lparr>sessionH := c\<rparr>) n')
                           else (sessionH srv, n)) in
         if sess = None then Inr (set_bs_status i STATE_BS_FAILED n1)
         else bindE (new_request sess COAP_POST n1) (\<lambda>(r, n2).
           case r of
             None \<Rightarrow> Inr (set_bs_status i STATE_BS_FAILING n2)
           | Some t \<Rightarrow>
             bindE (bootstrap_message query (message t) (memory n2)) (\<lambda>(p, m3).
             bindE (add_and_send t p (Bootstrap_reply i) (n2\<lparr>memory := m3\<rparr>)) (\<lambda>(ret, n3).
               Inr (if ret = 0 then set_bs_status i STATE_BS_INITIATED n3 else n3))))))"

text \<open>
  The time is an \<^verbatim>\<open>uint32_t\<close> here: sums and comparisons with it are unsigned, what is stored in a \<^verbatim>\<open>time_t\<close> is signed again.
\<close>

definition hold_off :: "time \<Rightarrow> u32 \<Rightarrow> u32" where
  "hold_off reg now = word_of_int reg - now"

definition bootstrap_server_step :: "u16 \<Rightarrow> u32 \<Rightarrow> time \<Rightarrow> 's lwm2m_context \<Rightarrow> (time \<times> 's lwm2m_context) res" where
  "bootstrap_server_step i now timeout n =
     bindE (get_bootstrap_server i n) (\<lambda>t.
       let close = (\<lambda>st.
             let n1 = (case sessionH t of None \<Rightarrow> n
                       | Some h \<Rightarrow> set_bootstrap_server i (\<lambda>s. s\<lparr>sessionH := None\<rparr>) (close_session h n)) in
             Inr (0, set_bs_status i st n1)) in
       case status t of
         STATE_DEREGISTERED \<Rightarrow>
           Inr (min timeout (lifetime t), set_bootstrap_server i
             (\<lambda>s. s\<lparr>registration := sint (now + word_of_int (lifetime t)), status := STATE_BS_HOLD_OFF\<rparr>) n)
       | STATE_BS_HOLD_OFF \<Rightarrow>
           if (word_of_int (registration t) :: u32) \<le> now then bindE (prv_requestBootstrap i n) (\<lambda>n'. Inr (timeout, n'))
           else if hold_off (registration t) now < word_of_int timeout
           then Inr (sint (hold_off (registration t) now), n)
           else Inr (timeout, n)
       | STATE_BS_FINISHING \<Rightarrow> close STATE_BS_FINISHED
       | STATE_BS_FAILING \<Rightarrow> close STATE_BS_FAILED
       | _ \<Rightarrow> Inr (timeout, n))"

fun bootstrap_steps :: "u16 list \<Rightarrow> u32 \<Rightarrow> time \<Rightarrow> 's lwm2m_context \<Rightarrow> (time \<times> 's lwm2m_context) res" where
  "bootstrap_steps [] now timeout n = Inr (timeout, n)"
| "bootstrap_steps (i # is) now timeout n =
     bindE (bootstrap_server_step i now timeout n) (\<lambda>(tm, n'). bootstrap_steps is now tm n')"

definition bootstrap_step :: "u32 \<Rightarrow> time \<Rightarrow> 's lwm2m_context \<Rightarrow> (time \<times> 's lwm2m_context) res" where
  "bootstrap_step now timeout n = bootstrap_steps (map secObjInstID (bootstrapServerList n)) now timeout n"

section \<open>Starting and ending\<close>

text \<open>Servers of a session; a null handle equals none.\<close>

definition utils_findServer :: "session \<Rightarrow> 's lwm2m_context \<Rightarrow> lwm2m_server option" where
  "utils_findServer from n = find (\<lambda>s. sessionH s = Some from) (serverList n)"

definition utils_findBootstrapServer :: "session \<Rightarrow> 's lwm2m_context \<Rightarrow> lwm2m_server option" where
  "utils_findBootstrapServer from n = find (\<lambda>s. sessionH s = Some from) (bootstrapServerList n)"

definition bootstrap_handleFinish :: "session \<Rightarrow> 's lwm2m_context \<Rightarrow> byte \<times> 's lwm2m_context" where
  "bootstrap_handleFinish from n =
     (case utils_findBootstrapServer from n of
        None \<Rightarrow> (COAP_IGNORE, n)
      | Some s \<Rightarrow>
          if status s = STATE_BS_PENDING then (COAP_204_CHANGED, set_bs_status (secObjInstID s) STATE_BS_FINISHING n)
          else (COAP_IGNORE, n))"

fun bootstrap_reset :: "u16 list \<Rightarrow> 's lwm2m_context \<Rightarrow> 's lwm2m_context res" where
  "bootstrap_reset [] n = Inr n"
| "bootstrap_reset (i # is) n =
     bindE (get_bootstrap_server i n) (\<lambda>t.
       let n1 = set_bs_status i STATE_DEREGISTERED n in
       if sessionH t = None
       then let (c, n2) = lwm2m_connect_server n1 in bootstrap_reset is (set_bootstrap_server i (\<lambda>s. s\<lparr>sessionH := c\<rparr>) n2)
       else bootstrap_reset is n1)"

definition bootstrap_start :: "'s lwm2m_context \<Rightarrow> 's lwm2m_context res" where
  "bootstrap_start n = bootstrap_reset (map secObjInstID (bootstrapServerList n)) n"

fun bs_status_loop :: "lwm2m_status \<Rightarrow> lwm2m_server list \<Rightarrow> lwm2m_status" where
  "bs_status_loop bs_status [] = bs_status"
| "bs_status_loop bs_status (t # ts) =
     bs_status_loop
       (if status t = STATE_BS_FINISHED then if bs_status = STATE_BS_FAILED then STATE_BS_FINISHED else bs_status
        else if status t \<in> {STATE_BS_HOLD_OFF, STATE_BS_INITIATED, STATE_BS_PENDING, STATE_BS_FINISHING} then STATE_BS_PENDING
        else bs_status) ts"

definition bootstrap_getStatus :: "'s lwm2m_context \<Rightarrow> lwm2m_status" where
  "bootstrap_getStatus n = bs_status_loop STATE_BS_FAILED (bootstrapServerList n)"

section \<open>Commands of the bootstrap server\<close>

definition prv_checkServerStatus :: "lwm2m_server \<Rightarrow> byte \<times> lwm2m_server" where
  "prv_checkServerStatus srv =
     (if status srv = STATE_BS_HOLD_OFF \<or> status srv = STATE_BS_INITIATED then (COAP_NO_ERROR, srv\<lparr>status := STATE_BS_PENDING\<rparr>)
      else if status srv = STATE_DEREGISTERED \<or> status srv = STATE_BS_PENDING then (COAP_NO_ERROR, srv)
      else (COAP_IGNORE, srv))"

text \<open>The bootstrap servers are searched first.\<close>

definition prv_tagServer :: "u16 \<Rightarrow> 's lwm2m_context \<Rightarrow> 's lwm2m_context" where
  "prv_tagServer i n =
     (if lwm2m_list_find secObjInstID (bootstrapServerList n) i \<noteq> None
      then set_bootstrap_server i (\<lambda>s. s\<lparr>dirty := True\<rparr>) n
      else if lwm2m_list_find secObjInstID (serverList n) i \<noteq> None
      then set_server i (\<lambda>s. s\<lparr>dirty := True\<rparr>) n
      else n)"

definition prv_tagAllServer :: "u16 option \<Rightarrow> 's lwm2m_context \<Rightarrow> 's lwm2m_context" where
  "prv_tagAllServer but n =
     n\<lparr>bootstrapServerList := map (\<lambda>s. if Some (secObjInstID s) = but then s else s\<lparr>dirty := True\<rparr>) (bootstrapServerList n),
       serverList := map (\<lambda>s. s\<lparr>dirty := True\<rparr>) (serverList n)\<rparr>"

definition message_payload :: "coap_packet \<Rightarrow> byte list" where
  "message_payload p = (case payload p of None \<Rightarrow> [] | Some b \<Rightarrow> take (unat (payload_len p)) b)"

definition with_objects :: "'s \<Rightarrow> mem \<Rightarrow> 's lwm2m_context \<Rightarrow> 's lwm2m_context" where
  "with_objects s m n = n\<lparr>object_state := s, memory := m\<rparr>"

definition created_as_changed :: "byte \<Rightarrow> byte" where
  "created_as_changed r = (if r = COAP_201_CREATED then COAP_204_CHANGED else r)"

text \<open>The servers of a security instance are looked up again when the instance was written.\<close>

definition tag_written :: "lwm2m_uri \<Rightarrow> u16 \<Rightarrow> byte \<Rightarrow> 's lwm2m_context \<Rightarrow> 's lwm2m_context" where
  "tag_written u i r n = (if objectId u = 0 \<and> r = COAP_204_CHANGED then prv_tagServer i n else n)"

text \<open>The loop over the parsed elements; it goes on behind an element that is no instance.\<close>

fun bootstrap_instances :: "lwm2m_uri \<Rightarrow> lwm2m_data list \<Rightarrow> byte \<Rightarrow> 's lwm2m_context \<Rightarrow> (byte \<times> 's lwm2m_context) res" where
  "bootstrap_instances u [] r n = Inr (r, n)"
| "bootstrap_instances u (d # ds) r n =
     (case data_value d of
        V_object_instance _ _ \<Rightarrow>
          bindE (if object_isInstanceNew (object_list n) (objectId u) (data_id d) (object_state n)
                 then bindE (object_createInstance (object_list n) u d (object_state n) (memory n)) (\<lambda>(x, s, m).
                   Inr (created_as_changed x, with_objects s m n))
                 else bindE (object_writeInstance (object_list n) u d (object_state n) (memory n)) (\<lambda>(x, s, m).
                   Inr (x, tag_written u (data_id d) x (with_objects s m n)))) (\<lambda>(x, n').
            if x \<noteq> COAP_204_CHANGED then Inr (x, n') else bootstrap_instances u ds x n')
      | _ \<Rightarrow> bootstrap_instances u ds COAP_400_BAD_REQUEST n)"

definition bootstrap_put :: "lwm2m_uri \<Rightarrow> coap_packet \<Rightarrow> 's lwm2m_context \<Rightarrow> (byte \<times> 's lwm2m_context) res" where
  "bootstrap_put u p n =
     (let format = utils_convertMediaType (content_type p); objs = object_list n; pl = message_payload p in
      if is_set_instance u then
        if object_isInstanceNew objs (objectId u) (instanceId u) (object_state n)
        then bindE (object_create objs u format pl (object_state n) (memory n)) (\<lambda>(r, _, s, m).
          Inr (created_as_changed r, with_objects s m n))
        else bindE (object_write objs u format pl (object_state n) (memory n)) (\<lambda>(r, s, m).
          Inr (r, tag_written u (instanceId u) r (with_objects s m n)))
      else if pl = [] then Inr (COAP_400_BAD_REQUEST, n)
      else bindE (lwm2m_data_parse u pl format (memory n)) (\<lambda>(ds, m).
        if ds = [] then Inr (COAP_500_INTERNAL_SERVER_ERROR, n\<lparr>memory := m\<rparr>)
        else bootstrap_instances u ds COAP_NO_ERROR (n\<lparr>memory := m\<rparr>)))"

text \<open>A loop that does not end is a fault.\<close>

definition ends :: "'a res option \<Rightarrow> 'a res" where
  "ends x = (case x of None \<Rightarrow> Inl Hang | Some r \<Rightarrow> r)"

definition bootstrap_delete :: "lwm2m_uri \<Rightarrow> 's lwm2m_context \<Rightarrow> (byte \<times> 's lwm2m_context) res" where
  "bootstrap_delete u n =
     (if is_set_resource u then Inr (COAP_400_BAD_REQUEST, n)
      else bindE (ends (object_delete (object_list n) u (object_state n) (memory n))) (\<lambda>(r, s, m).
        let n1 = with_objects s m n in
        Inr (r, if objectId u = 0 \<and> r = COAP_202_DELETED
                then if is_set_instance u then prv_tagServer (instanceId u) n1 else prv_tagAllServer None n1
                else n1)))"

definition bootstrap_handleCommand :: "lwm2m_uri \<Rightarrow> u16 \<Rightarrow> coap_packet \<Rightarrow> 's lwm2m_context \<Rightarrow> (byte \<times> 's lwm2m_context) res" where
  "bootstrap_handleCommand u i p n =
     bindE (get_bootstrap_server i n) (\<lambda>srv.
       let (st, srv1) = prv_checkServerStatus srv; n0 = set_bs_status i (status srv1) n in
       if st \<noteq> COAP_NO_ERROR then Inr (st, n0)
       else bindE (if code p = COAP_PUT then bootstrap_put u p n0
                   else if code p = COAP_DELETE then bootstrap_delete u n0
                   else Inr (COAP_400_BAD_REQUEST, n0)) (\<lambda>(r, n1).
         bindE (get_bootstrap_server i n1) (\<lambda>srv2.
           Inr (r, if (r = COAP_202_DELETED \<or> r = COAP_204_CHANGED) \<and> status srv2 \<noteq> STATE_BS_PENDING
                   then (set_bs_status i STATE_BS_PENDING n1)\<lparr>client_state := STATE_BOOTSTRAPPING\<rparr> else n1))))"

text \<open>
  Deleting the security instances but one: after a deletion the search starts again at the head of the
  list. \<open>None\<close> is a loop that never ends.
\<close>

partial_function (option) delete_but ::
    "'s object_ops list \<Rightarrow> 's object_ops \<Rightarrow> u16 \<Rightarrow> u16 list \<Rightarrow> 's \<Rightarrow> mem \<Rightarrow> (byte \<times> 's \<times> mem) res option" where
  "delete_but objs ob keep rest s m =
     (case rest of
        [] \<Rightarrow> Some (Inr (COAP_202_DELETED, s, m))
      | i # is \<Rightarrow>
          if i = keep then delete_but objs ob keep is s m
          else case object_delete objs \<lparr>flag = FLAG_OBJECT_ID OR FLAG_INSTANCE_ID, objectId = 0, instanceId = i, resourceId = 0\<rparr> s m of
            None \<Rightarrow> None
          | Some (Inl e) \<Rightarrow> Some (Inl e)
          | Some (Inr (r, s', m')) \<Rightarrow>
              if r \<noteq> COAP_202_DELETED then Some (Inr (r, s', m')) else delete_but objs ob keep (instances ob s') s' m')"

text \<open>
  The loop over the objects. The result of an object replaces the one before; a result other than 2.02
  does not end the loop.
\<close>

fun delete_objects ::
    "'s object_ops list \<Rightarrow> u16 \<Rightarrow> byte \<Rightarrow> 's lwm2m_context \<Rightarrow> (byte \<times> 's lwm2m_context) res" where
  "delete_objects [] keep r n = Inr (r, n)"
| "delete_objects (ob # obs) keep r n =
     bindE (if ops_id ob = 0 then
              if r \<noteq> COAP_202_DELETED then Inr (r, n)
              else bindE (ends (delete_but (object_list n) ob keep (instances ob (object_state n)) (object_state n) (memory n))) (\<lambda>(x, s, m).
                Inr (x, if x = COAP_202_DELETED then prv_tagAllServer (Some keep) (with_objects s m n) else with_objects s m n))
            else bindE (ends (object_delete (object_list n)
                \<lparr>flag = FLAG_OBJECT_ID, objectId = ops_id ob, instanceId = 0, resourceId = 0\<rparr> (object_state n) (memory n))) (\<lambda>(x, s, m).
              Inr (if x = COAP_405_METHOD_NOT_ALLOWED then COAP_202_DELETED else x, with_objects s m n))) (\<lambda>(x, n').
       delete_objects obs keep x n')"

definition bootstrap_handleDeleteAll :: "session \<Rightarrow> 's lwm2m_context \<Rightarrow> (byte \<times> 's lwm2m_context) res" where
  "bootstrap_handleDeleteAll from n =
     (case utils_findBootstrapServer from n of
        None \<Rightarrow> Inr (COAP_IGNORE, n)
      | Some srv \<Rightarrow>
          let (st, srv1) = prv_checkServerStatus srv; n0 = set_bs_status (secObjInstID srv) (status srv1) n in
          if st \<noteq> COAP_NO_ERROR then Inr (st, n0)
          else delete_objects (object_list n0) (secObjInstID srv) COAP_202_DELETED n0)"

end
