(* ===== verification/Schedule.thy ===== *)
theory Schedule
imports Transaction
begin

text \<open>
  When a transaction is sent again: the life of a single transaction over a sequence of steps of
  \<^verbatim>\<open>transaction.c\<close>, from its first transmission until it is given up.
\<close>

section \<open>The counter and the time of the next transmission\<close>

lemma retransmission_counters: "2 \<le> c \<Longrightarrow> c \<le> (6 :: byte) \<Longrightarrow> c \<in> {2, 3, 4, 5, 6}"
proof -
  assume "2 \<le> c" "c \<le> (6 :: byte)"
  then have "unat c \<in> {2, 3, 4, 5, 6}" by (auto simp: word_le_nat_alt)
  then show ?thesis by (auto simp: word_unat_eq_iff)
qed

lemma scheduled_step:
  assumes "scheduled t0 t" and "0 \<le> t0" and "t0 < 0x40000000"
  shows "now < retrans_time t \<Longrightarrow> evolve now t = Some t"
    and "retrans_time t \<le> now \<Longrightarrow> retrans_counter t \<noteq> 6 \<Longrightarrow> evolve now t = Some (retransmit now t)"
    and "retrans_time t \<le> now \<Longrightarrow> retrans_counter t = 6 \<Longrightarrow> evolve now t = None"
    and "retrans_counter t \<noteq> 6 \<Longrightarrow> scheduled t0 (retransmit now t)"
    and "retrans_counter (retransmit now t) = retrans_counter t + 1"
proof -
  note c = retransmission_counters [of "retrans_counter t"]
  show "now < retrans_time t \<Longrightarrow> evolve now t = Some t" by (simp add: evolve_def)
  show "retrans_time t \<le> now \<Longrightarrow> retrans_counter t \<noteq> 6 \<Longrightarrow> evolve now t = Some (retransmit now t)"
    "retrans_time t \<le> now \<Longrightarrow> retrans_counter t = 6 \<Longrightarrow> evolve now t = None"
    using assms c by (auto simp: evolve_def alive_def scheduled_def)
  show "retrans_counter (retransmit now t) = retrans_counter t + 1"
    using assms c by (auto simp: retransmit_def scheduled_def)
  show "retrans_counter t \<noteq> 6 \<Longrightarrow> scheduled t0 (retransmit now t)"
    using assms c by (auto simp: retransmit_def scheduled_def COAP_RESPONSE_TIMEOUT_def wrap_time_small)
qed

text \<open>The times at which a transaction is sent when the steps happen at the given times, and what is left of it.\<close>

fun fate :: "time list \<Rightarrow> 'c transaction \<Rightarrow> time list \<times> 'c transaction option" where
  "fate [] t = ([], Some t)"
| "fate (x # xs) t =
     (case evolve x t of
        None \<Rightarrow> ([], None)
      | Some t' \<Rightarrow> (let (ys, r) = fate xs t' in ((if retrans_time t \<le> x then [x] else []) @ ys, r)))"

lemma fate_quiet: "\<forall>x \<in> set xs. x < retrans_time t \<Longrightarrow> fate (xs @ ys) t = fate ys t"
  by (induction xs) (simp_all add: evolve_def)

lemma fate_resend:
  assumes "scheduled t0 t" and "0 \<le> t0" and "t0 < 0x40000000" and "retrans_counter t = c" and "c \<noteq> 6"
    and "\<forall>x \<in> set xs. x < t0 + 2 ^ unat c - 2" and "z = t0 + 2 ^ unat c - 2"
  shows "\<exists>t'. scheduled t0 t' \<and> retrans_counter t' = c + 1 \<and>
    fate (xs @ z # ys) t = (z # fst (fate ys t'), snd (fate ys t'))"
proof -
  have rt: "retrans_time t = z" using assms by (simp add: scheduled_def)
  have "fate (xs @ z # ys) t = fate (z # ys) t" using assms(6,7) rt by (intro fate_quiet) simp
  moreover have "scheduled t0 (retransmit z t)" "evolve z t = Some (retransmit z t)" "retrans_counter (retransmit z t) = c + 1"
    using scheduled_step [OF assms(1-3)] rt assms(4,5) by simp_all
  ultimately show ?thesis using rt by (auto simp: split_def Let_def)
qed

lemma fate_ends:
  assumes "scheduled t0 t" and "0 \<le> t0" and "t0 < 0x40000000" and "retrans_counter t = 6" and "\<forall>x \<in> set xs. x < t0 + 62" and "z = t0 + 62"
  shows "fate (xs @ z # ys) t = ([], None)"
proof -
  have rt: "retrans_time t = t0 + 62" using assms by (simp add: scheduled_def)
  then have "fate (xs @ z # ys) t = fate (z # ys) t" using assms(5) by (intro fate_quiet) simp
  then show ?thesis using scheduled_step(3) [OF assms(1-3)] rt assms(4,6) by simp
qed

lemma fate_first:
  assumes "retrans_counter t = 0" and "\<not> ack_received t" and "retrans_time t \<le> t0" and "0 \<le> t0" and "t0 < 0x40000000"
  shows "\<exists>t'. scheduled t0 t' \<and> retrans_counter t' = 2 \<and> fate (t0 # ys) t = (t0 # fst (fate ys t'), snd (fate ys t'))"
  using assms by (intro exI [of _ "retransmit t0 t"])
    (simp add: evolve_def alive_def retransmit_def scheduled_def COAP_RESPONSE_TIMEOUT_def split_def Let_def)

definition seconds :: "time \<Rightarrow> nat \<Rightarrow> nat \<Rightarrow> time list" where
  "seconds t0 i j = map (\<lambda>k. t0 + int k) [i..<j]"

lemma seconds_split: "i \<le> k \<Longrightarrow> k < j \<Longrightarrow> seconds t0 i j = seconds t0 i k @ (t0 + int k) # seconds t0 (Suc k) j"
proof -
  assume "i \<le> k" "k < j"
  then have "[i..<j] = [i..<k] @ k # [Suc k..<j]"
    using upt_add_eq_append [of i k "j - k"] upt_conv_Cons [of k j] by simp
  then show ?thesis by (simp add: seconds_def)
qed

lemma seconds_less: "x \<in> set (seconds t0 i j) \<Longrightarrow> x < t0 + int j"
  by (auto simp: seconds_def)

lemma fate_seconds:
  assumes "scheduled t0 t" and "0 \<le> t0" and "t0 < 0x40000000" and "retrans_counter t = c" and "c \<noteq> 6"
    and "i \<le> k" and "k < j" and "int k = 2 ^ unat c - 2"
  shows "\<exists>t'. scheduled t0 t' \<and> retrans_counter t' = c + 1 \<and>
    fate (seconds t0 i j) t = ((t0 + int k) # fst (fate (seconds t0 (Suc k) j) t'), snd (fate (seconds t0 (Suc k) j) t'))"
proof -
  have "\<forall>x \<in> set (seconds t0 i k). x < t0 + 2 ^ unat c - 2"
    unfolding add_diff_eq [symmetric] assms(8) [symmetric] using seconds_less by blast
  moreover have "t0 + int k = t0 + 2 ^ unat c - 2" using assms(8) by simp
  ultimately show ?thesis
    using fate_resend [OF assms(1-5), of "seconds t0 i k" "t0 + int k" "seconds t0 (Suc k) j"] seconds_split [OF assms(6,7), of t0]
    by simp
qed

lemma fate_schedule:
  assumes "retrans_counter t = 0" and "\<not> ack_received t" and "retrans_time t \<le> t0" and "0 \<le> t0" and "t0 < 0x40000000"
  shows "fate (seconds t0 0 63) t = ([t0, t0 + 2, t0 + 6, t0 + 14, t0 + 30], None)"
proof -
  let ?s = "\<lambda>i. seconds t0 i 63"
  note go = fate_seconds [OF _ assms(4,5)]
  have "?s 0 = t0 # ?s (Suc 0)" using seconds_split [of 0 0 63 t0] by (simp add: seconds_def)
  then obtain t1 where t1: "scheduled t0 t1" "retrans_counter t1 = 2"
      "fate (?s 0) t = (t0 # fst (fate (?s (Suc 0)) t1), snd (fate (?s (Suc 0)) t1))"
    using fate_first [OF assms] by metis
  obtain t2 where t2: "scheduled t0 t2" "retrans_counter t2 = 2 + 1"
      "fate (?s (Suc 0)) t1 = ((t0 + int 2) # fst (fate (?s (Suc 2)) t2), snd (fate (?s (Suc 2)) t2))"
    using go [OF t1(1,2), of "Suc 0" 2 63] by auto
  obtain t3 where t3: "scheduled t0 t3" "retrans_counter t3 = 2 + 1 + 1"
      "fate (?s (Suc 2)) t2 = ((t0 + int 6) # fst (fate (?s (Suc 6)) t3), snd (fate (?s (Suc 6)) t3))"
    using go [OF t2(1,2), of "Suc 2" 6 63] by auto
  obtain t4 where t4: "scheduled t0 t4" "retrans_counter t4 = 2 + 1 + 1 + 1"
      "fate (?s (Suc 6)) t3 = ((t0 + int 14) # fst (fate (?s (Suc 14)) t4), snd (fate (?s (Suc 14)) t4))"
    using go [OF t3(1,2), of "Suc 6" 14 63] by auto
  obtain t5 where t5: "scheduled t0 t5" "retrans_counter t5 = 2 + 1 + 1 + 1 + 1"
      "fate (?s (Suc 14)) t4 = ((t0 + int 30) # fst (fate (?s (Suc 30)) t5), snd (fate (?s (Suc 30)) t5))"
    using go [OF t4(1,2), of "Suc 14" 30 63] by auto
  have "fate (?s (Suc 30)) t5 = ([], None)"
    using fate_ends [OF t5(1) assms(4,5), of "seconds t0 31 62" "t0 + int 62" "seconds t0 63 63"] t5(2)
      seconds_less [of _ t0 31 62] seconds_split [of 31 62 63 t0] by auto
  then show ?thesis using t1(3) t2(3) t3(3) t4(3) t5(3) by simp
qed

lemma fate_append:
  "fate (xs @ ys) t =
     (case fate xs t of
        (zs, None) \<Rightarrow> (zs, None)
      | (zs, Some t') \<Rightarrow> (zs @ fst (fate ys t'), snd (fate ys t')))"
  by (induction xs arbitrary: t) (auto simp: split_def Let_def split: option.split)

lemma fate_times: "set (fst (fate xs t)) \<subseteq> set xs"
proof (induction xs arbitrary: t)
  case (Cons x xs)
  show ?case
  proof (cases "evolve x t")
    case (Some t')
    then show ?thesis using Cons.IH [of t'] by (auto simp: split_def Let_def)
  qed simp
qed simp

text \<open>Up to the second \<open>k\<close>, the times of the schedule that have passed.\<close>

lemma fate_schedule_until:
  assumes "retrans_counter t = 0" and "\<not> ack_received t" and "retrans_time t \<le> t0" and "0 \<le> t0" and "t0 < 0x40000000" and "k \<le> 63"
  shows "fst (fate (seconds t0 0 k) t) = map ((+) t0) (filter (\<lambda>x. x < int k) [0, 2, 6, 14, 30])"
proof -
  let ?all = "map ((+) t0) [0, 2, 6, 14, 30]"
  have split: "seconds t0 0 63 = seconds t0 0 k @ seconds t0 k 63"
    using assms(6) upt_add_eq_append [of 0 k "63 - k"] by (simp add: seconds_def)
  obtain zs where zs: "?all = fst (fate (seconds t0 0 k) t) @ zs" "set zs \<subseteq> set (seconds t0 k 63)"
  proof (cases "snd (fate (seconds t0 0 k) t)")
    case None
    then show ?thesis using that [of "[]"] fate_schedule [OF assms(1-5)] fate_append [of "seconds t0 0 k" "seconds t0 k 63" t] split
      by (auto simp: split_def split: prod.splits)
  next
    case (Some t')
    then show ?thesis using that [of "fst (fate (seconds t0 k 63) t')"] fate_times [of "seconds t0 k 63" t']
        fate_schedule [OF assms(1-5)] fate_append [of "seconds t0 0 k" "seconds t0 k 63" t] split
      by (auto simp: split_def split: prod.splits)
  qed
  have "filter (\<lambda>x. x < t0 + int k) ?all = fst (fate (seconds t0 0 k) t)"
  proof -
    have "filter (\<lambda>x. x < t0 + int k) (fst (fate (seconds t0 0 k) t)) = fst (fate (seconds t0 0 k) t)"
      using fate_times [of "seconds t0 0 k" t] seconds_less [of _ t0 0 k] by (intro filter_True) auto
    moreover have "filter (\<lambda>x. x < t0 + int k) zs = []"
      using zs(2) by (auto simp: filter_empty_conv seconds_def)
    ultimately show ?thesis unfolding zs(1) by simp
  qed
  moreover have "filter (\<lambda>x. x < t0 + int k) (map ((+) t0) zs) = map ((+) t0) (filter (\<lambda>x. x < int k) zs)" for zs
    by (simp add: filter_map o_def)
  ultimately show ?thesis by metis
qed

text \<open>Whenever the steps happen, a transaction is sent at most five times.\<close>

lemma evolve_counter:
  assumes "evolve x t = Some t'" and "retrans_time t \<le> x"
  shows "unat (retrans_counter t) \<le> 5 \<and> unat (retrans_counter t') \<ge> unat (retrans_counter t) + (if retrans_counter t = 0 then 2 else 1)"
proof -
  have "retrans_counter t \<le> 5" and t': "t' = retransmit x t" using assms by (auto simp: evolve_def alive_def split: if_splits)
  then have c: "unat (retrans_counter t) \<le> 5" by (simp add: word_le_nat_alt)
  then have "unat (retrans_counter t + 1) = unat (retrans_counter t) + 1" by (simp add: unat_add_lem [THEN iffD1])
  then show ?thesis using c t' by (simp add: retransmit_def)
qed

lemma fate_at_most: "length (fst (fate xs t)) \<le> (if retrans_counter t = 0 then 5 else 6 - unat (retrans_counter t))"
proof (induction xs arbitrary: t)
  case (Cons x xs)
  show ?case
  proof (cases "evolve x t")
    case (Some t')
    show ?thesis
    proof (cases "retrans_time t \<le> x")
      case True
      have "length (fst (fate (x # xs) t)) = 1 + length (fst (fate xs t'))" using Some True by (simp add: split_def Let_def)
      moreover have "retrans_counter t' \<noteq> 0" using evolve_counter [OF Some True] by (auto simp: unat_eq_0 split: if_splits)
      ultimately show ?thesis using evolve_counter [OF Some True] Cons.IH [of t'] by (auto split: if_splits)
    next
      case False
      then show ?thesis using Some Cons.IH [of t] by (auto simp: evolve_def split_def Let_def)
    qed
  qed simp
qed simp

lemma steps_at_none:
  "transactionList n = [] \<Longrightarrow> \<exists>n'. steps_at run xs n = Inr n' \<and> transactionList n' = [] \<and> sent n' = sent n"
proof (induction xs arbitrary: n)
  case (Cons x xs)
  then show ?case using Cons.IH [of "n\<lparr>clock := x\<rparr>"] by (simp add: transaction_step_def)
qed simp

context transaction_callbacks
begin

lemma steps_at_fate:
  assumes "transactions_ok n" and "transactionList n = [t]" and "ready valid n t" and "link n = []"
    and "\<forall>x \<in> set xs. 0 \<le> x \<and> x + COAP_RESPONSE_TIMEOUT < 0x80000000"
  shows "\<exists>n'. steps_at run xs n = Inr n' \<and>
    transactionList n' = (case snd (fate xs t) of None \<Rightarrow> [] | Some t' \<Rightarrow> [t']) \<and>
    sent n' = sent n @ map (\<lambda>_. (peerH t, the (pkt_buffer t))) (fst (fate xs t))"
  using assms
proof (induction xs arbitrary: n t)
  case (Cons x xs)
  let ?n = "n\<lparr>clock := x\<rparr>"
  have frame: "valid d ?n = valid d n" for d by (rule valid_frame) simp
  have ok: "transactions_ok ?n" using Cons.prems(1) by (simp add: transactions_ok_def)
  have rdy: "\<forall>t \<in> set (transactionList ?n). ready valid ?n t" using Cons.prems(2,3) frame by (simp add: ready_def)
  from step_effect [OF ok rdy, of 60] Cons.prems(5) obtain tm n1 where n1:
    "transaction_step run x 60 ?n = Inr (tm, n1)" "transactionList n1 = List.map_filter (evolve x) [t]" "transactions_ok n1"
    "link ?n = [] \<longrightarrow> link n1 = [] \<and> sent n1 = sent ?n @ datagrams x [t]" "\<forall>t \<in> set (transactionList n1). ready valid n1 t"
    using Cons.prems(2) by auto
  show ?case
  proof (cases "evolve x t")
    case None
    obtain n' where "steps_at run xs n1 = Inr n'" "transactionList n' = []" "sent n' = sent n1"
      using steps_at_none [of n1] n1(2) None by (auto simp: map_filter_simps)
    moreover have "datagrams x [t] = []" using None by (auto simp: datagrams_def evolve_def split: if_splits)
    ultimately show ?thesis using None n1 Cons.prems(4) by simp
  next
    case (Some t')
    have "transactionList n1 = [t']" using n1(2) Some by (simp add: map_filter_simps)
    moreover from this have "ready valid n1 t'" using n1(5) by simp
    ultimately obtain n' where n': "steps_at run xs n1 = Inr n'"
      "transactionList n' = (case snd (fate xs t') of None \<Rightarrow> [] | Some t' \<Rightarrow> [t'])"
      "sent n' = sent n1 @ map (\<lambda>_. (peerH t', the (pkt_buffer t'))) (fst (fate xs t'))"
      using Cons.IH [OF n1(3)] n1(4) Cons.prems(4,5) by auto
    have "peerH t' = peerH t" "pkt_buffer t' = pkt_buffer t" "datagrams x [t] = (if retrans_time t \<le> x then [(peerH t, the (pkt_buffer t))] else [])"
      using Some by (auto simp: evolve_def datagrams_def split: if_splits)
    then show ?thesis using Some n1 n' Cons.prems(4) by (simp add: split_def Let_def)
  qed
qed simp

end

end
