(* ===== verification/Client_Transactions.thy ===== *)
theory Client_Transactions
imports Bootstrap Schedule
begin

text \<open>
  The callbacks of the client keep the contract of \<open>transaction_callbacks\<close>, and what follows for its transactions: the
  effect of a step and of an answer, and the times at which a request is sent again.
\<close>

section \<open>The callbacks\<close>

lemma find_key: "i \<in> f ` set xs \<Longrightarrow> \<exists>x. find (\<lambda>x. f x = i) xs = Some x \<and> f x = i \<and> x \<in> set xs"
  by (induction xs) auto

lemma get_server_live: "i \<in> secObjInstID ` set (serverList n) \<Longrightarrow> \<exists>s. get_server i n = Inr s"
  using find_key [of i secObjInstID "serverList n"] by (auto simp: get_server_def)

lemma get_bootstrap_server_live: "i \<in> secObjInstID ` set (bootstrapServerList n) \<Longrightarrow> \<exists>s. get_bootstrap_server i n = Inr s"
  using find_key [of i secObjInstID "bootstrapServerList n"] by (auto simp: get_bootstrap_server_def)

fun live :: "reply_handler \<Rightarrow> 's lwm2m_context \<Rightarrow> bool" where
  "live (Registration_reply i) n \<longleftrightarrow> i \<in> secObjInstID ` set (serverList n)"
| "live (Update_reply i) n \<longleftrightarrow> i \<in> secObjInstID ` set (serverList n)"
| "live Deregistration_reply n \<longleftrightarrow> False"
| "live (Bootstrap_reply i) n \<longleftrightarrow> i \<in> secObjInstID ` set (bootstrapServerList n)"
| "live Dangling_reply n \<longleftrightarrow> False"

text \<open>A write to a server that keeps its id.\<close>

lemma ids_set_in: "\<forall>s. secObjInstID (f s) = secObjInstID s \<Longrightarrow> map secObjInstID (set_in i f xs) = map secObjInstID xs"
  by (induction xs) (simp_all add: set_in_def)

lemma ids_image: "map f xs = map g ys \<Longrightarrow> f ` set xs = g ` set ys"
  by (metis image_set)

text \<open>What no callback touches, and the servers it leaves in place.\<close>

definition steady :: "'s lwm2m_context \<Rightarrow> 's lwm2m_context \<Rightarrow> bool" where
  "steady n n' \<longleftrightarrow>
     transactionList n' = transactionList n \<and> ctx_protocol n' = ctx_protocol n \<and> next_ref n' = next_ref n \<and>
     nextMID n' = nextMID n \<and> clock n' = clock n \<and> link n' = link n \<and> sent n' = sent n \<and>
     map secObjInstID (serverList n') = map secObjInstID (serverList n) \<and>
     map secObjInstID (bootstrapServerList n') = map secObjInstID (bootstrapServerList n)"

lemma steady_refl [simp]: "steady n n"
  by (simp add: steady_def)

lemma steady_trans: "steady a b \<Longrightarrow> steady b c \<Longrightarrow> steady a c"
  by (simp add: steady_def)

lemma steady_set_server:
  "\<forall>s. secObjInstID (f s) = secObjInstID s \<Longrightarrow> steady n (set_server i f n)"
  "\<forall>s. secObjInstID (f s) = secObjInstID s \<Longrightarrow> steady n (set_bootstrap_server i f n)"
  "steady n (n\<lparr>memory := m\<rparr>)"
  by (simp_all add: steady_def set_server_def set_bootstrap_server_def ids_set_in)

lemma callback_steady: "client_callback c p n = Inr n' \<Longrightarrow> steady n n'"
proof (cases c)
  case (Registration_reply i)
  assume "client_callback c p n = Inr n'"
  then have r: "prv_handleRegistrationReply i p n = Inr n'" using Registration_reply by simp
  show ?thesis
    using r unfolding prv_handleRegistrationReply_def Let_def
    by (auto elim!: bindE_Inr_E intro!: steady_set_server steady_trans [OF steady_set_server(1) steady_set_server(1)]
        steady_trans [OF steady_set_server(3) steady_set_server(1)]
        steady_trans [OF steady_set_server(1) steady_trans [OF steady_set_server(3) steady_set_server(1)]]
        split: if_splits option.splits prod.splits)
next
  case (Update_reply i)
  assume "client_callback c p n = Inr n'"
  then have r: "prv_handleRegistrationUpdateReply i p n = Inr n'" using Update_reply by simp
  show ?thesis
    using r unfolding prv_handleRegistrationUpdateReply_def Let_def
    by (auto elim!: bindE_Inr_E intro!: steady_set_server steady_trans [OF steady_set_server(1) steady_set_server(1)]
        split: if_splits)
next
  case (Bootstrap_reply i)
  assume "client_callback c p n = Inr n'"
  then have r: "prv_handleBootstrapReply i p n = Inr n'" using Bootstrap_reply by simp
  show ?thesis
    using r unfolding prv_handleBootstrapReply_def Let_def
    by (auto elim!: bindE_Inr_E intro!: steady_set_server split: if_splits)
qed (simp_all add: prv_handleDeregistrationReply_def)

lemma live_steady: "steady n n' \<Longrightarrow> live d n' = live d n"
  by (cases d) (auto simp: steady_def dest: ids_image)

lemma readable_string:
  "readable (Some q) \<Longrightarrow> coap_get_multi_option_as_string (location_path q) m = Inl e \<Longrightarrow> False"
  by (auto simp: readable_def coap_get_multi_option_as_string_def not_less split: prod.splits bool.splits if_splits)

lemma callback_defined:
  assumes "live c n" and "readable p"
  shows "\<exists>n'. client_callback c p n = Inr n'"
proof (cases c)
  case (Registration_reply i)
  then obtain s where s: "get_server i n = Inr s" using assms(1) get_server_live by auto
  show ?thesis
    using assms(2) readable_string unfolding Registration_reply client_callback.simps prv_handleRegistrationReply_def s Let_def
    by (cases p) (auto simp: bindE_def split: prod.split sum.split)
next
  case (Update_reply i)
  then obtain s where "get_server i n = Inr s" using assms(1) get_server_live by auto
  then show ?thesis by (simp add: Update_reply prv_handleRegistrationUpdateReply_def Let_def)
next
  case (Bootstrap_reply i)
  then obtain s where "get_bootstrap_server i n = Inr s" using assms(1) get_bootstrap_server_live by auto
  then show ?thesis by (simp add: Bootstrap_reply prv_handleBootstrapReply_def Let_def)
qed (use assms in simp_all)

lemma live_frame: "net.more n' = net.more n \<Longrightarrow> live d n' = live d (n :: 's lwm2m_context)"
  by (cases n; cases n'; cases d) auto

interpretation client: transaction_callbacks client_callback live
proof
  show "\<exists>n'. client_callback c p n = Inr n'" if "live c n" "readable p" for c p and n :: "'s lwm2m_context"
    using callback_defined that by blast
  show "transactionList n' = transactionList n \<and> ctx_protocol n' = ctx_protocol n \<and> next_ref n' = next_ref n \<and>
      nextMID n' = nextMID n \<and> clock n' = clock n \<and> link n' = link n \<and> sent n' = sent n"
    if "client_callback c p n = Inr n'" for c p and n n' :: "'s lwm2m_context"
    using callback_steady [OF that] by (simp add: steady_def)
  show "live d n' = live d n" if "client_callback c p n = Inr n'" for c p d and n n' :: "'s lwm2m_context"
    using live_steady [OF callback_steady [OF that]] .
  show "live d n' = live d n" if "net.more n' = net.more n" for d and n n' :: "'s lwm2m_context"
    using live_frame [OF that] .
qed


section \<open>Properties\<close>

text \<open>A client with one server and nothing to do, and a request to that server.\<close>

definition idle_client :: "unit lwm2m_context" where
  "idle_client = \<lparr>transactionList = [], nextMID = 7, ctx_protocol = COAP_UDP, next_ref = 1, clock = 1000, link = [], sent = [],
     memory = [], object_state = (), object_list = [], endpointName = Some (bytes ''board''), msisdn = None, altPath = None,
     serverList = [(new_server 0)\<lparr>status := STATE_REG_PENDING, sessionH := Some 3\<rparr>], bootstrapServerList = [],
     client_state = STATE_REGISTERING, observedList = [], connects = [], closed = []\<rparr>"

definition ex_transaction :: "reply_handler transaction" where
  "ex_transaction = \<lparr>ref = 0, mID = 6, peerH = 3, ack_received = False, response_timeout = 0, retrans_counter = 0, retrans_time = 0,
     message = coap_init_message COAP_UDP COAP_TYPE_CON COAP_POST 6, pkt_buffer = Some [0x40, 2, 0, 6],
     callback = Some (Registration_reply 0)\<rparr>"

definition ex_client :: "unit lwm2m_context" where
  "ex_client = idle_client\<lparr>transactionList := [ex_transaction]\<rparr>"

lemmas ex_client_defs = ex_client_def idle_client_def ex_transaction_def new_server_def

lemma ex_client_ok:
  "transactions_ok ex_client" "transactionList ex_client = [ex_transaction]" "ready live ex_client ex_transaction" "link ex_client = []"
  "clock ex_client = 1000" "ctx_protocol ex_client = COAP_UDP" "sent ex_client = []"
  by (simp_all add: transactions_ok_def ready_def ids_ascending_def ex_client_defs)



text \<open>
  C10. A request that is never answered, with one step in each second: it is sent at once and after 2, 6, 14 and
  30 seconds, five times in all, and given up after 62 seconds.
\<close>

theorem client_retransmissions:
  fixes n :: "'s lwm2m_context"
  assumes "transactions_ok n" and "transactionList n = [t]" and "ready live n t" and "link n = []"
    and "retrans_counter t = 0" and "\<not> ack_received t" and "retrans_time t \<le> t0" and "0 \<le> t0" and "t0 < 0x40000000" and "k \<le> 63"
  shows "\<exists>n'. steps_at client_callback (seconds t0 0 k) n = Inr n' \<and>
    sent n' = sent n @ map (\<lambda>_. (peerH t, the (pkt_buffer t))) (filter (\<lambda>x. x < int k) [0, 2, 6, 14, 30]) \<and>
    (k = 63 \<longrightarrow> transactionList n' = [])"
proof -
  have "\<forall>x \<in> set (seconds t0 0 k). 0 \<le> x \<and> x + COAP_RESPONSE_TIMEOUT < 0x80000000"
    using assms(8-10) by (auto simp: seconds_def COAP_RESPONSE_TIMEOUT_def)
  from client.steps_at_fate [OF assms(1-4) this] show ?thesis
    using fate_schedule_until [OF assms(5-10)] fate_schedule [OF assms(5-9)] by (auto simp: o_def)
qed

theorem client_retransmissions_witness:
  "\<exists>n'. steps_at client_callback (seconds 1000 0 7) ex_client = Inr n' \<and> sent n' = replicate 3 (3, [0x40, 2, 0, 6])"
proof -
  have "retrans_counter ex_transaction = 0" "\<not> ack_received ex_transaction" "retrans_time ex_transaction \<le> 1000"
    "peerH ex_transaction = 3" "pkt_buffer ex_transaction = Some [0x40, 2, 0, 6]"
    by (simp_all add: ex_transaction_def)
  then show ?thesis
    using client_retransmissions [OF ex_client_ok(1-4), of 1000 7] ex_client_ok(7) by (auto simp: numeral_3_eq_3)
qed


text \<open>The acknowledgement of the request with the code 2.01 and the location \<^verbatim>\<open>/rd/5\<close>.\<close>

definition ex_created :: coap_packet where
  "ex_created = (coap_init_message COAP_UDP COAP_TYPE_ACK COAP_201_CREATED 6)
     \<lparr>location_path := [segment_option (bytes ''rd''), segment_option (bytes ''5'')]\<rparr>"




end
