(* ===== verification/Exchange.thy ===== *)
theory Exchange
imports Client_Transactions Coap_Bounds
begin

text \<open>
  A request of the client from end to end: the message that is made, the datagram that is sent, and what a parser
  reads out of it.
\<close>

section \<open>A new transaction in the list\<close>

lemma put_add:
  assumes "\<forall>x \<in> set xs. ref x \<noteq> ref t" and "ref t' = ref t" and "mID t' = mID t"
  shows "map (\<lambda>x. if ref x = ref t' then t' else x) (lwm2m_list_add mID xs t) = lwm2m_list_add mID xs t'"
proof -
  have id: "map (\<lambda>x. if ref x = ref t then t' else x) ys = ys" if "\<forall>x \<in> set ys. ref x \<noteq> ref t" for ys
    using that by (intro map_idI) auto
  have "map (\<lambda>x. if ref x = ref t then t' else x) (add_after mID ys t) = add_after mID ys t'" if "\<forall>x \<in> set ys. ref x \<noteq> ref t" for ys
    using that assms(3) id by (induction ys) auto
  then show ?thesis using assms id by (cases xs) auto
qed

lemma get_added:
  assumes "\<forall>x \<in> set xs. ref x \<noteq> ref t"
  shows "find (\<lambda>x. ref x = ref t) (lwm2m_list_add mID xs t) = Some t"
proof -
  have "find (\<lambda>x. ref x = ref t) (add_after mID ys t) = Some t" if "\<forall>x \<in> set ys. ref x \<noteq> ref t" for ys
    using that by (induction ys) auto
  then show ?thesis using assms by (cases xs) auto
qed

lemma payload_ended_add:
  assumes "\<forall>x \<in> set xs. ref x \<noteq> ref t" and "f t = t'" and "ref t' = ref t" and "mID t' = mID t"
    and "\<forall>x. ref x \<noteq> ref t \<longrightarrow> f x = x"
  shows "map f (lwm2m_list_add mID xs t) = lwm2m_list_add mID xs t'"
proof -
  have "map f (lwm2m_list_add mID xs t) = map (\<lambda>x. if ref x = ref t' then t' else x) (lwm2m_list_add mID xs t)"
  proof (rule map_cong [OF refl])
    fix x assume "x \<in> set (lwm2m_list_add mID xs t)"
    then show "f x = (if ref x = ref t' then t' else x)" using assms by (auto simp: set_list_add)
  qed
  then show ?thesis using put_add [OF assms(1,3,4)] by simp
qed

section \<open>A request that is sent\<close>

text \<open>A transaction that was never sent.\<close>

definition fresh :: "'c transaction \<Rightarrow> bool" where
  "fresh t \<longleftrightarrow> pkt_buffer t = None \<and> \<not> ack_received t \<and> retrans_counter t = 0"

text \<open>A client or server whose network and memory are there, at a time that does not overflow.\<close>

definition ready_client :: "('c, 'z) net_scheme \<Rightarrow> bool" where
  "ready_client n \<longleftrightarrow> ctx_protocol n \<in> {COAP_UDP, COAP_UDP_DTLS} \<and> memory n = [] \<and> link n = [] \<and>
     0 \<le> clock n \<and> clock n < 0x40000000 \<and> (\<forall>t \<in> set (transactionList n). ref t < next_ref n)"

lemma serialized_keeps:
  "coap_serialize_message p = Inr (b, p') \<Longrightarrow> code p' = code p \<and> pkt_token p' = pkt_token p \<and> options p' = options p"
  by (auto simp: coap_serialize_message_def coap_free_header_def elim!: bindE_Inr_E)

lemma transaction_sent:
  fixes n :: "('c, 'z) net_scheme"
  assumes n: "ready_client n" and f: "fresh t" "\<forall>x \<in> set (transactionList n). ref x \<noteq> ref t"
    and p: "sendable p" "sized p" "packet_limits p" "IS_OPTION p COAP_OPTION_CONTENT_TYPE \<or> payload_len p = 0"
      "coap_serialize_get_size p < 65536"
  shows "\<exists>b p' t'. coap_serialize_message p = Inr (b, p') \<and>
    bindE (transaction_send run (ref t) (transaction_add (t\<lparr>message := p, callback := c\<rparr>) n)) (\<lambda>(r, n'). Inr (r, end_payload (ref t) n'))
      = Inr (0, n\<lparr>transactionList := lwm2m_list_add mID (transactionList n) t', sent := sent n @ [(peerH t, b)]\<rparr>) \<and>
    ref t' = ref t \<and> mID t' = mID t \<and> peerH t' = peerH t \<and> callback t' = c \<and> pkt_buffer t' = Some b \<and>
    code (message t') = code p \<and> pkt_token (message t') = pkt_token p \<and> options (message t') = options p \<and>
    retrans_time t' = clock n + COAP_RESPONSE_TIMEOUT \<and> retrans_counter t' = 2 \<and> \<not> ack_received t'"
proof -
  obtain b p' where b: "coap_serialize_message p = Inr (b, p')" "length b \<le> coap_serialize_get_size p"
    using message_fits [OF p(1-3)] p(4) by auto
  have nz: "b \<noteq> []" using message_encoded [OF p(1)] b(1) by (auto simp: udp_header_def)
  have "unat (word_of_nat k :: u16) = k" if "k < 65536" for k using that by (simp add: unat_of_nat)
  then have sz: "unat (word_of_nat (coap_serialize_get_size p) :: u16) = coap_serialize_get_size p" "coap_serialize_get_size p \<noteq> 0"
    using p(5) by (blast, simp add: coap_serialize_get_size_def)
  then have sz0: "(word_of_nat (coap_serialize_get_size p) :: u16) \<noteq> 0" by (metis unat_0)
  have size: "packet_size (ctx_protocol n) p = (coap_serialize_get_size p, p)"
    using n by (auto simp: ready_client_def packet_size_def)
  have wr: "write_packet (ctx_protocol n) (coap_serialize_get_size p) p [] = Inr (b, p', [])"
    using n b by (auto simp: ready_client_def write_packet_def)
  let ?t0 = "t\<lparr>message := p, callback := c\<rparr>" and ?xs = "transactionList n"
  let ?t1 = "?t0\<lparr>message := p', pkt_buffer := Some b\<rparr>"
  let ?t2 = "?t1\<lparr>retrans_time := clock n + COAP_RESPONSE_TIMEOUT, retrans_counter := 2\<rparr>"
  let ?n0 = "transaction_add ?t0 n"
  have xs: "\<forall>x \<in> set ?xs. ref x \<noteq> ref ?t0" using f(2) by simp
  have get: "get_transaction (ref t) ?n0 = Some ?t0"
    using get_added [OF xs] by (simp add: get_transaction_def transaction_add_def)
  have put: "put_transaction u n' = n'\<lparr>transactionList := lwm2m_list_add mID ?xs u\<rparr>"
    if "transactionList n' = lwm2m_list_add mID ?xs v" "ref u = ref t" "mID u = mID t" "ref v = ref t" "mID v = mID t"
    for u v and n' :: "('c, 'z) net_scheme"
    using put_add [of ?xs v u] f(2) that by (simp add: put_transaction_def)
  let ?n1 = "n\<lparr>transactionList := lwm2m_list_add mID ?xs ?t1\<rparr>"
  have same: "?n0\<lparr>memory := []\<rparr> = ?n0" using n by (simp add: ready_client_def transaction_add_def)
  have "put_transaction ?t1 (?n0\<lparr>memory := []\<rparr>) = ?n1"
    unfolding same using put [of ?n0 ?t0 ?t1] by (simp add: transaction_add_def)
  moreover have "memory ?n0 = []" "ctx_protocol ?n0 = ctx_protocol n"
    using n by (simp_all add: ready_client_def transaction_add_def)
  ultimately have prep: "prepare_buffer ?t0 ?n0 = Inr (None, ?t1, ?n1)"
    using f(1) size wr sz sz0 nz by (simp add: prepare_buffer_def fresh_def Let_def)
  have clk: "0 \<le> clock n" "add_time (clock n) COAP_RESPONSE_TIMEOUT = Inr (clock n + COAP_RESPONSE_TIMEOUT)"
      "wrap_time (clock n + COAP_RESPONSE_TIMEOUT) = clock n + COAP_RESPONSE_TIMEOUT"
    using n by (simp_all add: ready_client_def add_time_def wrap_time_small COAP_RESPONSE_TIMEOUT_def)
  have first: "first_transmission ?t1 ?n1 = Inr (?t1\<lparr>retrans_time := clock n + COAP_RESPONSE_TIMEOUT, retrans_counter := 1\<rparr>, 0)"
    using f(1) clk(1,2) by (simp add: first_transmission_def fresh_def)
  let ?n2 = "?n1\<lparr>sent := sent n @ [(peerH t, b)]\<rparr>"
  have send: "lwm2m_buffer_send (Some (peerH t)) b ?n1 = (COAP_NO_ERROR, ?n2)"
    using n by (simp add: lwm2m_buffer_send_def ready_client_def)
  have "put_transaction ?t2 ?n2 = n\<lparr>transactionList := lwm2m_list_add mID ?xs ?t2, sent := sent n @ [(peerH t, b)]\<rparr>"
    using put [of ?n2 ?t1 ?t2] by simp
  then have "transmit run ?t1 b ?n1
      = Inr (0, n\<lparr>transactionList := lwm2m_list_add mID ?xs ?t2, sent := sent n @ [(peerH t, b)]\<rparr>)"
    using first send clk f(1) by (simp add: transmit_def fresh_def COAP_MAX_RETRANSMIT_def)
  then have sent: "transaction_send run (ref t) ?n0
      = Inr (0, n\<lparr>transactionList := lwm2m_list_add mID ?xs ?t2, sent := sent n @ [(peerH t, b)]\<rparr>)"
    using get prep by (simp add: transaction_send_def)
  define t' where "t' = (if payload (message ?t2) \<noteq> None then ?t2\<lparr>message := (message ?t2)\<lparr>payload := Some []\<rparr>\<rparr> else ?t2)"
  have "map (\<lambda>x. if ref x = ref t \<and> payload (message x) \<noteq> None then x\<lparr>message := (message x)\<lparr>payload := Some []\<rparr>\<rparr> else x)
      (lwm2m_list_add mID ?xs ?t2) = lwm2m_list_add mID ?xs t'"
    by (rule payload_ended_add) (use f(2) in \<open>auto simp: t'_def\<close>)
  then have "bindE (transaction_send run (ref t) ?n0) (\<lambda>(r, n'). Inr (r, end_payload (ref t) n'))
      = Inr (0, n\<lparr>transactionList := lwm2m_list_add mID (transactionList n) t', sent := sent n @ [(peerH t, b)]\<rparr>)"
    using sent by (simp add: end_payload_def)
  then show ?thesis using b(1) f(1) serialized_keeps [OF b(1)]
    by (intro exI [of _ b] exI [of _ p'] exI [of _ t']) (simp add: t'_def fresh_def)
qed

lemma request_sent:
  assumes n: "ready_client n" and f: "fresh t" "\<forall>x \<in> set (transactionList n). ref x \<noteq> ref t"
    and p: "sendable p" "sized p" "packet_limits p" "IS_OPTION p COAP_OPTION_CONTENT_TYPE \<or> payload_len p = 0"
      "coap_serialize_get_size p < 65536"
  shows "\<exists>b p' t'. coap_serialize_message p = Inr (b, p') \<and>
    add_and_send t p c n = Inr (0, n\<lparr>transactionList := lwm2m_list_add mID (transactionList n) t', sent := sent n @ [(peerH t, b)]\<rparr>) \<and>
    ref t' = ref t \<and> mID t' = mID t \<and> peerH t' = peerH t \<and> callback t' = Some c \<and> pkt_buffer t' = Some b \<and>
    code (message t') = code p \<and> pkt_token (message t') = pkt_token p \<and> options (message t') = options p \<and>
    retrans_time t' = clock n + COAP_RESPONSE_TIMEOUT \<and> retrans_counter t' = 2 \<and> \<not> ack_received t'"
  using transaction_sent [OF assms, of client_callback "Some c"] by (simp add: add_and_send_def)

section \<open>The text of a query and its options\<close>

fun joined :: "'b \<Rightarrow> 'b list list \<Rightarrow> 'b list" where
  "joined sep [] = []"
| "joined sep [v] = v"
| "joined sep (v # w # vs) = v @ sep # joined sep (w # vs)"

lemma joined_nonempty: "parts \<noteq> [] \<Longrightarrow> last parts \<noteq> [] \<Longrightarrow> joined sep parts \<noteq> []"
  by (induction sep parts rule: joined.induct) auto

lemma joined_snoc: "xs \<noteq> [] \<Longrightarrow> joined sep (xs @ [v]) = joined sep xs @ sep # v"
  by (induction sep xs rule: joined.induct) auto

lemma set_joined: "set (joined sep parts) \<subseteq> insert sep (\<Union> (set ` set parts))"
  by (induction sep parts rule: joined.induct) auto

lemma takeWhile_until: "sep \<notin> set v \<Longrightarrow> takeWhile (\<lambda>b. b \<noteq> sep) (v @ sep # w) = v" "sep \<notin> set v \<Longrightarrow> takeWhile (\<lambda>b. b \<noteq> sep) v = v"
  by (induction v) auto

lemma add_segments_parts:
  assumes "parts \<noteq> []" and "last parts \<noteq> []" and "\<forall>v \<in> set parts. sep \<notin> set v"
  shows "\<exists>k. add_segments sep (joined sep parts) opts [] = Inr (opts @ map segment_option parts, k, [])"
  using assms
proof (induction sep parts arbitrary: opts rule: joined.induct)
  case (2 sep v)
  then have tw: "takeWhile (\<lambda>b. b \<noteq> sep) v = v" using takeWhile_until(2) by auto
  show ?case unfolding joined.simps
    by (subst add_segments.simps) (simp add: tw Let_def coap_add_multi_option_def segment_option_def)
next
  case (3 sep v w vs)
  let ?r = "joined sep (w # vs)"
  have tw: "takeWhile (\<lambda>b. b \<noteq> sep) (v @ sep # ?r) = v" using 3(4) takeWhile_until(1) by auto
  have ne: "?r \<noteq> []" using joined_nonempty [of "w # vs" sep] 3(3) by auto
  obtain k where "add_segments sep ?r (opts @ [segment_option v]) [] = Inr ((opts @ [segment_option v]) @ map segment_option (w # vs), k, [])"
    using 3(1) [of "opts @ [segment_option v]"] 3(3,4) by auto
  then show ?case unfolding joined.simps using ne
    by (subst add_segments.simps) (simp add: tw Let_def coap_add_multi_option_def segment_option_def)
qed simp

lemma query_add_fits: "length out + length s < cap \<Longrightarrow> query_add cap s out = Inr (Some (out @ s))"
  by (simp add: query_add_def query_copy_def utils_stringCopy_def)

lemma nat_text_10:
  assumes "d < 2147483648"
  shows "length (nat_text d) \<le> 10" and "text_digits 10 d [] = (10 - int (length (nat_text d)), 0, nat_text d)"
proof -
  have "nat (10 + 1) = 11" by simp
  moreover have "int d < 10 ^ 11" using assms by simp
  ultimately have d: "int d < 10 ^ nat (10 + 1)" by simp
  show t: "text_digits 10 d [] = (10 - int (length (nat_text d)), 0, nat_text d)"
    using text_digits_nat_text [OF d] by simp
  obtain ds where "text_digits 10 d [] = (10 - int (length ds), 0, ds)" "10 ^ (length ds - 1) \<le> max 1 d"
    using text_digits_decimal [OF d, of "[]"] by auto
  then have "(10::nat) ^ (length (nat_text d) - 1) < 10 ^ 10" using t assms by (auto split: if_splits simp: max_def)
  then show "length (nat_text d) \<le> 10" by (simp only: power_strict_increasing_iff)
qed

lemma int_copy_decimal:
  assumes "0 \<le> v" and "v < 2147483648" and "11 < room"
  shows "utils_intCopy room (word_of_int v) = Inr (Some (nat_text (nat v) @ [0]))"
proof -
  have "sint (word_of_int v :: u32) = v"
    using assms by (simp add: sint_sbintrunc' signed_take_bit_int_eq_self)
  then have v: "sint (scast (word_of_int v :: u32) :: i64) = v" by (simp add: sint_up_scast is_up)
  have d: "nat v < 2147483648" using assms by simp
  have ne: "nat_text (nat v) \<noteq> []" using nat_text_digits by blast
  then show ?thesis
    using nat_text_10 [OF d] assms by (simp add: utils_intCopy_def utils_intToText_def v Let_def)
qed


section \<open>The query of a registration\<close>

definition binding_part :: "lwm2m_binding \<Rightarrow> byte list" where
  "binding_part b = (case query_binding b of None \<Rightarrow> [] | Some t \<Rightarrow> tl t)"

definition registration_parts :: "byte list \<Rightarrow> byte list option \<Rightarrow> lwm2m_server \<Rightarrow> byte list list" where
  "registration_parts name num srv =
     [bytes ''lwm2m=1.0'', bytes ''ep='' @ name] @ (case num of None \<Rightarrow> [] | Some k \<Rightarrow> [bytes ''sms='' @ k]) @
     [binding_part (binding srv)] @ (if lifetime srv = 0 then [] else [bytes ''lt='' @ nat_text (nat (lifetime srv))])"

definition plain_text :: "byte list \<Rightarrow> bool" where
  "plain_text t \<longleftrightarrow> 0 \<notin> set t \<and> of_char CHR ''&'' \<notin> set t"

lemma binding_part:
  assumes "query_binding b = Some t"
  shows "t = of_char CHR ''&'' # binding_part b" and "binding_part b \<noteq> []" and "plain_text (binding_part b)" and "length t \<le> 6"
proof -
  show "t = of_char CHR ''&'' # binding_part b" "binding_part b \<noteq> []" "length t \<le> 6"
    using assms by (cases b; auto simp: query_binding_def binding_part_def bytes_def)+
  show "plain_text (binding_part b)"
    using assms by (cases b) (auto simp: query_binding_def binding_part_def bytes_def plain_text_def)
qed

lemma digits_plain: "plain_text (nat_text d)"
proof -
  have "is_digit_byte c" if "c \<in> set (nat_text d)" for c
    using nat_text_digits [of d] that by (auto simp: list_all_iff)
  moreover have "\<not> is_digit_byte 0" "\<not> is_digit_byte (of_char CHR ''&'')" by (simp_all add: is_digit_byte_def)
  ultimately show ?thesis unfolding plain_text_def by blast
qed

lemma plain_parts:
  assumes "query_binding (binding srv) \<noteq> None" and "plain_text name" and "\<forall>k. num = Some k \<longrightarrow> plain_text k"
  shows "v \<in> set (registration_parts name num srv) \<Longrightarrow> plain_text v" and "registration_parts name num srv \<noteq> []"
    and "last (registration_parts name num srv) \<noteq> []"
  using assms binding_part [of "binding srv"] digits_plain [of "nat (lifetime srv)"]
  by (auto simp: registration_parts_def plain_text_def bytes_def split: option.splits if_splits)

lemma query_text:
  assumes n: "\<not> is_tcp (ctx_protocol n)" "memory n = []" and ep: "endpointName n = Some name"
    and b: "query_binding (binding srv) \<noteq> None" and l: "0 \<le> lifetime srv" "lifetime srv < 0x80000000"
    and len: "length name + (case msisdn n of None \<Rightarrow> 0 | Some k \<Rightarrow> length k) \<le> 150"
  shows "register_query n srv
      = Inr (Some (of_char CHR ''?'' # joined (of_char CHR ''&'') (registration_parts name (msisdn n) srv)), [])"
proof -
  let ?amp = "of_char CHR ''&'' :: byte"
  define head where "head = bytes ''?lwm2m=1.0&ep='' @ name @ (case msisdn n of None \<Rightarrow> [] | Some k \<Rightarrow> bytes ''&sms='' @ k)"
  obtain t where t: "query_binding (binding srv) = Some t" using b by blast
  note bp = binding_part [OF t]
  have hl: "length head + length t \<le> 176" "length head \<le> 169"
    using len bp(4) by (auto simp: head_def bytes_def split: option.splits)
  have "prv_getRegistrationQuery n srv 200 = bindE (query_add 200 t head) (\<lambda>r. Inr (r, []))"
    using n ep t len
    by (cases "msisdn n") (simp_all add: prv_getRegistrationQuery_def query_add_fits head_def bytes_def)
  then have q: "prv_getRegistrationQuery n srv 200 = Inr (Some (head @ t), [])"
    using hl by (simp add: query_add_fits)
  have j: "of_char CHR ''?'' # joined ?amp (registration_parts name (msisdn n) (srv\<lparr>lifetime := 0\<rparr>)) = head @ t"
    by (cases "msisdn n") (simp_all add: registration_parts_def head_def bytes_def bp(1))
  show ?thesis
  proof (cases "lifetime srv = 0")
    case True
    then have same: "srv\<lparr>lifetime := 0\<rparr> = srv" by simp
    show ?thesis using q True j [unfolded same] by (simp add: register_query_def)
  next
    case False
    let ?base = "registration_parts name (msisdn n) (srv\<lparr>lifetime := 0\<rparr>)"
    have "?base \<noteq> []" by (simp add: registration_parts_def)
    then have "joined ?amp (?base @ [bytes ''lt='' @ nat_text (nat (lifetime srv))])
        = joined ?amp ?base @ ?amp # bytes ''lt='' @ nat_text (nat (lifetime srv))"
      by (rule joined_snoc)
    moreover have "registration_parts name (msisdn n) srv = ?base @ [bytes ''lt='' @ nat_text (nat (lifetime srv))]"
      using False by (simp add: registration_parts_def)
    ultimately have "joined ?amp (registration_parts name (msisdn n) srv)
        = joined ?amp ?base @ ?amp # bytes ''lt='' @ nat_text (nat (lifetime srv))"
      by simp
    then have "of_char CHR ''?'' # joined ?amp (registration_parts name (msisdn n) srv)
        = (head @ t) @ ?amp # bytes ''lt='' @ nat_text (nat (lifetime srv))"
      unfolding j [symmetric] by simp
    moreover have "query_add 200 (bytes ''&lt='') (head @ t) = Inr (Some ((head @ t) @ bytes ''&lt=''))"
      using hl by (intro query_add_fits) (simp add: bytes_def)
    moreover have "utils_intCopy (200 - length ((head @ t) @ bytes ''&lt='')) (word_of_int (lifetime srv))
        = Inr (Some (nat_text (nat (lifetime srv)) @ [0]))"
      using l hl by (intro int_copy_decimal) (simp_all add: bytes_def)
    ultimately show ?thesis using q False
      by (simp add: register_query_def) (simp add: bytes_def)
  qed
qed


section \<open>The request of a registration\<close>

lemma cut_query:
  assumes "parts \<noteq> []" and "last parts \<noteq> []" and "\<forall>v \<in> set parts. plain_text v"
  shows "\<exists>k. cut_string (of_char CHR ''?'') (of_char CHR ''&'') ((of_char CHR ''?'' # joined (of_char CHR ''&'') parts) @ [0]) []
    = Inr (map segment_option parts, k, [])"
proof -
  let ?amp = "of_char CHR ''&'' :: byte"
  have "0 \<notin> set (joined ?amp parts)"
    using set_joined [of ?amp parts] assms(3) by (auto simp: plain_text_def)
  then have "c_string ((of_char CHR ''?'' # joined ?amp parts) @ [0]) = Inr (of_char CHR ''?'' # joined ?amp parts)"
    by (intro c_string_append) simp
  moreover obtain k where "add_segments ?amp (joined ?amp parts) [] [] = Inr ([] @ map segment_option parts, k, [])"
    using add_segments_parts [of parts ?amp "[]"] assms by (auto simp: plain_text_def)
  ultimately show ?thesis by (simp add: cut_string_def)
qed

lemma cut_rd: "cut_string 47 47 (bytes ''/rd'' @ [0]) [] = Inr ([segment_option (bytes ''rd'')], 2, [])"
  by (simp add: cut_string_def c_string_def bytes_def add_segments.simps coap_add_multi_option_def segment_option_def Let_def)

text \<open>The message of a request: the type, the method, the id and the token of four bytes.\<close>

definition request_message :: "coap_protocol \<Rightarrow> byte \<Rightarrow> u16 \<Rightarrow> time \<Rightarrow> coap_packet" where
  "request_message proto mth i tv = SET_OPTION COAP_OPTION_TOKEN
     ((coap_init_message proto COAP_TYPE_CON mth i)\<lparr>pkt_token := take 4 (generated_token proto i tv)\<rparr>)"

definition new_transaction :: "session \<Rightarrow> byte \<Rightarrow> 's lwm2m_context \<Rightarrow> reply_handler transaction" where
  "new_transaction h mth n = \<lparr>ref = next_ref n, mID = nextMID n, peerH = h, ack_received = False, response_timeout = 0,
     retrans_counter = 0, retrans_time = 0, message = request_message (ctx_protocol n) mth (nextMID n) (clock n),
     pkt_buffer = None, callback = None\<rparr>"

lemma new_request_udp:
  assumes "ctx_protocol n \<in> {COAP_UDP, COAP_UDP_DTLS}" and "memory n = []"
  shows "new_request (Some h) mth n
    = Inr (Some (new_transaction h mth n), n\<lparr>nextMID := nextMID n + 1, next_ref := next_ref n + 1\<rparr>)"
  using assms
  by (auto simp: new_request_def transaction_new_def set_token_def generated_token_def Let_def coap_init_message_def zero_packet_def
      coap_set_header_token_def copied_def new_transaction_def request_message_def COAP_TOKEN_LEN_def)

text \<open>The message of a registration.\<close>

definition registration_message :: "coap_packet \<Rightarrow> byte list list \<Rightarrow> byte list \<Rightarrow> coap_packet" where
  "registration_message p parts pl =
     (SET_OPTION COAP_OPTION_CONTENT_TYPE
       ((SET_OPTION COAP_OPTION_URI_QUERY
          ((SET_OPTION COAP_OPTION_URI_PATH (p\<lparr>uri_path := [segment_option (bytes ''rd'')]\<rparr>))\<lparr>uri_query := map segment_option parts\<rparr>))
        \<lparr>content_type := 40\<rparr>))\<lparr>payload := Some pl, payload_len := word_of_nat (length pl)\<rparr>"

lemma register_message_parts:
  assumes "parts \<noteq> []" and "last parts \<noteq> []" and "\<forall>v \<in> set parts. plain_text v"
  shows "register_message (of_char CHR ''?'' # joined (of_char CHR ''&'') parts) pl p [] = Inr (registration_message p parts pl, [])"
proof -
  obtain k where "cut_string (of_char CHR ''?'') (of_char CHR ''&'') ((of_char CHR ''?'' # joined (of_char CHR ''&'') parts) @ [0]) []
      = Inr (map segment_option parts, k, [])"
    using cut_query [OF assms] by blast
  then show ?thesis
    by (simp add: register_message_def coap_set_header_uri_path_def coap_set_header_uri_query_def cut_rd
        coap_set_header_content_type_def coap_set_payload_def registration_message_def)
qed


lemma option_fields:
  "IS_OPTION (p\<lparr>uri_path := a\<rparr>) k = IS_OPTION p k" "IS_OPTION (p\<lparr>uri_query := a\<rparr>) k = IS_OPTION p k"
  "IS_OPTION (p\<lparr>content_type := c\<rparr>) k = IS_OPTION p k" "IS_OPTION (p\<lparr>pkt_token := b\<rparr>) k = IS_OPTION p k"
  "IS_OPTION (p\<lparr>payload := l, payload_len := j\<rparr>) k = IS_OPTION p k"
  "IS_OPTION (coap_init_message proto t d i) k = IS_OPTION zero_packet k"
  "options (coap_init_message proto t d i) = options zero_packet"
  by (simp_all add: IS_OPTION_def coap_init_message_def)

lemmas message_defs = registration_message_def request_message_def coap_init_message_def zero_packet_def SET_OPTION_def

lemma multi_size_bound: "multi_size os \<le> 260 * length os"
proof -
  have "COAP_MAX_OPTION_HEADER_LEN + unat (opt_len x) \<le> 260" for x
  proof -
    have "unat (opt_len x) < 2 ^ LENGTH(8)" by (rule unsigned_less)
    moreover have "(2::nat) ^ LENGTH(8) = 256" by simp
    ultimately show ?thesis unfolding COAP_MAX_OPTION_HEADER_LEN_def by linarith
  qed
  then have "(\<Sum>x\<leftarrow>os. COAP_MAX_OPTION_HEADER_LEN + unat (opt_len x)) \<le> (\<Sum>x\<leftarrow>os. 260)"
    by (intro sum_list_mono)
  then show ?thesis by (simp add: multi_size_def sum_list_triv mult.commute)
qed

lemma registration_message_options:
  assumes p: "p = request_message proto mth i tv" and "parts \<noteq> []" and "\<forall>v \<in> set parts. length v < 256" and "length pl < 60000"
  shows "sendable (registration_message p parts pl)" and "sized (registration_message p parts pl)"
    and "packet_limits (registration_message p parts pl)" and "IS_OPTION (registration_message p parts pl) COAP_OPTION_CONTENT_TYPE"
    and "options_of (registration_message p parts pl) = (11, bytes ''rd'') # (12, [40]) # map (Pair 15) parts"
    and "payload_of (registration_message p parts pl) = pl"
    and "msg_type (registration_message p parts pl) = COAP_TYPE_CON" "code (registration_message p parts pl) = mth"
    "mid (registration_message p parts pl) = i"
    and "coap_serialize_get_size (registration_message p parts pl) \<le> length pl + 300 + 260 * length parts"
proof -
  let ?q = "registration_message p parts pl"
  have opts: "IS_OPTION ?q k \<longleftrightarrow> k \<in> {11, 12, 15, 19}" if "k < 40" for k
    using that by (auto simp: registration_message_def p request_message_def option_fields)
  have len: "unat (word_of_nat (length pl) :: u16) = length pl" using assms(4) by (simp add: unat_of_nat)
  have f: "uri_path ?q = [segment_option (bytes ''rd'')]" "uri_query ?q = map segment_option parts" "content_type ?q = 40"
    "payload ?q = Some pl" "payload_len ?q = word_of_nat (length pl)" "length (pkt_token ?q) \<le> 4" "etag ?q = []" "if_match ?q = []"
    "accept ?q = []" "uri_host_len ?q = 0"
    by (simp_all add: message_defs p)
  show t: "msg_type ?q = COAP_TYPE_CON" "code ?q = mth" "mid ?q = i" by (simp_all add: message_defs p)
  have ok: "multi_ok [segment_option (bytes ''rd'')]" by (simp add: multi_ok_def segment_option_def bytes_def)
  have short: "unat (word_of_nat (length v) :: byte) = length v" if "v \<in> set parts" for v
    using assms(3) that by (simp add: unat_of_nat)
  then have "multi_ok (map segment_option parts)"
    using assms(2) by (simp add: multi_ok_def segment_option_def)
  then show "sendable ?q" using ok len by (simp add: sendable_def opts f)
  show "sized ?q" by (simp add: sized_def opts)
  show "packet_limits ?q" using f(6) by (simp add: packet_limits_def f(7-) t COAP_TOKEN_LEN_def)
  show "IS_OPTION ?q COAP_OPTION_CONTENT_TYPE" by (simp add: opts)
  have "option_bytes (segment_option (bytes ''rd'')) = bytes ''rd''" by (simp add: option_bytes_segment bytes_def)
  moreover have "map (option_bytes \<circ> segment_option) parts = parts"
    using assms(3) by (intro map_idI) (simp add: option_bytes_segment)
  moreover have "int_bytes 40 = [40]" by (simp add: int_bytes_def top_bytes)
  ultimately show "options_of ?q = (11, bytes ''rd'') # (12, [40]) # map (Pair 15) parts"
    by (simp add: options_of_def known_options_def option_list_def opts field_values_def f)
  show "payload_of ?q = pl" using len by (simp add: payload_of_def f)
  have "multi_size [segment_option (bytes ''rd'')] = 7"
    by (simp add: multi_size_def COAP_MAX_OPTION_HEADER_LEN_def segment_option_def bytes_def)
  moreover have "multi_size (map segment_option parts) \<le> 260 * length parts"
    using multi_size_bound [of "map segment_option parts"] by simp
  ultimately show "coap_serialize_get_size ?q \<le> length pl + 300 + 260 * length parts"
    using f(6) len by (simp add: coap_serialize_get_size_def options_size_def option_sizes_def opts f(1-5) COAP_MAX_OPTION_HEADER_LEN_def)
qed


lemma parts_bounds:
  assumes "query_binding (binding srv) \<noteq> None" and "lifetime srv < 0x80000000"
    and "length name + (case num of None \<Rightarrow> 0 | Some k \<Rightarrow> length k) \<le> 150"
  shows "v \<in> set (registration_parts name num srv) \<Longrightarrow> length v < 256" and "length (registration_parts name num srv) \<le> 5"
proof -
  obtain t where t: "query_binding (binding srv) = Some t" using assms(1) by blast
  have "length (nat_text (nat (lifetime srv))) \<le> 10" using assms(2) by (intro nat_text_10(1)) simp
  moreover have "length (binding_part (binding srv)) \<le> 6" using binding_part(1,4) [OF t] by simp
  ultimately show "v \<in> set (registration_parts name num srv) \<Longrightarrow> length v < 256" "length (registration_parts name num srv) \<le> 5"
    using assms(3) by (auto simp: registration_parts_def bytes_def split: option.splits if_splits)
qed

lemma get_set_server:
  assumes "get_server i n = Inr srv" and "secObjInstID (f srv) = i"
  shows "get_server i (set_server i f n) = Inr (f srv)"
proof -
  have "find (\<lambda>s. secObjInstID s = i) (set_in i f xs) = Some (f srv)" if "find (\<lambda>s. secObjInstID s = i) xs = Some srv" for xs
    using that assms(2) by (induction xs) (auto simp: set_in_def split: if_splits)
  then show ?thesis using assms(1) by (simp add: get_server_def set_server_def split: option.splits)
qed

lemma get_server_id: "get_server i n = Inr srv \<Longrightarrow> secObjInstID srv = i"
  by (auto simp: get_server_def find_Some_iff split: option.splits)

text \<open>A server that the client can register at: connected, with a binding that the query can name, and a query that fits.\<close>

definition can_register :: "'s lwm2m_context \<Rightarrow> lwm2m_server \<Rightarrow> byte list \<Rightarrow> bool" where
  "can_register n srv name \<longleftrightarrow>
     endpointName n = Some name \<and> plain_text name \<and> (\<forall>k. msisdn n = Some k \<longrightarrow> plain_text k) \<and>
     query_binding (binding srv) \<noteq> None \<and> 0 \<le> lifetime srv \<and> lifetime srv < 0x80000000 \<and>
     length name + (case msisdn n of None \<Rightarrow> 0 | Some k \<Rightarrow> length k) \<le> 150"

lemma registration_sent:
  assumes n: "ready_client n" and srv: "get_server i n = Inr srv" "sessionH srv = Some h" and reg: "can_register n srv name"
    and pl: "object_getRegisterPayload (object_list n) (altPath n) (object_state n) 512 = Inr pl" "pl \<noteq> []" "length pl \<le> 512"
  shows "\<exists>b t n'. prv_register i n = Inr (COAP_NO_ERROR, n') \<and> sent n' = sent n @ [(h, b)] \<and>
    get_server i n' = Inr (srv\<lparr>status := STATE_REG_PENDING\<rparr>) \<and>
    transactionList n' = lwm2m_list_add mID (transactionList n) t \<and>
    mID t = nextMID n \<and> peerH t = h \<and> callback t = Some (Registration_reply i) \<and> pkt_buffer t = Some b \<and> retrans_counter t = 2 \<and>
    \<not> ack_received t \<and> ref t = next_ref n \<and> code (message t) = COAP_POST \<and>
    pkt_token (message t) = take 4 (generated_token (ctx_protocol n) (nextMID n) (clock n)) \<and>
    IS_OPTION (message t) COAP_OPTION_TOKEN \<and> clock n' = clock n \<and> ctx_protocol n' = ctx_protocol n \<and> memory n' = [] \<and> link n' = [] \<and> length b < 65536 \<and>
    (\<forall>slack em. \<exists>q. coap_parse_message (ctx_protocol n) (b @ slack) (length b) em [] = Inr (COAP_NO_ERROR, q, em, []) \<and>
       msg_type q = COAP_TYPE_CON \<and> code q = COAP_POST \<and> mid q = nextMID n \<and>
       options_of q = (11, bytes ''rd'') # (12, [40]) # map (Pair 15) (registration_parts name (msisdn n) srv) \<and> payload_of q = pl \<and>
       pkt_token q = take 4 (generated_token (ctx_protocol n) (nextMID n) (clock n)) \<and> whole_options q \<and> protocol q = ctx_protocol n)"
proof -
  note r = reg [unfolded can_register_def]
  let ?parts = "registration_parts name (msisdn n) srv"
  have parts: "?parts \<noteq> []" "last ?parts \<noteq> []" "\<forall>v \<in> set ?parts. plain_text v" "\<forall>v \<in> set ?parts. length v < 256" "length ?parts \<le> 5"
    using plain_parts [of srv name "msisdn n"] parts_bounds [of srv name "msisdn n"] r by blast+
  have udp: "ctx_protocol n \<in> {COAP_UDP, COAP_UDP_DTLS}" "\<not> is_tcp (ctx_protocol n)" "memory n = []"
    using n by (auto simp: ready_client_def is_tcp_def)
  have q: "register_query n srv = Inr (Some (of_char CHR ''?'' # joined (of_char CHR ''&'') ?parts), [])"
    using udp r by (intro query_text) auto
  let ?t = "new_transaction h COAP_POST n" and ?n1 = "n\<lparr>nextMID := nextMID n + 1, next_ref := next_ref n + 1\<rparr>"
  have same: "n\<lparr>memory := []\<rparr> = n" "n\<lparr>nextMID := x, next_ref := y, memory := []\<rparr> = n\<lparr>nextMID := x, next_ref := y\<rparr>" for x y
    using udp by simp_all
  have new: "new_request (Some h) COAP_POST n = Inr (Some ?t, ?n1)" by (rule new_request_udp) (use udp in auto)
  define p where "p = message ?t"
  have pr: "p = request_message (ctx_protocol n) COAP_POST (nextMID n) (clock n)" by (simp add: p_def new_transaction_def)
  define m where "m = registration_message p ?parts pl"
  have "length pl < 60000" using pl(3) by simp
  note mo = registration_message_options [OF pr parts(1,4) this, folded m_def]
  have rm: "register_message (of_char CHR ''?'' # joined (of_char CHR ''&'') ?parts) pl p [] = Inr (m, [])"
    unfolding m_def by (rule register_message_parts [OF parts(1-3)])
  have refs: "\<forall>x \<in> set (transactionList ?n1). ref x \<noteq> ref ?t"
    using n by (auto simp: ready_client_def new_transaction_def)
  have ready: "ready_client ?n1" "fresh ?t" using n by (auto simp: ready_client_def fresh_def new_transaction_def less_SucI)
  have big: "coap_serialize_get_size m < 65536" using mo(10) pl(3) parts(5) by simp
  obtain b p' t' where b: "coap_serialize_message m = Inr (b, p')"
    and sent: "add_and_send ?t m (Registration_reply i) ?n1
      = Inr (0, ?n1\<lparr>transactionList := lwm2m_list_add mID (transactionList n) t', sent := sent n @ [(h, b)]\<rparr>)"
    and t': "mID t' = nextMID n" "peerH t' = h" "callback t' = Some (Registration_reply i)" "pkt_buffer t' = Some b" "retrans_counter t' = 2"
      "\<not> ack_received t'" "ref t' = next_ref n" "code (message t') = code m" "pkt_token (message t') = pkt_token m" "options (message t') = options m"
    using request_sent [OF ready refs mo(1-3) _ big, of "Registration_reply i"] mo(4) pl(3) by (auto simp: new_transaction_def)
  have tok: "pkt_token m = take 4 (generated_token (ctx_protocol n) (nextMID n) (clock n))"
    by (simp add: m_def pr message_defs)
  have "length b \<le> coap_serialize_get_size m" using message_fits [OF mo(1-3)] mo(4) b by auto
  then have short: "length b < 65536" using big by simp
  have "IS_OPTION m COAP_OPTION_TOKEN" by (simp add: m_def pr registration_message_def request_message_def option_fields)
  then have opt: "IS_OPTION (message t') COAP_OPTION_TOKEN" using t'(10) by (simp add: IS_OPTION_def)
  let ?n2 = "?n1\<lparr>transactionList := lwm2m_list_add mID (transactionList n) t', sent := sent n @ [(h, b)]\<rparr>"
  let ?n' = "set_server i (\<lambda>s. s\<lparr>status := STATE_REG_PENDING\<rparr>) ?n2"
  have "prv_register i n = Inr (COAP_NO_ERROR, ?n')"
    using srv pl(1,2) q new rm sent by (simp add: prv_register_def Let_def p_def same udp(3))
  moreover have "get_server i ?n' = Inr (srv\<lparr>status := STATE_REG_PENDING\<rparr>)"
    using srv(1) get_server_id [OF srv(1)] by (intro get_set_server) (simp_all add: get_server_def)
  moreover have "\<exists>q. coap_parse_message (ctx_protocol n) (b @ slack) (length b) em [] = Inr (COAP_NO_ERROR, q, em, []) \<and>
       msg_type q = COAP_TYPE_CON \<and> code q = COAP_POST \<and> mid q = nextMID n \<and>
       options_of q = (11, bytes ''rd'') # (12, [40]) # map (Pair 15) ?parts \<and> payload_of q = pl \<and>
       pkt_token q = take 4 (generated_token (ctx_protocol n) (nextMID n) (clock n)) \<and> whole_options q \<and> protocol q = ctx_protocol n" for slack em
  proof -
    obtain q where q: "coap_parse_message (ctx_protocol n) (b @ slack) (length b) em [] = Inr (COAP_NO_ERROR, q, em, [])"
      "options_of q = options_of m" "payload_of q = payload_of m" "msg_type q = msg_type m" "code q = code m" "mid q = mid m"
      "pkt_token q = pkt_token m"
      using message_read [OF mo(1,3) udp(1), of slack em] b by auto
    moreover have "pkt_token m \<noteq> []" using tok udp(1) by (auto simp: generated_token_def Let_def)
    ultimately show ?thesis using message_read_whole(1,3) [OF mo(1,3) udp(1) b q(1)] mo(5-9) pl(3) tok by auto
  qed
  ultimately show ?thesis using t' tok opt mo(8) udp(3) n short
    by (intro exI [of _ b] exI [of _ t'] exI [of _ ?n']) (simp add: set_server_def ready_client_def)
qed

text \<open>
  C12. The registration of a client at a server over UDP, from the call to what the server reads. One datagram goes to the session of the
  server; its parser finds a confirmable \<^verbatim>\<open>POST\<close> to \<^verbatim>\<open>/rd\<close> with the content format 40, the
  query in its parts (version, name, number, binding, lifetime) and the list of the objects as payload. The server is marked as pending, and
  the transaction that waits for the answer has the id of the message, the datagram and the callback of the registration.
\<close>

theorem registration_request:
  assumes n: "ready_client n" and srv: "get_server i n = Inr srv" "sessionH srv = Some h" and reg: "can_register n srv name"
    and pl: "object_getRegisterPayload (object_list n) (altPath n) (object_state n) 512 = Inr pl" "pl \<noteq> []" "length pl \<le> 512"
  shows "\<exists>b t n'. prv_register i n = Inr (COAP_NO_ERROR, n') \<and> sent n' = sent n @ [(h, b)] \<and>
    get_server i n' = Inr (srv\<lparr>status := STATE_REG_PENDING\<rparr>) \<and>
    transactionList n' = lwm2m_list_add mID (transactionList n) t \<and>
    mID t = nextMID n \<and> peerH t = h \<and> callback t = Some (Registration_reply i) \<and> pkt_buffer t = Some b \<and> retrans_counter t = 2 \<and>
    (\<forall>slack em. \<exists>q. coap_parse_message (ctx_protocol n) (b @ slack) (length b) em [] = Inr (COAP_NO_ERROR, q, em, []) \<and>
       msg_type q = COAP_TYPE_CON \<and> code q = COAP_POST \<and> mid q = nextMID n \<and>
       options_of q = (11, bytes ''rd'') # (12, [40]) # map (Pair 15) (registration_parts name (msisdn n) srv) \<and> payload_of q = pl)"
  using registration_sent [OF assms] by blast


text \<open>A client that is about to register, with no objects and a lifetime of 300 seconds.\<close>

definition ex_server :: lwm2m_server where
  "ex_server = (new_server 0)\<lparr>sessionH := Some 3, binding := BINDING_U, lifetime := 300\<rparr>"

definition ex_ready :: "unit lwm2m_context" where
  "ex_ready = idle_client\<lparr>serverList := [ex_server]\<rparr>"

lemmas ex_ready_defs = ex_ready_def ex_server_def idle_client_def new_server_def

lemma ex_ready_ok:
  "ready_client ex_ready" "get_server 0 ex_ready = Inr ex_server" "sessionH ex_server = Some 3"
  "can_register ex_ready ex_server (bytes ''board'')"
  "object_getRegisterPayload (object_list ex_ready) (altPath ex_ready) (object_state ex_ready) 512
    = Inr (bytes ''</>;rt='' @ [34] @ bytes ''oma.lwm2m'' @ [34])"
  "transactionList ex_ready = []" "sent ex_ready = []" "nextMID ex_ready = 7" "clock ex_ready = 1000" "ctx_protocol ex_ready = COAP_UDP"
  by (simp_all add: ready_client_def get_server_def can_register_def plain_text_def query_binding_def ex_ready_defs
      object_getRegisterPayload_def copy_str_def utils_stringCopy_def bytes_def)

theorem registration_request_witness:
  "\<exists>b n'. prv_register 0 ex_ready = Inr (COAP_NO_ERROR, n') \<and> sent n' = [(3, b)] \<and>
    (\<exists>q. coap_parse_message COAP_UDP b (length b) [] [] = Inr (COAP_NO_ERROR, q, [], []) \<and>
      options_of q = (11, bytes ''rd'') # (12, [40]) #
        map (Pair 15) (registration_parts (bytes ''board'') None ex_server))"
proof -
  have "msisdn ex_ready = None" by (simp add: ex_ready_defs)
  then show ?thesis
    using registration_request [OF ex_ready_ok(1-5)] ex_ready_ok(6-10)
    by (fastforce simp: bytes_def dest: spec [of _ "[]"])
qed

section \<open>The handshake\<close>

text \<open>
  A registration from the call to the answer. After the request over UDP, an acknowledgement of the server with the id and the
  token of the request, the code 2.01 and a location ends the transaction; the server is registered, with the path of the
  location and the time of the answer, and nothing else is sent.
\<close>

lemma registration_handshake:
  assumes n: "ready_client n" and srv: "get_server i n = Inr srv" "sessionH srv = Some h" and reg: "can_register n srv name"
    and pl: "object_getRegisterPayload (object_list n) (altPath n) (object_state n) 512 = Inr pl" "pl \<noteq> []" "length pl \<le> 512"
    and none: "transactionList n = []"
    and a: "msg_type a = COAP_TYPE_ACK" "mid a = nextMID n" "code a = COAP_201_CREATED" "IS_OPTION a COAP_OPTION_TOKEN"
      "pkt_token a = take 4 (generated_token (ctx_protocol n) (nextMID n) (clock n))"
      "\<forall>x \<in> set (location_path a). whole_option x" "segs = map option_bytes (location_path a)"
  shows "\<exists>b n1 n2. prv_register i n = Inr (COAP_NO_ERROR, n1) \<and> sent n1 = sent n @ [(h, b)] \<and>
    transaction_handleResponse client_callback h a False n1 = Inr (True, n2) \<and>
    transactionList n2 = [] \<and> sent n2 = sent n1 \<and>
    get_server i n2 = Inr (srv\<lparr>status := STATE_REGISTERED, registration := clock n,
      location := Some (concat (map (\<lambda>v. of_char CHR ''/'' # v) segs))\<rparr>)"
proof -
  obtain b t n1 where r: "prv_register i n = Inr (COAP_NO_ERROR, n1)" "sent n1 = sent n @ [(h, b)]"
      "get_server i n1 = Inr (srv\<lparr>status := STATE_REG_PENDING\<rparr>)" "transactionList n1 = lwm2m_list_add mID (transactionList n) t"
      "mID t = nextMID n" "peerH t = h" "callback t = Some (Registration_reply i)" "\<not> ack_received t" "code (message t) = COAP_POST"
      "pkt_token (message t) = take 4 (generated_token (ctx_protocol n) (nextMID n) (clock n))" "IS_OPTION (message t) COAP_OPTION_TOKEN"
      "clock n1 = clock n" "memory n1 = []"
    using registration_sent [OF n srv reg pl] by blast
  have one: "transactionList n1 = [t]" using r(4) none by simp
  let ?t = "t\<lparr>ack_received := True\<rparr>" and ?loc = "concat (map (\<lambda>v. of_char CHR ''/'' # v) segs)"
  let ?n1 = "n1\<lparr>transactionList := [?t]\<rparr>"
  let ?s1 = "srv\<lparr>status := STATE_REG_PENDING\<rparr>"
  let ?n2 = "set_server i (\<lambda>s. s\<lparr>registration := clock n\<rparr>) ?n1"
  let ?n3 = "set_server i (\<lambda>s. s\<lparr>status := STATE_REGISTERED, location := Some ?loc\<rparr>) ?n2"
  have g1: "get_server i ?n1 = Inr ?s1" using r(3) by (simp add: get_server_def)
  have id: "secObjInstID srv = i" using get_server_id [OF srv(1)] .
  have g2: "get_server i ?n2 = Inr (?s1\<lparr>registration := clock n\<rparr>)" by (rule get_set_server [OF g1]) (simp add: id)
  have g3: "get_server i ?n3 = Inr (?s1\<lparr>registration := clock n, status := STATE_REGISTERED, location := Some ?loc\<rparr>)"
    using get_set_server [OF g2, of "\<lambda>s. s\<lparr>status := STATE_REGISTERED, location := Some ?loc\<rparr>"] id by simp
  have loc: "coap_get_multi_option_as_string (location_path a) [] = Inr (Some ?loc, [])"
    using a(6) unfolding a(7) by (auto simp: coap_get_multi_option_as_string_def whole_option_def comp_def not_less)
  have mem: "memory ?n2 = []" using r(13) by (simp add: set_server_def)
  have same: "?n2\<lparr>memory := []\<rparr> = ?n2" using r(13) by (simp add: set_server_def)
  have cb: "client_callback (Registration_reply i) (Some a) ?n1 = Inr ?n3"
    using g1 n r(12) a(3) loc mem by (simp add: prv_handleRegistrationReply_def Let_def ready_client_def same)
  have fin: "acknowledges (ctx_protocol n1) a t" "prv_checkFinished ?t a"
    using a r(5,8,9,10,11) by (simp_all add: acknowledges_def prv_checkFinished_def coap_get_header_token_def)
  have "handle_one client_callback h a False t n1 = bindE (transaction_remove ?t ?n3) (\<lambda>n2. Inr (Some n2))"
    using fin a(1,3) cb r(7) put_middle [of n1 "[]" t "[]" ?t] one
    by (simp add: handle_one_def finish_transaction_def run_callback_def Let_def)
  moreover have "transaction_remove ?t ?n3 = Inr (?n3\<lparr>transactionList := []\<rparr>)"
    by (simp add: transaction_remove_def set_server_def)
  ultimately have "transaction_handleResponse client_callback h a False n1 = Inr (True, ?n3\<lparr>transactionList := []\<rparr>)"
    using r(6) by (simp add: transaction_handleResponse_def one)
  moreover have "get_server i (?n3\<lparr>transactionList := []\<rparr>) = get_server i ?n3" by (simp add: get_server_def)
  ultimately show ?thesis using r(1,2) g3
    by (intro exI [of _ b] exI [of _ n1] exI [of _ "?n3\<lparr>transactionList := []\<rparr>"]) (simp add: set_server_def)
qed

end
