(* ===== verification/Notify.thy ===== *)
theory Notify
imports Bootstrap
begin

text \<open>
  The observations of a client within its context, the rest of \<^verbatim>\<open>external/wakaama/observe.c\<close>: requests to observe,
  the attributes of a watcher, and the notifications. The lists themselves are in \<open>Observed\<close>.

  The server of a watcher is its \<^verbatim>\<open>secObjInstID\<close>; a number above 65535 is the address of a server that was freed.
\<close>

section \<open>Comparisons of floating point numbers\<close>

text \<open>The magnitude with the sign: the order of these numbers is the order of the values.\<close>

definition dbl_key :: "double \<Rightarrow> int" where
  "dbl_key x = (if double_neg x then - double_mag x else double_mag x)"

definition dbl_le :: "double \<Rightarrow> double \<Rightarrow> bool" where
  "dbl_le x y \<longleftrightarrow> \<not> double_nan x \<and> \<not> double_nan y \<and> dbl_key x \<le> dbl_key y"

definition dbl_lt :: "double \<Rightarrow> double \<Rightarrow> bool" where
  "dbl_lt x y \<longleftrightarrow> \<not> double_nan x \<and> \<not> double_nan y \<and> dbl_key x < dbl_key y"

definition dbl_neg :: "double \<Rightarrow> double" where
  "dbl_neg x = x XOR 2 ^ 63"

definition signed_ratio :: "bool \<Rightarrow> int \<times> int \<Rightarrow> int \<times> int" where
  "signed_ratio neg r = (if neg then (- fst r, snd r) else r)"

text \<open>The difference; which NaN and which zero it is does not matter to a comparison.\<close>

definition dbl_sub :: "double \<Rightarrow> double \<Rightarrow> double" where
  "dbl_sub x y =
     (if double_nan x \<or> double_nan y \<or> double_inf x \<and> double_inf y \<and> double_neg x = double_neg y then 0x7FF8000000000000
      else if double_inf x then x
      else if double_inf y then dbl_neg y
      else
        let (a, b) = signed_ratio (double_neg x) (double_ratio x); (c, d) = signed_ratio (double_neg y) (double_ratio y);
            v = a * d - c * b in
        double_of_ratio (v < 0) \<bar>v\<bar> (b * d))"

definition flt_key :: "cfloat \<Rightarrow> int" where
  "flt_key x = (if bit x 31 then - float_mag x else float_mag x)"

definition flt_nan :: "cfloat \<Rightarrow> bool" where "flt_nan x \<longleftrightarrow> 0x7F800000 < float_mag x"
definition flt_inf :: "cfloat \<Rightarrow> bool" where "flt_inf x \<longleftrightarrow> float_mag x = 0x7F800000"

definition flt_le :: "cfloat \<Rightarrow> cfloat \<Rightarrow> bool" where
  "flt_le x y \<longleftrightarrow> \<not> flt_nan x \<and> \<not> flt_nan y \<and> flt_key x \<le> flt_key y"

definition flt_add :: "cfloat \<Rightarrow> cfloat \<Rightarrow> cfloat" where
  "flt_add x y =
     (if flt_nan x \<or> flt_nan y \<or> flt_inf x \<and> flt_inf y \<and> bit x 31 \<noteq> bit y 31 then 0x7FC00000
      else if flt_inf x then x
      else if flt_inf y then y
      else
        let (a, b) = signed_ratio (bit x 31) (float_ratio x); (c, d) = signed_ratio (bit y 31) (float_ratio y);
            v = a * d + c * b in
        float_of_ratio (v < 0) \<bar>v\<bar> (b * d))"

section \<open>The servers of watchers\<close>

definition server_session :: "'s lwm2m_context \<Rightarrow> server \<Rightarrow> session option res" where
  "server_session n srv =
     (if 0xFFFF < srv then Inl UseAfterFree else bindE (get_server (word_of_nat srv) n) (\<lambda>s. Inr (sessionH s)))"

text \<open>The loops of \<^verbatim>\<open>observe_cancel\<close> with the session read where the code reads it.\<close>

fun cancel_behind_at :: "(server \<Rightarrow> session option res) \<Rightarrow> u16 \<Rightarrow> session \<Rightarrow> watcher list \<Rightarrow> watcher list option res" where
  "cancel_behind_at sess i from [] = Inr None"
| "cancel_behind_at sess i from (w # ws) =
     bindE (if lastMid w \<noteq> i then Inr True else bindE (sess (server w)) (\<lambda>h. Inr (h = Some from))) (\<lambda>pass.
       if pass then bindE (cancel_behind_at sess i from ws) (\<lambda>r. Inr (map_option ((#) w) r)) else Inr (Some ws))"

fun cancel_at :: "(server \<Rightarrow> session option res) \<Rightarrow> u16 \<Rightarrow> session \<Rightarrow> observed list \<Rightarrow> observed list res" where
  "cancel_at sess i from [] = Inr []"
| "cancel_at sess i from (ob # obs) =
     (if freed ob then Inl UseAfterFree
      else case watcherList ob of
        [] \<Rightarrow> Inl NullDeref
      | w # ws \<Rightarrow>
          bindE (if LWM2M_MAX_ID = i \<or> lastMid w = i then bindE (sess (server w)) (\<lambda>h. Inr (h = Some from)) else Inr False) (\<lambda>hit.
          bindE (if hit then Inr (Some ws) else bindE (cancel_behind_at sess i from ws) (\<lambda>r. Inr (map_option ((#) w) r))) (\<lambda>removed.
            case removed of
              Some [] \<Rightarrow> Inr obs
            | Some ws' \<Rightarrow> Inr (ob\<lparr>watcherList := ws'\<rparr> # obs)
            | None \<Rightarrow> bindE (cancel_at sess i from obs) (\<lambda>obs'. Inr (ob # obs')))))"

definition context_cancel :: "u16 \<Rightarrow> session \<Rightarrow> 's lwm2m_context \<Rightarrow> 's lwm2m_context res" where
  "context_cancel i from n =
     bindE (cancel_at (server_session n) i from (observedList n)) (\<lambda>obs. Inr (n\<lparr>observedList := obs\<rparr>))"

text \<open>With all servers there it is the cancelling of \<open>Observed\<close>.\<close>

lemma cancel_behind_at_all:
  "\<forall>w \<in> set ws. sess (server w) = Inr (Some (f (server w))) \<Longrightarrow>
   cancel_behind_at sess i from ws = Inr (cancel_behind f i from ws)"
  by (induction ws) (auto simp: bindE_def)

lemma cancel_at_all:
  "\<forall>ob \<in> set obs. \<forall>w \<in> set (watcherList ob). sess (server w) = Inr (Some (f (server w))) \<Longrightarrow>
   cancel_at sess i from obs = observe_cancel f i from obs"
proof (induction obs)
  case (Cons ob obs)
  show ?case
  proof (cases "watcherList ob")
    case Nil
    then show ?thesis by (simp add: observe_cancel.simps)
  next
    case (Cons w ws)
    have w: "sess (server w) = Inr (Some (f (server w)))" using Cons.prems Cons by simp
    have ws: "cancel_behind_at sess i from ws = Inr (cancel_behind f i from ws)"
      using Cons.prems Cons by (intro cancel_behind_at_all) simp
    have "cancel_at sess i from obs = observe_cancel f i from obs" using Cons.IH Cons.prems by simp
    then show ?thesis
      by (cases "cancel_behind f i from ws") (simp_all add: Cons w ws observe_cancel.simps Let_def del: cancel_behind_at.simps)
  qed
qed (simp add: observe_cancel.simps)

section \<open>Requests\<close>

text \<open>The watcher that \<^verbatim>\<open>prv_getWatcher\<close> has returned, written through its pointer.\<close>

definition set_watcher :: "nat \<times> nat \<Rightarrow> (watcher \<Rightarrow> watcher) \<Rightarrow> observed list \<Rightarrow> observed list" where
  "set_watcher ij f obs =
     (case ij of (i, j) \<Rightarrow>
        obs[i := (obs ! i)\<lparr>watcherList := (watcherList (obs ! i))[j := f (watcherList (obs ! i) ! j)]\<rparr>])"

definition keep_value :: "lwm2m_value \<Rightarrow> watcher \<Rightarrow> watcher" where
  "keep_value v w = (case v of V_integer x \<Rightarrow> w\<lparr>lastValue := x\<rparr> | V_float x \<Rightarrow> w\<lparr>lastValue := x\<rparr> | _ \<Rightarrow> w)"

text \<open>\<open>ds\<close> is the array \<^verbatim>\<open>dataP\<close>, of which the first element is looked at. The results are the status and the response.\<close>

definition observe_handleRequest ::
    "lwm2m_uri \<Rightarrow> u16 \<Rightarrow> lwm2m_data list \<Rightarrow> coap_packet \<Rightarrow> coap_packet \<Rightarrow> 's lwm2m_context
     \<Rightarrow> (byte \<times> coap_packet \<times> 's lwm2m_context) res" where
  "observe_handleRequest u i ds p response n =
     (case coap_get_header_observe p of
        None \<Rightarrow> Inl Uninitialised
      | Some count \<Rightarrow>
          if count = 0 then
            if \<not> is_set_instance u \<and> is_set_resource u then Inr (COAP_400_BAD_REQUEST, response, n)
            else if pkt_token p = [] then Inr (COAP_400_BAD_REQUEST, response, n)
            else bindE (prv_getWatcher (observedList n) u (unat i) (memory n)) (\<lambda>(obs, found, m).
              let n1 = n\<lparr>observedList := obs, memory := m\<rparr> in
              case found of
                None \<Rightarrow> Inr (COAP_500_INTERNAL_SERVER_ERROR, response, n1)
              | Some ij \<Rightarrow>
                  bindE (if is_set_resource u then (case ds of [] \<Rightarrow> Inl NullDeref | d # _ \<Rightarrow> Inr (keep_value (data_value d))) else Inr (\<lambda>w. w)) (\<lambda>keep.
                    let w = watcherList (obs ! fst ij) ! snd ij;
                        w1 = keep (w\<lparr>token := pkt_token p, active := True, lastTime := clock n\<rparr>) in
                    Inr (COAP_205_CONTENT, coap_set_header_observe response (counter w),
                      n1\<lparr>observedList := set_watcher ij (\<lambda>_. w1\<lparr>counter := counter w + 1\<rparr>) obs\<rparr>)))
          else if count = 1 then
            bindE (get_server i n) (\<lambda>srv.
            bindE (case sessionH srv of None \<Rightarrow> Inr n | Some h \<Rightarrow> context_cancel LWM2M_MAX_ID h n) (\<lambda>n1.
              Inr (COAP_205_CONTENT, response, n1)))
          else Inr (COAP_400_BAD_REQUEST, response, n))"

section \<open>The attributes of a watcher\<close>

abbreviation (input) ATTR_GT :: byte where "ATTR_GT \<equiv> 0x04"
abbreviation (input) ATTR_LT :: byte where "ATTR_LT \<equiv> 0x08"
abbreviation (input) ATTR_STP :: byte where "ATTR_STP \<equiv> 0x10"
abbreviation (input) ATTR_PMIN :: byte where "ATTR_PMIN \<equiv> 0x01"
abbreviation (input) ATTR_PMAX :: byte where "ATTR_PMAX \<equiv> 0x02"

text \<open>A limit, from the request when it sets it, otherwise from the watcher.\<close>

definition limit_of ::
    "byte \<Rightarrow> (lwm2m_attributes \<Rightarrow> double) \<Rightarrow> lwm2m_attributes \<Rightarrow> lwm2m_attributes option \<Rightarrow> cfloat res" where
  "limit_of f field a old =
     (if sets a f then Inr (double_to_float (field a))
      else case old of None \<Rightarrow> Inl NullDeref | Some b \<Rightarrow> Inr (double_to_float (field b)))"

text \<open>Whether the three limits would be set together and contradict each other.\<close>

definition limits_clash :: "lwm2m_attributes \<Rightarrow> lwm2m_attributes option \<Rightarrow> bool res" where
  "limits_clash a old =
     (let present = (toSet a OR (case old of None \<Rightarrow> 0 | Some b \<Rightarrow> toSet b)) AND NOT (toClear a) in
      if present AND ATTR_FLAG_NUMERIC \<noteq> ATTR_FLAG_NUMERIC then Inr False
      else
        bindE (limit_of ATTR_GT greaterThan a old) (\<lambda>gt.
        bindE (limit_of ATTR_LT lessThan a old) (\<lambda>lt.
        bindE (limit_of ATTR_STP step a old) (\<lambda>stp.
          Inr (flt_le gt (flt_add lt (flt_add stp stp)))))))"

text \<open>The flags of the new attributes are not added to those there are.\<close>

definition merge_attributes :: "lwm2m_attributes \<Rightarrow> lwm2m_attributes \<Rightarrow> lwm2m_attributes" where
  "merge_attributes a b =
     b\<lparr>toSet := toSet b AND NOT (toClear a),
       minPeriod := (if sets a ATTR_PMIN then minPeriod a else minPeriod b),
       maxPeriod := (if sets a ATTR_PMAX then maxPeriod a else maxPeriod b),
       greaterThan := (if sets a ATTR_GT then greaterThan a else greaterThan b),
       lessThan := (if sets a ATTR_LT then lessThan a else lessThan b),
       step := (if sets a ATTR_STP then step a else step b)\<rparr>"

definition observe_setParameters ::
    "lwm2m_uri \<Rightarrow> u16 \<Rightarrow> lwm2m_attributes \<Rightarrow> 's lwm2m_context \<Rightarrow> (byte \<times> 's lwm2m_context) res" where
  "observe_setParameters u i a n =
     (if \<not> is_set_instance u \<and> is_set_resource u then Inr (COAP_400_BAD_REQUEST, n)
      else bindE (object_checkReadable (object_list n) u (object_state n) (memory n)) (\<lambda>(r, m1).
        if r \<noteq> COAP_205_CONTENT then Inr (r, n\<lparr>memory := m1\<rparr>)
        else bindE (if toSet a AND ATTR_FLAG_NUMERIC \<noteq> 0 then object_checkNumeric (object_list n) u (object_state n) m1
                    else Inr (COAP_205_CONTENT, m1)) (\<lambda>(r2, m2).
          if r2 \<noteq> COAP_205_CONTENT then Inr (r2, n\<lparr>memory := m2\<rparr>)
          else bindE (prv_getWatcher (observedList n) u (unat i) m2) (\<lambda>(obs, found, m3).
            let n1 = n\<lparr>observedList := obs, memory := m3\<rparr> in
            case found of
              None \<Rightarrow> Inr (COAP_500_INTERNAL_SERVER_ERROR, n1)
            | Some ij \<Rightarrow>
                let w = watcherList (obs ! fst ij) ! snd ij;
                    put = (\<lambda>b m. n1\<lparr>observedList := set_watcher ij (\<lambda>x. x\<lparr>parameters := Some b\<rparr>) obs, memory := m\<rparr>) in
                bindE (limits_clash a (parameters w)) (\<lambda>clash.
                  if clash then Inr (COAP_400_BAD_REQUEST, n1)
                  else case parameters w of
                    Some b \<Rightarrow> Inr (COAP_204_CHANGED, put (merge_attributes a b) m3)
                  | None \<Rightarrow>
                      if toSet a = 0 then Inr (COAP_204_CHANGED, n1)
                      else (case lwm2m_malloc m3 of
                          (False, m4) \<Rightarrow> Inr (COAP_500_INTERNAL_SERVER_ERROR, n1\<lparr>memory := m4\<rparr>)
                        | (True, m4) \<Rightarrow> Inr (COAP_204_CHANGED, put a m4)))))))"

section \<open>When a watcher is notified\<close>

text \<open>
  The value read from the object is \<open>None\<close> when the observation is not one of a resource. A limit is crossed when it
  lies between the value and the one that was sent last.
\<close>

definition crossed :: "double \<Rightarrow> double \<Rightarrow> double \<Rightarrow> bool" where
  "crossed v old lim \<longleftrightarrow> dbl_le v lim \<and> dbl_lt lim old \<or> dbl_le lim v \<and> dbl_lt old lim"

definition limit_crossed :: "lwm2m_value option \<Rightarrow> i64 \<Rightarrow> double \<Rightarrow> bool res" where
  "limit_crossed v old lim =
     (case v of
        None \<Rightarrow> Inl NullDeref
      | Some (V_integer x) \<Rightarrow> Inr (crossed (int_to_double x) (int_to_double old) lim)
      | Some (V_float x) \<Rightarrow> Inr (crossed x old lim)
      | _ \<Rightarrow> Inr False)"

definition checked_diff :: "i64 \<Rightarrow> i64 \<Rightarrow> i64 res" where
  "checked_diff x y =
     (if sint x - sint y < - (2 ^ 63) \<or> 2 ^ 63 \<le> sint x - sint y then Inl SignedOverflow else Inr (x - y))"

definition step_reached :: "lwm2m_value option \<Rightarrow> i64 \<Rightarrow> double \<Rightarrow> bool res" where
  "step_reached v old stp =
     (case v of
        None \<Rightarrow> Inl NullDeref
      | Some (V_integer x) \<Rightarrow>
          bindE (checked_diff x old) (\<lambda>d.
          bindE (if sint d < 0 then checked_diff 0 d else Inr d) (\<lambda>a. Inr (dbl_le stp (int_to_double a))))
      | Some (V_float x) \<Rightarrow>
          (let d = dbl_sub x old in
           Inr (dbl_lt d 0 \<and> dbl_le stp (dbl_neg d) \<or> dbl_le 0 d \<and> dbl_le stp d))
      | _ \<Rightarrow> Inr False)"

text \<open>The conditions in the order of the code: limits, step.\<close>

definition numeric_reached :: "lwm2m_value option \<Rightarrow> i64 \<Rightarrow> lwm2m_attributes \<Rightarrow> bool res" where
  "numeric_reached v old a =
     bindE (if sets a ATTR_LT then limit_crossed v old (lessThan a) else Inr False) (\<lambda>lt.
     bindE (if sets a ATTR_GT then limit_crossed v old (greaterThan a) else Inr False) (\<lambda>gt.
     bindE (if sets a ATTR_STP then step_reached v old (step a) else Inr False) (\<lambda>stp.
       Inr (lt \<or> gt \<or> stp))))"

text \<open>Sums of a time and a period are unsigned.\<close>

definition due_at :: "time \<Rightarrow> u32 \<Rightarrow> u32" where
  "due_at t p = word_of_int t + p"

text \<open>Whether a watcher of which the value changed is notified, and the timeout.\<close>

definition notify_changed :: "time \<Rightarrow> lwm2m_value option \<Rightarrow> watcher \<Rightarrow> time \<Rightarrow> (bool \<times> time) res" where
  "notify_changed now v w timeout =
     (case parameters w of
        None \<Rightarrow> Inr (True, timeout)
      | Some a \<Rightarrow>
          bindE (if toSet a = 0 then Inr True
                 else if toSet a AND ATTR_FLAG_NUMERIC \<noteq> 0 then numeric_reached v (lastValue w) a
                 else Inr False) (\<lambda>reached.
            if \<not> sets a ATTR_PMIN then Inr (reached, timeout)
            else if word_of_int now < due_at (lastTime w) (minPeriod a)
            then Inr (False, min timeout (sint (due_at (lastTime w) (minPeriod a) - word_of_int now)))
            else Inr (True, timeout)))"

definition wants_notification :: "time \<Rightarrow> lwm2m_value option \<Rightarrow> watcher \<Rightarrow> time \<Rightarrow> (bool \<times> time) res" where
  "wants_notification now v w timeout =
     bindE (if update w then notify_changed now v w timeout else Inr (False, timeout)) (\<lambda>(notify, tm).
       Inr (notify \<or> (case parameters w of
                        None \<Rightarrow> False
                      | Some a \<Rightarrow> sets a ATTR_PMAX \<and> due_at (lastTime w) (maxPeriod a) \<le> word_of_int now), tm))"

section \<open>Notifications\<close>

definition media_number :: "media_type \<Rightarrow> int" where
  "media_number f =
     (case f of CONTENT_TEXT \<Rightarrow> 0 | CONTENT_LINK \<Rightarrow> 40 | CONTENT_OPAQUE \<Rightarrow> 42 | CONTENT_TLV \<Rightarrow> 11542
      | CONTENT_JSON \<Rightarrow> 11543 | CONTENT_OTHER x \<Rightarrow> x)"

text \<open>Bytes of the heap that are sent; all of them must have been written.\<close>

definition written :: "byte option list \<Rightarrow> byte list res" where
  "written cells = (if None \<in> set cells then Inl Uninitialised else Inr (map the cells))"

definition content_message :: "media_type \<Rightarrow> byte list \<Rightarrow> coap_packet \<Rightarrow> coap_packet" where
  "content_message f b p =
     snd (coap_set_payload (coap_set_header_content_type p (word_of_int (media_number f))) (Some b) (length b))"

text \<open>
  The message for all watchers of an observation, made for the first that is notified. \<open>ds\<close> is \<open>None\<close> when the
  resource was not read. The results are the message, the URI and the format; \<open>None\<close> is a failure.
\<close>

definition notification ::
    "lwm2m_uri \<Rightarrow> lwm2m_data list option \<Rightarrow> media_type \<Rightarrow> 's lwm2m_context
     \<Rightarrow> (coap_packet option \<times> lwm2m_uri \<times> media_type \<times> 's lwm2m_context) res" where
  "notification u ds format n =
     (let p = coap_init_message (ctx_protocol n) COAP_TYPE_NON COAP_205_CONTENT 0;
          done = (\<lambda>f cells u' m. bindE (written cells) (\<lambda>b. Inr (Some (content_message f b p), u', f, n\<lparr>memory := m\<rparr>))) in
      case ds of
        Some xs \<Rightarrow>
          bindE (lwm2m_data_serialize (Some u) (length xs) xs format (memory n)) (\<lambda>(f, r, u', m).
            case r of None \<Rightarrow> Inr (None, the u', f, n\<lparr>memory := m\<rparr>) | Some cells \<Rightarrow> done f cells (the u') m)
      | None \<Rightarrow>
          bindE (object_read (object_list n) u format (object_state n) (memory n)) (\<lambda>(r, f, cells, u', m).
            if r \<noteq> COAP_205_CONTENT then Inr (None, u', f, n\<lparr>memory := m\<rparr>)
            else done f (case cells of None \<Rightarrow> [] | Some c \<Rightarrow> c) u' m))"

definition send_notification ::
    "time \<Rightarrow> coap_packet \<Rightarrow> watcher \<Rightarrow> 's lwm2m_context \<Rightarrow> (coap_packet \<times> watcher \<times> 's lwm2m_context) res" where
  "send_notification now p w n =
     (let w1 = w\<lparr>lastTime := now, lastMid := nextMID n\<rparr>; n1 = n\<lparr>nextMID := nextMID n + 1\<rparr> in
      bindE (coap_set_header_token (p\<lparr>mid := lastMid w1\<rparr>) (token w) (length (token w))) (\<lambda>(_, p1).
      bindE (server_session n1 (server w)) (\<lambda>sess.
      bindE (message_send (coap_set_header_observe p1 (counter w)) sess n1) (\<lambda>(_, p2, n2).
        Inr (p2, w1\<lparr>counter := counter w + 1, update := False\<rparr>, n2)))))"

text \<open>The timeout of a watcher with a maximal period.\<close>

definition max_period_timeout :: "time \<Rightarrow> watcher \<Rightarrow> time \<Rightarrow> time" where
  "max_period_timeout now w timeout =
     (case parameters w of
        None \<Rightarrow> timeout
      | Some a \<Rightarrow> if sets a ATTR_PMAX then min timeout (sint (due_at (lastTime w) (maxPeriod a) - word_of_int now)) else timeout)"

text \<open>
  The loop over the watchers. Its state holds the message once it is made; a message that cannot be made ends the loop.
\<close>

fun notify_watchers ::
    "time \<Rightarrow> lwm2m_data list option \<Rightarrow> watcher list \<Rightarrow> coap_packet option \<Rightarrow> lwm2m_uri \<Rightarrow> media_type \<Rightarrow> time \<Rightarrow> 's lwm2m_context
     \<Rightarrow> (watcher list \<times> lwm2m_uri \<times> time \<times> 's lwm2m_context) res" where
  "notify_watchers now ds [] p u f timeout n = Inr ([], u, timeout, n)"
| "notify_watchers now ds (w # ws) p u f timeout n =
     (if \<not> active w then
        bindE (notify_watchers now ds ws p u f timeout n) (\<lambda>(ws', u', tm, n'). Inr (w # ws', u', tm, n'))
      else
        let v = (case ds of Some (d # _) \<Rightarrow> Some (data_value d) | _ \<Rightarrow> None) in
        bindE (wants_notification now v w timeout) (\<lambda>(notify, tm).
          if \<not> notify then
            bindE (notify_watchers now ds ws p u f (max_period_timeout now w tm) n) (\<lambda>(ws', u', tm', n'). Inr (w # ws', u', tm', n'))
          else
            bindE (case p of Some q \<Rightarrow> Inr (Some q, u, f, n) | None \<Rightarrow> notification u ds f n) (\<lambda>(q, u1, f1, n1).
              case q of
                None \<Rightarrow> Inr (w # ws, u1, tm, n1)
              | Some q1 \<Rightarrow>
                  bindE (send_notification now q1 w n1) (\<lambda>(q2, w1, n2).
                    let w2 = (case v of None \<Rightarrow> w1 | Some x \<Rightarrow> keep_value x w1) in
                    bindE (notify_watchers now ds ws (Some q2) u1 f1 (max_period_timeout now w2 tm) n2) (\<lambda>(ws', u', tm', n').
                      Inr (w2 # ws', u', tm', n'))))))"

text \<open>One observation. A resource that cannot be read is passed over.\<close>

definition observe_one :: "time \<Rightarrow> observed \<Rightarrow> time \<Rightarrow> 's lwm2m_context \<Rightarrow> (observed \<times> time \<times> 's lwm2m_context) res" where
  "observe_one now ob timeout n =
     (if freed ob then Inl UseAfterFree
      else
        bindE (if is_set_resource (uri ob)
               then bindE (object_readData (object_list n) (uri ob) (object_state n) (memory n)) (\<lambda>(r, ds, m).
                 if r \<noteq> COAP_205_CONTENT then Inr (None, m)
                 else if ds = [] then Inl NullDeref else Inr (Some (Some ds), m))
               else Inr (Some None, memory n)) (\<lambda>(r, m).
          let n1 = n\<lparr>memory := m\<rparr> in
          case r of
            None \<Rightarrow> Inr (ob, timeout, n1)
          | Some ds \<Rightarrow>
              bindE (notify_watchers now ds (watcherList ob) None (uri ob) CONTENT_TEXT timeout n1) (\<lambda>(ws, u, tm, n2).
                Inr (ob\<lparr>watcherList := ws, uri := u\<rparr>, tm, n2))))"

fun observe_nodes :: "time \<Rightarrow> observed list \<Rightarrow> time \<Rightarrow> 's lwm2m_context \<Rightarrow> (observed list \<times> time \<times> 's lwm2m_context) res" where
  "observe_nodes now [] timeout n = Inr ([], timeout, n)"
| "observe_nodes now (ob # obs) timeout n =
     bindE (observe_one now ob timeout n) (\<lambda>(ob', tm, n1).
     bindE (observe_nodes now obs tm n1) (\<lambda>(obs', tm', n2). Inr (ob' # obs', tm', n2)))"

definition observe_step :: "time \<Rightarrow> time \<Rightarrow> 's lwm2m_context \<Rightarrow> (time \<times> 's lwm2m_context) res" where
  "observe_step now timeout n =
     bindE (observe_nodes now (observedList n) timeout n) (\<lambda>(obs, tm, n'). Inr (tm, n'\<lparr>observedList := obs\<rparr>))"

end
