(* ===== verification/Device_Management.thy ===== *)
theory Device_Management
imports Notify
begin

text \<open>
  The client side of \<^verbatim>\<open>external/wakaama/management.c\<close>: requests of a server to read, write, execute, create, delete,
  observe and discover, and to set the attributes of a watcher.
\<close>

section \<open>Attributes in a query\<close>

text \<open>
  One option of the query compared with a name. \<^verbatim>\<open>strncmp\<close> reads the block of the option up to the first byte that
  differs; a name that is longer than the block is read past its end.
\<close>

fun names :: "byte list \<Rightarrow> byte list \<Rightarrow> bool res" where
  "names b [] = Inr True"
| "names [] (c # cs) = Inl OutOfBounds"
| "names (b # bs) (c # cs) = (if b \<noteq> c then Inr False else names bs cs)"

text \<open>
  The numbers of a query lie in the message: \<open>arr\<close> is the rest of it, \<open>len\<close> the length of the text, which is negative when
  the name goes on behind the end of the option. The first byte is looked at before the length.
\<close>

definition int_text_at :: "byte list \<Rightarrow> int \<Rightarrow> i64 option res" where
  "int_text_at arr len =
     (if len = 0 then Inr None
      else if arr = [] \<or> length arr < nat len then Inl OutOfBounds
      else if len < 0 then Inr (Some 0)
      else Inr (utils_plainTextToInt64 (take (nat len) arr)))"

text \<open>As \<open>utils_plainTextToFloat64\<close> in \<open>Ieee\<close>, where a text without a dot ends the array; here the byte behind it is there to be read.\<close>

definition float_text_at :: "byte list \<Rightarrow> int \<Rightarrow> double option res" where
  "float_text_at arr len =
     (if len = 0 then Inr None
      else if arr = [] \<or> length arr < nat len then Inl OutOfBounds
      else
        let neg = (hd arr = 45); digits = drop (if neg then 1 else 0) (take (nat len) arr);
            behind = max (nat len) (if neg then 1 else 0); signed = (\<lambda>r. if neg then dbl_neg r else r) in
        case float_int_part digits 0 of
          None \<Rightarrow> Inr None
        | Some (result, []) \<Rightarrow> if length arr \<le> behind then Inl OutOfBounds else Inr (Some (signed result))
        | Some (result, dot # decimals) \<Rightarrow>
            if decimals = [] then Inr None
            else Inr (map_option signed (float_dec_part decimals result (double_of_ratio False 1 10))))"

text \<open>
  What an option can ask of an attribute: to set it, with the place and length of the text of the value, or to clear it.
  \<open>None\<close> when the option does not name the attribute.
\<close>

datatype request = Set_to "byte list" int | Clear | Malformed

definition attribute_request :: "byte list \<Rightarrow> multi_option \<Rightarrow> request option res" where
  "attribute_request name x =
     bindE (names (opt_data x) name) (\<lambda>whole.
       if whole then
         Inr (Some (if unat (opt_len x) = length name then Malformed
                    else Set_to (drop (length name) (opt_data x)) (uint (opt_len x) - int (length name))))
       else bindE (names (opt_data x) (butlast name)) (\<lambda>bare.
         Inr (if \<not> bare then None
              else Some (if unat (opt_len x) \<noteq> length name - 1 then Malformed else Clear))))"

definition seen :: "byte \<Rightarrow> lwm2m_attributes \<Rightarrow> bool" where
  "seen f a \<longleftrightarrow> (toSet a OR toClear a) AND f \<noteq> 0"

definition mark_set :: "byte \<Rightarrow> lwm2m_attributes \<Rightarrow> lwm2m_attributes" where
  "mark_set f a = a\<lparr>toSet := toSet a OR f\<rparr>"

text \<open>The request carried out; \<open>put\<close> stores the value and is \<open>None\<close> for a text that is not one.\<close>

definition apply_request ::
    "byte \<Rightarrow> (byte list \<Rightarrow> int \<Rightarrow> lwm2m_attributes \<Rightarrow> lwm2m_attributes option res) \<Rightarrow> request \<Rightarrow> lwm2m_attributes \<Rightarrow> lwm2m_attributes option res" where
  "apply_request f put r a =
     (if seen f a then Inr None
      else case r of
        Malformed \<Rightarrow> Inr None
      | Clear \<Rightarrow> Inr (Some (a\<lparr>toClear := toClear a OR f\<rparr>))
      | Set_to t len \<Rightarrow> bindE (put t len a) (\<lambda>b. Inr (map_option (mark_set f) b)))"

definition put_seconds ::
    "(u32 \<Rightarrow> lwm2m_attributes \<Rightarrow> lwm2m_attributes) \<Rightarrow> byte list \<Rightarrow> int \<Rightarrow> lwm2m_attributes \<Rightarrow> lwm2m_attributes option res" where
  "put_seconds upd t len a =
     bindE (int_text_at t len) (\<lambda>r.
       Inr (case r of None \<Rightarrow> None | Some v \<Rightarrow> if sint v < 0 then None else Some (upd (ucast v) a)))"

definition put_real ::
    "bool \<Rightarrow> (double \<Rightarrow> lwm2m_attributes \<Rightarrow> lwm2m_attributes) \<Rightarrow> byte list \<Rightarrow> int \<Rightarrow> lwm2m_attributes \<Rightarrow> lwm2m_attributes option res" where
  "put_real non_negative upd t len a =
     bindE (float_text_at t len) (\<lambda>r.
       Inr (case r of
         None \<Rightarrow> None
       | Some v \<Rightarrow> if non_negative \<and> dbl_lt v 0 then None else Some (upd v a)))"

text \<open>The names in the order of the code, with their flags and how their values are stored.\<close>

definition attribute_table ::
    "(byte list \<times> byte \<times> (byte list \<Rightarrow> int \<Rightarrow> lwm2m_attributes \<Rightarrow> lwm2m_attributes option res)) list" where
  "attribute_table =
     [(bytes ''pmin='', ATTR_PMIN, put_seconds (\<lambda>v a. a\<lparr>minPeriod := v\<rparr>)),
      (bytes ''pmax='', ATTR_PMAX, put_seconds (\<lambda>v a. a\<lparr>maxPeriod := v\<rparr>)),
      (bytes ''gt='', ATTR_GT, put_real False (\<lambda>v a. a\<lparr>greaterThan := v\<rparr>)),
      (bytes ''lt='', ATTR_LT, put_real False (\<lambda>v a. a\<lparr>lessThan := v\<rparr>)),
      (bytes ''stp='', ATTR_STP, put_real True (\<lambda>v a. a\<lparr>step := v\<rparr>))]"

fun read_attribute ::
    "(byte list \<times> byte \<times> (byte list \<Rightarrow> int \<Rightarrow> lwm2m_attributes \<Rightarrow> lwm2m_attributes option res)) list
     \<Rightarrow> multi_option \<Rightarrow> lwm2m_attributes \<Rightarrow> lwm2m_attributes option res" where
  "read_attribute [] x a = Inr None"
| "read_attribute ((name, f, put) # rest) x a =
     bindE (attribute_request name x) (\<lambda>r.
       case r of None \<Rightarrow> read_attribute rest x a | Some q \<Rightarrow> apply_request f put q a)"

fun attributes_from :: "multi_option list \<Rightarrow> lwm2m_attributes \<Rightarrow> lwm2m_attributes option res" where
  "attributes_from [] a = Inr (Some a)"
| "attributes_from (x # xs) a = bindO (read_attribute attribute_table x a) (attributes_from xs)"

text \<open>\<open>None\<close> is the result -1.\<close>

definition prv_readAttributes :: "multi_option list \<Rightarrow> lwm2m_attributes option res" where
  "prv_readAttributes query = attributes_from query zero_attributes"

section \<open>Requests\<close>

text \<open>
  The answer to a GET: the status, the response with the content when the status is 2.05, and the
  context. \<open>r\<close>, \<open>f\<close> and \<open>cells\<close> are what was read.
\<close>

definition content_response ::
    "byte \<Rightarrow> media_type \<Rightarrow> byte option list option \<Rightarrow> coap_packet \<Rightarrow> 's lwm2m_context \<Rightarrow> (byte \<times> coap_packet \<times> 's lwm2m_context) res" where
  "content_response r f cells response n =
     (if r \<noteq> COAP_205_CONTENT then Inr (r, response, n)
      else case cells of
        None \<Rightarrow> Inr (r, snd (coap_set_payload (coap_set_header_content_type response (word_of_int (media_number f))) None 0), n)
      | Some c \<Rightarrow> bindE (written c) (\<lambda>b. Inr (r, content_message f b response, n)))"

definition dm_observe ::
    "lwm2m_uri \<Rightarrow> u16 \<Rightarrow> media_type \<Rightarrow> coap_packet \<Rightarrow> coap_packet \<Rightarrow> 's lwm2m_context \<Rightarrow> (byte \<times> coap_packet \<times> 's lwm2m_context) res" where
  "dm_observe u i format p response n =
     bindE (object_readData (object_list n) u (object_state n) (memory n)) (\<lambda>(r, ds, m).
       let n1 = n\<lparr>memory := m\<rparr> in
       if r \<noteq> COAP_205_CONTENT then Inr (r, response, n1)
       else bindE (observe_handleRequest u i ds p response n1) (\<lambda>(r2, resp, n2).
         if r2 \<noteq> COAP_205_CONTENT then Inr (r2, resp, n2)
         else bindE (lwm2m_data_serialize (Some u) (length ds) ds format (memory n2)) (\<lambda>(f, cells, _, m2).
           let n3 = n2\<lparr>memory := m2\<rparr> in
           case cells of
             None \<Rightarrow> Inr (COAP_500_INTERNAL_SERVER_ERROR, resp, n3)
           | Some c \<Rightarrow> content_response r2 f (Some c) resp n3)))"

definition dm_get ::
    "lwm2m_uri \<Rightarrow> u16 \<Rightarrow> media_type \<Rightarrow> coap_packet \<Rightarrow> coap_packet \<Rightarrow> 's lwm2m_context \<Rightarrow> (byte \<times> coap_packet \<times> 's lwm2m_context) res" where
  "dm_get u i format p response n =
     (if IS_OPTION p COAP_OPTION_OBSERVE then dm_observe u i format p response n
      else if IS_OPTION p COAP_OPTION_ACCEPT \<and> accept p = [40] then
        bindE (object_discover (object_list n) (observedList n) u (Some (unat i)) (object_state n) (memory n)) (\<lambda>(r, t, _, m).
          content_response r CONTENT_LINK (map_option (map Some) t) response (n\<lparr>memory := m\<rparr>))
      else
        bindE (if IS_OPTION p COAP_OPTION_ACCEPT
               then (case accept p of [] \<Rightarrow> Inl Uninitialised | x # _ \<Rightarrow> Inr (utils_convertMediaType x)) else Inr format) (\<lambda>fmt.
        bindE (object_read (object_list n) u fmt (object_state n) (memory n)) (\<lambda>(r, f, cells, _, m).
          content_response r f cells response (n\<lparr>memory := m\<rparr>))))"

definition location_text :: "lwm2m_uri \<Rightarrow> byte list" where
  "location_text u = bytes ''/'' @ nat_text (unat (objectId u)) @ bytes ''/'' @ nat_text (unat (instanceId u))"

definition dm_post ::
    "lwm2m_uri \<Rightarrow> media_type \<Rightarrow> coap_packet \<Rightarrow> coap_packet \<Rightarrow> 's lwm2m_context \<Rightarrow> (byte \<times> coap_packet \<times> 's lwm2m_context) res" where
  "dm_post u format p response n =
     (if \<not> is_set_instance u then
        bindE (object_create (object_list n) u format (message_payload p) (object_state n) (memory n)) (\<lambda>(r, u', s, m).
          let n1 = with_objects s m n in
          if r \<noteq> COAP_201_CREATED then Inr (r, response, n1)
          else if \<not> is_set_instance u' then Inr (COAP_500_INTERNAL_SERVER_ERROR, response, n1)
          else bindE (coap_set_header_location_path response (location_text u' @ [0]) m) (\<lambda>(_, resp, m1).
            bindE (lwm2m_update_registration 0 True (n1\<lparr>memory := m1\<rparr>)) (\<lambda>(_, n2). Inr (r, resp, n2))))
      else if \<not> is_set_resource u then
        bindE (object_write (object_list n) u format (message_payload p) (object_state n) (memory n)) (\<lambda>(r, s, m).
          Inr (r, response, with_objects s m n))
      else
        bindE (object_execute (object_list n) u (message_payload p) (object_state n) (memory n)) (\<lambda>(r, s, m).
          Inr (r, response, with_objects s m n)))"

definition dm_put :: "lwm2m_uri \<Rightarrow> u16 \<Rightarrow> media_type \<Rightarrow> coap_packet \<Rightarrow> 's lwm2m_context \<Rightarrow> (byte \<times> 's lwm2m_context) res" where
  "dm_put u i format p n =
     (if IS_OPTION p COAP_OPTION_URI_QUERY then
        bindE (prv_readAttributes (uri_query p)) (\<lambda>a.
          case a of None \<Rightarrow> Inr (COAP_400_BAD_REQUEST, n) | Some b \<Rightarrow> observe_setParameters u i b n)
      else if is_set_instance u then
        bindE (object_write (object_list n) u format (message_payload p) (object_state n) (memory n)) (\<lambda>(r, s, m).
          Inr (r, with_objects s m n))
      else Inr (COAP_400_BAD_REQUEST, n))"

definition dm_delete :: "lwm2m_uri \<Rightarrow> 's lwm2m_context \<Rightarrow> (byte \<times> 's lwm2m_context) res" where
  "dm_delete u n =
     (if \<not> is_set_instance u \<or> is_set_resource u then Inr (COAP_400_BAD_REQUEST, n)
      else bindE (ends (object_delete (object_list n) u (object_state n) (memory n))) (\<lambda>(r, s, m).
        if r = COAP_202_DELETED
        then bindE (lwm2m_update_registration 0 True (with_objects s m n)) (\<lambda>(_, n'). Inr (r, n'))
        else Inr (r, with_objects s m n)))"

text \<open>Only a server that the client is registered at is served.\<close>

definition registered :: "lwm2m_server \<Rightarrow> bool" where
  "registered s \<longleftrightarrow> status s \<in> {STATE_REGISTERED, STATE_REG_UPDATE_NEEDED, STATE_REG_FULL_UPDATE_NEEDED, STATE_REG_UPDATE_PENDING}"

definition dm_handleRequest ::
    "lwm2m_uri \<Rightarrow> u16 \<Rightarrow> coap_packet \<Rightarrow> coap_packet \<Rightarrow> 's lwm2m_context \<Rightarrow> (byte \<times> coap_packet \<times> 's lwm2m_context) res" where
  "dm_handleRequest u i p response n =
     bindE (get_server i n) (\<lambda>srv.
       let format = (if IS_OPTION p COAP_OPTION_CONTENT_TYPE then utils_convertMediaType (content_type p) else CONTENT_TLV) in
       if objectId u = 0 then Inr (COAP_404_NOT_FOUND, response, n)
       else if \<not> registered srv then Inr (COAP_IGNORE, response, n)
       else if code p = COAP_GET then dm_get u i format p response n
       else if code p = COAP_POST then dm_post u format p response n
       else if code p = COAP_PUT then bindE (dm_put u i format p n) (\<lambda>(r, n'). Inr (r, response, n'))
       else if code p = COAP_DELETE then bindE (dm_delete u n) (\<lambda>(r, n'). Inr (r, response, n'))
       else Inr (COAP_400_BAD_REQUEST, response, n))"

end
