(* ===== verification/Packet.thy ===== *)
theory Packet
imports Device_Management
begin

text \<open>
  The packets that a client receives, \<^verbatim>\<open>handle_request\<close> and \<^verbatim>\<open>lwm2m_handle_packet\<close> of \<^verbatim>\<open>external/wakaama/packet.c\<close>.

  The text of the last error of the parser, \<^verbatim>\<open>coap_error_message\<close>, is a variable of the module; it is an argument and a
  result here.
\<close>

abbreviation (input) COAP_402_BAD_OPTION :: byte where "COAP_402_BAD_OPTION \<equiv> 0x82"

definition REST_MAX_CHUNK_SIZE :: nat where "REST_MAX_CHUNK_SIZE = 128"

section \<open>Requests\<close>

definition LWM2M_URI_MASK_TYPE :: byte where "LWM2M_URI_MASK_TYPE = 0x70"

definition dispatch_request ::
    "lwm2m_uri \<Rightarrow> session \<Rightarrow> coap_packet \<Rightarrow> coap_packet \<Rightarrow> 's lwm2m_context \<Rightarrow> (byte \<times> coap_packet \<times> 's lwm2m_context) res" where
  "dispatch_request u from p response n =
     (let kind = flag u AND LWM2M_URI_MASK_TYPE in
      if kind = 0 then
        (case utils_findServer from n of
           Some s \<Rightarrow> dm_handleRequest u (secObjInstID s) p response n
         | None \<Rightarrow>
             (case utils_findBootstrapServer from n of
                Some s \<Rightarrow> bindE (bootstrap_handleCommand u (secObjInstID s) p n) (\<lambda>(r, n'). Inr (r, response, n'))
              | None \<Rightarrow> Inr (COAP_IGNORE, response, n)))
      else if kind = FLAG_DELETE_ALL then
        if code p \<noteq> COAP_DELETE then Inr (COAP_400_BAD_REQUEST, response, n)
        else bindE (bootstrap_handleDeleteAll from n) (\<lambda>(r, n'). Inr (r, response, n'))
      else if kind = FLAG_BOOTSTRAP then
        if code p = COAP_POST then let (r, n') = bootstrap_handleFinish from n in Inr (r, response, n')
        else Inr (COAP_IGNORE, response, n)
      else Inr (COAP_IGNORE, response, n))"

definition handle_request ::
    "session \<Rightarrow> coap_packet \<Rightarrow> coap_packet \<Rightarrow> 's lwm2m_context \<Rightarrow> (byte \<times> coap_packet \<times> 's lwm2m_context) res" where
  "handle_request from p response n =
     bindE (uri_decode (altPath n) (map option_bytes (uri_path p)) (memory n)) (\<lambda>(u, m).
       let n1 = n\<lparr>memory := m\<rparr> in
       case u of
         None \<Rightarrow> Inr (COAP_400_BAD_REQUEST, response, n1)
       | Some v \<Rightarrow>
           bindE (dispatch_request v from p response n1) (\<lambda>(r, resp, n2).
             Inr (if COAP_IGNORE < r \<and> r < COAP_400_BAD_REQUEST then COAP_NO_ERROR else r,
                  snd (coap_set_status_code resp (ucast r)), n2)))"

section \<open>Blocks\<close>

text \<open>
  The first part of a response: its type follows that of the request, its token is the one of the
  request.
\<close>

definition prepare_response :: "coap_packet \<Rightarrow> ('c, 'z) net_scheme \<Rightarrow> (coap_packet \<times> ('c, 'z) net_scheme) res" where
  "prepare_response p n =
     (let proto = ctx_protocol n;
          (r, n1) = (if is_tcp (protocol p) then (coap_init_message proto COAP_TYPE_NON COAP_205_CONTENT (mid p), n)
                     else if msg_type p = COAP_TYPE_CON then (coap_init_message proto COAP_TYPE_ACK COAP_205_CONTENT (mid p), n)
                     else (coap_init_message proto COAP_TYPE_NON COAP_205_CONTENT (nextMID n), n\<lparr>nextMID := nextMID n + 1\<rparr>)) in
      if pkt_token p = [] then Inr (r, n1)
      else bindE (coap_set_header_token r (pkt_token p) (length (pkt_token p))) (\<lambda>(_, r'). Inr (r', n1)))"

text \<open>A block of a payload for the server of the session: the status, the request with the whole payload, and the response.\<close>

definition with_block1 ::
    "session \<Rightarrow> coap_packet \<Rightarrow> coap_packet \<Rightarrow> 's lwm2m_context \<Rightarrow> (byte \<times> coap_packet \<times> coap_packet \<times> 's lwm2m_context) res" where
  "with_block1 from p response n =
     (let handle = (\<lambda>srv store.
        bindE (coap_block1_handler (block1Data srv) (mid p) (message_payload p) (block1_size p) (block1_num p) (block1_more p \<noteq> 0) (memory n))
          (\<lambda>(r, out, d, m).
            let n1 = store (\<lambda>s. s\<lparr>block1Data := d\<rparr>) (n\<lparr>memory := m\<rparr>);
                p1 = (case out of Some (b, k) \<Rightarrow> if r = COAP_NO_ERROR then p\<lparr>payload := b, payload_len := word_of_nat k\<rparr> else p | None \<Rightarrow> p);
                resp = (if r = COAP_231_CONTINUE
                        then snd (coap_set_header_block1 response (block1_num p) (block1_more p)
                               (min (block1_size p) (word_of_nat REST_MAX_CHUNK_SIZE)))
                        else response) in
            Inr (r, p1, resp, n1))) in
      case utils_findServer from n of
        Some s \<Rightarrow> handle s (set_server (secObjInstID s))
      | None \<Rightarrow>
          (case utils_findBootstrapServer from n of
             Some s \<Rightarrow> handle s (set_bootstrap_server (secObjInstID s))
           | None \<Rightarrow> Inr (COAP_500_INTERNAL_SERVER_ERROR, p, response, n)))"

text \<open>
  The block of the payload that a request asks for, and whether the payload of the response is then the start of a
  block of the heap, which is freed when it was sent. No resource handles blocks itself, so the offset is
  always the one asked for.
\<close>

definition slice_payload :: "coap_packet \<Rightarrow> coap_packet \<Rightarrow> (coap_packet \<times> bool) res" where
  "slice_payload p response =
     (case coap_get_header_block2 p of
        None \<Rightarrow> Inr (response, True)
      | Some (num, _, size0, offset) \<Rightarrow>
          let sz = min size0 (word_of_nat REST_MAX_CHUNK_SIZE); total = ucast (payload_len response) :: u32 in
          if total \<le> offset
          then Inr (snd (coap_set_payload (response\<lparr>code := COAP_402_BAD_OPTION\<rparr>) (Some (bytes ''BlockOutOfScope'' @ [0])) 15), False)
          else case payload response of
            None \<Rightarrow> Inl NullDeref
          | Some b \<Rightarrow>
              let rest = total - offset;
                  r1 = snd (coap_set_header_block2 response num (if ucast sz < rest then 1 else 0) sz) in
              Inr (snd (coap_set_payload r1 (Some (drop (unat offset) b)) (unat (min rest (ucast sz)))), offset = 0))"

section \<open>A packet\<close>

definition send_response ::
    "session \<Rightarrow> coap_packet \<Rightarrow> coap_packet \<Rightarrow> ('c, 'z) net_scheme \<Rightarrow> (byte \<times> ('c, 'z) net_scheme) res" where
  "send_response from p response n =
     bindE (slice_payload p response) (\<lambda>(resp, on_heap).
     bindE (message_send resp (Some from) n) (\<lambda>(st, resp', n').
       if payload resp' \<noteq> None \<and> \<not> on_heap then Inl InvalidFree else Inr (st, n')))"

definition packet_request :: "session \<Rightarrow> coap_packet \<Rightarrow> 's lwm2m_context \<Rightarrow> (byte \<times> 's lwm2m_context) res" where
  "packet_request from p n =
     bindE (prepare_response p n) (\<lambda>(response, n1).
     bindE (if IS_OPTION p COAP_OPTION_BLOCK1 then with_block1 from p response n1 else Inr (COAP_NO_ERROR, p, response, n1)) (\<lambda>(r1, p1, resp1, n2).
     bindE (if r1 = COAP_NO_ERROR then bindE (handle_request from p1 resp1 n2) (\<lambda>(r, resp, n'). Inr (r, resp, n')) else Inr (r1, resp1, n2)) (\<lambda>(r2, resp2, n3).
       if r2 = COAP_NO_ERROR then send_response from p1 resp2 n3
       else if r2 = COAP_IGNORE then Inr (r2, n3)
       else bindE (message_send (snd (coap_set_status_code resp2 (ucast r2))) (Some from) n3) (\<lambda>(st, _, n4). Inr (st, n4)))))"

definition packet_answer :: "session \<Rightarrow> coap_packet \<Rightarrow> 's lwm2m_context \<Rightarrow> (byte \<times> 's lwm2m_context) res" where
  "packet_answer from p n =
     (if msg_type p = COAP_TYPE_NON \<or> msg_type p = COAP_TYPE_CON then
        bindE (transaction_handleResponse client_callback from p True n) (\<lambda>(finished, n1).
          if \<not> finished \<and> msg_type p = COAP_TYPE_CON \<and> \<not> is_tcp (ctx_protocol n)
          then bindE (message_send (coap_init_message (ctx_protocol n) COAP_TYPE_ACK 0 (mid p)) (Some from) n1) (\<lambda>(st, _, n2). Inr (st, n2))
          else Inr (COAP_NO_ERROR, n1))
      else if msg_type p = COAP_TYPE_RST then
        bindE (context_cancel (mid p) from n) (\<lambda>n1.
        bindE (transaction_handleResponse client_callback from p False n1) (\<lambda>(_, n2). Inr (COAP_NO_ERROR, n2)))
      else if msg_type p = COAP_TYPE_ACK then
        bindE (transaction_handleResponse client_callback from p False n) (\<lambda>(_, n1). Inr (COAP_NO_ERROR, n1))
      else Inr (COAP_NO_ERROR, n))"

text \<open>\<open>data\<close> is the buffer of the caller, \<open>data_len\<close> the length of the packet in it, \<open>em\<close> the text of the last error.\<close>

definition lwm2m_handle_packet ::
    "byte list \<Rightarrow> nat \<Rightarrow> session \<Rightarrow> byte list \<Rightarrow> 's lwm2m_context \<Rightarrow> (byte list \<times> 's lwm2m_context) res" where
  "lwm2m_handle_packet data data_len from em n =
     bindE (coap_parse_message (ctx_protocol n) data (unat (word_of_nat data_len :: u16)) em (memory n)) (\<lambda>(st, p, em', m).
     bindE (if st \<noteq> COAP_NO_ERROR then Inr (st, n\<lparr>memory := m\<rparr>)
            else if COAP_GET \<le> code p \<and> code p \<le> COAP_DELETE then packet_request from p (n\<lparr>memory := m\<rparr>)
            else packet_answer from p (n\<lparr>memory := m\<rparr>)) (\<lambda>(r, n1).
       if r = COAP_NO_ERROR \<or> r = COAP_IGNORE then Inr (em', n1)
       else
         let c = (if 192 \<le> r then COAP_500_INTERNAL_SERVER_ERROR else r);
             q = coap_init_message (ctx_protocol n) COAP_TYPE_ACK c (mid p) in
         bindE (message_send (snd (coap_set_payload q (Some em') (length em'))) (Some from) n1) (\<lambda>(_, _, n2). Inr (em', n2))))"

end
