(* ===== verification/Lwm2m_Core.thy ===== *)
theory Lwm2m_Core
imports Packet
begin

text \<open>
  The life of a client, \<^verbatim>\<open>external/wakaama/liblwm2m.c\<close>: it is configured, stepped in a loop, and closed.
\<close>

section \<open>Start\<close>

text \<open>\<open>seed\<close> is what \<^verbatim>\<open>rand()\<close> returns; \<open>None\<close> is a failed allocation.\<close>

definition lwm2m_init2 :: "coap_protocol \<Rightarrow> u16 \<Rightarrow> 's \<Rightarrow> time \<Rightarrow> mem \<Rightarrow> 's lwm2m_context option" where
  "lwm2m_init2 proto seed s now m =
     (case lwm2m_malloc m of
        (False, m1) \<Rightarrow> None
      | (True, m1) \<Rightarrow> Some \<lparr>transactionList = [], nextMID = seed, ctx_protocol = proto, next_ref = 0, clock = now, link = [], sent = [],
          memory = m1, object_state = s, object_list = [], endpointName = None, msisdn = None, altPath = None, serverList = [],
          bootstrapServerList = [], client_state = STATE_INITIAL, observedList = [], connects = [], closed = []\<rparr>)"

definition lwm2m_init :: "u16 \<Rightarrow> 's \<Rightarrow> time \<Rightarrow> mem \<Rightarrow> 's lwm2m_context option" where
  "lwm2m_init = lwm2m_init2 COAP_UDP"

definition lwm2m_strdup :: "byte list \<Rightarrow> mem \<Rightarrow> byte list option \<times> mem" where
  "lwm2m_strdup s m = (case lwm2m_malloc m of (False, m1) \<Rightarrow> (None, m1) | (True, m1) \<Rightarrow> (Some s, m1))"

text \<open>An optional text that is copied; \<open>None\<close> when the copy failed.\<close>

definition copy_text :: "byte list option \<Rightarrow> mem \<Rightarrow> byte list option option \<times> mem" where
  "copy_text t m =
     (case t of None \<Rightarrow> (Some None, m)
      | Some s \<Rightarrow> (case lwm2m_strdup s m of (None, m1) \<Rightarrow> (None, m1) | (Some c, m1) \<Rightarrow> (Some (Some c), m1)))"

text \<open>The texts are given without their terminators. What was copied before a failure stays.\<close>

definition lwm2m_configure ::
    "byte list option \<Rightarrow> byte list option \<Rightarrow> byte list option \<Rightarrow> 's object_ops list \<Rightarrow> 's lwm2m_context \<Rightarrow> (byte \<times> 's lwm2m_context) res" where
  "lwm2m_configure name num alt objs n =
     (if endpointName n \<noteq> None \<or> object_list n \<noteq> [] then Inr (COAP_400_BAD_REQUEST, n)
      else case name of
        None \<Rightarrow> Inr (COAP_400_BAD_REQUEST, n)
      | Some nm \<Rightarrow>
        if length objs < 3 then Inr (COAP_400_BAD_REQUEST, n)
        else if \<not> {0, 1, 3} \<subseteq> ops_id ` set objs then Inr (COAP_400_BAD_REQUEST, n)
        else bindE (if alt = None then Inr True else utils_isAltPathValid (map_option (\<lambda>t. t @ [0]) alt)) (\<lambda>valid.
          if \<not> valid then Inr (COAP_400_BAD_REQUEST, n)
          else
            let alt' = (case alt of Some [_] \<Rightarrow> None | _ \<Rightarrow> alt); (nm', m1) = lwm2m_strdup nm (memory n);
                n1 = n\<lparr>endpointName := nm', memory := m1\<rparr> in
            Inr (if nm' = None then (COAP_500_INTERNAL_SERVER_ERROR, n1)
              else case copy_text num m1 of
                (None, m2) \<Rightarrow> (COAP_500_INTERNAL_SERVER_ERROR, n1\<lparr>memory := m2\<rparr>)
              | (Some num', m2) \<Rightarrow>
                (case copy_text alt' m2 of
                   (None, m3) \<Rightarrow> (COAP_500_INTERNAL_SERVER_ERROR, n1\<lparr>msisdn := num', memory := m3\<rparr>)
                 | (Some a, m3) \<Rightarrow>
                     (COAP_NO_ERROR, n1\<lparr>msisdn := num', altPath := a, memory := m3,
                        object_list := foldl (lwm2m_list_add ops_id) [] objs\<rparr>)))))"

definition lwm2m_add_object :: "'s object_ops \<Rightarrow> 's lwm2m_context \<Rightarrow> (byte \<times> 's lwm2m_context) res" where
  "lwm2m_add_object ob n =
     (if lwm2m_list_find ops_id (object_list n) (ops_id ob) \<noteq> None then Inr (COAP_406_NOT_ACCEPTABLE, n)
      else let n1 = n\<lparr>object_list := lwm2m_list_add ops_id (object_list n) ob\<rparr> in
        if client_state n = STATE_READY then lwm2m_update_registration 0 True n1 else Inr (COAP_NO_ERROR, n1))"

definition lwm2m_remove_object :: "u16 \<Rightarrow> 's lwm2m_context \<Rightarrow> (byte \<times> 's lwm2m_context) res" where
  "lwm2m_remove_object i n =
     (let (obs, removed) = lwm2m_list_remove ops_id (object_list n) i; n1 = n\<lparr>object_list := obs\<rparr> in
      if removed = None then Inr (COAP_404_NOT_FOUND, n1)
      else if client_state n = STATE_READY then lwm2m_update_registration 0 True n1
      else Inr (COAP_NO_ERROR, n1))"

section \<open>Servers that go\<close>

text \<open>
  A freed server is still pointed to: by the callbacks of its transactions and by its watchers. They
  dangle.
\<close>

definition dangle_callback :: "(reply_handler \<Rightarrow> bool) \<Rightarrow> reply_handler transaction \<Rightarrow> reply_handler transaction" where
  "dangle_callback gone t =
     (case callback t of Some c \<Rightarrow> if gone c then t\<lparr>callback := Some Dangling_reply\<rparr> else t | None \<Rightarrow> t)"

definition dangle_watcher :: "u16 \<Rightarrow> watcher \<Rightarrow> watcher" where
  "dangle_watcher i w = (if server w = unat i then w\<lparr>server := 0x10000\<rparr> else w)"

definition server_gone :: "u16 \<Rightarrow> 's lwm2m_context \<Rightarrow> 's lwm2m_context" where
  "server_gone i n =
     n\<lparr>transactionList := map (dangle_callback (\<lambda>c. c = Registration_reply i \<or> c = Update_reply i)) (transactionList n),
       observedList := map (\<lambda>ob. ob\<lparr>watcherList := map (dangle_watcher i) (watcherList ob)\<rparr>) (observedList n)\<rparr>"

definition bootstrap_server_gone :: "u16 \<Rightarrow> 's lwm2m_context \<Rightarrow> 's lwm2m_context" where
  "bootstrap_server_gone i n =
     n\<lparr>transactionList := map (dangle_callback (\<lambda>c. c = Bootstrap_reply i)) (transactionList n)\<rparr>"

text \<open>
  The servers that are not marked stay, those of a bootstrap with a fresh status; then the instances of the security
  object that have no server get one.
\<close>

definition prv_refreshServerList :: "'s lwm2m_context \<Rightarrow> (int \<times> 's lwm2m_context) res" where
  "prv_refreshServerList n =
     (let bs = foldl (lwm2m_list_add secObjInstID) [] (map (\<lambda>s. s\<lparr>status := STATE_DEREGISTERED\<rparr>) (filter (\<lambda>s. \<not> dirty s) (bootstrapServerList n)));
          srv = foldl (lwm2m_list_add secObjInstID) [] (filter (\<lambda>s. \<not> dirty s) (serverList n));
          n1 = fold (\<lambda>s. bootstrap_server_gone (secObjInstID s)) (filter dirty (bootstrapServerList n)) n;
          n2 = fold (\<lambda>s. server_gone (secObjInstID s)) (filter dirty (serverList n)) n1 in
      bindE (object_getServers (object_list n) bs srv (object_state n) (memory n)) (\<lambda>(r, bs', srv', m).
        Inr (r, n2\<lparr>bootstrapServerList := bs', serverList := srv', memory := m\<rparr>)))"

section \<open>The end\<close>

fun deregister_all :: "u16 list \<Rightarrow> 's lwm2m_context \<Rightarrow> 's lwm2m_context res" where
  "deregister_all [] n = Inr n"
| "deregister_all (i # is) n = bindE (registration_deregister i n) (deregister_all is)"

definition lwm2m_deregister :: "'s lwm2m_context \<Rightarrow> 's lwm2m_context res" where
  "lwm2m_deregister n = deregister_all (map secObjInstID (serverList n)) n"

definition prv_deleteServerList :: "'s lwm2m_context \<Rightarrow> 's lwm2m_context" where
  "prv_deleteServerList n = (fold (\<lambda>s. server_gone (secObjInstID s)) (serverList n) n)\<lparr>serverList := []\<rparr>"

definition prv_deleteBootstrapServerList :: "'s lwm2m_context \<Rightarrow> 's lwm2m_context" where
  "prv_deleteBootstrapServerList n =
     (fold (\<lambda>s. bootstrap_server_gone (secObjInstID s)) (bootstrapServerList n) n)\<lparr>bootstrapServerList := []\<rparr>"

definition prv_deleteObservedList :: "'s lwm2m_context \<Rightarrow> 's lwm2m_context res" where
  "prv_deleteObservedList n =
     (if \<exists>ob \<in> set (observedList n). freed ob then Inl UseAfterFree else Inr (n\<lparr>observedList := []\<rparr>))"

definition prv_deleteTransactionList :: "'s lwm2m_context \<Rightarrow> 's lwm2m_context" where
  "prv_deleteTransactionList n = n\<lparr>transactionList := []\<rparr>"

text \<open>What is left of the context when it is freed: the datagrams and the sessions.\<close>

definition lwm2m_close :: "'s lwm2m_context \<Rightarrow> 's lwm2m_context res" where
  "lwm2m_close n =
     bindE (lwm2m_deregister n) (\<lambda>n1.
     bindE (prv_deleteObservedList (prv_deleteBootstrapServerList (prv_deleteServerList n1))) (\<lambda>n2.
       Inr (prv_deleteTransactionList (n2\<lparr>endpointName := None, msisdn := None, altPath := None\<rparr>))))"

section \<open>A step\<close>

text \<open>
  The switch over the state: a result other than \<open>None\<close> is the status with which the step is left. A \<^verbatim>\<open>goto next_step\<close> is a call of
  the function for the states that can follow, of which no chain has more than three.
\<close>

definition step_bootstrap_required :: "time \<Rightarrow> time \<Rightarrow> 's lwm2m_context \<Rightarrow> (byte option \<times> time \<times> 's lwm2m_context) res" where
  "step_bootstrap_required now timeout n =
     (if bootstrapServerList n = [] then Inr (Some COAP_503_SERVICE_UNAVAILABLE, timeout, n)
      else bindE (bootstrap_start n) (\<lambda>n1.
        bindE (bootstrap_step (word_of_int now) timeout (n1\<lparr>client_state := STATE_BOOTSTRAPPING\<rparr>)) (\<lambda>(tm, n2). Inr (None, tm, n2))))"

definition step_initial :: "'s lwm2m_context \<Rightarrow> (byte option \<times> 's lwm2m_context) res" where
  "step_initial n =
     bindE (prv_refreshServerList n) (\<lambda>(r, n1).
       Inr (if r \<noteq> 0 then (Some COAP_503_SERVICE_UNAVAILABLE, n1)
            else (None, n1\<lparr>client_state := if serverList n1 \<noteq> [] then STATE_REGISTER_REQUIRED else STATE_BOOTSTRAP_REQUIRED\<rparr>)))"

text \<open>The states that no other state follows within the step.\<close>

definition step_settled :: "time \<Rightarrow> time \<Rightarrow> 's lwm2m_context \<Rightarrow> (byte option \<times> time \<times> 's lwm2m_context) res" where
  "step_settled now timeout n =
     (case client_state n of
        STATE_BOOTSTRAP_REQUIRED \<Rightarrow> step_bootstrap_required now timeout n
      | STATE_REGISTER_REQUIRED \<Rightarrow>
          bindE (registration_start n) (\<lambda>(r, n1).
            Inr (if r \<noteq> COAP_NO_ERROR then (Some r, timeout, n1) else (None, timeout, n1\<lparr>client_state := STATE_REGISTERING\<rparr>)))
      | _ \<Rightarrow> Inr (None, timeout, n))"

definition step_restart :: "time \<Rightarrow> time \<Rightarrow> 's lwm2m_context \<Rightarrow> (byte option \<times> time \<times> 's lwm2m_context) res" where
  "step_restart now timeout n =
     bindE (step_initial n) (\<lambda>(r, n1). if r \<noteq> None then Inr (r, timeout, n1) else step_settled now timeout n1)"

definition state_step :: "time \<Rightarrow> time \<Rightarrow> 's lwm2m_context \<Rightarrow> (byte option \<times> time \<times> 's lwm2m_context) res" where
  "state_step now timeout n =
     (case client_state n of
        STATE_INITIAL \<Rightarrow> step_restart now timeout n
      | STATE_BOOTSTRAPPING \<Rightarrow>
          (let st = bootstrap_getStatus n in
           if st = STATE_BS_FINISHED then step_restart now timeout (n\<lparr>client_state := STATE_INITIAL\<rparr>)
           else if st = STATE_BS_FAILED then Inr (Some COAP_503_SERVICE_UNAVAILABLE, timeout, n)
           else bindE (bootstrap_step (word_of_int now) timeout n) (\<lambda>(tm, n1). Inr (None, tm, n1)))
      | STATE_REGISTERING \<Rightarrow>
          (let st = registration_getStatus n in
           if st = STATE_REGISTERED then Inr (None, timeout, n\<lparr>client_state := STATE_READY\<rparr>)
           else if st = STATE_REG_FAILED then step_settled now timeout (n\<lparr>client_state := STATE_BOOTSTRAP_REQUIRED\<rparr>)
           else Inr (None, timeout, n))
      | STATE_READY \<Rightarrow>
          if registration_getStatus n = STATE_REG_FAILED
          then step_settled now timeout (n\<lparr>client_state := STATE_BOOTSTRAP_REQUIRED\<rparr>)
          else Inr (None, timeout, n)
      | _ \<Rightarrow> step_settled now timeout n)"

definition lwm2m_step :: "time \<Rightarrow> 's lwm2m_context \<Rightarrow> (byte \<times> time \<times> 's lwm2m_context) res" where
  "lwm2m_step timeout n =
     (let now = clock n in
      if now < 0 then Inr (COAP_500_INTERNAL_SERVER_ERROR, timeout, n)
      else bindE (state_step now timeout n) (\<lambda>(r, tm, n1).
        case r of
          Some st \<Rightarrow> Inr (st, tm, n1)
        | None \<Rightarrow>
            bindE (observe_step now tm n1) (\<lambda>(tm2, n2).
            bindE (registration_step now tm2 n2) (\<lambda>(tm3, n3).
            bindE (transaction_step client_callback now tm3 n3) (\<lambda>(tm4, n4). Inr (0, tm4, n4))))))"

end
