(* ===== verification/Requests.thy ===== *)
theory Requests
imports Exchange Lwm2m_Core
begin

text \<open>
  What the requests of others do to a client: those of strangers, those of servers it is not registered at, and those
  for the blocks of a large answer.
\<close>

section \<open>What sending leaves as it was\<close>

text \<open>Everything but the id of the next message, the memory, the network and the observations.\<close>

definition untouched :: "'s lwm2m_context \<Rightarrow> 's lwm2m_context \<Rightarrow> bool" where
  "untouched n n' \<longleftrightarrow>
     object_state n' = object_state n \<and> object_list n' = object_list n \<and> serverList n' = serverList n \<and>
     bootstrapServerList n' = bootstrapServerList n \<and> client_state n' = client_state n \<and>
     transactionList n' = transactionList n \<and> ctx_protocol n' = ctx_protocol n \<and> altPath n' = altPath n \<and> closed n' = closed n"

lemma untouched_simps [simp]:
  "untouched n n" "untouched n (n\<lparr>memory := m\<rparr>)" "untouched n (n\<lparr>nextMID := i\<rparr>)" "untouched n (n\<lparr>link := l\<rparr>)"
  "untouched n (n\<lparr>sent := s\<rparr>)" "untouched n (n\<lparr>sent := s, link := l\<rparr>)" "untouched n (n\<lparr>observedList := obs\<rparr>)"
  by (simp_all add: untouched_def)

lemma untouched_trans: "untouched a b \<Longrightarrow> untouched b c \<Longrightarrow> untouched a c"
  by (simp add: untouched_def)

text \<open>At most one datagram, to the given session; the result is 0 when it was sent.\<close>

definition answered :: "session \<Rightarrow> byte \<Rightarrow> 's lwm2m_context \<Rightarrow> 's lwm2m_context \<Rightarrow> bool" where
  "answered from st n n' \<longleftrightarrow> untouched n n' \<and> observedList n' = observedList n \<and>
     (sent n' = sent n \<or> st = COAP_NO_ERROR \<and> (\<exists>b. sent n' = sent n @ [(from, b)]))"

lemma answered_trans:
  "untouched a b \<Longrightarrow> observedList b = observedList a \<Longrightarrow> sent b = sent a \<Longrightarrow> answered from st b c \<Longrightarrow> answered from st a c"
  by (auto simp: answered_def intro: untouched_trans)

lemma buffer_send_answers:
  "lwm2m_buffer_send (Some from) b n = (st, n') \<Longrightarrow> answered from st n n'"
  by (auto simp: lwm2m_buffer_send_def answered_def split: list.splits bool.splits)

lemma message_send_answers:
  assumes "message_send p (Some from) n = Inr (st, p', n')"
  shows "answered from st n n'"
proof -
  have m: "answered from st' n n''" if "lwm2m_buffer_send (Some from) b (n\<lparr>memory := m\<rparr>) = (st', n'')" for b m st' n''
    using answered_trans [OF _ _ _ buffer_send_answers [OF that]] by simp
  have q: "answered from st' n (n\<lparr>memory := m\<rparr>)" "answered from st' n n" for m st' by (simp_all add: answered_def)
  show ?thesis
    using assms m q unfolding message_send_def
    by (auto simp: Let_def elim!: bindE_Inr_E split: prod.splits bool.splits if_splits)
qed

section \<open>Strangers\<close>

definition stranger :: "session \<Rightarrow> 's lwm2m_context \<Rightarrow> bool" where
  "stranger from n \<longleftrightarrow> utils_findServer from n = None \<and> utils_findBootstrapServer from n = None \<and>
     (\<forall>t \<in> set (transactionList n). peerH t \<noteq> from)"

lemma stranger_untouched: "untouched n n' \<Longrightarrow> stranger from n' = stranger from n"
  by (simp add: untouched_def stranger_def utils_findServer_def utils_findBootstrapServer_def)

lemma response_stranger:
  "\<forall>t \<in> set ts. peerH t \<noteq> from \<Longrightarrow> response_loop run from p hr ts n = Inr (False, n)"
  by (induction ts) auto

lemma handle_response_stranger:
  "stranger from n \<Longrightarrow> transaction_handleResponse run from p hr n = Inr (False, n)"
  by (simp add: transaction_handleResponse_def response_stranger stranger_def)

lemma context_cancel_untouched: "context_cancel i from n = Inr n' \<Longrightarrow> untouched n n' \<and> sent n' = sent n"
  by (auto simp: context_cancel_def elim!: bindE_Inr_E)

lemma packet_answer_stranger:
  assumes "stranger from n" and "packet_answer from p n = Inr (r, n')"
  shows "untouched n n' \<and> (msg_type p = COAP_TYPE_RST \<and> sent n' = sent n \<or> answered from r n n')"
proof (cases "msg_type p = COAP_TYPE_RST")
  case True
  obtain n1 where c: "context_cancel (mid p) from n = Inr n1"
    and t: "bindE (transaction_handleResponse client_callback from p False n1) (\<lambda>(_, n2). Inr (COAP_NO_ERROR, n2)) = Inr (r, n')"
    using assms(2) True by (auto simp: packet_answer_def elim!: bindE_Inr_E)
  note u = context_cancel_untouched [OF c]
  then have "stranger from n1" using stranger_untouched assms(1) by blast
  then have "n' = n1" using t by (simp add: handle_response_stranger)
  then show ?thesis using u True by simp
next
  case False
  have q: "answered from st n n" for st by (simp add: answered_def)
  have "answered from r n n'"
    using assms q False unfolding packet_answer_def
    by (auto simp: handle_response_stranger elim!: bindE_Inr_E split: if_splits prod.splits dest!: message_send_answers)
  then show ?thesis by (simp add: answered_def)
qed

lemma dispatch_stranger:
  assumes "stranger from n" and "dispatch_request u from p response n = Inr (r, resp, n')"
  shows "n' = n \<and> resp = response \<and> (r = COAP_IGNORE \<or> r = COAP_400_BAD_REQUEST)"
  using assms unfolding dispatch_request_def stranger_def bootstrap_handleDeleteAll_def bootstrap_handleFinish_def Let_def
  by (auto split: if_splits elim!: bindE_Inr_E)

lemma handle_request_stranger:
  assumes "stranger from n" and "handle_request from p response n = Inr (r, resp, n')"
  shows "untouched n n' \<and> observedList n' = observedList n \<and> sent n' = sent n \<and> (r = COAP_IGNORE \<or> r = COAP_400_BAD_REQUEST)"
proof -
  obtain u m where u: "uri_decode (altPath n) (map option_bytes (uri_path p)) (memory n) = Inr (u, m)"
    and rest: "(case u of None \<Rightarrow> Inr (COAP_400_BAD_REQUEST, response, n\<lparr>memory := m\<rparr>)
       | Some v \<Rightarrow>
           bindE (dispatch_request v from p response (n\<lparr>memory := m\<rparr>)) (\<lambda>(r, resp, n2).
             Inr (if COAP_IGNORE < r \<and> r < COAP_400_BAD_REQUEST then COAP_NO_ERROR else r,
                  snd (coap_set_status_code resp (ucast r)), n2))) = Inr (r, resp, n')"
    using assms(2) unfolding handle_request_def Let_def by (auto elim!: bindE_Inr_E)
  have s: "stranger from (n\<lparr>memory := m\<rparr>)" using assms(1) stranger_untouched [of n "n\<lparr>memory := m\<rparr>"] by simp
  show ?thesis
  proof (cases u)
    case None
    then show ?thesis using rest by auto
  next
    case (Some v)
    then obtain x resp' where d: "dispatch_request v from p response (n\<lparr>memory := m\<rparr>) = Inr (x, resp', n')"
      and r: "r = (if COAP_IGNORE < x \<and> x < COAP_400_BAD_REQUEST then COAP_NO_ERROR else x)"
      using rest by (auto elim!: bindE_Inr_E)
    from dispatch_stranger [OF s d] have "n' = n\<lparr>memory := m\<rparr>" "x = COAP_IGNORE \<or> x = COAP_400_BAD_REQUEST" by auto
    then show ?thesis using r by auto
  qed
qed

lemma prepare_response_untouched:
  "prepare_response p n = Inr (r, n') \<Longrightarrow> untouched n n' \<and> observedList n' = observedList n \<and> sent n' = sent n"
  by (auto simp: prepare_response_def Let_def elim!: bindE_Inr_E split: if_splits)

lemma with_block1_stranger:
  "stranger from n \<Longrightarrow> with_block1 from p response n = Inr (r, p', resp, n') \<Longrightarrow> r = COAP_500_INTERNAL_SERVER_ERROR \<and> n' = n"
  by (simp add: with_block1_def stranger_def)

lemma packet_request_stranger:
  assumes st: "stranger from n" and run: "packet_request from p n = Inr (r, n')"
  shows "answered from r n n'"
proof -
  obtain response n1 where pr: "prepare_response p n = Inr (response, n1)"
    using run unfolding packet_request_def by (auto elim!: bindE_Inr_E)
  note u1 = prepare_response_untouched [OF pr]
  then have s1: "stranger from n1" using stranger_untouched st by blast
  obtain r1 p1 resp1 n2 where b: "(if IS_OPTION p COAP_OPTION_BLOCK1 then with_block1 from p response n1
       else Inr (COAP_NO_ERROR, p, response, n1)) = Inr (r1, p1, resp1, n2)"
    using run pr unfolding packet_request_def by (auto elim!: bindE_Inr_E)
  have n2: "n2 = n1" "r1 = COAP_NO_ERROR \<or> r1 = COAP_500_INTERNAL_SERVER_ERROR"
    using b with_block1_stranger [OF s1] by (auto split: if_splits)
  obtain r2 resp2 n3 where h: "(if r1 = COAP_NO_ERROR then bindE (handle_request from p1 resp1 n2) (\<lambda>(r, resp, n'). Inr (r, resp, n'))
       else Inr (r1, resp1, n2)) = Inr (r2, resp2, n3)"
    and fin: "(if r2 = COAP_NO_ERROR then send_response from p1 resp2 n3
       else if r2 = COAP_IGNORE then Inr (r2, n3)
       else bindE (message_send (snd (coap_set_status_code resp2 (ucast r2))) (Some from) n3) (\<lambda>(st, _, n4). Inr (st, n4))) = Inr (r, n')"
    using run pr b unfolding packet_request_def by (auto elim!: bindE_Inr_E)
  have u3: "untouched n1 n3 \<and> observedList n3 = observedList n1 \<and> sent n3 = sent n1 \<and> r2 \<noteq> COAP_NO_ERROR"
  proof (cases "r1 = COAP_NO_ERROR")
    case True
    then have "handle_request from p1 resp1 n1 = Inr (r2, resp2, n3)" using h n2 by (auto elim!: bindE_Inr_E)
    from handle_request_stranger [OF s1 this] show ?thesis by auto
  qed (use h n2 in auto)
  have "answered from r n3 n'"
    using fin u3 by (auto simp: answered_def elim!: bindE_Inr_E split: if_splits dest!: message_send_answers)
  then show ?thesis using u1 u3 by (auto intro: answered_trans untouched_trans)
qed

text \<open>
  C13. Whatever datagram a session sends that belongs to no server and that no transaction waits for: nothing but the memory, the
  counter of message ids and the network changes, and at most one datagram goes back to that session. The
  observations change at most when the datagram is a reset.
\<close>

theorem strangers_change_nothing:
  assumes "lwm2m_handle_packet d len from em n = Inr (em', n')" and "stranger from n"
  shows "untouched n n' \<and> (sent n' = sent n \<or> (\<exists>b. sent n' = sent n @ [(from, b)])) \<and>
    (observedList n' = observedList n \<or>
     (\<exists>p m. coap_parse_message (ctx_protocol n) d (unat (word_of_nat len :: u16)) em (memory n) = Inr (COAP_NO_ERROR, p, em', m) \<and>
       msg_type p = COAP_TYPE_RST))"
proof -
  obtain st p m where parse: "coap_parse_message (ctx_protocol n) d (unat (word_of_nat len :: u16)) em (memory n) = Inr (st, p, em', m)"
    using assms(1) unfolding lwm2m_handle_packet_def by (auto elim!: bindE_Inr_E split: if_splits simp: Let_def)
  let ?n = "n\<lparr>memory := m\<rparr>"
  obtain r n1 where run: "(if st \<noteq> COAP_NO_ERROR then Inr (st, ?n)
       else if COAP_GET \<le> code p \<and> code p \<le> COAP_DELETE then packet_request from p ?n
       else packet_answer from p ?n) = Inr (r, n1)"
    and fin: "(if r = COAP_NO_ERROR \<or> r = COAP_IGNORE then Inr (em', n1)
       else
         let c = (if 192 \<le> r then COAP_500_INTERNAL_SERVER_ERROR else r);
             q = coap_init_message (ctx_protocol n) COAP_TYPE_ACK c (mid p) in
         bindE (message_send (snd (coap_set_payload q (Some em') (length em'))) (Some from) n1) (\<lambda>(_, _, n2). Inr (em', n2))) = Inr (em', n')"
    using assms(1) parse unfolding lwm2m_handle_packet_def by (auto elim!: bindE_Inr_E)
  have s: "stranger from ?n" using assms(2) stranger_untouched [of n ?n] by simp
  let ?rst = "st = COAP_NO_ERROR \<and> msg_type p = COAP_TYPE_RST"
  have one: "untouched ?n n1 \<and> (?rst \<and> sent n1 = sent ?n \<or> answered from r ?n n1)"
  proof (cases "st = COAP_NO_ERROR")
    case False
    then have "n1 = ?n" using run by simp
    then show ?thesis by (simp add: answered_def)
  next
    case True
    show ?thesis
    proof (cases "COAP_GET \<le> code p \<and> code p \<le> COAP_DELETE")
      case req: True
      then have "packet_request from p ?n = Inr (r, n1)" using run True by simp
      from packet_request_stranger [OF s this] show ?thesis by (simp add: answered_def)
    next
      case req: False
      then have "packet_answer from p ?n = Inr (r, n1)" using run True by (simp split: if_splits)
      from packet_answer_stranger [OF s this] show ?thesis using True by simp
    qed
  qed
  have two: "untouched n1 n' \<and> observedList n' = observedList n1 \<and>
      (n' = n1 \<or> r \<noteq> COAP_NO_ERROR \<and> (sent n' = sent n1 \<or> (\<exists>b. sent n' = sent n1 @ [(from, b)])))"
    using fin by (auto simp: Let_def answered_def elim!: bindE_Inr_E split: if_splits dest!: message_send_answers)
  have "untouched n n'" using one two untouched_trans [of n ?n n'] untouched_trans [of ?n n1 n'] by simp
  moreover have "sent n' = sent n \<or> (\<exists>b. sent n' = sent n @ [(from, b)])" using one two by (auto simp: answered_def)
  moreover have "observedList n' = observedList n \<or> ?rst" using one two by (auto simp: answered_def)
  ultimately show ?thesis using parse by auto
qed


text \<open>A datagram without a code, from a session that nobody has.\<close>

lemma ex_ping: "lwm2m_handle_packet [0x50, 0, 0, 1] 4 9 [] idle_client = Inr ([], idle_client)"
proof -
  have "coap_parse_message COAP_UDP [0x50, 0, 0, 1] 4 [] [] = Inr (COAP_NO_ERROR, zero_packet\<lparr>version := 1, msg_type := 1, mid := 1\<rparr>, [], [])"
    by code_simp
  then show ?thesis
    by (simp add: lwm2m_handle_packet_def packet_answer_def transaction_handleResponse_def idle_client_def zero_packet_def)
qed

theorem strangers_change_nothing_witness:
  "untouched idle_client idle_client \<and> stranger 9 idle_client \<and>
   lwm2m_handle_packet [0x50, 0, 0, 1] 4 9 [] idle_client = Inr ([], idle_client)"
proof -
  have s: "stranger 9 idle_client"
    by (simp add: stranger_def utils_findServer_def utils_findBootstrapServer_def idle_client_def)
  show ?thesis using strangers_change_nothing [OF ex_ping s] s ex_ping by simp
qed

lemma cancel_behind_stranger:
  "\<forall>w \<in> set ws1. lastMid w \<noteq> i \<Longrightarrow> lastMid w2 = i \<Longrightarrow> sess (server w2) = Inr h \<Longrightarrow> h \<noteq> Some from \<Longrightarrow>
   cancel_behind_at sess i from (ws1 @ w2 # ws2) = Inr (Some (ws1 @ ws2))"
  by (induction ws1) auto


text \<open>Two observations of one resource by the server of the session 3, the second notified last with the id 9.\<close>

definition ex_watched :: observed where
  "ex_watched = \<lparr>uri = \<lparr>flag = 0x07, objectId = 3, instanceId = 0, resourceId = 9\<rparr>,
     watcherList = [new_watcher 0, (new_watcher 0)\<lparr>lastMid := 9\<rparr>], freed = False\<rparr>"

definition ex_reset :: coap_packet where
  "ex_reset = coap_init_message COAP_UDP COAP_TYPE_RST 0 9"



section \<open>The blocks of an answer\<close>

lemma message_send_payload: "message_send p s n = Inr (st, p', n') \<Longrightarrow> payload p' = payload p"
  by (auto simp: message_send_def packet_size_def write_packet_def coap_serialize_message_def coap_serialize_message_tcp_def
      coap_serialize_get_size_tcp_def coap_free_header_def Let_def
      elim!: bindE_Inr_E split: coap_protocol.splits prod.splits bool.splits if_splits)


text \<open>A request for the second block of 16 bytes, of an answer of 20 bytes.\<close>

definition ex_block_request :: "u32 \<Rightarrow> coap_packet" where
  "ex_block_request k = SET_OPTION COAP_OPTION_BLOCK2
     ((coap_init_message COAP_UDP COAP_TYPE_CON COAP_GET 5)\<lparr>block2_num := k, block2_size := 16, block2_offset := 16 * k\<rparr>)"

definition ex_large :: coap_packet where
  "ex_large = (coap_init_message COAP_UDP COAP_TYPE_ACK COAP_205_CONTENT 5)\<lparr>payload := Some (replicate 20 7), payload_len := 20\<rparr>"

lemma ex_block_request: "coap_get_header_block2 (ex_block_request k) = Some (k, 0, 16, 16 * k)"
  by (simp add: coap_get_header_block2_def ex_block_request_def IS_OPTION_bit SET_OPTION_def coap_init_message_def zero_packet_def)


text \<open>The bytes of the block with the number \<open>k\<close>, and whether another follows.\<close>

definition block_of :: "coap_packet \<Rightarrow> coap_packet \<Rightarrow> byte list" where
  "block_of p response = (case slice_payload p response of Inl _ \<Rightarrow> [] | Inr (r, _) \<Rightarrow> payload_of r)"

lemma concat_blocks: "concat (map (\<lambda>k. take s (drop (k * s) b)) [0..<m]) = take (m * s) b"
proof (induction m)
  case (Suc m)
  have "take (m * s) b @ take s (drop (m * s) b) = take (m * s + s) b" by (simp add: take_add)
  then show ?case using Suc by (simp add: add.commute)
qed simp

lemma slice_block:
  assumes req: "coap_get_header_block2 p = Some (word_of_nat k, mo, sz, word_of_nat (k * unat sz))"
    and sz: "16 \<le> unat sz" "unat sz \<le> 128"
    and resp: "payload response = Some b" "payload_len response = word_of_nat (length b)" "length b < 65536" "k * unat sz < length b"
  shows "\<exists>r f. slice_payload p response = Inr (r, f) \<and> payload_of r = take (unat sz) (drop (k * unat sz) b) \<and>
    block2_num r = word_of_nat k \<and> (block2_more r \<noteq> 0 \<longleftrightarrow> Suc k * unat sz < length b) \<and> code r = code response"
proof -
  let ?s = "unat sz"
  define off where "off = k * ?s"
  have k: "k * 16 \<le> k * ?s" using sz(1) by (rule mult_le_mono2)
  then have kb: "k < 65536" using resp(3,4) by linarith
  have w: "unat (word_of_nat j :: u32) = j" if "j < 65536" for j using that by (simp add: unat_of_nat)
  have o: "off < length b" using resp(4) by (simp add: off_def)
  have u: "unat (word_of_nat off :: u32) = off" "unat (word_of_nat k :: u32) = k" using w resp(3) o kb by simp_all
  have u3: "unat (word_of_nat (length b) :: u16) = length b" using resp(3) by (simp add: unat_of_nat)
  have tot: "unat (ucast (payload_len response) :: u32) = length b"
    using u3 resp(2) by (simp add: unat_ucast_up)
  have cap: "min sz (word_of_nat REST_MAX_CHUNK_SIZE) = sz"
    using sz(2) by (simp add: min_def word_le_nat_alt REST_MAX_CHUNK_SIZE_def)
  have us: "unat (ucast sz :: u32) = ?s" by (simp add: unat_ucast_up)
  have not: "\<not> ucast (payload_len response) \<le> (word_of_nat off :: u32)"
    using tot u(1) o by (simp add: word_le_nat_alt)
  let ?rest = "ucast (payload_len response) - word_of_nat off :: u32"
  have rest: "unat ?rest = length b - off"
    using not tot u(1) by (simp add: unat_sub word_le_nat_alt)
  have n: "unat (min ?rest (ucast sz)) = min (length b - off) ?s"
    using rest us by (simp add: min_def word_le_nat_alt)
  have small: "min (length b - off) ?s < 65536" using sz(2) by (simp add: min_def)
  have block: "coap_set_header_block2 response (word_of_nat k) x sz
      = (1, SET_OPTION COAP_OPTION_BLOCK2 (response\<lparr>block2_num := word_of_nat k, block2_more := (if x = 0 then 0 else 1), block2_size := sz\<rparr>))" for x
    using sz kb u(2) by (auto simp: coap_set_header_block2_def word_less_nat_alt)
  have more: "ucast sz < ?rest \<longleftrightarrow> Suc k * ?s < length b"
    using rest us o by (auto simp: word_less_nat_alt off_def)
  have un: "unat (word_of_nat (min (length b - off) ?s) :: u16) = min (length b - off) ?s"
    using small by (simp add: unat_of_nat)
  show ?thesis
    using resp(1) not block n more un
    by (simp add: slice_payload_def req [folded off_def] off_def [symmetric] cap Let_def u(1) payload_of_def coap_set_payload_def SET_OPTION_def min.commute del: of_nat_unat)
qed





section \<open>Requests that are not served\<close>


text \<open>A read of the key of the first security instance.\<close>

definition ex_key_read :: coap_packet where
  "ex_key_read = (coap_init_message COAP_UDP COAP_TYPE_CON COAP_GET 5)
     \<lparr>uri_path := map segment_option [bytes ''0'', bytes ''0'', bytes ''5'']\<rparr>"


end
