(* ===== verification/Lifecycle.thy ===== *)
theory Lifecycle
imports Requests
begin

text \<open>
  The life of a client at its servers as state machines: the status of each server and the state of the client, as step
  relations, and how the operations of the client move along them.
\<close>

section \<open>What a transaction can change\<close>

text \<open>
  A relation between the contexts before and after that every callback keeps, that composes, and that does not look at the
  transactions, the memory or the network.
\<close>

locale callback_relation =
  fixes run :: "('c, 'z) runner" and R :: "('c, 'z) net_scheme \<Rightarrow> ('c, 'z) net_scheme \<Rightarrow> bool"
  assumes run_R: "run c p n = Inr n' \<Longrightarrow> R n n'"
    and R_trans: "R n1 n2 \<Longrightarrow> R n2 n3 \<Longrightarrow> R n1 n3"
    and R_frame: "net.more n' = net.more n \<Longrightarrow> R n n'"
begin

lemma R_refl: "R n n"
  by (rule R_frame) simp

lemma buffer_send_more: "lwm2m_buffer_send s b n = (st, n') \<Longrightarrow> net.more n' = net.more n"
  by (auto simp: lwm2m_buffer_send_def split: option.splits list.splits bool.splits)

lemma message_send_more:
  fixes n n' :: "('c, 'z) net_scheme"
  shows "message_send p s n = Inr (st, p', n') \<Longrightarrow> net.more n' = net.more n"
  by (auto simp: message_send_def Let_def elim!: bindE_Inr_E split: prod.splits bool.splits if_splits dest!: buffer_send_more)

lemma message_send_R: "message_send p s n = Inr (st, p', n') \<Longrightarrow> R n n'"
  by (rule R_frame) (rule message_send_more)

lemma put_R: "R n (put_transaction t n)"
  by (rule R_frame) (simp add: put_transaction_def)

lemma put_then: "R (put_transaction t n) n' \<Longrightarrow> R n n'"
  by (rule R_trans [OF put_R])

lemma then_put: "R n n1 \<Longrightarrow> R n (put_transaction t n1)"
  by (rule R_trans [OF _ put_R])

lemma remove_R: "transaction_remove t n = Inr n' \<Longrightarrow> R n n'"
  by (rule R_frame) (auto simp: transaction_remove_def split: prod.splits option.splits if_splits)

lemma finish_R: "finish_transaction run t p n = Inr n' \<Longrightarrow> R n n'"
  by (auto simp: finish_transaction_def run_callback_def elim!: bindE_Inr_E split: option.splits
      intro: R_trans run_R remove_R)

lemma prepare_more:
  fixes n n' :: "('c, 'z) net_scheme"
  assumes "prepare_buffer t n = Inr (r, t', n')"
  shows "net.more n' = net.more n"
proof -
  have rm: "net.more n2 = net.more n1" if "transaction_remove x n1 = Inr n2" for x and n1 n2 :: "('c, 'z) net_scheme"
    using that by (auto simp: transaction_remove_def split: prod.splits option.splits if_splits)
  show ?thesis
    using assms by (auto simp: prepare_buffer_def put_transaction_def Let_def elim!: bindE_Inr_E dest!: rm
        split: prod.splits bool.splits if_splits)
qed

lemma put_more: "net.more (put_transaction t n) = net.more n"
  by (simp add: put_transaction_def)

lemma frame_put: "net.more n1 = net.more n \<Longrightarrow> R n (put_transaction t n1)"
  by (rule then_put) (rule R_frame)

lemma transmit_R: "transmit run t b n = Inr (r, n') \<Longrightarrow> R n n' \<and> (r = 0 \<longrightarrow> net.more n' = net.more n)"
  by (auto simp: transmit_def give_up_def Let_def put_more elim!: bindE_Inr_E split: if_splits prod.splits
      dest!: finish_R buffer_send_more intro: frame_put put_then)

lemma transaction_send_R:
  assumes "transaction_send run r n = Inr (x, n')"
  shows "R n n' \<and> (x = 0 \<longrightarrow> net.more n' = net.more n)"
proof -
  obtain t ret t1 n1 where p: "prepare_buffer t n = Inr (ret, t1, n1)"
    and rest: "(case ret of Some x \<Rightarrow> Inr (x, n1)
      | None \<Rightarrow> (case pkt_buffer t1 of None \<Rightarrow> Inl NullDeref | Some b \<Rightarrow> transmit run t1 b n1)) = Inr (x, n')"
    using assms by (auto simp: transaction_send_def elim!: bindE_Inr_E split: option.splits)
  note m = prepare_more [OF p]
  show ?thesis
    using rest m R_frame [OF m] by (auto split: option.splits dest!: transmit_R intro: R_trans)
qed

lemma step_loop_R: "step_loop run now rs timeout n = Inr (tm, n') \<Longrightarrow> R n n'"
proof (induction rs arbitrary: timeout n)
  case Nil
  then show ?case by (simp add: R_refl)
next
  case (Cons r rs)
  obtain t where t: "get_transaction r n = Some t" using Cons.prems by (auto split: option.splits)
  obtain x n1 where s: "(if retrans_time t \<le> now then transaction_send run r n else Inr (0, n)) = Inr (x, n1)"
    using Cons.prems t by (auto elim!: bindE_Inr_E)
  have "R n n1" using s transaction_send_R R_refl by (auto split: if_splits)
  moreover have "R n1 n'"
    using Cons.prems t s by (auto split: if_splits option.splits intro: Cons.IH)
  ultimately show ?case by (rule R_trans)
qed

lemma transaction_step_R: "transaction_step run now timeout n = Inr (tm, n') \<Longrightarrow> R n n'"
  by (auto simp: transaction_step_def intro: step_loop_R)

lemma handle_one_R:
  assumes "handle_one run from p hr t n = Inr (Some n')"
  shows "R n n'"
proof -
  define found where "found = acknowledges (ctx_protocol n) p t"
  define reset where "reset = (found \<and> msg_type p = COAP_TYPE_RST)"
  define t1 where "t1 = (if found then t\<lparr>ack_received := True\<rparr> else t)"
  note h = assms [unfolded handle_one_def Let_def, folded found_def, folded reset_def t1_def]
  show ?thesis
  proof (cases "reset \<or> prv_checkFinished t1 p")
    case True
    then obtain n1 where n1: "(if \<not> reset \<and> msg_type p = COAP_TYPE_CON \<and> hr \<and> \<not> is_tcp (ctx_protocol n)
         then bindE (message_send (coap_init_message (ctx_protocol n) COAP_TYPE_ACK 0 (mid p)) (Some from) n) (\<lambda>(_, _, n'). Inr n')
         else Inr n) = Inr n1"
      and rest: "(if \<not> reset \<and> code p = COAP_401_UNAUTHORIZED \<and> retrans_counter t1 < COAP_MAX_RETRANSMIT
         then bindE (add_time (retrans_time t1) COAP_RESPONSE_TIMEOUT) (\<lambda>rt.
           Inr (Some (put_transaction (t1\<lparr>ack_received := False, retrans_time := rt\<rparr>) n1)))
         else bindE (finish_transaction run t1 (Some p) (put_transaction t1 n1)) (\<lambda>n2. Inr (Some n2))) = Inr (Some n')"
      using h by (simp only: if_True) (rule bindE_Inr_E)
    have "R n n1" using n1 by (auto split: if_splits elim!: bindE_Inr_E intro: message_send_R R_refl)
    moreover have "R n1 n'"
      using rest by (auto split: if_splits elim!: bindE_Inr_E intro: put_R put_then finish_R)
    ultimately show ?thesis by (rule R_trans)
  next
    case False
    then show ?thesis using h by (auto split: if_splits elim!: bindE_Inr_E intro: put_R)
  qed
qed

lemma response_R: "response_loop run from p hr ts n = Inr (b, n') \<Longrightarrow> R n n'"
  by (induction ts) (auto simp: R_refl elim!: bindE_Inr_E split: if_splits option.splits intro: handle_one_R)

lemma transaction_handleResponse_R: "transaction_handleResponse run from p hr n = Inr (b, n') \<Longrightarrow> R n n'"
  by (auto simp: transaction_handleResponse_def intro: response_R)

end

section \<open>The status of a server\<close>

inductive reg_edge :: "lwm2m_status \<Rightarrow> lwm2m_status \<Rightarrow> bool" where
  request: "s \<in> {STATE_DEREGISTERED, STATE_REG_FAILED} \<Longrightarrow> reg_edge s STATE_REG_PENDING"
| created: "reg_edge STATE_REG_PENDING STATE_REGISTERED"
| refused: "reg_edge STATE_REG_PENDING STATE_REG_FAILED"
| asked: "s \<in> {STATE_REGISTERED, STATE_REG_UPDATE_PENDING} \<Longrightarrow> reg_edge s STATE_REG_UPDATE_NEEDED"
| asked_full: "s \<in> {STATE_REGISTERED, STATE_REG_UPDATE_PENDING, STATE_REG_UPDATE_NEEDED} \<Longrightarrow> reg_edge s STATE_REG_FULL_UPDATE_NEEDED"
| sent_update: "s \<in> {STATE_REGISTERED, STATE_REG_UPDATE_NEEDED, STATE_REG_FULL_UPDATE_NEEDED} \<Longrightarrow> reg_edge s STATE_REG_UPDATE_PENDING"
| changed: "reg_edge STATE_REG_UPDATE_PENDING STATE_REGISTERED"
| lost: "reg_edge STATE_REG_UPDATE_PENDING STATE_REG_FAILED"
| leave: "s \<notin> {STATE_DEREGISTERED, STATE_REG_PENDING, STATE_DEREG_PENDING, STATE_REG_FAILED} \<Longrightarrow> reg_edge s STATE_DEREG_PENDING"

inductive_cases from_deregistered: "reg_edge STATE_DEREGISTERED s"
inductive_cases from_leaving: "reg_edge STATE_DEREG_PENDING s"
inductive_cases to_registered: "reg_edge s STATE_REGISTERED"

text \<open>A server before and after: the same instance, its status some edges further.\<close>

definition along :: "lwm2m_server \<Rightarrow> lwm2m_server \<Rightarrow> bool" where
  "along s s' \<longleftrightarrow> secObjInstID s' = secObjInstID s \<and> reg_edge\<^sup>*\<^sup>* (status s) (status s')"

lemma along_refl [simp]: "along s s"
  by (simp add: along_def)

lemma along_trans: "along a b \<Longrightarrow> along b c \<Longrightarrow> along a c"
  by (auto simp: along_def)

definition server_ids :: "'s lwm2m_context \<Rightarrow> u16 list" where
  "server_ids n = map secObjInstID (serverList n)"

definition moves :: "'s lwm2m_context \<Rightarrow> 's lwm2m_context \<Rightarrow> bool" where
  "moves n n' \<longleftrightarrow> client_state n' = client_state n \<and> server_ids n' = server_ids n \<and>
     (distinct (server_ids n) \<longrightarrow> list_all2 along (serverList n) (serverList n'))"

lemma moves_same:
  "serverList n' = serverList n \<Longrightarrow> client_state n' = client_state n \<Longrightarrow> moves n n'"
  by (simp add: moves_def server_ids_def list_all2_refl)

lemma moves_refl [simp]: "moves n n"
  by (rule moves_same) simp_all

lemma moves_trans: "moves a b \<Longrightarrow> moves b c \<Longrightarrow> moves a c"
  by (auto simp: moves_def intro: list_all2_trans [OF along_trans])

lemma moves_set:
  assumes t: "get_server i n = Inr t" and e: "reg_edge\<^sup>*\<^sup>* (status t) (status (f t))" and id: "\<forall>s. secObjInstID (f s) = secObjInstID s"
  shows "moves n (set_server i f n)"
proof -
  have find: "find (\<lambda>s. secObjInstID s = i) (serverList n) = Some t" using t by (auto simp: get_server_def split: option.splits)
  have one: "s = t" if "s \<in> set (serverList n)" "secObjInstID s = i" "distinct (server_ids n)" for s
  proof -
    have "t \<in> set (serverList n)" "secObjInstID t = i" using find by (auto simp: find_Some_iff)
    then show ?thesis using that by (auto simp: server_ids_def distinct_map dest: inj_onD)
  qed
  have "list_all2 along (serverList n) (set_in i f (serverList n))" if "distinct (server_ids n)"
  proof -
    have "along s (if secObjInstID s = i then f s else s)" if "s \<in> set (serverList n)" for s
      using one [OF that] \<open>distinct (server_ids n)\<close> e id by (auto simp: along_def)
    then show ?thesis by (simp add: set_in_def list_all2_conv_all_nth)
  qed
  then show ?thesis using id by (simp add: moves_def server_ids_def set_server_def ids_set_in)
qed

lemma moves_keep:
  assumes "\<forall>s. secObjInstID (f s) = secObjInstID s \<and> status (f s) = status s"
  shows "moves n (set_server i f n)"
  using assms by (simp add: moves_def server_ids_def set_server_def ids_set_in set_in_def list_all2_conv_all_nth along_def)

lemma moves_frame:
  fixes n n' :: "'s lwm2m_context"
  assumes "net.more n' = net.more n"
  shows "moves n n'" and "serverList n' = serverList n" and "client_state n' = client_state n"
proof -
  show "serverList n' = serverList n" "client_state n' = client_state n" using assms by (cases n; cases n'; simp)+
  then show "moves n n'" by (rule moves_same)
qed

lemma get_server_same: "serverList n' = serverList n \<Longrightarrow> get_server i n' = get_server i n"
  by (simp add: get_server_def)

lemma moves_elsewhere [simp]:
  "moves n (n\<lparr>bootstrapServerList := bs\<rparr>)" "moves n (n\<lparr>memory := m\<rparr>)" "moves n (n\<lparr>observedList := obs\<rparr>)"
  "moves n (set_bootstrap_server i f n)" "moves n (close_session h n)"
  by (auto simp: set_bootstrap_server_def close_session_def intro: moves_same)

lemma stamped:
  assumes "get_server i n = Inr t"
  shows "\<exists>t1. get_server i (if b then set_server i (\<lambda>s. s\<lparr>registration := x\<rparr>) n else n) = Inr t1 \<and> status t1 = status t"
  using get_set_server [OF assms, of "\<lambda>s. s\<lparr>registration := x\<rparr>"] get_server_id [OF assms] assms by (cases b) auto

lemma registration_reply_moves:
  assumes "prv_handleRegistrationReply i p n = Inr n'"
  shows "moves n n'"
proof -
  obtain t where t: "get_server i n = Inr t" using assms by (auto simp: prv_handleRegistrationReply_def elim!: bindE_Inr_E)
  let ?n1 = "if 0 \<le> clock n then set_server i (\<lambda>s. s\<lparr>registration := clock n\<rparr>) n else n"
  have m1: "moves n ?n1" by (simp add: moves_keep)
  obtain t1 where t1: "get_server i ?n1 = Inr t1" "status t1 = status t"
    using stamped [OF t] by blast
  have "moves ?n1 n'" if "status t = STATE_REG_PENDING"
  proof -
    have fail: "moves ?n1 (set_server i (\<lambda>s. s\<lparr>status := STATE_REG_FAILED\<rparr>) ?n1)"
      by (rule moves_set [OF t1(1)]) (auto simp: t1(2) that intro: refused)
    have ok: "moves ?n1 (set_server i (\<lambda>s. s\<lparr>status := STATE_REGISTERED, location := l\<rparr>) (?n1\<lparr>memory := m\<rparr>))" for l m
    proof -
      have "get_server i (?n1\<lparr>memory := m\<rparr>) = Inr t1" using t1(1) get_server_same [of "?n1\<lparr>memory := m\<rparr>" ?n1 i] by simp
      then have "moves (?n1\<lparr>memory := m\<rparr>) (set_server i (\<lambda>s. s\<lparr>status := STATE_REGISTERED, location := l\<rparr>) (?n1\<lparr>memory := m\<rparr>))"
        by (rule moves_set) (auto simp: t1(2) that intro: created)
      then show ?thesis using moves_trans [OF moves_same [of "?n1\<lparr>memory := m\<rparr>" ?n1]] by simp
    qed
    show ?thesis
      using assms t that fail ok unfolding prv_handleRegistrationReply_def Let_def
      by (auto elim!: bindE_Inr_E split: option.splits if_splits)
  qed
  moreover have "n' = n" if "status t \<noteq> STATE_REG_PENDING"
    using assms t that by (simp add: prv_handleRegistrationReply_def)
  ultimately show ?thesis using m1 moves_trans by (cases "status t = STATE_REG_PENDING") auto
qed

lemma update_reply_moves:
  assumes "prv_handleRegistrationUpdateReply i p n = Inr n'"
  shows "moves n n'"
proof -
  obtain t where t: "get_server i n = Inr t" using assms by (auto simp: prv_handleRegistrationUpdateReply_def elim!: bindE_Inr_E)
  let ?n1 = "if 0 \<le> clock n then set_server i (\<lambda>s. s\<lparr>registration := clock n\<rparr>) n else n"
  have m1: "moves n ?n1" by (simp add: moves_keep)
  obtain t1 where t1: "get_server i ?n1 = Inr t1" "status t1 = status t"
    using stamped [OF t] by blast
  have "moves ?n1 (set_server i (\<lambda>s. s\<lparr>status := if b then STATE_REGISTERED else STATE_REG_FAILED\<rparr>) ?n1)"
    if "status t = STATE_REG_UPDATE_PENDING" for b
    by (rule moves_set [OF t1(1)]) (auto simp: t1(2) that intro: changed lost)
  note step = this [THEN moves_trans [OF m1]]
  show ?thesis
  proof (cases "status t = STATE_REG_UPDATE_PENDING")
    case True
    let ?b = "case p of None \<Rightarrow> False | Some p \<Rightarrow> code p = COAP_204_CHANGED"
    have "n' = set_server i (\<lambda>s. s\<lparr>status := if ?b then STATE_REGISTERED else STATE_REG_FAILED\<rparr>) ?n1"
      using assms t True by (simp add: prv_handleRegistrationUpdateReply_def Let_def del: if_split)
    then show ?thesis using step [OF True, of ?b] by (simp only:)
  next
    case False
    then show ?thesis using assms t by (simp add: prv_handleRegistrationUpdateReply_def)
  qed
qed

lemma callback_moves: "client_callback c p n = Inr n' \<Longrightarrow> moves n n'"
  by (cases c)
    (auto simp: registration_reply_moves update_reply_moves prv_handleDeregistrationReply_def prv_handleBootstrapReply_def
      Let_def elim!: bindE_Inr_E split: if_splits)

interpretation moving: callback_relation client_callback moves
proof
  show "moves n n'" if "client_callback c p n = Inr n'" for c p and n n' :: "'s lwm2m_context"
    using callback_moves that .
  show "moves n1 n3" if "moves n1 n2" "moves n2 n3" for n1 n2 n3 :: "'s lwm2m_context"
    using moves_trans that .
  show "moves n n'" if "net.more n' = net.more n" for n n' :: "'s lwm2m_context"
    using moves_frame(1) that .
qed

section \<open>Requests along the edges\<close>

lemma uri_segments_fine: "new_request sess mth n = Inr (r, n') \<Longrightarrow> net.more n' = net.more n"
  by (auto simp: new_request_def transaction_new_def Let_def elim!: bindE_Inr_E split: option.splits prod.splits bool.splits)

lemma add_and_send_moves:
  assumes "add_and_send t p c n = Inr (r, n')"
  shows "moves n n' \<and> (r = 0 \<longrightarrow> net.more n' = net.more n)"
proof -
  let ?n0 = "transaction_add (t\<lparr>message := p, callback := Some c\<rparr>) n"
  obtain n1 where s: "transaction_send client_callback (ref t) ?n0 = Inr (r, n1)" and e: "n' = end_payload (ref t) n1"
    using assms by (auto simp: add_and_send_def elim!: bindE_Inr_E)
  have m: "net.more ?n0 = net.more n" "net.more n' = net.more n1" by (simp_all add: transaction_add_def e end_payload_def)
  show ?thesis
    using moving.transaction_send_R [OF s] moves_trans [OF moves_frame(1) [OF m(1)]] moves_trans [OF _ moves_frame(1) [OF m(2)]] m
    by auto
qed

text \<open>A request for a server whose status allows it, and the status it gets when the request was sent.\<close>

lemma request_moves:
  assumes srv: "get_server i n = Inr srv" and same: "serverList n1 = serverList n" "client_state n1 = client_state n"
    and send: "add_and_send t p c n1 = Inr (ret, n2)" and e: "reg_edge (status srv) st"
  shows "moves n (if ret = 0 then set_server i (\<lambda>s. s\<lparr>status := st\<rparr>) n2 else n2)"
proof -
  have m1: "moves n n1" by (rule moves_same) (use same in simp_all)
  note s = add_and_send_moves [OF send]
  have "moves n2 (set_server i (\<lambda>s. s\<lparr>status := st\<rparr>) n2)" if "ret = 0"
  proof (rule moves_set)
    show "get_server i n2 = Inr srv"
      using srv same get_server_same [of n2 n i] moves_frame(2) [of n2 n1] s that by simp
  qed (use e in auto)
  then show ?thesis using m1 s by (auto intro: moves_trans)
qed

lemma update_moves:
  assumes srv: "get_server i n = Inr srv" and st: "status srv \<in> {STATE_REGISTERED, STATE_REG_UPDATE_NEEDED, STATE_REG_FULL_UPDATE_NEEDED}"
    and run: "prv_updateRegistration i w n = Inr (r, n')"
  shows "moves n n'"
proof -
  have e: "reg_edge (status srv) STATE_REG_UPDATE_PENDING" using st by (rule sent_update)
  obtain t n1 where new: "new_request (sessionH srv) COAP_POST n = Inr (t, n1)"
    using run srv by (auto simp: prv_updateRegistration_def elim!: bindE_Inr_E)
  have same: "serverList n1 = serverList n" "client_state n1 = client_state n"
    using moves_frame(2,3) [OF uri_segments_fine [OF new]] .
  then have quiet: "moves n (n1\<lparr>memory := m\<rparr>)" "moves n n1" for m by (auto intro: moves_same)
  have sent: "moves n (if ret = 0 then set_server i (\<lambda>s. s\<lparr>status := STATE_REG_UPDATE_PENDING\<rparr>) n2 else n2)"
    if "add_and_send x p c (n1\<lparr>memory := m\<rparr>) = Inr (ret, n2)" for x p c m ret n2
    by (rule request_moves [OF srv _ _ that e]) (simp_all add: same)
  show ?thesis
    using run srv new quiet sent unfolding prv_updateRegistration_def
    by (auto elim!: bindE_Inr_E split: option.splits simp del: bindE_simps)
qed

lemma register_moves:
  assumes srv: "get_server i n = Inr srv" and st: "status srv \<in> {STATE_DEREGISTERED, STATE_REG_FAILED}"
    and run: "prv_register i n = Inr (r, n')"
  shows "moves n n'"
proof -
  have e: "reg_edge (status srv) STATE_REG_PENDING" using st by (rule request)
  obtain pl where pl: "object_getRegisterPayload (object_list n) (altPath n) (object_state n) 512 = Inr pl"
    using run srv by (auto simp: prv_register_def elim!: bindE_Inr_E)
  show ?thesis
  proof (cases "pl = []")
    case True
    then show ?thesis using run srv pl by (simp add: prv_register_def)
  next
    case False
    obtain q m where q: "register_query n srv = Inr (q, m)"
      using run srv pl False by (auto simp: prv_register_def elim!: bindE_Inr_E)
    let ?n0 = "n\<lparr>memory := m\<rparr>"
    show ?thesis
    proof (cases q)
      case None
      then show ?thesis using run srv pl False q by (auto simp: prv_register_def)
    next
      case (Some query)
      define conn where "conn = (if sessionH srv = None
          then let (c, n') = lwm2m_connect_server ?n0 in (c, set_server i (\<lambda>s. s\<lparr>sessionH := c\<rparr>) n') else (sessionH srv, ?n0))"
      obtain sess n1 where c: "conn = (sess, n1)" by (cases conn)
      obtain srv1 where g1: "get_server i n1 = Inr srv1" "status srv1 = status srv" and m1: "moves n n1"
      proof (cases "sessionH srv = None")
        case True
        obtain h n2 where h: "lwm2m_connect_server ?n0 = (h, n2)" by (cases "lwm2m_connect_server ?n0")
        have same: "serverList n2 = serverList n" "client_state n2 = client_state n"
          using h by (auto simp: lwm2m_connect_server_def split: list.splits)
        have n1: "n1 = set_server i (\<lambda>s. s\<lparr>sessionH := h\<rparr>) n2" using c h True by (auto simp: conn_def)
        have g: "get_server i n2 = Inr srv" using srv get_server_same [OF same(1)] by simp
        have "get_server i n1 = Inr (srv\<lparr>sessionH := h\<rparr>)"
          unfolding n1 by (rule get_set_server [OF g]) (use get_server_id [OF g] in simp)
        moreover have "moves n n1"
          unfolding n1 by (rule moves_trans [OF moves_same [of n2 n] moves_keep]) (simp_all add: same)
        ultimately show thesis using that by simp
      next
        case False
        then have "n1 = ?n0" using c by (auto simp: conn_def split: if_splits)
        then show thesis using that srv get_server_same [of ?n0 n i] by simp
      qed
      note e1 = e [folded g1(2)]
      have rest: "(if sess = None then Inr (COAP_503_SERVICE_UNAVAILABLE, n1)
         else bindE (new_request sess COAP_POST n1) (\<lambda>(r, n2).
           case r of
             None \<Rightarrow> Inr (COAP_500_INTERNAL_SERVER_ERROR, n2)
           | Some t \<Rightarrow>
             bindE (register_message query pl (message t) (memory n2)) (\<lambda>(p, m3).
             bindE (add_and_send t p (Registration_reply i) (n2\<lparr>memory := m3\<rparr>)) (\<lambda>(ret, n3).
               if ret \<noteq> 0 then Inr (COAP_500_INTERNAL_SERVER_ERROR, n3)
               else Inr (COAP_NO_ERROR, set_server i (\<lambda>s. s\<lparr>status := STATE_REG_PENDING\<rparr>) n3))))) = Inr (r, n')"
        using run srv pl False q Some c [unfolded conn_def]
        by (cases "sessionH srv = None"; cases "lwm2m_connect_server ?n0") (auto simp: prv_register_def split: if_splits)
      have new: "moves n1 n2" "serverList n2 = serverList n1" "client_state n2 = client_state n1"
        if "new_request sess COAP_POST n1 = Inr (x, n2)" for x n2
        using moves_frame [OF uri_segments_fine [OF that]] .
      have sent: "moves n1 (if ret = 0 then set_server i (\<lambda>s. s\<lparr>status := STATE_REG_PENDING\<rparr>) n3 else n3)"
        if "new_request sess COAP_POST n1 = Inr (y, n2)" "add_and_send x p (Registration_reply i) (n2\<lparr>memory := m3\<rparr>) = Inr (ret, n3)"
        for x y p m3 ret n2 n3
        by (rule request_moves [OF g1(1) _ _ that(2) e1]) (simp_all add: new [OF that(1)])
      have ok: "moves n1 (set_server i (\<lambda>s. s\<lparr>status := STATE_REG_PENDING\<rparr>) n3)"
        if "new_request sess COAP_POST n1 = Inr (y, n2)" "add_and_send x p (Registration_reply i) (n2\<lparr>memory := m3\<rparr>) = Inr (0, n3)"
        for x y p m3 n2 n3
        using sent [OF that] by simp
      have failed: "moves n1 n3" if "ret \<noteq> 0" "new_request sess COAP_POST n1 = Inr (y, n2)"
          "add_and_send x p (Registration_reply i) (n2\<lparr>memory := m3\<rparr>) = Inr (ret, n3)" for x y p m3 ret n2 n3
        using sent [OF that(2,3)] that(1) by simp
      have "moves n1 n'"
      proof (cases "sess = None")
        case True
        then show ?thesis using rest by simp
      next
        case False
        show ?thesis
          using rest unfolding if_not_P [OF False]
          by (auto elim!: bindE_Inr_E split: option.splits if_splits simp del: bindE_simps)
            (erule new(1), erule (2) failed, erule (1) ok)
      qed
      then show ?thesis using m1 moves_trans by blast
    qed
  qed
qed

lemma deregister_moves:
  assumes run: "registration_deregister i n = Inr n'"
  shows "moves n n'"
proof -
  obtain srv where srv: "get_server i n = Inr srv" using run by (auto simp: registration_deregister_def elim!: bindE_Inr_E)
  show ?thesis
  proof (cases "status srv \<in> {STATE_DEREGISTERED, STATE_REG_PENDING, STATE_DEREG_PENDING, STATE_REG_FAILED} \<or> location srv = None")
    case True
    then show ?thesis using run srv by (simp add: registration_deregister_def)
  next
    case False
    then have e: "reg_edge (status srv) STATE_DEREG_PENDING" by (auto intro: leave)
    obtain t n1 where new: "new_request (sessionH srv) COAP_DELETE n = Inr (t, n1)"
      using run srv False by (auto simp: registration_deregister_def elim!: bindE_Inr_E)
    have same: "serverList n1 = serverList n" "client_state n1 = client_state n"
      using moves_frame(2,3) [OF uri_segments_fine [OF new]] .
    then have quiet: "moves n n1" by (auto intro: moves_same)
    have sent: "moves n (if ret = 0 then set_server i (\<lambda>s. s\<lparr>status := STATE_DEREG_PENDING\<rparr>) n2 else n2)"
      if "add_and_send x p c (n1\<lparr>memory := m\<rparr>) = Inr (ret, n2)" for x p c m ret n2
      by (rule request_moves [OF srv _ _ that e]) (simp_all add: same)
    show ?thesis
      using run srv new quiet sent False unfolding registration_deregister_def
      by (auto elim!: bindE_Inr_E split: option.splits simp del: bindE_simps)
  qed
qed

lemma start_loop_moves: "start_loop is n = Inr (r, n') \<Longrightarrow> moves n n'"
proof (induction "is" arbitrary: n)
  case (Cons i "is")
  obtain t where t: "get_server i n = Inr t" using Cons.prems by (auto elim!: bindE_Inr_E)
  obtain r1 n1 where one: "(if status t = STATE_DEREGISTERED \<or> status t = STATE_REG_FAILED then prv_register i n
      else Inr (COAP_NO_ERROR, n)) = Inr (r1, n1)"
    and rest: "(if r1 = COAP_NO_ERROR then start_loop is n1 else Inr (r1, n1)) = Inr (r, n')"
    using Cons.prems t by (auto elim!: bindE_Inr_E)
  have "moves n n1" using one register_moves [OF t] by (auto split: if_splits)
  moreover have "moves n1 n'" using rest Cons.IH by (auto split: if_splits)
  ultimately show ?case by (rule moves_trans)
qed simp

lemma server_step_moves:
  assumes "server_step i now timeout n = Inr (tm, n')"
  shows "moves n n'"
proof -
  obtain t where t: "get_server i n = Inr t" using assms by (auto simp: server_step_def elim!: bindE_Inr_E)
  have close: "moves n (set_server i (\<lambda>s. s\<lparr>sessionH := None\<rparr>) (close_session h n))" for h
    by (rule moves_trans [OF moves_elsewhere(5)]) (rule moves_keep, simp)
  show ?thesis
    using assms t close update_moves [OF t] unfolding server_step_def
    by (auto elim!: bindE_Inr_E split: lwm2m_status.splits if_splits option.splits)
qed

lemma server_steps_moves: "server_steps is now timeout n = Inr (tm, n') \<Longrightarrow> moves n n'"
  by (induction "is" arbitrary: timeout n) (auto elim!: bindE_Inr_E dest!: server_step_moves intro: moves_trans)

lemma registration_step_moves: "registration_step now timeout n = Inr (tm, n') \<Longrightarrow> moves n n'"
  unfolding registration_step_def by (rule server_steps_moves)

lemma mark_updates_along: "mark_updates short w ts = (r, ts') \<Longrightarrow> list_all2 along ts ts'"
proof (induction ts arbitrary: r ts')
  case (Cons t ts)
  let ?st = "if w then STATE_REG_FULL_UPDATE_NEEDED else STATE_REG_UPDATE_NEEDED"
  have acts: "along t (t\<lparr>status := ?st\<rparr>)" if "status t \<in> {STATE_REGISTERED, STATE_REG_UPDATE_PENDING}"
    using that by (auto simp: along_def intro!: r_into_rtranclp asked asked_full)
  have full: "along t (t\<lparr>status := STATE_REG_FULL_UPDATE_NEEDED\<rparr>)"
    if "status t \<in> {STATE_REG_FULL_UPDATE_NEEDED, STATE_REG_UPDATE_NEEDED}"
    using that by (auto simp: along_def intro: asked_full)
  have refl: "list_all2 along ts ts" by (simp add: list_all2_refl)
  show ?case
    using Cons.prems Cons.IH acts full refl
    by (cases "mark_updates short w ts") (auto simp: Let_def split: if_splits)
qed simp

lemma update_registration_moves:
  assumes "lwm2m_update_registration short w n = Inr (r, n')" and "serverList n \<noteq> []"
  shows "moves n n'"
proof -
  obtain x ts where m: "mark_updates short w (serverList n) = (x, ts)" by (cases "mark_updates short w (serverList n)")
  have n': "n' = n\<lparr>serverList := ts\<rparr>" using assms m by (auto simp: lwm2m_update_registration_def)
  note l = mark_updates_along [OF m]
  then have "map secObjInstID ts = map secObjInstID (serverList n)"
    by (induction rule: list_all2_induct) (auto simp: along_def)
  then show ?thesis using l by (simp add: moves_def server_ids_def n')
qed

section \<open>Runs of a client\<close>

text \<open>What the client does with its servers between two bootstraps.\<close>

inductive client_op :: "'s lwm2m_context \<Rightarrow> 's lwm2m_context \<Rightarrow> bool" where
  start: "registration_start n = Inr (r, n') \<Longrightarrow> client_op n n'"
| tick: "registration_step now timeout n = Inr (tm, n') \<Longrightarrow> client_op n n'"
| resend: "transaction_step client_callback now timeout n = Inr (tm, n') \<Longrightarrow> client_op n n'"
| answer: "transaction_handleResponse client_callback from p hr n = Inr (b, n') \<Longrightarrow> client_op n n'"
| ask: "lwm2m_update_registration short w n = Inr (r, n') \<Longrightarrow> serverList n \<noteq> [] \<Longrightarrow> client_op n n'"
| stop: "registration_deregister i n = Inr n' \<Longrightarrow> client_op n n'"

lemma client_op_moves: "client_op n n' \<Longrightarrow> moves n n'"
  by (induction rule: client_op.induct)
    (auto simp: registration_start_def intro: start_loop_moves registration_step_moves moving.transaction_step_R
      moving.transaction_handleResponse_R update_registration_moves deregister_moves)

lemma client_ops_move: "client_op\<^sup>*\<^sup>* n n' \<Longrightarrow> moves n n'"
  by (induction rule: rtranclp_induct) (auto intro: moves_trans client_op_moves)


lemma ex_op: "client_op ex_ready (ex_ready\<lparr>serverList := [ex_server]\<rparr>)"
  by (rule stop [of 0]) (simp add: registration_deregister_def get_server_def ex_ready_defs)


lemma stays_leaving: "reg_edge\<^sup>*\<^sup>* STATE_DEREG_PENDING s \<Longrightarrow> s = STATE_DEREG_PENDING"
  by (induction rule: rtranclp_induct) (auto elim: from_leaving)


definition ex_leaving :: "unit lwm2m_context" where
  "ex_leaving = ex_ready\<lparr>serverList := [ex_server\<lparr>status := STATE_DEREG_PENDING\<rparr>]\<rparr>"


section \<open>The status of the client\<close>

lemma status_loop_spec:
  "status_loop st ts =
     (if \<exists>s \<in> set ts. status s = STATE_REG_PENDING then STATE_REG_PENDING
      else if st = STATE_REG_FAILED \<and> (\<exists>s \<in> set ts. registered s) then STATE_REGISTERED else st)"
proof (induction ts arbitrary: st)
  case (Cons t ts)
  define A where "A \<longleftrightarrow> (\<exists>s \<in> set ts. status s = STATE_REG_PENDING)"
  define B where "B \<longleftrightarrow> (\<exists>s \<in> set ts. registered s)"
  have one: "(\<exists>s \<in> set (t # ts). P s) \<longleftrightarrow> P t \<or> (\<exists>s \<in> set ts. P s)" for P by simp
  show ?case
    unfolding status_loop.simps Cons.IH one A_def [symmetric] B_def [symmetric]
    by (cases "status t"; cases A; cases B) (simp_all add: registered_def)
qed simp

lemma bs_status_loop_spec:
  "bs_status_loop st ts =
     (if \<exists>s \<in> set ts. status s \<in> {STATE_BS_HOLD_OFF, STATE_BS_INITIATED, STATE_BS_PENDING, STATE_BS_FINISHING} then STATE_BS_PENDING
      else if st = STATE_BS_FAILED \<and> (\<exists>s \<in> set ts. status s = STATE_BS_FINISHED) then STATE_BS_FINISHED else st)"
proof (induction ts arbitrary: st)
  case (Cons t ts)
  define A where "A \<longleftrightarrow> (\<exists>s \<in> set ts. status s \<in> {STATE_BS_HOLD_OFF, STATE_BS_INITIATED, STATE_BS_PENDING, STATE_BS_FINISHING})"
  define B where "B \<longleftrightarrow> (\<exists>s \<in> set ts. status s = STATE_BS_FINISHED)"
  have one: "(\<exists>s \<in> set (t # ts). P s) \<longleftrightarrow> P t \<or> (\<exists>s \<in> set ts. P s)" for P by simp
  show ?case
    unfolding bs_status_loop.simps Cons.IH one A_def [symmetric] B_def [symmetric]
    by (cases "status t"; cases A; cases B) simp_all
qed simp

text \<open>
  C27. The two loops over the servers compute what their comments promise: the registration is pending while one server has
  not answered, registered when one is registered and none is pending, failed otherwise; and the same for the bootstrap.
\<close>

theorem status_of_servers:
  "registration_getStatus n =
     (if \<exists>s \<in> set (serverList n). status s = STATE_REG_PENDING then STATE_REG_PENDING
      else if \<exists>s \<in> set (serverList n). registered s then STATE_REGISTERED else STATE_REG_FAILED) \<and>
   bootstrap_getStatus n =
     (if \<exists>s \<in> set (bootstrapServerList n). status s \<in> {STATE_BS_HOLD_OFF, STATE_BS_INITIATED, STATE_BS_PENDING, STATE_BS_FINISHING}
      then STATE_BS_PENDING
      else if \<exists>s \<in> set (bootstrapServerList n). status s = STATE_BS_FINISHED then STATE_BS_FINISHED else STATE_BS_FAILED)"
  by (simp add: registration_getStatus_def bootstrap_getStatus_def status_loop_spec bs_status_loop_spec)

section \<open>The state of the client\<close>

inductive client_edge :: "lwm2m_client_state \<Rightarrow> lwm2m_client_state \<Rightarrow> bool" where
  known: "client_edge STATE_INITIAL STATE_REGISTER_REQUIRED"
| unknown: "client_edge STATE_INITIAL STATE_BOOTSTRAP_REQUIRED"
| bootstrap: "client_edge STATE_BOOTSTRAP_REQUIRED STATE_BOOTSTRAPPING"
| bootstrapped: "client_edge STATE_BOOTSTRAPPING STATE_INITIAL"
| registering: "client_edge STATE_REGISTER_REQUIRED STATE_REGISTERING"
| ready: "client_edge STATE_REGISTERING STATE_READY"
| unregistered: "s \<in> {STATE_REGISTERING, STATE_READY} \<Longrightarrow> client_edge s STATE_BOOTSTRAP_REQUIRED"

inductive_simps client_edge_simps: "client_edge s s'"

lemma observe_moves:
  assumes "send_notification now p w n = Inr (p', w', n')"
  shows "net.more n' = net.more n"
proof -
  obtain q sess st where "message_send q sess (n\<lparr>nextMID := nextMID n + 1\<rparr>) = Inr (st, p', n')"
    using assms unfolding send_notification_def Let_def by (auto elim!: bindE_Inr_E)
  then show ?thesis using moving.message_send_more by fastforce
qed

lemma notification_more: "notification u ds f n = Inr (p, u', f', n') \<Longrightarrow> net.more n' = net.more n"
  by (auto simp: notification_def Let_def elim!: bindE_Inr_E split: option.splits if_splits)

lemma notify_more:
  "notify_watchers now ds ws p u f timeout n = Inr (ws', u', tm, n') \<Longrightarrow> net.more n' = net.more n"
proof (induction ws arbitrary: p u f timeout n ws' u' tm n')
  case (Cons w ws)
  show ?case
  proof (cases "active w")
    case False
    then show ?thesis using Cons.prems by (auto elim!: bindE_Inr_E dest!: Cons.IH)
  next
    case True
    define v where "v = (case ds of Some (d # _) \<Rightarrow> Some (data_value d) | _ \<Rightarrow> None)"
    note run = Cons.prems [simplified notify_watchers.simps, folded v_def]
    obtain notify tmo where wn: "wants_notification now v w timeout = Inr (notify, tmo)"
      using run True by (auto simp: Let_def elim!: bindE_Inr_E)
    show ?thesis
    proof (cases notify)
      case False
      then show ?thesis using run True wn by (auto simp: Let_def elim!: bindE_Inr_E dest!: Cons.IH)
    next
      case notify: True
      obtain q u1 f1 n1 where q: "(case p of Some q \<Rightarrow> Inr (Some q, u, f, n) | None \<Rightarrow> notification u ds f n) = Inr (q, u1, f1, n1)"
        using run True wn notify by (auto simp: Let_def elim!: bindE_Inr_E)
      have n1: "net.more n1 = net.more n" using q by (auto split: option.splits dest: notification_more)
      show ?thesis
      proof (cases q)
        case None
        then show ?thesis using run True wn notify q n1 by (simp add: Let_def)
      next
        case (Some q1)
        then show ?thesis
          using run True wn notify q n1 by (auto simp: Let_def elim!: bindE_Inr_E dest!: Cons.IH observe_moves)
      qed
    qed
  qed
qed simp

lemma observe_one_more: "observe_one now ob timeout n = Inr (ob', tm, n') \<Longrightarrow> net.more n' = net.more n"
  by (auto simp: observe_one_def Let_def elim!: bindE_Inr_E split: if_splits option.splits dest!: notify_more)

lemma observe_nodes_more: "observe_nodes now obs timeout n = Inr (obs', tm, n') \<Longrightarrow> net.more n' = net.more n"
  by (induction obs arbitrary: timeout n obs') (auto elim!: bindE_Inr_E dest!: observe_one_more)

lemma observe_step_moves:
  assumes "observe_step now timeout n = Inr (tm, n')"
  shows "moves n n'"
proof -
  obtain obs n1 where o: "observe_nodes now (observedList n) timeout n = Inr (obs, tm, n1)" and n': "n' = n1\<lparr>observedList := obs\<rparr>"
    using assms by (auto simp: observe_step_def elim!: bindE_Inr_E)
  show ?thesis unfolding n' by (rule moves_trans [OF moves_frame(1) [OF observe_nodes_more [OF o]] moves_elsewhere(3)])
qed

end
