(* ===== verification/Client_States.thy ===== *)
theory Client_States
imports Lifecycle
begin

text \<open>
  The state of the client as a state machine: what one step of \<^verbatim>\<open>lwm2m_step\<close> can do to it, and when the client is
  ready; and the updates of its registration in time.
\<close>

section \<open>The steps of the bootstrap\<close>

lemma connect_moves: "lwm2m_connect_server n = (c, n') \<Longrightarrow> moves n n'"
  by (auto simp: lwm2m_connect_server_def split: list.splits intro: moves_same)

lemma new_request_moves: "new_request sess mth n = Inr (r, n') \<Longrightarrow> moves n n'"
  by (rule moves_frame(1)) (rule uri_segments_fine)

lemma bs_status_moves [simp]: "moves n (set_bs_status i st n)"
  by (simp add: set_bs_status_def)

lemma then_elsewhere:
  "moves n n' \<Longrightarrow> moves n (set_bs_status i st n')" "moves n n' \<Longrightarrow> moves n (set_bootstrap_server i f n')"
  "moves n n' \<Longrightarrow> moves n (n'\<lparr>memory := m\<rparr>)"
  by (rule moves_trans, assumption, simp)+

lemma request_bootstrap_moves:
  assumes run: "prv_requestBootstrap i n = Inr n'"
  shows "moves n n'"
proof -
  obtain srv where srv: "get_bootstrap_server i n = Inr srv" using run by (auto simp: prv_requestBootstrap_def elim!: bindE_Inr_E)
  obtain q where q: "bootstrap_query n = Inr q" using run srv by (auto simp: prv_requestBootstrap_def elim!: bindE_Inr_E)
  show ?thesis
  proof (cases q)
    case None
    then show ?thesis using run srv q by (auto simp: prv_requestBootstrap_def)
  next
    case (Some query)
    obtain sess n1 where c: "(if sessionH srv = None
        then let (c, n') = lwm2m_connect_server n in (c, set_bootstrap_server i (\<lambda>s. s\<lparr>sessionH := c\<rparr>) n')
        else (sessionH srv, n)) = (sess, n1)" by fastforce
    have m1: "moves n n1"
      using c by (auto split: if_splits prod.splits dest: connect_moves intro: then_elsewhere)
    have rest: "(if sess = None then Inr (set_bs_status i STATE_BS_FAILED n1)
         else bindE (new_request sess COAP_POST n1) (\<lambda>(r, n2).
           case r of
             None \<Rightarrow> Inr (set_bs_status i STATE_BS_FAILING n2)
           | Some t \<Rightarrow>
             bindE (bootstrap_message query (message t) (memory n2)) (\<lambda>(p, m3).
             bindE (add_and_send t p (Bootstrap_reply i) (n2\<lparr>memory := m3\<rparr>)) (\<lambda>(ret, n3).
               Inr (if ret = 0 then set_bs_status i STATE_BS_INITIATED n3 else n3))))) = Inr n'"
      using run srv q Some c
      by (cases "sessionH srv = None"; cases "lwm2m_connect_server n") (auto simp: prv_requestBootstrap_def split: if_splits)
    have sent: "moves n1 n3" if "new_request sess COAP_POST n1 = Inr (y, n2)"
        "add_and_send x p c (n2\<lparr>memory := m3\<rparr>) = Inr (ret, n3)" for x y p c m3 ret n2 n3
      using moves_trans [OF moves_trans [OF new_request_moves [OF that(1)] moves_elsewhere(2)]] add_and_send_moves [OF that(2)] by blast
    have "moves n1 n'"
    proof (cases "sess = None")
      case True
      then show ?thesis using rest by auto
    next
      case False
      show ?thesis
        using rest unfolding if_not_P [OF False]
        by (auto elim!: bindE_Inr_E split: option.splits if_splits simp del: bindE_simps)
            (rule then_elsewhere(1), erule new_request_moves, rule then_elsewhere(1), erule (1) sent, erule (1) sent)
    qed
    then show ?thesis using m1 moves_trans by blast
  qed
qed

lemma bootstrap_server_step_moves:
  assumes "bootstrap_server_step i now timeout n = Inr (tm, n')"
  shows "moves n n'"
proof -
  obtain t where t: "get_bootstrap_server i n = Inr t" using assms by (auto simp: bootstrap_server_step_def elim!: bindE_Inr_E)
  have close: "moves n (set_bs_status i st (set_bootstrap_server i f (close_session h n)))" for st f h
    by (intro then_elsewhere) simp
  show ?thesis
    using assms t close unfolding bootstrap_server_step_def Let_def
    by (auto elim!: bindE_Inr_E split: lwm2m_status.splits if_splits option.splits intro: request_bootstrap_moves)
qed

lemma bootstrap_step_moves: "bootstrap_step now timeout n = Inr (tm, n') \<Longrightarrow> moves n n'"
proof -
  have "bootstrap_steps is now timeout n = Inr (tm, n') \<Longrightarrow> moves n n'" for "is"
    by (induction "is" arbitrary: timeout n) (auto elim!: bindE_Inr_E dest!: bootstrap_server_step_moves intro: moves_trans)
  then show "bootstrap_step now timeout n = Inr (tm, n') \<Longrightarrow> moves n n'" by (simp add: bootstrap_step_def)
qed

lemma bootstrap_start_moves: "bootstrap_start n = Inr n' \<Longrightarrow> moves n n'"
proof -
  have "bootstrap_reset is n = Inr n' \<Longrightarrow> moves n n'" for "is"
  proof (induction "is" arbitrary: n)
    case (Cons i "is")
    obtain t where t: "get_bootstrap_server i n = Inr t" using Cons.prems by (auto elim!: bindE_Inr_E)
    let ?n1 = "set_bs_status i STATE_DEREGISTERED n"
    show ?case
    proof (cases "sessionH t = None")
      case True
      obtain c n2 where c: "lwm2m_connect_server ?n1 = (c, n2)" by fastforce
      have "moves n (set_bootstrap_server i (\<lambda>s. s\<lparr>sessionH := c\<rparr>) n2)"
        by (intro then_elsewhere moves_trans [OF bs_status_moves connect_moves [OF c]])
      moreover have "moves (set_bootstrap_server i (\<lambda>s. s\<lparr>sessionH := c\<rparr>) n2) n'"
        using Cons.prems t True c by (intro Cons.IH) (simp add: Let_def)
      ultimately show ?thesis by (rule moves_trans)
    next
      case False
      then have "moves ?n1 n'" using Cons.prems t by (intro Cons.IH) (auto simp: Let_def split: if_splits)
      then show ?thesis using moves_trans [OF bs_status_moves] by blast
    qed
  qed simp
  then show "bootstrap_start n = Inr n' \<Longrightarrow> moves n n'" by (simp add: bootstrap_start_def)
qed

section \<open>The state machine\<close>

lemmas one_edge = client_edge.intros [THEN r_into_rtranclp [of client_edge]]

lemma refresh_state:
  assumes "prv_refreshServerList n = Inr (r, n')"
  shows "client_state n' = client_state n"
proof -
  have g: "client_state (fold (\<lambda>s. server_gone (secObjInstID s)) xs m) = client_state m"
    "client_state (fold (\<lambda>s. bootstrap_server_gone (secObjInstID s)) xs m) = client_state m" for xs and m :: "'a lwm2m_context"
    by (induction xs arbitrary: m) (simp_all add: server_gone_def bootstrap_server_gone_def)
  show ?thesis using assms by (auto simp: prv_refreshServerList_def Let_def g elim!: bindE_Inr_E)
qed

lemma settled_state:
  assumes "step_settled now timeout n = Inr (r, tm, n')"
  shows "client_edge\<^sup>*\<^sup>* (client_state n) (client_state n') \<and> (client_state n' = STATE_READY \<longrightarrow> client_state n = STATE_READY)"
proof -
  have bs: "client_state n' = STATE_BOOTSTRAPPING"
    if "bootstrap_start n = Inr n1" "bootstrap_step (word_of_int now) timeout (n1\<lparr>client_state := STATE_BOOTSTRAPPING\<rparr>) = Inr (tm, n')"
    for n1
    using bootstrap_step_moves [OF that(2)] by (simp add: moves_def)
  have reg: "client_state n1 = client_state n" if "registration_start n = Inr (x, n1)" for x n1
    using start_loop_moves that by (auto simp: registration_start_def moves_def)
  show ?thesis
    using assms bs reg unfolding step_settled_def step_bootstrap_required_def
    by (auto simp: one_edge elim!: bindE_Inr_E split: lwm2m_client_state.splits if_splits)
qed

lemma restart_state:
  assumes "step_restart now timeout n = Inr (r, tm, n')" and "client_state n = STATE_INITIAL"
  shows "client_edge\<^sup>*\<^sup>* STATE_INITIAL (client_state n') \<and> client_state n' \<noteq> STATE_READY"
proof -
  obtain x n1 where i: "step_initial n = Inr (x, n1)"
    and rest: "(if x \<noteq> None then Inr (x, timeout, n1) else step_settled now timeout n1) = Inr (r, tm, n')"
    using assms(1) by (auto simp: step_restart_def elim!: bindE_Inr_E)
  have s: "client_state n1 \<in> {STATE_INITIAL, STATE_REGISTER_REQUIRED, STATE_BOOTSTRAP_REQUIRED}"
    using i assms(2) by (auto simp: step_initial_def elim!: bindE_Inr_E dest!: refresh_state split: if_splits)
  then have e: "client_edge\<^sup>*\<^sup>* STATE_INITIAL (client_state n1)" "client_state n1 \<noteq> STATE_READY" by (auto intro: one_edge)
  show ?thesis
    using rest e settled_state [of now timeout n1 r tm n'] by (auto split: if_splits)
qed

lemma state_step_state:
  assumes "state_step now timeout n = Inr (r, tm, n')"
  shows "client_edge\<^sup>*\<^sup>* (client_state n) (client_state n') \<and>
    (client_state n' = STATE_READY \<longrightarrow> client_state n = STATE_READY \<and> registration_getStatus n \<noteq> STATE_REG_FAILED \<or>
       client_state n = STATE_REGISTERING \<and> registration_getStatus n = STATE_REGISTERED)"
proof (cases "client_state n")
  case STATE_INITIAL
  then have "step_restart now timeout n = Inr (r, tm, n')" using assms by (simp add: state_step_def)
  from restart_state [OF this STATE_INITIAL] STATE_INITIAL show ?thesis by simp
next
  case STATE_BOOTSTRAPPING
  let ?n = "n\<lparr>client_state := STATE_INITIAL\<rparr>"
  have again: ?thesis if "step_restart now timeout ?n = Inr (r, tm, n')"
  proof -
    have "client_edge\<^sup>*\<^sup>* STATE_INITIAL (client_state n')" "client_state n' \<noteq> STATE_READY"
      using restart_state [OF that] by simp_all
    moreover have "client_edge STATE_BOOTSTRAPPING STATE_INITIAL" by (rule bootstrapped)
    ultimately show ?thesis using STATE_BOOTSTRAPPING by (simp add: converse_rtranclp_into_rtranclp)
  qed
  have "client_state n' = STATE_BOOTSTRAPPING" if "bootstrap_step (word_of_int now) timeout n = Inr (tm, n')"
    using bootstrap_step_moves [OF that] STATE_BOOTSTRAPPING by (simp add: moves_def)
  then show ?thesis
    using assms STATE_BOOTSTRAPPING again unfolding state_step_def Let_def
    by (auto elim!: bindE_Inr_E split: if_splits)
next
  case STATE_REGISTERING
  have failed: ?thesis if "step_settled now timeout (n\<lparr>client_state := STATE_BOOTSTRAP_REQUIRED\<rparr>) = Inr (r, tm, n')"
    using settled_state [OF that] STATE_REGISTERING
      converse_rtranclp_into_rtranclp [of client_edge STATE_REGISTERING STATE_BOOTSTRAP_REQUIRED "client_state n'"]
    by (auto intro: client_edge.intros)
  show ?thesis
    using assms STATE_REGISTERING failed unfolding state_step_def Let_def by (auto split: if_splits intro: one_edge)
next
  case STATE_READY
  have failed: ?thesis if "step_settled now timeout (n\<lparr>client_state := STATE_BOOTSTRAP_REQUIRED\<rparr>) = Inr (r, tm, n')"
    using settled_state [OF that] STATE_READY
      converse_rtranclp_into_rtranclp [of client_edge STATE_READY STATE_BOOTSTRAP_REQUIRED "client_state n'"]
    by (auto intro: client_edge.intros)
  show ?thesis
    using assms STATE_READY failed unfolding state_step_def by (auto split: if_splits)
qed (use assms settled_state [of now timeout n r tm n'] in \<open>auto simp: state_step_def\<close>)


text \<open>A client whose server has just registered it.\<close>

definition ex_registered :: "unit lwm2m_context" where
  "ex_registered = ex_ready\<lparr>client_state := STATE_REGISTERING, serverList := [ex_server\<lparr>status := STATE_REGISTERED, registration := 1000,
     location := Some (bytes ''/rd/5'')\<rparr>]\<rparr>"

lemma ex_registered_step: "lwm2m_step 60 ex_registered = Inr (0, 60, ex_registered\<lparr>client_state := STATE_READY\<rparr>)"
  by (simp add: lwm2m_step_def state_step_def registration_getStatus_def observe_step_def registration_step_def server_step_def
      registration_due_def next_update_def COAP_MAX_TRANSMIT_WAIT_def add_time_def get_server_def transaction_step_def
      ex_registered_def ex_ready_defs)


section \<open>Updates in time\<close>

definition plain_path :: "byte list list \<Rightarrow> bool" where
  "plain_path segs \<longleftrightarrow> segs \<noteq> [] \<and> last segs \<noteq> [] \<and> (\<forall>v \<in> set segs. 0 \<notin> set v \<and> of_char CHR ''/'' \<notin> set v)"

definition path_of :: "byte list list \<Rightarrow> byte list" where
  "path_of segs = concat (map (\<lambda>v. of_char CHR ''/'' # v) segs)"

lemma path_joined: "segs \<noteq> [] \<Longrightarrow> path_of segs = of_char CHR ''/'' # joined (of_char CHR ''/'') segs"
proof (induction segs)
  case (Cons v vs)
  then show ?case by (cases vs) (simp_all add: path_of_def)
qed simp

lemma cut_path:
  assumes "plain_path segs"
  shows "\<exists>k. cut_string (of_char CHR ''/'') (of_char CHR ''/'') (path_of segs @ [0]) [] = Inr (map segment_option segs, k, [])"
proof -
  let ?sl = "of_char CHR ''/'' :: byte"
  have p: "path_of segs = ?sl # joined ?sl segs" using assms path_joined by (simp add: plain_path_def)
  have "0 \<notin> set (joined ?sl segs)" using set_joined [of ?sl segs] assms by (auto simp: plain_path_def)
  then have "c_string ((?sl # joined ?sl segs) @ [0]) = Inr (?sl # joined ?sl segs)" by (intro c_string_append) simp
  moreover obtain k where "add_segments ?sl (joined ?sl segs) [] [] = Inr ([] @ map segment_option segs, k, [])"
    using add_segments_parts [of segs ?sl "[]"] assms by (auto simp: plain_path_def)
  ultimately show ?thesis unfolding p by (simp add: cut_string_def)
qed

definition update_message :: "coap_packet \<Rightarrow> byte list list \<Rightarrow> coap_packet" where
  "update_message p segs = SET_OPTION COAP_OPTION_URI_PATH (p\<lparr>uri_path := map segment_option segs\<rparr>)"

lemma path_header_segments: "plain_path segs \<Longrightarrow> path_header (Some (path_of segs)) p [] = Inr (update_message p segs, [])"
  using cut_path [of segs] by (auto simp: path_header_def coap_set_header_uri_path_def update_message_def)

lemma path_length: "v \<in> set segs \<Longrightarrow> length v < length (path_of segs)" "5 * length segs + sum_list (map length segs) \<le> 5 * length (path_of segs)"
proof -
  have "length (path_of segs) = (\<Sum>v\<leftarrow>segs. Suc (length v))" by (simp add: path_of_def length_concat o_def)
  moreover have "Suc (length v) \<le> (\<Sum>v\<leftarrow>segs. Suc (length v))" if "v \<in> set segs"
    using that by (intro member_le_sum_list) auto
  moreover have "5 * length segs + sum_list (map length segs) \<le> 5 * (\<Sum>v\<leftarrow>segs. Suc (length v))"
    by (induction segs) auto
  ultimately show "v \<in> set segs \<Longrightarrow> length v < length (path_of segs)"
    "5 * length segs + sum_list (map length segs) \<le> 5 * length (path_of segs)" by simp_all
qed

lemma update_message_options:
  assumes p: "p = request_message proto mth i tv" and segs: "segs \<noteq> []" "length (path_of segs) \<le> 256"
  shows "sendable (update_message p segs)" and "sized (update_message p segs)" and "packet_limits (update_message p segs)"
    and "payload_len (update_message p segs) = 0" and "options_of (update_message p segs) = map (Pair 11) segs"
    and "payload_of (update_message p segs) = []" and "msg_type (update_message p segs) = COAP_TYPE_CON"
    "code (update_message p segs) = mth" "mid (update_message p segs) = i"
    and "coap_serialize_get_size (update_message p segs) < 65536"
proof -
  let ?q = "update_message p segs"
  have short: "length v < 256" if "v \<in> set segs" for v using path_length(1) [OF that] segs(2) by simp
  have opts: "IS_OPTION ?q k \<longleftrightarrow> k \<in> {11, 19}" if "k < 40" for k
    using that by (auto simp: update_message_def p request_message_def option_fields)
  have f: "uri_path ?q = map segment_option segs" "length (pkt_token ?q) \<le> 4" "etag ?q = []" "if_match ?q = []" "accept ?q = []"
      "uri_host_len ?q = 0" "payload ?q = None"
    by (simp_all add: update_message_def message_defs p)
  show z: "payload_len ?q = 0" and t: "msg_type ?q = COAP_TYPE_CON" "code ?q = mth" "mid ?q = i"
    by (simp_all add: update_message_def message_defs p)
  have len: "unat (word_of_nat (length v) :: byte) = length v" if "v \<in> set segs" for v
    using short [OF that] by (simp add: unat_of_nat)
  then have "multi_ok (map segment_option segs)" using segs(1) by (simp add: multi_ok_def segment_option_def)
  then show "sendable ?q" by (simp add: sendable_def opts f z)
  show "sized ?q" by (simp add: sized_def opts)
  show "packet_limits ?q" using f(2) by (simp add: packet_limits_def f(3-) t COAP_TOKEN_LEN_def)
  have "map (option_bytes \<circ> segment_option) segs = segs" using short by (intro map_idI) (simp add: option_bytes_segment)
  then show "options_of ?q = map (Pair 11) segs"
    by (simp add: options_of_def known_options_def option_list_def opts field_values_def f)
  show "payload_of ?q = []" by (simp add: payload_of_def f)
  have "multi_size (map segment_option segs) = (\<Sum>v\<leftarrow>segs. 5 + length v)"
    using len by (simp add: multi_size_def COAP_MAX_OPTION_HEADER_LEN_def segment_option_def o_def cong: map_cong)
  also have "\<dots> = 5 * length segs + sum_list (map length segs)" by (induction segs) auto
  also have "\<dots> \<le> 1280" using path_length(2) [of segs] segs(2) by linarith
  finally show "coap_serialize_get_size ?q < 65536"
    using f(2) by (simp add: coap_serialize_get_size_def options_size_def option_sizes_def opts f(1) z)
qed

text \<open>A registered server, with the location it gave and times that do not overflow.\<close>

definition keeps_registration :: "'s lwm2m_context \<Rightarrow> u16 \<Rightarrow> lwm2m_server \<Rightarrow> session \<Rightarrow> byte list list \<Rightarrow> bool" where
  "keeps_registration n i srv h segs \<longleftrightarrow>
     get_server i n = Inr srv \<and> status srv = STATE_REGISTERED \<and> sessionH srv = Some h \<and>
     location srv = Some (path_of segs) \<and> plain_path segs \<and> length (path_of segs) \<le> 256 \<and>
     0 \<le> lifetime srv \<and> lifetime srv < 0x40000000 \<and> 0 \<le> registration srv \<and> registration srv < 0x40000000"

lemma next_update_bounds: "0 \<le> l \<Longrightarrow> 0 \<le> next_update l \<and> next_update l \<le> l"
  unfolding next_update_def COAP_MAX_TRANSMIT_WAIT_def by (cases "93 < l") (simp, presburger)

lemma registration_due_value:
  assumes "0 \<le> lifetime t" "lifetime t < 0x40000000" "0 \<le> registration t" "registration t < 0x40000000" "0 \<le> now" "now < 0x40000000"
  shows "registration_due t now = Inr (registration t + next_update (lifetime t) - now)"
  using assms next_update_bounds [of "lifetime t"] by (simp add: registration_due_def add_time_def)

lemma update_sent:
  assumes n: "ready_client n" and k: "keeps_registration n i srv h segs"
  shows "\<exists>b t n'. prv_updateRegistration i False n = Inr (COAP_NO_ERROR, n') \<and> sent n' = sent n @ [(h, b)] \<and>
    get_server i n' = Inr (srv\<lparr>status := STATE_REG_UPDATE_PENDING\<rparr>) \<and>
    transactionList n' = lwm2m_list_add mID (transactionList n) t \<and> mID t = nextMID n \<and> callback t = Some (Update_reply i) \<and>
    (\<forall>slack em. \<exists>q. coap_parse_message (ctx_protocol n) (b @ slack) (length b) em [] = Inr (COAP_NO_ERROR, q, em, []) \<and>
       msg_type q = COAP_TYPE_CON \<and> code q = COAP_POST \<and> mid q = nextMID n \<and> options_of q = map (Pair 11) segs \<and> payload_of q = [])"
proof -
  note s = k [unfolded keeps_registration_def]
  have segs: "segs \<noteq> []" "length (path_of segs) \<le> 256" using s by (simp_all add: plain_path_def)
  have udp: "ctx_protocol n \<in> {COAP_UDP, COAP_UDP_DTLS}" "memory n = []" using n by (auto simp: ready_client_def)
  let ?t = "new_transaction h COAP_POST n" and ?n1 = "n\<lparr>nextMID := nextMID n + 1, next_ref := next_ref n + 1\<rparr>"
  have same: "n\<lparr>nextMID := x, next_ref := y, memory := []\<rparr> = n\<lparr>nextMID := x, next_ref := y\<rparr>" for x y using udp by simp
  have new: "new_request (Some h) COAP_POST n = Inr (Some ?t, ?n1)" by (rule new_request_udp) (use udp in auto)
  define p where "p = message ?t"
  have pr: "p = request_message (ctx_protocol n) COAP_POST (nextMID n) (clock n)" by (simp add: p_def new_transaction_def)
  define m where "m = update_message p segs"
  note mo = update_message_options [OF pr segs, folded m_def]
  have ph: "path_header (location srv) p [] = Inr (m, [])"
    using s path_header_segments [of segs p] by (simp add: m_def)
  have refs: "\<forall>x \<in> set (transactionList ?n1). ref x \<noteq> ref ?t" using n by (auto simp: ready_client_def new_transaction_def)
  have ready: "ready_client ?n1" "fresh ?t" using n by (auto simp: ready_client_def fresh_def new_transaction_def less_SucI)
  obtain b p' t' where b: "coap_serialize_message m = Inr (b, p')"
    and sent: "add_and_send ?t m (Update_reply i) ?n1
      = Inr (0, ?n1\<lparr>transactionList := lwm2m_list_add mID (transactionList n) t', sent := sent n @ [(h, b)]\<rparr>)"
    and t': "mID t' = nextMID n" "callback t' = Some (Update_reply i)"
    using request_sent [OF ready refs mo(1-3) _ mo(10), of "Update_reply i"] mo(4) s by (auto simp: new_transaction_def)
  let ?n2 = "?n1\<lparr>transactionList := lwm2m_list_add mID (transactionList n) t', sent := sent n @ [(h, b)]\<rparr>"
  let ?n' = "set_server i (\<lambda>s. s\<lparr>status := STATE_REG_UPDATE_PENDING\<rparr>) ?n2"
  have "prv_updateRegistration i False n = Inr (COAP_NO_ERROR, ?n')"
    using s new ph sent by (simp add: prv_updateRegistration_def p_def same udp(2))
  moreover have "get_server i ?n' = Inr (srv\<lparr>status := STATE_REG_UPDATE_PENDING\<rparr>)"
    using s get_server_id [of i n srv] by (intro get_set_server) (simp_all add: get_server_def)
  moreover have "\<exists>q. coap_parse_message (ctx_protocol n) (b @ slack) (length b) em [] = Inr (COAP_NO_ERROR, q, em, []) \<and>
       msg_type q = COAP_TYPE_CON \<and> code q = COAP_POST \<and> mid q = nextMID n \<and> options_of q = map (Pair 11) segs \<and> payload_of q = []"
    for slack em
    using message_read [OF mo(1,3) udp(1), of slack em] b mo(5-9) by auto
  ultimately show ?thesis using t' by (intro exI [of _ b] exI [of _ t'] exI [of _ ?n']) (simp add: set_server_def)
qed

text \<open>
  C8. The registration is kept alive: in a step, a registered server is left alone until 93 seconds before its lifetime ends (for
  a lifetime of up to 93 seconds, until half of it is over), and the step is asked for again by then at the latest; from then on
  one datagram goes to the server, which reads it as a confirmable \<^verbatim>\<open>POST\<close> to the location it gave, and an
  answer is waited for. A lifetime of 0 is due at once, at every step.
\<close>

theorem registration_update_on_time:
  assumes n: "ready_client n" and k: "keeps_registration n i srv h segs"
  shows "if clock n < registration srv + next_update (lifetime srv)
    then server_step i (clock n) timeout n = Inr (min (registration srv + next_update (lifetime srv) - clock n) timeout, n)
    else \<exists>b t n'. server_step i (clock n) timeout n = Inr (timeout, n') \<and> sent n' = sent n @ [(h, b)] \<and>
      get_server i n' = Inr (srv\<lparr>status := STATE_REG_UPDATE_PENDING\<rparr>) \<and>
      transactionList n' = lwm2m_list_add mID (transactionList n) t \<and> callback t = Some (Update_reply i) \<and>
      (\<exists>q. coap_parse_message (ctx_protocol n) b (length b) [] [] = Inr (COAP_NO_ERROR, q, [], []) \<and>
         msg_type q = COAP_TYPE_CON \<and> code q = COAP_POST \<and> options_of q = map (Pair 11) segs \<and> payload_of q = [])"
proof -
  note s = k [unfolded keeps_registration_def]
  have due: "registration_due srv (clock n) = Inr (registration srv + next_update (lifetime srv) - clock n)"
    using s n by (intro registration_due_value) (simp_all add: ready_client_def)
  obtain b t n' where u: "prv_updateRegistration i False n = Inr (COAP_NO_ERROR, n')" "sent n' = sent n @ [(h, b)]"
      "get_server i n' = Inr (srv\<lparr>status := STATE_REG_UPDATE_PENDING\<rparr>)"
      "transactionList n' = lwm2m_list_add mID (transactionList n) t" "callback t = Some (Update_reply i)"
    and read: "\<And>slack em. \<exists>q. coap_parse_message (ctx_protocol n) (b @ slack) (length b) em [] = Inr (COAP_NO_ERROR, q, em, []) \<and>
       msg_type q = COAP_TYPE_CON \<and> code q = COAP_POST \<and> mid q = nextMID n \<and> options_of q = map (Pair 11) segs \<and> payload_of q = []"
    using update_sent [OF n k] by blast
  show ?thesis
  proof (cases "clock n < registration srv + next_update (lifetime srv)")
    case True
    then show ?thesis using s due by (simp add: server_step_def)
  next
    case False
    have "server_step i (clock n) timeout n = Inr (timeout, n')" using s due u(1) False by (simp add: server_step_def)
    then show ?thesis using False u(2-5) read [of "[]" "[]"] by auto
  qed
qed

text \<open>The client above with a lifetime of 0.\<close>

definition ex_due :: "unit lwm2m_context" where
  "ex_due = ex_ready\<lparr>serverList := [ex_server\<lparr>status := STATE_REGISTERED, registration := 1000, lifetime := 0,
     location := Some (bytes ''/rd/5'')\<rparr>]\<rparr>"

theorem registration_update_on_time_witness:
  "\<exists>b n'. server_step 0 1000 60 ex_due = Inr (60, n') \<and> sent n' = [(3, b)]"
proof -
  let ?srv = "ex_server\<lparr>status := STATE_REGISTERED, registration := 1000, lifetime := 0, location := Some (bytes ''/rd/5'')\<rparr>"
  have "ready_client ex_due" "clock ex_due = 1000" "sent ex_due = []" by (simp_all add: ready_client_def ex_due_def ex_ready_defs)
  moreover have "keeps_registration ex_due 0 ?srv 3 [bytes ''rd'', bytes ''5'']"
    by (simp add: keeps_registration_def get_server_def plain_path_def path_of_def bytes_def ex_due_def ex_ready_defs)
  ultimately show ?thesis
    using registration_update_on_time [of ex_due 0 ?srv 3 "[bytes ''rd'', bytes ''5'']" 60]
    by (auto simp: next_update_def COAP_MAX_TRANSMIT_WAIT_def)
qed

section \<open>Registration over TCP\<close>

lemma secret_length: "length (secret_text key) = 2 * length key"
  by (induction key) (simp_all add: secret_text_def)

lemma query_token_fails:
  assumes "length out \<le> 2 * length key" and "2 * length key \<le> cap"
  shows "query_token cap key out = Inr None"
proof -
  let ?t = "bytes ''&token=''" and ?k = "2 * length key"
  have t: "length ?t = 7" by (simp add: bytes_def)
  show ?thesis
  proof (cases "7 < ?k - length out")
    case True
    then have "query_copy cap (token_room ?k (length out)) ?t out = Inr (Some (out @ ?t))"
      using assms t by (simp add: query_copy_def utils_stringCopy_def token_room_def)
    moreover have "query_copy cap (token_room ?k (length (out @ ?t))) (secret_text key) (out @ ?t) = Inr None"
      using True assms t by (auto simp: query_copy_def utils_stringCopy_def token_room_def secret_length)
    ultimately show ?thesis by (simp add: query_token_def)
  next
    case False
    then have "query_copy cap (token_room ?k (length out)) ?t out = Inr None"
      using assms t by (simp add: query_copy_def utils_stringCopy_def token_room_def)
    then show ?thesis by (simp add: query_token_def)
  qed
qed

text \<open>
  C29. Over TCP a client with a key cannot register when the text in front of the key is not longer than twice the key, as with 16
  bytes of key and a name of at most 18 characters: the room for the key is reckoned from the length of the key and not from that of the
  array, the query is given up, nothing is sent and no server hears of the client.
\<close>

theorem tcp_registration_refused:
  assumes tcp: "is_tcp (ctx_protocol n)" and mem: "memory n = []"
    and srv: "get_server i n = Inr srv" and name: "endpointName n = Some name" "msisdn n = None"
    and pl: "object_getRegisterPayload (object_list n) (altPath n) (object_state n) 512 = Inr pl"
    and key: "find_object (object_list n) 0 = Some ob" "readFunc ob = Some f"
      "f 0 [Data 5 V_undefined] (object_state n) [] = Inr (st, Data d (V_opaque key) # ds, [])"
    and len: "14 + length name \<le> 2 * length key" "2 * length key < 200"
  shows "prv_register i n = Inr (COAP_500_INTERNAL_SERVER_ERROR, n)"
proof (cases "pl = []")
  case True
  then show ?thesis using srv pl by (simp add: prv_register_def)
next
  case False
  let ?h = "bytes ''?lwm2m=1.0&ep=''"
  have h: "length ?h = 14" by (simp add: bytes_def)
  have "query_secret 200 (object_list n) (object_state n) (?h @ name) [] = Inr (None, [])"
    using key query_token_fails [of "?h @ name" key 200] len h by (simp add: query_secret_def lwm2m_data_new_def)
  then have "prv_getRegistrationQuery n srv 200 = Inr (None, [])"
    using name tcp mem len h by (simp add: prv_getRegistrationQuery_def query_add_fits)
  then have "register_query n srv = Inr (None, [])" by (simp add: register_query_def)
  moreover have "n\<lparr>memory := []\<rparr> = n" using mem by simp
  ultimately show ?thesis using srv pl False by (simp add: prv_register_def Let_def)
qed

text \<open>The client of the example over TCP, its security object with a key of 16 bytes.\<close>

definition ex_security :: "unit object_ops" where
  "ex_security = \<lparr>ops_id = 0, instances = \<lambda>_. [0],
     readFunc = Some (\<lambda>i ds s m. Inr (COAP_205_CONTENT, [Data 5 (V_opaque (replicate 16 0x5A))], m)),
     writeFunc = None, executeFunc = None, createFunc = None, deleteFunc = None, discoverFunc = None\<rparr>"

definition ex_tcp :: "unit lwm2m_context" where
  "ex_tcp = ex_ready\<lparr>ctx_protocol := COAP_TCP, object_list := [ex_security]\<rparr>"

theorem tcp_registration_refused_witness: "prv_register 0 ex_tcp = Inr (COAP_500_INTERNAL_SERVER_ERROR, ex_tcp)"
proof (rule tcp_registration_refused)
  show "is_tcp (ctx_protocol ex_tcp)" "memory ex_tcp = []" "get_server 0 ex_tcp = Inr ex_server"
    "endpointName ex_tcp = Some (bytes ''board'')" "msisdn ex_tcp = None"
    by (simp_all add: is_tcp_def get_server_def ex_tcp_def ex_ready_defs)
  show "object_getRegisterPayload (object_list ex_tcp) (altPath ex_tcp) (object_state ex_tcp) 512
      = Inr (bytes ''</>;rt='' @ [34] @ bytes ''oma.lwm2m'' @ [34])"
    by (simp add: ex_tcp_def ex_security_def ex_ready_defs object_getRegisterPayload_def copy_str_def utils_stringCopy_def bytes_def)
  show "find_object (object_list ex_tcp) 0 = Some ex_security"
    by (simp add: ex_tcp_def find_object_def ex_security_def)
  show "readFunc ex_security = Some (\<lambda>i ds s m. Inr (COAP_205_CONTENT, [Data 5 (V_opaque (replicate 16 0x5A))], m))"
    by (simp add: ex_security_def)
qed (auto simp: bytes_def)

end
