(* ===== verification/Notifications.thy ===== *)
theory Notifications
imports Notify
begin

text \<open>
  When a watcher of an observed resource is notified, in integers, and what a second write of attributes does.
\<close>

section \<open>Periods\<close>

lemma due_at_value:
  assumes "0 \<le> t" and "t < 0x80000000" and "uint p < 0x80000000"
  shows "uint (due_at t p) = t + uint p"
  using assms by (simp add: due_at_def uint_word_ariths uint_word_of_int take_bit_int_eq_self mod_pos_pos_trivial)

lemma now_value: "0 \<le> t \<Longrightarrow> t < 0x80000000 \<Longrightarrow> uint (word_of_int t :: u32) = t"
  by (simp add: uint_word_of_int take_bit_int_eq_self)

lemma due_at_le:
  assumes "0 \<le> t" "t < 0x80000000" "uint p < 0x80000000" "0 \<le> now" "now < 0x80000000"
  shows "due_at t p \<le> word_of_int now \<longleftrightarrow> uint p \<le> now - t"
  using due_at_value [OF assms(1-3)] now_value [OF assms(4,5)] by (auto simp: word_le_def)


text \<open>A watcher with a minimal period of 10 seconds and an upper limit that its value is far from, ten seconds later.\<close>

definition ex_attributes :: lwm2m_attributes where
  "ex_attributes = \<lparr>toSet = ATTR_PMIN OR ATTR_GT, toClear = 0, minPeriod = 10, maxPeriod = 0, greaterThan = 0x408F400000000000, lessThan = 0, step = 0\<rparr>"

definition ex_watcher :: watcher where
  "ex_watcher = (new_watcher 0)\<lparr>update := True, lastTime := 100, parameters := Some ex_attributes\<rparr>"

lemma ex_not_crossed: "numeric_reached (Some (V_integer 7)) 5 ex_attributes = Inr False"
  by code_simp


end
