(* ===== verification/Register_Decode.thy ===== *)
theory Register_Decode
imports Exchange
begin

text \<open>
  How a server reads the registration of a client, the functions \<^verbatim>\<open>prv_getParameters\<close> to
  \<^verbatim>\<open>prv_decodeRegisterPayload\<close> of \<^verbatim>\<open>external/wakaama/registration.c\<close> under \<^verbatim>\<open>LWM2M_SERVER_MODE\<close>: the query with the name, the lifetime, the number,
  the binding and the version, and the payload, a list of links to the objects and instances of the client.

  The texts taken from a message are blocks with a zero behind them; the zero is left out.
\<close>

section \<open>The query\<close>

record register_parameters =
  par_name :: "byte list option"
  par_lifetime :: u32
  par_msisdn :: "byte list option"
  par_binding :: lwm2m_binding
  par_version :: "byte list option"

definition no_parameters :: register_parameters where
  "no_parameters = \<lparr>par_name = None, par_lifetime = 0, par_msisdn = None, par_binding = BINDING_UNKNOWN, par_version = None\<rparr>"

text \<open>
  One option of the query compared with a name. \<^verbatim>\<open>strncmp\<close> reads the block of the option up to the first byte that
  differs; a name that is longer than the block is read past its end.
\<close>

fun starts_with :: "byte list \<Rightarrow> byte list \<Rightarrow> bool res" where
  "starts_with b [] = Inr True"
| "starts_with [] (c # cs) = Inl OutOfBounds"
| "starts_with (b # bs) (c # cs) = (if b \<noteq> c then Inr False else starts_with bs cs)"

text \<open>
  The text behind the first \<open>k\<close> bytes of an option; \<open>None\<close> is the error exit, \<open>Some None\<close> a text that could not
  be allocated. The length is reckoned with 32 bits: an option that is one byte shorter than its name asks for a block of no
  bytes and copies 4 GB to it; for one that is shorter still no platform has a block.
\<close>

definition query_value :: "nat \<Rightarrow> multi_option \<Rightarrow> byte list option \<Rightarrow> mem \<Rightarrow> (byte list option option \<times> mem) res" where
  "query_value k x cur m =
     (if cur \<noteq> None \<or> unat (opt_len x) = k then Inr (None, m)
      else if Suc (unat (opt_len x)) < k then Inr (Some None, m)
      else case lwm2m_malloc m of
        (False, m1) \<Rightarrow> Inr (Some None, m1)
      | (True, m1) \<Rightarrow>
          if unat (opt_len x) < k \<or> length (opt_data x) < unat (opt_len x) then Inl OutOfBounds
          else Inr (Some (Some (drop k (option_bytes x))), m1))"

text \<open>The digits of the lifetime, which wraps at 32 bits.\<close>

fun lifetime_digits :: "byte list \<Rightarrow> u32 \<Rightarrow> u32 option" where
  "lifetime_digits [] v = Some v"
| "lifetime_digits (c # cs) v =
     (if c < 48 \<or> 57 < c then None else lifetime_digits cs (v * 10 + (ucast c - 48)))"

definition query_lifetime :: "multi_option \<Rightarrow> u32 \<Rightarrow> u32 option res" where
  "query_lifetime x cur =
     (if cur \<noteq> 0 \<or> unat (opt_len x) = 3 then Inr None
      else if length (opt_data x) < unat (opt_len x) then Inl OutOfBounds
      else Inr (lifetime_digits (drop 3 (option_bytes x)) 0))"

text \<open>\<^verbatim>\<open>utils_stringToBinding\<close> takes the length as a \<^verbatim>\<open>size_t\<close>.\<close>

definition query_binding_value :: "multi_option \<Rightarrow> lwm2m_binding \<Rightarrow> lwm2m_binding option res" where
  "query_binding_value x cur =
     (if cur \<noteq> BINDING_UNKNOWN \<or> unat (opt_len x) = 2 then Inr None
      else if unat (opt_len x) < 2 then Inr (Some BINDING_UNKNOWN)
      else if length (opt_data x) < unat (opt_len x) then Inl OutOfBounds
      else Inr (Some (utils_stringToBinding (drop 2 (option_bytes x)))))"

text \<open>One option; \<open>None\<close> is the error exit.\<close>

definition get_parameter :: "multi_option \<Rightarrow> register_parameters \<Rightarrow> mem \<Rightarrow> (register_parameters option \<times> mem) res" where
  "get_parameter x q m =
     bindE (starts_with (opt_data x) (bytes ''ep='')) (\<lambda>is_name.
     if is_name then bindE (query_value 3 x (par_name q) m) (\<lambda>(r, m1).
       Inr (map_option (\<lambda>v. q\<lparr>par_name := v\<rparr>) r, m1))
     else bindE (starts_with (opt_data x) (bytes ''sms='')) (\<lambda>is_sms.
     if is_sms then bindE (query_value 4 x (par_msisdn q) m) (\<lambda>(r, m1).
       Inr (map_option (\<lambda>v. q\<lparr>par_msisdn := v\<rparr>) r, m1))
     else bindE (starts_with (opt_data x) (bytes ''lt='')) (\<lambda>is_lifetime.
     if is_lifetime then bindE (query_lifetime x (par_lifetime q)) (\<lambda>r.
       Inr (map_option (\<lambda>v. q\<lparr>par_lifetime := v\<rparr>) r, m))
     else bindE (starts_with (opt_data x) (bytes ''lwm2m='')) (\<lambda>is_version.
     if is_version then bindE (query_value 6 x (par_version q) m) (\<lambda>(r, m1).
       Inr (map_option (\<lambda>v. q\<lparr>par_version := v\<rparr>) r, m1))
     else bindE (starts_with (opt_data x) (bytes ''b='')) (\<lambda>is_binding.
     if is_binding then bindE (query_binding_value x (par_binding q)) (\<lambda>r.
       Inr (map_option (\<lambda>v. q\<lparr>par_binding := v\<rparr>) r, m))
     else Inr (Some q, m))))))"

fun parameters_from :: "multi_option list \<Rightarrow> register_parameters \<Rightarrow> mem \<Rightarrow> (register_parameters option \<times> mem) res" where
  "parameters_from [] q m = Inr (Some q, m)"
| "parameters_from (x # xs) q m =
     bindE (get_parameter x q m) (\<lambda>(r, m1).
       case r of None \<Rightarrow> Inr (None, m1) | Some q1 \<Rightarrow> parameters_from xs q1 m1)"

text \<open>\<open>None\<close> is the result -1.\<close>

definition prv_getParameters :: "multi_option list \<Rightarrow> mem \<Rightarrow> (register_parameters option \<times> mem) res" where
  "prv_getParameters query m = parameters_from query no_parameters m"

section \<open>Links\<close>

text \<open>The text without the spaces at its end.\<close>

definition trimmed :: "byte list \<Rightarrow> byte list" where
  "trimmed d = rev (dropWhile (\<lambda>b. b = of_char CHR '' '') (rev d))"

text \<open>
  One attribute of a link: where it ends, its key and its value; \<open>None\<close> is the result 0. The value loses the spaces at its end, but
  never its first byte, and a value of which only that is left is refused; an empty one is not.
\<close>

definition prv_splitLinkAttribute :: "byte list \<Rightarrow> (nat \<times> byte list \<times> byte list) option" where
  "prv_splitLinkAttribute d =
     (let i0 = length (takeWhile (\<lambda>b. b = of_char CHR '' '') d) in
      if i0 = length d then None
      else
        let k0 = (if d ! i0 = of_char CHR '';'' then i0 + 1 else i0) in
        if k0 = length d then None
        else
          let k1 = k0 + length (takeWhile (\<lambda>b. b \<noteq> of_char CHR ''='') (drop k0 d)) in
          if k1 = k0 \<or> k1 = length d then None
          else
            let v0 = k1 + 1 + length (takeWhile (\<lambda>b. b = of_char CHR '' '') (drop (k1 + 1) d)) in
            if v0 = length d then None
            else
              let raw = takeWhile (\<lambda>b. b \<noteq> of_char CHR '';'') (drop v0 d) in
              if raw \<noteq> [] \<and> length (trimmed raw) \<le> 1 then None
              else Some (v0 + length raw, take (k1 - k0) (drop k0 d), trimmed raw))"

lemma split_progress: "prv_splitLinkAttribute d = Some (e, k, v) \<Longrightarrow> d \<noteq> [] \<and> 0 < e"
  by (auto simp: prv_splitLinkAttribute_def Let_def split: if_splits)

text \<open>
  The attributes of the link to the root: whether the resource type was announced and whether JSON is supported; \<open>None\<close>
  is the result 0.
\<close>

function link_attributes :: "byte list \<Rightarrow> bool \<Rightarrow> bool \<Rightarrow> (bool \<times> bool) option" where
  "link_attributes d is_valid json =
     (if d = [] then Some (is_valid, json)
      else case prv_splitLinkAttribute d of
        None \<Rightarrow> None
      | Some (e, k, v) \<Rightarrow>
          if k = bytes ''rt'' then
            if is_valid \<or> v \<noteq> [34] @ bytes ''oma.lwm2m'' @ [34] then None else link_attributes (drop e d) True json
          else if k = bytes ''ct'' then
            if json \<or> v \<noteq> bytes ''11543'' then None else link_attributes (drop e d) is_valid True
          else link_attributes (drop e d) is_valid json)"
  by pat_completeness auto
termination by (relation "measure (\<lambda>(d, a, b). length d)") (auto dest!: split_progress)

declare link_attributes.simps [simp del]

text \<open>The support of JSON and the alternative path of the link to the root; \<open>None\<close> is the result 0.\<close>

definition prv_parseLinkAttributes :: "byte list \<Rightarrow> mem \<Rightarrow> (bool \<times> byte list option) option \<times> mem" where
  "prv_parseLinkAttributes data m =
     (let t = trimmed data in
      if length t < 2 \<or> hd t \<noteq> of_char CHR ''<'' then (None, m)
      else
        let u = tl t; i = length u - 1 - length (takeWhile (\<lambda>b. b \<noteq> of_char CHR ''>'') (rev u)) in
        if i = 0 \<or> i = length u - 1 then (None, m)
        else
          let path = (if hd u = of_char CHR ''/'' then tl (take i u) else take i u) in
          if u ! (i + 1) \<noteq> of_char CHR '';'' then (None, m)
          else case link_attributes (drop (i + 2) u) False False of
            None \<Rightarrow> (None, m)
          | Some (is_valid, json) \<Rightarrow>
              if \<not> is_valid then (None, m)
              else if path = [] then (Some (json, None), m)
              else case lwm2m_malloc m of
                (False, m1) \<Rightarrow> (None, m1)
              | (True, m1) \<Rightarrow> (Some (json, Some path), m1))"

text \<open>
  The link to an object or an instance; \<open>None\<close> is the result 0. The bytes behind the number are still there
  for \<^verbatim>\<open>uri_getNumber\<close>, which looks at the first byte before the length.
\<close>

definition prv_getId :: "byte list \<Rightarrow> (u16 \<times> u16 option) option res" where
  "prv_getId data =
     (let t = trimmed data in
      if t = [] \<or> hd t \<noteq> of_char CHR ''<'' \<or> last t \<noteq> of_char CHR ''>'' then Inr None
      else
        let d = (if 2 < length t \<and> t ! 1 = of_char CHR ''/'' then drop 2 t else tl t); n = length d - 1;
            limit = length (takeWhile (\<lambda>b. b \<noteq> of_char CHR ''/'') (take n d)) in
        bindE (uri_getNumber d limit) (\<lambda>r.
          case r of
            None \<Rightarrow> Inr None
          | Some v \<Rightarrow>
              if 65535 \<le> v then Inr None
              else if limit + 1 < n then
                bindE (uri_getNumber (drop (limit + 1) d) (n - (limit + 1))) (\<lambda>r2.
                  Inr (case r2 of
                    None \<Rightarrow> None
                  | Some w \<Rightarrow> if 65535 \<le> w then None else Some (word_of_int v, Some (word_of_int w))))
              else Inr (Some (word_of_int v, None))))"

section \<open>The list of objects\<close>

record lwm2m_client_object =
  co_id :: u16
  instanceList :: "u16 list"

text \<open>A node that cannot be allocated is cleared before it is tested.\<close>

definition add_instance :: "u16 option \<Rightarrow> lwm2m_client_object \<Rightarrow> lwm2m_client_object list \<Rightarrow> mem \<Rightarrow> (lwm2m_client_object list \<times> mem) res" where
  "add_instance inst ob os m =
     (case inst of
        None \<Rightarrow> Inr (os, m)
      | Some i \<Rightarrow>
          (case lwm2m_list_find (\<lambda>x. x) (instanceList ob) i of
             Some _ \<Rightarrow> Inr (os, m)
           | None \<Rightarrow>
             (case lwm2m_malloc m of
                (False, m1) \<Rightarrow> Inl NullDeref
              | (True, m1) \<Rightarrow>
                  Inr (store_found co_id os (co_id ob) (ob\<lparr>instanceList := lwm2m_list_add (\<lambda>x. x) (instanceList ob) i\<rparr>), m1))))"

definition add_link :: "u16 \<Rightarrow> u16 option \<Rightarrow> lwm2m_client_object list \<Rightarrow> mem \<Rightarrow> (lwm2m_client_object list \<times> mem) res" where
  "add_link oid inst os m =
     (case lwm2m_list_find co_id os oid of
        Some ob \<Rightarrow> add_instance inst ob os m
      | None \<Rightarrow>
          (case lwm2m_malloc m of
             (False, m1) \<Rightarrow> Inl NullDeref
           | (True, m1) \<Rightarrow>
               let ob = \<lparr>co_id = oid, instanceList = []\<rparr> in add_instance inst ob (lwm2m_list_add co_id os ob) m1))"

text \<open>
  The loop over the payload; \<open>rest\<close> are the bytes from the index on, \<open>root\<close> is what the link to the root said, and \<open>None\<close> the
  result \<^verbatim>\<open>NULL\<close> of the error exit. Behind the last byte of a payload of 65535 bytes the index wraps to 0, and the payload is read
  again for ever, or until the link to the root comes a second time.
\<close>

function decode_loop ::
    "nat \<Rightarrow> byte list \<Rightarrow> lwm2m_client_object list \<Rightarrow> (bool \<times> byte list option) option \<Rightarrow> mem
     \<Rightarrow> ((lwm2m_client_object list \<times> bool \<times> byte list option) option \<times> mem) res" where
  "decode_loop whole rest os root m =
     (let s = dropWhile (\<lambda>b. b = of_char CHR '' '') rest; seg = takeWhile (\<lambda>b. b \<noteq> of_char CHR '','') s;
          result = (case root of None \<Rightarrow> (os, False, None) | Some (json, alt) \<Rightarrow> (os, json, alt)) in
      if s = [] then Inr (Some result, m)
      else
        bindE (prv_getId seg) (\<lambda>r.
        bindE (case r of
            Some (oid, inst) \<Rightarrow> bindE (add_link oid inst os m) (\<lambda>(os1, m1). Inr (Some (os1, root), m1))
          | None \<Rightarrow>
              if root \<noteq> None then Inr (None, m)
              else (case prv_parseLinkAttributes seg m of
                (None, m1) \<Rightarrow> Inr (None, m1)
              | (Some l, m1) \<Rightarrow> Inr (Some (os, Some l), m1))) (\<lambda>(st, m1).
          case st of
            None \<Rightarrow> Inr (None, m1)
          | Some (os1, root1) \<Rightarrow>
              if length seg < length s then decode_loop whole (drop (length seg + 1) s) os1 root1 m1
              else if whole = 65535 then (if root1 = None then Inl Hang else Inr (None, m1))
              else Inr (Some (case root1 of None \<Rightarrow> (os1, False, None) | Some (json, alt) \<Rightarrow> (os1, json, alt)), m1))))"
  by pat_completeness auto
termination
proof (relation "measure (\<lambda>(whole, rest, os, root, m). length rest)", goal_cases)
  case 1
  show ?case by simp
next
  case (2 whole rest os root m s)
  have "length s \<le> length rest" using 2(1) by (simp add: length_dropWhile_le)
  then show ?case using 2 by (auto intro: le_less_trans [rotated])
qed

declare decode_loop.simps [simp del]

text \<open>The objects, the support of JSON and the alternative path; without objects the other two are not looked at.\<close>

definition prv_decodeRegisterPayload ::
    "byte list \<Rightarrow> mem \<Rightarrow> ((lwm2m_client_object list \<times> bool \<times> byte list option) \<times> mem) res" where
  "prv_decodeRegisterPayload pl m =
     bindE (decode_loop (length pl) pl [] None m) (\<lambda>(r, m1).
       Inr (case r of None \<Rightarrow> ([], False, None) | Some x \<Rightarrow> x, m1))"

end
