(* ===== verification/Register_Payload.thy ===== *)
theory Register_Payload
imports Register_Decode
begin

text \<open>
  What the registration of a client means to its server: the query and the payload that \<open>Registration\<close> and \<open>Objects\<close> build,
  read by \<open>Register_Decode\<close>.
\<close>

section \<open>The query\<close>

text \<open>An option that carries a text; behind it in its block are the bytes that follow in the message.\<close>

definition carries :: "multi_option \<Rightarrow> byte list \<Rightarrow> bool" where
  "carries x t \<longleftrightarrow> unat (opt_len x) = length t \<and> (\<exists>extra. opt_data x = t @ extra)"

lemma carries_segment: "length t < 256 \<Longrightarrow> carries (segment_option t) t"
  by (simp add: carries_def segment_option_def unat_of_nat)

lemma starts_with_prefix: "starts_with (s @ r) s = Inr True"
  by (induction s) auto

lemma query_value_carried:
  assumes "carries x (k @ t)" and "t \<noteq> []" and "length k = n"
  shows "query_value n x None [] = Inr (Some (Some t), [])"
  using assms by (auto simp: carries_def query_value_def option_bytes_def)

lemma lifetime_digits_text:
  "list_all is_digit_byte ds \<Longrightarrow> lifetime_digits ds (word_of_nat v) = Some (word_of_nat (decimal_from v ds))"
proof (induction ds arbitrary: v)
  case (Cons c cs)
  have c: "48 \<le> c" "c \<le> 57" using Cons.prems by (auto simp: is_digit_byte_def)
  then have "48 \<le> unat c" by (simp add: word_le_nat_alt)
  then have "(ucast c - 48 :: u32) = word_of_nat (unat c - 48)"
    by (simp add: of_nat_diff) 
  then have "word_of_nat v * 10 + (ucast c - 48 :: u32) = word_of_nat (10 * v + (unat c - 48))"
    by simp
  moreover have "\<not> (c < 48 \<or> 57 < c)" using c by auto
  ultimately show ?case using Cons.IH [of "10 * v + (unat c - 48)"] Cons.prems by (simp add: mult.commute)
qed simp

lemma lifetime_carried:
  assumes "carries x (bytes ''lt='' @ nat_text v)"
  shows "query_lifetime x 0 = Inr (Some (word_of_nat v))"
proof -
  have "nat_text v \<noteq> []" "list_all is_digit_byte (nat_text v)" "decimal_from 0 (nat_text v) = v"
    using nat_text_digits [of v] by auto
  then show ?thesis
    using assms lifetime_digits_text [of "nat_text v" 0]
    by (auto simp: carries_def query_lifetime_def option_bytes_def bytes_def)
qed

lemma binding_carried:
  assumes "query_binding b = Some t" and "carries x (binding_part b)"
  shows "get_parameter x q [] = (if par_binding q \<noteq> BINDING_UNKNOWN then Inr (None, []) else Inr (Some (q\<lparr>par_binding := b\<rparr>), []))"
  using assms
  by (cases b) (auto simp: query_binding_def binding_part_def bytes_def carries_def get_parameter_def query_binding_value_def
      option_bytes_def utils_stringToBinding_def)

text \<open>
  The query that a client sends says to the server what the client meant: its name, its number, the binding and the lifetime of its
  server object, and the version 1.0. A lifetime of 0 stands for none.
\<close>

lemma query_understood:
  assumes xs: "list_all2 carries xs (registration_parts name num srv)"
    and name: "name \<noteq> []" and num: "num \<noteq> Some []"
    and b: "query_binding (binding srv) \<noteq> None" and l: "0 \<le> lifetime srv"
  shows "prv_getParameters xs [] = Inr (Some \<lparr>par_name = Some name, par_lifetime = word_of_int (lifetime srv), par_msisdn = num,
    par_binding = binding srv, par_version = Some (bytes ''1.0'')\<rparr>, [])"
proof -
  obtain t where t: "query_binding (binding srv) = Some t" using b by blast
  obtain xv xn rest where xs0: "xs = xv # xn # rest" and v: "carries xv (bytes ''lwm2m='' @ bytes ''1.0'')" and n: "carries xn (bytes ''ep='' @ name)"
    and rest: "list_all2 carries rest ((case num of None \<Rightarrow> [] | Some k \<Rightarrow> [bytes ''sms='' @ k]) @
     [binding_part (binding srv)] @ (if lifetime srv = 0 then [] else [bytes ''lt='' @ nat_text (nat (lifetime srv))]))"
    using xs by (auto simp: registration_parts_def list_all2_Cons2 bytes_def)
  define q1 where "q1 = no_parameters\<lparr>par_version := Some (bytes ''1.0''), par_name := Some name\<rparr>"
  have "get_parameter xv no_parameters [] = Inr (Some (no_parameters\<lparr>par_version := Some (bytes ''1.0'')\<rparr>), [])"
    using v query_value_carried [OF v, of 6] by (auto simp: get_parameter_def carries_def bytes_def no_parameters_def)
  moreover have "get_parameter xn q [] = Inr (Some (q\<lparr>par_name := Some name\<rparr>), [])" if "par_name q = None" for q
    using n that query_value_carried [OF n name, of 3] by (auto simp: get_parameter_def carries_def bytes_def)
  ultimately have head: "prv_getParameters xs [] = parameters_from rest q1 []"
    by (simp add: prv_getParameters_def xs0 q1_def no_parameters_def)
  define q2 where "q2 = q1\<lparr>par_msisdn := num\<rparr>"
  obtain rest2 where r2: "parameters_from rest q1 [] = parameters_from rest2 q2 []"
    and rest2: "list_all2 carries rest2 ([binding_part (binding srv)] @ (if lifetime srv = 0 then [] else [bytes ''lt='' @ nat_text (nat (lifetime srv))]))"
  proof (cases num)
    case None
    then show thesis using rest that [of rest] by (simp add: q2_def q1_def no_parameters_def)
  next
    case (Some k)
    then obtain x r where x: "rest = x # r" "carries x (bytes ''sms='' @ k)"
      "list_all2 carries r ([binding_part (binding srv)] @ (if lifetime srv = 0 then [] else [bytes ''lt='' @ nat_text (nat (lifetime srv))]))"
      using rest by (auto simp: list_all2_Cons2)
    have "par_msisdn q1 = None" by (simp add: q1_def no_parameters_def)
    then have "get_parameter x q1 [] = Inr (Some (q1\<lparr>par_msisdn := Some k\<rparr>), [])"
      using x(2) num Some query_value_carried [OF x(2), of 4] by (auto simp: get_parameter_def carries_def bytes_def)
    then show thesis using that [of r] x Some by (simp add: q2_def)
  qed
  obtain xb r3 where xb: "rest2 = xb # r3" "carries xb (binding_part (binding srv))"
    and r3: "list_all2 carries r3 (if lifetime srv = 0 then [] else [bytes ''lt='' @ nat_text (nat (lifetime srv))])"
    using rest2 by (auto simp: list_all2_Cons2)
  have "par_binding q2 = BINDING_UNKNOWN" by (simp add: q2_def q1_def no_parameters_def)
  then have "get_parameter xb q2 [] = Inr (Some (q2\<lparr>par_binding := binding srv\<rparr>), [])" using binding_carried [OF t xb(2)] by simp
  then have tail: "prv_getParameters xs [] = parameters_from r3 (q2\<lparr>par_binding := binding srv\<rparr>) []"
    using head r2 xb(1) by simp
  show ?thesis
  proof (cases "lifetime srv = 0")
    case True
    then show ?thesis using tail r3 by (simp add: q2_def q1_def no_parameters_def)
  next
    case False
    then obtain x where x: "r3 = [x]" "carries x (bytes ''lt='' @ nat_text (nat (lifetime srv)))"
      using r3 by (auto simp: list_all2_Cons2)
    have "(word_of_nat (nat (lifetime srv)) :: u32) = word_of_int (lifetime srv)" using l by simp
    then have "get_parameter x (q2\<lparr>par_binding := binding srv\<rparr>) []
        = Inr (Some (q2\<lparr>par_binding := binding srv, par_lifetime := word_of_int (lifetime srv)\<rparr>), [])"
      using x(2) lifetime_carried [OF x(2)] by (auto simp: get_parameter_def carries_def bytes_def q2_def q1_def no_parameters_def)
    then show ?thesis using tail x(1) by (simp add: q2_def q1_def no_parameters_def)
  qed
qed

section \<open>Links\<close>

definition link_text :: "u16 \<times> u16 option \<Rightarrow> byte list" where
  "link_text l = bytes ''</'' @ nat_text (unat (fst l)) @
     (case snd l of None \<Rightarrow> [] | Some i \<Rightarrow> of_char CHR ''/'' # nat_text (unat i)) @ bytes ''>''"

definition root_text :: "byte list \<Rightarrow> byte list" where
  "root_text alt = of_char CHR ''<'' # alt @ bytes ''>;rt='' @ [34] @ bytes ''oma.lwm2m'' @ [34]"

lemma get_number_text: "uri_getNumber (nat_text (unat (i :: u16)) @ r) (length (nat_text (unat i))) = Inr (Some (int (unat i)))"
  using parse_id [of "[]" i r] by (simp add: uri_getNumber_def)

lemma text_without: "list_all is_digit_byte ds \<Longrightarrow> \<not> is_digit_byte c \<Longrightarrow> c \<notin> set ds"
  by (auto simp: list_all_iff)

lemma number_without: "\<not> is_digit_byte c \<Longrightarrow> c \<notin> set (nat_text v)"
  using nat_text_digits [of v] text_without by auto

lemma trimmed_ends: "d \<noteq> [] \<Longrightarrow> last d \<noteq> 32 \<Longrightarrow> trimmed d = d"
  by (cases d rule: rev_cases) (simp_all add: trimmed_def)

lemma below_limit: "i \<noteq> 65535 \<Longrightarrow> \<not> 65535 \<le> int (unat (i :: u16))"
  using id_below [of i] by simp

lemma getId_link:
  assumes "oid \<noteq> 65535" and "inst \<noteq> Some 65535"
  shows "prv_getId (link_text (oid, inst)) = Inr (Some (oid, inst))"
proof -
  define r where "r = (case inst of None \<Rightarrow> [] | Some i \<Rightarrow> 47 # nat_text (unat i))"
  define d where "d = nat_text (unat oid) @ r @ [62]"
  define t where "t = 60 # 47 # d"
  have lt: "link_text (oid, inst) = t" by (simp add: link_text_def bytes_def r_def d_def t_def split: option.splits)
  have tr: "trimmed t = t" by (rule trimmed_ends) (simp_all add: t_def d_def)
  have ne: "d \<noteq> []" "last t = 62" "hd t = 60" "t \<noteq> []" "2 < length t" "t ! 1 = 47" "drop 2 t = d"
    by (simp_all add: t_def d_def)
  have n: "take (length d - 1) d = nat_text (unat oid) @ r" by (simp add: d_def)
  have s: "47 \<notin> set (nat_text (unat oid))" by (rule number_without) (simp add: is_digit_byte_def)
  have limit: "length (takeWhile (\<lambda>b. b \<noteq> 47) (nat_text (unat oid) @ r)) = length (nat_text (unat oid))"
    by (cases inst) (simp_all add: r_def takeWhile_until [OF s])
  have first: "uri_getNumber d (length (nat_text (unat oid))) = Inr (Some (int (unat oid)))"
    unfolding d_def by (rule get_number_text)
  have w: "(word_of_int (int (unat oid)) :: u16) = oid" by simp
  show ?thesis
  proof (cases inst)
    case None
    then have "\<not> length (nat_text (unat oid)) + 1 < length d - 1" by (simp add: d_def r_def)
    then show ?thesis
      unfolding lt prv_getId_def Let_def tr using ne n limit first below_limit [OF assms(1)] w None by simp
  next
    case (Some i)
    have more: "length (nat_text (unat oid)) + 1 < length d - 1" by (simp add: d_def r_def Some)
    have "drop (length (nat_text (unat oid)) + 1) d = nat_text (unat i) @ [62]"
      "length d - 1 - (length (nat_text (unat oid)) + 1) = length (nat_text (unat i))"
      by (simp_all add: d_def r_def Some)
    then have "uri_getNumber (drop (length (nat_text (unat oid)) + 1) d) (length d - 1 - (length (nat_text (unat oid)) + 1))
        = Inr (Some (int (unat i)))"
      using get_number_text [of i "[62]"] by simp
    then show ?thesis
      unfolding lt prv_getId_def Let_def tr
      using ne n limit first below_limit [OF assms(1)] below_limit [of i] assms(2) w Some more by simp
  qed
qed

lemma root_attributes: "link_attributes (bytes ''rt='' @ [34] @ bytes ''oma.lwm2m'' @ [34]) False False = Some (True, False)"
  by (simp add: link_attributes.simps prv_splitLinkAttribute_def trimmed_def bytes_def)

lemma root_parsed:
  assumes "alt \<noteq> []" and "hd alt = of_char CHR ''/''"
  shows "prv_getId (root_text alt) = Inr None"
    and "prv_parseLinkAttributes (root_text alt) [] = (Some (False, if tl alt = [] then None else Some (tl alt)), [])"
proof -
  define tail :: "byte list" where "tail = bytes '';rt='' @ [34] @ bytes ''oma.lwm2m'' @ [34]"
  define u where "u = alt @ 62 # tail"
  have t: "root_text alt = 60 # u" by (simp add: root_text_def u_def tail_def bytes_def)
  have tr: "trimmed (60 # u) = 60 # u" by (rule trimmed_ends) (simp_all add: u_def tail_def bytes_def)
  have l: "last (60 # u) = 34" by (simp add: u_def tail_def bytes_def)
  show "prv_getId (root_text alt) = Inr None" unfolding t prv_getId_def Let_def tr using l by simp
  have len: "length tail = 15" by (simp add: tail_def bytes_def)
  have "62 \<notin> set tail" by (simp add: tail_def bytes_def)
  then have "length (takeWhile (\<lambda>b. b \<noteq> 62) (rev u)) = 15"
    using takeWhile_until(1) [of 62 "rev tail" "rev alt"] len by (simp add: u_def)
  moreover have "u ! (length alt + 1) = 59" by (simp add: u_def tail_def bytes_def nth_append)
  moreover have "drop (length alt + 2) u = bytes ''rt='' @ [34] @ bytes ''oma.lwm2m'' @ [34]" by (simp add: u_def tail_def bytes_def)
  moreover have "hd u = 47" "take (length alt) u = alt" using assms by (simp_all add: u_def)
  ultimately show "prv_parseLinkAttributes (root_text alt) [] = (Some (False, if tl alt = [] then None else Some (tl alt)), [])"
    unfolding t prv_parseLinkAttributes_def Let_def tr
    using root_attributes assms(1) len by (simp add: u_def del: link_attributes.simps)
qed

section \<open>The list of links\<close>

text \<open>The lists that a server keeps of the objects: their ids ascend, and so do those of the instances of each.\<close>

definition lists_links :: "(u16 \<times> u16 option) set \<Rightarrow> lwm2m_client_object list \<Rightarrow> bool" where
  "lists_links ls os \<longleftrightarrow> ids_ascending co_id os \<and> co_id ` set os = fst ` ls \<and>
     (\<forall>ob \<in> set os. ids_ascending (\<lambda>x. x) (instanceList ob) \<and> set (instanceList ob) = {i. (co_id ob, Some i) \<in> ls})"

lemma store_set:
  assumes "ids_ascending co_id os" and "ob \<in> set os" and "co_id ob' = co_id ob"
  shows "set (store_found co_id os (co_id ob) ob') = insert ob' (set os - {ob})"
  using assms
proof (induction os)
  case (Cons x xs)
  show ?case
  proof (cases "ob = x")
    case True
    then have "ob \<notin> set xs" using Cons.prems by auto
    then show ?thesis using True by auto
  next
    case False
    then have "co_id x < co_id ob" using Cons.prems by auto
    then show ?thesis using Cons False by auto
  qed
qed simp

lemma asc_id: "ids_ascending (\<lambda>x. x) xs = sorted_wrt (<) xs"
  by (simp add: ids_ascending_def)

lemma asc_unique:
  assumes "ids_ascending co_id os" and "a \<in> set os" and "b \<in> set os" and "co_id a = co_id b"
  shows "a = b"
  using assms by (induction os) auto

lemma instance_added:
  assumes ok: "lists_links ls os" and ob: "ob \<in> set os" and inst: "inst = Some i"
  shows "\<exists>os'. add_instance inst ob os [] = Inr (os', []) \<and> lists_links (insert (co_id ob, inst) ls) os'"
proof -
  have asc: "ids_ascending co_id os" "ids_ascending (\<lambda>x. x) (instanceList ob)" and members: "set (instanceList ob) = {i. (co_id ob, Some i) \<in> ls}"
    and ids: "co_id ` set os = fst ` ls"
    using ok ob by (auto simp: lists_links_def)
  have known: "lwm2m_list_find (\<lambda>x. x) (instanceList ob) i \<noteq> None \<longleftrightarrow> (co_id ob, Some i) \<in> ls"
    using find_ids_iff [of "instanceList ob" i] asc(2) members by (simp add: asc_id)
  show ?thesis
  proof (cases "(co_id ob, Some i) \<in> ls")
    case True
    then show ?thesis using known ok inst by (auto simp: add_instance_def insert_absorb)
  next
    case False
    define ob' where "ob' = ob\<lparr>instanceList := lwm2m_list_add (\<lambda>x. x) (instanceList ob) i\<rparr>"
    have id: "co_id ob' = co_id ob" by (simp add: ob'_def)
    have new: "ids_ascending (\<lambda>x. x) (instanceList ob')" "set (instanceList ob') = insert i (set (instanceList ob))"
      using ids_ascending_add [OF asc(2), of i] False members by (auto simp: ob'_def set_list_add)
    have "add_instance inst ob os [] = Inr (store_found co_id os (co_id ob) ob', [])"
      using False known inst by (simp add: add_instance_def ob'_def)
    moreover have "lists_links (insert (co_id ob, inst) ls) (store_found co_id os (co_id ob) ob')"
    proof -
      have "co_id x \<noteq> co_id ob" if "x \<in> set os" "x \<noteq> ob" for x using asc_unique [OF asc(1) _ ob] that by blast
      then have "\<forall>x \<in> set os - {ob}. ids_ascending (\<lambda>x. x) (instanceList x) \<and>
          set (instanceList x) = {j. (co_id x, Some j) \<in> insert (co_id ob, inst) ls}"
        using ok by (auto simp: lists_links_def)
      moreover have "set (instanceList ob') = {j. (co_id ob', Some j) \<in> insert (co_id ob, inst) ls}"
        using new(2) members inst id by auto
      moreover have "co_id ` insert ob' (set os - {ob}) = fst ` insert (co_id ob, inst) ls"
        using ids id ob by auto
      ultimately show ?thesis
        unfolding lists_links_def store_set [OF asc(1) ob id] using new(1) asc(1) id by (auto simp: ids_ascending_store)
    qed
    ultimately show ?thesis by blast
  qed
qed

lemma link_added:
  assumes ok: "lists_links ls os"
  shows "\<exists>os'. add_link oid inst os [] = Inr (os', []) \<and> lists_links (insert (oid, inst) ls) os'"
proof -
  have asc: "ids_ascending co_id os" and ids: "co_id ` set os = fst ` ls" using ok by (simp_all add: lists_links_def)
  show ?thesis
  proof (cases "lwm2m_list_find co_id os oid")
    case (Some ob)
    then have ob: "co_id ob = oid" "ob \<in> set os" using find_abs [OF asc] abs_list_key by metis+
    show ?thesis
    proof (cases inst)
      case None
      have "oid \<in> fst ` ls" using ob ids by blast
      then have "fst ` insert (oid, None) ls = fst ` ls" by auto
      then have "lists_links (insert (oid, None) ls) os" using ok by (auto simp: lists_links_def)
      then show ?thesis using Some None by (simp add: add_link_def add_instance_def)
    next
      case (Some i)
      then show ?thesis using instance_added [OF ok ob(2) Some] \<open>lwm2m_list_find co_id os oid = _\<close> ob(1) by (auto simp: add_link_def)
    qed
  next
    case None
    define ob where "ob = \<lparr>co_id = oid, instanceList = []\<rparr>"
    have fresh: "oid \<notin> co_id ` set os" using None find_abs [OF asc] abs_list_None_iff by metis
    then have nl: "oid \<notin> fst ` ls" using ids by simp
    let ?os = "lwm2m_list_add co_id os ob"
    have "lists_links (insert (oid, None) ls) ?os"
      using ok fresh nl ids_ascending_add [OF asc, of ob]
      by (force simp: lists_links_def set_list_add ob_def)
    moreover have "add_link oid inst os [] = add_instance inst ob ?os []" using None by (simp add: add_link_def ob_def Let_def)
    moreover have "ob \<in> set ?os" "co_id ob = oid" by (simp_all add: set_list_add ob_def)
    moreover have "lists_links (insert (oid, Some i) ls) os'" if "lists_links (insert (oid, Some i) (insert (oid, None) ls)) os'" for i os'
      using that by (auto simp: lists_links_def)
    note step = calculation this
    show ?thesis
    proof (cases inst)
      case None
      then show ?thesis using step by (auto simp: add_instance_def)
    next
      case (Some i)
      obtain os' where "add_instance inst ob ?os [] = Inr (os', [])" "lists_links (insert (co_id ob, inst) (insert (oid, None) ls)) os'"
        using instance_added [OF \<open>lists_links (insert (oid, None) ls) ?os\<close> \<open>ob \<in> set ?os\<close> Some] by blast
      then show ?thesis using step Some by (simp add: ob_def)
    qed
  qed
qed

section \<open>The loop\<close>

lemma link_text_plain: "of_char CHR '','' \<notin> set (link_text l)" "link_text l \<noteq> []" "hd (link_text l) = 60"
  using number_without [of 44] by (auto simp: link_text_def bytes_def is_digit_byte_def split: option.splits)

definition good_link :: "u16 \<times> u16 option \<Rightarrow> bool" where
  "good_link l \<longleftrightarrow> fst l \<noteq> 65535 \<and> snd l \<noteq> Some 65535"

definition decode_result :: "lwm2m_client_object list \<Rightarrow> (bool \<times> byte list option) option \<Rightarrow> lwm2m_client_object list \<times> bool \<times> byte list option" where
  "decode_result os root = (case root of None \<Rightarrow> (os, False, None) | Some (json, alt) \<Rightarrow> (os, json, alt))"

lemma decode_nil: "decode_loop whole [] os root m = Inr (Some (decode_result os root), m)"
  by (simp add: decode_loop.simps decode_result_def Let_def)

lemma decode_links:
  assumes "\<forall>l \<in> set ls. good_link l" and "lists_links done os" and "whole \<noteq> 65535"
  shows "\<exists>os'. decode_loop whole (joined (of_char CHR '','') (map link_text ls)) os root [] = Inr (Some (decode_result os' root), []) \<and>
    lists_links (done \<union> set ls) os'"
  using assms
proof (induction ls arbitrary: os "done")
  case Nil
  then show ?case using decode_nil by auto
next
  case (Cons l ls)
  obtain oid inst where l: "l = (oid, inst)" by (cases l)
  have id: "prv_getId (link_text l) = Inr (Some (oid, inst))" using getId_link Cons.prems(1) l by (auto simp: good_link_def)
  obtain os1 where add: "add_link oid inst os [] = Inr (os1, [])" and ok: "lists_links (insert l done) os1"
    using link_added [OF Cons.prems(2)] l by blast
  note plain = link_text_plain [of l]
  have space: "dropWhile (\<lambda>b. b = 32) (link_text l @ r) = link_text l @ r" for r
    using plain by (cases "link_text l") auto
  obtain os' where rest: "decode_loop whole (joined 44 (map link_text ls)) os1 root [] = Inr (Some (decode_result os' root), [])"
    "lists_links (insert l done \<union> set ls) os'"
    using Cons.IH [OF _ ok] Cons.prems by auto
  have "decode_loop whole (joined 44 (map link_text (l # ls))) os root [] = Inr (Some (decode_result os' root), [])"
  proof (cases ls)
    case Nil
    then have "os' = os1" using rest(1) by (auto simp: decode_nil decode_result_def split: option.splits)
    moreover have "takeWhile (\<lambda>b. b \<noteq> 44) (link_text l) = link_text l" by (rule takeWhile_until(2)) (use plain(1) in simp)
    note tw = this
    ultimately show ?thesis using Nil id add Cons.prems(3) plain(2) space [of "[]"]
      by (subst decode_loop.simps) (simp add: Let_def decode_result_def tw del: takeWhile_eq_all_conv split: option.splits)
  next
    case (Cons k ks)
    let ?r = "joined 44 (map link_text ls)"
    have j: "joined 44 (map link_text (l # ls)) = link_text l @ 44 # ?r" by (simp add: Cons)
    have "takeWhile (\<lambda>b. b \<noteq> 44) (link_text l @ 44 # ?r) = link_text l" using takeWhile_until(1) plain(1) by auto
    then show ?thesis unfolding j using id add plain(2) space [of "44 # ?r"] rest(1)
      by (subst decode_loop.simps) (simp add: Let_def)
  qed
  then show ?case using rest(2) by auto
qed

lemma decode_registration:
  assumes alt: "alt \<noteq> []" "hd alt = of_char CHR ''/''" "of_char CHR '','' \<notin> set alt" and ls: "\<forall>l \<in> set ls. good_link l"
    and len: "length (joined (of_char CHR '','') (root_text alt # map link_text ls)) < 65535"
  shows "\<exists>os. prv_decodeRegisterPayload (joined (of_char CHR '','') (root_text alt # map link_text ls)) []
      = Inr ((os, False, if tl alt = [] then None else Some (tl alt)), []) \<and> lists_links (set ls) os"
proof -
  let ?root = "Some (False, if tl alt = [] then None else Some (tl alt))"
  let ?whole = "length (joined 44 (root_text alt # map link_text ls))"
  have plain: "44 \<notin> set (root_text alt)" using alt(3) by (simp add: root_text_def bytes_def)
  have space: "dropWhile (\<lambda>b. b = 32) (root_text alt @ r) = root_text alt @ r" for r by (simp add: root_text_def)
  have "lists_links {} []" by (simp add: lists_links_def)
  then obtain os where os: "decode_loop ?whole (joined 44 (map link_text ls)) [] ?root [] = Inr (Some (decode_result os ?root), [])"
    "lists_links (set ls) os"
    using decode_links [of ls "{}" "[]" ?whole ?root] ls len by auto
  have "decode_loop ?whole (joined 44 (root_text alt # map link_text ls)) [] None [] = Inr (Some (decode_result os ?root), [])"
  proof (cases ls)
    case Nil
    then have "os = []" using os(1) by (auto simp: decode_nil decode_result_def split: option.splits)
    moreover have tw: "takeWhile (\<lambda>b. b \<noteq> 44) (root_text alt) = root_text alt" by (rule takeWhile_until(2) [OF plain])
    moreover have "root_text alt \<noteq> []" by (simp add: root_text_def)
    ultimately show ?thesis using Nil root_parsed [OF alt(1,2)] space [of "[]"] len
      by (subst decode_loop.simps) (simp add: Let_def decode_result_def tw del: takeWhile_eq_all_conv)
  next
    case (Cons k ks)
    let ?r = "joined 44 (map link_text ls)"
    have j: "joined 44 (root_text alt # map link_text ls) = root_text alt @ 44 # ?r" by (simp add: Cons)
    have "takeWhile (\<lambda>b. b \<noteq> 44) (root_text alt @ 44 # ?r) = root_text alt" by (rule takeWhile_until(1) [OF plain])
    moreover have "root_text alt \<noteq> []" by (simp add: root_text_def)
    ultimately show ?thesis using root_parsed [OF alt(1,2)] space [of "44 # ?r"] os(1) unfolding j
      by (subst decode_loop.simps) (simp add: Let_def)
  qed
  then show ?thesis using os(2) by (auto simp: prv_decodeRegisterPayload_def decode_result_def)
qed

section \<open>The payload of a client\<close>

definition links_of :: "'s object_ops list \<Rightarrow> 's \<Rightarrow> (u16 \<times> u16 option) list" where
  "links_of objs s = concat (map (\<lambda>ob. if ops_id ob = 0 then []
     else if instances ob s = [] then [(ops_id ob, None)] else map (\<lambda>i. (ops_id ob, Some i)) (instances ob s)) objs)"

definition with_comma :: "(u16 \<times> u16 option) list \<Rightarrow> byte list" where
  "with_comma ls = concat (map (\<lambda>l. link_text l @ [44]) ls)"

lemma int_copied: "utils_intCopy n (ucast (i :: u16)) = Inr (Some t) \<Longrightarrow> t = nat_text (unat i) @ [0]"
proof -
  have same: "scast (ucast i :: u32) = (ucast i :: i64)"
  proof (rule bit_word_eqI)
    fix k assume "k < LENGTH(64)"
    then show "bit (scast (ucast i :: u32) :: i64) k = bit (ucast i :: i64) k"
      by (auto simp: bit_signed_iff bit_ucast_iff min_def dest!: bit_imp_le_length split: if_splits)
  qed
  show "utils_intCopy n (ucast i) = Inr (Some t) \<Longrightarrow> t = nat_text (unat i) @ [0]"
    unfolding utils_intCopy_def same using id_text [of 11 i] by (simp split: if_splits)
qed

lemma copy_int_text: "copy_int cap i out = Inr (Some r) \<Longrightarrow> r = out @ nat_text (unat i)"
  by (auto simp: copy_int_def bindE_Inr_iff dest!: int_copied)

lemma copy_str_text: "copy_str cap s out = Inr (Some r) \<Longrightarrow> r = out @ s"
  by (auto simp: copy_str_def utils_stringCopy_def split: if_splits)

lemma bindO_Some_iff: "bindO x f = Inr (Some r) \<longleftrightarrow> (\<exists>y. x = Inr (Some y) \<and> f y = Inr (Some r))"
  by (auto simp: bindO_def bindE_Inr_iff split: option.splits)

lemma payload_instances_text:
  "payload_instances cap t first is out = Inr (Some r) \<Longrightarrow> is \<noteq> [] \<Longrightarrow>
   r = (if first then out else out @ t) @ nat_text (unat (hd is)) @ bytes ''>,'' @ concat (map (\<lambda>i. t @ nat_text (unat i) @ bytes ''>,'') (tl is))"
proof (induction cap t first "is" out arbitrary: r rule: payload_instances.induct)
  case (2 cap t first i "is" out)
  obtain o2 where o2: "payload_instances cap t False is o2 = Inr (Some r)"
    "o2 = (if first then out else out @ t) @ nat_text (unat i) @ bytes ''>,''"
    using "2.prems"(1) by (auto simp: bindO_Some_iff dest!: copy_int_text copy_str_text split: if_splits)
  have IH: "is \<noteq> [] \<Longrightarrow> r = o2 @ t @ nat_text (unat (hd is)) @ bytes ''>,'' @ concat (map (\<lambda>i. t @ nat_text (unat i) @ bytes ''>,'') (tl is))"
    using "2.prems"(1) o2(1) "2.IH" by (auto simp: bindO_Some_iff dest!: copy_int_text copy_str_text split: if_splits)
  show ?case using IH o2 by (cases "is") auto
qed simp

lemma template_text: "prv_getObjectTemplate cap i = Inr (Some t) \<Longrightarrow> t = bytes ''</'' @ nat_text (unat i) @ bytes ''/''"
  by (auto simp: prv_getObjectTemplate_def bindO_Some_iff dest!: copy_int_text split: if_splits)

lemma payload_objects_text:
  "payload_objects cap objs s out = Inr (Some r) \<Longrightarrow> r = out @ with_comma (links_of objs s)"
proof (induction cap objs s out rule: payload_objects.induct)
  case (2 cap ob obs s out)
  show ?case
  proof (cases "ops_id ob = 0")
    case True
    then show ?thesis using 2 by (simp add: links_of_def)
  next
    case False
    obtain t o1 where t: "prv_getObjectTemplate (cap - length out) (ops_id ob) = Inr (Some t)"
      and o1: "(if instances ob s = [] then copy_str cap (bytes ''>,'') (butlast (out @ t))
           else payload_instances cap t True (instances ob s) (out @ t)) = Inr (Some o1)"
      and r: "payload_objects cap obs s o1 = Inr (Some r)"
      using "2.prems" False by (auto simp: bindO_Some_iff)
    note tt = template_text [OF t]
    have "o1 = out @ with_comma (links_of [ob] s)"
    proof (cases "instances ob s")
      case Nil
      then show ?thesis using copy_str_text o1 tt False
        by (fastforce simp: links_of_def with_comma_def link_text_def bytes_def butlast_append)
    next
      case (Cons i "is")
      then have "o1 = (out @ t) @ nat_text (unat i) @ bytes ''>,'' @ concat (map (\<lambda>i. t @ nat_text (unat i) @ bytes ''>,'') is)"
        using payload_instances_text [of cap t True "instances ob s" "out @ t" o1] o1 by simp
      then show ?thesis using False Cons tt by (simp add: links_of_def with_comma_def link_text_def bytes_def comp_def)
    qed
    moreover have "r = o1 @ with_comma (links_of obs s)" using "2.IH"(2) False t o1 r by auto
    ultimately show ?thesis by (simp add: links_of_def with_comma_def)
  qed
qed (simp add: links_of_def with_comma_def)

lemma joined_commas: "root @ 44 # with_comma ls = joined 44 (root # map link_text ls) @ [44]"
proof (induction ls arbitrary: root)
  case (Cons l ls)
  have "root @ 44 # with_comma (l # ls) = root @ 44 # (link_text l @ 44 # with_comma ls)" by (simp add: with_comma_def)
  then show ?case using Cons.IH [of "link_text l"] by simp
qed (simp add: with_comma_def)

definition root_path :: "byte list option \<Rightarrow> byte list" where
  "root_path alt = (case alt of Some (c # cs) \<Rightarrow> c # cs | _ \<Rightarrow> bytes ''/'')"

lemma payload_text:
  assumes "object_getRegisterPayload objs alt s cap = Inr pl" and "pl \<noteq> []"
  shows "pl = joined (of_char CHR '','') (root_text (root_path alt) # map link_text (links_of objs s))"
proof -
  let ?head = "bytes ''<'' @ root_path alt @ bytes ''>;rt='' @ [34] @ bytes ''oma.lwm2m'' @ [34] @ bytes '',''"
  obtain r where r: "payload_objects cap objs s ?head = Inr (Some r)" and pl: "pl = butlast r"
    using assms
    by (auto simp: object_getRegisterPayload_def bindE_Inr_iff bindO_Some_iff root_path_def dest!: copy_str_text split: option.splits)
  have "?head = root_text (root_path alt) @ [44]" by (simp add: root_text_def bytes_def)
  then have "r = root_text (root_path alt) @ 44 # with_comma (links_of objs s)" using payload_objects_text [OF r] by simp
  then have "r = joined 44 (root_text (root_path alt) # map link_text (links_of objs s)) @ [44]" by (simp only: joined_commas)
  then show ?thesis unfolding pl by simp
qed

text \<open>What the server should know of a client: for every object but the security object the list of its instances.\<close>

definition announced :: "'s object_ops list \<Rightarrow> 's \<Rightarrow> u16 \<Rightarrow> u16 list option" where
  "announced objs s i = (if i = 0 then None else map_option (\<lambda>ob. instances ob s) (find_object objs i))"

definition announceable :: "'s object_ops list \<Rightarrow> 's \<Rightarrow> bool" where
  "announceable objs s \<longleftrightarrow> ids_ascending ops_id objs \<and>
     (\<forall>ob \<in> set objs. ops_id ob \<noteq> 65535 \<and> sorted_wrt (<) (instances ob s) \<and> 65535 \<notin> set (instances ob s))"

lemma links_announced:
  assumes "announceable objs s" and "lists_links (set (links_of objs s)) os"
  shows "map_option instanceList (lwm2m_list_find co_id os i) = announced objs s i"
proof -
  have asc: "ids_ascending co_id os" "ids_ascending ops_id objs" using assms by (simp_all add: lists_links_def announceable_def)
  have mem: "(i, x) \<in> set (links_of objs s) \<longleftrightarrow> i \<noteq> 0 \<and> (\<exists>ob \<in> set objs. ops_id ob = i \<and>
      (instances ob s = [] \<and> x = None \<or> (\<exists>j \<in> set (instances ob s). x = Some j)))" for i x
    by (fastforce simp: links_of_def split: if_splits)
  have objs: "find_object objs i = Some ob \<longleftrightarrow> ob \<in> set objs \<and> ops_id ob = i" for ob i
  proof -
    have "abs_list ops_id objs i = Some ob" if "ob \<in> set objs" "ops_id ob = i"
      using that asc(2) by (induction objs) auto
    then show ?thesis by (auto simp: find_object_def find_abs [OF asc(2)] dest: abs_list_key)
  qed
  show ?thesis
  proof (cases "lwm2m_list_find co_id os i")
    case None
    then have "i \<notin> fst ` set (links_of objs s)"
      using assms(2) by (auto simp: find_abs [OF asc(1)] abs_list_None_iff lists_links_def)
    then have "\<not> (i, x) \<in> set (links_of objs s)" for x by force
    then have no: "i = 0 \<or> (\<forall>ob \<in> set objs. ops_id ob = i \<longrightarrow> False)"
      unfolding mem by (metis list.set_intros(1) neq_Nil_conv)
    then have "i = 0 \<or> find_object objs i = None" using objs by (metis not_None_eq)
    then show ?thesis using None by (auto simp: announced_def)
  next
    case (Some co)
    then have co: "co \<in> set os" "co_id co = i" using abs_list_key by (metis find_abs [OF asc(1)])+
    then have "i \<in> fst ` set (links_of objs s)" using assms(2) by (auto simp: lists_links_def)
    then obtain ob where ob: "ob \<in> set objs" "ops_id ob = i" "i \<noteq> 0" using mem by force
    have only: "ob' = ob" if "ob' \<in> set objs" "ops_id ob' = i" for ob' using objs that ob by (metis option.inject)
    have "set (instanceList co) = {j. (i, Some j) \<in> set (links_of objs s)}" using assms(2) co by (auto simp: lists_links_def)
    also have "\<dots> = set (instances ob s)"
    proof -
      have "(i, Some j) \<in> set (links_of objs s) \<longleftrightarrow> j \<in> set (instances ob s)" for j unfolding mem using ob only by blast
      then show ?thesis by blast
    qed
    finally have "set (instanceList co) = set (instances ob s)" .
    moreover have "sorted_wrt (<) (instanceList co)" "sorted_wrt (<) (instances ob s)"
      using assms co ob by (auto simp: lists_links_def announceable_def asc_id)
    ultimately have "instanceList co = instances ob s"
      by (simp add: strict_sorted_equal)
    then show ?thesis using Some ob objs [of i ob] by (simp add: announced_def)
  qed
qed

lemma registration_payload_read:
  assumes pl: "object_getRegisterPayload objs alt s cap = Inr pl" "pl \<noteq> []" "length pl < 65535"
    and objs: "announceable objs s" and alt: "\<forall>a. alt = Some a \<longrightarrow> a \<noteq> [] \<and> hd a = of_char CHR ''/'' \<and> of_char CHR '','' \<notin> set a"
  shows "\<exists>os. prv_decodeRegisterPayload pl []
      = Inr ((os, False, case alt of Some (c # cs) \<Rightarrow> if cs = [] then None else Some cs | _ \<Rightarrow> None), []) \<and>
    ids_ascending co_id os \<and> (\<forall>i. map_option instanceList (lwm2m_list_find co_id os i) = announced objs s i)"
proof -
  have whole: "pl = joined (of_char CHR '','') (root_text (root_path alt) # map link_text (links_of objs s))"
    by (rule payload_text [OF pl(1,2)])
  have path: "root_path alt \<noteq> []" "hd (root_path alt) = of_char CHR ''/''" "of_char CHR '','' \<notin> set (root_path alt)"
    using alt by (auto simp: root_path_def bytes_def split: option.splits list.splits)
  have "\<forall>l \<in> set (links_of objs s). good_link l"
    using objs by (auto simp: links_of_def good_link_def announceable_def split: if_splits)
  from decode_registration [OF path this] obtain os where os:
    "prv_decodeRegisterPayload pl [] = Inr ((os, False, if tl (root_path alt) = [] then None else Some (tl (root_path alt))), [])"
    "lists_links (set (links_of objs s)) os"
    using pl(3) unfolding whole by blast
  moreover have "(if tl (root_path alt) = [] then None else Some (tl (root_path alt)))
      = (case alt of Some (c # cs) \<Rightarrow> if cs = [] then None else Some cs | _ \<Rightarrow> None)"
    by (auto simp: root_path_def bytes_def split: option.splits list.splits)
  ultimately show ?thesis using links_announced [OF objs os(2)] by (auto simp: lists_links_def)
qed

text \<open>
  C4. The list of objects arrives: whatever objects and instances a client has, the payload of its registration, when it fits in its
  array, is read by the server as exactly those objects, but for the security object, each with exactly its instances, in
  order; the alternative path loses its slash.
\<close>

theorem registration_payload_understood:
  assumes pl: "object_getRegisterPayload objs alt s cap = Inr pl" "pl \<noteq> []" "length pl < 65535"
    and objs: "announceable objs s" and alt: "\<forall>a. alt = Some a \<longrightarrow> a \<noteq> [] \<and> hd a = of_char CHR ''/'' \<and> of_char CHR '','' \<notin> set a"
  shows "\<exists>os. prv_decodeRegisterPayload pl []
      = Inr ((os, False, case alt of Some (c # cs) \<Rightarrow> if cs = [] then None else Some cs | _ \<Rightarrow> None), []) \<and>
    ids_ascending co_id os \<and> (\<forall>i. map_option instanceList (lwm2m_list_find co_id os i) = announced objs s i)"
  by (rule registration_payload_read [OF assms])

text \<open>A client with the objects 0, 1 with two instances, and 3 with none, under an alternative path.\<close>

definition ex_ops :: "u16 \<Rightarrow> u16 list \<Rightarrow> unit object_ops" where
  "ex_ops i is = \<lparr>ops_id = i, instances = \<lambda>_. is, readFunc = None, writeFunc = None, executeFunc = None, createFunc = None,
     deleteFunc = None, discoverFunc = None\<rparr>"

definition ex_table :: "unit object_ops list" where
  "ex_table = [ex_ops 0 [0], ex_ops 1 [0, 2], ex_ops 3 []]"

definition ex_payload :: "byte list" where
  "ex_payload = bytes ''</lwm2m>;rt='' @ [34] @ bytes ''oma.lwm2m'' @ [34] @ bytes '',</1/0>,</1/2>,</3>''"

lemma ex_payload: "object_getRegisterPayload ex_table (Some (bytes ''/lwm2m'')) () 512 = Inr ex_payload"
  by code_simp

theorem registration_payload_understood_witness:
  "\<exists>os. prv_decodeRegisterPayload ex_payload [] = Inr ((os, False, Some (bytes ''lwm2m'')), []) \<and>
    map_option instanceList (lwm2m_list_find co_id os 0) = None \<and> map_option instanceList (lwm2m_list_find co_id os 1) = Some [0, 2] \<and>
    map_option instanceList (lwm2m_list_find co_id os 3) = Some []"
proof -
  have "announceable ex_table ()" by (simp add: announceable_def ex_table_def ex_ops_def)
  moreover have "ex_payload \<noteq> []" "length ex_payload < 65535" by (simp_all add: ex_payload_def bytes_def)
  moreover have "\<forall>a. Some (bytes ''/lwm2m'') = Some a \<longrightarrow> a \<noteq> [] \<and> hd a = of_char CHR ''/'' \<and> of_char CHR '','' \<notin> set a"
    by (simp add: bytes_def)
  ultimately obtain os where "prv_decodeRegisterPayload ex_payload []
      = Inr ((os, False, case Some (bytes ''/lwm2m'') of Some (c # cs) \<Rightarrow> if cs = [] then None else Some cs | _ \<Rightarrow> None), [])"
    "\<forall>i. map_option instanceList (lwm2m_list_find co_id os i) = announced ex_table () i"
    using registration_payload_understood [OF ex_payload] by blast
  moreover have "announced ex_table () 0 = None" "announced ex_table () 1 = Some [0, 2]" "announced ex_table () 3 = Some []"
    by (simp_all add: announced_def find_object_def ex_table_def ex_ops_def)
  ultimately show ?thesis by (intro exI [of _ os]) (simp add: bytes_def)
qed

end
