(* ===== verification/Client_Registry.thy ===== *)
theory Client_Registry
imports Register_Decode Packet
begin

text \<open>
  The clients of a server: the part of \<^verbatim>\<open>external/wakaama/registration.c\<close> under \<^verbatim>\<open>LWM2M_SERVER_MODE\<close> that keeps them, over the struct
  \<^verbatim>\<open>lwm2m_context_t\<close> of such a build.

  The callbacks of the application are not part of the library. What they are told is collected in \<open>events\<close>; they do not call back.
  The pointer \<^verbatim>\<open>clientP\<close> of an observation is the client in whose list it is; \<open>obs_ref\<close> is the address of an observation.
\<close>

abbreviation (input) COAP_412_PRECONDITION_FAILED :: byte where "COAP_412_PRECONDITION_FAILED \<equiv> 0x8C"

section \<open>The context of a server\<close>

text \<open>A callback of the application together with its \<^verbatim>\<open>userData\<close>.\<close>

datatype user_callback = Monitor | User nat

record event =
  told :: user_callback
  about_client :: u16
  about_uri :: "lwm2m_uri option"
  event_status :: int
  event_format :: int
  event_data :: "byte list option"
  event_length :: int

record lwm2m_observation =
  obs_ref :: nat
  obs_id :: u16
  obs_uri :: lwm2m_uri
  obs_status :: lwm2m_status
  obs_callback :: user_callback

record lwm2m_client =
  internalID :: u16
  c_name :: "byte list"
  c_binding :: lwm2m_binding
  c_msisdn :: "byte list option"
  c_altPath :: "byte list option"
  supportJSON :: bool
  c_lifetime :: u32
  endOfLife :: time
  c_session :: session
  c_objects :: "lwm2m_client_object list"
  observationList :: "lwm2m_observation list"

text \<open>A callback of a transaction: an observation by its address, or what a request is told to.\<close>

datatype server_reply =
    Observe_reply nat
  | Cancel_reply nat user_callback
  | Result_reply u16 lwm2m_uri user_callback

record server_context = "server_reply net" +
  clientList :: "lwm2m_client list"
  has_monitor :: bool
  events :: "event list"

definition notify_user :: "event \<Rightarrow> server_context \<Rightarrow> server_context" where
  "notify_user e n = n\<lparr>events := events n @ [e]\<rparr>"

definition monitor_event :: "u16 \<Rightarrow> byte \<Rightarrow> event" where
  "monitor_event i st = \<lparr>told = Monitor, about_client = i, about_uri = None, event_status = uint st, event_format = 0, event_data = None,
     event_length = 0\<rparr>"

definition tell_monitor :: "u16 \<Rightarrow> byte \<Rightarrow> server_context \<Rightarrow> server_context" where
  "tell_monitor i st n = (if has_monitor n then notify_user (monitor_event i st) n else n)"

section \<open>Clients by name and id\<close>

text \<open>\<^verbatim>\<open>strcmp\<close> of two blocks that end with a zero.\<close>

definition same_text :: "byte list \<Rightarrow> byte list \<Rightarrow> bool" where
  "same_text a b \<longleftrightarrow> takeWhile (\<lambda>x. x \<noteq> 0) a = takeWhile (\<lambda>x. x \<noteq> 0) b"

definition prv_getClientByName :: "server_context \<Rightarrow> byte list \<Rightarrow> lwm2m_client option" where
  "prv_getClientByName n name = find (\<lambda>c. same_text name (c_name c)) (clientList n)"

definition find_client :: "u16 \<Rightarrow> server_context \<Rightarrow> lwm2m_client option" where
  "find_client i n = lwm2m_list_find internalID (clientList n) i"

text \<open>A write through the pointer to a client, whose id stays.\<close>

definition put_client :: "lwm2m_client \<Rightarrow> server_context \<Rightarrow> server_context" where
  "put_client c n = n\<lparr>clientList := map (\<lambda>x. if internalID x = internalID c then c else x) (clientList n)\<rparr>"

section \<open>Observations\<close>

text \<open>
  The node is taken out by its id and then freed by its address: another node of the same id in front of it leaves
  the freed node in the list.
\<close>

definition observe_remove :: "lwm2m_observation \<Rightarrow> lwm2m_client \<Rightarrow> lwm2m_client res" where
  "observe_remove ob c =
     (case lwm2m_list_remove obs_id (observationList c) (obs_id ob) of
        (obs, Some x) \<Rightarrow> if obs_ref x = obs_ref ob then Inr (c\<lparr>observationList := obs\<rparr>) else Inl UseAfterFree
      | (obs, None) \<Rightarrow> Inl UseAfterFree)"

definition observation_event :: "user_callback \<Rightarrow> u16 \<Rightarrow> lwm2m_uri \<Rightarrow> int \<Rightarrow> event" where
  "observation_event cb i u st = \<lparr>told = cb, about_client = i, about_uri = Some u, event_status = st, event_format = 0, event_data = None,
     event_length = 0\<rparr>"

text \<open>Whether what an observation is about is still in the list of objects.\<close>

definition still_there :: "lwm2m_client_object list \<Rightarrow> lwm2m_uri \<Rightarrow> bool" where
  "still_there os u =
     (case lwm2m_list_find co_id os (objectId u) of
        None \<Rightarrow> False
      | Some ob \<Rightarrow> is_set_instance u \<longrightarrow> lwm2m_list_find (\<lambda>x. x) (instanceList ob) (instanceId u) \<noteq> None)"

text \<open>The loop over the observations of a client, with the list as it was when the loop began.\<close>

fun prune_observations ::
    "lwm2m_client_object list \<Rightarrow> lwm2m_observation list \<Rightarrow> lwm2m_client \<Rightarrow> event list \<Rightarrow> (lwm2m_client \<times> event list) res" where
  "prune_observations os [] c es = Inr (c, es)"
| "prune_observations os (ob # obs) c es =
     (if still_there os (obs_uri ob) then prune_observations os obs c es
      else bindE (observe_remove ob c) (\<lambda>c1.
        prune_observations os obs c1 (es @ [observation_event (obs_callback ob) (internalID c) (obs_uri ob) (uint COAP_202_DELETED)])))"

section \<open>Requests of a client\<close>

definition MAX_LOCATION_LENGTH :: nat where "MAX_LOCATION_LENGTH = 10"

definition LWM2M_DEFAULT_LIFETIME :: u32 where "LWM2M_DEFAULT_LIFETIME = 86400"

text \<open>The array with the location; \<open>None\<close> is the length 0.\<close>

definition prv_getLocationString :: "u16 \<Rightarrow> byte list option res" where
  "prv_getLocationString i =
     (case utils_stringCopy MAX_LOCATION_LENGTH (bytes ''/rd/'') of
        None \<Rightarrow> Inr None
      | Some s \<Rightarrow>
          bindE (utils_intCopy (MAX_LOCATION_LENGTH - length (butlast s)) (ucast i)) (\<lambda>r.
            Inr (case r of
              None \<Rightarrow> None
            | Some t \<Rightarrow> let b = butlast s @ t in Some (b @ replicate (MAX_LOCATION_LENGTH - length b) 0))))"

text \<open>The sum is unsigned and is stored in a signed time.\<close>

definition end_of_life :: "time \<Rightarrow> u32 \<Rightarrow> time" where
  "end_of_life now l = wrap_time (now + uint l)"

text \<open>The client that registers: the one of that name with its observations, or a new one, and the context with it.\<close>

definition client_to_register :: "byte list \<Rightarrow> session \<Rightarrow> server_context \<Rightarrow> (lwm2m_client \<times> server_context) option" where
  "client_to_register name from n =
     (case prv_getClientByName n name of
        Some c \<Rightarrow> Some (c, n)
      | None \<Rightarrow>
          (case lwm2m_malloc (memory n) of
             (False, m) \<Rightarrow> None
           | (True, m) \<Rightarrow>
               let c = \<lparr>internalID = lwm2m_list_newId internalID (clientList n), c_name = name, c_binding = BINDING_UNKNOWN,
                      c_msisdn = None, c_altPath = None, supportJSON = False, c_lifetime = 0, endOfLife = 0, c_session = from,
                      c_objects = [], observationList = []\<rparr> in
               Some (c, n\<lparr>memory := m, clientList := lwm2m_list_add internalID (clientList n) c\<rparr>)))"

text \<open>
  A registration. The exits behind the location free the client while it stays in the list; they are not taken, as
  a location always fits and always has a segment.
\<close>

definition register_client ::
    "register_parameters \<Rightarrow> lwm2m_client_object list \<Rightarrow> bool \<Rightarrow> byte list option \<Rightarrow> session \<Rightarrow> coap_packet \<Rightarrow> server_context
     \<Rightarrow> (byte \<times> coap_packet \<times> server_context) res" where
  "register_client q objects json alt from response n =
     (case (par_version q, par_name q) of
        (None, _) \<Rightarrow> Inr (COAP_400_BAD_REQUEST, response, n)
      | (Some v, None) \<Rightarrow> Inr (COAP_400_BAD_REQUEST, response, n)
      | (Some v, Some name) \<Rightarrow>
        if objects = [] then Inr (COAP_400_BAD_REQUEST, response, n)
        else if takeWhile (\<lambda>x. x \<noteq> 0) v \<noteq> bytes ''1.0'' then Inr (COAP_412_PRECONDITION_FAILED, response, n)
        else
          let lt = (if par_lifetime q = 0 then LWM2M_DEFAULT_LIFETIME else par_lifetime q) in
          case client_to_register name from n of
            None \<Rightarrow> Inr (COAP_500_INTERNAL_SERVER_ERROR, response, n\<lparr>memory := drop 1 (memory n)\<rparr>)
          | Some (c, n1) \<Rightarrow>
              let c1 = c\<lparr>c_name := name, c_binding := par_binding q, c_msisdn := par_msisdn q, c_altPath := alt, supportJSON := json,
                     c_lifetime := lt, endOfLife := end_of_life (clock n) lt, c_objects := objects, c_session := from\<rparr>;
                  n2 = put_client c1 n1 in
              bindE (prv_getLocationString (internalID c1)) (\<lambda>l.
                case l of
                  None \<Rightarrow> Inl UseAfterFree
                | Some arr \<Rightarrow>
                    bindE (coap_set_header_location_path response arr (memory n2)) (\<lambda>(k, resp, m).
                      if k = 0 then Inl UseAfterFree
                      else Inr (COAP_201_CREATED, resp, tell_monitor (internalID c1) COAP_201_CREATED (n2\<lparr>memory := m\<rparr>)))))"

text \<open>An update of the registration of a client. An empty list of objects, as a payload that cannot be read gives it, changes nothing.\<close>

definition update_client ::
    "register_parameters \<Rightarrow> lwm2m_client_object list \<Rightarrow> u16 \<Rightarrow> session \<Rightarrow> server_context \<Rightarrow> (byte \<times> server_context) res" where
  "update_client q objects i from n =
     (case find_client i n of
        None \<Rightarrow> Inr (COAP_404_NOT_FOUND, n)
      | Some c \<Rightarrow>
        if par_name q \<noteq> None then Inr (COAP_400_BAD_REQUEST, n)
        else
          let c1 = c\<lparr>c_binding := if par_binding q \<noteq> BINDING_UNKNOWN then par_binding q else c_binding c,
                 c_msisdn := if par_msisdn q \<noteq> None then par_msisdn q else c_msisdn c,
                 c_lifetime := if par_lifetime q \<noteq> 0 then par_lifetime q else c_lifetime c, c_session := from\<rparr> in
          bindE (if objects = [] then Inr (c1, events n)
                 else bindE (prune_observations objects (observationList c1) c1 (events n)) (\<lambda>(c2, es).
                   Inr (c2\<lparr>c_objects := objects\<rparr>, es))) (\<lambda>(c2, es).
            let c3 = c2\<lparr>endOfLife := end_of_life (clock n) (c_lifetime c2)\<rparr> in
            Inr (COAP_204_CHANGED, tell_monitor i COAP_204_CHANGED (put_client c3 (n\<lparr>events := es\<rparr>)))))"

text \<open>A deregistration: the client is taken out and freed, with its observations.\<close>

definition delete_client :: "u16 \<Rightarrow> server_context \<Rightarrow> byte \<times> server_context" where
  "delete_client i n =
     (case lwm2m_list_remove internalID (clientList n) i of
        (cs, None) \<Rightarrow> (COAP_400_BAD_REQUEST, n\<lparr>clientList := cs\<rparr>)
      | (cs, Some c) \<Rightarrow> (COAP_202_DELETED, tell_monitor (internalID c) COAP_202_DELETED (n\<lparr>clientList := cs\<rparr>)))"

definition LWM2M_URI_MASK_ID :: byte where "LWM2M_URI_MASK_ID = 0x07"

definition registration_handleRequest ::
    "lwm2m_uri \<Rightarrow> session \<Rightarrow> coap_packet \<Rightarrow> coap_packet \<Rightarrow> server_context \<Rightarrow> (byte \<times> coap_packet \<times> server_context) res" where
  "registration_handleRequest u from p response n =
     (if clock n < 0 then Inr (COAP_500_INTERNAL_SERVER_ERROR, response, n)
      else if code p = COAP_POST then
        bindE (prv_getParameters (uri_query p) (memory n)) (\<lambda>(r, m1).
          case r of
            None \<Rightarrow> Inr (COAP_400_BAD_REQUEST, response, n\<lparr>memory := m1\<rparr>)
          | Some q \<Rightarrow>
            if content_type p \<noteq> 40 \<and> content_type p \<noteq> 0 then Inr (COAP_400_BAD_REQUEST, response, n\<lparr>memory := m1\<rparr>)
            else
              bindE (prv_decodeRegisterPayload (payload_of p) m1) (\<lambda>((objects, json, alt), m2).
                let n1 = n\<lparr>memory := m2\<rparr>; ids = flag u AND LWM2M_URI_MASK_ID in
                if ids = 0 then register_client q objects json alt from response n1
                else if ids = FLAG_OBJECT_ID then
                  bindE (update_client q objects (objectId u) from n1) (\<lambda>(st, n2). Inr (st, response, n2))
                else Inr (COAP_400_BAD_REQUEST, response, n1)))
      else if code p = COAP_DELETE then
        if flag u AND LWM2M_URI_MASK_ID \<noteq> FLAG_OBJECT_ID then Inr (COAP_400_BAD_REQUEST, response, n)
        else let (st, n1) = delete_client (objectId u) n in Inr (st, response, n1)
      else Inr (COAP_400_BAD_REQUEST, response, n))"

section \<open>The end of registrations\<close>

text \<open>The clients that are visited, as the list was at the beginning, and the least of the times left.\<close>

fun expire_clients :: "lwm2m_client list \<Rightarrow> time \<Rightarrow> time \<Rightarrow> server_context \<Rightarrow> time \<times> server_context" where
  "expire_clients [] now timeout n = (timeout, n)"
| "expire_clients (c # cs) now timeout n =
     (if endOfLife c \<le> now then
        expire_clients cs now timeout (tell_monitor (internalID c) COAP_202_DELETED
          (n\<lparr>clientList := fst (lwm2m_list_remove internalID (clientList n) (internalID c))\<rparr>))
      else expire_clients cs now (min timeout (endOfLife c - now)) n)"

definition clients_step :: "time \<Rightarrow> time \<Rightarrow> server_context \<Rightarrow> time \<times> server_context" where
  "clients_step now timeout n = expire_clients (clientList n) now timeout n"

end
