(* ===== verification/Server_Requests.thy ===== *)
theory Server_Requests
imports Client_Registry Float_Text
begin

text \<open>
  The requests of a server to its clients and what it receives from them: the parts of \<^verbatim>\<open>observe.c\<close>, \<^verbatim>\<open>management.c\<close>,
  \<^verbatim>\<open>packet.c\<close> and \<^verbatim>\<open>liblwm2m.c\<close> in \<^verbatim>\<open>external/wakaama\<close> under \<^verbatim>\<open>LWM2M_SERVER_MODE\<close>.
\<close>

section \<open>Observations by their address\<close>

definition observation_at :: "nat \<Rightarrow> server_context \<Rightarrow> (lwm2m_client \<times> lwm2m_observation) res" where
  "observation_at r n =
     (case filter (\<lambda>(c, ob). obs_ref ob = r) (concat (map (\<lambda>c. map (Pair c) (observationList c)) (clientList n))) of
        [] \<Rightarrow> Inl UseAfterFree
      | x # _ \<Rightarrow> Inr x)"

definition set_status :: "nat \<Rightarrow> lwm2m_status \<Rightarrow> lwm2m_client \<Rightarrow> lwm2m_client" where
  "set_status r st c = c\<lparr>observationList := map (\<lambda>ob. if obs_ref ob = r then ob\<lparr>obs_status := st\<rparr> else ob) (observationList c)\<rparr>"

definition content_event :: "user_callback \<Rightarrow> u16 \<Rightarrow> lwm2m_uri \<Rightarrow> int \<Rightarrow> int \<Rightarrow> coap_packet \<Rightarrow> event" where
  "content_event cb i u st fmt p = \<lparr>told = cb, about_client = i, about_uri = Some u, event_status = st, event_format = fmt,
     event_data = payload p, event_length = uint (payload_len p)\<rparr>"

section \<open>Answers of a client\<close>

text \<open>The code of an answer; no answer is a code, too.\<close>

definition answer_code :: "coap_packet option \<Rightarrow> byte" where
  "answer_code packet = (case packet of None \<Rightarrow> COAP_503_SERVICE_UNAVAILABLE | Some p \<Rightarrow> code p)"

definition observe_code :: "coap_packet option \<Rightarrow> byte" where
  "observe_code packet =
     (case packet of
        None \<Rightarrow> COAP_503_SERVICE_UNAVAILABLE
      | Some p \<Rightarrow> if code p = COAP_205_CONTENT \<and> \<not> IS_OPTION p COAP_OPTION_OBSERVE then COAP_405_METHOD_NOT_ALLOWED else code p)"

text \<open>What the application hears of an answer: the code of a failure, or the content.\<close>

definition answer_event :: "user_callback \<Rightarrow> u16 \<Rightarrow> lwm2m_uri \<Rightarrow> byte \<Rightarrow> coap_packet option \<Rightarrow> event" where
  "answer_event cb i u c packet =
     (case packet of
        Some p \<Rightarrow> if c = COAP_205_CONTENT then content_event cb i u 0 (uint (content_type p)) p else observation_event cb i u (uint c)
      | None \<Rightarrow> observation_event cb i u (uint c))"

definition prv_obsRequestCallback :: "nat \<Rightarrow> coap_packet option \<Rightarrow> server_context \<Rightarrow> server_context res" where
  "prv_obsRequestCallback r packet n =
     bindE (observation_at r n) (\<lambda>(c, ob).
       if obs_status ob = STATE_DEREG_PENDING then bindE (observe_remove ob c) (\<lambda>c1. Inr (put_client c1 n))
       else
         let c1 = (if obs_status ob = STATE_REG_PENDING then set_status r STATE_REGISTERED c else c);
             n1 = notify_user (answer_event (obs_callback ob) (internalID c) (obs_uri ob) (observe_code packet) packet) (put_client c1 n) in
         if observe_code packet \<noteq> COAP_205_CONTENT then bindE (observe_remove ob c1) (\<lambda>c2. Inr (put_client c2 n1))
         else Inr n1)"

definition prv_obsCancelRequestCallback :: "nat \<Rightarrow> user_callback \<Rightarrow> coap_packet option \<Rightarrow> server_context \<Rightarrow> server_context res" where
  "prv_obsCancelRequestCallback r cb packet n =
     bindE (observation_at r n) (\<lambda>(c, ob).
     bindE (observe_remove ob c) (\<lambda>c1.
       Inr (put_client c1 (notify_user (answer_event cb (internalID c) (obs_uri ob) (answer_code packet) packet) n))))"

text \<open>
  The answer to a request of the device management. After a create the ids of the location are taken over; when the location
  cannot be read, the application hears nothing.
\<close>

definition prv_resultCallback :: "u16 \<Rightarrow> lwm2m_uri \<Rightarrow> user_callback \<Rightarrow> coap_packet option \<Rightarrow> server_context \<Rightarrow> server_context res" where
  "prv_resultCallback i u cb packet n =
     (case packet of
        None \<Rightarrow> Inr (notify_user (observation_event cb i u (uint COAP_503_SERVICE_UNAVAILABLE)) n)
      | Some p \<Rightarrow>
          bindE (if code p = COAP_201_CREATED \<and> location_path p \<noteq> [] then
              bindE (coap_get_multi_option_as_string (location_path p) (memory n)) (\<lambda>(l, m).
                case l of
                  None \<Rightarrow> Inr (None, m)
                | Some s \<Rightarrow>
                    bindE (c_string (s @ [0])) (\<lambda>t.
                    bindE (lwm2m_stringToUri (s @ [0]) (length t)) (\<lambda>r.
                      Inr (map_option (\<lambda>(_, v). u\<lparr>instanceId := instanceId v, flag := flag v\<rparr>) r, m))))
            else Inr (Some u, memory n)) (\<lambda>(r, m).
          Inr (case r of
            None \<Rightarrow> n\<lparr>memory := m\<rparr>
          | Some v \<Rightarrow> notify_user (content_event cb i v (uint (code p)) (media_number (utils_convertMediaType (content_type p))) p)
              (n\<lparr>memory := m\<rparr>))))"

fun server_callback :: "server_reply \<Rightarrow> coap_packet option \<Rightarrow> server_context \<Rightarrow> server_context res" where
  "server_callback (Observe_reply r) p n = prv_obsRequestCallback r p n"
| "server_callback (Cancel_reply r cb) p n = prv_obsCancelRequestCallback r cb p n"
| "server_callback (Result_reply i u cb) p n = prv_resultCallback i u cb p n"

section \<open>Requests\<close>

text \<open>\<^verbatim>\<open>transaction_new\<close> for a client, with the next message id.\<close>

definition client_request ::
    "lwm2m_client \<Rightarrow> byte \<Rightarrow> lwm2m_uri \<Rightarrow> nat \<Rightarrow> byte list option \<Rightarrow> server_context \<Rightarrow> (server_reply transaction option \<times> server_context) res" where
  "client_request c mth u k tok n =
     transaction_new (Some (c_session c)) (ctx_protocol n) mth (map_option (\<lambda>a. a @ [0]) (c_altPath c)) (Some u) (nextMID n) k tok
       (n\<lparr>nextMID := nextMID n + 1\<rparr>)"

definition server_send :: "server_reply transaction \<Rightarrow> coap_packet \<Rightarrow> server_reply option \<Rightarrow> server_context \<Rightarrow> (int \<times> server_context) res" where
  "server_send t p c n =
     bindE (transaction_send server_callback (ref t) (transaction_add (t\<lparr>message := p, callback := c\<rparr>) n)) (\<lambda>(r, n').
       Inr (r, end_payload (ref t) n'))"

definition lwm2m_observe :: "u16 \<Rightarrow> lwm2m_uri \<Rightarrow> user_callback \<Rightarrow> server_context \<Rightarrow> (int \<times> server_context) res" where
  "lwm2m_observe i u cb n =
     (if \<not> is_set_instance u \<and> is_set_resource u then Inr (uint COAP_400_BAD_REQUEST, n)
      else case find_client i n of
        None \<Rightarrow> Inr (uint COAP_404_NOT_FOUND, n)
      | Some c \<Rightarrow>
        (case lwm2m_malloc (memory n) of
           (False, m) \<Rightarrow> Inr (uint COAP_500_INTERNAL_SERVER_ERROR, n\<lparr>memory := m\<rparr>)
         | (True, m) \<Rightarrow>
             let ob = \<lparr>obs_ref = next_ref n, obs_id = lwm2m_list_newId obs_id (observationList c), obs_uri = u,
                    obs_status = STATE_REG_PENDING, obs_callback = cb\<rparr>;
                 tok = [ucast (drop_bit 8 (internalID c)), ucast (internalID c), ucast (drop_bit 8 (obs_id ob)), ucast (obs_id ob)] in
             bindE (client_request c COAP_GET u 4 (Some tok) (n\<lparr>memory := m, next_ref := next_ref n + 1\<rparr>)) (\<lambda>(r, n1).
               case r of
                 None \<Rightarrow> Inr (uint COAP_500_INTERNAL_SERVER_ERROR, n1)
               | Some t \<Rightarrow>
                   let n2 = put_client (c\<lparr>observationList := lwm2m_list_add obs_id (observationList c) ob\<rparr>) n1 in
                   bindE (coap_set_header_token (coap_set_header_observe (message t) 0) tok 4) (\<lambda>(_, p).
                     server_send t p (Some (Observe_reply (obs_ref ob))) n2))))"

definition prv_findObservationByURI :: "lwm2m_client \<Rightarrow> lwm2m_uri \<Rightarrow> lwm2m_observation option" where
  "prv_findObservationByURI c u = find (\<lambda>ob. obs_uri ob = u) (observationList c)"

definition lwm2m_observe_cancel :: "u16 \<Rightarrow> lwm2m_uri \<Rightarrow> user_callback \<Rightarrow> server_context \<Rightarrow> (int \<times> server_context) res" where
  "lwm2m_observe_cancel i u cb n =
     (case find_client i n of
        None \<Rightarrow> Inr (uint COAP_404_NOT_FOUND, n)
      | Some c \<Rightarrow>
        (case prv_findObservationByURI c u of
           None \<Rightarrow> Inr (uint COAP_404_NOT_FOUND, n)
         | Some ob \<Rightarrow>
             if obs_status ob = STATE_REGISTERED then
               bindE (client_request c COAP_GET u 0 None n) (\<lambda>(r, n1).
                 case r of
                   None \<Rightarrow> Inr (uint COAP_500_INTERNAL_SERVER_ERROR, n1)
                 | Some t \<Rightarrow>
                     (case lwm2m_malloc (memory n1) of
                        (False, m) \<Rightarrow> Inr (uint COAP_500_INTERNAL_SERVER_ERROR, n1\<lparr>memory := m\<rparr>)
                      | (True, m) \<Rightarrow>
                          server_send t (coap_set_header_observe (message t) 1) (Some (Cancel_reply (obs_ref ob) cb)) (n1\<lparr>memory := m\<rparr>)))
             else if obs_status ob = STATE_REG_PENDING then Inr (0, put_client (set_status (obs_ref ob) STATE_DEREG_PENDING c) n)
             else Inr (0, n)))"

text \<open>The request with its callback, when there is one, is added and sent; without memory for the callback it is freed.\<close>

definition send_with_result ::
    "server_reply transaction \<Rightarrow> coap_packet \<Rightarrow> u16 \<Rightarrow> lwm2m_uri \<Rightarrow> user_callback option \<Rightarrow> server_context \<Rightarrow> (int \<times> server_context) res" where
  "send_with_result t p i u cb n =
     (case cb of
        None \<Rightarrow> server_send t p None n
      | Some f \<Rightarrow>
          (case lwm2m_malloc (memory n) of
             (False, m) \<Rightarrow> Inr (uint COAP_500_INTERNAL_SERVER_ERROR, n\<lparr>memory := m\<rparr>)
           | (True, m) \<Rightarrow> server_send t p (Some (Result_reply i u f)) (n\<lparr>memory := m\<rparr>)))"

definition prv_makeOperation ::
    "u16 \<Rightarrow> lwm2m_uri \<Rightarrow> byte \<Rightarrow> media_type \<Rightarrow> byte list option \<Rightarrow> nat \<Rightarrow> user_callback option \<Rightarrow> server_context \<Rightarrow> (int \<times> server_context) res" where
  "prv_makeOperation i u mth format buffer len cb n =
     (case find_client i n of
        None \<Rightarrow> Inr (uint COAP_404_NOT_FOUND, n)
      | Some c \<Rightarrow>
          bindE (client_request c mth u 4 None n) (\<lambda>(r, n1).
            case r of
              None \<Rightarrow> Inr (uint COAP_500_INTERNAL_SERVER_ERROR, n1)
            | Some t \<Rightarrow>
                let p = (if mth = COAP_GET then snd (coap_set_header_accept (message t) (word_of_int (media_number format)))
                         else if buffer \<noteq> None
                         then snd (coap_set_payload (coap_set_header_content_type (message t) (word_of_int (media_number format))) buffer len)
                         else message t) in
                send_with_result t p (internalID c) u cb n1))"

definition lwm2m_dm_read :: "u16 \<Rightarrow> lwm2m_uri \<Rightarrow> user_callback option \<Rightarrow> server_context \<Rightarrow> (int \<times> server_context) res" where
  "lwm2m_dm_read i u cb n =
     (case find_client i n of
        None \<Rightarrow> Inr (uint COAP_404_NOT_FOUND, n)
      | Some c \<Rightarrow> prv_makeOperation i u COAP_GET (if supportJSON c then CONTENT_JSON else CONTENT_TLV) None 0 cb n)"

definition lwm2m_dm_write ::
    "u16 \<Rightarrow> lwm2m_uri \<Rightarrow> media_type \<Rightarrow> byte list option \<Rightarrow> nat \<Rightarrow> user_callback option \<Rightarrow> server_context \<Rightarrow> (int \<times> server_context) res" where
  "lwm2m_dm_write i u format buffer len cb n =
     (if \<not> is_set_instance u \<or> len = 0 then Inr (uint COAP_400_BAD_REQUEST, n)
      else prv_makeOperation i u (if is_set_resource u then COAP_PUT else COAP_POST) format buffer len cb n)"

definition lwm2m_dm_execute ::
    "u16 \<Rightarrow> lwm2m_uri \<Rightarrow> media_type \<Rightarrow> byte list option \<Rightarrow> nat \<Rightarrow> user_callback option \<Rightarrow> server_context \<Rightarrow> (int \<times> server_context) res" where
  "lwm2m_dm_execute i u format buffer len cb n =
     (if \<not> is_set_resource u then Inr (uint COAP_400_BAD_REQUEST, n)
      else prv_makeOperation i u COAP_POST format buffer len cb n)"

definition lwm2m_dm_create ::
    "u16 \<Rightarrow> lwm2m_uri \<Rightarrow> media_type \<Rightarrow> byte list option \<Rightarrow> nat \<Rightarrow> user_callback option \<Rightarrow> server_context \<Rightarrow> (int \<times> server_context) res" where
  "lwm2m_dm_create i u format buffer len cb n =
     (if is_set_instance u \<or> len = 0 then Inr (uint COAP_400_BAD_REQUEST, n)
      else prv_makeOperation i u COAP_POST format buffer len cb n)"

definition lwm2m_dm_delete :: "u16 \<Rightarrow> lwm2m_uri \<Rightarrow> user_callback option \<Rightarrow> server_context \<Rightarrow> (int \<times> server_context) res" where
  "lwm2m_dm_delete i u cb n =
     (if \<not> is_set_instance u \<or> is_set_resource u then Inr (uint COAP_400_BAD_REQUEST, n)
      else prv_makeOperation i u COAP_DELETE CONTENT_TEXT None 0 cb n)"

definition lwm2m_dm_discover :: "u16 \<Rightarrow> lwm2m_uri \<Rightarrow> user_callback option \<Rightarrow> server_context \<Rightarrow> (int \<times> server_context) res" where
  "lwm2m_dm_discover i u cb n =
     (case find_client i n of
        None \<Rightarrow> Inr (uint COAP_404_NOT_FOUND, n)
      | Some c \<Rightarrow>
          bindE (client_request c COAP_GET u 4 None n) (\<lambda>(r, n1).
            case r of
              None \<Rightarrow> Inr (uint COAP_500_INTERNAL_SERVER_ERROR, n1)
            | Some t \<Rightarrow>
                send_with_result t (snd (coap_set_header_accept (message t) (word_of_int (media_number CONTENT_LINK)))) (internalID c) u cb n1))"

section \<open>Attributes\<close>

definition add_query :: "byte list \<Rightarrow> coap_packet \<Rightarrow> mem \<Rightarrow> (coap_packet \<times> mem) res" where
  "add_query s p m =
     bindE (coap_add_multi_option (uri_query p) s (length s) False m) (\<lambda>(os, m1).
       Inr (SET_OPTION COAP_OPTION_URI_QUERY (p\<lparr>uri_query := os\<rparr>), m1))"

text \<open>The flags, names and texts of the attributes; the texts are written behind the names in an array of 32 bytes.\<close>

definition attribute_values :: "lwm2m_attributes \<Rightarrow> (byte \<times> byte list \<times> byte list res) list" where
  "attribute_values a =
     [(ATTR_PMIN, bytes ''pmin='', utils_intToText (ucast (minPeriod a)) 27),
      (ATTR_PMAX, bytes ''pmax='', utils_intToText (ucast (maxPeriod a)) 27),
      (ATTR_GT, bytes ''gt='', utils_floatToText (greaterThan a) 29),
      (ATTR_LT, bytes ''lt='', utils_floatToText (lessThan a) 29),
      (ATTR_STP, bytes ''stp='', utils_floatToText (step a) 28)]"

text \<open>The attributes to set; \<open>None\<close> when a text could not be made.\<close>

fun set_queries :: "(byte \<times> byte list \<times> byte list res) list \<Rightarrow> byte \<Rightarrow> coap_packet \<Rightarrow> mem \<Rightarrow> (coap_packet option \<times> mem) res" where
  "set_queries [] flags p m = Inr (Some p, m)"
| "set_queries ((f, name, txt) # rest) flags p m =
     (if flags AND f = 0 then set_queries rest flags p m
      else bindE txt (\<lambda>t.
        if t = [] then Inr (None, m)
        else bindE (add_query (name @ t) p m) (\<lambda>(p1, m1). set_queries rest flags p1 m1)))"

text \<open>The attributes to clear: their names without the equals sign.\<close>

fun clear_queries :: "(byte \<times> byte list \<times> byte list res) list \<Rightarrow> byte \<Rightarrow> coap_packet \<Rightarrow> mem \<Rightarrow> (coap_packet \<times> mem) res" where
  "clear_queries [] flags p m = Inr (p, m)"
| "clear_queries ((f, name, txt) # rest) flags p m =
     (if flags AND f = 0 then clear_queries rest flags p m
      else bindE (add_query (butlast name) p m) (\<lambda>(p1, m1). clear_queries rest flags p1 m1))"

definition attributes_refused :: "lwm2m_uri \<Rightarrow> lwm2m_attributes \<Rightarrow> bool" where
  "attributes_refused u a \<longleftrightarrow>
     toSet a AND toClear a \<noteq> 0 \<or>
     toSet a AND ATTR_FLAG_NUMERIC \<noteq> 0 \<and> \<not> is_set_resource u \<or>
     toSet a AND ATTR_FLAG_NUMERIC = ATTR_FLAG_NUMERIC \<and>
       dbl_le (greaterThan a) (dbl_add (lessThan a) (dbl_add (step a) (step a)))"

definition lwm2m_dm_write_attributes ::
    "u16 \<Rightarrow> lwm2m_uri \<Rightarrow> lwm2m_attributes option \<Rightarrow> user_callback option \<Rightarrow> server_context \<Rightarrow> (int \<times> server_context) res" where
  "lwm2m_dm_write_attributes i u attr cb n =
     (case attr of
        None \<Rightarrow> Inr (uint COAP_400_BAD_REQUEST, n)
      | Some a \<Rightarrow>
        if attributes_refused u a then Inr (uint COAP_400_BAD_REQUEST, n)
        else case find_client i n of
          None \<Rightarrow> Inr (uint COAP_404_NOT_FOUND, n)
        | Some c \<Rightarrow>
            bindE (client_request c COAP_PUT u 4 None n) (\<lambda>(r, n1).
              case r of
                None \<Rightarrow> Inr (uint COAP_500_INTERNAL_SERVER_ERROR, n1)
              | Some t \<Rightarrow>
                (case (case cb of None \<Rightarrow> (True, memory n1) | Some _ \<Rightarrow> lwm2m_malloc (memory n1)) of
                   (False, m) \<Rightarrow> Inr (uint COAP_500_INTERNAL_SERVER_ERROR, n1\<lparr>memory := m\<rparr>)
                 | (True, m) \<Rightarrow>
                     bindE (set_queries (attribute_values a) (toSet a) (message t) m) (\<lambda>(q, m1).
                       case q of
                         None \<Rightarrow> Inr (uint COAP_500_INTERNAL_SERVER_ERROR, n1\<lparr>memory := m1\<rparr>)
                       | Some p \<Rightarrow>
                           bindE (clear_queries (attribute_values a) (toClear a) p m1) (\<lambda>(p1, m2).
                             server_send t p1 (map_option (Result_reply (internalID c) u) cb) (n1\<lparr>memory := m2\<rparr>))))))"

end
