(* ===== verification/Server_Packets.thy ===== *)
theory Server_Packets
imports Server_Requests
begin

text \<open>
  The packets that a server receives and its step, \<^verbatim>\<open>packet.c\<close>, \<^verbatim>\<open>observe_handleNotify\<close> and \<^verbatim>\<open>liblwm2m.c\<close> of
  \<^verbatim>\<open>external/wakaama\<close> under \<^verbatim>\<open>LWM2M_SERVER_MODE\<close>. The preparation of a response and its sending are those of \<open>Packet\<close>, which do not
  depend on the mode.
\<close>

section \<open>Notifications\<close>

definition two_bytes :: "byte \<Rightarrow> byte \<Rightarrow> u16" where
  "two_bytes a b = push_bit 8 (ucast a) OR ucast b"

text \<open>The client and the observation are those of the token; the session of the message is not looked at.\<close>

definition observe_handleNotify :: "session \<Rightarrow> coap_packet \<Rightarrow> server_context \<Rightarrow> (bool \<times> server_context) res" where
  "observe_handleNotify from p n =
     (case (coap_get_header_token p, coap_get_header_observe p) of
        (Some [a, b, c, d], Some count) \<Rightarrow>
          (case find_client (two_bytes a b) n of
             None \<Rightarrow> Inr (False, n)
           | Some cl \<Rightarrow>
               (case lwm2m_list_find obs_id (observationList cl) (two_bytes c d) of
                  None \<Rightarrow>
                    bindE (message_send (coap_init_message (ctx_protocol n) COAP_TYPE_RST 0 (mid p)) (Some from) n) (\<lambda>(_, _, n1). Inr (True, n1))
                | Some ob \<Rightarrow>
                    bindE (if msg_type p = COAP_TYPE_CON
                           then bindE (message_send (coap_init_message (ctx_protocol n) COAP_TYPE_ACK 0 (mid p)) (Some from) n) (\<lambda>(_, _, n1). Inr n1)
                           else Inr n) (\<lambda>n1.
                      Inr (True, notify_user (content_event (obs_callback ob) (two_bytes a b) (obs_uri ob) (sint count)
                        (uint (content_type p)) p) n1))))
      | _ \<Rightarrow> Inr (False, n))"

section \<open>Requests\<close>

definition server_handle_request ::
    "session \<Rightarrow> coap_packet \<Rightarrow> coap_packet \<Rightarrow> server_context \<Rightarrow> (byte \<times> coap_packet \<times> server_context) res" where
  "server_handle_request from p response n =
     bindE (uri_decode None (map option_bytes (uri_path p)) (memory n)) (\<lambda>(u, m).
       let n1 = n\<lparr>memory := m\<rparr> in
       case u of
         None \<Rightarrow> Inr (COAP_400_BAD_REQUEST, response, n1)
       | Some v \<Rightarrow>
           bindE (if flag v AND LWM2M_URI_MASK_TYPE = FLAG_REGISTRATION then registration_handleRequest v from p response n1
                  else Inr (COAP_IGNORE, response, n1)) (\<lambda>(r, resp, n2).
             Inr (if COAP_IGNORE < r \<and> r < COAP_400_BAD_REQUEST then COAP_NO_ERROR else r,
                  snd (coap_set_status_code resp (ucast r)), n2)))"

text \<open>Payloads in blocks are not reassembled in this mode.\<close>

definition server_packet_request :: "session \<Rightarrow> coap_packet \<Rightarrow> server_context \<Rightarrow> (byte \<times> server_context) res" where
  "server_packet_request from p n =
     bindE (prepare_response p n) (\<lambda>(response, n1).
     bindE (if IS_OPTION p COAP_OPTION_BLOCK1 then Inr (COAP_501_NOT_IMPLEMENTED, response, n1)
            else server_handle_request from p response n1) (\<lambda>(r, resp, n2).
       if r = COAP_NO_ERROR then send_response from p resp n2
       else if r = COAP_IGNORE then Inr (r, n2)
       else bindE (message_send (snd (coap_set_status_code resp (ucast r))) (Some from) n2) (\<lambda>(st, _, n3). Inr (st, n3))))"

definition server_packet_answer :: "session \<Rightarrow> coap_packet \<Rightarrow> server_context \<Rightarrow> (byte \<times> server_context) res" where
  "server_packet_answer from p n =
     (if msg_type p = COAP_TYPE_NON \<or> msg_type p = COAP_TYPE_CON then
        bindE (transaction_handleResponse server_callback from p True n) (\<lambda>(finished, n1).
        bindE (if \<not> finished \<and> IS_OPTION p COAP_OPTION_OBSERVE \<and> (code p = COAP_204_CHANGED \<or> code p = COAP_205_CONTENT)
               then observe_handleNotify from p n1 else Inr (finished, n1)) (\<lambda>(finished2, n2).
          if \<not> finished2 \<and> msg_type p = COAP_TYPE_CON \<and> \<not> is_tcp (ctx_protocol n)
          then bindE (message_send (coap_init_message (ctx_protocol n) COAP_TYPE_ACK 0 (mid p)) (Some from) n2) (\<lambda>(st, _, n3). Inr (st, n3))
          else Inr (COAP_NO_ERROR, n2)))
      else if msg_type p = COAP_TYPE_RST \<or> msg_type p = COAP_TYPE_ACK then
        bindE (transaction_handleResponse server_callback from p False n) (\<lambda>(_, n1). Inr (COAP_NO_ERROR, n1))
      else Inr (COAP_NO_ERROR, n))"

text \<open>\<open>data\<close> is the buffer of the caller, \<open>data_len\<close> the length of the packet in it, \<open>em\<close> the text of the last error.\<close>

definition server_handle_packet ::
    "byte list \<Rightarrow> nat \<Rightarrow> session \<Rightarrow> byte list \<Rightarrow> server_context \<Rightarrow> (byte list \<times> server_context) res" where
  "server_handle_packet data data_len from em n =
     bindE (coap_parse_message (ctx_protocol n) data (unat (word_of_nat data_len :: u16)) em (memory n)) (\<lambda>(st, p, em', m).
     bindE (if st \<noteq> COAP_NO_ERROR then Inr (st, n\<lparr>memory := m\<rparr>)
            else if COAP_GET \<le> code p \<and> code p \<le> COAP_DELETE then server_packet_request from p (n\<lparr>memory := m\<rparr>)
            else server_packet_answer from p (n\<lparr>memory := m\<rparr>)) (\<lambda>(r, n1).
       if r = COAP_NO_ERROR \<or> r = COAP_IGNORE then Inr (em', n1)
       else
         let c = (if 192 \<le> r then COAP_500_INTERNAL_SERVER_ERROR else r);
             q = coap_init_message (ctx_protocol n) COAP_TYPE_ACK c (mid p) in
         bindE (message_send (snd (coap_set_payload q (Some em') (length em'))) (Some from) n1) (\<lambda>(_, _, n2). Inr (em', n2))))"

section \<open>The step and the end of a server\<close>

definition server_lwm2m_step :: "time \<Rightarrow> server_context \<Rightarrow> (byte \<times> time \<times> server_context) res" where
  "server_lwm2m_step timeout n =
     (let now = clock n in
      if now < 0 then Inr (COAP_500_INTERNAL_SERVER_ERROR, timeout, n)
      else
        let (tm, n1) = clients_step now timeout n in
        bindE (transaction_step server_callback now tm n1) (\<lambda>(tm2, n2). Inr (0, tm2, n2)))"

definition server_close :: "server_context \<Rightarrow> server_context" where
  "server_close n = n\<lparr>clientList := [], transactionList := []\<rparr>"

end
