(* ===== verification/Registration_Wire.thy ===== *)
theory Registration_Wire
imports Register_Payload Server_Packets
begin

text \<open>
  A registration between the two halves of wakaama: the datagram of the client, what the server makes of it, its answer, and what
  the client makes of that.
\<close>

section \<open>A server that answers over UDP\<close>

definition ready_server :: "server_context \<Rightarrow> bool" where
  "ready_server s \<longleftrightarrow> ctx_protocol s \<in> {COAP_UDP, COAP_UDP_DTLS} \<and> memory s = [] \<and> link s = [] \<and> 0 \<le> clock s"

lemma message_sent:
  fixes n :: "('c, 'z) net_scheme"
  assumes n: "ctx_protocol n \<in> {COAP_UDP, COAP_UDP_DTLS}" "memory n = []" "link n = []"
    and p: "sendable p" "sized p" "packet_limits p" "IS_OPTION p COAP_OPTION_CONTENT_TYPE \<or> payload_len p = 0"
  shows "\<exists>b p'. coap_serialize_message p = Inr (b, p') \<and> payload p' = payload p \<and>
    message_send p (Some h) n = Inr (COAP_NO_ERROR, p', n\<lparr>sent := sent n @ [(h, b)]\<rparr>)"
proof -
  obtain b p' where b: "coap_serialize_message p = Inr (b, p')" "length b \<le> coap_serialize_get_size p"
    using message_fits [OF p(1-3)] p(4) by auto
  have nz: "b \<noteq> []" using message_encoded [OF p(1)] b(1) by (auto simp: udp_header_def)
  have same: "n\<lparr>memory := []\<rparr> = n" "n\<lparr>memory := [], sent := x\<rparr> = n\<lparr>sent := x\<rparr>" for x using n(2) by simp_all
  have size: "packet_size (ctx_protocol n) p = (coap_serialize_get_size p, p)" "coap_serialize_get_size p \<noteq> 0"
    "write_packet (ctx_protocol n) (coap_serialize_get_size p) p [] = Inr (b, p', [])"
    using n b by (auto simp: packet_size_def write_packet_def coap_serialize_get_size_def)
  have pl: "payload p' = payload p" using message_encoded [OF p(1)] b(1) by (simp add: coap_free_header_def)
  show ?thesis using size nz n b(1) pl by (simp add: message_send_def lwm2m_buffer_send_def same)
qed

section \<open>What the parser found\<close>

lemma option_field:
  assumes "n \<in> set known_options" and "option_values (options_of q) n \<noteq> []"
  shows "field_values q n = option_values (options_of q) n" and "IS_OPTION q n"
  using assms option_values_of [of q n] by (auto split: if_splits)

lemma no_option:
  assumes "n \<in> set known_options" and "\<not> repeatable n" and "option_values (options_of q) n = []"
  shows "\<not> IS_OPTION q n"
  using assms option_values_of [of q n] field_values_single [OF assms(1,2), of q] by auto

lemma content_format_40:
  assumes "field_values q 12 = [[40]]"
  shows "content_type q = 40"
proof -
  have "int_bytes (ucast (content_type q)) = [40]" using assms by (simp add: field_values_def)
  moreover have "coap_parse_int_option (int_bytes (ucast (content_type q))) = ucast (content_type q)" by (rule parse_int_bytes)
  moreover have "coap_parse_int_option [40] = 40" by (simp add: coap_parse_int_option_def)
  ultimately have "(ucast (content_type q) :: u32) = 40" by metis
  then have "ucast (ucast (content_type q) :: u32) = (40 :: u16)" by simp
  then show ?thesis by (simp only: ucast_up_down)
qed

lemma registration_fields:
  assumes "options_of q = (11, bytes ''rd'') # (12, [40]) # map (Pair 15) parts" and "parts \<noteq> []"
  shows "map option_bytes (uri_path q) = [bytes ''rd'']" and "content_type q = 40" and "map option_bytes (uri_query q) = parts"
    and "\<not> IS_OPTION q 27" and "\<not> IS_OPTION q 23"
proof -
  have v: "option_values (map (Pair 15) parts) k = (if k = 15 then parts else [])" for k :: nat
    by (simp add: option_values_def filter_map comp_def)
  show "map option_bytes (uri_path q) = [bytes ''rd'']"
    using option_field(1) [of 11 q] by (simp add: assms(1) v known_options_def field_values_def)
  show "map option_bytes (uri_query q) = parts"
    using option_field(1) [of 15 q] assms(2) by (simp add: assms(1) v known_options_def field_values_def)
  show "content_type q = 40"
    using option_field(1) [of 12 q] by (intro content_format_40) (simp add: assms(1) v known_options_def)
  show "\<not> IS_OPTION q 27" "\<not> IS_OPTION q 23"
    using no_option [of 27 q] no_option [of 23 q] by (simp_all add: assms(1) v known_options_def repeatable_def)
qed

lemma whole_carries:
  assumes "\<forall>x \<in> set xs. whole_option x" and "map option_bytes xs = parts"
  shows "list_all2 carries xs parts"
proof -
  have "carries x (option_bytes x)" if "whole_option x" for x
    using that by (auto simp: carries_def whole_option_def option_bytes_def min_absorb2 intro: exI [of _ "drop (unat (opt_len x)) (opt_data x)"])
  then show ?thesis using assms by (auto simp: list_all2_conv_all_nth)
qed

section \<open>The answer\<close>

lemma id_copied: "utils_intCopy 6 (ucast (i :: u16)) = Inr (Some (nat_text (unat i) @ [0]))"
proof -
  have same: "scast (ucast i :: u32) = (ucast i :: i64)"
  proof (rule bit_word_eqI)
    fix k assume "k < LENGTH(64)"
    then show "bit (scast (ucast i :: u32) :: i64) k = bit (ucast i :: i64) k"
      by (auto simp: bit_signed_iff bit_ucast_iff min_def dest!: bit_imp_le_length split: if_splits)
  qed
  then show ?thesis using id_text [of 11 i] id_text_short [of i] by (simp add: utils_intCopy_def)
qed

lemma location_array:
  "\<exists>r. prv_getLocationString i = Inr (Some (bytes ''/rd/'' @ nat_text (unat i) @ 0 # r))"
  using id_copied [of i] by (simp add: prv_getLocationString_def MAX_LOCATION_LENGTH_def utils_stringCopy_def bytes_def Let_def)

definition with_location :: "u16 \<Rightarrow> coap_packet \<Rightarrow> coap_packet" where
  "with_location i p = SET_OPTION COAP_OPTION_LOCATION_PATH
     (p\<lparr>location_path := [segment_option (bytes ''rd''), segment_option (nat_text (unat i))]\<rparr>)"

lemma location_set:
  "\<exists>k. coap_set_header_location_path p (bytes ''/rd/'' @ nat_text (unat i) @ 0 # r) [] = Inr (k, with_location i p, []) \<and> k \<noteq> 0"
proof -
  let ?t = "nat_text (unat i)"
  have d: "0 \<notin> set ?t" "47 \<notin> set ?t" by (rule number_without, simp add: is_digit_byte_def)+
  have "c_string (bytes ''/rd/'' @ ?t @ 0 # r) = Inr (bytes ''/rd/'' @ ?t)"
    using d(1) by (simp add: c_string_def bytes_def takeWhile_until)
  moreover have "add_segments 47 ?t [segment_option (bytes ''rd'')] [] = Inr ([segment_option (bytes ''rd''), segment_option ?t], length ?t, [])"
    by (subst add_segments.simps) (simp add: Let_def takeWhile_until(2) [OF d(2)] coap_add_multi_option_def segment_option_def del: takeWhile_eq_all_conv)
  then have "add_segments 47 (bytes ''rd'' @ 47 # ?t) [] [] = Inr ([segment_option (bytes ''rd''), segment_option ?t], 3 + length ?t, [])"
    by (subst add_segments.simps) (simp add: Let_def bytes_def coap_add_multi_option_def segment_option_def)
  ultimately show ?thesis by (simp add: coap_set_header_location_path_def cut_string_def with_location_def bytes_def)
qed

definition created_answer :: "coap_protocol \<Rightarrow> u16 \<Rightarrow> byte list \<Rightarrow> u16 \<Rightarrow> coap_packet" where
  "created_answer proto i tok cid = (with_location cid (SET_OPTION COAP_OPTION_TOKEN
     ((coap_init_message proto COAP_TYPE_ACK COAP_205_CONTENT i)\<lparr>pkt_token := tok\<rparr>)))\<lparr>code := COAP_201_CREATED\<rparr>"

lemma other_fields: "IS_OPTION (p\<lparr>code := c\<rparr>) n \<longleftrightarrow> IS_OPTION p n" "IS_OPTION (p\<lparr>location_path := l\<rparr>) n \<longleftrightarrow> IS_OPTION p n"
  by (simp_all add: IS_OPTION_def)

lemma created_answer:
  fixes proto :: coap_protocol and i cid :: u16
  assumes "length tok \<le> 8" and "tok \<noteq> []"
  defines "a \<equiv> created_answer proto i tok cid"
  shows "sendable a" "sized a" "packet_limits a" "payload_len a = 0" "payload a = None" "options_of a = [(8, bytes ''rd''), (8, nat_text (unat cid))]"
    "msg_type a = COAP_TYPE_ACK" "code a = COAP_201_CREATED" "mid a = i" "pkt_token a = tok" "\<not> IS_OPTION a COAP_OPTION_BLOCK2"
proof -
  note defs = a_def created_answer_def with_location_def coap_init_message_def
  have opts: "IS_OPTION a k \<longleftrightarrow> k \<in> {8, 19}" if "k < 40" for k
    using that by (auto simp: a_def created_answer_def with_location_def option_fields other_fields)
  have f: "location_path a = [segment_option (bytes ''rd''), segment_option (nat_text (unat cid))]"
    by (simp add: defs SET_OPTION_def)
  show t: "payload_len a = 0" "payload a = None" "msg_type a = COAP_TYPE_ACK" "code a = COAP_201_CREATED" "mid a = i" "pkt_token a = tok"
    by (simp_all add: defs SET_OPTION_def zero_packet_def)
  have short: "length (nat_text (unat cid)) < 256" using id_text_short [of cid] by simp
  have "multi_ok (location_path a)"
    using short by (simp add: f multi_ok_def segment_option_def bytes_def unat_of_nat)
  then show "sendable a" using t(1) by (simp add: sendable_def opts)
  show "sized a" by (simp add: sized_def opts)
  show "packet_limits a"
    using assms(1) t(3,6) by (simp add: packet_limits_def COAP_TOKEN_LEN_def) (simp add: defs SET_OPTION_def zero_packet_def)
  show "\<not> IS_OPTION a COAP_OPTION_BLOCK2" by (simp add: opts)
  have "option_bytes (segment_option (bytes ''rd'')) = bytes ''rd''" by (simp add: option_bytes_segment bytes_def)
  then show "options_of a = [(8, bytes ''rd''), (8, nat_text (unat cid))]"
    using option_bytes_segment [OF short] by (simp add: options_of_def known_options_def option_list_def opts field_values_def f)
qed

section \<open>The server\<close>

text \<open>The client that a server keeps after a registration.\<close>

definition registered_client ::
    "u16 \<Rightarrow> byte list \<Rightarrow> byte list option \<Rightarrow> lwm2m_server \<Rightarrow> byte list option \<Rightarrow> session \<Rightarrow> time \<Rightarrow> lwm2m_client_object list \<Rightarrow> lwm2m_client" where
  "registered_client i name num srv alt from now os =
     (let lt = (if lifetime srv = 0 then LWM2M_DEFAULT_LIFETIME else word_of_int (lifetime srv)) in
      \<lparr>internalID = i, c_name = name, c_binding = binding srv, c_msisdn = num, c_altPath = alt, supportJSON = False, c_lifetime = lt,
       endOfLife = end_of_life now lt, c_session = from, c_objects = os, observationList = []\<rparr>)"

lemma put_new_client:
  assumes "internalID c = internalID d" and "internalID c \<notin> internalID ` set cs"
  shows "map (\<lambda>x. if internalID x = internalID c then c else x) (lwm2m_list_add internalID cs d) = lwm2m_list_add internalID cs c"
proof -
  have keep: "map (\<lambda>x. if internalID x = internalID c then c else x) cs = cs" if "internalID c \<notin> internalID ` set cs" for cs
    using that by (intro map_idI) (metis image_eqI)
  have "map (\<lambda>x. if internalID x = internalID c then c else x) (add_after internalID cs d) = add_after internalID cs c"
    if "internalID c \<notin> internalID ` set cs" for cs
    using that
  proof (induction cs)
    case (Cons a cs)
    then show ?case using keep [of cs] assms(1) by auto
  qed (simp add: assms(1))
  then show ?thesis using assms keep by (cases cs) auto
qed

lemma client_registered:
  assumes s: "ready_server s" "prv_getClientByName s name = None" "lwm2m_list_newId internalID (clientList s) = i" "i \<notin> internalID ` set (clientList s)"
    and q: "q = \<lparr>par_name = Some name, par_lifetime = word_of_int (lifetime srv), par_msisdn = num, par_binding = binding srv,
      par_version = Some (bytes ''1.0'')\<rparr>"
    and l: "0 \<le> lifetime srv" "lifetime srv < 0x80000000" and os: "os \<noteq> []"
  shows "register_client q os False alt h response s = Inr (COAP_201_CREATED, with_location i response,
    tell_monitor i COAP_201_CREATED (s\<lparr>clientList := lwm2m_list_add internalID (clientList s) (registered_client i name num srv alt h (clock s) os)\<rparr>))"
proof -
  have z: "(word_of_int (lifetime srv) :: u32) = 0 \<longleftrightarrow> lifetime srv = 0"
    using l zdvd_imp_le [of "2 ^ 32" "lifetime srv"] by (cases "lifetime srv = 0") (auto simp: word_of_int_eq_0_iff)
  have m: "memory s = []" "s\<lparr>memory := []\<rparr> = s" "s\<lparr>clientList := x, memory := []\<rparr> = s\<lparr>clientList := x\<rparr>" for x
    using s(1) by (simp_all add: ready_server_def)
  obtain r where arr: "prv_getLocationString i = Inr (Some (bytes ''/rd/'' @ nat_text (unat i) @ 0 # r))" using location_array by blast
  obtain k where loc: "coap_set_header_location_path response (bytes ''/rd/'' @ nat_text (unat i) @ 0 # r) [] = Inr (k, with_location i response, [])" "k \<noteq> 0"
    using location_set by blast
  have v: "takeWhile (\<lambda>x. x \<noteq> 0) (bytes ''1.0'') = bytes ''1.0''" by (simp add: bytes_def)
  define c0 where "c0 = \<lparr>internalID = i, c_name = name, c_binding = BINDING_UNKNOWN, c_msisdn = None, c_altPath = None, supportJSON = False,
    c_lifetime = 0, endOfLife = 0, c_session = h, c_objects = [], observationList = []\<rparr>"
  let ?c = "registered_client i name num srv alt h (clock s) os"
  let ?s1 = "s\<lparr>memory := [], clientList := lwm2m_list_add internalID (clientList s) c0\<rparr>"
  have new: "client_to_register name h s = Some (c0, ?s1)"
    using s(2,3) m(1) by (simp add: client_to_register_def c0_def Let_def)
  have id: "internalID ?c = i" "internalID c0 = i" by (simp_all add: registered_client_def c0_def Let_def)
  have put: "put_client ?c ?s1 = s\<lparr>clientList := lwm2m_list_add internalID (clientList s) ?c\<rparr>"
    using put_new_client [of ?c c0 "clientList s"] s(4) by (simp add: put_client_def id m(2))
  have c: "c0\<lparr>c_name := name, c_binding := binding srv, c_msisdn := num, c_altPath := alt, supportJSON := False,
      c_lifetime := if lifetime srv = 0 then LWM2M_DEFAULT_LIFETIME else word_of_int (lifetime srv),
      endOfLife := end_of_life (clock s) (if lifetime srv = 0 then LWM2M_DEFAULT_LIFETIME else word_of_int (lifetime srv)),
      c_objects := os, c_session := h\<rparr> = ?c"
    by (simp add: registered_client_def c0_def Let_def)
  show ?thesis
    unfolding register_client_def q register_parameters.simps option.case prod.case Let_def v new z c id(1) put
    using os arr loc by (simp add: id(1) m)
qed

text \<open>What the server makes of the datagram of a registration.\<close>

lemma registration_served:
  assumes s: "ready_server s" "prv_getClientByName s name = None" "lwm2m_list_newId internalID (clientList s) = i" "i \<notin> internalID ` set (clientList s)"
    and parse: "coap_parse_message (ctx_protocol s) d (unat (word_of_nat len :: u16)) em [] = Inr (COAP_NO_ERROR, p, em, [])"
    and p: "msg_type p = COAP_TYPE_CON" "protocol p = ctx_protocol s" "code p = COAP_POST" "whole_options p" "pkt_token p \<noteq> []" "length (pkt_token p) \<le> 8"
      "options_of p = (11, bytes ''rd'') # (12, [40]) # map (Pair 15) (registration_parts name num srv)"
    and reg: "name \<noteq> []" "num \<noteq> Some []" "query_binding (binding srv) \<noteq> None" "0 \<le> lifetime srv" "lifetime srv < 0x80000000"
    and pl: "prv_decodeRegisterPayload (payload_of p) [] = Inr ((os, False, alt), [])" "os \<noteq> []"
  shows "\<exists>r p'. coap_serialize_message (created_answer (ctx_protocol s) (mid p) (pkt_token p) i) = Inr (r, p') \<and>
    server_handle_packet d len from em s = Inr (em, tell_monitor i COAP_201_CREATED (s\<lparr>
      clientList := lwm2m_list_add internalID (clientList s) (registered_client i name num srv alt from (clock s) os)\<rparr>)\<lparr>sent := sent s @ [(from, r)]\<rparr>)"
proof -
  let ?c = "registered_client i name num srv alt from (clock s) os" and ?a = "created_answer (ctx_protocol s) (mid p) (pkt_token p) i"
  let ?s1 = "tell_monitor i COAP_201_CREATED (s\<lparr>clientList := lwm2m_list_add internalID (clientList s) ?c\<rparr>)"
  have m: "memory s = []" "s\<lparr>memory := []\<rparr> = s" "\<not> clock s < 0" "\<not> is_tcp (ctx_protocol s)"
    using s(1) by (auto simp: ready_server_def is_tcp_def)
  note f = registration_fields [OF p(7)]
  have parts: "registration_parts name num srv \<noteq> []" by (simp add: registration_parts_def)
  have q: "prv_getParameters (uri_query p) [] = Inr (Some \<lparr>par_name = Some name, par_lifetime = word_of_int (lifetime srv), par_msisdn = num,
      par_binding = binding srv, par_version = Some (bytes ''1.0'')\<rparr>, [])"
    using p(4) f(3) [OF parts] by (intro query_understood [OF whole_carries] reg(1-4)) (auto simp: whole_options_def)
  define r0 where "r0 = SET_OPTION COAP_OPTION_TOKEN ((coap_init_message (ctx_protocol s) COAP_TYPE_ACK COAP_205_CONTENT (mid p))\<lparr>pkt_token := pkt_token p\<rparr>)"
  have prep: "prepare_response p s = Inr (r0, s)"
    using p(1,2,5,6) m(4) by (simp add: prepare_response_def r0_def coap_set_header_token_def copied_def COAP_TOKEN_LEN_def)
  have dec: "uri_decode None (map option_bytes (uri_path p)) [] = Inr (Some (zero_uri\<lparr>flag := FLAG_REGISTRATION\<rparr>), [])"
    unfolding f(1) [OF parts] by (simp add: uri_decode_def)
  have flags: "(0x20 :: byte) AND LWM2M_URI_MASK_TYPE = 0x20" "(0x20 :: byte) AND LWM2M_URI_MASK_ID = 0"
    by (simp_all add: LWM2M_URI_MASK_TYPE_def LWM2M_URI_MASK_ID_def)
  have reg1: "registration_handleRequest (zero_uri\<lparr>flag := FLAG_REGISTRATION\<rparr>) from p r0 s = Inr (COAP_201_CREATED, with_location i r0, ?s1)"
    using p(3) q pl(1) f(2) [OF parts] m client_registered [OF s refl reg(4,5) pl(2), where response = r0 and alt = alt and h = "from"]
    by (simp add: registration_handleRequest_def Let_def flags m(2))
  have code: "snd (coap_set_status_code (with_location i r0) (ucast COAP_201_CREATED)) = ?a"
    by (simp add: coap_set_status_code_def created_answer_def r0_def)
  have hr: "server_handle_request from p r0 s = Inr (COAP_NO_ERROR, ?a, ?s1)"
    using dec m(1,2) reg1 code by (simp add: server_handle_request_def Let_def flags m(2))
  note ca = created_answer [OF p(6,5), of "ctx_protocol s" "mid p" i]
  have s1: "ctx_protocol ?s1 = ctx_protocol s" "memory ?s1 = memory s" "link ?s1 = link s" "sent ?s1 = sent s"
    by (simp_all add: tell_monitor_def notify_user_def)
  have ready: "ctx_protocol ?s1 \<in> {COAP_UDP, COAP_UDP_DTLS}" "memory ?s1 = []" "link ?s1 = []"
    using s(1) unfolding s1 by (simp_all add: ready_server_def)
  obtain r p' where r: "coap_serialize_message ?a = Inr (r, p')" "payload p' = None"
    "message_send ?a (Some from) ?s1 = Inr (COAP_NO_ERROR, p', ?s1\<lparr>sent := sent s @ [(from, r)]\<rparr>)"
    using message_sent [OF ready ca(1-3) disjI2 [OF ca(4)], of "from"] ca(5) unfolding s1 by auto
  have b2: "coap_get_header_block2 p = None" using f(5) [OF parts] by (simp add: coap_get_header_block2_def)
  have "send_response from p ?a ?s1 = Inr (COAP_NO_ERROR, ?s1\<lparr>sent := sent s @ [(from, r)]\<rparr>)"
    using r(2,3) b2 by (simp add: send_response_def slice_payload_def)
  then have "server_packet_request from p s = Inr (COAP_NO_ERROR, ?s1\<lparr>sent := sent s @ [(from, r)]\<rparr>)"
    using prep hr f(4) [OF parts] by (simp add: server_packet_request_def)
  then have "server_handle_packet d len from em s = Inr (em, ?s1\<lparr>sent := sent s @ [(from, r)]\<rparr>)"
    using parse p(3) m(1,2) by (simp add: server_handle_packet_def m(2))
  then show ?thesis using r(1) by blast
qed

section \<open>Both sides\<close>

lemma client_added_found:
  assumes "i \<notin> internalID ` set cs" and "ids_ascending internalID cs" and "internalID c = i"
  shows "lwm2m_list_find internalID (lwm2m_list_add internalID cs c) i = Some c"
  using assms by (simp add: find_abs ids_ascending_add abs_list_add)

lemma answer_read:
  assumes "proto \<in> {COAP_UDP, COAP_UDP_DTLS}" and "length tok \<le> 8" and "tok \<noteq> []"
    and r: "coap_serialize_message (created_answer proto i tok cid) = Inr (r, p')"
  shows "\<exists>a. coap_parse_message proto (r @ slack) (length r) em [] = Inr (COAP_NO_ERROR, a, em, []) \<and>
    msg_type a = COAP_TYPE_ACK \<and> mid a = i \<and> code a = COAP_201_CREATED \<and> IS_OPTION a COAP_OPTION_TOKEN \<and> pkt_token a = tok \<and>
    (\<forall>x \<in> set (location_path a). whole_option x) \<and> map option_bytes (location_path a) = [bytes ''rd'', nat_text (unat cid)]"
    and "length r < 65536"
proof -
  note ca = created_answer [OF assms(2,3), of proto i cid]
  obtain a where a: "coap_parse_message proto (r @ slack) (length r) em [] = Inr (COAP_NO_ERROR, a, em, [])"
    "options_of a = options_of (created_answer proto i tok cid)" "msg_type a = COAP_TYPE_ACK" "code a = COAP_201_CREATED" "mid a = i" "pkt_token a = tok"
    using message_read [OF ca(1,3) assms(1), of slack em] r ca(7-10) by auto
  have "pkt_token (created_answer proto i tok cid) \<noteq> []" using ca(10) assms(3) by simp
  note w = message_read_whole [OF ca(1,3) assms(1) r a(1) this]
  have "option_values (options_of a) 8 = [bytes ''rd'', nat_text (unat cid)]" by (simp add: a(2) ca(6))
  then have "map option_bytes (location_path a) = [bytes ''rd'', nat_text (unat cid)]"
    using option_field(1) [of 8 a] by (simp add: known_options_def field_values_def)
  then show "\<exists>a. coap_parse_message proto (r @ slack) (length r) em [] = Inr (COAP_NO_ERROR, a, em, []) \<and>
    msg_type a = COAP_TYPE_ACK \<and> mid a = i \<and> code a = COAP_201_CREATED \<and> IS_OPTION a COAP_OPTION_TOKEN \<and> pkt_token a = tok \<and>
    (\<forall>x \<in> set (location_path a). whole_option x) \<and> map option_bytes (location_path a) = [bytes ''rd'', nat_text (unat cid)]"
    using a w by (auto simp: whole_options_def)
  have "length r = 4 + length tok + length (encode 0 [(8, bytes ''rd''), (8, nat_text (unat cid))])"
    using message_encoded [OF ca(1)] r ca(5,6,10) by (auto simp: udp_header_def payload_of_def with_marker_def)
  also have "\<dots> < 65536"
    using assms(2) id_text_short [of cid]
    by (simp add: coap_set_option_header_def option_extension_def coap_option_nibble_def bytes_def)
  finally show "length r < 65536" .
qed

lemma registered_id: "internalID (registered_client i name num srv alt from now os) = i"
  by (simp add: registered_client_def Let_def)

text \<open>
  C3. A registration, there and back. A client over UDP calls \<^verbatim>\<open>prv_register\<close>; the server that receives its datagram keeps, under a new id, a client
  of that name, number, binding and lifetime, with exactly the objects and instances that the client has, but for the security object,
  and sends one datagram back; the client that receives it ends its transaction, and its server is registered, with the time and the
  location \<^verbatim>\<open>/rd/\<close> and the id. Nothing else is sent.
\<close>

theorem registration_over_the_wire:
  assumes n: "ready_client n" "get_server i n = Inr srv" "sessionH srv = Some h" "can_register n srv name" "transactionList n = []"
    and pl: "object_getRegisterPayload (object_list n) (altPath n) (object_state n) 512 = Inr pl" "pl \<noteq> []" "length pl \<le> 512"
    and named: "name \<noteq> []" "msisdn n \<noteq> Some []"
    and objs: "announceable (object_list n) (object_state n)" "announced (object_list n) (object_state n) k \<noteq> None"
    and alt: "\<forall>a. altPath n = Some a \<longrightarrow> a \<noteq> [] \<and> hd a = of_char CHR ''/'' \<and> of_char CHR '','' \<notin> set a"
    and s: "ready_server s" "ctx_protocol s = ctx_protocol n" "prv_getClientByName s name = None" "ids_ascending internalID (clientList s)"
      "lwm2m_list_newId internalID (clientList s) = cid" "cid \<notin> internalID ` set (clientList s)"
  shows "\<exists>b n1 r s1 c n2. prv_register i n = Inr (COAP_NO_ERROR, n1) \<and> sent n1 = sent n @ [(h, b)] \<and>
    server_handle_packet b (length b) from em s = Inr (em, s1) \<and> sent s1 = sent s @ [(from, r)] \<and>
    find_client cid s1 = Some c \<and> c_name c = name \<and> c_msisdn c = msisdn n \<and> c_binding c = binding srv \<and> c_session c = from \<and>
    c_lifetime c = (if lifetime srv = 0 then LWM2M_DEFAULT_LIFETIME else word_of_int (lifetime srv)) \<and>
    (\<forall>j. map_option instanceList (lwm2m_list_find co_id (c_objects c) j) = announced (object_list n) (object_state n) j) \<and>
    lwm2m_handle_packet r (length r) h em n1 = Inr (em, n2) \<and> transactionList n2 = [] \<and> sent n2 = sent n1 \<and>
    get_server i n2 = Inr (srv\<lparr>status := STATE_REGISTERED, registration := clock n, location := Some (bytes ''/rd/'' @ nat_text (unat cid))\<rparr>)"
proof -
  let ?tok = "take 4 (generated_token (ctx_protocol n) (nextMID n) (clock n))"
  have udp: "ctx_protocol n \<in> {COAP_UDP, COAP_UDP_DTLS}" using n(1) by (simp add: ready_client_def)
  then have tok: "?tok \<noteq> []" "length ?tok \<le> 8" by (auto simp: generated_token_def Let_def)
  note reg = n(4) [unfolded can_register_def]
  obtain b n1 q where b: "prv_register i n = Inr (COAP_NO_ERROR, n1)" "sent n1 = sent n @ [(h, b)]" "length b < 65536" "memory n1 = []"
      "ctx_protocol n1 = ctx_protocol n"
    and q: "coap_parse_message (ctx_protocol n) b (length b) em [] = Inr (COAP_NO_ERROR, q, em, [])"
      "msg_type q = COAP_TYPE_CON" "code q = COAP_POST" "mid q = nextMID n" "payload_of q = pl" "pkt_token q = ?tok" "whole_options q"
      "protocol q = ctx_protocol n" "options_of q = (11, bytes ''rd'') # (12, [40]) # map (Pair 15) (registration_parts name (msisdn n) srv)"
    using registration_sent [OF n(1-4) pl] by (metis append_Nil2)
  obtain os alt' where os: "prv_decodeRegisterPayload pl [] = Inr ((os, False, alt'), [])"
    "\<forall>j. map_option instanceList (lwm2m_list_find co_id os j) = announced (object_list n) (object_state n) j"
    using registration_payload_read [OF pl(1,2) _ objs(1) alt] pl(3) by auto
  have "os \<noteq> []" using os(2) objs(2) by force
  have len: "unat (word_of_nat k :: u16) = k" if "k < 65536" for k using that by (simp add: unat_of_nat)
  have q1: "coap_parse_message (ctx_protocol s) b (unat (word_of_nat (length b) :: u16)) em [] = Inr (COAP_NO_ERROR, q, em, [])"
    using q(1) len [OF b(3)] s(2) by simp
  let ?c = "registered_client cid name (msisdn n) srv alt' from (clock s) os"
  let ?s1 = "tell_monitor cid COAP_201_CREATED (s\<lparr>clientList := lwm2m_list_add internalID (clientList s) ?c\<rparr>)"
  obtain r p' where r: "coap_serialize_message (created_answer (ctx_protocol s) (mid q) (pkt_token q) cid) = Inr (r, p')"
    "server_handle_packet b (length b) from em s = Inr (em, ?s1\<lparr>sent := sent s @ [(from, r)]\<rparr>)"
    using registration_served [OF s(1,3,5,6) q1 q(2) _ q(3,7) _ _ q(9) named, of os alt' "from"] q(6,8) s(2) reg os(1) \<open>os \<noteq> []\<close> q(5) tok by auto
  have c: "find_client cid (?s1\<lparr>sent := sent s @ [(from, r)]\<rparr>) = Some ?c"
    using client_added_found [OF s(6,4), of ?c] by (simp add: find_client_def tell_monitor_def notify_user_def registered_id)
  note r1 = r(1) [unfolded s(2) q(4,6)]
  obtain a where a: "coap_parse_message (ctx_protocol n) r (length r) em [] = Inr (COAP_NO_ERROR, a, em, [])" "msg_type a = COAP_TYPE_ACK" "mid a = nextMID n"
    "code a = COAP_201_CREATED" "IS_OPTION a COAP_OPTION_TOKEN" "pkt_token a = ?tok" "\<forall>x \<in> set (location_path a). whole_option x"
    "map option_bytes (location_path a) = [bytes ''rd'', nat_text (unat cid)]"
    using answer_read(1) [OF udp tok(2,1) r1, of "[]" em] by auto
  obtain n2 where n2: "transaction_handleResponse client_callback h a False n1 = Inr (True, n2)" "transactionList n2 = []" "sent n2 = sent n1"
    "get_server i n2 = Inr (srv\<lparr>status := STATE_REGISTERED, registration := clock n, location := Some (bytes ''/rd/'' @ nat_text (unat cid))\<rparr>)"
    using registration_handshake [OF n(1-4) pl n(5) a(2-7) refl] b(1) a(8) by (auto simp: bytes_def)
  have same: "n1\<lparr>memory := []\<rparr> = n1" using b(4) by simp
  have "lwm2m_handle_packet r (length r) h em n1 = Inr (em, n2)"
    using a(1,2,4) n2(1) b(4,5) len [OF answer_read(2) [OF udp tok(2,1) r1]]
    by (simp add: lwm2m_handle_packet_def packet_answer_def same)
  then show ?thesis
    using b(1,2) r(2) c n2(2-4) os(2)
    by (intro exI [of _ b] exI [of _ n1] exI [of _ r] exI [of _ "?s1\<lparr>sent := sent s @ [(from, r)]\<rparr>"] exI [of _ ?c] exI [of _ n2])
      (simp add: registered_client_def Let_def)
qed

text \<open>The client with the objects of \<open>ex_table\<close>, and a server that has no client yet.\<close>

definition ex_device :: "unit lwm2m_context" where
  "ex_device = ex_ready\<lparr>object_list := ex_table\<rparr>"

definition ex_root_payload :: "byte list" where
  "ex_root_payload = bytes ''</>;rt='' @ [34] @ bytes ''oma.lwm2m'' @ [34] @ bytes '',</1/0>,</1/2>,</3>''"

definition ex_host :: server_context where
  "ex_host = \<lparr>transactionList = [], nextMID = 90, ctx_protocol = COAP_UDP, next_ref = 0, clock = 5000, link = [], sent = [], memory = [],
     clientList = [], has_monitor = True, events = []\<rparr>"

lemma ex_root_payload: "object_getRegisterPayload ex_table None () 512 = Inr ex_root_payload"
  by code_simp

theorem registration_over_the_wire_witness:
  "\<exists>b n1 r s1 c n2. prv_register 0 ex_device = Inr (COAP_NO_ERROR, n1) \<and> server_handle_packet b (length b) 8 [] ex_host = Inr ([], s1) \<and>
    find_client 0 s1 = Some c \<and> c_name c = bytes ''board'' \<and> c_lifetime c = 300 \<and>
    map_option instanceList (lwm2m_list_find co_id (c_objects c) 1) = Some [0, 2] \<and>
    lwm2m_handle_packet r (length r) 3 [] n1 = Inr ([], n2) \<and>
    get_server 0 n2 = Inr (ex_server\<lparr>status := STATE_REGISTERED, registration := 1000, location := Some (bytes ''/rd/'' @ nat_text 0)\<rparr>)"
proof -
  have n: "ready_client ex_device" "get_server 0 ex_device = Inr ex_server" "can_register ex_device ex_server (bytes ''board'')"
    "transactionList ex_device = []" "object_list ex_device = ex_table" "object_state ex_device = ()" "altPath ex_device = None"
    "msisdn ex_device = None" "clock ex_device = 1000" "ctx_protocol ex_device = COAP_UDP"
    using ex_ready_ok by (simp_all add: ex_device_def ready_client_def get_server_def can_register_def ex_ready_defs)
  have pl: "object_getRegisterPayload (object_list ex_device) (altPath ex_device) (object_state ex_device) 512 = Inr ex_root_payload"
    using ex_root_payload by (simp add: n)
  have "announceable ex_table ()" by (simp add: announceable_def ex_table_def ex_ops_def)
  moreover have "announced ex_table () 1 = Some [0, 2]" by (simp add: announced_def find_object_def ex_table_def ex_ops_def)
  moreover have "ready_server ex_host" "ctx_protocol ex_host = COAP_UDP" "prv_getClientByName ex_host (bytes ''board'') = None"
    "clientList ex_host = []" "lwm2m_list_newId (internalID :: lwm2m_client \<Rightarrow> u16) [] = 0"
    by (simp_all add: ready_server_def ex_host_def prv_getClientByName_def lwm2m_list_newId_def)
  moreover have "lifetime ex_server = 300" by (simp add: ex_ready_defs)
  moreover have "ex_root_payload \<noteq> []" "length ex_root_payload \<le> 512" "bytes ''board'' \<noteq> []"
    by (simp_all add: ex_root_payload_def bytes_def)
  ultimately obtain b n1 r s1 c n2 where
    "prv_register 0 ex_device = Inr (COAP_NO_ERROR, n1)" "server_handle_packet b (length b) 8 [] ex_host = Inr ([], s1)"
    "find_client 0 s1 = Some c" "c_name c = bytes ''board''" "c_lifetime c = 300"
    "\<forall>j. map_option instanceList (lwm2m_list_find co_id (c_objects c) j) = announced ex_table () j"
    "lwm2m_handle_packet r (length r) 3 [] n1 = Inr ([], n2)"
    "get_server 0 n2 = Inr (ex_server\<lparr>status := STATE_REGISTERED, registration := 1000, location := Some (bytes ''/rd/'' @ nat_text 0)\<rparr>)"
    using registration_over_the_wire [OF n(1,2) ex_ready_ok(3) n(3,4) pl, of 1 ex_host 0 8 "[]"] by (auto simp: n)
  then show ?thesis using \<open>announced ex_table () 1 = Some [0, 2]\<close> by metis
qed

end
