(* ===== verification/Spec2Isabelle.thy ===== *)
theory Spec2Isabelle
imports Lwm2m_Base64 Tlv Object_Server Object_Security Object_Acl Object_Test Object_Device
  Object_ConnMoni Object_Firmware Object_ConnStat Object_Location C_Float Command_Line Uri Server_Shell Ethernet Platform_Alt
  Connection Objects Client_Reachable Coap_Bounds Client_States Notifications Registration_Wire
begin

text \<open>
  A development on embeded-security, the firmware of an STM32 board that speaks LWM2M over DTLS.

  The program. \<^verbatim>\<open>app/main.c\<close> starts FreeRTOS and a sample; \<^verbatim>\<open>app/net/app_ethernet.c\<close> brings the network
  up and starts the registered tasks. The samples of interest are \<^verbatim>\<open>samples/stm32/lwm2m/client\<close> and
  \<^verbatim>\<open>samples/stm32/lwm2m/server\<close>: a client that shows nine LWM2M objects (\<^verbatim>\<open>app/lwm2m\<close>) and a shell that
  manages clients. Both drive the wakaama library (\<^verbatim>\<open>external/wakaama\<close>): its core calls the callbacks of
  the objects through \<^verbatim>\<open>objects.c\<close>, encodes their values with \<^verbatim>\<open>data.c\<close>, \<^verbatim>\<open>tlv.c\<close> and \<^verbatim>\<open>utils.c\<close>, and
  keeps observations in \<^verbatim>\<open>observe.c\<close>. Bytes travel through \<^verbatim>\<open>lwm2m_connection.c\<close> and, with DTLS, through
  the wrapper \<^verbatim>\<open>app/lwm2m/easy_tls.c\<close> over mbedTLS, whose platform layer is \<^verbatim>\<open>app/mbedtls_alt\<close>.

  Conventions. A C function is a HOL function with the state as argument and result. A result type
  \<open>'a res\<close> is \<open>Inl\<close> a fault of the machine model (null dereference, access out of bounds, use after
  free, a free of something else than a block, signed overflow, a union read through the wrong member, a loop that
  does not end) or \<open>Inr\<close> what
  the function returns; that a function stays defined is \<open>ok\<close>. Status codes and -1 are ordinary values.
  Machine integers are words of their width, \<^verbatim>\<open>int\<close> and \<^verbatim>\<open>long\<close> have 32 bits, times are 32-bit signed
  integers. A block of memory is its list of bytes, a null pointer is \<open>None\<close>, a pointer into a string is
  the rest of its array. \<^verbatim>\<open>malloc\<close> reads its answers from a list of booleans (\<open>mem\<close>), an exhausted list
  means success; sockets and the calls of mbedTLS read their answers from such lists too, so a theorem
  over all lists covers every behaviour of the allocator, the network and the library. A linked list is
  the HOL list of its nodes. Floating point values are their IEEE bit patterns, with rounding written
  out over ratios of integers (\<open>Ieee\<close>).

  Theories, bottom up.

  \<^item> \<open>Prelude\<close>: results, faults, the allocator, C strings and \<^verbatim>\<open>strncmp\<close>, lemmas on words and lists.
  \<^item> \<open>Lwm2m_List\<close> (\<^verbatim>\<open>lwm2m_list.c\<close>): sorted instance lists; they refine maps from ids to nodes. The locale
    \<open>instance_store\<close> is their interface.
  \<^item> \<open>Ieee\<close>, \<open>Lwm2m_Utils\<close>, \<open>Lwm2m_Base64\<close>, \<open>Float_Text\<close> (\<^verbatim>\<open>utils.c\<close>): numbers, bindings, Base64 and their
    texts, with the round trips.
  \<^item> \<open>Lwm2m_Data\<close>, \<open>Tlv\<close>, \<open>Lwm2m_Types\<close>, \<open>Data_Format\<close> (\<^verbatim>\<open>data.c\<close>, \<^verbatim>\<open>tlv.c\<close>): data elements, the TLV codec
    (round trip, no overrun, termination), the formats of a payload.
  \<^item> \<open>C_Text\<close>, \<open>C_Float\<close>, \<open>Command_Line\<close>, \<open>Uri\<close> (\<^verbatim>\<open>commandline.c\<close>, \<^verbatim>\<open>uri.c\<close>): text of the C library, the
    command line, URIs.
  \<^item> \<open>Lwm2m_Object\<close>: what all objects share. Its locales \<open>resource_reader\<close>, \<open>resource_writer\<close>, \<open>safe_writer\<close>
    and \<open>instance_writer\<close> are the contracts of the read and write callbacks, \<open>step_invariant\<close> the one of a
    step relation; each object interprets them.
  \<^item> \<open>Object_Security\<close>, \<open>Object_Server\<close>, \<open>Object_Acl\<close>, \<open>Object_Device\<close>, \<open>Object_ConnMoni\<close>, \<open>Object_Firmware\<close>,
    \<open>Object_Location\<close>, \<open>Object_ConnStat\<close>, \<open>Object_Test\<close> (\<^verbatim>\<open>app/lwm2m/object_*.c\<close>, \<^verbatim>\<open>test_object.c\<close>): the
    state, callbacks and constructor of each object, its invariant over all sequences of callbacks, its
    behaviour on every resource.
  \<^item> \<open>Observed\<close> (\<^verbatim>\<open>observe.c\<close>), \<open>Discover\<close> (\<^verbatim>\<open>discover.c\<close>), \<open>Block1\<close> (\<^verbatim>\<open>block1.c\<close>): observations, link format,
    block-wise payloads.
  \<^item> \<open>Objects\<close> (\<^verbatim>\<open>objects.c\<close>): the dispatch of requests over tables of callbacks. The locale \<open>object_table\<close>
    says what all tables of a client promise, \<open>instance_object\<close> what an object with deletable instances
    promises.
  \<^item> \<open>Client_Objects\<close>, \<open>Client_Requests\<close>, \<open>Client_Reachable\<close> (\<^verbatim>\<open>lwm2m_client_main.c\<close>): the nine objects over
    one state, the interpretations of those locales on them, the states reachable from the start.
  \<^item> \<open>Coap_Packet\<close>, \<open>Coap_Serialize\<close>, \<open>Coap_Parse\<close> (\<^verbatim>\<open>er-coap-13.c\<close>, \<^verbatim>\<open>er-coap-13.h\<close>): the packets of CoAP with
    their options, the serializers over UDP and TCP, the parser. \<open>Coap_Roundtrip\<close> relates both to a list of
    numbered options, \<open>Coap_Bounds\<close> has the sizes and the limits of the arrays.
  \<^item> \<open>Transaction\<close>, \<open>Schedule\<close> (\<^verbatim>\<open>transaction.c\<close>, \<^verbatim>\<open>message_send\<close>): transactions over the callbacks as a
    parameter, the effect of a step and of an answer, the times of the retransmissions. The locale
    \<open>transaction_callbacks\<close> is the contract of the callbacks.
  \<^item> \<open>Registration\<close>, \<open>Bootstrap\<close>, \<open>Notify\<close>, \<open>Device_Management\<close>, \<open>Packet\<close>, \<open>Lwm2m_Core\<close> (the client side of
    \<^verbatim>\<open>registration.c\<close>, \<^verbatim>\<open>bootstrap.c\<close>, \<^verbatim>\<open>observe.c\<close>, \<^verbatim>\<open>management.c\<close>, \<^verbatim>\<open>packet.c\<close> and \<^verbatim>\<open>liblwm2m.c\<close>): the context of a
    client, its servers, the requests it sends and serves, its step and its end. \<open>Client_Transactions\<close>
    interprets the contract of the callbacks on those of the client.
  \<^item> \<open>Exchange\<close>: a registration from the call over the datagram to the answer. \<open>Requests\<close>: what strangers and servers can
    reach, block-wise answers. \<open>Lifecycle\<close>: the status of a server as a state machine (locale \<open>callback_relation\<close>,
    interpreted on the callbacks of the client). \<open>Client_States\<close>: the machine of the client itself, updates on time.
    \<open>Notifications\<close>: when a watcher is notified.
  \<^item> \<open>Register_Decode\<close>, \<open>Client_Registry\<close>, \<open>Server_Requests\<close>, \<open>Server_Packets\<close> (the server side of \<^verbatim>\<open>registration.c\<close>,
    \<^verbatim>\<open>observe.c\<close>, \<^verbatim>\<open>management.c\<close>, \<^verbatim>\<open>packet.c\<close> and \<^verbatim>\<open>liblwm2m.c\<close>): the clients of a server, the requests to them, what it
    receives, its step. \<open>Register_Payload\<close>: the list of objects that a client announces is the one that the server reads.
    \<open>Registration_Wire\<close>: a registration over both sides, from the call of the client to its end.
  \<^item> \<open>Server_Shell\<close> (\<^verbatim>\<open>lwm2m_server_main.c\<close>): the commands of the server shell over the calls of the core
    as a parameter.
  \<^item> \<open>Net_Sockets\<close>, \<open>Platform_Alt\<close> (\<^verbatim>\<open>app/mbedtls_alt\<close>), \<open>Easy_Tls\<close> (\<^verbatim>\<open>easy_tls.c\<close>), \<open>Connection\<close>
    (\<^verbatim>\<open>lwm2m_connection.c\<close>): sockets with their descriptors, TLS contexts and sessions with the blocks they
    own, connections; leaks, double frees and the balance of every session.
  \<^item> \<open>Ethernet\<close> (\<^verbatim>\<open>app_ethernet.c\<close>): the start of the interface and the DHCP task as a state machine.

  Loops. Those over data are structural or have a measure; \<open>tlv_parse\<close> is total because every record has
  at least one byte of header. \<open>delete_all\<close> in \<open>Objects\<close> and the DHCP task may run for ever, so they are
  partial functions or have fuel, and that they end is a theorem.

  Not modelled. \<^verbatim>\<open>json.c\<close>, which only the server build has. The bootstrap server of \<^verbatim>\<open>bootstrap.c\<close>, which no build
  has, and the main loops of the demos. Vendored code (mbedTLS,
  lwIP, FatFs, FreeRTOS, libcoap, the drivers of the vendor) appears through its documented answers only.
  Functions that only print are left out, except those whose reads leave their buffers.
\<close>

end
